(* ===== verification/Prelude.thy ===== *)
theory Prelude
  imports
    Main
    "HOL-Library.Char_ord"
    "HOL-Library.List_Lexorder"
    "HOL-Library.Sublist"
    "HOL-Library.Word"
begin

text \<open>
  What every component of the model shares.

  Rust's \<open>String\<close>, \<open>&str\<close>, \<open>Vec<u8>\<close> and \<open>&[u8]\<close> are all lists of bytes here: a
  \<open>string\<close> of HOL is a list of \<open>char\<close>, and a \<open>char\<close> is one byte. The order of
  \<open>HOL-Library.Char_ord\<close> and \<open>List_Lexorder\<close> is the bytewise lexicographic order that
  Rust's \<open>Ord\<close> of strings and byte vectors is. A \<open>Result\<close> is a sum whose left summand is
  the error; \<open>usize\<close> counters and indices are \<open>nat\<close>; \<open>u8\<close>, \<open>u32\<close>, \<open>u64\<close> values
  whose bits or bounds matter are words.

  A \<open>BTreeMap\<close> that is iterated is an association list in strictly increasing key order
  (\<open>bt_ok\<close>), built by \<open>bt_insert\<close> and read by \<open>map_of\<close>; a \<open>BTreeMap\<close> keyed by the
  four roles, which is only ever looked up, is a partial function.
\<close>

named_theorems str_simps \<open>equations of the string functions of the standard library\<close>
named_theorems res_simps \<open>equations of the result plumbing\<close>

type_synonym bytes = string
type_synonym u8 = "8 word"
type_synonym u32 = "32 word"
type_synonym u64 = "64 word"

subsection \<open>Results\<close>

fun res_bind :: "'e + 'a \<Rightarrow> ('a \<Rightarrow> 'e + 'b) \<Rightarrow> 'e + 'b" where
  "res_bind (Inl e) f = Inl e"
| "res_bind (Inr a) f = f a"

fun res_map_err :: "('e \<Rightarrow> 'f) \<Rightarrow> 'e + 'a \<Rightarrow> 'f + 'a" where
  "res_map_err f (Inl e) = Inl (f e)"
| "res_map_err f (Inr a) = Inr a"

lemma res_map_err_Inr: "res_map_err f r = Inr x \<longleftrightarrow> r = Inr x"
  by (cases r) auto

fun ok_or :: "'e \<Rightarrow> 'a option \<Rightarrow> 'e + 'a" where
  "ok_or e None = Inl e"
| "ok_or e (Some a) = Inr a"

text \<open>\<open>iter.map(f).collect::<Result<Vec<_>, _>>()\<close>: the first error wins.\<close>

fun res_collect :: "('a \<Rightarrow> 'e + 'b) \<Rightarrow> 'a list \<Rightarrow> 'e + 'b list" where
  "res_collect f [] = Inr []"
| "res_collect f (x # xs) =
     (case f x of
        Inl e \<Rightarrow> Inl e
      | Inr y \<Rightarrow> (case res_collect f xs of Inl e \<Rightarrow> Inl e | Inr ys \<Rightarrow> Inr (y # ys)))"

text \<open>A \<open>for\<close> loop whose body may return early with an error.\<close>

fun res_fold :: "('s \<Rightarrow> 'a \<Rightarrow> 'e + 's) \<Rightarrow> 's \<Rightarrow> 'a list \<Rightarrow> 'e + 's" where
  "res_fold f s [] = Inr s"
| "res_fold f s (x # xs) =
     (case f s x of Inl e \<Rightarrow> Inl e | Inr s' \<Rightarrow> res_fold f s' xs)"

lemma res_bind_Inr [res_simps]:
  "res_bind r f = Inr b \<longleftrightarrow> (\<exists>a. r = Inr a \<and> f a = Inr b)"
  by (cases r) auto

lemma res_bind_Inl [res_simps]:
  "res_bind r f = Inl e \<longleftrightarrow> r = Inl e \<or> (\<exists>a. r = Inr a \<and> f a = Inl e)"
  by (cases r) auto

lemma res_collect_Inr:
  "res_collect f xs = Inr ys \<longleftrightarrow> list_all2 (\<lambda>x y. f x = Inr y) xs ys"
proof (induction xs arbitrary: ys)
  case Nil
  then show ?case by auto
next
  case (Cons x xs)
  show ?case
  proof (cases "res_collect f xs")
    case (Inl e)
    then show ?thesis using Cons[of "tl ys"] by (cases ys) (auto split: sum.splits)
  next
    case (Inr zs)
    then have "list_all2 (\<lambda>x y. f x = Inr y) xs us \<longleftrightarrow> us = zs" for us
      using Cons[of us] by auto
    then show ?thesis using Inr by (cases ys) (auto split: sum.splits)
  qed
qed

lemma res_collect_Inl:
  "res_collect f xs = Inl e \<Longrightarrow> \<exists>x \<in> set xs. f x = Inl e"
  by (induction xs) (auto split: sum.splits)

lemma res_collect_total:
  "(\<And>x. x \<in> set xs \<Longrightarrow> \<exists>y. f x = Inr y) \<Longrightarrow> \<exists>ys. res_collect f xs = Inr ys"
proof (induction xs)
  case Nil
  then show ?case by simp
next
  case (Cons x xs)
  from Cons.prems obtain y where "f x = Inr y" by force
  moreover from Cons obtain ys where "res_collect f xs = Inr ys" by auto
  ultimately show ?case by simp
qed

text \<open>An invariant of the state goes through a loop.\<close>

lemma res_fold_invariant:
  assumes "res_fold f s xs = Inr t" and "P s"
    and "\<And>s x s'. x \<in> set xs \<Longrightarrow> P s \<Longrightarrow> f s x = Inr s' \<Longrightarrow> P s'"
  shows "P t"
  using assms
proof (induction xs arbitrary: s)
  case Nil
  then show ?case by simp
next
  case (Cons x xs)
  from Cons.prems(1) obtain s' where s': "f s x = Inr s'" and rest: "res_fold f s' xs = Inr t"
    by (auto split: sum.splits)
  have "P s'" using Cons.prems(2,3) s' by (meson list.set_intros(1))
  with rest show ?case by (rule Cons.IH) (meson Cons.prems(3) list.set_intros(2))
qed

lemma res_fold_error:
  assumes "res_fold f s xs = Inl e" and "P s"
    and "\<And>s x s'. x \<in> set xs \<Longrightarrow> P s \<Longrightarrow> f s x = Inr s' \<Longrightarrow> P s'"
  shows "\<exists>s' x. P s' \<and> x \<in> set xs \<and> f s' x = Inl e"
  using assms
proof (induction xs arbitrary: s)
  case Nil
  then show ?case by simp
next
  case (Cons x xs)
  show ?case
  proof (cases "f s x")
    case (Inl e')
    then show ?thesis using Cons.prems by auto
  next
    case (Inr s')
    then have "\<exists>s'' y. P s'' \<and> y \<in> set xs \<and> f s'' y = Inl e"
      using Cons.prems by (intro Cons.IH[of s']) auto
    then show ?thesis by auto
  qed
qed

subsection \<open>Lists and options\<close>

fun nth_opt :: "'a list \<Rightarrow> nat \<Rightarrow> 'a option" where
  "nth_opt [] i = None"
| "nth_opt (x # xs) 0 = Some x"
| "nth_opt (x # xs) (Suc i) = nth_opt xs i"

lemma nth_opt_eq: "nth_opt xs i = (if i < length xs then Some (xs ! i) else None)"
  by (induction xs i rule: nth_opt.induct) auto

text \<open>\<open>xs.get(a..b)\<close> and the panicking slice \<open>xs[a..b]\<close>.\<close>

definition slice_opt :: "'a list \<Rightarrow> nat \<Rightarrow> nat \<Rightarrow> 'a list option" where
  "slice_opt xs a b = (if a \<le> b \<and> b \<le> length xs then Some (take (b - a) (drop a xs)) else None)"

fun find_map :: "('a \<Rightarrow> 'b option) \<Rightarrow> 'a list \<Rightarrow> 'b option" where
  "find_map f [] = None"
| "find_map f (x # xs) = (case f x of Some y \<Rightarrow> Some y | None \<Rightarrow> find_map f xs)"

lemma find_map_Some: "find_map f xs = Some y \<Longrightarrow> \<exists>x \<in> set xs. f x = Some y"
  by (induction xs) (auto split: option.splits)

lemma find_map_None: "find_map f xs = None \<longleftrightarrow> (\<forall>x \<in> set xs. f x = None)"
  by (induction xs) (auto split: option.splits)

lemma find_SomeD: "find P xs = Some x \<Longrightarrow> x \<in> set xs \<and> P x"
  by (induction xs) (auto split: if_splits)

text \<open>\<open>if !xs.contains(&x) { xs.push(x) }\<close>.\<close>

definition push_new :: "'a \<Rightarrow> 'a list \<Rightarrow> 'a list" where
  "push_new x xs = (if x \<in> set xs then xs else xs @ [x])"

lemma set_push_new [simp]: "set (push_new x xs) = insert x (set xs)"
  by (auto simp: push_new_def)

lemma distinct_push_new [simp]: "distinct (push_new x xs) = distinct xs"
  by (auto simp: push_new_def)

fun enum_from :: "nat \<Rightarrow> 'a list \<Rightarrow> (nat \<times> 'a) list" where
  "enum_from i [] = []"
| "enum_from i (x # xs) = (i, x) # enum_from (Suc i) xs"

lemma set_enum_from: "set (enum_from k xs) = {(k + i, xs ! i) | i. i < length xs}"
proof (induction xs arbitrary: k)
  case Nil
  then show ?case by simp
next
  case (Cons x xs)
  have "{(k + i, (x # xs) ! i) | i. i < length (x # xs)} =
        insert (k, x) {(Suc k + i, xs ! i) | i. i < length xs}" (is "?L = ?R")
  proof (intro set_eqI iffI)
    fix p assume "p \<in> ?L"
    then obtain i where "p = (k + i, (x # xs) ! i)" "i < length (x # xs)" by blast
    then show "p \<in> ?R" by (cases i) auto
  next
    fix p assume "p \<in> ?R"
    then consider "p = (k, x)" | i where "p = (Suc k + i, xs ! i)" "i < length xs" by blast
    then show "p \<in> ?L"
    proof cases
      case 1
      then show ?thesis by (auto intro!: exI[of _ 0])
    next
      case (2 i)
      then show ?thesis by (auto intro!: exI[of _ "Suc i"])
    qed
  qed
  then show ?case using Cons by simp
qed

lemma in_enum_from: "(i, x) \<in> set (enum_from k xs) \<Longrightarrow> x \<in> set xs"
  by (auto simp: set_enum_from)

lemma map_snd_enum_from [simp]: "map snd (enum_from k xs) = xs"
  by (induction xs arbitrary: k) auto

lemma length_enum_from [simp]: "length (enum_from k xs) = length xs"
  by (induction xs arbitrary: k) auto

lemma map_fst_enum_from: "map fst (enum_from k xs) = [k..<k + length xs]"
  by (induction xs arbitrary: k) (auto simp: upt_rec simp del: upt_Suc)

lemma enum_from_append:
  "enum_from k (xs @ ys) = enum_from k xs @ enum_from (k + length xs) ys"
  by (induction xs arbitrary: k) auto

subsection \<open>Strings\<close>

text \<open>\<open>str::split(c)\<close>: never empty, one piece more than there are separators.\<close>

fun split_on :: "char \<Rightarrow> string \<Rightarrow> string list" where
  "split_on c [] = [[]]"
| "split_on c (x # xs) =
     (if x = c then [] # split_on c xs
      else (case split_on c xs of [] \<Rightarrow> [[x]] | e # es \<Rightarrow> (x # e) # es))"

fun join_with :: "string \<Rightarrow> string list \<Rightarrow> string" where
  "join_with sep [] = []"
| "join_with sep [x] = x"
| "join_with sep (x # y # ys) = x @ sep @ join_with sep (y # ys)"

lemma split_on_ne [simp]: "split_on c s \<noteq> []"
  by (cases s) (auto split: list.splits)

lemma split_on_Cons_ne: "x \<noteq> c \<Longrightarrow>
   split_on c (x # xs) = (x # hd (split_on c xs)) # tl (split_on c xs)"
  by (cases "split_on c xs") auto

lemma join_split [simp]: "join_with [c] (split_on c s) = s"
proof (induction s)
  case Nil
  then show ?case by simp
next
  case (Cons x xs)
  obtain e es where e: "split_on c xs = e # es" by (meson neq_Nil_conv split_on_ne)
  with Cons have "join_with [c] (e # es) = xs" by simp
  then show ?case by (cases es) (auto simp: e)
qed

lemma split_on_elem: "e \<in> set (split_on c s) \<Longrightarrow> c \<notin> set e"
  by (induction s arbitrary: e) (auto split: if_splits list.splits)

lemma split_on_no_sep: "c \<notin> set s \<Longrightarrow> split_on c s = [s]"
  by (induction s) auto

lemma split_on_append:
  "split_on c (s @ c # t) = split_on c s @ split_on c t"
  by (induction s) (auto split: list.splits)

lemma split_on_append2:
  "split_on c (s @ [c] @ t) = split_on c s @ split_on c t"
  using split_on_append by simp

lemma split_join:
  "xs \<noteq> [] \<Longrightarrow> \<forall>x \<in> set xs. c \<notin> set x \<Longrightarrow> split_on c (join_with [c] xs) = xs"
  by (induction "[c]" xs rule: join_with.induct)
     (auto simp: split_on_append split_on_no_sep)

lemma join_with_append:
  "xs \<noteq> [] \<Longrightarrow> ys \<noteq> [] \<Longrightarrow> join_with sep (xs @ ys) = join_with sep xs @ sep @ join_with sep ys"
proof (induction sep xs rule: join_with.induct)
  case (2 sep x)
  then show ?case by (cases ys) auto
qed auto

lemma set_join_with: "set (join_with sep xs) \<subseteq> set sep \<union> \<Union> (set ` set xs)"
  by (induction sep xs rule: join_with.induct) auto

definition trim_end_matches :: "char \<Rightarrow> string \<Rightarrow> string" where
  "trim_end_matches c s = rev (dropWhile (\<lambda>x. x = c) (rev s))"

lemma trim_end_nil [simp]: "trim_end_matches c [] = []"
  by (simp add: trim_end_matches_def)

lemma trim_end_snoc [simp]:
  "trim_end_matches c (s @ [x]) = (if x = c then trim_end_matches c s else s @ [x])"
  by (simp add: trim_end_matches_def)

lemma trim_end_decomp: "\<exists>k. s = trim_end_matches c s @ replicate k c"
proof (induction s rule: rev_induct)
  case Nil
  then show ?case by simp
next
  case (snoc x s)
  then obtain k where k: "s = trim_end_matches c s @ replicate k c" by blast
  show ?case
  proof (cases "x = c")
    case True
    have "s @ [x] = trim_end_matches c s @ replicate (Suc k) c"
      using k True by (metis append.assoc replicate_Suc replicate_append_same)
    with True show ?thesis by (metis trim_end_snoc)
  next
    case False
    then show ?thesis by (intro exI[of _ 0]) simp
  qed
qed

lemma trim_end_last: "trim_end_matches c s \<noteq> [] \<Longrightarrow> last (trim_end_matches c s) \<noteq> c"
  by (induction s rule: rev_induct) auto

lemma trim_end_idem [simp]:
  "trim_end_matches c (trim_end_matches c s) = trim_end_matches c s"
  by (induction s rule: rev_induct) auto

fun strip_prefix :: "'a list \<Rightarrow> 'a list \<Rightarrow> 'a list option" where
  "strip_prefix [] s = Some s"
| "strip_prefix (p # ps) [] = None"
| "strip_prefix (p # ps) (x # xs) = (if p = x then strip_prefix ps xs else None)"

lemma strip_prefix_Some [str_simps]: "strip_prefix p s = Some t \<longleftrightarrow> s = p @ t"
  by (induction p s rule: strip_prefix.induct) auto

lemma strip_prefix_append [simp]: "strip_prefix p (p @ t) = Some t"
  by (simp add: strip_prefix_Some)

definition starts_with :: "'a list \<Rightarrow> 'a list \<Rightarrow> bool" where
  "starts_with p s = (strip_prefix p s \<noteq> None)"

lemma starts_with_iff: "starts_with p s \<longleftrightarrow> (\<exists>t. s = p @ t)"
  by (cases "strip_prefix p s") (auto simp: starts_with_def strip_prefix_Some dest!: strip_prefix_Some[THEN iffD1])

definition strip_suffix :: "string \<Rightarrow> string \<Rightarrow> string option" where
  "strip_suffix p s = map_option rev (strip_prefix (rev p) (rev s))"

lemma strip_suffix_Some [str_simps]: "strip_suffix p s = Some t \<longleftrightarrow> s = t @ p"
proof -
  have "strip_prefix (rev p) (rev s) = Some u \<longleftrightarrow> s = rev u @ p" for u
    by (metis rev_append rev_rev_ident strip_prefix_Some)
  then show ?thesis by (fastforce simp: strip_suffix_def)
qed

text \<open>\<open>str::contains\<close> of a string.\<close>

fun str_contains :: "string \<Rightarrow> string \<Rightarrow> bool" where
  "str_contains p [] = (p = [])"
| "str_contains p (x # xs) = (starts_with p (x # xs) \<or> str_contains p xs)"

definition single_quoted :: "string \<Rightarrow> string" where
  "single_quoted s = [CHR 0x27] @ s @ [CHR 0x27]"

definition rsplit_once :: "char \<Rightarrow> string \<Rightarrow> (string \<times> string) option" where
  "rsplit_once c s =
     (if c \<in> set s
      then Some (rev (tl (dropWhile (\<lambda>x. x \<noteq> c) (rev s))), rev (takeWhile (\<lambda>x. x \<noteq> c) (rev s)))
      else None)"

lemma rsplit_once_append:
  "c \<notin> set t \<Longrightarrow> rsplit_once c (s @ c # t) = Some (s, t)"
proof -
  assume t: "c \<notin> set t"
  then have "dropWhile (\<lambda>x. x \<noteq> c) (rev t @ c # rev s) = c # rev s"
    by (subst dropWhile_append2) auto
  moreover have "takeWhile (\<lambda>x. x \<noteq> c) (rev t @ c # rev s) = rev t"
    using t by (subst takeWhile_append2) auto
  ultimately show ?thesis by (simp add: rsplit_once_def)
qed

lemma rsplit_once_None: "rsplit_once c s = None \<longleftrightarrow> c \<notin> set s"
  by (simp add: rsplit_once_def)

lemma rsplit_once_Some: "rsplit_once c s = Some (a, b) \<longleftrightarrow> s = a @ c # b \<and> c \<notin> set b"
proof
  assume *: "rsplit_once c s = Some (a, b)"
  then have "c \<in> set s" by (simp add: rsplit_once_def split: if_splits)
  then obtain a' b' where "s = a' @ c # b'" "c \<notin> set b'" by (meson split_list_last)
  with * rsplit_once_append show "s = a @ c # b \<and> c \<notin> set b" by fastforce
qed (auto simp: rsplit_once_append)

lemma list_less_append: "(xs :: string) < xs @ y # ys"
  by (induction xs) simp_all

lemma sorted_dedup:
  "sorted (xs :: 'a::linorder list) \<Longrightarrow> sorted_wrt (<) (remdups_adj xs)"
proof (induction xs rule: remdups_adj.induct)
  case (3 x y xs)
  then show ?case by (cases "x = y") (auto simp: less_le)
qed simp_all

text \<open>Decimal and octal numbers of \<open>format!\<close>.\<close>

fun show_base :: "nat \<Rightarrow> nat \<Rightarrow> string" where
  "show_base b n =
     (if b < 2 then []
      else if n < b then [char_of (48 + n)] else show_base b (n div b) @ [char_of (48 + n mod b)])"

declare show_base.simps [simp del]

definition show_nat :: "nat \<Rightarrow> string" where
  "show_nat n = show_base 10 n"

definition show_oct :: "nat \<Rightarrow> string" where
  "show_oct n = show_base 8 n"

subsection \<open>Ordered maps\<close>

fun bt_insert :: "'k::linorder \<Rightarrow> 'v \<Rightarrow> ('k \<times> 'v) list \<Rightarrow> ('k \<times> 'v) list" where
  "bt_insert k v [] = [(k, v)]"
| "bt_insert k v ((k', v') # m) =
     (if k < k' then (k, v) # (k', v') # m
      else if k = k' then (k, v) # m
      else (k', v') # bt_insert k v m)"

definition bt_ok :: "('k::linorder \<times> 'v) list \<Rightarrow> bool" where
  "bt_ok m = sorted_wrt (<) (map fst m)"

definition bt_of :: "('k::linorder \<times> 'v) list \<Rightarrow> ('k \<times> 'v) list" where
  "bt_of kvs = fold (\<lambda>(k, v). bt_insert k v) kvs []"

text \<open>The contract of an ordered map, for the clients that build one by insertion.\<close>

locale ordered_map =
  fixes empty_map :: "'m"
    and insert_map :: "'k::linorder \<Rightarrow> 'v \<Rightarrow> 'm \<Rightarrow> 'm"
    and get :: "'m \<Rightarrow> 'k \<Rightarrow> 'v option"
    and keys :: "'m \<Rightarrow> 'k list"
    and inv :: "'m \<Rightarrow> bool"
  assumes inv_empty: "inv empty_map"
    and inv_insert: "inv m \<Longrightarrow> inv (insert_map k v m)"
    and get_empty: "get empty_map k = None"
    and get_insert: "inv m \<Longrightarrow> get (insert_map k v m) k' = (if k' = k then Some v else get m k')"
    and keys_sorted: "inv m \<Longrightarrow> sorted_wrt (<) (keys m)"
    and keys_get: "inv m \<Longrightarrow> k \<in> set (keys m) \<longleftrightarrow> get m k \<noteq> None"
begin

definition build :: "('k \<times> 'v) list \<Rightarrow> 'm" where
  "build kvs = fold (\<lambda>(k, v). insert_map k v) kvs empty_map"

lemma inv_fold: "inv m \<Longrightarrow> inv (fold (\<lambda>(k, v). insert_map k v) kvs m)"
  by (induction kvs arbitrary: m) (auto simp: inv_insert)

lemma inv_build: "inv (build kvs)"
  by (simp add: build_def inv_fold inv_empty)

lemma get_fold:
  "inv m \<Longrightarrow> get (fold (\<lambda>(k, v). insert_map k v) kvs m) k =
     (case map_of (rev kvs) k of Some v \<Rightarrow> Some v | None \<Rightarrow> get m k)"
proof (induction kvs arbitrary: m)
  case Nil
  then show ?case by simp
next
  case (Cons kv kvs)
  obtain k' v' where kv: "kv = (k', v')" by fastforce
  have "inv (insert_map k' v' m)" using Cons.prems by (rule inv_insert)
  from Cons.IH[OF this] show ?case
    using Cons.prems by (auto simp: kv get_insert map_add_def split: option.splits)
qed

text \<open>Of several insertions at one key the last one wins, and no other key appears.\<close>

lemma get_build: "get (build kvs) k = map_of (rev kvs) k"
  by (simp add: build_def get_fold inv_empty get_empty split: option.splits)

lemma keys_build: "set (keys (build kvs)) = fst ` set kvs"
proof (intro set_eqI)
  fix k
  have "k \<in> set (keys (build kvs)) \<longleftrightarrow> map_of (rev kvs) k \<noteq> None"
    using keys_get[OF inv_build] get_build by metis
  then show "k \<in> set (keys (build kvs)) \<longleftrightarrow> k \<in> fst ` set kvs"
    by (simp add: map_of_eq_None_iff)
qed

end

lemma set_keys_bt_insert: "fst ` set (bt_insert k v m) = insert k (fst ` set m)"
  by (induction k v m rule: bt_insert.induct) auto

lemma bt_ok_Nil [simp]: "bt_ok []"
  by (simp add: bt_ok_def)

lemma bt_ok_Cons: "bt_ok ((k, v) # m) \<longleftrightarrow> (\<forall>k' \<in> fst ` set m. k < k') \<and> bt_ok m"
  by (simp add: bt_ok_def)

lemma bt_ok_insert: "bt_ok m \<Longrightarrow> bt_ok (bt_insert k v m)"
proof (induction k v m rule: bt_insert.induct)
  case (2 k v k' v' m)
  have "fst ` set (bt_insert k v m) = insert k (fst ` set m)" by (rule set_keys_bt_insert)
  with 2 show ?case by (force simp: bt_ok_Cons)
qed (simp add: bt_ok_Cons)

lemma bt_get_insert:
  "bt_ok m \<Longrightarrow> map_of (bt_insert k v m) k' = (if k' = k then Some v else map_of m k')"
proof (induction k v m rule: bt_insert.induct)
  case (1 k v)
  then show ?case by simp
next
  case (2 k v k1 v1 m)
  then show ?case by (auto simp: bt_ok_Cons)
qed

interpretation bt: ordered_map "[]" bt_insert map_of "map fst" bt_ok
proof unfold_locales
  show "bt_ok (bt_insert k v m)" if "bt_ok m" for m :: "('a \<times> 'b) list" and k v
    using that by (rule bt_ok_insert)
  show "map_of (bt_insert k v m) k' = (if k' = k then Some v else map_of m k')"
    if "bt_ok m" for m :: "('a \<times> 'b) list" and k v k'
    using that by (rule bt_get_insert)
  show "k \<in> set (map fst m) \<longleftrightarrow> map_of m k \<noteq> None" if "bt_ok m" for m :: "('a \<times> 'b) list" and k
    by (metis set_map map_of_eq_None_iff)
qed (auto simp: bt_ok_def)

lemma bt_of_build: "bt_of kvs = bt.build kvs"
  by (simp add: bt_of_def bt.build_def)

lemma bt_ok_of [simp]: "bt_ok (bt_of kvs)"
  by (simp add: bt_of_build bt.inv_build)

lemma map_of_bt_of: "map_of (bt_of kvs) k = map_of (rev kvs) k"
  by (simp add: bt_of_build bt.get_build)

lemma keys_bt_of: "fst ` set (bt_of kvs) = fst ` set kvs"
  using bt.keys_build[of kvs] by (simp add: bt_of_build)

lemma bt_ok_distinct: "bt_ok m \<Longrightarrow> distinct (map fst m)"
  by (simp add: bt_ok_def strict_sorted_iff)

lemma bt_ok_map_of: "bt_ok m \<Longrightarrow> (k, v) \<in> set m \<longleftrightarrow> map_of m k = Some v"
  using bt_ok_distinct by (metis map_of_eq_Some_iff)

subsection \<open>Filtering and mapping at once\<close>

lemma set_map_filter: "y \<in> set (List.map_filter f xs) \<longleftrightarrow> (\<exists>x \<in> set xs. f x = Some y)"
  by (induction xs) (auto simp: List.map_filter_simps split: option.splits)

lemma map_filter_Nil: "List.map_filter f xs = [] \<longleftrightarrow> (\<forall>x \<in> set xs. f x = None)"
  by (induction xs) (auto simp: map_filter_simps split: option.splits)

text \<open>\<open>extend\<close> of a vector with an optional value.\<close>

definition opt_list :: "'a option \<Rightarrow> 'a list" where
  "opt_list x = (case x of Some y \<Rightarrow> [y] | None \<Rightarrow> [])"

lemma opt_list_simps [simp]: "opt_list None = []" "opt_list (Some y) = [y]"
  by (simp_all add: opt_list_def)

lemma map_filter_opt_list: "List.map_filter f (x # xs) = opt_list (f x) @ List.map_filter f xs"
  by (simp add: map_filter_simps split: option.splits)

subsection \<open>UTF-8\<close>

text \<open>
  \<open>std::str::from_utf8\<close>. \<open>utf8_head s\<close> is the number of bytes of the well-formed scalar
  value \<open>s\<close> starts with, 0 when it starts with none.
\<close>

definition byte_in :: "nat \<Rightarrow> nat \<Rightarrow> char \<Rightarrow> bool" where
  "byte_in lo hi c = (lo \<le> of_char c \<and> of_char c \<le> hi)"

definition utf8_cont :: "char \<Rightarrow> bool" where
  "utf8_cont = byte_in 128 191"

definition utf8_second :: "char \<Rightarrow> char \<Rightarrow> bool" where
  "utf8_second a b =
     (if byte_in 224 224 a then byte_in 160 191 b
      else if byte_in 237 237 a then byte_in 128 159 b
      else if byte_in 240 240 a then byte_in 144 191 b
      else if byte_in 244 244 a then byte_in 128 143 b
      else utf8_cont b)"

fun utf8_head :: "string \<Rightarrow> nat" where
  "utf8_head [] = 0"
| "utf8_head (a # s) =
     (if byte_in 0 127 a then 1
      else if byte_in 194 223 a
        then (case s of b # _ \<Rightarrow> if utf8_cont b then 2 else 0 | [] \<Rightarrow> 0)
      else if byte_in 224 239 a
        then (case s of b # c # _ \<Rightarrow> if utf8_second a b \<and> utf8_cont c then 3 else 0 | _ \<Rightarrow> 0)
      else if byte_in 240 244 a
        then (case s of b # c # d # _ \<Rightarrow>
                if utf8_second a b \<and> utf8_cont c \<and> utf8_cont d then 4 else 0
              | _ \<Rightarrow> 0)
      else 0)"

lemma utf8_head_le: "utf8_head s \<le> length s"
  by (cases s) (auto split: list.splits)

function is_utf8 :: "string \<Rightarrow> bool" where
  "is_utf8 s =
     (if s = [] then True else if utf8_head s = 0 then False else is_utf8 (drop (utf8_head s) s))"
  by pat_completeness auto
termination
proof (relation "measure length")
  fix s :: string
  assume "s \<noteq> []" and "utf8_head s \<noteq> 0"
  then show "(drop (utf8_head s) s, s) \<in> measure length"
    using utf8_head_le[of s] by auto
qed simp

declare is_utf8.simps [simp del]

lemma is_utf8_Nil [simp]: "is_utf8 []"
  by (simp add: is_utf8.simps)

lemma is_utf8_Cons:
  "is_utf8 (a # s) = (utf8_head (a # s) \<noteq> 0 \<and> is_utf8 (drop (utf8_head (a # s)) (a # s)))"
  by (subst is_utf8.simps) simp

end
