(* ===== verification/OpFailure.thy ===== *)
theory OpFailure
  imports Prelude
begin

text \<open>
  The failures of the operations on one entry (\<open>op_failure/\<close> of remote-merge-core), the words
  they are shown with, the size limit of a read, and the permission values of
  \<open>machine_ops/mode.rs\<close>. Every route returns this one failure type; whether to stop or go on
  is decided outside the routes.
\<close>

unbundle bit_operations_syntax

subsection \<open>Kinds of failure\<close>

datatype disconnection = NotSent string | NoAnswer string

datatype op_failure =
    NotFound
  | NotADirectory
  | PermissionDenied
  | TooLarge u64 u64
  | Io string
  | Disconnected disconnection
  | RootGone

fun is_disconnection :: "op_failure \<Rightarrow> bool" where
  "is_disconnection (Disconnected _) = True"
| "is_disconnection _ = False"

text \<open>
  \<open>std::io::Error\<close>: the kinds the program tells apart, the OS error number if there is one, and
  the text of its \<open>Display\<close>.
\<close>

datatype io_kind =
    KNotFound | KNotADirectory | KPermissionDenied | KAlreadyExists | KDirectoryNotEmpty
  | KInterrupted | KOther

record io_error =
  io_kind :: io_kind
  raw_os :: "int option"
  io_shown :: string

text \<open>\<open>str::rfind\<close>: the position of the last occurrence.\<close>

fun rfind :: "string \<Rightarrow> string \<Rightarrow> nat option" where
  "rfind p [] = (if p = [] then Some 0 else None)"
| "rfind p (x # xs) =
     (case rfind p xs of
        Some i \<Rightarrow> Some (Suc i)
      | None \<Rightarrow> if starts_with p (x # xs) then Some 0 else None)"

lemma rfind_bound: "rfind p s = Some i \<Longrightarrow> i \<le> length s"
  by (induction s arbitrary: i) (auto split: if_splits option.splits)

definition os_reason :: "io_error \<Rightarrow> string" where
  "os_reason e =
     (case (raw_os e, rfind '' (os error '' (io_shown e)) of
        (Some _, Some i) \<Rightarrow> take i (io_shown e)
      | _ \<Rightarrow> io_shown e)"

definition from_io_error :: "io_error \<Rightarrow> op_failure" where
  "from_io_error e =
     (case io_kind e of
        KNotFound \<Rightarrow> NotFound
      | KNotADirectory \<Rightarrow> NotADirectory
      | KPermissionDenied \<Rightarrow> PermissionDenied
      | _ \<Rightarrow> Io (os_reason e))"

text \<open>A failure of the OS is never read as a lost connection, a size limit or a lost root_dir.\<close>

lemma from_io_error_range:
  "from_io_error e \<in> {NotFound, NotADirectory, PermissionDenied} \<union> range Io"
  by (simp add: from_io_error_def split: io_kind.splits)

subsection \<open>Messages\<close>

datatype operation = OpRead | OpWrite | OpRemove | OpChmod | OpCreateSymlink | OpHash | OpReadEntryLink

fun verb :: "operation \<Rightarrow> string" where
  "verb OpRead = ''read''"
| "verb OpWrite = ''write''"
| "verb OpRemove = ''remove''"
| "verb OpChmod = ''change permissions of''"
| "verb OpCreateSymlink = ''create symlink''"
| "verb OpHash = ''hash''"
| "verb OpReadEntryLink = ''read the link of''"

record op_error =
  oe_operation :: operation
  oe_path :: string
  oe_failure :: op_failure

definition op_error_new :: "operation \<Rightarrow> string \<Rightarrow> op_failure \<Rightarrow> op_error" where
  "op_error_new op p f = \<lparr>oe_operation = op, oe_path = p, oe_failure = f\<rparr>"

fun show_op_failure :: "op_failure \<Rightarrow> string" where
  "show_op_failure NotFound = ''no such file or directory''"
| "show_op_failure NotADirectory = ''not a directory''"
| "show_op_failure PermissionDenied = ''permission denied''"
| "show_op_failure (TooLarge sz limit) =
     ''file too large ('' @ show_nat (unat sz) @ '' bytes, the limit is ''
       @ show_nat (unat limit) @ '' bytes; use --force to read it)''"
| "show_op_failure (Io reason) = reason"
| "show_op_failure RootGone = ''root_dir is gone''"
| "show_op_failure (Disconnected (NotSent detail)) =
     ''connection lost before the request was sent: '' @ detail"
| "show_op_failure (Disconnected (NoAnswer detail)) =
     ''connection lost before the result arrived: '' @ detail"

definition show_op_error :: "op_error \<Rightarrow> string" where
  "show_op_error e =
     ''cannot '' @ verb (oe_operation e) @ '' '' @ oe_path e @ '': '' @ show_op_failure (oe_failure e)"

text \<open>
  The chain of an \<open>anyhow::Error\<close> as a list of causes: an operation's failure, one with words put
  in front of it (\<open>Prefixed\<close>), or anything else the source downcasts elsewhere.
\<close>

datatype 'x cause = CauseOp op_error | CausePrefixed string op_error | CauseOther 'x

fun op_error_of_cause :: "'x cause \<Rightarrow> op_error option" where
  "op_error_of_cause (CauseOp e) = Some e"
| "op_error_of_cause (CausePrefixed _ e) = Some e"
| "op_error_of_cause (CauseOther _) = None"

definition op_error_of :: "'x cause list \<Rightarrow> op_error option" where
  "op_error_of chain = find_map op_error_of_cause chain"

definition failure_of :: "'x cause list \<Rightarrow> op_failure option" where
  "failure_of chain = map_option oe_failure (op_error_of chain)"

subsection \<open>The size limit\<close>

definition max_file_size :: u64 where
  "max_file_size = 104857600"

datatype size_limit = LimitBytes u64 | Unlimited

definition from_force :: "bool \<Rightarrow> size_limit" where
  "from_force force = (if force then Unlimited else LimitBytes max_file_size)"

fun check_size :: "u64 \<Rightarrow> size_limit \<Rightarrow> op_failure + unit" where
  "check_size sz (LimitBytes limit) =
     (if sz > limit then Inl (TooLarge sz limit) else Inr ())"
| "check_size sz Unlimited = Inr ()"

lemma check_size_ok:
  "check_size sz lim = Inr () \<longleftrightarrow> (\<forall>l. lim = LimitBytes l \<longrightarrow> unat sz \<le> unat l)"
  by (cases lim) (simp_all add: word_less_nat_alt not_less)

subsection \<open>Permission values\<close>

text \<open>
  \<open>PermissionMode\<close> is a \<open>u32\<close> that \<open>new\<close> let through; the type is the word, the check is
  \<open>permission_mode\<close>.
\<close>

definition permission_mode :: "u32 \<Rightarrow> u32 + u32" where
  "permission_mode mode = (if mode AND NOT 0x1FF = 0 then Inr mode else Inl mode)"

definition resulting :: "u32 \<Rightarrow> u32 \<Rightarrow> bool \<Rightarrow> u32" where
  "resulting mode current directory =
     (if directory then (current AND 0xC00) OR mode else mode)"

lemma permission_mode_bit:
  assumes "permission_mode m = Inr m'" and "bit m i"
  shows "i < 9"
proof (rule ccontr)
  assume "\<not> i < 9"
  from assms(1) have z: "m AND NOT 0x1FF = 0" by (simp add: permission_mode_def split: if_splits)
  have "i < 32" using assms(2) bit_imp_le_length[of m i] by simp
  moreover have "\<not> bit (0x1FF :: u32) i"
  proof -
    have "(0x1FF :: u32) = mask 9" by (simp add: mask_eq_exp_minus_1)
    then show ?thesis using \<open>\<not> i < 9\<close> by (simp only: bit_mask_iff) simp
  qed
  ultimately have "bit (m AND NOT 0x1FF) i"
    unfolding bit_and_iff bit_not_iff using assms(2) by simp
  then show False unfolding z by simp
qed

text \<open>Setting the same permissions again changes nothing: a chmod is confirmed by its own effect.\<close>

lemma resulting_idem: "resulting m (resulting m c d) d = resulting m c d"
  by (cases d) (auto simp: resulting_def bit_eq_iff bit_and_iff bit_or_iff)

end
