(* ===== verification/RelPath.thy ===== *)
theory RelPath
  imports Prelude
begin

text \<open>
  Paths relative to root_dir (\<open>relative_path/mod.rs\<close> and \<open>entry.rs\<close> of remote-merge-core): the
  checks of an input's shape, the type of a path that passed them (\<open>RelPath\<close>), the type of one
  entry below root_dir (\<open>EntryPath\<close>), and the relations between paths by whole elements.
\<close>

subsection \<open>RelPath\<close>

datatype rel_path_error = Absolute string | Traversal string | RootDirItself string

fun show_rel_path_error :: "rel_path_error \<Rightarrow> string" where
  "show_rel_path_error (Absolute input) = ''absolute subpath not allowed: '' @ input"
| "show_rel_path_error (Traversal input) = ''path traversal not allowed: '' @ input"
| "show_rel_path_error (RootDirItself input) = ''root_dir itself is not an entry: '' @ input"

record rel_path =
  typed :: string

definition rel_parse :: "string \<Rightarrow> rel_path_error + rel_path" where
  "rel_parse input =
     (if starts_with ''/'' input \<and> trim_end_matches CHR ''/'' input \<noteq> []
      then Inl (Absolute input)
      else if ''..'' \<in> set (split_on CHR ''/'' input) then Inl (Traversal input)
      else Inr \<lparr>typed = input\<rparr>)"

definition rel_root :: rel_path where
  "rel_root = \<lparr>typed = []\<rparr>"

definition rel_is_root :: "rel_path \<Rightarrow> bool" where
  "rel_is_root p =
     (let stripped = trim_end_matches CHR ''/'' (typed p) in stripped = [] \<or> stripped = ''.'')"

definition rel_as_str :: "rel_path \<Rightarrow> string" where
  "rel_as_str p = (if rel_is_root p then [] else trim_end_matches CHR ''/'' (typed p))"

definition path_to_resolve :: "rel_path \<Rightarrow> string" where
  "path_to_resolve p = (if rel_is_root p then [] else typed p)"

definition parent_and_name :: "rel_path \<Rightarrow> rel_path \<times> string" where
  "parent_and_name p =
     (case rsplit_once CHR ''/'' (rel_as_str p) of
        Some (parent, name) \<Rightarrow> (\<lparr>typed = parent\<rparr>, name)
      | None \<Rightarrow> (rel_root, rel_as_str p))"

subsection \<open>Relations between paths\<close>

definition is_below :: "string \<Rightarrow> string \<Rightarrow> bool" where
  "is_below path base =
     (case strip_prefix base path of Some rest \<Rightarrow> starts_with ''/'' rest | None \<Rightarrow> False)"

text \<open>\<open>rmatch_indices('/')\<close>: the positions of the separators, from the last to the first.\<close>

definition rmatch_indices :: "char \<Rightarrow> string \<Rightarrow> nat list" where
  "rmatch_indices c s = rev (map fst (filter (\<lambda>(_, x). x = c) (enum_from 0 s)))"

definition ancestors :: "string \<Rightarrow> string list" where
  "ancestors path = map (\<lambda>n. take n path) (rmatch_indices CHR ''/'' path)"

definition is_within :: "string \<Rightarrow> string \<Rightarrow> bool" where
  "is_within path base = (path = base \<or> is_below path base)"

definition normalized :: "string \<Rightarrow> string" where
  "normalized path =
     join_with ''/'' (filter (\<lambda>e. e \<noteq> [] \<and> e \<noteq> ''.'') (split_on CHR ''/'' path))"

subsection \<open>EntryPath\<close>

record entry_path =
  ep_rel :: rel_path

definition entry_try_from :: "rel_path \<Rightarrow> rel_path_error + entry_path" where
  "entry_try_from p =
     (if \<exists>e \<in> set (split_on CHR ''/'' (typed p)). e \<noteq> [] \<and> e \<noteq> ''.''
      then Inr \<lparr>ep_rel = p\<rparr> else Inl (RootDirItself (typed p)))"

definition entry_parse :: "string \<Rightarrow> rel_path_error + entry_path" where
  "entry_parse input = res_bind (rel_parse input) entry_try_from"

definition entry_as_str :: "entry_path \<Rightarrow> string" where
  "entry_as_str e = rel_as_str (ep_rel e)"

definition entry_parent_and_name :: "entry_path \<Rightarrow> rel_path \<times> string" where
  "entry_parent_and_name e = parent_and_name (ep_rel e)"

definition entry_as_typed :: "entry_path \<Rightarrow> string" where
  "entry_as_typed p = typed (ep_rel p)"

definition entries_as_typed :: "entry_path list \<Rightarrow> string list" where
  "entries_as_typed es = map (\<lambda>e. typed (ep_rel e)) es"

subsection \<open>Facts\<close>

lemma starts_with_slash [simp]: "starts_with [c] s \<longleftrightarrow> s \<noteq> [] \<and> hd s = c"
  by (cases s) (auto simp: starts_with_iff)

lemma is_below_iff: "is_below path base \<longleftrightarrow> (\<exists>rest. path = base @ CHR ''/'' # rest)"
proof (cases "strip_prefix base path")
  case None
  have "path \<noteq> base @ CHR ''/'' # rest" for rest using None by auto
  with None show ?thesis by (simp add: is_below_def)
next
  case (Some r)
  then have "path = base @ r" by (simp add: strip_prefix_Some)
  then show ?thesis using Some by (cases r) (auto simp: is_below_def)
qed

lemma is_below_trans: "is_below a b \<Longrightarrow> is_below b c \<Longrightarrow> is_below a c"
  by (auto simp: is_below_iff)

lemma is_below_irrefl: "\<not> is_below a a"
  by (simp add: is_below_iff)

lemma is_below_length: "is_below a b \<Longrightarrow> length b < length a"
  by (auto simp: is_below_iff)

lemma is_within_trans: "is_within a b \<Longrightarrow> is_within b c \<Longrightarrow> is_within a c"
  using is_below_trans by (auto simp: is_within_def)

lemma set_rmatch_indices: "set (rmatch_indices c s) = {i. i < length s \<and> s ! i = c}"
  by (auto simp: rmatch_indices_def set_enum_from image_iff)

lemma set_ancestors: "set (ancestors path) = {b. is_below path b}"
proof (intro set_eqI iffI)
  fix b assume "b \<in> set (ancestors path)"
  then obtain i where i: "i < length path" "path ! i = CHR ''/''" "b = take i path"
    by (auto simp: ancestors_def set_rmatch_indices)
  then have "path = b @ CHR ''/'' # drop (Suc i) path" by (metis id_take_nth_drop)
  then show "b \<in> {b. is_below path b}" by (auto simp: is_below_iff)
next
  fix b assume "b \<in> {b. is_below path b}"
  then obtain rest where p: "path = b @ CHR ''/'' # rest" by (auto simp: is_below_iff)
  then have "length b \<in> set (rmatch_indices CHR ''/'' path)" and "b = take (length b) path"
    by (simp_all add: set_rmatch_indices)
  then show "b \<in> set (ancestors path)" unfolding ancestors_def by (metis image_eqI set_map)
qed

lemma parent_shorter:
  assumes "rel_as_str p \<noteq> []"
  shows "length (typed (fst (parent_and_name p))) < length (typed p)"
proof -
  have le: "length (rel_as_str p) \<le> length (typed p)"
    using length_dropWhile_le[of "\<lambda>x. x = CHR ''/''" "rev (typed p)"]
    by (simp add: rel_as_str_def trim_end_matches_def)
  show ?thesis
  proof (cases "rsplit_once CHR ''/'' (rel_as_str p)")
    case None
    then show ?thesis using assms le by (auto simp: parent_and_name_def rel_root_def)
  next
    case (Some ab)
    then obtain a b where "ab = (a, b)" "rel_as_str p = a @ CHR ''/'' # b"
      by (metis rsplit_once_Some surj_pair)
    then show ?thesis using Some le by (auto simp: parent_and_name_def)
  qed
qed

lemma split_rep:
  "set (split_on c (t @ replicate k c)) \<subseteq> set (split_on c t) \<union> {[]}"
proof (induction k arbitrary: t)
  case 0
  then show ?case by auto
next
  case (Suc k)
  have "split_on c (t @ replicate (Suc k) c) = split_on c t @ split_on c ([] @ replicate k c)"
    by (simp add: split_on_append)
  then show ?case using Suc[of "[]"] by auto
qed

lemma entry_as_str_ne:
  assumes "entry_try_from p = Inr e"
  shows "rel_as_str p \<noteq> []"
proof -
  from assms obtain x where x: "x \<in> set (split_on CHR ''/'' (typed p))" "x \<noteq> []" "x \<noteq> ''.''"
    by (auto simp: entry_try_from_def split: if_splits)
  obtain k where k: "typed p = trim_end_matches CHR ''/'' (typed p) @ replicate k CHR ''/''"
    using trim_end_decomp by blast
  let ?t = "trim_end_matches CHR ''/'' (typed p)"
  have "x \<in> set (split_on CHR ''/'' ?t)" using x split_rep[of "CHR ''/''" ?t k] k by auto
  then have "?t \<noteq> [] \<and> ?t \<noteq> ''.''" using x by auto
  then show ?thesis by (simp add: rel_as_str_def rel_is_root_def Let_def)
qed

text \<open>
  \<open>parent_entries\<close>: a \<open>while let\<close> loop that climbs while the parent is still an entry; each turn
  pushes the parent, and the result is reversed.
\<close>

function climb_entries :: "rel_path \<Rightarrow> entry_path list \<Rightarrow> entry_path list" where
  "climb_entries current parents =
     (case entry_try_from current of
        Inl _ \<Rightarrow> parents
      | Inr parent \<Rightarrow>
          climb_entries (fst (entry_parent_and_name parent)) (parents @ [parent]))"
  by pat_completeness auto
termination
proof (relation "measure (\<lambda>(current, _). length (typed current))")
  fix current parents parent
  assume p: "entry_try_from current = Inr parent"
  then have "ep_rel parent = current" by (auto simp: entry_try_from_def split: if_splits)
  with parent_shorter[OF entry_as_str_ne[OF p]]
  show "((fst (entry_parent_and_name parent), parents @ [parent]), current, parents)
        \<in> measure (\<lambda>(current, _). length (typed current))"
    by (simp add: entry_parent_and_name_def)
qed simp

declare climb_entries.simps [simp del]

definition parent_entries :: "entry_path \<Rightarrow> entry_path list" where
  "parent_entries e = rev (climb_entries (fst (entry_parent_and_name e)) [])"

subsection \<open>Facts on entries\<close>

text \<open>A prefix that ends where an element ends has the elements before it.\<close>

lemma split_on_prefix: "set (split_on c b) \<subseteq> set (split_on c (b @ c # t))"
  by (simp add: split_on_append)

definition has_name :: "string \<Rightarrow> bool" where
  "has_name s = (\<exists>x \<in> set (split_on CHR ''/'' s). x \<noteq> [] \<and> x \<noteq> ''.'')"

lemma has_name_Nil [simp]: "\<not> has_name []"
  by (simp add: has_name_def)

lemma entry_try_from_iff:
  "entry_try_from p = (if has_name (typed p) then Inr \<lparr>ep_rel = p\<rparr> else Inl (RootDirItself (typed p)))"
  by (simp add: entry_try_from_def has_name_def)

lemma has_name_within: "is_within t b \<Longrightarrow> has_name b \<Longrightarrow> has_name t"
  using split_on_prefix[of "CHR ''/''" b] by (auto simp: is_within_def is_below_iff has_name_def)

lemma has_name_as_str: "has_name (typed p) \<Longrightarrow> rel_as_str p = trim_end_matches CHR ''/'' (typed p)"
  using entry_as_str_ne[of p "\<lparr>ep_rel = p\<rparr>"]
  by (auto simp: rel_as_str_def entry_try_from_iff split: if_splits)

text \<open>The prefixes of a path at its separators, seen without the slashes at their ends.\<close>

lemma within_cases:
  assumes "is_within (t @ replicate k c) b" and "t = [] \<or> last t \<noteq> c" and "c = CHR ''/''"
  shows "trim_end_matches c b = t \<or> is_below t b"
  using assms
proof (induction k arbitrary: b)
  case 0
  then have "b = t \<or> is_below t b" by (auto simp: is_within_def)
  moreover have "trim_end_matches c t = t"
    using 0 by (metis append_butlast_last_id trim_end_nil trim_end_snoc)
  ultimately show ?case by auto
next
  case (Suc k)
  have trim: "trim_end_matches c (t @ replicate n c) = t" for n
    using Suc.prems(2)
    by (induction n) (auto simp: replicate_append_same[symmetric] append.assoc[symmetric]
        simp del: append_assoc, metis append_butlast_last_id trim_end_nil trim_end_snoc)
  from Suc.prems(1) consider "b = t @ replicate (Suc k) c"
    | rest where "t @ replicate (Suc k) c = b @ c # rest"
    using Suc.prems(3) by (auto simp: is_within_def is_below_iff)
  then show ?case
  proof cases
    case 1
    then show ?thesis using trim by metis
  next
    case 2
    then have "is_within (t @ replicate k c) b"
      using Suc.prems(3)
      by (cases rest rule: rev_cases)
         (auto simp: is_within_def is_below_iff replicate_append_same[symmetric])
    then show ?thesis using Suc by blast
  qed
qed

lemma below_last:
  "CHR ''/'' \<notin> set n \<Longrightarrow> is_below (a @ CHR ''/'' # n) b \<longleftrightarrow> is_within a b"
proof
  assume n: "CHR ''/'' \<notin> set n" and "is_below (a @ CHR ''/'' # n) b"
  then obtain rest where "a @ CHR ''/'' # n = b @ CHR ''/'' # rest" by (auto simp: is_below_iff)
  then have "(a = b \<and> n = rest) \<or> (\<exists>u. a = b @ CHR ''/'' # u)"
    using n by (auto simp: append_eq_append_conv2 append_eq_Cons_conv Cons_eq_append_conv)
  then show "is_within a b" by (auto simp: is_within_def is_below_iff)
qed (auto simp: is_within_def is_below_iff)

lemma is_below_trim: "is_below t b \<Longrightarrow> is_below t (trim_end_matches CHR ''/'' b)"
proof -
  assume "is_below t b"
  then obtain rest where t: "t = b @ CHR ''/'' # rest" by (auto simp: is_below_iff)
  obtain k where "b = trim_end_matches CHR ''/'' b @ replicate k CHR ''/''"
    using trim_end_decomp by blast
  then have "t = trim_end_matches CHR ''/'' b @ replicate k CHR ''/'' @ CHR ''/'' # rest"
    using t by (metis append.assoc)
  then show ?thesis by (cases k) (auto simp: is_below_iff)
qed

lemma parent_within:
  fixes cur :: rel_path
  defines "up \<equiv> fst (entry_parent_and_name \<lparr>ep_rel = cur\<rparr>)"
  shows "is_within (typed up) b \<and> has_name b \<longleftrightarrow> is_below (rel_as_str cur) b \<and> has_name b"
proof (cases "rsplit_once CHR ''/'' (rel_as_str cur)")
  case None
  then have "up = rel_root"
    by (simp add: up_def entry_parent_and_name_def parent_and_name_def)
  moreover have "CHR ''/'' \<notin> set (rel_as_str cur)" using None by (simp add: rsplit_once_None)
  ultimately show ?thesis by (auto simp: rel_root_def is_within_def is_below_iff)
next
  case (Some an)
  then obtain a n where "rel_as_str cur = a @ CHR ''/'' # n" "CHR ''/'' \<notin> set n" "an = (a, n)"
    by (metis rsplit_once_Some surj_pair)
  then show ?thesis
    using Some by (auto simp: up_def entry_parent_and_name_def parent_and_name_def below_last)
qed

lemma climb_acc: "climb_entries cur (qs @ ps) = qs @ climb_entries cur ps"
proof (induction cur ps rule: climb_entries.induct)
  case (1 cur ps)
  show ?case
  proof (cases "entry_try_from cur")
    case (Inl e)
    then show ?thesis by (simp add: climb_entries.simps)
  next
    case (Inr p)
    then have "climb_entries cur (qs @ ps) = climb_entries (fst (entry_parent_and_name p)) (qs @ ps @ [p])"
      by (subst climb_entries.simps) simp
    also have "\<dots> = qs @ climb_entries (fst (entry_parent_and_name p)) (ps @ [p])"
      using 1 Inr by blast
    also have "climb_entries (fst (entry_parent_and_name p)) (ps @ [p]) = climb_entries cur ps"
      using Inr by (subst (2) climb_entries.simps) simp
    finally show ?thesis .
  qed
qed

lemma climb_step:
  "climb_entries cur [] =
     (if has_name (typed cur)
      then \<lparr>ep_rel = cur\<rparr> # climb_entries (fst (entry_parent_and_name \<lparr>ep_rel = cur\<rparr>)) []
      else [])"
proof (cases "has_name (typed cur)")
  case True
  then have "climb_entries cur [] = climb_entries (fst (entry_parent_and_name \<lparr>ep_rel = cur\<rparr>)) [\<lparr>ep_rel = cur\<rparr>]"
    by (subst climb_entries.simps) (simp add: entry_try_from_iff)
  then show ?thesis using True climb_acc[of _ "[\<lparr>ep_rel = cur\<rparr>]" "[]"] by simp
next
  case False
  then show ?thesis by (subst climb_entries.simps) (simp add: entry_try_from_iff)
qed

lemma climb_shorter:
  "has_name (typed cur) \<Longrightarrow>
   length (typed (fst (entry_parent_and_name \<lparr>ep_rel = cur\<rparr>))) < length (typed cur)"
  using parent_shorter[OF entry_as_str_ne[of cur "\<lparr>ep_rel = cur\<rparr>"]]
  by (simp add: entry_parent_and_name_def entry_try_from_iff)

definition above :: "string \<Rightarrow> string set" where
  "above s = {trim_end_matches CHR ''/'' b | b. is_below s b \<and> has_name b}"

lemma as_str_no_slash: "rel_as_str p \<noteq> [] \<Longrightarrow> last (rel_as_str p) \<noteq> CHR ''/''"
  using trim_end_last by (auto simp: rel_as_str_def split: if_splits)

lemma within_as_str:
  assumes "has_name (typed cur)"
  shows "{trim_end_matches CHR ''/'' b | b. is_within (typed cur) b \<and> has_name b} =
         insert (rel_as_str cur) (above (rel_as_str cur))"
proof -
  let ?t = "rel_as_str cur"
  have t: "?t = trim_end_matches CHR ''/'' (typed cur)" using assms by (rule has_name_as_str)
  obtain k where k: "typed cur = ?t @ replicate k CHR ''/''" using trim_end_decomp t by metis
  have last: "?t = [] \<or> last ?t \<noteq> CHR ''/''" using as_str_no_slash by blast
  have "is_below ?t b \<Longrightarrow> is_within (typed cur) b" for b
    using k by (auto simp: is_within_def is_below_iff)
  moreover have "is_within (typed cur) b \<Longrightarrow> trim_end_matches CHR ''/'' b = ?t \<or> is_below ?t b" for b
    using within_cases[of ?t k "CHR ''/''" b] k last by metis
  moreover have "is_within (typed cur) (typed cur)" by (simp add: is_within_def)
  ultimately show ?thesis using assms t by (auto simp: above_def)
qed

lemma set_climb:
  "entry_as_str ` set (climb_entries cur []) =
     {trim_end_matches CHR ''/'' b | b. is_within (typed cur) b \<and> has_name b}"
proof (induction "length (typed cur)" arbitrary: cur rule: less_induct)
  case less
  show ?case
  proof (cases "has_name (typed cur)")
    case False
    then show ?thesis using has_name_within by (subst climb_step) auto
  next
    case True
    let ?up = "fst (entry_parent_and_name \<lparr>ep_rel = cur\<rparr>)"
    have "entry_as_str ` set (climb_entries ?up []) = above (rel_as_str cur)"
      using less[OF climb_shorter[OF True]] parent_within[of cur] by (auto simp: above_def)
    then show ?thesis using True within_as_str[OF True]
      by (subst climb_step) (simp add: entry_as_str_def)
  qed
qed

lemma above_below: "x \<in> above s \<Longrightarrow> is_below s x"
  using is_below_trim by (auto simp: above_def)

lemma sorted_climb:
  "sorted_wrt (\<lambda>p q. is_below (entry_as_str p) (entry_as_str q)) (climb_entries cur [])"
proof (induction "length (typed cur)" arbitrary: cur rule: less_induct)
  case less
  show ?case
  proof (cases "has_name (typed cur)")
    case False
    then show ?thesis by (subst climb_step) simp
  next
    case True
    let ?up = "fst (entry_parent_and_name \<lparr>ep_rel = cur\<rparr>)"
    have "entry_as_str ` set (climb_entries ?up []) = above (rel_as_str cur)"
      using set_climb[of ?up] parent_within[of cur] by (auto simp: above_def)
    then have "\<forall>q \<in> set (climb_entries ?up []). is_below (rel_as_str cur) (entry_as_str q)"
      using above_below by blast
    then show ?thesis using True less[OF climb_shorter[OF True]]
      by (subst climb_step) (simp add: entry_as_str_def)
  qed
qed

subsection \<open>Properties\<close>

text \<open>C31: What \<open>EntryPath::parse\<close> accepts is one entry below root_dir: it has an element that is a
  name, and its value seen without the slashes at its end is not empty, does not start or end with
  a slash, and has no element "..".\<close>

theorem entry_parse_safe:
  assumes "entry_parse input = Inr e"
  shows "entry_as_str e \<noteq> [] \<and> hd (entry_as_str e) \<noteq> CHR ''/'' \<and> last (entry_as_str e) \<noteq> CHR ''/''
    \<and> ''..'' \<notin> set (split_on CHR ''/'' (entry_as_str e))
    \<and> has_name (entry_as_str e)"
proof -
  from assms have p: "rel_parse input = Inr (ep_rel e)" "typed (ep_rel e) = input" "has_name input"
    by (auto simp: entry_parse_def res_simps entry_try_from_iff rel_parse_def split: if_splits)
  let ?t = "entry_as_str e"
  have t: "?t = trim_end_matches CHR ''/'' input" using p has_name_as_str by (simp add: entry_as_str_def)
  obtain k where k: "input = ?t @ replicate k CHR ''/''" using trim_end_decomp t by metis
  have ne: "?t \<noteq> []" using p entry_as_str_ne[of "ep_rel e" e] by (simp add: entry_as_str_def entry_try_from_iff)
  have "\<not> starts_with ''/'' input \<and> ''..'' \<notin> set (split_on CHR ''/'' input)"
    using p(1) ne t by (auto simp: rel_parse_def split: if_splits)
  moreover have "hd input = hd ?t" using ne k by (metis hd_append2)
  moreover have "set (split_on CHR ''/'' ?t) \<subseteq> set (split_on CHR ''/'' input)"
    using k split_on_prefix[of "CHR ''/''" ?t "replicate (k - 1) CHR ''/''"] by (cases k) auto
  moreover have "has_name ?t"
  proof -
    have "set (split_on CHR ''/'' input) \<subseteq> insert [] (set (split_on CHR ''/'' ?t))"
      using k split_rep[of "CHR ''/''" ?t k] by auto
    then show ?thesis using p(3) by (auto simp: has_name_def)
  qed
  moreover have "last ?t \<noteq> CHR ''/''" using ne t trim_end_last by simp
  moreover have "hd ?t \<noteq> CHR ''/''"
    using calculation(1,2) ne k by (cases ?t) auto
  ultimately show ?thesis using ne by blast
qed

theorem entry_parse_safe_witness:
  "''..'' \<notin> set (split_on CHR ''/'' (entry_as_str \<lparr>ep_rel = \<lparr>typed = ''a/./b//''\<rparr>\<rparr>))"
  using entry_parse_safe[of "''a/./b//''" "\<lparr>ep_rel = \<lparr>typed = ''a/./b//''\<rparr>\<rparr>"]
  by (simp add: entry_parse_def rel_parse_def entry_try_from_def trim_end_matches_def)

text \<open>The loop of \<open>parent_entries\<close> ends, and its result is exact and ordered: the entries it
  lists are the paths the entry is below (the list \<open>ancestors\<close> gives, seen without the slashes at
  their ends) that still name an entry, from root_dir downwards, each below all before it.\<close>

theorem parent_entries_exact:
  "entry_as_str ` set (parent_entries e) =
     {trim_end_matches CHR ''/'' b | b. b \<in> set (ancestors (entry_as_str e)) \<and> has_name b}
   \<and> sorted_wrt (\<lambda>p q. is_below (entry_as_str q) (entry_as_str p)) (parent_entries e)"
proof -
  let ?up = "fst (entry_parent_and_name e)"
  have "is_within (typed ?up) b \<and> has_name b \<longleftrightarrow> is_below (entry_as_str e) b \<and> has_name b" for b
    using parent_within[of "ep_rel e"] by (cases e) (simp add: entry_as_str_def)
  then show ?thesis using set_climb[of ?up] sorted_climb[of ?up]
    by (simp add: parent_entries_def set_ancestors sorted_wrt_rev)
qed

end
