(* ===== verification/Content.thy ===== *)
theory Content
  imports Prelude
begin

text \<open>
  How the bytes of a file are read (\<open>content/mod.rs\<close> of remote-merge-core): binary or text in an
  encoding, the length of the BOM, and the byte ranges of the lines. The decoders of the crate
  encoding_rs are an argument, a record of two functions from bytes to an optional string.
\<close>

subsection \<open>Interpretation\<close>

datatype encoding = Utf8 | EucJp | ShiftJis

fun encoding_name :: "encoding \<Rightarrow> string" where
  "encoding_name Utf8 = ''utf-8''"
| "encoding_name EucJp = ''euc-jp''"
| "encoding_name ShiftJis = ''shift_jis''"

datatype interpretation_of = Unspecified | AsBinary | AsText encoding

text \<open>\<open>str::to_ascii_lowercase\<close>.\<close>

definition ascii_lower :: "char \<Rightarrow> char" where
  "ascii_lower c = (if byte_in 65 90 c then char_of (of_char c + 32 :: nat) else c)"

definition interpretation_from_str :: "string \<Rightarrow> string + interpretation_of" where
  "interpretation_from_str name =
     (let n = map ascii_lower name in
      if n = ''utf-8'' then Inr (AsText Utf8)
      else if n = ''euc-jp'' then Inr (AsText EucJp)
      else if n = ''shift_jis'' \<or> n = ''cp932'' \<or> n = ''windows-31j'' then Inr (AsText ShiftJis)
      else if n = ''binary'' then Inr AsBinary
      else Inl (''unsupported content encoding: '' @ name))"

text \<open>Every encoding is read back from its own name.\<close>

lemma interpretation_from_name: "interpretation_from_str (encoding_name e) = Inr (AsText e)"
  by (cases e) (simp_all add: interpretation_from_str_def ascii_lower_def byte_in_def Let_def)

subsection \<open>Text\<close>

record text_content =
  t_raw :: bytes
  t_decoded :: string
  t_encoding :: encoding
  t_bom_len :: nat
  t_raw_lines :: "(nat \<times> nat) list"

datatype content = BinaryContent | TextContent text_content

definition t_bom :: "text_content \<Rightarrow> bytes" where
  "t_bom t = take (t_bom_len t) (t_raw t)"

definition t_raw_line :: "text_content \<Rightarrow> nat \<Rightarrow> bytes option" where
  "t_raw_line t index =
     (case nth_opt (t_raw_lines t) index of
        Some (a, b) \<Rightarrow> slice_opt (t_raw t) a b
      | None \<Rightarrow> None)"

text \<open>Whether a line ends with the byte \<open>b\<close> when \<open>rest\<close> follows it.\<close>

definition ends_line :: "char \<Rightarrow> bytes \<Rightarrow> bool" where
  "ends_line b rest =
     (b = CHR 0x0A \<or> (b = CHR 0x0D \<and> (case rest of c # _ \<Rightarrow> c \<noteq> CHR 0x0A | [] \<Rightarrow> True)))"

text \<open>The loop of \<open>line_ranges\<close> over the bytes from the offset on.\<close>

fun line_ranges_from :: "bytes \<Rightarrow> nat \<Rightarrow> nat \<Rightarrow> (nat \<times> nat) list" where
  "line_ranges_from [] index start = (if start < index then [(start, index)] else [])"
| "line_ranges_from (b # rest) index start =
     (if ends_line b rest then (start, index + 1) # line_ranges_from rest (index + 1) (index + 1)
      else line_ranges_from rest (index + 1) start)"

definition line_ranges :: "bytes \<Rightarrow> nat \<Rightarrow> (nat \<times> nat) list" where
  "line_ranges bs offset = line_ranges_from (drop offset bs) offset offset"

record decoders =
  euc_jp :: "bytes \<Rightarrow> string option"
  shift_jis :: "bytes \<Rightarrow> string option"

definition utf8_bom :: bytes where
  "utf8_bom = [CHR 0xEF, CHR 0xBB, CHR 0xBF]"

definition decode :: "decoders \<Rightarrow> encoding \<Rightarrow> bytes \<Rightarrow> string option" where
  "decode d e body =
     (case e of
        Utf8 \<Rightarrow> if is_utf8 body then Some body else None
      | EucJp \<Rightarrow> euc_jp d body
      | ShiftJis \<Rightarrow> shift_jis d body)"

definition text_of :: "bytes \<Rightarrow> string \<Rightarrow> encoding \<Rightarrow> nat \<Rightarrow> text_content" where
  "text_of raw decoded e bom_len =
     \<lparr>t_raw = raw, t_decoded = decoded, t_encoding = e, t_bom_len = bom_len,
      t_raw_lines = line_ranges raw bom_len\<rparr>"

text \<open>The error of \<open>interpret\<close> is the encoding that could not be decoded.\<close>

definition interpret_as :: "decoders \<Rightarrow> bytes \<Rightarrow> interpretation_of \<Rightarrow> encoding + content" where
  "interpret_as d raw i =
     (if i = AsBinary \<or> CHR 0x00 \<in> set (take 8192 raw) then Inr BinaryContent
      else
        (let e = (case i of AsText e \<Rightarrow> e | _ \<Rightarrow> Utf8);
             bom_len = (if e = Utf8 \<and> starts_with utf8_bom raw then 3 else 0)
         in case decode d e (drop bom_len raw) of
              None \<Rightarrow> if i = Unspecified then Inr BinaryContent else Inl e
            | Some decoded \<Rightarrow> Inr (TextContent (text_of raw decoded e bom_len))))"

subsection \<open>Lines\<close>

text \<open>
  The lines of a string with their endings: a line ends with a line feed, a carriage return and
  a line feed, or a carriage return alone; the last line may have no ending.
\<close>

fun lines_from :: "string \<Rightarrow> string \<Rightarrow> string list" where
  "lines_from acc [] = (if acc = [] then [] else [acc])"
| "lines_from acc (b # rest) =
     (if ends_line b rest then (acc @ [b]) # lines_from [] rest else lines_from (acc @ [b]) rest)"

definition str_lines :: "string \<Rightarrow> string list" where
  "str_lines s = lines_from [] s"

lemma concat_lines_from: "concat (lines_from acc s) = acc @ s"
  by (induction acc s rule: lines_from.induct) auto

lemma concat_str_lines [simp]: "concat (str_lines s) = s"
  by (simp add: str_lines_def concat_lines_from)

lemma line_ranges_from_slices:
  "map (\<lambda>(u, v). slice_opt (pre @ acc @ s) u v)
     (line_ranges_from s (length pre + length acc) (length pre)) = map Some (lines_from acc s)"
proof (induction acc s arbitrary: pre rule: lines_from.induct)
  case (1 acc)
  then show ?case by (simp add: slice_opt_def)
next
  case (2 acc b rest)
  show ?case
  proof (cases "ends_line b rest")
    case True
    have "map (\<lambda>(u, v). slice_opt ((pre @ acc @ [b]) @ [] @ rest) u v)
       (line_ranges_from rest (length (pre @ acc @ [b]) + length []) (length (pre @ acc @ [b])))
       = map Some (lines_from [] rest)"
      using 2(1)[OF True, of "pre @ acc @ [b]"] by simp
    then show ?thesis using True by (simp add: slice_opt_def)
  next
    case False
    have "map (\<lambda>(u, v). slice_opt (pre @ (acc @ [b]) @ rest) u v)
       (line_ranges_from rest (length pre + length (acc @ [b])) (length pre))
       = map Some (lines_from (acc @ [b]) rest)"
      using 2(2)[OF False, of pre] by simp
    then show ?thesis using False by simp
  qed
qed

text \<open>The ranges are in bounds, and what they cut out are the lines after the offset.\<close>

lemma line_ranges_slices:
  "off \<le> length bs \<Longrightarrow>
   map (\<lambda>(a, b). slice_opt bs a b) (line_ranges bs off) = map Some (str_lines (drop off bs))"
  using line_ranges_from_slices[of "take off bs" "[]" "drop off bs"]
  by (simp add: line_ranges_def str_lines_def min_absorb2)

definition text_ok :: "text_content \<Rightarrow> bool" where
  "text_ok t = (t_bom_len t \<le> length (t_raw t) \<and> t_raw_lines t = line_ranges (t_raw t) (t_bom_len t))"

lemma t_raw_line_eq:
  assumes "text_ok t"
  shows "t_raw_line t i = nth_opt (str_lines (drop (t_bom_len t) (t_raw t))) i"
proof -
  let ?ls = "str_lines (drop (t_bom_len t) (t_raw t))" and ?rs = "t_raw_lines t"
  have m: "map (\<lambda>(a, b). slice_opt (t_raw t) a b) ?rs = map Some ?ls"
    using assms line_ranges_slices by (simp add: text_ok_def)
  then have len: "length ?rs = length ?ls" by (metis length_map)
  show ?thesis
  proof (cases "i < length ?ls")
    case True
    then have "(\<lambda>(a, b). slice_opt (t_raw t) a b) (?rs ! i) = Some (?ls ! i)"
      using m len by (metis nth_map)
    then show ?thesis using True len by (simp add: t_raw_line_def nth_opt_eq split: prod.splits)
  next
    case False
    then show ?thesis using len by (simp add: t_raw_line_def nth_opt_eq)
  qed
qed

lemma interpret_text_ok: "interpret_as d raw i = Inr (TextContent t) \<Longrightarrow> text_ok t \<and> t_raw t = raw"
  by (auto simp: interpret_as_def text_ok_def text_of_def starts_with_iff utf8_bom_def Let_def
      split: if_splits option.splits)

lemma interpret_utf8_decoded:
  "interpret_as d raw i = Inr (TextContent t) \<Longrightarrow> t_encoding t = Utf8 \<Longrightarrow>
   t_decoded t = drop (t_bom_len t) raw"
  by (auto simp: interpret_as_def text_of_def decode_def Let_def split: if_splits option.splits)

end
