(* ===== verification/DiffEngine.thy ===== *)
theory DiffEngine
  imports Content
begin

text \<open>
  The line diff of two texts and the application of selected hunks (\<open>diff/engine.rs\<close> of
  remote-merge-core). The crate similar is an argument: \<open>line_diff old new\<close> is the sequence of
  \<open>TextDiff::from_lines(old, new).iter_all_changes()\<close>, each change a tag and the line with its
  ending. What the code relies on is \<open>diff_ok\<close>, the documented behaviour of that sequence: the
  lines it keeps or deletes are the lines of the old text in order, and the lines it keeps or
  inserts are those of the new one.

  An index out of range and an \<open>expect\<close> on a missing value panic in Rust and are \<open>None\<close> here.
\<close>

subsection \<open>Data\<close>

datatype hunk_direction = RightToLeft | LeftToRight

datatype diff_tag = TEqual | TDelete | TInsert

record diff_line =
  dl_tag :: diff_tag
  dl_value :: string
  dl_old_index :: "nat option"
  dl_new_index :: "nat option"

record diff_hunk =
  dh_start :: nat
  dh_end :: nat
  dh_old_start :: nat
  dh_new_start :: nat

definition hunk_lines :: "diff_hunk \<Rightarrow> diff_line list \<Rightarrow> diff_line list" where
  "hunk_lines h all_lines =
     (case slice_opt all_lines (dh_start h) (dh_end h) of Some ls \<Rightarrow> ls | None \<Rightarrow> [])"

definition hunk_len :: "diff_hunk \<Rightarrow> nat" where
  "hunk_len h = dh_end h - dh_start h"

datatype diff_result = DiffEqual | DiffModified "diff_hunk list" "diff_hunk list" "diff_line list"

type_synonym line_diff = "string \<Rightarrow> string \<Rightarrow> (diff_tag \<times> string) list"

subsection \<open>Hunks\<close>

definition change_indices :: "diff_line list \<Rightarrow> nat list" where
  "change_indices ls = map fst (filter (\<lambda>(_, l). dl_tag l \<noteq> TEqual) (enum_from 0 ls))"

text \<open>
  The closure \<open>make_hunk\<close> with the variables it changes: the position counted so far and the line
  numbers of the two sides there.
\<close>

type_synonym hunk_state = "nat \<times> nat \<times> nat"

fun count_line :: "nat \<times> nat \<Rightarrow> diff_line \<Rightarrow> nat \<times> nat" where
  "count_line (old_start, new_start) line =
     (case dl_tag line of
        TEqual \<Rightarrow> (old_start + 1, new_start + 1)
      | TDelete \<Rightarrow> (old_start + 1, new_start)
      | TInsert \<Rightarrow> (old_start, new_start + 1))"

definition make_hunk ::
  "diff_line list \<Rightarrow> hunk_state \<Rightarrow> nat \<Rightarrow> nat \<Rightarrow> (diff_hunk \<times> hunk_state) option" where
  "make_hunk ls st a b =
     (case st of (position, counts) \<Rightarrow>
       (case slice_opt ls position a of
          None \<Rightarrow> None
        | Some between \<Rightarrow>
            (let (old_start, new_start) = foldl count_line counts between in
             Some (\<lparr>dh_start = a, dh_end = b, dh_old_start = old_start, dh_new_start = new_start\<rparr>,
                   (a, old_start, new_start)))))"

text \<open>The loop over the changes after the first, with the hunk that is open.\<close>

fun hunk_loop ::
  "diff_line list \<Rightarrow> nat \<Rightarrow> hunk_state \<Rightarrow> nat \<Rightarrow> nat \<Rightarrow> nat list \<Rightarrow> diff_hunk list option" where
  "hunk_loop ls context st hunk_start hunk_end [] =
     (case make_hunk ls st hunk_start hunk_end of None \<Rightarrow> None | Some (h, _) \<Rightarrow> Some [h])"
| "hunk_loop ls context st hunk_start hunk_end (ci # cis) =
     (let ci_start = ci - context; ci_end = min (ci + context + 1) (length ls) in
      if ci_start \<le> hunk_end then hunk_loop ls context st hunk_start ci_end cis
      else
        (case make_hunk ls st hunk_start hunk_end of
           None \<Rightarrow> None
         | Some (h, st') \<Rightarrow> map_option ((#) h) (hunk_loop ls context st' ci_start ci_end cis)))"

definition build_hunks :: "diff_line list \<Rightarrow> nat \<Rightarrow> diff_hunk list option" where
  "build_hunks ls context =
     (case change_indices ls of
        [] \<Rightarrow> Some []
      | ci # cis \<Rightarrow>
          hunk_loop ls context (0, 0, 0) (ci - context) (min (ci + context + 1) (length ls)) cis)"

subsection \<open>The script of a pair\<close>

text \<open>The loop of \<open>build_script\<close> that numbers the lines of the two sides.\<close>

fun number_changes :: "nat \<Rightarrow> nat \<Rightarrow> (diff_tag \<times> string) list \<Rightarrow> diff_line list" where
  "number_changes old_idx new_idx [] = []"
| "number_changes old_idx new_idx ((tag, v) # cs) =
     (case tag of
        TEqual \<Rightarrow>
          \<lparr>dl_tag = tag, dl_value = v, dl_old_index = Some old_idx, dl_new_index = Some new_idx\<rparr>
            # number_changes (old_idx + 1) (new_idx + 1) cs
      | TDelete \<Rightarrow>
          \<lparr>dl_tag = tag, dl_value = v, dl_old_index = Some old_idx, dl_new_index = None\<rparr>
            # number_changes (old_idx + 1) new_idx cs
      | TInsert \<Rightarrow>
          \<lparr>dl_tag = tag, dl_value = v, dl_old_index = None, dl_new_index = Some new_idx\<rparr>
            # number_changes old_idx (new_idx + 1) cs)"

definition build_script :: "line_diff \<Rightarrow> string \<Rightarrow> string \<Rightarrow> diff_result option" where
  "build_script line_diff old new =
     (if old = new then Some DiffEqual
      else
        (let ls = number_changes 0 0 (line_diff old new) in
         (case (build_hunks ls 3, build_hunks ls 0) of
            (Some hunks, Some merge_hunks) \<Rightarrow> Some (DiffModified hunks merge_hunks ls)
          | _ \<Rightarrow> None)))"

record pair_script =
  ps_old :: text_content
  ps_new :: text_content
  ps_full :: diff_result

definition pair_script_new :: "line_diff \<Rightarrow> text_content \<Rightarrow> text_content \<Rightarrow> pair_script option" where
  "pair_script_new line_diff old new =
     map_option (\<lambda>full. \<lparr>ps_old = old, ps_new = new, ps_full = full\<rparr>)
       (build_script line_diff (t_decoded old) (t_decoded new))"

definition pop_newline :: "diff_line \<Rightarrow> diff_line" where
  "pop_newline l =
     (if dl_value l \<noteq> [] \<and> last (dl_value l) = CHR 0x0A
      then l\<lparr>dl_value := butlast (dl_value l)\<rparr> else l)"

definition ps_display :: "pair_script \<Rightarrow> diff_result" where
  "ps_display p =
     (case ps_full p of
        DiffModified hunks merge_hunks ls \<Rightarrow> DiffModified hunks merge_hunks (map pop_newline ls)
      | DiffEqual \<Rightarrow> DiffEqual)"

definition hunk_count :: "pair_script \<Rightarrow> nat option" where
  "hunk_count p =
     (case ps_full p of DiffModified hunks _ _ \<Rightarrow> Some (length hunks) | DiffEqual \<Rightarrow> None)"

subsection \<open>Applying selected hunks\<close>

definition merge_hunks_in_display_hunks ::
  "diff_hunk list \<Rightarrow> diff_hunk list \<Rightarrow> nat set \<Rightarrow> nat set" where
  "merge_hunks_in_display_hunks display_hunks merge_hunks selected =
     set (map fst (filter
       (\<lambda>(_, m). \<exists>i \<in> selected. i < length display_hunks
          \<and> dh_start (display_hunks ! i) \<le> dh_start m \<and> dh_end m \<le> dh_end (display_hunks ! i))
       (enum_from 0 merge_hunks)))"

definition selected_indices :: "diff_hunk list \<Rightarrow> nat set \<Rightarrow> nat set" where
  "selected_indices hunks selected =
     (\<Union>i \<in> {i \<in> selected. i < length hunks}. {dh_start (hunks ! i)..<dh_end (hunks ! i)})"

definition selected_line ::
  "nat set \<Rightarrow> hunk_direction \<Rightarrow> nat \<times> diff_line \<Rightarrow> (diff_line \<times> bool) option" where
  "selected_line indices direction x =
     (case x of (index, line) \<Rightarrow>
       (let chosen = (index \<in> indices);
            old = (case direction of LeftToRight \<Rightarrow> chosen | RightToLeft \<Rightarrow> \<not> chosen) in
        (case dl_tag line of
           TEqual \<Rightarrow> Some (line, direction = RightToLeft)
         | TDelete \<Rightarrow> if old then Some (line, True) else None
         | TInsert \<Rightarrow> if \<not> old then Some (line, False) else None)))"

definition selected_lines ::
  "diff_line list \<Rightarrow> diff_hunk list \<Rightarrow> nat set \<Rightarrow> hunk_direction \<Rightarrow> (diff_line \<times> bool) list" where
  "selected_lines ls hunks selected direction =
     List.map_filter (selected_line (selected_indices hunks selected) direction) (enum_from 0 ls)"

definition chosen_bytes :: "pair_script \<Rightarrow> diff_line \<times> bool \<Rightarrow> bytes option" where
  "chosen_bytes p x =
     (case x of (line, old) \<Rightarrow>
       if old then Option.bind (dl_old_index line) (t_raw_line (ps_old p))
       else Option.bind (dl_new_index line) (t_raw_line (ps_new p)))"

fun concat_opt :: "bytes option list \<Rightarrow> bytes option" where
  "concat_opt [] = Some []"
| "concat_opt (None # xs) = None"
| "concat_opt (Some x # xs) = map_option ((@) x) (concat_opt xs)"

definition apply_merge_hunks :: "pair_script \<Rightarrow> nat set \<Rightarrow> hunk_direction \<Rightarrow> bytes option" where
  "apply_merge_hunks p chosen direction =
     (let target = (case direction of LeftToRight \<Rightarrow> ps_new p | RightToLeft \<Rightarrow> ps_old p) in
      (case ps_full p of
         DiffEqual \<Rightarrow> Some (t_raw target)
       | DiffModified _ merge_hunks ls \<Rightarrow>
           map_option ((@) (t_bom target))
             (concat_opt (map (chosen_bytes p) (selected_lines ls merge_hunks chosen direction)))))"

definition ps_apply :: "pair_script \<Rightarrow> nat set \<Rightarrow> hunk_direction \<Rightarrow> bytes option" where
  "ps_apply p selected direction =
     (let chosen = (case ps_full p of
          DiffModified hunks merge_hunks _ \<Rightarrow> merge_hunks_in_display_hunks hunks merge_hunks selected
        | DiffEqual \<Rightarrow> {})
      in apply_merge_hunks p chosen direction)"

subsection \<open>What is assumed of the line diff\<close>

definition old_side :: "(diff_tag \<times> string) list \<Rightarrow> string list" where
  "old_side cs = map snd (filter (\<lambda>(t, _). t \<noteq> TInsert) cs)"

definition new_side :: "(diff_tag \<times> string) list \<Rightarrow> string list" where
  "new_side cs = map snd (filter (\<lambda>(t, _). t \<noteq> TDelete) cs)"

definition diff_ok :: "line_diff \<Rightarrow> string \<Rightarrow> string \<Rightarrow> bool" where
  "diff_ok line_diff old new \<longleftrightarrow>
     old_side (line_diff old new) = str_lines old \<and> new_side (line_diff old new) = str_lines new"

end
