(* ===== verification/DiffProps.thy ===== *)
theory DiffProps
  imports DiffEngine
begin

text \<open>
  Correctness of the hunks and of their application: the ranges of \<open>build_hunks\<close> are the maximal
  runs of lines near a change, every merge hunk lies in one display hunk, and applying a selection
  replaces the selected hunks and nothing else.
\<close>

subsection \<open>The ranges of the hunks\<close>

fun group :: "nat \<Rightarrow> nat \<Rightarrow> nat \<Rightarrow> nat \<Rightarrow> nat list \<Rightarrow> (nat \<times> nat) list" where
  "group c n s e [] = [(s, e)]"
| "group c n s e (ci # cis) =
     (if ci - c \<le> e then group c n s (min (ci + c + 1) n) cis
      else (s, e) # group c n (ci - c) (min (ci + c + 1) n) cis)"

definition count_old :: "diff_line list \<Rightarrow> nat" where
  "count_old ls = length (filter (\<lambda>l. dl_tag l \<noteq> TInsert) ls)"

definition count_new :: "diff_line list \<Rightarrow> nat" where
  "count_new ls = length (filter (\<lambda>l. dl_tag l \<noteq> TDelete) ls)"

definition hunk_at :: "diff_line list \<Rightarrow> nat \<times> nat \<Rightarrow> diff_hunk" where
  "hunk_at ls r = \<lparr>dh_start = fst r, dh_end = snd r,
     dh_old_start = count_old (take (fst r) ls), dh_new_start = count_new (take (fst r) ls)\<rparr>"

lemma hunk_at_sel [simp]: "dh_start (hunk_at ls r) = fst r" "dh_end (hunk_at ls r) = snd r"
  by (simp_all add: hunk_at_def)

lemma foldl_count:
  "foldl count_line (a, b) ls = (a + count_old ls, b + count_new ls)"
  by (induction ls arbitrary: a b) (auto simp: count_old_def count_new_def split: diff_tag.splits)

lemma make_hunk_eq:
  assumes "p \<le> a" "a \<le> length ls"
  shows "make_hunk ls (p, count_old (take p ls), count_new (take p ls)) a b =
     Some (hunk_at ls (a, b), (a, count_old (take a ls), count_new (take a ls)))"
proof -
  have "take a ls = take p ls @ take (a - p) (drop p ls)"
    using assms(1) by (metis le_add_diff_inverse take_add)
  then have "count_old (take a ls) = count_old (take p ls) + count_old (take (a - p) (drop p ls))"
    and "count_new (take a ls) = count_new (take p ls) + count_new (take (a - p) (drop p ls))"
    by (simp_all add: count_old_def count_new_def)
  then show ?thesis using assms by (simp add: make_hunk_def slice_opt_def foldl_count hunk_at_def)
qed

lemma hunk_loop_eq:
  assumes "p \<le> s" "s \<le> e" "e \<le> length ls" "\<forall>ci \<in> set cis. s \<le> ci \<and> ci < length ls" "sorted cis"
  shows "hunk_loop ls c (p, count_old (take p ls), count_new (take p ls)) s e cis =
     Some (map (hunk_at ls) (group c (length ls) s e cis))"
  using assms
proof (induction cis arbitrary: p s e)
  case Nil
  then show ?case by (simp add: make_hunk_eq)
next
  case (Cons ci cis)
  show ?case
  proof (cases "ci - c \<le> e")
    case True
    have "hunk_loop ls c (p, count_old (take p ls), count_new (take p ls)) s
        (min (ci + c + 1) (length ls)) cis =
      Some (map (hunk_at ls) (group c (length ls) s (min (ci + c + 1) (length ls)) cis))"
      using Cons.prems by (intro Cons.IH) auto
    then show ?thesis using True by (simp add: Let_def)
  next
    case False
    have "hunk_loop ls c (s, count_old (take s ls), count_new (take s ls)) (ci - c)
        (min (ci + c + 1) (length ls)) cis =
      Some (map (hunk_at ls) (group c (length ls) (ci - c) (min (ci + c + 1) (length ls)) cis))"
      using Cons.prems False by (intro Cons.IH) force+
    then show ?thesis using False Cons.prems by (simp add: Let_def make_hunk_eq)
  qed
qed

lemma sorted_change_indices: "sorted (change_indices ls)"
proof -
  have "sorted (map fst (enum_from 0 ls))" by (simp add: map_fst_enum_from)
  then show ?thesis unfolding change_indices_def by (rule sorted_filter)
qed

lemma set_change_indices: "set (change_indices ls) = {i. i < length ls \<and> dl_tag (ls ! i) \<noteq> TEqual}"
  by (auto simp: change_indices_def set_enum_from image_iff)

fun groups :: "nat \<Rightarrow> nat \<Rightarrow> nat list \<Rightarrow> (nat \<times> nat) list" where
  "groups c n [] = []"
| "groups c n (ci # cis) = group c n (ci - c) (min (ci + c + 1) n) cis"

lemma build_hunks_eq:
  "build_hunks ls c = Some (map (hunk_at ls) (groups c (length ls) (change_indices ls)))"
proof (cases "change_indices ls")
  case Nil
  then show ?thesis by (simp add: build_hunks_def)
next
  case (Cons ci cis)
  have "\<forall>i \<in> set (ci # cis). i < length ls" "sorted (ci # cis)"
    using set_change_indices[of ls] sorted_change_indices[of ls] Cons by auto
  then have "hunk_loop ls c (0, count_old (take 0 ls), count_new (take 0 ls)) (ci - c)
      (min (ci + c + 1) (length ls)) cis =
    Some (map (hunk_at ls) (group c (length ls) (ci - c) (min (ci + c + 1) (length ls)) cis))"
    by (intro hunk_loop_eq) force+
  then show ?thesis using Cons by (simp add: build_hunks_def count_old_def count_new_def)
qed

text \<open>The ranges are apart from each other, not empty, and cover what is within the context of a
  change.\<close>

lemma group_first: "fst (hd (group c n s e cis)) = s" "group c n s e cis \<noteq> []"
  by (induction cis arbitrary: s e) auto

lemma group_spec:
  assumes "s \<le> l - c" "e = min (l + c + 1) n" "l < n" "sorted (l # cis)" "\<forall>ci \<in> set cis. ci < n"
  shows "sorted_wrt (\<lambda>r r'. snd r < fst r') (group c n s e cis)"
    and "\<forall>r \<in> set (group c n s e cis). s \<le> fst r \<and> fst r < snd r \<and> snd r \<le> n"
    and "(\<Union>r \<in> set (group c n s e cis). {fst r..<snd r}) =
         {s..<e} \<union> (\<Union>ci \<in> set cis. {ci - c..<min (ci + c + 1) n})"
proof -
  have "sorted_wrt (\<lambda>r r'. snd r < fst r') (group c n s e cis)
    \<and> (\<forall>r \<in> set (group c n s e cis). s \<le> fst r \<and> fst r < snd r \<and> snd r \<le> n)
    \<and> (\<Union>r \<in> set (group c n s e cis). {fst r..<snd r}) =
         {s..<e} \<union> (\<Union>ci \<in> set cis. {ci - c..<min (ci + c + 1) n})"
    using assms
  proof (induction cis arbitrary: s e l)
    case Nil
    then show ?case by auto
  next
    case (Cons ci cis)
    let ?e = "min (ci + c + 1) n"
    show ?case
    proof (cases "ci - c \<le> e")
      case True
      have "s \<le> ci - c" using Cons.prems by auto
      note IH = Cons.IH[of s ci ?e]
      have "{s..<?e} = {s..<e} \<union> {ci - c..<?e}" using True Cons.prems by auto
      with IH True show ?thesis using Cons.prems \<open>s \<le> ci - c\<close> by (auto simp: Un_assoc)
    next
      case False
      note IH = Cons.IH[of "ci - c" ci ?e]
      have "s < e" using Cons.prems by auto
      moreover have "e < ci - c" using False by simp
      ultimately have lt: "\<forall>r \<in> set (group c n (ci - c) ?e cis). s \<le> fst r \<and> e < fst r"
        using IH Cons.prems by fastforce
      then show ?thesis using IH False Cons.prems by auto
    qed
  qed
  then show "sorted_wrt (\<lambda>r r'. snd r < fst r') (group c n s e cis)"
    and "\<forall>r \<in> set (group c n s e cis). s \<le> fst r \<and> fst r < snd r \<and> snd r \<le> n"
    and "(\<Union>r \<in> set (group c n s e cis). {fst r..<snd r}) =
         {s..<e} \<union> (\<Union>ci \<in> set cis. {ci - c..<min (ci + c + 1) n})"
    by blast+
qed

lemma groups_spec:
  assumes "sorted cis" "\<forall>ci \<in> set cis. ci < n"
  shows "sorted_wrt (\<lambda>r r'. snd r < fst r') (groups c n cis)"
    and "\<forall>r \<in> set (groups c n cis). fst r < snd r \<and> snd r \<le> n"
    and "(\<Union>r \<in> set (groups c n cis). {fst r..<snd r}) = {i. i < n \<and> (\<exists>ci \<in> set cis. ci \<le> i + c \<and> i \<le> ci + c)}"
proof -
  have *: "sorted_wrt (\<lambda>r r'. snd r < fst r') (groups c n cis)
    \<and> (\<forall>r \<in> set (groups c n cis). fst r < snd r \<and> snd r \<le> n)
    \<and> (\<Union>r \<in> set (groups c n cis). {fst r..<snd r}) = (\<Union>ci \<in> set cis. {ci - c..<min (ci + c + 1) n})"
  proof (cases cis)
    case Nil
    then show ?thesis by simp
  next
    case (Cons ci cis')
    note g = group_spec[of "ci - c" ci c "min (ci + c + 1) n" n cis']
    show ?thesis using assms g unfolding Cons by (simp add: Cons)
  qed
  then show "sorted_wrt (\<lambda>r r'. snd r < fst r') (groups c n cis)"
    and "\<forall>r \<in> set (groups c n cis). fst r < snd r \<and> snd r \<le> n" by blast+
  from * show "(\<Union>r \<in> set (groups c n cis). {fst r..<snd r}) =
      {i. i < n \<and> (\<exists>ci \<in> set cis. ci \<le> i + c \<and> i \<le> ci + c)}"
    by (simp only: *) (force simp: le_diff_conv)
qed

definition near_change :: "diff_line list \<Rightarrow> nat \<Rightarrow> nat \<Rightarrow> bool" where
  "near_change ls c i \<longleftrightarrow> i < length ls
     \<and> (\<exists>j < length ls. dl_tag (ls ! j) \<noteq> TEqual \<and> j \<le> i + c \<and> i \<le> j + c)"

definition in_hunk :: "nat \<Rightarrow> diff_hunk \<Rightarrow> bool" where
  "in_hunk i h \<longleftrightarrow> dh_start h \<le> i \<and> i < dh_end h"

lemma hunks_sorted:
  assumes "build_hunks ls c = Some hs"
  shows "sorted_wrt (\<lambda>h h'. dh_end h < dh_start h') hs"
  using assms groups_spec(1)[OF sorted_change_indices[of ls], of "length ls" c]
  by (auto simp: build_hunks_eq sorted_wrt_map set_change_indices)

lemma hunks_range:
  assumes "build_hunks ls c = Some hs" "h \<in> set hs"
  shows "dh_start h < dh_end h \<and> dh_end h \<le> length ls
     \<and> dh_old_start h = count_old (take (dh_start h) ls)
     \<and> dh_new_start h = count_new (take (dh_start h) ls)"
proof -
  from assms obtain r where r: "r \<in> set (groups c (length ls) (change_indices ls))" "h = hunk_at ls r"
    by (force simp: build_hunks_eq)
  have "fst r < snd r \<and> snd r \<le> length ls"
    using groups_spec(2)[OF sorted_change_indices[of ls], of "length ls" c] r(1)
    by (simp add: set_change_indices)
  then show ?thesis by (simp add: r(2) hunk_at_def)
qed

lemma hunks_cover:
  assumes "build_hunks ls c = Some hs"
  shows "(\<exists>h \<in> set hs. in_hunk i h) \<longleftrightarrow> near_change ls c i"
proof -
  have "(\<exists>h \<in> set hs. in_hunk i h) \<longleftrightarrow>
      i \<in> (\<Union>r \<in> set (groups c (length ls) (change_indices ls)). {fst r..<snd r})"
    using assms[symmetric] by (simp add: build_hunks_eq in_hunk_def)
  also have "\<dots> \<longleftrightarrow> near_change ls c i"
    using groups_spec(3)[OF sorted_change_indices[of ls], of "length ls" c]
    by (auto simp: near_change_def set_change_indices)
  finally show ?thesis .
qed

lemma sorted_disjoint:
  assumes "sorted_wrt (\<lambda>h h'. dh_end h < dh_start h') hs" "i < length hs" "j < length hs"
    "in_hunk x (hs ! i)" "in_hunk x (hs ! j)"
  shows "i = j"
proof (rule ccontr)
  assume "i \<noteq> j"
  then consider "i < j" | "j < i" by linarith
  then show False
  proof cases
    case 1
    then have "dh_end (hs ! i) < dh_start (hs ! j)" using assms sorted_wrt_nth_less by blast
    then show False using assms(4,5) by (simp add: in_hunk_def)
  next
    case 2
    then have "dh_end (hs ! j) < dh_start (hs ! i)" using assms sorted_wrt_nth_less by blast
    then show False using assms(4,5) by (simp add: in_hunk_def)
  qed
qed

text \<open>C30: Splitting any list of diff lines into hunks never panics; the hunks are in order, apart from
  each other and not empty, their line numbers are the numbers of old and new lines before them, and
  the lines they cover are exactly those within the context of a changed line.\<close>

theorem build_hunks_correct:
  "\<exists>hs. build_hunks ls c = Some hs
     \<and> sorted_wrt (\<lambda>h h'. dh_end h < dh_start h') hs
     \<and> list_all (\<lambda>h. dh_start h < dh_end h \<and> dh_end h \<le> length ls
           \<and> dh_old_start h = count_old (take (dh_start h) ls)
           \<and> dh_new_start h = count_new (take (dh_start h) ls)) hs
     \<and> {i. list_ex (in_hunk i) hs} = {i. near_change ls c i}"
proof -
  obtain hs where hs: "build_hunks ls c = Some hs" using build_hunks_eq by blast
  then show ?thesis using hunks_sorted[OF hs] hunks_range[OF hs] hunks_cover[OF hs]
    by (auto simp: list_all_iff list_ex_iff)
qed

text \<open>Every merge hunk lies in one display hunk.\<close>

lemma merge_hunk_display:
  assumes d: "build_hunks ls c = Some ds" and m: "build_hunks ls 0 = Some ms" and "h \<in> set ms" "0 < c"
  shows "\<exists>i < length ds. dh_start (ds ! i) \<le> dh_start h \<and> dh_end h \<le> dh_end (ds ! i)"
proof -
  note r = hunks_range[OF m \<open>h \<in> set ms\<close>]
  have change: "dl_tag (ls ! x) \<noteq> TEqual \<and> x < length ls" if "in_hunk x h" for x
  proof -
    have "near_change ls 0 x" using that hunks_cover[OF m] \<open>h \<in> set ms\<close> by blast
    then obtain j where "j < length ls" "dl_tag (ls ! j) \<noteq> TEqual" "j \<le> x" "x \<le> j"
      by (auto simp: near_change_def)
    then show ?thesis by (cases "j = x") auto
  qed
  have near: "\<exists>i < length ds. in_hunk x (ds ! i)" if "near_change ls c x" for x
    using hunks_cover[OF d, of x] that by (metis in_set_conv_nth)
  have "in_hunk (dh_start h) h" using r by (simp add: in_hunk_def)
  with change[of "dh_start h"] have "near_change ls c (dh_start h)" unfolding near_change_def by force
  then obtain i where i: "i < length ds" "in_hunk (dh_start h) (ds ! i)" using near by blast
  have "dh_end h \<le> dh_end (ds ! i)"
  proof (rule ccontr)
    let ?B = "dh_end (ds ! i)"
    assume "\<not> ?thesis"
    then have "in_hunk ?B h" using i by (simp add: in_hunk_def)
    moreover have "in_hunk (?B - 1) (ds ! i)" using i by (auto simp: in_hunk_def)
    ultimately have "near_change ls c ?B" using change[of ?B] unfolding near_change_def by force
    then obtain j where j: "j < length ds" "in_hunk ?B (ds ! j)" using near by blast
    have "i \<noteq> j" using j by (auto simp: in_hunk_def)
    have sorted: "\<And>x y. x < y \<Longrightarrow> y < length ds \<Longrightarrow> dh_end (ds ! x) < dh_start (ds ! y)"
      using hunks_sorted[OF d] sorted_wrt_nth_less by blast
    consider "i < j" | "j < i" using \<open>i \<noteq> j\<close> by linarith
    then show False
    proof cases
      case 1
      then show False using sorted[of i j] j by (simp add: in_hunk_def)
    next
      case 2
      then show False using sorted[of j i] i j by (simp add: in_hunk_def)
    qed
  qed
  then show ?thesis using i by (auto simp: in_hunk_def)
qed

text \<open>The operating unit of a merge is found from what is shown: every merge hunk (no context) lies
  in exactly one display hunk (three lines of context).\<close>

theorem merge_hunk_in_one_display:
  assumes "build_script line_diff old new = Some (DiffModified hunks merge_hunks ls)"
    and "m \<in> set merge_hunks"
  shows "\<exists>!i. i < length hunks \<and> dh_start (hunks ! i) \<le> dh_start m \<and> dh_end m \<le> dh_end (hunks ! i)"
proof -
  have d: "build_hunks ls 3 = Some hunks" and z: "build_hunks ls 0 = Some merge_hunks"
    using assms(1) by (auto simp: build_script_def Let_def split: if_splits option.splits)
  have "dh_start m < dh_end m" using hunks_range[OF z assms(2)] by simp
  then show ?thesis
    using merge_hunk_display[OF d z assms(2)] sorted_disjoint[OF hunks_sorted[OF d], of _ _ "dh_start m"]
    by (auto simp: in_hunk_def)
qed

subsection \<open>Applying a selection\<close>

lemma upt_add_Suc: "[a..<Suc (a + n)] = a # [Suc a..<Suc (a + n)]"
  by (rule upt_conv_Cons) simp

lemma number_old:
  "map dl_old_index (filter (\<lambda>l. dl_tag l \<noteq> TInsert) (number_changes a b cs)) =
     map Some [a..<a + length (old_side cs)]"
  by (induction a b cs rule: number_changes.induct)
     (simp_all add: old_side_def upt_add_Suc split: diff_tag.split del: upt_Suc)

lemma number_new:
  "map dl_new_index (filter (\<lambda>l. dl_tag l \<noteq> TDelete) (number_changes a b cs)) =
     map Some [b..<b + length (new_side cs)]"
  by (induction a b cs rule: number_changes.induct)
     (simp_all add: new_side_def upt_add_Suc split: diff_tag.split del: upt_Suc)

lemma number_old_value:
  "map dl_value (filter (\<lambda>l. dl_tag l \<noteq> TInsert) (number_changes a b cs)) = old_side cs"
  by (induction a b cs rule: number_changes.induct) (auto simp: old_side_def split: diff_tag.splits)

lemma number_new_value:
  "map dl_value (filter (\<lambda>l. dl_tag l \<noteq> TDelete) (number_changes a b cs)) = new_side cs"
  by (induction a b cs rule: number_changes.induct) (auto simp: new_side_def split: diff_tag.splits)

lemma numbered_nth:
  assumes "map f (filter P ls) = map Some [0..<n]" "map g (filter P ls) = vs" "l \<in> set ls" "P l"
  shows "\<exists>k < n. f l = Some k \<and> k < length vs \<and> vs ! k = g l"
proof -
  from assms(3,4) obtain k where k: "k < length (filter P ls)" "filter P ls ! k = l"
    by (metis (mono_tags) filter_set in_set_conv_nth mem_Collect_eq set_filter)
  have "length (filter P ls) = n" using arg_cong[OF assms(1), of length] by simp
  moreover have "map f (filter P ls) ! k = map Some [0..<n] ! k" using assms(1) by simp
  ultimately show ?thesis using k assms(2) by auto
qed

text \<open>The raw lines of a text, and when they are as many as its decoded lines.\<close>

definition raw_lines_of :: "text_content \<Rightarrow> bytes list" where
  "raw_lines_of t = str_lines (drop (t_bom_len t) (t_raw t))"

definition aligned :: "text_content \<Rightarrow> bool" where
  "aligned t \<longleftrightarrow> text_ok t \<and> length (raw_lines_of t) = length (str_lines (t_decoded t))"

lemma concat_opt_map_Some: "concat_opt (map (\<lambda>x. Some (f x)) xs) = Some (concat (map f xs))"
  by (induction xs) auto

lemma concat_opt_all:
  "(\<And>x. x \<in> set xs \<Longrightarrow> g x = Some (f x)) \<Longrightarrow> concat_opt (map g xs) = Some (concat (map f xs))"
  by (metis (no_types, lifting) concat_opt_map_Some map_eq_conv)

lemma concat_opt_total:
  "(\<And>x. x \<in> set xs \<Longrightarrow> g x \<noteq> None) \<Longrightarrow> concat_opt (map g xs) \<noteq> None"
  by (induction xs) (auto, fastforce)

lemma script_parts:
  assumes "pair_script_new line_diff old new = Some p" "ps_full p = DiffModified hunks merge_hunks ls"
  shows "ps_old p = old" "ps_new p = new"
    "ls = number_changes 0 0 (line_diff (t_decoded old) (t_decoded new))"
    "build_hunks ls 3 = Some hunks" "build_hunks ls 0 = Some merge_hunks"
  using assms by (auto simp: pair_script_new_def build_script_def Let_def split: if_splits option.splits)

lemma script_total: "\<exists>p. pair_script_new line_diff old new = Some p"
  by (auto simp: pair_script_new_def build_script_def build_hunks_eq Let_def)

lemma chosen_old:
  assumes "diff_ok line_diff (t_decoded old) (t_decoded new)" "ps_old p = old" "aligned old"
    "ls = number_changes 0 0 (line_diff (t_decoded old) (t_decoded new))" "l \<in> set ls" "dl_tag l \<noteq> TInsert"
  shows "\<exists>k < length (raw_lines_of old). dl_old_index l = Some k
     \<and> chosen_bytes p (l, True) = Some (raw_lines_of old ! k) \<and> str_lines (t_decoded old) ! k = dl_value l"
proof -
  let ?cs = "line_diff (t_decoded old) (t_decoded new)"
  have num: "map dl_old_index (filter (\<lambda>l. dl_tag l \<noteq> TInsert) (number_changes 0 0 ?cs)) =
      map Some [0..<length (old_side ?cs)]"
    using number_old[of 0 0 ?cs] by simp
  have side: "old_side ?cs = str_lines (t_decoded old)" using assms(1) by (simp add: diff_ok_def)
  obtain k where k: "k < length (old_side ?cs)" "dl_old_index l = Some k" "old_side ?cs ! k = dl_value l"
    using numbered_nth[OF num number_old_value[of 0 0 ?cs] assms(5)[unfolded assms(4)] assms(6)] by blast
  moreover have "t_raw_line old k = Some (raw_lines_of old ! k)"
    using k assms(3) side by (simp add: aligned_def t_raw_line_eq raw_lines_of_def nth_opt_eq)
  ultimately show ?thesis using assms(2,3) side by (simp add: chosen_bytes_def aligned_def)
qed

lemma chosen_new:
  assumes "diff_ok line_diff (t_decoded old) (t_decoded new)" "ps_new p = new" "aligned new"
    "ls = number_changes 0 0 (line_diff (t_decoded old) (t_decoded new))" "l \<in> set ls" "dl_tag l \<noteq> TDelete"
  shows "\<exists>k < length (raw_lines_of new). dl_new_index l = Some k
     \<and> chosen_bytes p (l, False) = Some (raw_lines_of new ! k) \<and> str_lines (t_decoded new) ! k = dl_value l"
proof -
  let ?cs = "line_diff (t_decoded old) (t_decoded new)"
  have num: "map dl_new_index (filter (\<lambda>l. dl_tag l \<noteq> TDelete) (number_changes 0 0 ?cs)) =
      map Some [0..<length (new_side ?cs)]"
    using number_new[of 0 0 ?cs] by simp
  have side: "new_side ?cs = str_lines (t_decoded new)" using assms(1) by (simp add: diff_ok_def)
  obtain k where k: "k < length (new_side ?cs)" "dl_new_index l = Some k" "new_side ?cs ! k = dl_value l"
    using numbered_nth[OF num number_new_value[of 0 0 ?cs] assms(5)[unfolded assms(4)] assms(6)] by blast
  moreover have "t_raw_line new k = Some (raw_lines_of new ! k)"
    using k assms(3) side by (simp add: aligned_def t_raw_line_eq raw_lines_of_def nth_opt_eq)
  ultimately show ?thesis using assms(2,3) side by (simp add: chosen_bytes_def aligned_def)
qed

text \<open>What \<open>selected_line\<close> lets through has the side it is read from.\<close>

lemma selected_line_side:
  assumes "selected_line I direction (i, l) = Some (l', old)"
  shows "l' = l" "old \<Longrightarrow> dl_tag l \<noteq> TInsert" "\<not> old \<Longrightarrow> dl_tag l \<noteq> TDelete"
  using assms by (auto simp: selected_line_def Let_def split: diff_tag.splits if_splits)

lemma selected_lines_side:
  assumes "(l, old) \<in> set (selected_lines ls hunks sel direction)"
  shows "l \<in> set ls \<and> (old \<longrightarrow> dl_tag l \<noteq> TInsert) \<and> (\<not> old \<longrightarrow> dl_tag l \<noteq> TDelete)"
proof -
  from assms obtain x where x: "x \<in> set (enum_from 0 ls)"
    "selected_line (selected_indices hunks sel) direction x = Some (l, old)"
    by (auto simp: selected_lines_def set_map_filter)
  obtain i m where "x = (i, m)" by fastforce
  moreover have "m \<in> set ls" using x calculation by (auto simp: set_enum_from)
  ultimately show ?thesis using selected_line_side[of "selected_indices hunks sel" direction i m l old] x(2) by blast
qed

text \<open>A changed line is taken from the source exactly when it is shown in a selected display hunk.\<close>

definition in_selected :: "diff_hunk list \<Rightarrow> nat set \<Rightarrow> nat \<Rightarrow> bool" where
  "in_selected hunks selected i \<longleftrightarrow> (\<exists>j \<in> selected. j < length hunks \<and> in_hunk i (hunks ! j))"

lemma in_merge_iff:
  assumes d: "build_hunks ls 3 = Some ds" and m: "build_hunks ls 0 = Some ms"
    and i: "i < length ls" "dl_tag (ls ! i) \<noteq> TEqual"
  shows "i \<in> selected_indices ms (merge_hunks_in_display_hunks ds ms sel) \<longleftrightarrow> in_selected ds sel i"
proof
  assume "i \<in> selected_indices ms (merge_hunks_in_display_hunks ds ms sel)"
  then obtain k where k: "k \<in> merge_hunks_in_display_hunks ds ms sel" "k < length ms" "in_hunk i (ms ! k)"
    by (auto simp: selected_indices_def in_hunk_def)
  then obtain j where "j \<in> sel" "j < length ds" "dh_start (ds ! j) \<le> dh_start (ms ! k)"
    "dh_end (ms ! k) \<le> dh_end (ds ! j)"
    by (auto simp: merge_hunks_in_display_hunks_def set_enum_from)
  then show "in_selected ds sel i" using k(3) unfolding in_selected_def in_hunk_def
    by (intro bexI[of _ j]) auto
next
  assume "in_selected ds sel i"
  then obtain j where j: "j \<in> sel" "j < length ds" "in_hunk i (ds ! j)" by (auto simp: in_selected_def)
  have "near_change ls 0 i" using i by (auto simp: near_change_def)
  then obtain k where k: "k < length ms" "in_hunk i (ms ! k)"
    using hunks_cover[OF m, of i] by (metis in_set_conv_nth)
  obtain j' where j': "j' < length ds" "dh_start (ds ! j') \<le> dh_start (ms ! k)"
    "dh_end (ms ! k) \<le> dh_end (ds ! j')"
    using merge_hunk_display[OF d m nth_mem[OF k(1)]] by auto
  then have "in_hunk i (ds ! j')" using k(2) by (auto simp: in_hunk_def)
  then have "j' = j" using sorted_disjoint[OF hunks_sorted[OF d]] j j' by blast
  then have "k \<in> merge_hunks_in_display_hunks ds ms sel"
    using j j' k(1) by (force simp: merge_hunks_in_display_hunks_def set_enum_from image_iff)
  then show "i \<in> selected_indices ms (merge_hunks_in_display_hunks ds ms sel)"
    using k by (auto simp: selected_indices_def in_hunk_def)
qed

text \<open>What one line of the script gives to the old side or to the new side.\<close>

definition side_value :: "bool \<Rightarrow> diff_line \<Rightarrow> string" where
  "side_value old l =
     (case dl_tag l of TEqual \<Rightarrow> dl_value l
      | TDelete \<Rightarrow> if old then dl_value l else []
      | TInsert \<Rightarrow> if old then [] else dl_value l)"

lemma concat_side_old: "concat (map (side_value True) (number_changes a b cs)) = concat (old_side cs)"
  by (induction a b cs rule: number_changes.induct)
     (auto simp: old_side_def side_value_def split: diff_tag.splits)

lemma concat_side_new: "concat (map (side_value False) (number_changes a b cs)) = concat (new_side cs)"
  by (induction a b cs rule: number_changes.induct)
     (auto simp: new_side_def side_value_def split: diff_tag.splits)

lemma map_filter_values:
  assumes "\<forall>(i, l) \<in> set xs. dl_tag l \<noteq> TEqual \<longrightarrow> (i \<in> I \<longleftrightarrow> P i)"
  shows "concat (map (\<lambda>x. dl_value (fst x)) (List.map_filter (selected_line I direction) xs)) =
     concat (map (\<lambda>(i, l). side_value (P i = (direction = LeftToRight)) l) xs)"
  using assms
proof (induction xs)
  case Nil
  then show ?case by (simp add: List.map_filter_simps)
next
  case (Cons x xs)
  obtain i l where x: "x = (i, l)" by fastforce
  have "dl_tag l \<noteq> TEqual \<longrightarrow> (i \<in> I \<longleftrightarrow> P i)" using Cons.prems x by auto
  then have "(case selected_line I direction x of None \<Rightarrow> [] | Some y \<Rightarrow> dl_value (fst y)) =
      side_value (P i = (direction = LeftToRight)) l"
    by (cases "dl_tag l"; cases direction; simp add: x selected_line_def side_value_def)
  moreover have "concat (map (\<lambda>x. dl_value (fst x)) (List.map_filter (selected_line I direction) xs)) =
     concat (map (\<lambda>(i, l). side_value (P i = (direction = LeftToRight)) l) xs)"
    using Cons by auto
  ultimately show ?case
    by (cases "selected_line I direction x") (simp_all add: x List.map_filter_simps)
qed

definition utf8_text :: "decoders \<Rightarrow> text_content \<Rightarrow> bool" where
  "utf8_text d t \<longleftrightarrow> t_encoding t = Utf8 \<and> (\<exists>i. interpret_as d (t_raw t) i = Inr (TextContent t))"

lemma utf8_text_decoded:
  assumes "utf8_text d t"
  shows "aligned t" "t_decoded t = drop (t_bom_len t) (t_raw t)" "raw_lines_of t = str_lines (t_decoded t)"
proof -
  from assms obtain i where i: "t_encoding t = Utf8" "interpret_as d (t_raw t) i = Inr (TextContent t)"
    by (auto simp: utf8_text_def)
  from interpret_utf8_decoded[OF i(2,1)]
  show dec: "t_decoded t = drop (t_bom_len t) (t_raw t)" .
  then show "raw_lines_of t = str_lines (t_decoded t)" by (simp add: raw_lines_of_def)
  with interpret_text_ok[OF i(2)] show "aligned t" by (simp add: aligned_def)
qed

definition target_text :: "text_content \<Rightarrow> text_content \<Rightarrow> hunk_direction \<Rightarrow> text_content" where
  "target_text old new direction = (case direction of LeftToRight \<Rightarrow> new | RightToLeft \<Rightarrow> old)"

lemma apply_lines:
  assumes "utf8_text d old" "utf8_text d new" "diff_ok line_diff (t_decoded old) (t_decoded new)"
    and p: "pair_script_new line_diff old new = Some p" and "ps_full p = DiffModified hunks merge_hunks ls"
  shows "ps_apply p selected direction =
    Some (t_bom (target_text old new direction) @
          concat (map (\<lambda>(i, l). side_value (in_selected hunks selected i = (direction = LeftToRight)) l)
                   (enum_from 0 ls)))"
proof -
  note sp = script_parts[OF p assms(5)]
  let ?I = "selected_indices merge_hunks (merge_hunks_in_display_hunks hunks merge_hunks selected)"
  let ?sel = "selected_lines ls merge_hunks (merge_hunks_in_display_hunks hunks merge_hunks selected) direction"
  have "chosen_bytes p (l, side) = Some (dl_value l)" if "(l, side) \<in> set ?sel" for l side
    using selected_lines_side[OF that] chosen_old[OF assms(3) sp(1) _ sp(3), of l]
      chosen_new[OF assms(3) sp(2) _ sp(3), of l] utf8_text_decoded[OF assms(1)] utf8_text_decoded[OF assms(2)]
    by (cases side) auto
  then have "concat_opt (map (chosen_bytes p) ?sel) = Some (concat (map (\<lambda>x. dl_value (fst x)) ?sel))"
    by (intro concat_opt_all) auto
  also have "concat (map (\<lambda>x. dl_value (fst x)) ?sel) =
     concat (map (\<lambda>(i, l). side_value (in_selected hunks selected i = (direction = LeftToRight)) l)
                   (enum_from 0 ls))"
    unfolding selected_lines_def
    using in_merge_iff[OF sp(4,5)] by (intro map_filter_values) (auto simp: set_enum_from)
  finally show ?thesis using assms(5) sp(1,2)
    by (simp add: ps_apply_def apply_merge_hunks_def target_text_def split: hunk_direction.splits)
qed

lemma in_selected_empty [simp]: "\<not> in_selected hunks {} i"
  by (simp add: in_selected_def)

lemma in_selected_all:
  assumes "build_hunks ls 3 = Some hunks" "i < length ls" "dl_tag (ls ! i) \<noteq> TEqual"
  shows "in_selected hunks {..<length hunks} i"
proof -
  have "near_change ls 3 i" using assms(2,3) by (auto simp: near_change_def)
  then obtain j where "j < length hunks" "in_hunk i (hunks ! j)"
    using hunks_cover[OF assms(1), of i] by (metis in_set_conv_nth)
  then show ?thesis by (auto simp: in_selected_def)
qed

lemma bom_body: "text_ok t \<Longrightarrow> t_bom t @ drop (t_bom_len t) (t_raw t) = t_raw t"
  by (simp add: t_bom_def)

text \<open>The lines the target's own side is read from, in order.\<close>

lemma selected_none_lines:
  "selected_lines ls hunks {} direction =
     (case direction of
        RightToLeft \<Rightarrow> map (\<lambda>l. (l, True)) (filter (\<lambda>l. dl_tag l \<noteq> TInsert) ls)
      | LeftToRight \<Rightarrow> map (\<lambda>l. (l, False)) (filter (\<lambda>l. dl_tag l \<noteq> TDelete) ls))"
proof -
  have "List.map_filter (selected_line {} direction) (enum_from k ls) =
     (case direction of
        RightToLeft \<Rightarrow> map (\<lambda>l. (l, True)) (filter (\<lambda>l. dl_tag l \<noteq> TInsert) ls)
      | LeftToRight \<Rightarrow> map (\<lambda>l. (l, False)) (filter (\<lambda>l. dl_tag l \<noteq> TDelete) ls))" for k
    by (induction ls arbitrary: k)
       (auto simp: List.map_filter_simps selected_line_def split: diff_tag.splits hunk_direction.splits)
  then show ?thesis by (simp add: selected_lines_def selected_indices_def)
qed

lemma concat_opt_raw_lines:
  assumes "aligned t" "map f ls = map Some [0..<length (raw_lines_of t)]"
  shows "concat_opt (map (\<lambda>l. Option.bind (f l) (t_raw_line t)) ls) =
     Some (drop (t_bom_len t) (t_raw t))"
proof -
  have "map (\<lambda>l. Option.bind (f l) (t_raw_line t)) ls = map (\<lambda>k. Option.bind k (t_raw_line t)) (map f ls)"
    by simp
  also have "\<dots> = map (t_raw_line t) [0..<length (raw_lines_of t)]" unfolding assms(2) by simp
  also have "\<dots> = map Some (raw_lines_of t)"
    using assms(1)
    by (intro nth_equalityI) (simp_all add: aligned_def t_raw_line_eq raw_lines_of_def nth_opt_eq)
  finally show ?thesis using concat_opt_map_Some[of "\<lambda>x. x" "raw_lines_of t"]
    by (simp add: raw_lines_of_def)
qed

text \<open>C19: Whatever the encodings, applying no hunk (no number selected, or only numbers no hunk has)
  gives back the bytes of the file that is written to, its BOM and its line endings included.\<close>

theorem apply_nothing_keeps_target:
  assumes "pair_script_new line_diff old new = Some p"
    and "aligned old" "aligned new"
    and "diff_ok line_diff (t_decoded old) (t_decoded new)"
    and "\<And>n i. hunk_count p = Some n \<Longrightarrow> i \<in> selected \<Longrightarrow> n \<le> i"
  shows "ps_apply p selected direction = Some (t_raw (target_text old new direction))"
proof (cases "ps_full p")
  case DiffEqual
  then show ?thesis using assms(1)
    by (auto simp: ps_apply_def apply_merge_hunks_def target_text_def pair_script_new_def
        split: hunk_direction.splits)
next
  case (DiffModified hunks merge_hunks ls)
  note sp = script_parts[OF assms(1) DiffModified]
  let ?cs = "line_diff (t_decoded old) (t_decoded new)"
  have none: "merge_hunks_in_display_hunks hunks merge_hunks selected = {}"
    using assms(5) DiffModified by (force simp: hunk_count_def merge_hunks_in_display_hunks_def filter_empty_conv)
  have "length (raw_lines_of old) = length (old_side ?cs)" "length (raw_lines_of new) = length (new_side ?cs)"
    using assms(2-4) by (simp_all add: aligned_def diff_ok_def)
  then have "concat_opt (map (chosen_bytes p) (selected_lines ls merge_hunks {} direction)) =
     (let t = target_text old new direction in Some (drop (t_bom_len t) (t_raw t)))"
    using concat_opt_raw_lines[OF assms(2), of dl_old_index "filter (\<lambda>l. dl_tag l \<noteq> TInsert) ls"]
      concat_opt_raw_lines[OF assms(3), of dl_new_index "filter (\<lambda>l. dl_tag l \<noteq> TDelete) ls"]
      number_old[of 0 0 ?cs] number_new[of 0 0 ?cs] sp(1,2,3)
    by (cases direction) (simp_all add: selected_none_lines target_text_def chosen_bytes_def comp_def)
  then show ?thesis using DiffModified none sp(1,2) bom_body assms(2,3)
    by (cases direction) (simp_all add: ps_apply_def apply_merge_hunks_def target_text_def aligned_def)
qed

text \<open>C15: For two UTF-8 texts, applying a selection never panics and gives the lines of the target
  with those of the source in the selected display hunks: a line shown in a selected hunk is taken
  from the source, every other line from the target, behind the target's BOM.\<close>

theorem apply_replaces_selected_hunks:
  assumes "utf8_text d old" "utf8_text d new" "diff_ok line_diff (t_decoded old) (t_decoded new)"
    and "pair_script_new line_diff old new = Some p"
    and "ps_full p = DiffModified hunks merge_hunks ls"
  shows "ps_apply p selected direction =
    Some (t_bom (target_text old new direction) @
          concat (map (\<lambda>(i, l). side_value (in_selected hunks selected i = (direction = LeftToRight)) l)
                   (enum_from 0 ls)))"
  using assms by (rule apply_lines)

text \<open>For two UTF-8 texts, applying every display hunk makes the target equal to the source behind
  the target's own BOM.\<close>

theorem apply_everything_gives_source:
  assumes "utf8_text d old" "utf8_text d new" "diff_ok line_diff (t_decoded old) (t_decoded new)"
    and "pair_script_new line_diff old new = Some p" "hunk_count p = Some n"
  shows "ps_apply p {..<n} direction =
    Some (case direction of
            LeftToRight \<Rightarrow> t_bom new @ t_decoded old
          | RightToLeft \<Rightarrow> t_bom old @ t_decoded new)"
proof -
  obtain hunks merge_hunks ls where m: "ps_full p = DiffModified hunks merge_hunks ls" "n = length hunks"
    using assms(5) by (auto simp: hunk_count_def split: diff_result.splits)
  note sp = script_parts[OF assms(4) m(1)]
  have "(\<lambda>(i, l). side_value (in_selected hunks {..<n} i = (direction = LeftToRight)) l) x =
        side_value (direction = LeftToRight) (snd x)" if x: "x \<in> set (enum_from 0 ls)" for x
  proof -
    obtain i where i: "x = (i, ls ! i)" "i < length ls" using x by (auto simp: set_enum_from)
    show ?thesis
    proof (cases "dl_tag (ls ! i) = TEqual")
      case True
      then show ?thesis by (simp add: i side_value_def)
    next
      case False
      then show ?thesis using in_selected_all[OF sp(4) i(2)] m(2) i by simp
    qed
  qed
  then have "map (\<lambda>(i, l). side_value (in_selected hunks {..<n} i = (direction = LeftToRight)) l)
      (enum_from 0 ls) = map (side_value (direction = LeftToRight)) (map snd (enum_from 0 ls))"
    by (simp only: map_map comp_def) (rule map_cong, auto)
  then have *: "map (\<lambda>(i, l). side_value (in_selected hunks {..<n} i = (direction = LeftToRight)) l)
      (enum_from 0 ls) = map (side_value (direction = LeftToRight)) ls" by simp
  show ?thesis
    unfolding apply_lines[OF assms(1-4) m(1)] *
    using assms(3) concat_side_old[of 0 0 "line_diff (t_decoded old) (t_decoded new)"]
      concat_side_new[of 0 0 "line_diff (t_decoded old) (t_decoded new)"]
    by (cases direction) (simp_all add: sp(3) target_text_def diff_ok_def)
qed

subsection \<open>Witnesses\<close>

definition ex_left :: bytes where
  "ex_left = [CHR ''a'', CHR 0x0A, CHR ''b'', CHR 0x0A]"

definition ex_right :: bytes where
  "ex_right = utf8_bom @ [CHR ''a'', CHR 0x0A, CHR ''c'', CHR 0x0A]"

definition ex_text :: "bytes \<Rightarrow> text_content" where
  "ex_text raw = (let n = (if starts_with utf8_bom raw then 3 else 0) in text_of raw (drop n raw) Utf8 n)"

definition ex_changes :: "(diff_tag \<times> string) list" where
  "ex_changes = [(TEqual, [CHR ''a'', CHR 0x0A]), (TDelete, [CHR ''b'', CHR 0x0A]),
                 (TInsert, [CHR ''c'', CHR 0x0A])]"

definition ex_lines :: "diff_line list" where
  "ex_lines = number_changes 0 0 ex_changes"

definition ex_hunk :: "nat \<Rightarrow> diff_hunk" where
  "ex_hunk a = \<lparr>dh_start = a, dh_end = 3, dh_old_start = a, dh_new_start = a\<rparr>"

definition ex_script :: pair_script where
  "ex_script = \<lparr>ps_old = ex_text ex_left, ps_new = ex_text ex_right,
     ps_full = DiffModified [ex_hunk 0] [ex_hunk 1] ex_lines\<rparr>"

definition ex_decoders :: decoders where
  "ex_decoders = \<lparr>euc_jp = Some, shift_jis = Some\<rparr>"

lemma ex_interpret:
  "interpret_as ex_decoders ex_left Unspecified = Inr (TextContent (ex_text ex_left))"
  "interpret_as ex_decoders ex_right Unspecified = Inr (TextContent (ex_text ex_right))"
  by code_simp+

lemma ex_utf8: "utf8_text ex_decoders (ex_text ex_left)" "utf8_text ex_decoders (ex_text ex_right)"
proof -
  have "t_raw (ex_text b) = b" "t_encoding (ex_text b) = Utf8" for b
    by (simp_all add: ex_text_def text_of_def Let_def)
  then show "utf8_text ex_decoders (ex_text ex_left)" "utf8_text ex_decoders (ex_text ex_right)"
    using ex_interpret by (auto simp: utf8_text_def)
qed

lemma ex_diff_ok: "diff_ok (\<lambda>_ _. ex_changes) (t_decoded (ex_text ex_left)) (t_decoded (ex_text ex_right))"
  by code_simp

lemma ex_script_new: "pair_script_new (\<lambda>_ _. ex_changes) (ex_text ex_left) (ex_text ex_right) = Some ex_script"
  by code_simp

theorem merge_hunk_in_one_display_witness:
  "\<exists>!i. i < length [ex_hunk 0] \<and> dh_start ([ex_hunk 0] ! i) \<le> dh_start (ex_hunk 1)
     \<and> dh_end (ex_hunk 1) \<le> dh_end ([ex_hunk 0] ! i)"
proof (rule merge_hunk_in_one_display)
  show "build_script (\<lambda>_ _. ex_changes) (t_decoded (ex_text ex_left)) (t_decoded (ex_text ex_right)) =
      Some (DiffModified [ex_hunk 0] [ex_hunk 1] ex_lines)" by code_simp
qed simp

theorem apply_nothing_keeps_target_witness:
  "ps_apply ex_script {5} LeftToRight = Some ex_right"
  using apply_nothing_keeps_target[OF ex_script_new utf8_text_decoded(1)[OF ex_utf8(1)]
      utf8_text_decoded(1)[OF ex_utf8(2)] ex_diff_ok, of "{5}" LeftToRight]
  by (simp add: ex_script_def hunk_count_def target_text_def ex_text_def text_of_def Let_def)

theorem apply_replaces_selected_hunks_witness:
  "ps_apply ex_script {0} LeftToRight = Some (utf8_bom @ ex_left)"
proof -
  have "ps_full ex_script = DiffModified [ex_hunk 0] [ex_hunk 1] ex_lines" by (simp add: ex_script_def)
  from apply_replaces_selected_hunks[OF ex_utf8 ex_diff_ok ex_script_new this, of "{0}" LeftToRight]
  show ?thesis
    by (simp add: target_text_def ex_lines_def ex_changes_def ex_text_def text_of_def Let_def
        in_selected_def in_hunk_def ex_hunk_def side_value_def t_bom_def ex_left_def ex_right_def utf8_bom_def
        starts_with_def)
qed

theorem apply_everything_gives_source_witness:
  "ps_apply ex_script {..<1} RightToLeft = Some [CHR ''a'', CHR 0x0A, CHR ''c'', CHR 0x0A]"
proof -
  have "hunk_count ex_script = Some 1" by (simp add: ex_script_def hunk_count_def)
  from apply_everything_gives_source[OF ex_utf8 ex_diff_ok ex_script_new this, of RightToLeft]
  show ?thesis
    by (simp add: ex_text_def text_of_def Let_def t_bom_def ex_left_def ex_right_def utf8_bom_def
        starts_with_def)
qed

end
