(* ===== verification/ConflictProps.thy ===== *)
theory ConflictProps
  imports Conflict DiffProps
begin

text \<open>
  Correctness of the changes of one side (\<open>extract_changes\<close>) and of the merged regions of a
  three-way comparison.
\<close>

subsection \<open>Blocks of a numbered script\<close>

lemma number_append:
  "number_changes a b (cs @ ds) = number_changes a b cs @
     number_changes (a + length (old_side cs)) (b + length (new_side cs)) ds"
  by (induction a b cs rule: number_changes.induct)
     (auto simp: old_side_def new_side_def split: diff_tag.splits)

lemma takeWhile_number:
  "takeWhile (\<lambda>l. dl_tag l = T) (number_changes a b cs) = number_changes a b (takeWhile (\<lambda>c. fst c = T) cs)"
  by (induction a b cs rule: number_changes.induct) (auto split: diff_tag.splits)

lemma dropWhile_number:
  "dropWhile (\<lambda>l. dl_tag l = T) (number_changes a b cs) =
     number_changes (a + length (old_side (takeWhile (\<lambda>c. fst c = T) cs)))
       (b + length (new_side (takeWhile (\<lambda>c. fst c = T) cs))) (dropWhile (\<lambda>c. fst c = T) cs)"
  by (induction a b cs rule: number_changes.induct)
     (auto simp: old_side_def new_side_def split: diff_tag.splits)

lemma is_delete_tag: "is_delete = (\<lambda>l. dl_tag l = TDelete)"
  and is_insert_tag: "is_insert = (\<lambda>l. dl_tag l = TInsert)"
  by (auto simp: is_delete_def is_insert_def)

lemma sides_append [simp]:
  "old_side (cs @ ds) = old_side cs @ old_side ds" "new_side (cs @ ds) = new_side cs @ new_side ds"
  by (simp_all add: old_side_def new_side_def)

lemma sides_deletes:
  "\<forall>c \<in> set cs. fst c = TDelete \<Longrightarrow> old_side cs = map snd cs \<and> new_side cs = []"
  by (induction cs) (auto simp: old_side_def new_side_def)

lemma sides_inserts:
  "\<forall>c \<in> set cs. fst c = TInsert \<Longrightarrow> old_side cs = [] \<and> new_side cs = map snd cs"
  by (induction cs) (auto simp: old_side_def new_side_def)

lemma values_number: "map dl_value (number_changes a b cs) = map snd cs"
  by (induction a b cs rule: number_changes.induct) (auto split: diff_tag.splits)

lemma length_number [simp]: "length (number_changes a b cs) = length cs"
  by (metis length_map values_number)

lemma bset_insert_append: "\<forall>y \<in> set ys. y < x \<Longrightarrow> bset_insert x ys = ys @ [x]"
  by (induction ys) auto

lemma set_bset_insert [simp]: "set (bset_insert x ys) = insert x (set ys)"
  by (induction x ys rule: bset_insert.induct) auto

lemma set_bset_extend [simp]: "set (bset_extend xs ys) = set xs \<union> set ys"
proof -
  have "set (fold bset_insert ys xs) = set xs \<union> set ys" by (induction ys arbitrary: xs) auto
  then show ?thesis by (simp add: bset_extend_def)
qed

lemma file_lines_number:
  assumes "\<forall>c \<in> set cs. fst c = TInsert"
  shows "file_lines_of (number_changes a b cs) = [b..<b + length cs]"
proof -
  have "fold (\<lambda>l acc. case dl_new_index l of Some ni \<Rightarrow> bset_insert ni acc | None \<Rightarrow> acc)
      (number_changes a b cs) acc = acc @ [b..<b + length cs]" if "\<forall>y \<in> set acc. y < b" for acc
    using assms that
  proof (induction cs arbitrary: acc b)
    case Nil
    then show ?case by simp
  next
    case (Cons c cs)
    obtain v where "c = (TInsert, v)" using Cons.prems(1) by (cases c) auto
    moreover have "\<forall>y \<in> set (acc @ [b]). y < b + 1" using Cons.prems(2) by (auto simp: less_SucI)
    ultimately show ?case using Cons.IH[of "acc @ [b]" "b + 1"] Cons.prems
      by (simp add: bset_insert_append upt_add_Suc del: upt_Suc)
  qed
  from this[of "[]"] show ?thesis by (simp add: file_lines_of_def)
qed

lemma insert_position_snoc:
  "insert_position (ls @ [l]) =
     (case dl_old_index l of Some k \<Rightarrow> k + 1 | None \<Rightarrow> insert_position ls)"
  by (simp add: insert_position_def split: option.splits)

lemma insert_position_number:
  "insert_position before = a \<Longrightarrow>
   insert_position (before @ number_changes a b cs) = a + length (old_side cs)"
proof (induction cs arbitrary: before a b)
  case Nil
  then show ?case by (simp add: old_side_def)
next
  case (Cons c cs)
  obtain t v where c: "c = (t, v)" by fastforce
  let ?l = "hd (number_changes a b [c])"
  let ?a = "a + length (old_side [c])" and ?b = "b + length (new_side [c])"
  have "number_changes a b (c # cs) = ?l # number_changes ?a ?b cs"
    by (cases t) (simp_all add: c old_side_def new_side_def)
  moreover have "insert_position (before @ [?l]) = ?a"
    using Cons.prems by (cases t) (simp_all add: c old_side_def insert_position_snoc)
  ultimately show ?case using Cons.IH[of "before @ [?l]" ?a ?b] by (auto simp: old_side_def)
qed

lemma bt_insert_last: "\<forall>x \<in> set m. fst x < k \<Longrightarrow> bt_insert k v m = m @ [(k, v)]"
  by (induction m) auto

subsection \<open>The changes turn the reference into the other side\<close>

fun patch :: "nat \<Rightarrow> string list \<Rightarrow> changes \<Rightarrow> string list" where
  "patch k ls [] = ls"
| "patch k ls ((s, info) # m) =
     take (s - k) ls @ ci_replacement info @
     patch (s + ci_ref_line_count info) (drop (s - k + ci_ref_line_count info) ls) m"

definition change_end :: "nat \<times> change_info \<Rightarrow> nat" where
  "change_end x = fst x + ci_ref_line_count (snd x)"

text \<open>Changes are apart: an unchanged line of the reference lies between any two.\<close>

definition apart :: "changes \<Rightarrow> bool" where
  "apart m = sorted_wrt (\<lambda>x y. change_end x < fst y) m"

text \<open>An insert is never followed at once by a delete.\<close>

fun no_ins_del :: "(diff_tag \<times> string) list \<Rightarrow> bool" where
  "no_ins_del (x # y # cs) = (\<not> (fst x = TInsert \<and> fst y = TDelete) \<and> no_ins_del (y # cs))"
| "no_ins_del _ = True"

lemma no_ins_del_tl: "no_ins_del (x # cs) \<Longrightarrow> no_ins_del cs"
  by (cases cs) auto

lemma no_ins_del_append: "no_ins_del (cs @ ds) \<Longrightarrow> no_ins_del ds"
  using no_ins_del_tl by (induction cs) auto

lemma after_inserts:
  assumes "no_ins_del (cs @ ds)" "cs \<noteq> []" "\<forall>c \<in> set cs. fst c = TInsert"
    "ds = [] \<or> fst (hd ds) \<noteq> TInsert"
  shows "ds = [] \<or> fst (hd ds) = TEqual"
  using assms
proof (induction cs)
  case Nil
  then show ?case by simp
next
  case (Cons c cs)
  show ?case
  proof (cases cs)
    case Nil
    then show ?thesis using Cons.prems by (cases ds; cases "fst (hd ds)") auto
  next
    case (Cons c' cs')
    then show ?thesis using Cons.IH Cons.prems no_ins_del_tl by auto
  qed
qed

lemma patch_skip:
  "\<forall>x \<in> set m. a + 1 \<le> fst x \<Longrightarrow> patch a (v # ls) m = v # patch (a + 1) ls m"
proof (cases m)
  case (Cons x m')
  assume *: "\<forall>x \<in> set m. a + 1 \<le> fst x"
  obtain s i where x: "x = (s, i)" by fastforce
  have "a + 1 \<le> s" using * Cons x by simp
  then obtain e where "s = a + 1 + e" using le_Suc_ex by blast
  then show ?thesis using Cons x by simp
qed simp

text \<open>What holds of the changes found from the line numbers \<open>a\<close> and \<open>b\<close> on.\<close>

definition found_ok :: "nat \<Rightarrow> (diff_tag \<times> string) list \<Rightarrow> changes \<Rightarrow> bool" where
  "found_ok a cs m \<longleftrightarrow> apart m \<and> (\<forall>x \<in> set m. a \<le> fst x) \<and> patch a (old_side cs) m = new_side cs"

definition starts_changed :: "(diff_tag \<times> string) list \<Rightarrow> bool" where
  "starts_changed cs = (cs \<noteq> [] \<and> fst (hd cs) \<noteq> TEqual)"

lemma not_starts_changed: "cs = [] \<or> fst (hd cs) = TEqual \<Longrightarrow> \<not> starts_changed cs"
  by (auto simp: starts_changed_def)

lemma found_ok_cons:
  assumes "\<forall>c \<in> set dels. fst c = TDelete" "\<forall>c \<in> set ins. fst c = TInsert" "dels @ ins \<noteq> []"
    "found_ok (a + length dels) cs m" "cs = [] \<or> fst (hd cs) = TEqual"
    "ci_replacement info = map snd ins" "ci_ref_line_count info = length dels"
    "\<forall>x \<in> set m. a + length dels < fst x"
  shows "found_ok a (dels @ ins @ cs) ((a, info) # m)"
proof -
  note d = sides_deletes[OF assms(1)] and i = sides_inserts[OF assms(2)]
  have "patch a (old_side (dels @ ins @ cs)) ((a, info) # m) = new_side (dels @ ins @ cs)"
    using assms(4,6,7) d i by (simp add: found_ok_def)
  moreover have "apart ((a, info) # m)"
    using assms(4,7,8) by (simp add: found_ok_def apart_def change_end_def)
  ultimately show ?thesis using assms(4) by (fastforce simp: found_ok_def)
qed

text \<open>One block of changes, taken by one turn of the loop.\<close>

definition dels_of :: "(diff_tag \<times> string) list \<Rightarrow> (diff_tag \<times> string) list" where
  "dels_of cs = takeWhile (\<lambda>c. fst c = TDelete) cs"

definition ins_of :: "(diff_tag \<times> string) list \<Rightarrow> (diff_tag \<times> string) list" where
  "ins_of cs = takeWhile (\<lambda>c. fst c = TInsert) (dropWhile (\<lambda>c. fst c = TDelete) cs)"

definition rest_of :: "(diff_tag \<times> string) list \<Rightarrow> (diff_tag \<times> string) list" where
  "rest_of cs = dropWhile (\<lambda>c. fst c = TInsert) (dropWhile (\<lambda>c. fst c = TDelete) cs)"

lemma block_parts:
  "cs = dels_of cs @ ins_of cs @ rest_of cs"
  "\<forall>c \<in> set (dels_of cs). fst c = TDelete" "\<forall>c \<in> set (ins_of cs). fst c = TInsert"
  by (auto simp: dels_of_def ins_of_def rest_of_def dest: set_takeWhileD)

lemma block_ne: "starts_changed cs \<Longrightarrow> dels_of cs @ ins_of cs \<noteq> []"
  by (cases cs; cases "fst (hd cs)") (auto simp: starts_changed_def dels_of_def ins_of_def)

lemma rest_equal:
  assumes "no_ins_del cs" "starts_changed cs"
  shows "rest_of cs = [] \<or> fst (hd (rest_of cs)) = TEqual"
proof (cases "ins_of cs = []")
  case True
  let ?r = "dropWhile (\<lambda>c. fst c = TDelete) cs"
  have r: "rest_of cs = ?r" using True by (simp add: rest_of_def ins_of_def) (metis append_Nil takeWhile_dropWhile_id)
  show ?thesis
  proof (cases ?r)
    case Nil
    then show ?thesis using r by simp
  next
    case (Cons c cs')
    have "fst c \<noteq> TDelete" using Cons hd_dropWhile[of "\<lambda>c. fst c = TDelete" cs] by simp
    moreover have "fst c \<noteq> TInsert" using True Cons by (auto simp: ins_of_def)
    ultimately show ?thesis using r Cons by (cases "fst c") auto
  qed
next
  case False
  have "no_ins_del (ins_of cs @ rest_of cs)"
    using assms(1) block_parts(1)[of cs] no_ins_del_append by metis
  moreover have "rest_of cs = [] \<or> fst (hd (rest_of cs)) \<noteq> TInsert"
    using hd_dropWhile[of "\<lambda>c. fst c = TInsert" "dropWhile (\<lambda>c. fst c = TDelete) cs"]
    by (auto simp: rest_of_def)
  ultimately show ?thesis using after_inserts[OF _ False block_parts(3)] by blast
qed

lemma length_rest: "starts_changed cs \<Longrightarrow> length (rest_of cs) < length cs"
proof -
  assume "starts_changed cs"
  then have "length (dels_of cs @ ins_of cs) \<noteq> 0" using block_ne by simp
  moreover have "length cs = length (dels_of cs) + length (ins_of cs) + length (rest_of cs)"
    by (metis add.assoc block_parts(1) length_append)
  ultimately show ?thesis by simp
qed

definition block_info :: "nat \<Rightarrow> (diff_tag \<times> string) list \<Rightarrow> change_info" where
  "block_info b cs = \<lparr>ci_replacement = map snd (ins_of cs), ci_ref_line_count = length (dels_of cs),
     ci_file_lines = [b..<b + length (ins_of cs)]\<rparr>"

lemma extract_step:
  assumes "starts_changed cs" "insert_position before = a"
  shows "extract_loop before (number_changes a b cs) m =
    extract_loop (before @ number_changes a b (dels_of cs @ ins_of cs))
      (number_changes (a + length (dels_of cs)) (b + length (ins_of cs)) (rest_of cs))
      (bt_insert a (block_info b cs) m)"
proof -
  from assms(1) obtain t v cs' where c: "cs = (t, v) # cs'" "t \<noteq> TEqual"
    by (cases cs) (auto simp: starts_changed_def)
  obtain l ls where l: "number_changes a b cs = l # ls" "dl_tag l = t"
    "t = TDelete \<Longrightarrow> dl_old_index l = Some a"
    using c by (cases t) auto
  let ?D = "dels_of cs" and ?I = "ins_of cs"
  note sd = sides_deletes[OF block_parts(2)[of cs]] and si = sides_inserts[OF block_parts(3)[of cs]]
  have dels: "takeWhile is_delete (l # ls) = number_changes a b ?D"
    "dropWhile is_delete (l # ls) = number_changes (a + length ?D) b (dropWhile (\<lambda>c. fst c = TDelete) cs)"
    using sd unfolding l(1)[symmetric] is_delete_tag takeWhile_number dropWhile_number
    by (simp_all add: dels_of_def)
  have ins: "takeWhile is_insert (number_changes k b (dropWhile (\<lambda>c. fst c = TDelete) cs)) =
      number_changes k b ?I"
    "dropWhile is_insert (number_changes k b (dropWhile (\<lambda>c. fst c = TDelete) cs)) =
      number_changes k (b + length ?I) (rest_of cs)" for k
    using si unfolding is_insert_tag takeWhile_number dropWhile_number
    by (simp_all add: ins_of_def rest_of_def)
  have info: "info_of (length ?D) (number_changes k b ?I) = block_info b cs" for k
    by (simp add: info_of_def block_info_def values_number file_lines_number[OF block_parts(3)])
  have app: "number_changes a b (?D @ ?I) = number_changes a b ?D @ number_changes (a + length ?D) b ?I"
    using sd by (simp add: number_append)
  show ?thesis
  proof (cases t)
    case TDelete
    then show ?thesis unfolding l(1) using l(2,3) dels ins info app
      by (simp add: is_delete_def Let_def del: takeWhile.simps dropWhile.simps)
  next
    case TInsert
    then have "?D = []" using c by (simp add: dels_of_def)
    moreover have d: "dropWhile (\<lambda>c. fst c = TDelete) cs = cs" by (simp add: c TInsert)
    moreover have "takeWhile is_insert (l # ls) = number_changes a b ?I"
      "dropWhile is_insert (l # ls) = number_changes a (b + length ?I) (rest_of cs)"
      using ins[of a] unfolding d l(1) .
    ultimately show ?thesis using l(2) TInsert info[of a] app assms(2) unfolding l(1)
      by (simp add: is_delete_def is_insert_def Let_def del: takeWhile.simps dropWhile.simps)
  qed (use c in simp)
qed

lemma extract_equal:
  "extract_loop before (number_changes a b ((TEqual, v) # cs)) m =
   (let l = \<lparr>dl_tag = TEqual, dl_value = v, dl_old_index = Some a, dl_new_index = Some b\<rparr>
    in extract_loop (before @ [l]) (number_changes (a + 1) (b + 1) cs) m)"
  by (simp add: is_delete_def is_insert_def)

lemma extract_loop_found:
  assumes "insert_position before = a" "no_ins_del cs" "\<forall>x \<in> set m. change_end x \<le> a"
    "starts_changed cs \<Longrightarrow> \<forall>x \<in> set m. change_end x < a"
  shows "\<exists>m'. extract_loop before (number_changes a b cs) m = Some (m @ m') \<and> found_ok a cs m'
    \<and> (\<not> starts_changed cs \<longrightarrow> (\<forall>x \<in> set m'. a < fst x))"
  using assms
proof (induction "length cs" arbitrary: before a b cs m rule: less_induct)
  case less
  show ?case
  proof (cases "starts_changed cs")
    case True
    let ?D = "dels_of cs" and ?I = "ins_of cs" and ?R = "rest_of cs" and ?i = "block_info b cs"
    let ?a = "a + length ?D" and ?b = "b + length ?I"
    note sd = sides_deletes[OF block_parts(2)[of cs]] and si = sides_inserts[OF block_parts(3)[of cs]]
    have pos: "insert_position (before @ number_changes a b (?D @ ?I)) = ?a"
      using insert_position_number[OF less.prems(1), of b "?D @ ?I"] sd si by simp
    have eq: "\<not> starts_changed ?R" using rest_equal[OF less.prems(2) True] by (rule not_starts_changed)
    have "\<forall>x \<in> set m. fst x < a" using less.prems(4)[OF True] by (force simp: change_end_def)
    then have ins: "bt_insert a ?i m = m @ [(a, ?i)]" by (rule bt_insert_last)
    have "no_ins_del ?R" using less.prems(2) block_parts(1)[of cs] no_ins_del_append by (metis append.assoc)
    moreover have "\<forall>x \<in> set (m @ [(a, ?i)]). change_end x \<le> ?a"
      using less.prems(3) by (auto simp: change_end_def block_info_def)
    ultimately obtain m' where m': "extract_loop (before @ number_changes a b (?D @ ?I))
        (number_changes ?a ?b ?R) (m @ [(a, ?i)]) = Some ((m @ [(a, ?i)]) @ m')"
      "found_ok ?a ?R m'" "\<forall>x \<in> set m'. ?a < fst x"
      using less.hyps[OF length_rest[OF True] pos, of "m @ [(a, ?i)]" ?b] eq by blast
    have "found_ok a (?D @ ?I @ ?R) ((a, ?i) # m')"
      by (rule found_ok_cons[OF block_parts(2,3) block_ne[OF True] m'(2) rest_equal[OF less.prems(2) True]
            _ _ m'(3)])
         (simp_all add: block_info_def)
    then have "found_ok a cs ((a, ?i) # m')" using block_parts(1)[of cs] by simp
    moreover have "extract_loop before (number_changes a b cs) m = Some (m @ (a, ?i) # m')"
      using extract_step[OF True less.prems(1)] ins m'(1) by simp
    ultimately show ?thesis using True by blast
  next
    case False
    show ?thesis
    proof (cases cs)
      case Nil
      then show ?thesis by (auto simp: found_ok_def apart_def old_side_def new_side_def)
    next
      case (Cons c cs')
      then obtain v where c: "c = (TEqual, v)" using False by (cases c) (auto simp: starts_changed_def)
      let ?l = "\<lparr>dl_tag = TEqual, dl_value = v, dl_old_index = Some a, dl_new_index = Some b\<rparr>"
      have "insert_position (before @ [?l]) = a + 1" by (simp add: insert_position_snoc)
      moreover have "no_ins_del cs'" using less.prems(2) Cons no_ins_del_tl by blast
      moreover have "\<forall>x \<in> set m. change_end x \<le> a + 1" "\<forall>x \<in> set m. change_end x < a + 1"
        using less.prems(3) by auto
      ultimately obtain m' where m': "extract_loop (before @ [?l]) (number_changes (a + 1) (b + 1) cs') m =
          Some (m @ m')" "found_ok (a + 1) cs' m'"
        using less.hyps[of cs' "before @ [?l]" "a + 1" m "b + 1"] Cons by auto
      have ge: "\<forall>x \<in> set m'. a + 1 \<le> fst x" using m'(2) by (simp add: found_ok_def)
      have "found_ok a cs m'"
        using m'(2) patch_skip[OF ge, of v "old_side cs'"] ge
        by (auto simp: found_ok_def Cons c old_side_def new_side_def)
      then show ?thesis using m'(1) ge Cons c extract_equal[of before a b v cs' m] by (auto simp: Let_def)
    qed
  qed
qed

definition changes_of :: "line_diff \<Rightarrow> text_content \<Rightarrow> text_content \<Rightarrow> changes option" where
  "changes_of line_diff reference t =
     Option.bind (pair_script_new line_diff reference t) (\<lambda>p. extract_changes (ps_full p))"

lemma changes_of_eq:
  "changes_of line_diff reference t =
     (if t_decoded reference = t_decoded t then Some []
      else extract_loop [] (number_changes 0 0 (line_diff (t_decoded reference) (t_decoded t))) [])"
  by (auto simp: changes_of_def pair_script_new_def build_script_def build_hunks_eq extract_changes_def Let_def)

lemma insert_position_Nil [simp]: "insert_position [] = 0"
  by (simp add: insert_position_def)

lemma extract_changes_spec:
  assumes "diff_ok line_diff (t_decoded reference) (t_decoded t)"
    and "no_ins_del (line_diff (t_decoded reference) (t_decoded t))"
  shows "\<exists>m. changes_of line_diff reference t = Some m \<and> apart m
     \<and> patch 0 (str_lines (t_decoded reference)) m = str_lines (t_decoded t)"
proof (cases "t_decoded reference = t_decoded t")
  case True
  then show ?thesis by (auto simp: changes_of_eq apart_def)
next
  case False
  let ?cs = "line_diff (t_decoded reference) (t_decoded t)"
  obtain m where "extract_loop [] (number_changes 0 0 ?cs) [] = Some m" "found_ok 0 ?cs m"
    using extract_loop_found[of "[]" 0 ?cs "[]" 0] assms(2) by auto
  then show ?thesis using False assms(1)
    by (auto simp: changes_of_eq found_ok_def diff_ok_def intro!: exI[of _ m])
qed

text \<open>C29: The changes extracted for one side never panic and are faithful: they lie apart in the
  reference (so no two share a start, which the debug assertions check), and replacing each of their
  ranges of the reference by its replacement gives the lines of the side.\<close>

theorem extract_changes_patch:
  assumes "diff_ok line_diff (t_decoded reference) (t_decoded t)"
    and "no_ins_del (line_diff (t_decoded reference) (t_decoded t))"
  shows "\<exists>m. changes_of line_diff reference t = Some m \<and> apart m
     \<and> patch 0 (str_lines (t_decoded reference)) m = str_lines (t_decoded t)"
  using assms by (rule extract_changes_spec)

text \<open>Without any assumption on the line diff: no panic, and one line number per replacement line.\<close>

definition info_ok :: "nat \<times> change_info \<Rightarrow> bool" where
  "info_ok x = (length (ci_file_lines (snd x)) = length (ci_replacement (snd x)))"

lemma set_bt_insert: "set (bt_insert k v m) \<subseteq> insert (k, v) (set m)"
  by (induction k v m rule: bt_insert.induct) auto

lemma extract_loop_total:
  assumes "insert_position before = a" "\<forall>x \<in> set m. info_ok x"
  shows "\<exists>r. extract_loop before (number_changes a b cs) m = Some r \<and> (\<forall>x \<in> set r. info_ok x)"
  using assms
proof (induction "length cs" arbitrary: before a b cs m rule: less_induct)
  case less
  show ?case
  proof (cases "starts_changed cs")
    case True
    let ?D = "dels_of cs" and ?I = "ins_of cs"
    note sd = sides_deletes[OF block_parts(2)[of cs]] and si = sides_inserts[OF block_parts(3)[of cs]]
    have pos: "insert_position (before @ number_changes a b (?D @ ?I)) = a + length ?D"
      using insert_position_number[OF less.prems(1), of b "?D @ ?I"] sd si by simp
    have "info_ok (a, block_info b cs)" by (simp add: info_ok_def block_info_def)
    then have "\<forall>x \<in> set (bt_insert a (block_info b cs) m). info_ok x"
      using less.prems(2) set_bt_insert[of a "block_info b cs" m] by blast
    then show ?thesis
      using less.hyps[OF length_rest[OF True] pos] extract_step[OF True less.prems(1)] by metis
  next
    case False
    show ?thesis
    proof (cases cs)
      case Nil
      then show ?thesis using less.prems by simp
    next
      case (Cons c cs')
      then obtain v where c: "c = (TEqual, v)" using False by (cases c) (auto simp: starts_changed_def)
      let ?l = "\<lparr>dl_tag = TEqual, dl_value = v, dl_old_index = Some a, dl_new_index = Some b\<rparr>"
      have pos: "insert_position (before @ [?l]) = a + 1" by (simp add: insert_position_snoc)
      have "length cs' < length cs" using Cons by simp
      from less.hyps[OF this pos less.prems(2), of "b + 1"]
      show ?thesis using extract_equal[of before a b v cs' m] by (auto simp: Cons c Let_def)
    qed
  qed
qed

lemma changes_of_total: "\<exists>m. changes_of line_diff reference t = Some m \<and> (\<forall>x \<in> set m. info_ok x)"
  using extract_loop_total[of "[]" 0 "[]"] by (auto simp: changes_of_eq)

subsection \<open>Merged regions\<close>

lemma overlaps_hull: "overlaps a b c d \<Longrightarrow> a \<le> b \<Longrightarrow> c \<le> d \<Longrightarrow> min a c \<le> max b d"
  by (auto simp: overlaps_def split: if_splits)

definition inside :: "overlap \<Rightarrow> overlap \<Rightarrow> bool" where
  "inside x r \<longleftrightarrow> ov_start r \<le> ov_start x \<and> ov_end x \<le> ov_end r
     \<and> set (ov_left x) \<subseteq> set (ov_left r) \<and> set (ov_right x) \<subseteq> set (ov_right r)"

lemma inside_refl [simp]: "inside x x"
  by (simp add: inside_def)

lemma inside_trans: "inside x y \<Longrightarrow> inside y z \<Longrightarrow> inside x z"
  by (auto simp: inside_def)

definition ov_span :: "overlap \<Rightarrow> nat set" where
  "ov_span r = {ov_start r..<ov_end r}"

lemma merge_loop_spec:
  assumes "sorted (map ov_start (x # xs))" "\<forall>y \<in> set (x # xs). ov_start y \<le> ov_end y"
  shows "sorted_wrt (\<lambda>r r'. ov_end r \<le> ov_start r') (merge_loop x xs)
    \<and> (\<forall>r \<in> set (merge_loop x xs). ov_start x \<le> ov_start r \<and> ov_start r \<le> ov_end r
          \<and> set (ov_left r) \<subseteq> (\<Union>y \<in> set (x # xs). set (ov_left y))
          \<and> set (ov_right r) \<subseteq> (\<Union>y \<in> set (x # xs). set (ov_right y)))
    \<and> (\<forall>y \<in> set (x # xs). \<exists>r \<in> set (merge_loop x xs). inside y r)
    \<and> (\<forall>r \<in> set (merge_loop x xs). \<exists>y \<in> set (x # xs). inside y r)
    \<and> (\<Union>r \<in> set (merge_loop x xs). ov_span r) = (\<Union>y \<in> set (x # xs). ov_span y)"
  using assms
proof (induction x xs rule: merge_loop.induct)
  case (1 x)
  then show ?case by simp
next
  case (2 x y ys)
  show ?case
  proof (cases "ov_start y < ov_end x")
    case True
    let ?z = "absorb x y"
    have z: "ov_start ?z = ov_start x" "inside x ?z" "inside y ?z"
      "set (ov_left ?z) = set (ov_left x) \<union> set (ov_left y)"
      "set (ov_right ?z) = set (ov_right x) \<union> set (ov_right y)"
      "ov_end ?z = max (ov_end x) (ov_end y)"
      using 2(3) by (auto simp: absorb_def inside_def)
    have span: "ov_span ?z = ov_span x \<union> ov_span y"
      using True 2(3) z by (auto simp: ov_span_def)
    have prem: "sorted (map ov_start (?z # ys))" "\<forall>u \<in> set (?z # ys). ov_start u \<le> ov_end u"
      using 2(3,4) z by auto
    note IH = 2(1)[OF True prem]
    have eq: "merge_loop x (y # ys) = merge_loop ?z ys" using True by simp
    have all: "\<exists>r \<in> set (merge_loop ?z ys). inside u r" if "u \<in> set (x # y # ys)" for u
    proof -
      have "u = x \<or> u = y \<or> u \<in> set ys" using that by simp
      then show ?thesis using IH inside_trans z(2,3) by (metis list.set_intros(1,2))
    qed
    have some: "\<exists>u \<in> set (x # y # ys). inside u r" if "r \<in> set (merge_loop ?z ys)" for r
      using IH that inside_trans z(2) by (metis list.set_intros(1,2) set_ConsD)
    show ?thesis unfolding eq using IH all some span z(1,4,5) by (auto simp: Un_assoc)
  next
    case False
    have prem: "sorted (map ov_start (y # ys))" "\<forall>u \<in> set (y # ys). ov_start u \<le> ov_end u"
      using 2(3,4) by auto
    note IH = 2(2)[OF False prem]
    have eq: "merge_loop x (y # ys) = x # merge_loop y ys" using False by simp
    have le: "ov_start x \<le> ov_start y" "ov_end x \<le> ov_start y" using 2(3) False by auto
    show ?thesis unfolding eq using IH le 2(4) by (auto 0 3)
  qed
qed

lemma merge_regions_spec:
  assumes "\<forall>y \<in> set xs. ov_start y \<le> ov_end y"
  defines "rs \<equiv> merge_overlapping_regions xs"
  shows "sorted_wrt (\<lambda>r r'. ov_end r \<le> ov_start r') rs"
    and "\<forall>r \<in> set rs. set (ov_left r) \<subseteq> (\<Union>y \<in> set xs. set (ov_left y))
          \<and> set (ov_right r) \<subseteq> (\<Union>y \<in> set xs. set (ov_right y))"
    and "\<forall>y \<in> set xs. \<exists>r \<in> set rs. inside y r"
    and "\<forall>r \<in> set rs. \<exists>y \<in> set xs. inside y r"
    and "(\<Union>r \<in> set rs. ov_span r) = (\<Union>y \<in> set xs. ov_span y)"
proof -
  have "sorted_wrt (\<lambda>r r'. ov_end r \<le> ov_start r') rs
    \<and> (\<forall>r \<in> set rs. set (ov_left r) \<subseteq> (\<Union>y \<in> set xs. set (ov_left y))
          \<and> set (ov_right r) \<subseteq> (\<Union>y \<in> set xs. set (ov_right y)))
    \<and> (\<forall>y \<in> set xs. \<exists>r \<in> set rs. inside y r)
    \<and> (\<forall>r \<in> set rs. \<exists>y \<in> set xs. inside y r)
    \<and> (\<Union>r \<in> set rs. ov_span r) = (\<Union>y \<in> set xs. ov_span y)"
  proof (cases "length xs \<le> 1")
    case True
    then have "rs = xs" by (simp add: rs_def merge_overlapping_regions_def)
    moreover have "sorted_wrt (\<lambda>r r'. ov_end r \<le> ov_start r') xs"
      using True by (cases xs) auto
    ultimately show ?thesis using inside_refl by blast
  next
    case False
    have "length (sort_key ov_start xs) = length xs" by simp
    with False have "sort_key ov_start xs \<noteq> []" by (metis le0 list.size(3))
    then obtain z zs where z: "sort_key ov_start xs = z # zs" by (meson neq_Nil_conv)
    then have set: "set (z # zs) = set xs" by (metis set_sort)
    have rs: "rs = merge_loop z zs" using False z by (simp add: rs_def merge_overlapping_regions_def)
    have "sorted (map ov_start (z # zs))" using z sorted_sort_key by metis
    note m = merge_loop_spec[OF this, unfolded set, OF assms(1)]
    have lines: "\<forall>r \<in> set (merge_loop z zs). set (ov_left r) \<subseteq> (\<Union>y \<in> set xs. set (ov_left y))
          \<and> set (ov_right r) \<subseteq> (\<Union>y \<in> set xs. set (ov_right y))"
      using m[THEN conjunct2, THEN conjunct1] by simp
    show ?thesis unfolding rs using m[THEN conjunct1] lines m[THEN conjunct2, THEN conjunct2]
      by (intro conjI) simp_all
  qed
  note parts = this
  from parts show "sorted_wrt (\<lambda>r r'. ov_end r \<le> ov_start r') rs" by (elim conjE)
  from parts show "\<forall>r \<in> set rs. set (ov_left r) \<subseteq> (\<Union>y \<in> set xs. set (ov_left y))
          \<and> set (ov_right r) \<subseteq> (\<Union>y \<in> set xs. set (ov_right y))" by (elim conjE)
  from parts show "\<forall>y \<in> set xs. \<exists>r \<in> set rs. inside y r" by (elim conjE)
  from parts show "\<forall>r \<in> set rs. \<exists>y \<in> set xs. inside y r" by (elim conjE)
  from parts show "(\<Union>r \<in> set rs. ov_span r) = (\<Union>y \<in> set xs. ov_span y)" by (elim conjE)
qed

text \<open>Two changes that conflict: they overlap and put different lines in.\<close>

definition conflicting :: "nat \<times> change_info \<Rightarrow> nat \<times> change_info \<Rightarrow> bool" where
  "conflicting x y \<longleftrightarrow> overlaps (fst x) (change_end x) (fst y) (change_end y)
     \<and> ci_replacement (snd x) \<noteq> ci_replacement (snd y)"

definition hull :: "nat \<times> change_info \<Rightarrow> nat \<times> change_info \<Rightarrow> overlap" where
  "hull x y = \<lparr>ov_start = min (fst x) (fst y), ov_end = max (change_end x) (change_end y),
     ov_left = ci_file_lines (snd x), ov_right = ci_file_lines (snd y)\<rparr>"

lemma overlap_of_range:
  "overlap_of (fst x, change_end x, snd x) (fst y, change_end y, snd y) =
     (if conflicting x y then Some (hull x y) else None)"
  by (simp add: overlap_of_def conflicting_def hull_def)

lemma change_ranges_eq: "change_ranges cs = map (\<lambda>x. (fst x, change_end x, snd x)) cs"
  by (simp add: change_ranges_def change_end_def case_prod_beta)

lemma set_find_overlaps:
  "set (find_overlaps (change_ranges lc) (change_ranges rc)) =
     {hull x y | x y. x \<in> set lc \<and> y \<in> set rc \<and> conflicting x y}"
proof -
  have "v \<in> set (find_overlaps (change_ranges lc) (change_ranges rc)) \<longleftrightarrow>
      (\<exists>x \<in> set lc. \<exists>y \<in> set rc. overlap_of (fst x, change_end x, snd x) (fst y, change_end y, snd y) = Some v)" for v
    unfolding find_overlaps_def change_ranges_eq set_concat set_map image_image UN_iff set_map_filter
    by blast
  then have "v \<in> set (find_overlaps (change_ranges lc) (change_ranges rc)) \<longleftrightarrow>
      (\<exists>x y. v = hull x y \<and> x \<in> set lc \<and> y \<in> set rc \<and> conflicting x y)" for v
    unfolding overlap_of_range by (metis option.distinct(1) option.inject)
  then show ?thesis by blast
qed

lemma lines_at_total:
  "\<forall>i \<in> set is. i \<in> fst ` set m \<Longrightarrow> \<exists>ls. lines_at m is = Some ls \<and> length ls = length is"
proof (induction "is")
  case Nil
  then show ?case by simp
next
  case (Cons i "is")
  then obtain l where "map_of m i = Some l" by (metis list.set_intros(1) map_of_eq_None_iff not_Some_eq)
  then show ?case using Cons by auto
qed

lemma keys_replacement_lines:
  assumes "\<forall>x \<in> set cs. info_ok x"
  shows "fst ` set (replacement_lines_by_index cs) = (\<Union>x \<in> set cs. set (ci_file_lines (snd x)))"
proof -
  have "fst ` set (zip (ci_file_lines (snd x)) (ci_replacement (snd x))) = set (ci_file_lines (snd x))"
    if "x \<in> set cs" for x
    using assms that by (metis info_ok_def map_fst_zip set_map)
  then show ?thesis
    by (simp add: replacement_lines_by_index_def keys_bt_of image_UN case_prod_beta)
qed

lemma opt_collect_total:
  "(\<And>x. x \<in> set xs \<Longrightarrow> f x = Some (g x)) \<Longrightarrow> opt_collect f xs = Some (map g xs)"
  by (induction xs) auto

lemma text_conflicts_eq:
  assumes "changes_of line_diff reference left = Some lc" "changes_of line_diff reference right = Some rc"
  shows "text_conflicts line_diff reference left right =
     opt_collect (region_of (replacement_lines_by_index lc) (replacement_lines_by_index rc))
       (merge_overlapping_regions (find_overlaps (change_ranges lc) (change_ranges rc)))"
  using assms script_total[of line_diff reference left] script_total[of line_diff reference right]
  by (auto simp: text_conflicts_def changes_of_def Let_def)

lemma text_conflicts_regions:
  assumes "changes_of line_diff reference left = Some lc" "changes_of line_diff reference right = Some rc"
    and "\<forall>x \<in> set lc. info_ok x" "\<forall>x \<in> set rc. info_ok x"
  defines "found \<equiv> merge_overlapping_regions (find_overlaps (change_ranges lc) (change_ranges rc))"
  shows "\<exists>g. text_conflicts line_diff reference left right = Some (map g found)
     \<and> (\<forall>ov \<in> set found. cr_start (g ov) = ov_start ov \<and> cr_end (g ov) = ov_end ov
           \<and> length (cr_left_lines (g ov)) = length (ov_left ov)
           \<and> length (cr_right_lines (g ov)) = length (ov_right ov))"
proof -
  let ?L = "replacement_lines_by_index lc" and ?R = "replacement_lines_by_index rc"
  let ?xs = "find_overlaps (change_ranges lc) (change_ranges rc)"
  have ordered: "\<forall>y \<in> set ?xs. ov_start y \<le> ov_end y"
  proof
    fix ov assume "ov \<in> set ?xs"
    then obtain x y where "ov = hull x y" by (auto simp: set_find_overlaps)
    then show "ov_start ov \<le> ov_end ov" by (simp add: hull_def change_end_def min_le_iff_disj le_max_iff_disj)
  qed
  have sub: "set (ov_left ov) \<subseteq> fst ` set ?L \<and> set (ov_right ov) \<subseteq> fst ` set ?R" if "ov \<in> set found" for ov
  proof -
    have "(\<Union>y \<in> set ?xs. set (ov_left y)) \<subseteq> (\<Union>x \<in> set lc. set (ci_file_lines (snd x)))"
      "(\<Union>y \<in> set ?xs. set (ov_right y)) \<subseteq> (\<Union>x \<in> set rc. set (ci_file_lines (snd x)))"
      unfolding set_find_overlaps hull_def by auto
    then show ?thesis
      using merge_regions_spec(2)[OF ordered] that
      unfolding keys_replacement_lines[OF assms(3)] keys_replacement_lines[OF assms(4)] found_def
      by (meson order_trans)
  qed
  have "\<exists>r. region_of ?L ?R ov = Some r \<and> cr_start r = ov_start ov \<and> cr_end r = ov_end ov
      \<and> length (cr_left_lines r) = length (ov_left ov) \<and> length (cr_right_lines r) = length (ov_right ov)"
    if "ov \<in> set found" for ov
  proof -
    note here = sub[OF that]
    obtain ls where "lines_at ?L (ov_left ov) = Some ls" "length ls = length (ov_left ov)"
      using lines_at_total[of "ov_left ov" ?L] here by blast
    moreover obtain rs where "lines_at ?R (ov_right ov) = Some rs" "length rs = length (ov_right ov)"
      using lines_at_total[of "ov_right ov" ?R] here by blast
    ultimately show ?thesis by (simp add: region_of_def)
  qed
  then obtain g where g: "\<forall>ov \<in> set found. region_of ?L ?R ov = Some (g ov) \<and> cr_start (g ov) = ov_start ov
      \<and> cr_end (g ov) = ov_end ov \<and> length (cr_left_lines (g ov)) = length (ov_left ov)
      \<and> length (cr_right_lines (g ov)) = length (ov_right ov)" by metis
  then have "opt_collect (region_of ?L ?R) found = Some (map g found)" by (intro opt_collect_total) auto
  then show ?thesis using g text_conflicts_eq[OF assms(1,2)] unfolding found_def by auto
qed

text \<open>C28: Whatever the line diff, detecting the conflicts of a text never panics. The regions are in
  order and disjoint in the reference; there is one exactly when a change of the left and a change of
  the right overlap and put different lines in; every such pair lies in a region, every region
  contains such a pair, and the regions cover no other line of the reference.\<close>

theorem text_conflicts_correct:
  "\<exists>lc rc regions.
     changes_of line_diff reference left = Some lc \<and> changes_of line_diff reference right = Some rc
   \<and> text_conflicts line_diff reference left right = Some regions
   \<and> sorted_wrt (\<lambda>r r'. cr_end r \<le> cr_start r') regions
   \<and> {(x, y). x \<in> set lc \<and> y \<in> set rc \<and> conflicting x y} =
       {(x, y). x \<in> set lc \<and> y \<in> set rc \<and> conflicting x y
          \<and> list_ex (\<lambda>r. cr_start r \<le> min (fst x) (fst y) \<and> max (change_end x) (change_end y) \<le> cr_end r) regions}
   \<and> (\<Union>r \<in> set regions. {cr_start r..<cr_end r}) =
       (\<Union>(x, y) \<in> {(x, y). x \<in> set lc \<and> y \<in> set rc \<and> conflicting x y}.
          {min (fst x) (fst y)..<max (change_end x) (change_end y)})
   \<and> (regions = []) = ({(x, y). x \<in> set lc \<and> y \<in> set rc \<and> conflicting x y} = {})"
proof -
  obtain lc rc where lc: "changes_of line_diff reference left = Some lc" "\<forall>x \<in> set lc. info_ok x"
    and rc: "changes_of line_diff reference right = Some rc" "\<forall>x \<in> set rc. info_ok x"
    using changes_of_total by metis
  let ?xs = "find_overlaps (change_ranges lc) (change_ranges rc)"
  let ?found = "merge_overlapping_regions ?xs"
  let ?pairs = "{(x, y). x \<in> set lc \<and> y \<in> set rc \<and> conflicting x y}"
  obtain g where g: "text_conflicts line_diff reference left right = Some (map g ?found)"
    "\<forall>ov \<in> set ?found. cr_start (g ov) = ov_start ov \<and> cr_end (g ov) = ov_end ov"
    using text_conflicts_regions[OF lc(1) rc(1) lc(2) rc(2)] by blast
  have xs: "set ?xs = (\<lambda>(x, y). hull x y) ` ?pairs" by (auto simp: set_find_overlaps)
  have "\<forall>y \<in> set ?xs. ov_start y \<le> ov_end y"
    by (auto simp: xs hull_def change_end_def min_le_iff_disj le_max_iff_disj)
  note m = merge_regions_spec[OF this]
  have srt: "sorted_wrt (\<lambda>r r'. cr_end r \<le> cr_start r') (map g ?found)"
    unfolding sorted_wrt_map using m(1) g(2) by (auto elim: sorted_wrt_mono_rel[rotated])
  have inr: "list_ex (\<lambda>r. cr_start r \<le> min (fst x) (fst y) \<and> max (change_end x) (change_end y) \<le> cr_end r)
      (map g ?found)" if "(x, y) \<in> ?pairs" for x y
  proof -
    from that obtain r where "r \<in> set ?found" "inside (hull x y) r" using m(3) xs by force
    then show ?thesis using g(2) by (force simp: list_ex_iff inside_def hull_def)
  qed
  have pr: "?pairs = {(x, y). x \<in> set lc \<and> y \<in> set rc \<and> conflicting x y
     \<and> list_ex (\<lambda>r. cr_start r \<le> min (fst x) (fst y) \<and> max (change_end x) (change_end y) \<le> cr_end r)
          (map g ?found)}"
    using inr by auto
  have span: "(\<Union>r \<in> set (map g ?found). {cr_start r..<cr_end r}) =
      (\<Union>(x, y) \<in> ?pairs. {min (fst x) (fst y)..<max (change_end x) (change_end y)})"
  proof -
    have "(\<Union>r \<in> set (map g ?found). {cr_start r..<cr_end r}) = (\<Union>r \<in> set ?found. ov_span r)"
    using g(2) by (simp add: ov_span_def)
  also have "\<dots> = (\<Union>r \<in> set ?xs. ov_span r)" by (rule m(5))
  also have "\<dots> = (\<Union>(x, y) \<in> ?pairs. {min (fst x) (fst y)..<max (change_end x) (change_end y)})"
    unfolding xs image_image ov_span_def hull_def by (simp add: case_prod_beta)
  finally have "(\<Union>r \<in> set (map g ?found). {cr_start r..<cr_end r}) =
      (\<Union>(x, y) \<in> ?pairs. {min (fst x) (fst y)..<max (change_end x) (change_end y)})" .
    then show ?thesis .
  qed
  have emp: "(map g ?found = []) = (?pairs = {})"
  proof -
    have "?found = [] \<longleftrightarrow> set ?xs = {}" using m(3,4) by (metis all_not_in_conv set_empty)
    then show ?thesis using xs by simp
  qed
  show ?thesis using lc(1) rc(1) g(1) srt pr span emp
    by (intro exI[of _ lc] exI[of _ rc] exI[of _ "map g ?found"] conjI)
qed

lemma apart_nth: "apart m \<Longrightarrow> i < j \<Longrightarrow> j < length m \<Longrightarrow> change_end (m ! i) < fst (m ! j)"
  unfolding apart_def by (rule sorted_wrt_nth_less)

lemma apart_overlap_eq:
  assumes "apart m" "x \<in> set m" "y \<in> set m" "overlaps (fst x) (change_end x) (fst y) (change_end y)"
  shows "x = y"
proof -
  obtain i j where ij: "i < length m" "x = m ! i" "j < length m" "y = m ! j"
    using assms(2,3) by (metis in_set_conv_nth)
  have le: "fst x \<le> change_end x" "fst y \<le> change_end y" by (simp_all add: change_end_def)
  consider "i < j" | "j < i" | "i = j" by linarith
  then show ?thesis
  proof cases
    case 1
    then have "change_end x < fst y" using ij assms(1) by (metis apart_nth)
    then show ?thesis using assms(4) le by (auto simp: overlaps_def split: if_splits)
  next
    case 2
    then have "change_end y < fst x" using ij assms(1) by (metis apart_nth)
    then show ?thesis using assms(4) le by (auto simp: overlaps_def split: if_splits)
  qed (use ij in simp)
qed

text \<open>A file that only one side changed, or that both sides changed to the same text, has no
  conflict.\<close>

theorem no_conflict_when_sides_agree:
  assumes "t_decoded left = t_decoded right \<or> t_decoded left = t_decoded reference
      \<or> t_decoded right = t_decoded reference"
    and "diff_ok line_diff (t_decoded reference) (t_decoded left)"
    and "no_ins_del (line_diff (t_decoded reference) (t_decoded left))"
  shows "text_conflicts line_diff reference left right = Some []"
proof -
  obtain lc rc where lc: "changes_of line_diff reference left = Some lc"
    and rc: "changes_of line_diff reference right = Some rc"
    using changes_of_total by metis
  have "find_overlaps (change_ranges lc) (change_ranges rc) = []"
  proof (cases "t_decoded left = t_decoded right")
    case True
    then have "changes_of line_diff reference left = changes_of line_diff reference right"
      unfolding changes_of_eq by metis
    then have "rc = lc" using lc rc by simp
    moreover have "apart lc" using extract_changes_spec[OF assms(2,3)] lc by auto
    ultimately have "set (find_overlaps (change_ranges lc) (change_ranges rc)) = {}"
      using apart_overlap_eq[of lc] by (auto simp: set_find_overlaps conflicting_def) blast
    then show ?thesis by simp
  next
    case False
    then have "lc = [] \<or> rc = []" using assms(1) lc rc by (auto simp: changes_of_eq)
    then show ?thesis by (auto simp: find_overlaps_def change_ranges_def List.map_filter_simps)
  qed
  then show ?thesis using text_conflicts_eq[OF lc rc] by (simp add: merge_overlapping_regions_def)
qed

subsection \<open>Witnesses\<close>

lemma ex_no_ins_del: "no_ins_del ex_changes"
  by (simp add: ex_changes_def)

theorem extract_changes_patch_witness:
  "\<exists>m. changes_of (\<lambda>_ _. ex_changes) (ex_text ex_left) (ex_text ex_right) = Some m \<and> apart m
     \<and> patch 0 (str_lines (t_decoded (ex_text ex_left))) m = str_lines (t_decoded (ex_text ex_right))"
  by (rule extract_changes_patch[OF ex_diff_ok ex_no_ins_del])

theorem no_conflict_when_sides_agree_witness:
  "text_conflicts (\<lambda>_ _. ex_changes) (ex_text ex_left) (ex_text ex_right) (ex_text ex_right) = Some []"
  by (rule no_conflict_when_sides_agree[OF _ ex_diff_ok]) (simp_all add: ex_no_ins_del)

end
