(* ===== verification/PathResolution.thy ===== *)
theory PathResolution
  imports RelPath OpFailure
begin

text \<open>
  The walk from "/" along root_dir and a relative path (\<open>path_resolution/\<close> of remote-merge-core).
  The three basic operations of the trait \<open>PathOps\<close> are a record of functions, so that one run sees
  one unchanging file system, as the walk assumes.
\<close>

subsection \<open>Errors\<close>

datatype resolve_error =
    PathTooLong | TooManyLinks | RNotADirectory | RPermissionDenied | DanglingSymlink
  | ParentReferenceInMissingPart | NonUtf8Path | CannotRead

definition all_resolve_errors :: "resolve_error list" where
  "all_resolve_errors =
     [PathTooLong, TooManyLinks, RNotADirectory, RPermissionDenied, DanglingSymlink,
      ParentReferenceInMissingPart, NonUtf8Path, CannotRead]"

fun resolve_cause :: "resolve_error \<Rightarrow> string" where
  "resolve_cause PathTooLong = ''path too long''"
| "resolve_cause TooManyLinks = ''too many levels of symbolic links''"
| "resolve_cause RNotADirectory = ''not a directory''"
| "resolve_cause RPermissionDenied = ''permission denied''"
| "resolve_cause DanglingSymlink = ''dangling symbolic link''"
| "resolve_cause ParentReferenceInMissingPart = ''parent reference in missing part''"
| "resolve_cause NonUtf8Path = ''non-UTF-8 path''"
| "resolve_cause CannotRead = ''cannot read''"

definition resolve_from_cause :: "string \<Rightarrow> resolve_error option" where
  "resolve_from_cause cause = find (\<lambda>e. resolve_cause e = cause) all_resolve_errors"

definition show_resolve_error :: "resolve_error \<Rightarrow> string" where
  "show_resolve_error e = ''cannot resolve path: '' @ resolve_cause e"

subsection \<open>Basic operations and results\<close>

definition path_length_limit :: nat where "path_length_limit = 4096"
definition name_length_limit :: nat where "name_length_limit = 255"
definition symlink_limit :: nat where "symlink_limit = 40"

datatype existing_kind = EkFile | EkDirectory | EkOther

datatype entry_kind = KMissing | KDirectory | KRegularFile | KSymlink | KOtherEntry

datatype resolved_path =
    ResolvedMissing string bool
  | ResolvedExists string existing_kind
  | ResolvedSymlink string string "existing_kind option"
  | ResolvedAncestorNotDirectory string bool

record path_ops =
  po_entry_kind :: "string \<Rightarrow> resolve_error + entry_kind"
  po_can_search :: "string \<Rightarrow> resolve_error + bool"
  po_read_link :: "string \<Rightarrow> resolve_error + bytes"

subsection \<open>The walk\<close>

record path_component =
  pc_name :: string
  pc_slash_after :: bool
  pc_from_rel :: bool

definition components :: "string \<Rightarrow> bool \<Rightarrow> path_component list" where
  "components path from_rel =
     (let segments = split_on CHR ''/'' path; last_index = length segments - 1 in
      map (\<lambda>(index, name). \<lparr>pc_name = name, pc_slash_after = index < last_index, pc_from_rel = from_rel\<rparr>)
        (filter (\<lambda>(_, name). name \<noteq> [] \<and> name \<noteq> ''.'') (enum_from 0 segments)))"

record expansion =
  ex_rest :: nat
  ex_from_rel :: bool

definition joined :: "string \<Rightarrow> string \<Rightarrow> string" where
  "joined real name = (if real = ''/'' then ''/'' @ name else real @ ''/'' @ name)"

definition parent_path :: "string \<Rightarrow> string" where
  "parent_path real =
     (case rsplit_once CHR ''/'' real of
        None \<Rightarrow> ''/''
      | Some (before, _) \<Rightarrow> if before = [] then ''/'' else before)"

definition not_a_directory_before ::
  "expansion list \<Rightarrow> nat \<Rightarrow> bool \<Rightarrow> string \<Rightarrow> entry_kind \<Rightarrow> resolve_error + resolved_path" where
  "not_a_directory_before expansions rest from_rel real_path k =
     (if \<exists>e \<in> set expansions. ex_rest e < rest then Inl RNotADirectory
      else
        (let origin_from_rel = (case expansions of e # _ \<Rightarrow> ex_from_rel e | [] \<Rightarrow> from_rel) in
         if \<not> origin_from_rel then Inl RNotADirectory
         else Inr (ResolvedAncestorNotDirectory real_path (k = KRegularFile))))"

definition joined_within_limits :: "string \<Rightarrow> string \<Rightarrow> resolve_error + string" where
  "joined_within_limits real name =
     (let nxt = joined real name in
      if length name > name_length_limit \<or> length nxt \<ge> path_length_limit then Inl PathTooLong
      else Inr nxt)"

definition step_in_missing_part :: "string \<Rightarrow> string \<Rightarrow> resolve_error + string" where
  "step_in_missing_part real name =
     (if name = ''..'' then Inl ParentReferenceInMissingPart else joined_within_limits real name)"

record walk_state =
  ws_queue :: "path_component list"
  ws_real :: string
  ws_expansions :: "expansion list"
  ws_terminal_link :: "string option"
  ws_inserted_links :: nat
  ws_missing_parent_exists :: "bool option"
  ws_kind :: existing_kind

text \<open>The last of the components gets the slash that follows it in the joined path.\<close>

definition slash_last :: "bool \<Rightarrow> path_component list \<Rightarrow> path_component list" where
  "slash_last b cs =
     (if cs = [] then []
      else butlast cs @ [(last cs)\<lparr>pc_slash_after := pc_slash_after (last cs) \<or> b\<rparr>])"

definition walk_start :: "string \<Rightarrow> string \<Rightarrow> walk_state" where
  "walk_start root rel =
     (let rel_components = components rel True in
      \<lparr>ws_queue = slash_last (rel_components \<noteq> []) (components root False) @ rel_components,
       ws_real = ''/'', ws_expansions = [], ws_terminal_link = None, ws_inserted_links = 0,
       ws_missing_parent_exists = None, ws_kind = EkDirectory\<rparr>)"

datatype walk_step = Continue walk_state | Finish resolved_path

text \<open>The case of a symlink: its target is put in front of the queue. The code compares the counter
  with \<open>==\<close>; it starts at 0 and grows by one, so it never passes the limit, and \<open>\<ge>\<close> is the same
  test on every state the walk reaches (\<open>walk_inserted\<close>) and makes the loop total on all others.\<close>

definition step_link ::
  "path_ops \<Rightarrow> path_component \<Rightarrow> string \<Rightarrow> walk_state \<Rightarrow> resolve_error + walk_step" where
  "step_link ops c nxt st =
     (let rest = length (ws_queue st) in
      if ws_inserted_links st \<ge> symlink_limit then Inl TooManyLinks
      else
        res_bind (po_read_link ops nxt) (\<lambda>target.
          if \<not> is_utf8 target then Inl NonUtf8Path
          else Inr (Continue (st\<lparr>
            ws_inserted_links := ws_inserted_links st + 1,
            ws_terminal_link := (if pc_from_rel c \<and> rest = 0 then Some target else ws_terminal_link st),
            ws_real := (if starts_with ''/'' target then ''/'' else ws_real st),
            ws_expansions := ws_expansions st @ [\<lparr>ex_rest = rest, ex_from_rel = pc_from_rel c\<rparr>],
            ws_queue := slash_last (pc_slash_after c) (components target False) @ ws_queue st\<rparr>))))"

text \<open>One turn of the loop, with the component taken off the queue.\<close>

definition walk_step :: "path_ops \<Rightarrow> path_component \<Rightarrow> walk_state \<Rightarrow> resolve_error + walk_step" where
  "walk_step ops c st0 =
     (let rest = length (ws_queue st0);
          st = st0\<lparr>ws_expansions := filter (\<lambda>e. ex_rest e \<le> rest) (ws_expansions st0)\<rparr>
      in
      if ws_missing_parent_exists st \<noteq> None then
        res_bind (step_in_missing_part (ws_real st) (pc_name c)) (\<lambda>real.
          Inr (Continue (st\<lparr>ws_real := real\<rparr>)))
      else if pc_name c = ''..'' then Inr (Continue (st\<lparr>ws_real := parent_path (ws_real st)\<rparr>))
      else
        res_bind (joined_within_limits (ws_real st) (pc_name c)) (\<lambda>nxt.
        res_bind (po_can_search ops (ws_real st)) (\<lambda>searchable.
          if \<not> searchable then Inl RPermissionDenied
          else
            res_bind (po_entry_kind ops nxt) (\<lambda>found.
              case found of
                KMissing \<Rightarrow>
                  if ws_expansions st \<noteq> [] \<and> ex_rest (last (ws_expansions st)) > 0
                  then Inl DanglingSymlink
                  else Inr (Continue (st\<lparr>ws_missing_parent_exists := Some (rest = 0), ws_real := nxt\<rparr>))
              | KSymlink \<Rightarrow> step_link ops c nxt st
              | KDirectory \<Rightarrow> Inr (Continue (st\<lparr>ws_kind := EkDirectory, ws_real := nxt\<rparr>))
              | _ \<Rightarrow>
                  if rest > 0 then
                    res_bind (not_a_directory_before (ws_expansions st) rest (pc_from_rel c) nxt found)
                      (\<lambda>r. Inr (Finish r))
                  else if pc_slash_after c then Inl RNotADirectory
                  else Inr (Continue (st\<lparr>
                    ws_kind := (if found = KRegularFile then EkFile else EkOther), ws_real := nxt\<rparr>))))))"

definition walk_end :: "walk_state \<Rightarrow> resolved_path" where
  "walk_end st =
     (case (ws_terminal_link st, ws_missing_parent_exists st) of
        (Some link_target, parent_exists) \<Rightarrow>
          ResolvedSymlink link_target (ws_real st)
            (if parent_exists = None then Some (ws_kind st) else None)
      | (None, Some parent_exists) \<Rightarrow> ResolvedMissing (parent_path (ws_real st)) parent_exists
      | (None, None) \<Rightarrow> ResolvedExists (ws_real st) (ws_kind st))"

lemma step_link_measure:
  assumes "step_link ops c nxt st = Inr (Continue st')"
  shows "ws_inserted_links st < symlink_limit \<and> ws_inserted_links st' = ws_inserted_links st + 1"
  using assms by (auto simp: step_link_def Let_def res_simps split: if_splits)

lemma walk_step_measure:
  assumes "walk_step ops c st = Inr (Continue st')"
  shows "(ws_inserted_links st < symlink_limit \<and> ws_inserted_links st' = ws_inserted_links st + 1)
       \<or> (ws_inserted_links st' = ws_inserted_links st \<and> ws_queue st' = ws_queue st)"
  using assms
  by (auto simp: walk_step_def Let_def res_simps split: if_splits entry_kind.splits
      dest!: step_link_measure)

text \<open>The loop. Its end is proved: a turn either inserts a link, of which there are at most
  \<open>symlink_limit\<close>, or leaves the queue one shorter.\<close>

function walk_loop :: "path_ops \<Rightarrow> walk_state \<Rightarrow> resolve_error + resolved_path" where
  "walk_loop ops st =
     (case ws_queue st of
        [] \<Rightarrow> Inr (walk_end st)
      | c # queue \<Rightarrow>
            (case walk_step ops c (st\<lparr>ws_queue := queue\<rparr>) of
               Inl e \<Rightarrow> Inl e
             | Inr (Finish r) \<Rightarrow> Inr r
             | Inr (Continue st') \<Rightarrow> walk_loop ops st'))"
  by pat_completeness auto
termination
proof (relation "inv_image (less_than <*lex*> less_than)
    (\<lambda>(_, st). (symlink_limit - ws_inserted_links st, length (ws_queue st)))", goal_cases)
  case (2 ops st c queue r st')
  then have "(ws_inserted_links st < symlink_limit \<and> ws_inserted_links st' = ws_inserted_links st + 1)
       \<or> (ws_inserted_links st' = ws_inserted_links st \<and> ws_queue st' = queue)"
    using walk_step_measure[of ops c "st\<lparr>ws_queue := queue\<rparr>" st'] by simp
  then show ?case using 2 by auto
qed (auto intro!: wf_inv_image)

declare walk_loop.simps [simp del]

definition resolve_path :: "string \<Rightarrow> string \<Rightarrow> path_ops \<Rightarrow> resolve_error + resolved_path" where
  "resolve_path root rel ops = walk_loop ops (walk_start root rel)"

subsection \<open>This machine\<close>

text \<open>
  The calls of the operating system the walk rests on are a parameter: \<open>lstat\<close>, \<open>faccessat\<close>
  for search with the effective user (\<open>None\<close> for success, else the error number) and \<open>readlink\<close>.
\<close>

datatype file_type = FtSymlink | FtDir | FtFile | FtSpecial

record os_calls =
  os_lstat :: "string \<Rightarrow> io_kind + file_type"
  os_search :: "string \<Rightarrow> int option"
  os_readlink :: "string \<Rightarrow> io_kind + bytes"

definition eacces :: int where "eacces = 13"

definition os_entry_kind :: "os_calls \<Rightarrow> string \<Rightarrow> resolve_error + entry_kind" where
  "os_entry_kind os path =
     (case os_lstat os path of
        Inr ft \<Rightarrow>
          Inr (if ft = FtSymlink then KSymlink
               else if ft = FtDir then KDirectory
               else if ft = FtFile then KRegularFile
               else KOtherEntry)
      | Inl k \<Rightarrow> if k = KNotFound then Inr KMissing else Inl CannotRead)"

definition os_can_search :: "os_calls \<Rightarrow> string \<Rightarrow> resolve_error + bool" where
  "os_can_search os directory =
     (if CHR 0x00 \<in> set directory then Inl CannotRead
      else
        (case os_search os directory of
           None \<Rightarrow> Inr True
         | Some errno \<Rightarrow> if errno = eacces then Inr False else Inl CannotRead))"

definition os_read_link :: "os_calls \<Rightarrow> string \<Rightarrow> resolve_error + bytes" where
  "os_read_link os path = res_map_err (\<lambda>_. CannotRead) (os_readlink os path)"

definition os_path_ops :: "os_calls \<Rightarrow> path_ops" where
  "os_path_ops os = \<lparr>po_entry_kind = os_entry_kind os, po_can_search = os_can_search os,
     po_read_link = os_read_link os\<rparr>"

definition resolve_on_this_machine ::
  "os_calls \<Rightarrow> bytes \<Rightarrow> string \<Rightarrow> resolve_error + resolved_path" where
  "resolve_on_this_machine os root rel =
     (if \<not> is_utf8 root then Inl NonUtf8Path else resolve_path root rel (os_path_ops os))"

end
