(* ===== verification/PathProps.thy ===== *)
theory PathProps
  imports PathResolution
begin

text \<open>
  Soundness of the walk: the real path it answers has no symlink in it, is canonical and shorter
  than the limit, and what it says of existence and kind is what the basic operations say.
\<close>

subsection \<open>Real paths as lists of names\<close>

definition real_of :: "string list \<Rightarrow> string" where
  "real_of ns = (if ns = [] then ''/'' else concat (map ((#) CHR ''/'') ns))"

definition good_name :: "string \<Rightarrow> bool" where
  "good_name n = (n \<noteq> [] \<and> n \<noteq> ''.'' \<and> n \<noteq> ''..'' \<and> CHR ''/'' \<notin> set n)"

lemma joined_real_of: "good_name n \<Longrightarrow> \<forall>m \<in> set ns. good_name m \<Longrightarrow> joined (real_of ns) n = real_of (ns @ [n])"
  by (cases ns) (auto simp: joined_def real_of_def good_name_def)

lemma real_of_snoc: "real_of (ns @ [n]) = concat (map ((#) CHR ''/'') ns) @ CHR ''/'' # n"
  by (simp add: real_of_def)

lemma parent_real_of:
  assumes "\<forall>m \<in> set ns. good_name m"
  shows "parent_path (real_of ns) = real_of (butlast ns)"
proof (cases ns rule: rev_cases)
  case Nil
  then show ?thesis by (simp add: real_of_def parent_path_def rsplit_once_def)
next
  case (snoc ms n)
  then have "CHR ''/'' \<notin> set n" using assms by (simp add: good_name_def)
  then have "rsplit_once CHR ''/'' (real_of ns) = Some (concat (map ((#) CHR ''/'') ms), n)"
    unfolding snoc real_of_snoc by (rule rsplit_once_append)
  then show ?thesis using snoc by (cases ms) (simp_all add: parent_path_def real_of_def)
qed

lemma real_of_start: "hd (real_of ns) = CHR ''/'' \<and> real_of ns \<noteq> []"
  by (cases ns) (auto simp: real_of_def)

lemma length_parent: "length (real_of (butlast ns)) \<le> length (real_of ns)"
  by (cases ns rule: rev_cases) (auto simp: real_of_def)

subsection \<open>The invariant\<close>

definition dirs_ok :: "path_ops \<Rightarrow> string list \<Rightarrow> bool" where
  "dirs_ok ops ns \<longleftrightarrow>
     (\<forall>k. 0 < k \<and> k \<le> length ns \<longrightarrow> po_entry_kind ops (real_of (take k ns)) = Inr KDirectory)"

lemma dirs_ok_Nil [simp]: "dirs_ok ops []"
  by (simp add: dirs_ok_def)

lemma dirs_ok_snoc:
  "dirs_ok ops (ns @ [n]) \<longleftrightarrow> dirs_ok ops ns \<and> po_entry_kind ops (real_of (ns @ [n])) = Inr KDirectory"
proof -
  have "0 < k \<and> k \<le> length (ns @ [n]) \<longleftrightarrow> (0 < k \<and> k \<le> length ns) \<or> k = Suc (length ns)" for k by auto
  then show ?thesis by (auto simp: dirs_ok_def)
qed

lemma dirs_ok_butlast: "dirs_ok ops ns \<Longrightarrow> dirs_ok ops (butlast ns)"
  by (cases ns rule: rev_cases) (auto simp: dirs_ok_snoc)

fun kind_of :: "existing_kind \<Rightarrow> entry_kind" where
  "kind_of EkFile = KRegularFile"
| "kind_of EkDirectory = KDirectory"
| "kind_of EkOther = KOtherEntry"

text \<open>\<open>ns\<close> exists with the kind \<open>k\<close>, with no symlink on the way.\<close>

definition exists_at :: "path_ops \<Rightarrow> string list \<Rightarrow> existing_kind \<Rightarrow> bool" where
  "exists_at ops ns k \<longleftrightarrow>
     (if k = EkDirectory then dirs_ok ops ns
      else ns \<noteq> [] \<and> dirs_ok ops (butlast ns) \<and> po_entry_kind ops (real_of ns) = Inr (kind_of k))"

text \<open>The first element that does not exist is the one after the \<open>m\<close> first names.\<close>

definition missing_at :: "path_ops \<Rightarrow> string list \<Rightarrow> nat \<Rightarrow> bool" where
  "missing_at ops ns m \<longleftrightarrow> m < length ns \<and> dirs_ok ops (take m ns)
     \<and> po_entry_kind ops (real_of (take (Suc m) ns)) = Inr KMissing"

definition names_ok :: "string list \<Rightarrow> bool" where
  "names_ok ns \<longleftrightarrow> (\<forall>n \<in> set ns. good_name n) \<and> length (real_of ns) < path_length_limit"

definition queue_ok :: "path_component list \<Rightarrow> bool" where
  "queue_ok q \<longleftrightarrow> (\<forall>c \<in> set q. pc_name c = ''..'' \<or> good_name (pc_name c))"

definition walk_inv :: "path_ops \<Rightarrow> walk_state \<Rightarrow> bool" where
  "walk_inv ops st \<longleftrightarrow> queue_ok (ws_queue st)
     \<and> (\<exists>ns. ws_real st = real_of ns \<and> names_ok ns
          \<and> (case ws_missing_parent_exists st of
               None \<Rightarrow> exists_at ops ns (ws_kind st) \<and> (ws_queue st \<noteq> [] \<longrightarrow> ws_kind st = EkDirectory)
             | Some pe \<Rightarrow>
                 (\<exists>m. missing_at ops ns m
                    \<and> (if pe then Suc m = length ns \<and> ws_queue st = []
                       else Suc m < length ns \<or> ws_queue st \<noteq> []))))"

definition resolved_ok :: "path_ops \<Rightarrow> resolved_path \<Rightarrow> bool" where
  "resolved_ok ops r \<longleftrightarrow>
     (case r of
        ResolvedExists real_path k \<Rightarrow>
          (\<exists>ns. real_path = real_of ns \<and> names_ok ns \<and> exists_at ops ns k)
      | ResolvedSymlink _ real_path (Some k) \<Rightarrow>
          (\<exists>ns. real_path = real_of ns \<and> names_ok ns \<and> exists_at ops ns k)
      | ResolvedSymlink _ real_path None \<Rightarrow>
          (\<exists>ns m. real_path = real_of ns \<and> names_ok ns \<and> missing_at ops ns m)
      | ResolvedMissing real_parent parent_exists \<Rightarrow>
          (\<exists>ns n m. real_parent = real_of ns \<and> names_ok (ns @ [n]) \<and> missing_at ops (ns @ [n]) m
             \<and> parent_exists = (m = length ns))
      | ResolvedAncestorNotDirectory real_path regular_file \<Rightarrow>
          (\<exists>ns. real_path = real_of ns \<and> names_ok ns
             \<and> exists_at ops ns (if regular_file then EkFile else EkOther)))"

lemma components_good: "c \<in> set (components path b) \<Longrightarrow> pc_name c = ''..'' \<or> good_name (pc_name c)"
proof -
  assume "c \<in> set (components path b)"
  then obtain i n where "(i, n) \<in> set (enum_from 0 (split_on CHR ''/'' path))" "n \<noteq> []" "n \<noteq> ''.''" "pc_name c = n"
    by (auto simp: components_def Let_def)
  then show ?thesis using split_on_elem[of n "CHR ''/''" path] in_enum_from by (fastforce simp: good_name_def)
qed

lemma queue_ok_components [simp]: "queue_ok (components path b)"
  using components_good by (auto simp: queue_ok_def)

lemma queue_ok_append [simp]: "queue_ok (p @ q) \<longleftrightarrow> queue_ok p \<and> queue_ok q"
  by (auto simp: queue_ok_def)

lemma queue_ok_Cons: "queue_ok (c # q) \<longleftrightarrow> (pc_name c = ''..'' \<or> good_name (pc_name c)) \<and> queue_ok q"
  by (simp add: queue_ok_def)

lemma queue_ok_slash_last: "queue_ok q \<Longrightarrow> queue_ok (slash_last b q)"
  by (cases q rule: rev_cases) (auto simp: slash_last_def queue_ok_def)

lemma names_ok_Nil [simp]: "names_ok []"
  by (simp add: names_ok_def real_of_def path_length_limit_def)

lemma names_ok_butlast: "names_ok ns \<Longrightarrow> names_ok (butlast ns)"
  using length_parent[of ns] by (auto simp: names_ok_def dest: in_set_butlastD)

lemma joined_within_ok:
  assumes "joined_within_limits (real_of ns) n = Inr nxt" "names_ok ns" "good_name n"
  shows "nxt = real_of (ns @ [n]) \<and> names_ok (ns @ [n])"
  using assms joined_real_of[of n ns]
  by (auto simp: joined_within_limits_def names_ok_def Let_def split: if_splits)

lemma missing_at_snoc: "missing_at ops ns m \<Longrightarrow> missing_at ops (ns @ [n]) m"
  by (auto simp: missing_at_def)

lemma walk_start_inv: "walk_inv ops (walk_start root rel)"
proof -
  have "real_of [] = ''/''" by (simp add: real_of_def)
  then show ?thesis
    by (auto simp: walk_inv_def walk_start_def Let_def queue_ok_slash_last exists_at_def intro!: exI[of _ "[]"])
qed

lemma walk_end_ok: "walk_inv ops st \<Longrightarrow> ws_queue st = [] \<Longrightarrow> resolved_ok ops (walk_end st)"
proof -
  assume inv: "walk_inv ops st" and q: "ws_queue st = []"
  obtain ns where ns: "ws_real st = real_of ns" "names_ok ns"
    and cs: "case ws_missing_parent_exists st of
        None \<Rightarrow> exists_at ops ns (ws_kind st) \<and> (ws_queue st \<noteq> [] \<longrightarrow> ws_kind st = EkDirectory)
      | Some pe \<Rightarrow> (\<exists>m. missing_at ops ns m
          \<and> (if pe then Suc m = length ns \<and> ws_queue st = [] else Suc m < length ns \<or> ws_queue st \<noteq> []))"
    using inv unfolding walk_inv_def by blast
  show ?thesis
  proof (cases "ws_missing_parent_exists st")
    case None
    then show ?thesis using ns cs by (auto simp: walk_end_def resolved_ok_def split: option.splits)
  next
    case (Some pe)
    then obtain m where m: "missing_at ops ns m" "if pe then Suc m = length ns else Suc m < length ns"
      using cs q by (cases pe) auto
    then obtain ms n where ms: "ns = ms @ [n]" by (cases ns rule: rev_cases) (auto simp: missing_at_def)
    have "parent_path (real_of ns) = real_of ms"
      using parent_real_of[of ns] ns(2) ms by (simp add: names_ok_def)
    moreover have "pe = (m = length ms)" using m(2) ms by (cases pe) auto
    ultimately show ?thesis using Some ns m(1) ms
      by (auto simp: walk_end_def resolved_ok_def split: option.splits)
  qed
qed

text \<open>One turn keeps the invariant. \<open>q\<close> is the queue after the component was taken off.\<close>

lemma walk_inv_intro:
  assumes "queue_ok (ws_queue st)" "ws_real st = real_of ns" "names_ok ns"
    "ws_missing_parent_exists st = None" "exists_at ops ns (ws_kind st)"
    "ws_queue st \<noteq> [] \<Longrightarrow> ws_kind st = EkDirectory"
  shows "walk_inv ops st"
  using assms by (auto simp: walk_inv_def)

lemma walk_inv_intro_missing:
  assumes "queue_ok (ws_queue st)" "ws_real st = real_of ns" "names_ok ns"
    "ws_missing_parent_exists st = Some pe" "missing_at ops ns m"
    "if pe then Suc m = length ns \<and> ws_queue st = [] else Suc m < length ns \<or> ws_queue st \<noteq> []"
  shows "walk_inv ops st"
  unfolding walk_inv_def using assms by (intro conjI exI[of _ ns]) auto

lemma step_link_inv:
  assumes "step_link ops c nxt st = Inr r" "queue_ok (ws_queue st)" "ws_missing_parent_exists st = None"
    "ws_real st = real_of ns" "names_ok ns" "dirs_ok ops ns" "ws_kind st = EkDirectory"
  shows "\<exists>st'. r = Continue st' \<and> walk_inv ops st'"
proof -
  from assms(1) obtain target where t: "po_read_link ops nxt = Inr target" "is_utf8 target"
    and r: "r = Continue (st\<lparr>
            ws_inserted_links := ws_inserted_links st + 1,
            ws_terminal_link := (if pc_from_rel c \<and> length (ws_queue st) = 0 then Some target else ws_terminal_link st),
            ws_real := (if starts_with ''/'' target then ''/'' else ws_real st),
            ws_expansions := ws_expansions st @ [\<lparr>ex_rest = length (ws_queue st), ex_from_rel = pc_from_rel c\<rparr>],
            ws_queue := slash_last (pc_slash_after c) (components target False) @ ws_queue st\<rparr>)"
      (is "r = Continue ?st")
    by (auto simp: step_link_def Let_def res_simps split: if_splits)
  let ?ns = "if starts_with ''/'' target then [] else ns"
  have "walk_inv ops ?st"
    using assms by (intro walk_inv_intro[where ns = ?ns])
      (simp_all add: queue_ok_slash_last exists_at_def real_of_def)
  then show ?thesis using r by blast
qed

lemma walk_step_inv:
  assumes "walk_inv ops st" "ws_queue st = c # q" "walk_step ops c (st\<lparr>ws_queue := q\<rparr>) = Inr r"
  shows "case r of Continue st' \<Rightarrow> walk_inv ops st' | Finish res \<Rightarrow> resolved_ok ops res"
proof -
  let ?st = "st\<lparr>ws_queue := q, ws_expansions := filter (\<lambda>e. ex_rest e \<le> length q) (ws_expansions st)\<rparr>"
  obtain ns where ns: "ws_real st = real_of ns" "names_ok ns"
    and cs: "case ws_missing_parent_exists st of
        None \<Rightarrow> exists_at ops ns (ws_kind st) \<and> (ws_queue st \<noteq> [] \<longrightarrow> ws_kind st = EkDirectory)
      | Some pe \<Rightarrow> (\<exists>m. missing_at ops ns m
          \<and> (if pe then Suc m = length ns \<and> ws_queue st = [] else Suc m < length ns \<or> ws_queue st \<noteq> []))"
    using assms(1) unfolding walk_inv_def by blast
  have q: "queue_ok q" and c: "pc_name c = ''..'' \<or> good_name (pc_name c)"
    using assms(1,2) by (auto simp: walk_inv_def queue_ok_Cons)
  show ?thesis
  proof (cases "ws_missing_parent_exists st")
    case (Some pe)
    then obtain m where m: "missing_at ops ns m" "\<not> pe" using cs assms(2) by (cases pe) auto
    from Some assms(3) obtain real where real: "joined_within_limits (real_of ns) (pc_name c) = Inr real"
      "pc_name c \<noteq> ''..''" "r = Continue (?st\<lparr>ws_real := real\<rparr>)"
      by (auto simp: walk_step_def Let_def res_simps step_in_missing_part_def ns(1) split: if_splits)
    have good: "good_name (pc_name c)" using c real(2) by simp
    note j = joined_within_ok[OF real(1) ns(2) good]
    have "walk_inv ops (?st\<lparr>ws_real := real\<rparr>)"
      using Some m j q missing_at_snoc[OF m(1), of "pc_name c"]
      by (intro walk_inv_intro_missing[where ns = "ns @ [pc_name c]" and m = m and pe = pe])
        (auto simp: missing_at_def)
    then show ?thesis using real(3) by simp
  next
    case None
    then have dirs: "dirs_ok ops ns" "ws_kind st = EkDirectory" using cs assms(2) by (auto simp: exists_at_def)
    show ?thesis
    proof (cases "pc_name c = ''..''")
      case True
      then have "r = Continue (?st\<lparr>ws_real := parent_path (ws_real st)\<rparr>)"
        using assms(3) None by (simp add: walk_step_def Let_def)
      moreover have "walk_inv ops (?st\<lparr>ws_real := parent_path (ws_real st)\<rparr>)"
        using None dirs ns q names_ok_butlast[OF ns(2)] dirs_ok_butlast[OF dirs(1)] parent_real_of[of ns]
        by (intro walk_inv_intro[where ns = "butlast ns"]) (simp_all add: names_ok_def exists_at_def)
      ultimately show ?thesis by simp
    next
      case False
      then have good: "good_name (pc_name c)" using c by simp
      from assms(3) None False obtain nxt found where
        nxt: "joined_within_limits (real_of ns) (pc_name c) = Inr nxt"
        and found: "po_entry_kind ops nxt = Inr found"
        and r: "(case found of
                KMissing \<Rightarrow>
                  if ws_expansions ?st \<noteq> [] \<and> ex_rest (last (ws_expansions ?st)) > 0
                  then Inl DanglingSymlink
                  else Inr (Continue (?st\<lparr>ws_missing_parent_exists := Some (length q = 0), ws_real := nxt\<rparr>))
              | KSymlink \<Rightarrow> step_link ops c nxt ?st
              | KDirectory \<Rightarrow> Inr (Continue (?st\<lparr>ws_kind := EkDirectory, ws_real := nxt\<rparr>))
              | _ \<Rightarrow>
                  if length q > 0 then
                    res_bind (not_a_directory_before (ws_expansions ?st) (length q) (pc_from_rel c) nxt found)
                      (\<lambda>r. Inr (Finish r))
                  else if pc_slash_after c then Inl RNotADirectory
                  else Inr (Continue (?st\<lparr>
                    ws_kind := (if found = KRegularFile then EkFile else EkOther), ws_real := nxt\<rparr>))) = Inr r"
        by (auto simp: walk_step_def Let_def res_simps ns(1) split: if_splits)
      note j = joined_within_ok[OF nxt ns(2) good]
      let ?ns = "ns @ [pc_name c]"
      have ex: "exists_at ops ?ns (if found = KRegularFile then EkFile else EkOther)"
        if "found = KRegularFile \<or> found = KOtherEntry"
        using that dirs(1) found j by (auto simp: exists_at_def)
      have leaf: "case r of Continue st' \<Rightarrow> walk_inv ops st' | Finish res \<Rightarrow> resolved_ok ops res"
        if f: "found = KRegularFile \<or> found = KOtherEntry"
      proof (cases "q = []")
        case True
        then have "r = Continue (?st\<lparr>ws_kind := (if found = KRegularFile then EkFile else EkOther), ws_real := nxt\<rparr>)"
          using r f by (auto split: if_splits)
        moreover have "walk_inv ops
            (?st\<lparr>ws_kind := (if found = KRegularFile then EkFile else EkOther), ws_real := nxt\<rparr>)"
          using None True j ex[OF f] q by (intro walk_inv_intro[where ns = ?ns]) simp_all
        ultimately show ?thesis by simp
      next
        case False
        then have "r = Finish (ResolvedAncestorNotDirectory nxt (found = KRegularFile))"
          using r f by (auto simp: not_a_directory_before_def Let_def res_simps split: if_splits)
        then show ?thesis using j ex[OF f] by (auto simp: resolved_ok_def)
      qed
      show ?thesis
      proof (cases found)
        case KMissing
        then have "r = Continue (?st\<lparr>ws_missing_parent_exists := Some (length q = 0), ws_real := nxt\<rparr>)"
          using r by (auto split: if_splits)
        moreover have "walk_inv ops (?st\<lparr>ws_missing_parent_exists := Some (length q = 0), ws_real := nxt\<rparr>)"
          using q j dirs(1) found KMissing
          by (intro walk_inv_intro_missing[where ns = ?ns and m = "length ns" and pe = "length q = 0"])
            (auto simp: missing_at_def)
        ultimately show ?thesis by simp
      next
        case KDirectory
        then have "r = Continue (?st\<lparr>ws_kind := EkDirectory, ws_real := nxt\<rparr>)" using r by simp
        moreover have "walk_inv ops (?st\<lparr>ws_kind := EkDirectory, ws_real := nxt\<rparr>)"
          using None q j dirs(1) found KDirectory
          by (intro walk_inv_intro[where ns = ?ns]) (simp_all add: exists_at_def dirs_ok_snoc)
        ultimately show ?thesis by simp
      next
        case KSymlink
        then have "step_link ops c nxt ?st = Inr r" using r by simp
        then obtain st' where "r = Continue st'" "walk_inv ops st'"
          using step_link_inv[of ops c nxt ?st r ns] q None ns dirs by auto
        then show ?thesis by simp
      qed (use leaf in simp_all)
    qed
  qed
qed

lemma walk_loop_sound: "walk_inv ops st \<Longrightarrow> walk_loop ops st = Inr r \<Longrightarrow> resolved_ok ops r"
proof (induction ops st rule: walk_loop.induct)
  case (1 ops st)
  show ?case
  proof (cases "ws_queue st")
    case Nil
    then show ?thesis using 1(3) walk_end_ok[OF 1(2) Nil] by (simp add: walk_loop.simps)
  next
    case (Cons c q)
    then obtain s where s: "walk_step ops c (st\<lparr>ws_queue := q\<rparr>) = Inr s"
      using 1(3) by (cases "walk_step ops c (st\<lparr>ws_queue := q\<rparr>)") (simp_all add: walk_loop.simps)
    note inv = walk_step_inv[OF 1(2) Cons s]
    show ?thesis
    proof (cases s)
      case (Continue st')
      then have "walk_loop ops st' = Inr r" using 1(3) Cons s by (subst (asm) walk_loop.simps) simp
      then show ?thesis using 1(1)[OF Cons s Continue] inv Continue by simp
    next
      case (Finish res)
      then show ?thesis using inv 1(3) Cons s by (simp add: walk_loop.simps)
    qed
  qed
qed

text \<open>C13: What the walk answers is true of the file system it asked. The real path is canonical ("/"
  and names without ".", ".." or empty elements), shorter than the limit, and every element before
  its last is a directory that is not a symlink. An existing path has the kind answered; a missing
  path's parent is a directory exactly when the answer says so, and otherwise lies in a missing part;
  an ancestor that is not a directory is a regular file exactly when the answer says so.\<close>

theorem resolve_path_sound:
  assumes "resolve_path root rel ops = Inr r"
  shows "resolved_ok ops r"
  using assms walk_loop_sound[OF walk_start_inv] by (simp add: resolve_path_def)

subsection \<open>A path without symlinks\<close>

lemma plain_loop:
  assumes "ws_queue st = q" "ns = ps @ map pc_name q" "ws_real st = real_of ps"
    "ws_missing_parent_exists st = None" "ws_terminal_link st = None"
    "''..'' \<notin> set ns" "names_ok ns" "\<forall>n \<in> set ns. length n \<le> name_length_limit"
    "\<forall>i < length ns. po_can_search ops (real_of (take i ns)) = Inr True"
    "exists_at ops ns k" "q = [] \<Longrightarrow> ws_kind st = k"
    "q \<noteq> [] \<Longrightarrow> k = EkDirectory \<or> \<not> pc_slash_after (last q)"
  shows "walk_loop ops st = Inr (ResolvedExists (real_of ns) k)"
  using assms
proof (induction q arbitrary: st ps)
  case Nil
  then show ?case by (simp add: walk_loop.simps walk_end_def)
next
  case (Cons c q)
  let ?n = "pc_name c"
  let ?st = "st\<lparr>ws_queue := q, ws_expansions := filter (\<lambda>e. ex_rest e \<le> length q) (ws_expansions st)\<rparr>"
  have ns: "ns = (ps @ [?n]) @ map pc_name q" using Cons.prems(2) by simp
  have good: "good_name ?n" "\<forall>m \<in> set ps. good_name m" using Cons.prems(7) ns by (auto simp: names_ok_def)
  have len: "length (real_of (ps @ [?n])) \<le> length (real_of ns)"
    unfolding ns by (simp add: real_of_def)
  have join: "joined_within_limits (real_of ps) ?n = Inr (real_of (ps @ [?n]))"
    using joined_real_of[OF good] len Cons.prems(7,8) ns
    by (auto simp: joined_within_limits_def Let_def names_ok_def)
  have search: "po_can_search ops (real_of ps) = Inr True"
  proof -
    have "take (length ps) ns = ps" "length ps < length ns" using ns by simp_all
    then show ?thesis using Cons.prems(9) by metis
  qed
  let ?k = "if q = [] then k else EkDirectory"
  have found: "po_entry_kind ops (real_of (ps @ [?n])) = Inr (kind_of ?k)"
  proof (cases "q = []")
    case True
    then show ?thesis using Cons.prems(10) ns by (auto simp: exists_at_def dirs_ok_snoc split: if_splits)
  next
    case False
    have "take (Suc (length ps)) ns = ps @ [?n]" using ns by simp
    moreover have "dirs_ok ops (butlast ns)"
      using Cons.prems(10) dirs_ok_butlast by (auto simp: exists_at_def split: if_splits)
    moreover have "Suc (length ps) \<le> length (butlast ns)" using False ns by (cases q) auto
    moreover from this have "take (Suc (length ps)) (butlast ns) = take (Suc (length ps)) ns"
      by (simp add: butlast_conv_take min_absorb1)
    ultimately show ?thesis using False by (auto simp: dirs_ok_def)
  qed
  have no_dots: "?n \<noteq> ''..''" using good by (simp add: good_name_def)
  have slash: "q = [] \<Longrightarrow> k = EkDirectory \<or> \<not> pc_slash_after c" using Cons.prems(12) by simp
  let ?st' = "?st\<lparr>ws_kind := ?k, ws_real := real_of (ps @ [?n])\<rparr>"
  have "walk_step ops c (st\<lparr>ws_queue := q\<rparr>) = Inr (Continue ?st')"
    using Cons.prems(3,4) join search found no_dots slash
    by (cases "q = []"; cases k) (simp_all add: walk_step_def Let_def)
  then have "walk_loop ops st = walk_loop ops ?st'"
    by (subst walk_loop.simps) (simp add: Cons.prems(1))
  also have "\<dots> = Inr (ResolvedExists (real_of ns) k)"
    by (rule Cons.IH[where ps = "ps @ [?n]"]) (use Cons.prems ns in auto)
  finally show ?case .
qed

text \<open>C14: A path that is there is found: when no element of root_dir and of the relative path is ".."
  or a symlink, the lengths are within the limits and the directories can be searched, the walk
  answers that the joined path exists, with its kind (a file only when no slash follows it).\<close>

theorem resolve_plain_path:
  assumes "ns = map pc_name (components root False @ components rel True)"
    and "''..'' \<notin> set ns" "names_ok ns" "\<forall>n \<in> set ns. length n \<le> name_length_limit"
    and "\<forall>i < length ns. po_can_search ops (real_of (take i ns)) = Inr True"
    and "exists_at ops ns k"
    and "k = EkDirectory \<or> \<not> pc_slash_after (last (ws_queue (walk_start root rel)))"
  shows "resolve_path root rel ops = Inr (ResolvedExists (real_of ns) k)"
proof -
  have names: "map pc_name (slash_last b cs) = map pc_name cs" for b cs
    by (cases cs rule: rev_cases) (simp_all add: slash_last_def)
  show ?thesis
    unfolding resolve_path_def
  proof (rule plain_loop[where ps = "[]" and q = "ws_queue (walk_start root rel)"])
    show "ns = [] @ map pc_name (ws_queue (walk_start root rel))"
      using assms(1) by (simp add: walk_start_def Let_def names)
    show "ws_kind (walk_start root rel) = k" if "ws_queue (walk_start root rel) = []"
    proof -
      have "ns = []" using that assms(1) by (auto simp: walk_start_def Let_def names slash_last_def split: if_splits)
      then show ?thesis using assms(6) by (auto simp: exists_at_def walk_start_def Let_def split: if_splits)
    qed
  qed (use assms in \<open>auto simp: walk_start_def Let_def real_of_def\<close>)
qed

subsection \<open>Witnesses\<close>

text \<open>A machine with the directories /r and /r/d, the file /r/d/f and the symlink /r/l to d.\<close>

definition ex_os :: os_calls where
  "ex_os = \<lparr>
     os_lstat = (\<lambda>p. if p = ''/r'' \<or> p = ''/r/d'' then Inr FtDir else if p = ''/r/d/f'' then Inr FtFile
        else if p = ''/r/l'' then Inr FtSymlink else Inl KNotFound),
     os_search = (\<lambda>_. None),
     os_readlink = (\<lambda>p. if p = ''/r/l'' then Inr ''d'' else Inl KOther)\<rparr>"

lemma ex_resolve_link:
  "resolve_path ''/r'' ''l/f'' (os_path_ops ex_os) = Inr (ResolvedExists ''/r/d/f'' EkFile)"
  by code_simp

theorem resolve_path_sound_witness:
  "resolved_ok (os_path_ops ex_os) (ResolvedExists ''/r/d/f'' EkFile)"
  by (rule resolve_path_sound[OF ex_resolve_link])

theorem resolve_plain_path_witness:
  "resolve_path ''/r'' ''d/f'' (os_path_ops ex_os) = Inr (ResolvedExists (real_of [''r'', ''d'', ''f'']) EkFile)"
proof (rule resolve_plain_path)
  show "[''r'', ''d'', ''f''] = map pc_name (components ''/r'' False @ components ''d/f'' True)"
    by code_simp
  show "names_ok [''r'', ''d'', ''f'']"
    by (simp add: names_ok_def good_name_def real_of_def path_length_limit_def)
  show "\<forall>n \<in> set [''r'', ''d'', ''f'']. length n \<le> name_length_limit"
    by (simp add: name_length_limit_def)
  show "\<forall>i < length [''r'', ''d'', ''f'']. po_can_search (os_path_ops ex_os) (real_of (take i [''r'', ''d'', ''f''])) = Inr True"
    by (simp add: os_path_ops_def os_can_search_def ex_os_def real_of_def less_Suc_eq numeral_3_eq_3 all_conj_distrib)
  show "exists_at (os_path_ops ex_os) [''r'', ''d'', ''f''] EkFile"
    by (simp add: exists_at_def dirs_ok_snoc[of _ "[''r'']", simplified] dirs_ok_snoc[of _ "[]", simplified]
        os_path_ops_def os_entry_kind_def ex_os_def real_of_def)
  show "EkFile = EkDirectory \<or> \<not> pc_slash_after (last (ws_queue (walk_start ''/r'' ''d/f'')))"
    by code_simp
qed simp

end
