(* ===== verification/Exclude.thy ===== *)
theory Exclude
  imports RelPath
begin

text \<open>
  Names that are not UTF-8 (\<open>unreadable_name.rs\<close>), the patterns of exclude (\<open>filter.rs\<close>) and how a
  scan applies them (\<open>scan/exclude.rs\<close> of remote-merge-core). The crate glob_match is an argument
  \<open>glob pattern text\<close>.
\<close>

subsection \<open>Unreadable names\<close>

definition hex_digit :: "nat \<Rightarrow> char" where
  "hex_digit n = char_of (if n < 10 then 48 + n else 87 + n)"

definition escape_byte :: "char \<Rightarrow> string" where
  "escape_byte c =
     (let n = of_char c :: nat in [CHR 0x5C, CHR ''x'', hex_digit (n div 16), hex_digit (n mod 16)])"

text \<open>A byte that no scalar value starts with is written in hex and the reading goes on behind it:
  the bytes after the first of a cut sequence start no scalar value either.\<close>

function escape_non_utf8 :: "bytes \<Rightarrow> string" where
  "escape_non_utf8 s =
     (case s of
        [] \<Rightarrow> []
      | b # rest \<Rightarrow>
          if utf8_head s = 0 then escape_byte b @ escape_non_utf8 rest
          else take (utf8_head s) s @ escape_non_utf8 (drop (utf8_head s) s))"
  by pat_completeness auto
termination by (relation "measure length") auto

declare escape_non_utf8.simps [simp del]

subsection \<open>Patterns\<close>

type_synonym glob = "string \<Rightarrow> string \<Rightarrow> bool"

definition matches_path_pattern :: "glob \<Rightarrow> string \<Rightarrow> string \<Rightarrow> bool" where
  "matches_path_pattern glob path pattern =
     (if str_contains ''../'' pattern then False
      else if CHR ''/'' \<in> set pattern then
        glob pattern path
        \<or> (case strip_suffix ''/**'' pattern of
             Some stem \<Rightarrow> path = stem \<or> glob stem path
           | None \<Rightarrow> False)
      else (\<exists>segment \<in> set (split_on CHR ''/'' path). segment \<noteq> [] \<and> glob pattern segment))"

definition is_path_excluded :: "glob \<Rightarrow> string \<Rightarrow> string list \<Rightarrow> bool" where
  "is_path_excluded glob path patterns = (\<exists>pattern \<in> set patterns. matches_path_pattern glob path pattern)"

subsection \<open>Exclude\<close>

record exclude =
  segment_patterns :: "string list"
  path_patterns :: "string list"

definition exclude_new :: "string list \<Rightarrow> exclude" where
  "exclude_new patterns =
     (let kept = filter (\<lambda>p. \<not> str_contains ''../'' p) patterns in
      \<lparr>segment_patterns = filter (\<lambda>p. CHR ''/'' \<notin> set p) kept,
       path_patterns = filter (\<lambda>p. CHR ''/'' \<in> set p) kept\<rparr>)"

text \<open>The loop over the elements with the end of the prefix so far.\<close>

fun prefix_loop :: "glob \<Rightarrow> string list \<Rightarrow> string \<Rightarrow> nat \<Rightarrow> string list \<Rightarrow> bool" where
  "prefix_loop glob patterns text prefix_end [] = False"
| "prefix_loop glob patterns text prefix_end (element # elements) =
     (let prefix_end' = prefix_end + length element in
      if element \<noteq> [] \<and> is_path_excluded glob (take prefix_end' text) patterns then True
      else prefix_loop glob patterns text (prefix_end' + 1) elements)"

definition excludes :: "glob \<Rightarrow> exclude \<Rightarrow> bytes \<Rightarrow> bool" where
  "excludes glob e path =
     (if (segment_patterns e = [] \<and> path_patterns e = []) \<or> path = [] then False
      else
        (let txt = escape_non_utf8 path in
         if \<exists>element \<in> set (split_on CHR ''/'' txt).
              element \<noteq> [] \<and> is_path_excluded glob element (segment_patterns e)
         then True
         else prefix_loop glob (path_patterns e) txt 0 (split_on CHR ''/'' txt)))"

subsection \<open>Facts\<close>

lemma not_cont_slash: "\<not> utf8_cont CHR ''/''" "\<not> utf8_second a CHR ''/''"
  by (auto simp: utf8_cont_def utf8_second_def byte_in_def)

lemma utf8_head_append:
  assumes "s \<noteq> []"
  shows "utf8_head (s @ CHR ''/'' # t) = utf8_head s"
proof -
  from assms obtain a s1 where s: "s = a # s1" by (cases s) auto
  show ?thesis
  proof (cases s1)
    case Nil
    then show ?thesis by (simp add: s not_cont_slash split: list.splits)
  next
    case s1: (Cons b s2)
    show ?thesis
    proof (cases s2)
      case Nil
      then show ?thesis by (simp add: s s1 not_cont_slash split: list.splits)
    next
      case s2: (Cons c s3)
      then show ?thesis by (cases s3) (simp_all add: s s1 s2 not_cont_slash)
    qed
  qed
qed

lemma utf8_head_slash: "utf8_head (CHR ''/'' # t) = 1"
  by (simp add: byte_in_def)

declare utf8_head.simps [simp del]

lemma escape_Nil [simp]: "escape_non_utf8 [] = []"
  by (simp add: escape_non_utf8.simps)

lemma escape_ne: "s \<noteq> [] \<Longrightarrow> escape_non_utf8 s =
    (if utf8_head s = 0 then escape_byte (hd s) @ escape_non_utf8 (tl s)
     else take (utf8_head s) s @ escape_non_utf8 (drop (utf8_head s) s))"
  by (subst escape_non_utf8.simps) (simp split: list.split)

lemma escape_slash: "escape_non_utf8 (CHR ''/'' # t) = CHR ''/'' # escape_non_utf8 t"
  by (simp add: escape_ne utf8_head_slash)

lemma escape_append: "escape_non_utf8 (s @ CHR ''/'' # t) = escape_non_utf8 s @ CHR ''/'' # escape_non_utf8 t"
proof (induction s rule: escape_non_utf8.induct)
  case (1 s)
  show ?case
  proof (cases s)
    case Nil
    then show ?thesis by (simp add: escape_slash)
  next
    case (Cons b rest)
    have h: "utf8_head (s @ CHR ''/'' # t) = utf8_head s" using Cons by (intro utf8_head_append) simp
    show ?thesis
    proof (cases "utf8_head s = 0")
      case True
      then show ?thesis using 1(1)[OF Cons True] h Cons by (simp add: escape_ne)
    next
      case False
      have le: "utf8_head s \<le> length s" by (rule utf8_head_le)
      have "escape_non_utf8 (s @ CHR ''/'' # t) =
          take (utf8_head s) s @ escape_non_utf8 (drop (utf8_head s) s @ CHR ''/'' # t)"
        using False h le by (simp add: escape_ne)
      also have "\<dots> = take (utf8_head s) s @ escape_non_utf8 (drop (utf8_head s) s) @ CHR ''/'' # escape_non_utf8 t"
        using 1(2)[OF Cons False] by simp
      also have "\<dots> = escape_non_utf8 s @ CHR ''/'' # escape_non_utf8 t"
        using False Cons escape_ne[of s] by simp
      finally show ?thesis .
    qed
  qed
qed

lemma escape_utf8: "is_utf8 s \<Longrightarrow> escape_non_utf8 s = s"
proof (induction s rule: escape_non_utf8.induct)
  case (1 s)
  show ?case
  proof (cases s)
    case Nil
    then show ?thesis by (simp add: escape_non_utf8.simps)
  next
    case (Cons b rest)
    then have h: "utf8_head s \<noteq> 0" "is_utf8 (drop (utf8_head s) s)"
      using 1(3) by (simp_all add: is_utf8_Cons)
    then show ?thesis using 1(2)[OF Cons] Cons escape_ne[of s] by simp
  qed
qed

lemma prefix_loop_append:
  "prefix_loop glob ps (t @ CHR ''/'' # u) n es \<longleftrightarrow> prefix_loop glob ps t n es"
  if "n + length (join_with ''/'' es) \<le> length t"
  using that
proof (induction es arbitrary: n)
  case (Cons e es)
  have "n + length e \<le> length t" using Cons.prems by (cases es) auto
  moreover have "n + length e + 1 + length (join_with ''/'' es) \<le> length t \<or> es = []"
    using Cons.prems by (cases es) auto
  ultimately show ?case using Cons.IH[of "n + length e + 1"] by (auto simp: Let_def)
qed simp

lemma prefix_loop_mono: "prefix_loop glob ps t n es \<Longrightarrow> prefix_loop glob ps t n (es @ fs)"
  by (induction es arbitrary: n) (auto simp: Let_def)

text \<open>What exclude removes, it removes with everything below: when a path is excluded, so is every
  path under it, whatever bytes the names have.\<close>

theorem excludes_below:
  assumes "excludes glob e path"
  shows "excludes glob e (path @ CHR ''/'' # rest)"
proof -
  let ?t = "escape_non_utf8 path" and ?u = "escape_non_utf8 rest"
  have esc: "escape_non_utf8 (path @ CHR ''/'' # rest) = ?t @ CHR ''/'' # ?u" by (rule escape_append)
  have ne: "\<not> (segment_patterns e = [] \<and> path_patterns e = [])" "path \<noteq> []"
    using assms by (auto simp: excludes_def split: if_splits)
  have split: "split_on CHR ''/'' (?t @ CHR ''/'' # ?u) = split_on CHR ''/'' ?t @ split_on CHR ''/'' ?u"
    by (rule split_on_append)
  have "(\<exists>x \<in> set (split_on CHR ''/'' ?t). x \<noteq> [] \<and> is_path_excluded glob x (segment_patterns e))
      \<or> prefix_loop glob (path_patterns e) ?t 0 (split_on CHR ''/'' ?t)"
    using assms by (auto simp: excludes_def Let_def split: if_splits)
  then show ?thesis
  proof
    assume "\<exists>x \<in> set (split_on CHR ''/'' ?t). x \<noteq> [] \<and> is_path_excluded glob x (segment_patterns e)"
    then show ?thesis using ne by (auto simp: excludes_def esc split Let_def)
  next
    assume *: "prefix_loop glob (path_patterns e) ?t 0 (split_on CHR ''/'' ?t)"
    have "0 + length (join_with ''/'' (split_on CHR ''/'' ?t)) \<le> length ?t" by simp
    from prefix_loop_append[OF this] * have
      "prefix_loop glob (path_patterns e) (?t @ CHR ''/'' # ?u) 0 (split_on CHR ''/'' ?t)" by blast
    then have "prefix_loop glob (path_patterns e) (?t @ CHR ''/'' # ?u) 0 (split_on CHR ''/'' ?t @ split_on CHR ''/'' ?u)"
      by (rule prefix_loop_mono)
    then show ?thesis using ne by (simp add: excludes_def esc split Let_def)
  qed
qed

theorem excludes_below_witness:
  "excludes (=) (exclude_new [''a/b'']) ''a/b/c''"
proof -
  have "excludes (=) (exclude_new [''a/b'']) ''a/b''" by code_simp
  from excludes_below[OF this, of "''c''"] show ?thesis by simp
qed

end
