(* ===== verification/ScanTypes.thy ===== *)
theory ScanTypes
  imports OpFailure PathResolution Exclude "HOL-Library.Product_Lexorder"
begin

text \<open>
  The request and the result of a scan (\<open>scan/outcome.rs\<close>), the raw entries a route collects
  (\<open>scan/raw.rs\<close>), the kinds of its failures (\<open>scan/failure_kind.rs\<close>), the decision on a value of
  include (\<open>scan/include.rs\<close>) and the starts of a scan (\<open>scan/starts.rs\<close>), of remote-merge-core.
\<close>

subsection \<open>Request and listing\<close>

record start =
  st_path :: string
  st_with_self :: bool
  st_descend :: bool
  st_group :: nat

definition start_value :: "string \<Rightarrow> start" where
  "start_value path = \<lparr>st_path = path, st_with_self = True, st_descend = True, st_group = 0\<rparr>"

definition start_below :: "string \<Rightarrow> nat \<Rightarrow> start" where
  "start_below path grp = \<lparr>st_path = path, st_with_self = False, st_descend = True, st_group = grp\<rparr>"

definition start_itself :: "string \<Rightarrow> nat \<Rightarrow> start" where
  "start_itself path grp = \<lparr>st_path = path, st_with_self = True, st_descend = False, st_group = grp\<rparr>"

definition start_check :: "string \<Rightarrow> nat \<Rightarrow> start" where
  "start_check path grp = \<lparr>st_path = path, st_with_self = False, st_descend = False, st_group = grp\<rparr>"

datatype scan_scope = ScopeWhole | ScopeStarts "start list" | ScopeChildren string

record scan_request =
  sr_scope :: scan_scope
  sr_max_entries :: nat

datatype link_point = LpDirectory | LpNotDirectory | LpOther | LpMissing | LpUnresolvable

datatype listed_kind = LkFile | LkDirectory | LkSymlink bytes link_point | LkOther

record listed_entry =
  le_path :: string
  le_kind :: listed_kind
  le_size :: u64
  le_mtime_secs :: int
  le_mtime_nanos :: u32
  le_mtime_digits :: u8
  le_permissions :: u32

record listing =
  ls_entries :: "listed_entry list"
  ls_unreadable_names :: "string list"
  ls_truncated :: bool
  ls_cycle :: "string option"
  ls_unresolvable_names :: "string list"
  ls_counted :: nat

definition join_listings :: "listing \<Rightarrow> listing \<Rightarrow> listing" where
  "join_listings a b =
     \<lparr>ls_entries = sort_key le_path (ls_entries a @ ls_entries b),
      ls_unreadable_names = sort (ls_unreadable_names a @ ls_unreadable_names b),
      ls_truncated = (ls_truncated a \<or> ls_truncated b),
      ls_cycle = (case ls_cycle a of Some p \<Rightarrow> Some p | None \<Rightarrow> ls_cycle b),
      ls_unresolvable_names = sort (ls_unresolvable_names a @ ls_unresolvable_names b),
      ls_counted = ls_counted a + ls_counted b\<rparr>"

datatype read_cause = RcPermissionDenied | RcOther

fun show_read_cause :: "read_cause \<Rightarrow> string" where
  "show_read_cause RcPermissionDenied = ''permission denied''"
| "show_read_cause RcOther = ''read error''"

datatype scan_failure =
    RootMissing
  | RootUnreadable read_cause
  | RootNotDirectory
  | RootChanged
  | StartBlocked string
  | StartUnreadable string read_cause
  | UnreadableDirectory string read_cause
  | UnresolvableLink string
  | UnreadableLinkTarget string
  | UnreadableTime string
  | ChangedDuringScan string
  | InconsistentAnswer string
  | CollectFailed string

fun show_scan_failure :: "scan_failure \<Rightarrow> string" where
  "show_scan_failure RootMissing = ''root_dir not found''"
| "show_scan_failure (RootUnreadable _) = ''Cannot read root_dir''"
| "show_scan_failure RootNotDirectory = ''Cannot read root_dir''"
| "show_scan_failure RootChanged = ''root_dir changed during the scan''"
| "show_scan_failure (StartBlocked path) = ''Cannot scan '' @ path @ '': a parent is not a directory''"
| "show_scan_failure (StartUnreadable path _) = ''Cannot scan '' @ path @ '': it cannot be read''"
| "show_scan_failure (UnreadableDirectory path cause) =
     ''Cannot read directory: '' @ path @ '': '' @ show_read_cause cause"
| "show_scan_failure (UnresolvableLink path) =
     ''Cannot follow symbolic link (loop or non-directory in its target): '' @ path"
| "show_scan_failure (UnreadableLinkTarget path) = ''Cannot read the link target of '' @ path"
| "show_scan_failure (UnreadableTime path) = ''Cannot read the modification time of '' @ path"
| "show_scan_failure (ChangedDuringScan path) = ''Entry changed during the scan: '' @ path"
| "show_scan_failure (InconsistentAnswer detail) =
     ''The scan answers did not match the questions: '' @ detail"
| "show_scan_failure (CollectFailed message) = ''Cannot collect the entries to scan: '' @ message"

text \<open>The error of the collector itself is carried as it is; it is a string here.\<close>

datatype collect_error = CeFailed string | CeRootGone

datatype scan_error = SeFailure scan_failure | SeCollect string

fun scan_error_of_collect :: "collect_error \<Rightarrow> scan_error" where
  "scan_error_of_collect (CeFailed e) = SeCollect e"
| "scan_error_of_collect CeRootGone = SeFailure RootChanged"

subsection \<open>Kinds of failure\<close>

fun cause_kind :: "scan_failure \<Rightarrow> read_cause \<Rightarrow> op_failure" where
  "cause_kind f RcPermissionDenied = PermissionDenied"
| "cause_kind f RcOther = Io (show_scan_failure f)"

fun failure_kind :: "scan_failure \<Rightarrow> op_failure" where
  "failure_kind RootMissing = RootGone"
| "failure_kind RootChanged = RootGone"
| "failure_kind RootNotDirectory = RootGone"
| "failure_kind (StartBlocked _) = NotADirectory"
| "failure_kind (RootUnreadable cause) = cause_kind (RootUnreadable cause) cause"
| "failure_kind (StartUnreadable path cause) = cause_kind (StartUnreadable path cause) cause"
| "failure_kind (UnreadableDirectory path cause) = cause_kind (UnreadableDirectory path cause) cause"
| "failure_kind (InconsistentAnswer detail) =
     Disconnected (NoAnswer (show_scan_failure (InconsistentAnswer detail)))"
| "failure_kind f = Io (show_scan_failure f)"

text \<open>The chain of an error: operation failures first, then the failure of a scan, alone or shown
  with other words (\<open>ScanStopped\<close>). Which other causes carry the failure of a scan is an argument.\<close>

definition scan_failure_of :: "('x \<Rightarrow> scan_failure option) \<Rightarrow> 'x cause list \<Rightarrow> scan_failure option" where
  "scan_failure_of carried chain =
     find_map (\<lambda>c. case c of CauseOther x \<Rightarrow> carried x | _ \<Rightarrow> None) chain"

definition failure_of_scan_error :: "('x \<Rightarrow> scan_failure option) \<Rightarrow> 'x cause list \<Rightarrow> op_failure option" where
  "failure_of_scan_error carried chain =
     (case failure_of chain of
        Some f \<Rightarrow> Some f
      | None \<Rightarrow> map_option failure_kind (scan_failure_of carried chain))"

subsection \<open>Raw entries\<close>

record dir_id =
  di_dev :: u64
  di_ino :: u64

datatype raw_time = TimeRead int u32 u8 | TimeUnreadable

definition raw_time_read :: "int \<Rightarrow> u32 \<Rightarrow> raw_time" where
  "raw_time_read secs nanos = TimeRead secs nanos (if nanos = 0 then 0 else 9)"

datatype raw_kind = RkFile | RkDirectory | RkSymlink "bytes option" | RkOther

record raw_entry =
  re_path :: bytes
  re_kind :: raw_kind
  re_size :: u64
  re_mtime :: raw_time
  re_mode :: u32
  re_id :: dir_id

datatype link_target = LtDirectory | LtNotDirectory | LtOther | LtMissing | LtUnresolvable

datatype unreached = UrMissing | UrNotDirectory | UrUnreadable read_cause

datatype depth = DepthItself | DepthChildren | DepthAll

record question =
  q_path :: bytes
  q_depth :: depth

record unreadable_dir =
  ud_path :: bytes
  ud_cause :: read_cause

record subtree =
  tr_start :: raw_entry
  tr_entries :: "raw_entry list"
  tr_unreadable :: "unreadable_dir list"
  tr_unreadable_entries :: "unreadable_dir list"
  tr_changed :: "bytes list"

record answer =
  an_entry :: "unreached + raw_entry"
  an_link :: "link_target option"
  an_subtree :: "subtree option"

text \<open>A collector is a function that threads the state of what it asks.\<close>

type_synonym 's collector =
  "'s \<Rightarrow> question list \<Rightarrow> exclude \<Rightarrow> (collect_error + answer list) \<times> 's"

subsection \<open>Values of include\<close>

datatype value_decision = VScan | VSkip | VOutside

fun value_warning :: "value_decision \<Rightarrow> string \<Rightarrow> string option" where
  "value_warning VScan v = None"
| "value_warning VSkip v = Some (''Include path does not exist, skipping: '' @ v)"
| "value_warning VOutside v = Some (''Include path resolves outside root_dir, skipping: '' @ v)"

definition is_inside :: "string \<Rightarrow> string \<Rightarrow> bool" where
  "is_inside real_path real_root =
     (real_path = real_root \<or> is_within real_path (trim_end_matches CHR ''/'' real_root))"

definition decide_value :: "resolved_path \<Rightarrow> string \<Rightarrow> resolve_error + value_decision" where
  "decide_value resolved real_root =
     (case resolved of
        ResolvedMissing _ _ \<Rightarrow> Inr VSkip
      | ResolvedAncestorNotDirectory _ _ \<Rightarrow> Inl RNotADirectory
      | ResolvedExists real_path _ \<Rightarrow> Inr (if is_inside real_path real_root then VScan else VOutside)
      | ResolvedSymlink _ real_path _ \<Rightarrow> Inr (if is_inside real_path real_root then VScan else VOutside))"

subsection \<open>Starts\<close>

definition covered_by :: "string \<Rightarrow> string \<Rightarrow> bool" where
  "covered_by path outer = (outer = [] \<or> is_within path outer)"

definition narrowed :: "string \<Rightarrow> nat \<Rightarrow> string list \<Rightarrow> start list" where
  "narrowed dir grp values =
     (let dir_path = normalized dir in
      if \<exists>v \<in> set values. covered_by dir_path (normalized v) then [start_below dir grp]
      else
        start_check dir grp #
        map (\<lambda>v. \<lparr>st_path = v, st_with_self = True, st_descend = True, st_group = grp\<rparr>)
          (filter (\<lambda>v. covered_by (normalized v) dir_path) values))"

definition scope_for :: "string list option \<Rightarrow> string list option \<Rightarrow> scan_scope" where
  "scope_for dirs included =
     (case (dirs, included) of
        (None, None) \<Rightarrow> ScopeWhole
      | (None, Some values) \<Rightarrow> ScopeStarts (map start_value values)
      | (Some ds, None) \<Rightarrow> ScopeStarts (map (\<lambda>(grp, dir). start_below dir grp) (enum_from 0 ds))
      | (Some ds, Some values) \<Rightarrow>
          ScopeStarts (concat (map (\<lambda>(grp, dir). narrowed dir grp values) (enum_from 0 ds))))"

end
