(* ===== verification/ScanWalk.thy ===== *)
theory ScanWalk
  imports ScanTypes
begin

text \<open>
  The rules that put the raw entries of a scan on its listing (\<open>scan/parts.rs\<close>, \<open>scan/walk.rs\<close>,
  \<open>scan/walk_leaf.rs\<close> and \<open>scan/walk_links.rs\<close> of remote-merge-core): exclude, the limit on the
  number of entries, names that are not UTF-8, cycles of symlinks and what stops a scan.

  An operation of \<open>Walk\<close> takes the walk and gives a new one or what stopped it: an error of the
  scan, or a panic of Rust (an index out of range). \<open>ex path\<close> is \<open>self.exclude.excludes(path)\<close>.
\<close>

datatype scan_stop = StopError scan_error | StopPanic

abbreviation stop_failure :: "scan_failure \<Rightarrow> scan_stop" where
  "stop_failure f \<equiv> StopError (SeFailure f)"

subsection \<open>Parts\<close>

definition join_path :: "bytes \<Rightarrow> bytes \<Rightarrow> bytes" where
  "join_path base rel = (if base = [] then rel else if rel = [] then base else base @ ''/'' @ rel)"

definition shown :: "bytes \<Rightarrow> string" where
  "shown path = escape_non_utf8 path"

definition unreadable_directory :: "bytes \<Rightarrow> read_cause \<Rightarrow> scan_failure" where
  "unreadable_directory path cause =
     (if path = [] then RootUnreadable cause else UnreadableDirectory (shown path) cause)"

definition changed_failure :: "bytes \<Rightarrow> scan_stop" where
  "changed_failure path = stop_failure (ChangedDuringScan (shown path))"

text \<open>The ends of the parents of a path, and the ids of those that are directories; the start itself
  (the empty path) is always one of them.\<close>

definition parent_prefixes :: "bytes \<Rightarrow> bytes list" where
  "parent_prefixes path =
     map (\<lambda>(end_at, _). take end_at path) (filter (\<lambda>(_, b). b = CHR ''/'') (enum_from 0 path))"

definition parent_ids :: "bytes \<Rightarrow> (bytes \<Rightarrow> dir_id option) \<Rightarrow> dir_id list" where
  "parent_ids path dir_ids = List.map_filter dir_ids ([] # parent_prefixes path)"

definition listed_entry_of :: "string \<Rightarrow> raw_entry \<Rightarrow> listed_kind \<Rightarrow> scan_stop + listed_entry" where
  "listed_entry_of path entry k =
     (case re_mtime entry of
        TimeUnreadable \<Rightarrow> Inl (stop_failure (UnreadableTime path))
      | TimeRead secs nanos digits \<Rightarrow>
          Inr \<lparr>le_path = path, le_kind = k, le_size = re_size entry, le_mtime_secs = secs,
               le_mtime_nanos = nanos, le_mtime_digits = digits,
               le_permissions = and (re_mode entry) 0xFFF\<rparr>)"

datatype listed_at = ListedAt nat | ListedUnreadableName | ListedStart

record pending_link =
  pl_path :: bytes
  pl_ancestors :: "dir_id list"
  pl_counter :: nat
  pl_listed :: listed_at

definition pending_link_new :: "bytes \<Rightarrow> dir_id list \<Rightarrow> nat \<Rightarrow> pending_link" where
  "pending_link_new path ancs counter =
     \<lparr>pl_path = path, pl_ancestors = ancs, pl_counter = counter, pl_listed = ListedStart\<rparr>"

definition parent_of :: "bytes \<Rightarrow> bytes" where
  "parent_of path = (case rsplit_once CHR ''/'' path of Some (before, _) \<Rightarrow> before | None \<Rightarrow> [])"

datatype item = ItemEntry raw_entry | ItemUnread read_cause | ItemChanged

definition is_changed :: "item \<Rightarrow> bool" where
  "is_changed i = (i = ItemChanged)"

definition in_path_order :: "subtree \<Rightarrow> (bytes \<times> item) list" where
  "in_path_order tree =
     sort_key (\<lambda>(p, i). (p, \<not> is_changed i))
       (map (\<lambda>e. (re_path e, ItemEntry e)) (tr_entries tree)
        @ map (\<lambda>u. (ud_path u, ItemUnread (ud_cause u))) (tr_unreadable_entries tree)
        @ map (\<lambda>p. (p, ItemChanged)) (tr_changed tree))"

subsection \<open>The walk\<close>

record walk =
  w_max_entries :: nat
  w_counts :: "nat list"
  w_entries :: "listed_entry list"
  w_unreadable_names :: "string list"
  w_unresolvable_names :: "string list"
  w_truncated :: bool
  w_cycle :: "string option"
  w_pending :: "pending_link list"

definition walk_new :: "nat \<Rightarrow> nat \<Rightarrow> walk" where
  "walk_new max_entries counters =
     \<lparr>w_max_entries = max_entries, w_counts = replicate (max counters 1) 0, w_entries = [],
      w_unreadable_names = [], w_unresolvable_names = [], w_truncated = False, w_cycle = None,
      w_pending = []\<rparr>"

definition stopped :: "walk \<Rightarrow> bool" where
  "stopped w = (w_truncated w \<or> w_cycle w \<noteq> None)"

definition walk_finish :: "walk \<Rightarrow> listing" where
  "walk_finish w =
     \<lparr>ls_entries = sort_key le_path (w_entries w), ls_unreadable_names = sort (w_unreadable_names w),
      ls_truncated = w_truncated w, ls_cycle = w_cycle w,
      ls_unresolvable_names = sort (w_unresolvable_names w), ls_counted = sum_list (w_counts w)\<rparr>"

text \<open>\<open>count\<close>: the new walk, and whether the entry is within the limit.\<close>

definition count_entry :: "nat \<Rightarrow> walk \<Rightarrow> scan_stop + (walk \<times> bool)" where
  "count_entry counter w =
     (if counter < length (w_counts w) then
        (let c = w_counts w ! counter + 1;
             w' = w\<lparr>w_counts := (w_counts w)[counter := c],
                     w_truncated := (w_truncated w \<or> c > w_max_entries w)\<rparr>
         in Inr (w', \<not> w_truncated w'))
      else Inl StopPanic)"

definition leaf_target :: "bytes \<Rightarrow> raw_kind \<Rightarrow> scan_stop + bytes option" where
  "leaf_target path k =
     (case k of
        RkSymlink None \<Rightarrow> Inl (stop_failure (UnreadableLinkTarget (shown path)))
      | RkSymlink (Some target) \<Rightarrow> Inr (Some target)
      | _ \<Rightarrow> Inr None)"

definition leaf_kind :: "bytes option \<Rightarrow> raw_kind \<Rightarrow> listed_kind" where
  "leaf_kind target k =
     (case target of
        Some t \<Rightarrow> LkSymlink t LpNotDirectory
      | None \<Rightarrow> if k = RkOther then LkOther else LkFile)"

text \<open>The part of \<open>take_leaf_counted\<close> after the entry was counted.\<close>

definition list_leaf ::
  "bytes \<Rightarrow> raw_entry \<Rightarrow> dir_id list \<Rightarrow> nat \<Rightarrow> walk \<Rightarrow> scan_stop + (walk \<times> pending_link option)" where
  "list_leaf path entry ancs counter w =
     res_bind (leaf_target path (re_kind entry)) (\<lambda>target.
       let pend = (\<lambda>l. map_option (\<lambda>_. \<lparr>pl_path = path, pl_ancestors = ancs, pl_counter = counter,
                                        pl_listed = l\<rparr>) target) in
       if is_utf8 path then
         res_bind (listed_entry_of path entry (leaf_kind target (re_kind entry))) (\<lambda>le.
           Inr (w\<lparr>w_entries := w_entries w @ [le]\<rparr>, pend (ListedAt (length (w_entries w)))))
       else
         Inr (w\<lparr>w_unreadable_names := w_unreadable_names w @ [shown path]\<rparr>,
              pend ListedUnreadableName))"

definition take_leaf_counted ::
  "bytes \<Rightarrow> raw_entry \<Rightarrow> dir_id list \<Rightarrow> nat option \<Rightarrow> walk \<Rightarrow> scan_stop + (walk \<times> pending_link option)" where
  "take_leaf_counted path entry ancs counter w =
     (case counter of
        None \<Rightarrow> list_leaf path entry ancs 0 w
      | Some c \<Rightarrow>
          if stopped w then Inr (w, None)
          else
            res_bind (count_entry c w) (\<lambda>(w', within).
              if \<not> within then Inr (w', None) else list_leaf path entry ancs c w'))"

definition take_leaf ::
  "bytes \<Rightarrow> raw_entry \<Rightarrow> dir_id list \<Rightarrow> nat \<Rightarrow> walk \<Rightarrow> scan_stop + (walk \<times> pending_link option)" where
  "take_leaf path entry ancs counter w = take_leaf_counted path entry ancs (Some counter) w"

definition list_directory :: "bytes \<Rightarrow> raw_entry \<Rightarrow> walk \<Rightarrow> scan_stop + walk" where
  "list_directory path entry w =
     (if is_utf8 path then
        res_bind (listed_entry_of path entry LkDirectory) (\<lambda>le. Inr (w\<lparr>w_entries := w_entries w @ [le]\<rparr>))
      else Inr (w\<lparr>w_unreadable_names := w_unreadable_names w @ [shown path]\<rparr>))"

subsection \<open>A subtree\<close>

text \<open>What one item of the subtree does: go on with a walk, or return with it.\<close>

datatype item_step = GoOn walk | Return walk

definition take_entry ::
  "bytes \<Rightarrow> raw_entry \<Rightarrow> dir_id list \<Rightarrow> nat \<Rightarrow> (bytes \<Rightarrow> read_cause option) \<Rightarrow> (bytes \<Rightarrow> dir_id option)
     \<Rightarrow> walk \<Rightarrow> scan_stop + item_step" where
  "take_entry path entry ancs counter unreadable dir_ids w =
     (if re_kind entry = RkDirectory then
        (if re_id entry \<in> set ancs then Inr (Return (w\<lparr>w_cycle := Some (shown path)\<rparr>))
         else
           (case unreadable (re_path entry) of
              Some cause \<Rightarrow> Inl (stop_failure (unreadable_directory path cause))
            | None \<Rightarrow> res_bind (list_directory path entry w) (\<lambda>w'. Inr (GoOn w'))))
      else
        (let chain = (case re_kind entry of
               RkSymlink _ \<Rightarrow> ancs @ parent_ids (re_path entry) dir_ids
             | _ \<Rightarrow> [])
         in
         res_bind (take_leaf path entry chain counter w) (\<lambda>(w', link).
           Inr (GoOn (case link of
              Some l \<Rightarrow> w'\<lparr>w_pending := w_pending w' @ [l]\<rparr>
            | None \<Rightarrow> w')))))"

definition take_item ::
  "(bytes \<Rightarrow> bool) \<Rightarrow> bytes \<Rightarrow> dir_id list \<Rightarrow> nat \<Rightarrow> (bytes \<Rightarrow> read_cause option)
     \<Rightarrow> (bytes \<Rightarrow> dir_id option) \<Rightarrow> bytes \<times> item \<Rightarrow> walk \<Rightarrow> scan_stop + item_step" where
  "take_item ex base ancs counter unreadable dir_ids x w =
     (case x of (rel, i) \<Rightarrow>
       (let path = join_path base rel in
        case i of
          ItemEntry entry \<Rightarrow>
            if re_path entry = [] \<or> ex path then Inr (GoOn w)
            else take_entry path entry ancs counter unreadable dir_ids w
        | ItemChanged \<Rightarrow> if ex path then Inr (GoOn w) else Inl (changed_failure path)
        | ItemUnread cause \<Rightarrow>
            if ex path then Inr (GoOn w)
            else Inl (stop_failure (unreadable_directory (join_path base (parent_of rel)) cause))))"

fun take_items ::
  "(bytes \<Rightarrow> bool) \<Rightarrow> bytes \<Rightarrow> dir_id list \<Rightarrow> nat \<Rightarrow> (bytes \<Rightarrow> read_cause option)
     \<Rightarrow> (bytes \<Rightarrow> dir_id option) \<Rightarrow> (bytes \<times> item) list \<Rightarrow> walk \<Rightarrow> scan_stop + walk" where
  "take_items ex base ancs counter unreadable dir_ids [] w = Inr w"
| "take_items ex base ancs counter unreadable dir_ids (x # xs) w =
     (if stopped w then Inr w
      else
        (case take_item ex base ancs counter unreadable dir_ids x w of
           Inl e \<Rightarrow> Inl e
         | Inr (Return w') \<Rightarrow> Inr w'
         | Inr (GoOn w') \<Rightarrow> take_items ex base ancs counter unreadable dir_ids xs w'))"

definition take_subtree ::
  "(bytes \<Rightarrow> bool) \<Rightarrow> bytes \<Rightarrow> subtree \<Rightarrow> dir_id list \<Rightarrow> nat \<Rightarrow> walk \<Rightarrow> scan_stop + walk" where
  "take_subtree ex base tree ancs counter w =
     (if re_id (tr_start tree) \<in> set ancs then Inr (w\<lparr>w_cycle := Some (shown base)\<rparr>)
      else
        (let unreadable = map_of (rev (map (\<lambda>d. (ud_path d, ud_cause d)) (tr_unreadable tree))) in
         if [] \<in> set (tr_changed tree) then
           (if base = [] then Inl (stop_failure RootChanged) else Inl (changed_failure base))
         else
           (case unreadable [] of
              Some cause \<Rightarrow> Inl (stop_failure (unreadable_directory base cause))
            | None \<Rightarrow>
                (let dir_ids = map_of (rev (([], re_id (tr_start tree)) #
                       map (\<lambda>e. (re_path e, re_id e)) (filter (\<lambda>e. re_kind e = RkDirectory) (tr_entries tree))))
                 in take_items ex base ancs counter unreadable dir_ids (in_path_order tree) w))))"

subsection \<open>Links\<close>

definition set_points_to :: "link_point \<Rightarrow> listed_entry \<Rightarrow> listed_entry" where
  "set_points_to pt le =
     (case le_kind le of LkSymlink target _ \<Rightarrow> le\<lparr>le_kind := LkSymlink target pt\<rparr> | _ \<Rightarrow> le)"

definition point :: "pending_link \<Rightarrow> link_point \<Rightarrow> walk \<Rightarrow> scan_stop + walk" where
  "point link pt w =
     (case pl_listed link of
        ListedAt index \<Rightarrow>
          if index < length (w_entries w)
          then Inr (w\<lparr>w_entries := (w_entries w)[index := set_points_to pt (w_entries w ! index)]\<rparr>)
          else Inl StopPanic
      | _ \<Rightarrow> Inr w)"

definition point_unresolvable :: "pending_link \<Rightarrow> walk \<Rightarrow> scan_stop + walk" where
  "point_unresolvable link w =
     (case pl_listed link of
        ListedStart \<Rightarrow> Inl (stop_failure (UnresolvableLink (shown (pl_path link))))
      | ListedUnreadableName \<Rightarrow>
          Inr (w\<lparr>w_unresolvable_names := w_unresolvable_names w @ [shown (pl_path link)]\<rparr>)
      | ListedAt _ \<Rightarrow> point link LpUnresolvable w)"

definition point_link :: "pending_link \<Rightarrow> answer \<Rightarrow> walk \<Rightarrow> scan_stop + walk" where
  "point_link link ans w =
     (case an_link ans of
        Some LtDirectory \<Rightarrow> point link LpDirectory w
      | Some LtMissing \<Rightarrow> point link LpMissing w
      | Some LtOther \<Rightarrow> point link LpOther w
      | Some LtNotDirectory \<Rightarrow> Inr w
      | Some LtUnresolvable \<Rightarrow> point_unresolvable link w
      | None \<Rightarrow> Inl (changed_failure (pl_path link)))"

definition take_link :: "(bytes \<Rightarrow> bool) \<Rightarrow> pending_link \<Rightarrow> answer \<Rightarrow> walk \<Rightarrow> scan_stop + walk" where
  "take_link ex link ans w =
     res_bind (point_link link ans w) (\<lambda>w'.
       if an_link ans \<noteq> Some LtDirectory then Inr w'
       else
         (case an_subtree ans of
            None \<Rightarrow> Inl (changed_failure (pl_path link))
          | Some tree \<Rightarrow> take_subtree ex (pl_path link) tree (pl_ancestors link) (pl_counter link) w'))"

end
