(* ===== verification/ScanDrive.thy ===== *)
theory ScanDrive
  imports ScanWalk
begin

text \<open>
  The drive of a scan (\<open>scan/start_paths.rs\<close>, \<open>scan/start_take.rs\<close>, \<open>scan/drive.rs\<close> and
  \<open>scan/children.rs\<close> of remote-merge-core): the starts are put in order, asked for in one round, and
  the symlinks found are asked for round by round until none is left or the scan has stopped.

  Every round counts the symlinks it makes wait, so the room left under the limit shrinks; that is
  the termination of the loop of rounds.
\<close>

subsection \<open>Room under the limit\<close>

definition room :: "walk \<Rightarrow> nat" where
  "room w = sum_list (map (\<lambda>c. w_max_entries w + 1 - c) (w_counts w))"

text \<open>The waiting symlinks and the room together never grow, and neither does the room.\<close>

definition shrinks :: "walk \<Rightarrow> walk \<Rightarrow> bool" where
  "shrinks w w' \<longleftrightarrow> room w' \<le> room w
     \<and> length (w_pending w') + room w' \<le> length (w_pending w) + room w"

lemma shrinks_refl [simp]: "shrinks w w"
  by (simp add: shrinks_def)

lemma shrinks_trans: "shrinks a b \<Longrightarrow> shrinks b c \<Longrightarrow> shrinks a c"
  by (simp add: shrinks_def)

lemma shrinks_same: "w_counts w' = w_counts w \<Longrightarrow> w_max_entries w' = w_max_entries w \<Longrightarrow>
    w_pending w' = w_pending w \<Longrightarrow> shrinks w w'"
  by (simp add: shrinks_def room_def)

lemma sum_list_update_nat:
  "i < length xs \<Longrightarrow> sum_list (xs[i := y]) + xs ! i = sum_list xs + (y :: nat)"
proof (induction xs arbitrary: i)
  case (Cons x xs)
  show ?case
  proof (cases i)
    case (Suc j)
    then show ?thesis using Cons.IH[of j] Cons.prems by simp
  qed simp
qed simp

lemma room_count:
  assumes "count_entry counter w = Inr (w', within)"
  shows "w_pending w' = w_pending w \<and> room w' + (if within then 1 else 0) \<le> room w"
proof -
  let ?f = "\<lambda>c. w_max_entries w + 1 - c"
  from assms have i: "counter < length (w_counts w)"
    and w': "w' = w\<lparr>w_counts := (w_counts w)[counter := w_counts w ! counter + 1],
       w_truncated := (w_truncated w \<or> w_counts w ! counter + 1 > w_max_entries w)\<rparr>"
    and within: "within = (\<not> w_truncated w')"
    by (auto simp: count_entry_def Let_def split: if_splits)
  have "room w' + ?f (w_counts w ! counter) = room w + ?f (w_counts w ! counter + 1)"
    using sum_list_update_nat[of counter "map ?f (w_counts w)" "?f (w_counts w ! counter + 1)"] i
    by (simp add: room_def w' map_update)
  moreover have "within \<Longrightarrow> w_counts w ! counter + 1 \<le> w_max_entries w" using within w' by simp
  ultimately show ?thesis using w' by auto
qed

lemma list_leaf_room:
  assumes "list_leaf path entry ancs c w = Inr (w', l)"
  shows "w_pending w' = w_pending w \<and> room w' = room w"
  using assms by (auto simp: list_leaf_def Let_def res_simps room_def split: if_splits)

lemma take_leaf_room:
  assumes "take_leaf path entry ancs c w = Inr (w', l)"
  shows "w_pending w' = w_pending w \<and> room w' + (if l = None then 0 else 1) \<le> room w"
proof (cases "stopped w")
  case True
  then show ?thesis using assms by (auto simp: take_leaf_def take_leaf_counted_def)
next
  case False
  then obtain w1 within where c: "count_entry c w = Inr (w1, within)"
    "(if \<not> within then Inr (w1, None) else list_leaf path entry ancs c w1) = Inr (w', l)"
    using assms by (auto simp: take_leaf_def take_leaf_counted_def res_simps)
  then show ?thesis using room_count[OF c(1)] list_leaf_room[of path entry ancs c w1 w' l]
    by (cases within) auto
qed

lemma list_directory_room:
  "list_directory path entry w = Inr w' \<Longrightarrow> shrinks w w'"
  by (auto simp: list_directory_def res_simps intro!: shrinks_same split: if_splits)

lemma take_entry_room:
  assumes "take_entry path entry ancs counter unreadable dir_ids w = Inr s"
  shows "case s of GoOn w' \<Rightarrow> shrinks w w' | Return w' \<Rightarrow> shrinks w w'"
proof (cases "re_kind entry = RkDirectory")
  case True
  then show ?thesis using assms
    by (auto simp: take_entry_def res_simps intro!: shrinks_same dest: list_directory_room
        split: if_splits option.splits)
next
  case False
  then obtain chain w' l where t: "take_leaf path entry chain counter w = Inr (w', l)"
    and s: "s = GoOn (case l of Some l \<Rightarrow> w'\<lparr>w_pending := w_pending w' @ [l]\<rparr> | None \<Rightarrow> w')"
    using assms by (auto simp: take_entry_def res_simps Let_def)
  then show ?thesis using take_leaf_room[OF t] by (cases l) (auto simp: shrinks_def room_def)
qed

lemma take_item_room:
  assumes "take_item ex base ancs counter unreadable dir_ids x w = Inr s"
  shows "case s of GoOn w' \<Rightarrow> shrinks w w' | Return w' \<Rightarrow> shrinks w w'"
  using assms take_entry_room
  by (auto simp: take_item_def Let_def split: prod.splits item.splits if_splits)

lemma take_items_room:
  "take_items ex base ancs counter unreadable dir_ids xs w = Inr w' \<Longrightarrow> shrinks w w'"
proof (induction xs arbitrary: w)
  case (Cons x xs)
  show ?case
  proof (cases "stopped w")
    case False
    with Cons.prems obtain s where s: "take_item ex base ancs counter unreadable dir_ids x w = Inr s"
      by (cases "take_item ex base ancs counter unreadable dir_ids x w") auto
    show ?thesis using take_item_room[OF s] Cons False s shrinks_trans by (cases s) auto
  qed (use Cons.prems in simp)
qed simp

lemma take_subtree_room: "take_subtree ex base tree ancs counter w = Inr w' \<Longrightarrow> shrinks w w'"
  by (auto simp: take_subtree_def Let_def dest: take_items_room intro: shrinks_same
      split: if_splits option.splits)

lemma point_room: "point link pt w = Inr w' \<Longrightarrow> shrinks w w'"
  by (auto simp: point_def intro!: shrinks_same split: listed_at.splits if_splits)

lemma point_link_room: "point_link link ans w = Inr w' \<Longrightarrow> shrinks w w'"
  by (auto simp: point_link_def point_unresolvable_def dest: point_room intro: shrinks_same
      split: option.splits link_target.splits listed_at.splits)

lemma take_link_room: "take_link ex link ans w = Inr w' \<Longrightarrow> shrinks w w'"
  using point_link_room take_subtree_room shrinks_trans
  by (fastforce simp: take_link_def res_simps split: if_splits option.splits)

text \<open>The loop over the symlinks of one round.\<close>

definition take_links ::
  "(bytes \<Rightarrow> bool) \<Rightarrow> (pending_link \<times> answer) list \<Rightarrow> walk \<Rightarrow> scan_stop + walk" where
  "take_links ex xs w = res_fold (\<lambda>w (link, ans). take_link ex link ans w) w xs"

lemma take_links_room: "take_links ex xs w = Inr w' \<Longrightarrow> shrinks w w'"
  unfolding take_links_def
  by (erule res_fold_invariant[where P = "shrinks w"]) (auto dest: take_link_room shrinks_trans)

subsection \<open>Starts\<close>

record start_path =
  sp_path :: bytes
  sp_with_self :: bool
  sp_descend :: bool
  sp_group :: nat
  sp_excluded :: bool

definition start_path_of :: "start \<Rightarrow> start_path" where
  "start_path_of s = \<lparr>sp_path = normalized (st_path s), sp_with_self = st_with_self s,
     sp_descend = st_descend s, sp_group = st_group s, sp_excluded = False\<rparr>"

text \<open>The loop over the sorted starts: what is kept and the paths that are descended into.\<close>

definition keep_start ::
  "(bytes \<Rightarrow> bool) \<Rightarrow> start_path \<Rightarrow> start_path list \<times> bytes list \<Rightarrow> start_path list \<times> bytes list" where
  "keep_start ex s st =
     (case st of (kept, descending) \<Rightarrow>
       (let covered = (sp_path s \<in> set descending
              \<or> (\<exists>p \<in> set (parent_prefixes (sp_path s)). p \<in> set descending)) in
        if covered then (kept, descending)
        else
          (let itself = (sp_with_self s \<and> \<not> sp_descend s) in
           if itself \<or> \<not> ex (sp_path s) then
             (kept @ [s], if sp_descend s then sp_path s # descending else descending)
           else if \<not> sp_with_self s then
             (kept @ [s\<lparr>sp_descend := False, sp_excluded := True\<rparr>], descending)
           else (kept, descending))))"

definition start_paths :: "(bytes \<Rightarrow> bool) \<Rightarrow> start list \<Rightarrow> bool \<times> start_path list" where
  "start_paths ex starts =
     (let normal = map start_path_of starts in
      if \<exists>s \<in> set normal. sp_path s = [] then (True, [])
      else
        (False,
         fst (fold (keep_start ex)
           (sort_key (\<lambda>s. (sp_path s, \<not> sp_descend s, \<not> sp_with_self s)) normal) ([], []))))"

definition missing_subtree :: scan_stop where
  "missing_subtree = stop_failure (InconsistentAnswer ''no entries below a directory'')"

text \<open>The path of a start came from a string, so \<open>from_utf8_lossy\<close> gives it back as it is.\<close>

definition unreached_start :: "bytes \<Rightarrow> unreached \<Rightarrow> walk \<Rightarrow> scan_stop + walk" where
  "unreached_start path why w =
     (case why of
        UrMissing \<Rightarrow> Inr w
      | UrNotDirectory \<Rightarrow> Inl (stop_failure (StartBlocked path))
      | UrUnreadable c \<Rightarrow> Inl (stop_failure (StartUnreadable path c)))"

definition take_value ::
  "(bytes \<Rightarrow> bool) \<Rightarrow> bytes \<Rightarrow> answer \<Rightarrow> dir_id \<Rightarrow> nat \<Rightarrow> walk \<Rightarrow> scan_stop + walk" where
  "take_value ex path ans root counter w =
     (case an_entry ans of
        Inl why \<Rightarrow> unreached_start path why w
      | Inr entry \<Rightarrow>
          if re_kind entry = RkDirectory then
            (case an_subtree ans of
               None \<Rightarrow> Inl missing_subtree
             | Some tree \<Rightarrow> take_subtree ex path tree [root] counter w)
          else
            res_bind (take_leaf path entry [root] counter w) (\<lambda>(w', l).
              case l of Some link \<Rightarrow> take_link ex link ans w' | None \<Rightarrow> Inr w'))"

definition take_itself ::
  "bytes \<Rightarrow> answer \<Rightarrow> dir_id \<Rightarrow> nat \<Rightarrow> walk \<Rightarrow> scan_stop + walk" where
  "take_itself path ans root counter w =
     (case an_entry ans of
        Inl why \<Rightarrow> unreached_start path why w
      | Inr entry \<Rightarrow>
          if re_kind entry = RkDirectory then list_directory path entry w
          else
            (let container = (an_link ans = Some LtDirectory) in
             res_bind (take_leaf_counted path entry [root] (if container then None else Some counter) w)
               (\<lambda>(w', l). case l of Some link \<Rightarrow> point_link link ans w' | None \<Rightarrow> Inr w')))"

definition take_below ::
  "(bytes \<Rightarrow> bool) \<Rightarrow> start_path \<Rightarrow> answer \<Rightarrow> dir_id \<Rightarrow> walk \<Rightarrow> scan_stop + walk" where
  "take_below ex s ans root w =
     (let path = sp_path s in
      case an_entry ans of
        Inl why \<Rightarrow> if sp_excluded s then Inr w else unreached_start path why w
      | Inr entry \<Rightarrow>
          (let into = res_bind
                 (list_directory path (case an_subtree ans of Some tree \<Rightarrow> tr_start tree | None \<Rightarrow> entry) w)
                 (\<lambda>w'. case (sp_descend s, an_subtree ans) of
                    (False, _) \<Rightarrow> Inr w'
                  | (True, Some tree) \<Rightarrow> take_subtree ex path tree [root] (sp_group s) w'
                  | (True, None) \<Rightarrow> Inl missing_subtree)
           in
           case re_kind entry of
             RkDirectory \<Rightarrow> into
           | RkSymlink _ \<Rightarrow>
               if an_link ans \<noteq> Some LtDirectory then
                 (if sp_excluded s then Inr w
                  else take_link ex (pending_link_new path [root] (sp_group s)) ans w)
               else into
           | _ \<Rightarrow> Inr w))"

definition take_start ::
  "(bytes \<Rightarrow> bool) \<Rightarrow> dir_id \<Rightarrow> walk \<Rightarrow> start_path \<times> answer \<Rightarrow> scan_stop + walk" where
  "take_start ex root w x =
     (case x of (s, ans) \<Rightarrow>
       if sp_with_self s \<and> \<not> sp_descend s then take_itself (sp_path s) ans root (sp_group s) w
       else if sp_with_self s then take_value ex (sp_path s) ans root (sp_group s) w
       else take_below ex s ans root w)"

subsection \<open>The drive\<close>

definition ask ::
  "'s collector \<Rightarrow> question list \<Rightarrow> exclude \<Rightarrow> 's \<Rightarrow> (scan_stop + answer list) \<times> 's" where
  "ask coll questions e s =
     (case coll s questions e of
        (Inl err, s') \<Rightarrow> (Inl (StopError (scan_error_of_collect err)), s')
      | (Inr answers, s') \<Rightarrow>
          if length answers \<noteq> length questions then
            (Inl (stop_failure (InconsistentAnswer
               (show_nat (length answers) @ '' answers for '' @ show_nat (length questions) @ '' questions''))), s')
          else (Inr answers, s'))"

definition root_identity :: "answer \<Rightarrow> scan_stop + dir_id" where
  "root_identity ans =
     (case an_entry ans of
        Inl UrMissing \<Rightarrow> Inl (stop_failure RootMissing)
      | Inl UrNotDirectory \<Rightarrow> Inl (stop_failure RootNotDirectory)
      | Inl (UrUnreadable c) \<Rightarrow> Inl (stop_failure (RootUnreadable c))
      | Inr entry \<Rightarrow>
          if re_kind entry = RkDirectory then Inr (re_id entry) else Inl (stop_failure RootNotDirectory))"

definition link_questions :: "depth \<Rightarrow> pending_link list \<Rightarrow> question list" where
  "link_questions d links = map (\<lambda>l. \<lparr>q_path = pl_path l, q_depth = d\<rparr>) links"

function pending_loop ::
  "'s collector \<Rightarrow> (bytes \<Rightarrow> bool) \<Rightarrow> exclude \<Rightarrow> walk \<Rightarrow> 's \<Rightarrow> (scan_stop + walk) \<times> 's" where
  "pending_loop coll ex e w s =
     (if w_pending w = [] \<or> stopped w then (Inr w, s)
      else
        (case ask coll (link_questions DepthAll (w_pending w)) e s of
           (Inl err, s') \<Rightarrow> (Inl err, s')
         | (Inr answers, s') \<Rightarrow>
             (case take_links ex (zip (w_pending w) answers) (w\<lparr>w_pending := []\<rparr>) of
                Inl err \<Rightarrow> (Inl err, s')
              | Inr w' \<Rightarrow> pending_loop coll ex e w' s')))"
  by pat_completeness auto
termination
proof (relation "inv_image (less_than <*lex*> less_than)
    (\<lambda>(_, _, _, w, _). (room w, length (w_pending w)))", goal_cases)
  case (2 coll ex e w s r s' answers w')
  then have "shrinks (w\<lparr>w_pending := []\<rparr>) w'" by (intro take_links_room) auto
  then show ?case using 2(1) by (cases "w_pending w'") (auto simp: shrinks_def room_def)
qed (auto intro!: wf_inv_image)

declare pending_loop.simps [simp del]

definition scan_starts ::
  "'s collector \<Rightarrow> (bytes \<Rightarrow> bool) \<Rightarrow> exclude \<Rightarrow> nat \<Rightarrow> bool \<Rightarrow> start_path list \<Rightarrow> 's
     \<Rightarrow> (scan_stop + listing) \<times> 's" where
  "scan_starts coll ex e max_entries whole starts s =
     (let counters = foldr max (map (\<lambda>st. sp_group st + 1) starts) 1;
          questions = \<lparr>q_path = [], q_depth = (if whole then DepthAll else DepthItself)\<rparr> #
            map (\<lambda>st. \<lparr>q_path = sp_path st, q_depth = (if sp_descend st then DepthAll else DepthItself)\<rparr>) starts
      in
      (case ask coll questions e s of
         (Inl err, s') \<Rightarrow> (Inl err, s')
       | (Inr [], s') \<Rightarrow> (Inl StopPanic, s')
       | (Inr (root_answer # answers), s') \<Rightarrow>
           (case res_bind (root_identity root_answer) (\<lambda>root_id.
                   res_bind
                     (if whole then
                        (case an_subtree root_answer of
                           None \<Rightarrow> Inl missing_subtree
                         | Some tree \<Rightarrow> take_subtree ex [] tree [] 0 (walk_new max_entries counters))
                      else Inr (walk_new max_entries counters))
                     (\<lambda>w. res_fold (take_start ex root_id) w (zip starts answers))) of
              Inl err \<Rightarrow> (Inl err, s')
            | Inr w \<Rightarrow>
                (case pending_loop coll ex e w s' of
                   (Inl err, s'') \<Rightarrow> (Inl err, s'')
                 | (Inr w', s'') \<Rightarrow> (Inr (walk_finish w'), s'')))))"

subsection \<open>The listing of children\<close>

definition take_directory :: "(bytes \<Rightarrow> bool) \<Rightarrow> bytes \<Rightarrow> answer \<Rightarrow> walk \<Rightarrow> scan_stop + walk" where
  "take_directory ex path ans w =
     (case an_entry ans of
        Inl why \<Rightarrow> unreached_start path why w
      | Inr entry \<Rightarrow>
          (let into = (case an_subtree ans of
                 None \<Rightarrow> Inl missing_subtree
               | Some tree \<Rightarrow>
                   res_bind (list_directory path (tr_start tree) w) (take_subtree ex path tree [] 0))
           in
           case re_kind entry of
             RkDirectory \<Rightarrow> into
           | RkSymlink _ \<Rightarrow>
               if an_link ans = Some LtDirectory then into
               else point_link (pending_link_new path [] 0) ans w
           | _ \<Rightarrow> Inr w))"

definition point_links :: "(pending_link \<times> answer) list \<Rightarrow> walk \<Rightarrow> scan_stop + walk" where
  "point_links xs w = res_fold (\<lambda>w (link, ans). point_link link ans w) w xs"

lemma point_links_room: "point_links xs w = Inr w' \<Longrightarrow> shrinks w w'"
  unfolding point_links_def
  by (erule res_fold_invariant[where P = "shrinks w"]) (auto dest: point_link_room shrinks_trans)

function children_loop ::
  "'s collector \<Rightarrow> exclude \<Rightarrow> walk \<Rightarrow> 's \<Rightarrow> (scan_stop + walk) \<times> 's" where
  "children_loop coll e w s =
     (if w_pending w = [] \<or> stopped w then (Inr w, s)
      else
        (case ask coll (link_questions DepthItself (w_pending w)) e s of
           (Inl err, s') \<Rightarrow> (Inl err, s')
         | (Inr answers, s') \<Rightarrow>
             (case point_links (zip (w_pending w) answers) (w\<lparr>w_pending := []\<rparr>) of
                Inl err \<Rightarrow> (Inl err, s')
              | Inr w' \<Rightarrow> children_loop coll e w' s')))"
  by pat_completeness auto
termination
proof (relation "inv_image (less_than <*lex*> less_than)
    (\<lambda>(_, _, w, _). (room w, length (w_pending w)))", goal_cases)
  case (2 coll e w s r s' answers w')
  then have "shrinks (w\<lparr>w_pending := []\<rparr>) w'" by (intro point_links_room) auto
  then show ?case using 2(1) by (cases "w_pending w'") (auto simp: shrinks_def room_def)
qed (auto intro!: wf_inv_image)

declare children_loop.simps [simp del]

definition scan_children ::
  "'s collector \<Rightarrow> (bytes \<Rightarrow> bool) \<Rightarrow> exclude \<Rightarrow> string \<Rightarrow> nat \<Rightarrow> 's \<Rightarrow> (scan_stop + listing) \<times> 's" where
  "scan_children coll ex e typed_path max_entries s =
     (let path = normalized typed_path;
          questions = \<lparr>q_path = [], q_depth = (if path = [] then DepthChildren else DepthItself)\<rparr> #
            (if path = [] then [] else [\<lparr>q_path = path, q_depth = DepthChildren\<rparr>])
      in
      (case ask coll questions e s of
         (Inl err, s') \<Rightarrow> (Inl err, s')
       | (Inr [], s') \<Rightarrow> (Inl StopPanic, s')
       | (Inr (root_answer # answers), s') \<Rightarrow>
           (case res_bind (root_identity root_answer) (\<lambda>_.
                   if path = [] then
                     (case an_subtree root_answer of
                        None \<Rightarrow> Inl missing_subtree
                      | Some tree \<Rightarrow> take_subtree ex [] tree [] 0 (walk_new max_entries 1))
                   else
                     (case answers of
                        [] \<Rightarrow> Inl StopPanic
                      | ans # _ \<Rightarrow> take_directory ex path ans (walk_new max_entries 1))) of
              Inl err \<Rightarrow> (Inl err, s')
            | Inr w \<Rightarrow>
                (case children_loop coll e w s' of
                   (Inl err, s'') \<Rightarrow> (Inl err, s'')
                 | (Inr w', s'') \<Rightarrow> (Inr (walk_finish w'), s'')))))"

datatype children_listing = Children "listed_entry list" | ChildrenNotDirectory | Unlistable string

definition children_in :: "listing \<Rightarrow> string \<Rightarrow> children_listing" where
  "children_in l typed_path =
     (let path = normalized typed_path;
          is_directory = (case find (\<lambda>e. le_path e = path) (ls_entries l) of
              Some e \<Rightarrow>
                (case le_kind e of
                   LkDirectory \<Rightarrow> True
                 | LkSymlink _ LpDirectory \<Rightarrow> True
                 | _ \<Rightarrow> False)
            | None \<Rightarrow> False)
      in
      if path \<noteq> [] \<and> \<not> is_directory then ChildrenNotDirectory
      else
        (let start = (if path = [] then [] else path @ ''/'') in
         Children (filter (\<lambda>e.
           (case strip_prefix start (le_path e) of
              Some name \<Rightarrow> name \<noteq> [] \<and> CHR ''/'' \<notin> set name
            | None \<Rightarrow> False)) (ls_entries l))))"

datatype listing_failure = LfNotDirectory | LfUnlistable | LfStop

fun listing_failure_of :: "scan_failure \<Rightarrow> listing_failure" where
  "listing_failure_of (StartBlocked _) = LfNotDirectory"
| "listing_failure_of (UnreadableDirectory _ _) = LfUnlistable"
| "listing_failure_of (StartUnreadable _ _) = LfUnlistable"
| "listing_failure_of (UnresolvableLink _) = LfUnlistable"
| "listing_failure_of (ChangedDuringScan _) = LfUnlistable"
| "listing_failure_of _ = LfStop"

text \<open>\<open>scan\<close> itself: the scope decides the starts.\<close>

definition scan ::
  "glob \<Rightarrow> 's collector \<Rightarrow> exclude \<Rightarrow> scan_request \<Rightarrow> 's \<Rightarrow> (scan_stop + listing) \<times> 's" where
  "scan glob coll e request s =
     (let ex = excludes glob e in
      case sr_scope request of
        ScopeWhole \<Rightarrow> scan_starts coll ex e (sr_max_entries request) True [] s
      | ScopeStarts starts \<Rightarrow>
          (case start_paths ex starts of (whole, sps) \<Rightarrow>
             scan_starts coll ex e (sr_max_entries request) whole sps s)
      | ScopeChildren path \<Rightarrow> scan_children coll ex e path (sr_max_entries request) s)"

end
