(* ===== verification/ScanProps.thy ===== *)
theory ScanProps
  imports ScanDrive "HOL-Library.Multiset"
begin

text \<open>
  What a scan promises of its listing: it never panics, lists nothing that exclude removes, keeps
  the limit on the number of entries, and orders what it lists.
\<close>

subsection \<open>The invariant of a walk\<close>

definition leaves :: "walk \<Rightarrow> nat" where
  "leaves w = length (filter (\<lambda>e. le_kind e \<noteq> LkDirectory) (w_entries w))"

definition counted_within :: "walk \<Rightarrow> nat" where
  "counted_within w = sum_list (map (\<lambda>c. min c (w_max_entries w)) (w_counts w))"

definition link_ok :: "(bytes \<Rightarrow> bool) \<Rightarrow> bytes set \<Rightarrow> nat \<Rightarrow> nat \<Rightarrow> pending_link \<Rightarrow> bool" where
  "link_ok ex S n m l \<longleftrightarrow> pl_counter l < n
     \<and> (case pl_listed l of ListedAt i \<Rightarrow> i < m | _ \<Rightarrow> True)"

text \<open>\<open>S\<close> are the paths that may be listed although exclude removes them, \<open>n\<close> is the number of
  counters, \<open>N\<close> the limit, and \<open>k\<close> bounds the symlinks that were listed without being counted.\<close>

definition walk_ok :: "(bytes \<Rightarrow> bool) \<Rightarrow> bytes set \<Rightarrow> nat \<Rightarrow> nat \<Rightarrow> nat \<Rightarrow> walk \<Rightarrow> bool" where
  "walk_ok ex S n N k w \<longleftrightarrow> length (w_counts w) = n \<and> w_max_entries w = N
     \<and> (\<forall>e \<in> set (w_entries w). \<not> ex (le_path e) \<or> le_path e \<in> S)
     \<and> (\<forall>l \<in> set (w_pending w). link_ok ex S n (length (w_entries w)) l)
     \<and> (w_truncated w \<or> (\<forall>c \<in> set (w_counts w). c \<le> N))
     \<and> leaves w \<le> counted_within w + k"

text \<open>A result that is fine: not a panic, and the new walk is.\<close>

definition fine :: "(walk \<Rightarrow> bool) \<Rightarrow> scan_stop + walk \<Rightarrow> bool" where
  "fine P r \<longleftrightarrow> (case r of Inl e \<Rightarrow> e \<noteq> StopPanic | Inr w \<Rightarrow> P w)"

lemma fine_simps [simp]: "fine P (Inl e) \<longleftrightarrow> e \<noteq> StopPanic" "fine P (Inr w) \<longleftrightarrow> P w"
  by (simp_all add: fine_def)

lemma fine_bind: "fine P r \<Longrightarrow> (\<And>w. P w \<Longrightarrow> fine Q (f w)) \<Longrightarrow> fine Q (res_bind r f)"
  by (cases r) auto

lemma fine_mono: "fine P r \<Longrightarrow> (\<And>w. P w \<Longrightarrow> Q w) \<Longrightarrow> fine Q r"
  by (cases r) auto

lemma fine_fold:
  assumes "P w" "\<And>w x. x \<in> set xs \<Longrightarrow> P w \<Longrightarrow> fine P (f w x)"
  shows "fine P (res_fold f w xs)"
  using assms
proof (induction xs arbitrary: w)
  case (Cons x xs)
  have "fine P (f w x)" using Cons.prems by simp
  then show ?case using Cons by (cases "f w x") auto
qed simp

lemma walk_ok_mono: "walk_ok ex S n N k w \<Longrightarrow> k \<le> k' \<Longrightarrow> S \<subseteq> S' \<Longrightarrow> walk_ok ex S' n N k' w"
  by (auto simp: walk_ok_def link_ok_def)

lemma walk_ok_new: "walk_ok ex S (max n 1) N 0 (walk_new N n)"
  by (simp add: walk_ok_def walk_new_def leaves_def)

lemma walk_ok_cycle [simp]: "walk_ok ex S n N k (w\<lparr>w_cycle := c\<rparr>) = walk_ok ex S n N k w"
  by (simp add: walk_ok_def leaves_def counted_within_def)

lemma walk_ok_names [simp]:
  "walk_ok ex S n N k (w\<lparr>w_unreadable_names := u\<rparr>) = walk_ok ex S n N k w"
  "walk_ok ex S n N k (w\<lparr>w_unresolvable_names := u\<rparr>) = walk_ok ex S n N k w"
  by (simp_all add: walk_ok_def leaves_def counted_within_def)

lemma counted_within_update:
  assumes "i < length (w_counts w)"
  shows "counted_within (w\<lparr>w_counts := (w_counts w)[i := w_counts w ! i + 1], w_truncated := t\<rparr>) =
    counted_within w + (if w_counts w ! i < w_max_entries w then 1 else 0)"
proof -
  let ?f = "\<lambda>c. min c (w_max_entries w)"
  have "sum_list (map ?f ((w_counts w)[i := w_counts w ! i + 1])) + ?f (w_counts w ! i) =
      sum_list (map ?f (w_counts w)) + ?f (w_counts w ! i + 1)"
    using sum_list_update_nat[of i "map ?f (w_counts w)" "?f (w_counts w ! i + 1)"] assms
    by (simp add: map_update)
  then show ?thesis by (auto simp: counted_within_def)
qed

text \<open>Counting: afterwards there is place for one more leaf when it is within the limit.\<close>

lemma count_entry_ok:
  assumes "walk_ok ex S n N k w" "c < n" "\<not> stopped w"
  shows "\<exists>w' within. count_entry c w = Inr (w', within) \<and> walk_ok ex S n N k w'
    \<and> (within \<longrightarrow> leaves w' + 1 \<le> counted_within w' + k)"
proof -
  let ?w = "w\<lparr>w_counts := (w_counts w)[c := w_counts w ! c + 1],
              w_truncated := (w_truncated w \<or> w_counts w ! c + 1 > w_max_entries w)\<rparr>"
  have c: "c < length (w_counts w)" using assms by (simp add: walk_ok_def)
  have "count_entry c w = Inr (?w, \<not> w_truncated ?w)" using c by (simp add: count_entry_def Let_def)
  moreover have "walk_ok ex S n N k ?w"
  proof -
    have "w_truncated ?w \<or> (\<forall>d \<in> set (w_counts ?w). d \<le> N)"
      using assms(1) set_update_subset_insert[of "w_counts w" c "w_counts w ! c + 1"]
      by (auto simp: walk_ok_def)
    moreover have "leaves ?w \<le> counted_within ?w + k"
      using assms(1) counted_within_update[OF c] by (simp add: walk_ok_def leaves_def)
    ultimately show ?thesis using assms(1) by (simp add: walk_ok_def)
  qed
  moreover have "\<not> w_truncated ?w \<longrightarrow> leaves ?w + 1 \<le> counted_within ?w + k"
    using assms(1) counted_within_update[OF c] by (auto simp: walk_ok_def leaves_def)
  ultimately show ?thesis by blast
qed

lemma listed_entry_of_path:
  "listed_entry_of path entry kd = Inr le \<Longrightarrow> le_path le = path \<and> le_kind le = kd"
  by (auto simp: listed_entry_of_def split: raw_time.splits)

lemma listed_entry_of_no_panic: "listed_entry_of path entry kd \<noteq> Inl StopPanic"
  by (simp add: listed_entry_of_def split: raw_time.splits)

text \<open>Listing an entry that is a directory, or a leaf for which there is place.\<close>

lemma walk_ok_add:
  assumes "walk_ok ex S n N k w" "\<not> ex (le_path le) \<or> le_path le \<in> S"
    "le_kind le \<noteq> LkDirectory \<Longrightarrow> leaves w + 1 \<le> counted_within w + k"
  shows "walk_ok ex S n N k (w\<lparr>w_entries := w_entries w @ [le]\<rparr>)"
proof -
  have "\<forall>l \<in> set (w_pending w). link_ok ex S n (length (w_entries w) + 1) l"
    using assms(1) by (auto simp: walk_ok_def link_ok_def split: listed_at.splits)
  then show ?thesis using assms by (auto simp: walk_ok_def leaves_def counted_within_def)
qed

lemma list_directory_ok:
  assumes "walk_ok ex S n N k w" "\<not> ex path \<or> path \<in> S"
  shows "fine (walk_ok ex S n N k) (list_directory path entry w)"
proof (cases "listed_entry_of path entry LkDirectory")
  case (Inl e)
  then show ?thesis using assms(1) listed_entry_of_no_panic by (auto simp: list_directory_def)
next
  case (Inr le)
  then have "le_path le = path" "le_kind le = LkDirectory" using listed_entry_of_path by blast+
  then show ?thesis using Inr assms walk_ok_add[OF assms(1), of le] by (simp add: list_directory_def)
qed

text \<open>Leaves: a fine result with the link that waits.\<close>

definition fine_leaf ::
  "(bytes \<Rightarrow> bool) \<Rightarrow> bytes set \<Rightarrow> nat \<Rightarrow> nat \<Rightarrow> nat \<Rightarrow> scan_stop + (walk \<times> pending_link option) \<Rightarrow> bool" where
  "fine_leaf ex S n N k r \<longleftrightarrow>
     (case r of
        Inl e \<Rightarrow> e \<noteq> StopPanic
      | Inr (w', l) \<Rightarrow> walk_ok ex S n N k w'
          \<and> (case l of Some link \<Rightarrow> link_ok ex S n (length (w_entries w')) link | None \<Rightarrow> True))"

lemma list_leaf_ok:
  assumes "walk_ok ex S n N k w" "\<not> ex path \<or> path \<in> S" "c < n"
    "leaves w + 1 \<le> counted_within w + k"
  shows "fine_leaf ex S n N k (list_leaf path entry ancs c w)"
proof (cases "leaf_target path (re_kind entry)")
  case (Inl e)
  then have "e \<noteq> StopPanic" by (auto simp: leaf_target_def split: raw_kind.splits option.splits)
  then show ?thesis using Inl by (simp add: list_leaf_def fine_leaf_def)
next
  case (Inr target)
  show ?thesis
  proof (cases "is_utf8 path")
    case False
    then show ?thesis using Inr assms
      by (cases target) (auto simp: list_leaf_def fine_leaf_def link_ok_def)
  next
    case True
    let ?kd = "leaf_kind target (re_kind entry)"
    show ?thesis
    proof (cases "listed_entry_of path entry ?kd")
      case (Inl e)
      then show ?thesis using Inr True listed_entry_of_no_panic[of path entry ?kd]
        by (auto simp: list_leaf_def fine_leaf_def)
    next
      case le: (Inr le)
      then have "walk_ok ex S n N k (w\<lparr>w_entries := w_entries w @ [le]\<rparr>)"
        using walk_ok_add[OF assms(1)] listed_entry_of_path[OF le] assms(2,4) by simp
      then show ?thesis using Inr True le assms(3)
        by (cases target) (auto simp: list_leaf_def fine_leaf_def link_ok_def)
    qed
  qed
qed

lemma take_leaf_ok:
  assumes "walk_ok ex S n N k w" "\<not> ex path \<or> path \<in> S" "c < n"
  shows "fine_leaf ex S n N k (take_leaf path entry ancs c w)"
proof (cases "stopped w")
  case True
  then show ?thesis using assms by (simp add: take_leaf_def take_leaf_counted_def fine_leaf_def)
next
  case False
  obtain w' within where c: "count_entry c w = Inr (w', within)" "walk_ok ex S n N k w'"
    "within \<longrightarrow> leaves w' + 1 \<le> counted_within w' + k"
    using count_entry_ok[OF assms(1,3) False] by blast
  then show ?thesis using False list_leaf_ok[OF c(2) assms(2,3)]
    by (cases within) (auto simp: take_leaf_def take_leaf_counted_def fine_leaf_def)
qed

subsection \<open>Subtrees and links\<close>

definition fine_step :: "(walk \<Rightarrow> bool) \<Rightarrow> scan_stop + item_step \<Rightarrow> bool" where
  "fine_step P r \<longleftrightarrow>
     (case r of Inl e \<Rightarrow> e \<noteq> StopPanic | Inr (GoOn w) \<Rightarrow> P w | Inr (Return w) \<Rightarrow> P w)"

lemma take_entry_ok:
  assumes "walk_ok ex S n N k w" "\<not> ex path \<or> path \<in> S" "c < n"
  shows "fine_step (walk_ok ex S n N k) (take_entry path entry ancs c unreadable dir_ids w)"
proof (cases "re_kind entry = RkDirectory")
  case True
  then show ?thesis using assms(1) list_directory_ok[OF assms(1,2), of entry]
    by (cases "list_directory path entry w")
       (auto simp: take_entry_def fine_step_def split: option.splits)
next
  case False
  let ?chain = "case re_kind entry of RkSymlink _ \<Rightarrow> ancs @ parent_ids (re_path entry) dir_ids | _ \<Rightarrow> []"
  have eq: "take_entry path entry ancs c unreadable dir_ids w =
    res_bind (take_leaf path entry ?chain c w) (\<lambda>(w', link).
       Inr (GoOn (case link of Some l \<Rightarrow> w'\<lparr>w_pending := w_pending w' @ [l]\<rparr> | None \<Rightarrow> w')))"
    using False by (simp add: take_entry_def)
  have leaf: "fine_leaf ex S n N k (take_leaf path entry ?chain c w)" by (rule take_leaf_ok[OF assms])
  show ?thesis
  proof (cases "take_leaf path entry ?chain c w")
    case (Inl e)
    then show ?thesis using leaf eq by (simp add: fine_leaf_def fine_step_def)
  next
    case (Inr r)
    obtain w' l where r: "r = (w', l)" by fastforce
    then have "walk_ok ex S n N k w'"
      "case l of Some link \<Rightarrow> link_ok ex S n (length (w_entries w')) link | None \<Rightarrow> True"
      using leaf Inr by (simp_all add: fine_leaf_def)
    then have "walk_ok ex S n N k (case l of Some l \<Rightarrow> w'\<lparr>w_pending := w_pending w' @ [l]\<rparr> | None \<Rightarrow> w')"
      by (cases l) (auto simp: walk_ok_def leaves_def counted_within_def)
    then show ?thesis using eq Inr r by (simp add: fine_step_def)
  qed
qed

lemma take_item_ok:
  assumes "walk_ok ex S n N k w" "c < n"
  shows "fine_step (walk_ok ex S n N k) (take_item ex base ancs c unreadable dir_ids x w)"
  using take_entry_ok[OF assms(1) _ assms(2)] assms(1)
  by (auto simp: take_item_def Let_def fine_step_def changed_failure_def split: prod.splits item.splits)

lemma take_items_ok:
  assumes "walk_ok ex S n N k w" "c < n"
  shows "fine (walk_ok ex S n N k) (take_items ex base ancs c unreadable dir_ids xs w)"
  using assms(1)
proof (induction xs arbitrary: w)
  case (Cons x xs)
  have "fine_step (walk_ok ex S n N k) (take_item ex base ancs c unreadable dir_ids x w)"
    using Cons.prems assms(2) by (rule take_item_ok)
  then show ?case using Cons
    by (cases "take_item ex base ancs c unreadable dir_ids x w")
       (auto simp: fine_step_def split: item_step.splits)
qed simp

lemma take_subtree_ok:
  assumes "walk_ok ex S n N k w" "c < n"
  shows "fine (walk_ok ex S n N k) (take_subtree ex base tree ancs c w)"
  using take_items_ok[OF assms] assms(1)
  by (auto simp: take_subtree_def Let_def changed_failure_def split: option.splits)

lemma point_ok:
  assumes "walk_ok ex S n N k w" "link_ok ex S n (length (w_entries w)) l"
  shows "fine (walk_ok ex S n N k) (point l pt w)"
proof (cases "pl_listed l")
  case (ListedAt i)
  let ?e = "w_entries w ! i"
  have i: "i < length (w_entries w)" using assms(2) ListedAt by (simp add: link_ok_def)
  have same: "le_path (set_points_to pt ?e) = le_path ?e"
    "(le_kind (set_points_to pt ?e) \<noteq> LkDirectory) = (le_kind ?e \<noteq> LkDirectory)"
    by (simp_all add: set_points_to_def split: listed_kind.splits)
  let ?w = "w\<lparr>w_entries := (w_entries w)[i := set_points_to pt ?e]\<rparr>"
  have "\<forall>e \<in> set (w_entries ?w). \<not> ex (le_path e) \<or> le_path e \<in> S"
    using assms(1) i same(1) set_update_subset_insert[of "w_entries w" i] nth_mem[OF i]
    by (fastforce simp: walk_ok_def)
  moreover have "leaves ?w = leaves w"
  proof -
    have "map (\<lambda>e. le_kind e \<noteq> LkDirectory) (w_entries ?w) = map (\<lambda>e. le_kind e \<noteq> LkDirectory) (w_entries w)"
      using i same(2) by (simp add: map_update list_update_same_conv)
    then have "length (filter (\<lambda>b. b) (map (\<lambda>e. le_kind e \<noteq> LkDirectory) (w_entries ?w))) =
        length (filter (\<lambda>b. b) (map (\<lambda>e. le_kind e \<noteq> LkDirectory) (w_entries w)))" by simp
    then show ?thesis by (simp add: leaves_def filter_map comp_def)
  qed
  ultimately have "walk_ok ex S n N k ?w" using assms(1) by (auto simp: walk_ok_def counted_within_def)
  then show ?thesis using ListedAt i by (simp add: point_def)
qed (use assms in \<open>simp_all add: point_def\<close>)

lemma point_link_ok:
  assumes "walk_ok ex S n N k w" "link_ok ex S n (length (w_entries w)) l"
  shows "fine (walk_ok ex S n N k) (point_link l ans w)"
  using point_ok[OF assms] assms(1)
  by (auto simp: point_link_def point_unresolvable_def changed_failure_def
      split: option.splits link_target.splits listed_at.splits)

lemma take_link_ok:
  assumes "walk_ok ex S n N k w" "link_ok ex S n (length (w_entries w)) l"
  shows "fine (walk_ok ex S n N k) (take_link ex l ans w)"
proof -
  have "pl_counter l < n" using assms(2) by (simp add: link_ok_def)
  then show ?thesis unfolding take_link_def
    using take_subtree_ok by (intro fine_bind[OF point_link_ok[OF assms]]) (auto simp: changed_failure_def split: option.splits)
qed

text \<open>The entries only grow, so a waiting link stays what it is through a round.\<close>

definition longer :: "walk \<Rightarrow> walk \<Rightarrow> bool" where
  "longer w w' \<longleftrightarrow> length (w_entries w) \<le> length (w_entries w')"

lemma take_leaf_longer: "take_leaf path entry ancs c w = Inr (w', l) \<Longrightarrow> longer w w'"
  by (auto simp: take_leaf_def take_leaf_counted_def list_leaf_def count_entry_def Let_def res_simps
      longer_def split: if_splits)

lemma take_items_longer: "take_items ex base ancs c unreadable dir_ids xs w = Inr w' \<Longrightarrow> longer w w'"
proof (induction xs arbitrary: w)
  case (Cons x xs)
  have step: "longer w w1" if "take_item ex base ancs c unreadable dir_ids x w = Inr (GoOn w1)
      \<or> take_item ex base ancs c unreadable dir_ids x w = Inr (Return w1)" for w1
  proof -
    have dir: "list_directory p e w = Inr w2 \<Longrightarrow> longer w w2" for p e w2
      by (auto simp: list_directory_def res_simps longer_def split: if_splits)
    have entry: "take_entry p e ancs c unreadable dir_ids w = Inr s \<Longrightarrow> s = GoOn w1 \<or> s = Return w1 \<Longrightarrow> longer w w1"
      for p e s
      by (auto simp: take_entry_def res_simps Let_def dest!: dir take_leaf_longer
          split: if_splits option.splits) (auto simp: longer_def)
    show ?thesis using that entry
      by (auto simp: take_item_def Let_def longer_def split: prod.splits item.splits if_splits)
  qed
  show ?case
  proof (cases "stopped w")
    case False
    with Cons.prems obtain s where s: "take_item ex base ancs c unreadable dir_ids x w = Inr s"
      by (cases "take_item ex base ancs c unreadable dir_ids x w") auto
    show ?thesis
    proof (cases s)
      case (GoOn w1)
      then have "longer w1 w'" using Cons False s by simp
      then show ?thesis using step[of w1] s GoOn by (simp add: longer_def)
    next
      case (Return w1)
      then show ?thesis using step[of w1] s Cons.prems False by simp
    qed
  qed (use Cons.prems in \<open>simp add: longer_def\<close>)
qed (simp add: longer_def)

lemma take_subtree_longer: "take_subtree ex base tree ancs c w = Inr w' \<Longrightarrow> longer w w'"
  by (auto simp: take_subtree_def Let_def longer_def dest!: take_items_longer[unfolded longer_def]
      split: if_splits option.splits)

lemma point_link_longer: "point_link l ans w = Inr w' \<Longrightarrow> longer w w'"
  by (auto simp: point_link_def point_unresolvable_def point_def longer_def
      split: option.splits link_target.splits listed_at.splits if_splits)

lemma take_link_longer: "take_link ex l ans w = Inr w' \<Longrightarrow> longer w w'"
  using point_link_longer take_subtree_longer
  by (fastforce simp: take_link_def res_simps longer_def split: if_splits option.splits)

lemma link_ok_longer: "link_ok ex S n m l \<Longrightarrow> m \<le> m' \<Longrightarrow> link_ok ex S n m' l"
  by (auto simp: link_ok_def split: listed_at.splits)

lemma fine_fold_links:
  assumes "walk_ok ex S n N k w" "\<forall>(l, ans) \<in> set xs. link_ok ex S n (length (w_entries w)) l"
    and f: "\<And>l ans w. walk_ok ex S n N k w \<Longrightarrow> link_ok ex S n (length (w_entries w)) l \<Longrightarrow>
        fine (walk_ok ex S n N k) (f l ans w)"
    and longer: "\<And>l ans w w'. f l ans w = Inr w' \<Longrightarrow> longer w w'"
  shows "fine (walk_ok ex S n N k) (res_fold (\<lambda>w (l, ans). f l ans w) w xs)"
proof -
  let ?P = "\<lambda>v. walk_ok ex S n N k v \<and> longer w v"
  have "fine ?P (res_fold (\<lambda>w (l, ans). f l ans w) w xs)"
  proof (rule fine_fold)
    show "?P w" using assms(1) by (simp add: longer_def)
    fix v x assume x: "x \<in> set xs" and v: "?P v"
    obtain l ans where la: "x = (l, ans)" by fastforce
    have "link_ok ex S n (length (w_entries v)) l"
      using x assms(2) v la link_ok_longer by (fastforce simp: longer_def)
    then have "fine (walk_ok ex S n N k) (f l ans v)" using f v by blast
    then show "fine ?P (case x of (l, ans) \<Rightarrow> f l ans v)"
      using longer[of l ans v] v la by (cases "f l ans v") (auto simp: longer_def)
  qed
  then show ?thesis by (rule fine_mono) simp
qed

lemma walk_ok_clear:
  "walk_ok ex S n N k w \<Longrightarrow> walk_ok ex S n N k (w\<lparr>w_pending := []\<rparr>)"
  by (auto simp: walk_ok_def leaves_def counted_within_def)

lemma zip_links_ok:
  assumes "walk_ok ex S n N k w"
  shows "\<forall>(l, ans) \<in> set (zip (w_pending w) answers). link_ok ex S n (length (w_entries (w\<lparr>w_pending := []\<rparr>))) l"
  using assms by (auto simp: walk_ok_def dest: set_zip_leftD)

lemma ask_no_panic: "ask coll qs e s \<noteq> (Inl StopPanic, s')"
  by (auto simp: ask_def split: prod.splits sum.splits)

lemma ask_length: "ask coll qs e s = (Inr answers, s') \<Longrightarrow> length answers = length qs"
  by (auto simp: ask_def split: prod.splits sum.splits if_splits)

lemma pending_loop_ok:
  assumes "walk_ok ex S n N k w"
  shows "fine (\<lambda>w'. walk_ok ex S n N k w' \<and> (w_pending w' = [] \<or> stopped w')) (fst (pending_loop coll ex e w s))"
  using assms
proof (induction coll ex e w s rule: pending_loop.induct)
  case (1 coll ex e w s)
  show ?case
  proof (cases "w_pending w = [] \<or> stopped w")
    case True
    then show ?thesis using 1(2) by (subst pending_loop.simps) auto
  next
    case False
    obtain r s' where a: "ask coll (link_questions DepthAll (w_pending w)) e s = (r, s')" by fastforce
    show ?thesis
    proof (cases r)
      case (Inl err)
      then show ?thesis using False a ask_no_panic[of coll _ e s s'] by (subst pending_loop.simps) auto
    next
      case (Inr answers)
      have links: "fine (walk_ok ex S n N k) (take_links ex (zip (w_pending w) answers) (w\<lparr>w_pending := []\<rparr>))"
        unfolding take_links_def
        by (rule fine_fold_links[OF walk_ok_clear[OF 1(2)] zip_links_ok[OF 1(2)]])
           (auto intro: take_link_ok take_link_longer)
      show ?thesis
      proof (cases "take_links ex (zip (w_pending w) answers) (w\<lparr>w_pending := []\<rparr>)")
        case (Inl err)
        then show ?thesis using False a Inr links by (subst pending_loop.simps) auto
      next
        case w': (Inr w')
        have eq: "pending_loop coll ex e w s = pending_loop coll ex e w' s'"
          using False a Inr w' by (subst pending_loop.simps) simp
        show ?thesis unfolding eq
          by (rule 1(1)[OF False a[symmetric] Inr w']) (use links w' in simp)
      qed
    qed
  qed
qed

lemma children_loop_ok:
  assumes "walk_ok ex S n N k w"
  shows "fine (\<lambda>w'. walk_ok ex S n N k w' \<and> (w_pending w' = [] \<or> stopped w')) (fst (children_loop coll e w s))"
  using assms
proof (induction coll e w s rule: children_loop.induct)
  case (1 coll e w s)
  show ?case
  proof (cases "w_pending w = [] \<or> stopped w")
    case True
    then show ?thesis using 1(2) by (subst children_loop.simps) auto
  next
    case False
    obtain r s' where a: "ask coll (link_questions DepthItself (w_pending w)) e s = (r, s')" by fastforce
    show ?thesis
    proof (cases r)
      case (Inl err)
      then show ?thesis using False a ask_no_panic[of coll _ e s s'] by (subst children_loop.simps) auto
    next
      case (Inr answers)
      have links: "fine (walk_ok ex S n N k) (point_links (zip (w_pending w) answers) (w\<lparr>w_pending := []\<rparr>))"
        unfolding point_links_def
        by (rule fine_fold_links[OF walk_ok_clear[OF 1(2)] zip_links_ok[OF 1(2)]])
           (auto intro: point_link_ok point_link_longer)
      show ?thesis
      proof (cases "point_links (zip (w_pending w) answers) (w\<lparr>w_pending := []\<rparr>)")
        case (Inl err)
        then show ?thesis using False a Inr links by (subst children_loop.simps) auto
      next
        case w': (Inr w')
        have eq: "children_loop coll e w s = children_loop coll e w' s'"
          using False a Inr w' by (subst children_loop.simps) simp
        show ?thesis unfolding eq
          by (rule 1(1)[OF False a[symmetric] Inr w']) (use links w' in simp)
      qed
    qed
  qed
qed

subsection \<open>Starts\<close>

lemma unreached_start_ok: "walk_ok ex S n N k w \<Longrightarrow> fine (walk_ok ex S n N k) (unreached_start path why w)"
  by (simp add: unreached_start_def split: unreached.splits)

lemma fine_leaf_bind:
  assumes "fine_leaf ex S n N k r"
    and "\<And>w' link. walk_ok ex S n N k w' \<Longrightarrow> link_ok ex S n (length (w_entries w')) link \<Longrightarrow> fine (walk_ok ex S n N k) (f link w')"
  shows "fine (walk_ok ex S n N k) (res_bind r (\<lambda>(w', l). case l of Some link \<Rightarrow> f link w' | None \<Rightarrow> Inr w'))"
  using assms by (cases r) (auto simp: fine_leaf_def split: option.splits)

lemma take_value_ok:
  assumes "walk_ok ex S n N k w" "path \<in> S" "c < n"
  shows "fine (walk_ok ex S n N k) (take_value ex path ans root c w)"
proof -
  have leaf: "fine_leaf ex S n N k (take_leaf path entry [root] c w)" for entry
    using take_leaf_ok[OF assms(1) _ assms(3)] assms(2) by blast
  show ?thesis
    using unreached_start_ok[OF assms(1)] take_subtree_ok[OF assms(1,3)] fine_leaf_bind[OF leaf take_link_ok]
    by (auto simp: take_value_def missing_subtree_def split: sum.splits option.splits)
qed

lemma take_itself_ok:
  assumes "walk_ok ex S n N k w" "path \<in> S" "c < n"
  shows "fine (walk_ok ex S n N (k + 1)) (take_itself path ans root c w)"
proof -
  have w: "walk_ok ex S n N (k + 1) w" using assms(1) by (rule walk_ok_mono) auto
  have "0 < n" using assms(3) by simp
  then have "fine_leaf ex S n N (k + 1) (list_leaf path entry [root] 0 w)" for entry
    using list_leaf_ok[OF w, of path 0 entry "[root]"] assms(1,2) by (auto simp: walk_ok_def)
  moreover have "fine_leaf ex S n N (k + 1) (take_leaf_counted path entry [root] (Some c) w)" for entry
    using take_leaf_ok[OF w _ assms(3)] assms(2) by (simp add: take_leaf_def)
  ultimately have leaf: "fine_leaf ex S n N (k + 1)
      (take_leaf_counted path entry [root] (if b then None else Some c) w)" for entry b
    by (simp add: take_leaf_counted_def)
  show ?thesis
    using unreached_start_ok[OF w] list_directory_ok[OF w, of path] assms(2) fine_leaf_bind[OF leaf point_link_ok]
    by (simp add: take_itself_def Let_def split: sum.splits)
qed

lemma take_below_ok:
  assumes "walk_ok ex S n N k w" "sp_path st \<in> S" "sp_group st < n"
  shows "fine (walk_ok ex S n N k) (take_below ex st ans root w)"
proof -
  have dir: "fine (walk_ok ex S n N k)
     (res_bind (list_directory (sp_path st) e w)
       (\<lambda>w'. case (sp_descend st, an_subtree ans) of
          (False, _) \<Rightarrow> Inr w'
        | (True, Some tree) \<Rightarrow> take_subtree ex (sp_path st) tree [root] (sp_group st) w'
        | (True, None) \<Rightarrow> Inl missing_subtree))" for e
  proof (rule fine_bind)
    show "fine (walk_ok ex S n N k) (list_directory (sp_path st) e w)"
      using list_directory_ok[OF assms(1)] assms(2) by blast
  qed (use assms(3) in \<open>auto intro: take_subtree_ok simp: missing_subtree_def split: bool.splits option.splits\<close>)
  have link: "fine (walk_ok ex S n N k) (take_link ex (pending_link_new (sp_path st) [root] (sp_group st)) ans w)"
    using assms(3) by (intro take_link_ok[OF assms(1)]) (simp add: link_ok_def pending_link_new_def)
  show ?thesis
    unfolding take_below_def Let_def
    using unreached_start_ok[OF assms(1)] assms(1) dir link
    by (simp split: sum.split raw_kind.split)
qed

lemma take_start_ok:
  assumes "walk_ok ex S n N k w" "sp_path st \<in> S" "sp_group st < n"
  shows "fine (walk_ok ex S n N (k + 1)) (take_start ex root w (st, ans))"
proof -
  have mono: "walk_ok ex S n N k v \<Longrightarrow> walk_ok ex S n N (k + 1) v" for v by (rule walk_ok_mono) auto
  show ?thesis
    using take_itself_ok[OF assms(1,2,3)] fine_mono[OF take_value_ok[OF assms(1,2,3)] mono]
      fine_mono[OF take_below_ok[OF assms] mono]
    by (simp add: take_start_def)
qed

lemma take_starts_ok:
  assumes "walk_ok ex S n N k w" "\<forall>(st, ans) \<in> set xs. sp_path st \<in> S \<and> sp_group st < n"
  shows "fine (walk_ok ex S n N (k + length xs)) (res_fold (take_start ex root) w xs)"
  using assms
proof (induction xs arbitrary: w k)
  case (Cons x xs)
  obtain st ans where x: "x = (st, ans)" by fastforce
  have "fine (walk_ok ex S n N (k + 1)) (take_start ex root w x)"
    using take_start_ok[OF Cons.prems(1)] Cons.prems(2) x by simp
  then show ?case using Cons.IH[of "k + 1"] Cons.prems(2) by (cases "take_start ex root w x") auto
qed simp

lemma foldr_max: "x \<in> set xs \<Longrightarrow> x \<le> foldr max xs (b :: nat)" "b \<le> foldr max xs b"
  by (induction xs) (auto simp: le_max_iff_disj)

subsection \<open>The listing\<close>

definition non_directories :: "listing \<Rightarrow> nat" where
  "non_directories l = length (filter (\<lambda>e. le_kind e \<noteq> LkDirectory) (ls_entries l))"

definition listing_ok :: "(bytes \<Rightarrow> bool) \<Rightarrow> bytes set \<Rightarrow> nat \<Rightarrow> nat \<Rightarrow> nat \<Rightarrow> listing \<Rightarrow> bool" where
  "listing_ok ex S n N k l \<longleftrightarrow> sorted (map le_path (ls_entries l))
     \<and> (\<forall>e \<in> set (ls_entries l). \<not> ex (le_path e) \<or> le_path e \<in> S)
     \<and> non_directories l \<le> n * N + k \<and> (\<not> ls_truncated l \<longrightarrow> ls_counted l \<le> n * N)"

lemma filter_sort_length: "length (filter P (sort_key f xs)) = length (filter P xs)"
  by (metis mset_filter mset_sort size_mset)

lemma walk_finish_ok:
  assumes "walk_ok ex S n N k w"
  shows "listing_ok ex S n N k (walk_finish w)"
proof -
  have "counted_within w \<le> n * N"
    using assms sum_list_mono[of "w_counts w" "\<lambda>c. min c N" "\<lambda>_. N"]
    by (auto simp: counted_within_def walk_ok_def sum_list_triv)
  moreover have "\<not> w_truncated w \<longrightarrow> sum_list (w_counts w) \<le> n * N"
    using assms sum_list_mono[of "w_counts w" "\<lambda>c. c" "\<lambda>_. N"]
    by (auto simp: walk_ok_def sum_list_triv)
  ultimately show ?thesis using assms
    by (auto simp: listing_ok_def walk_finish_def non_directories_def filter_sort_length walk_ok_def leaves_def)
qed

definition fine_listing ::
  "(bytes \<Rightarrow> bool) \<Rightarrow> bytes set \<Rightarrow> nat \<Rightarrow> nat \<Rightarrow> nat \<Rightarrow> scan_stop + listing \<Rightarrow> bool" where
  "fine_listing ex S n N k r \<longleftrightarrow>
     (case r of Inl e \<Rightarrow> e \<noteq> StopPanic | Inr l \<Rightarrow> listing_ok ex S n N k l)"

lemma root_identity_no_panic: "root_identity a \<noteq> Inl StopPanic"
  by (auto simp: root_identity_def split: sum.splits unreached.splits)

lemma scan_starts_ok:
  assumes "\<forall>st \<in> set starts. sp_path st \<in> S"
  defines "n \<equiv> foldr max (map (\<lambda>st. sp_group st + 1) starts) 1"
  shows "fine_listing ex S n N (length starts) (fst (scan_starts coll ex e N whole starts s))"
proof -
  have n: "max n 1 = n" "0 < n" using foldr_max(2)[of 1 "map (\<lambda>st. sp_group st + 1) starts"] by (simp_all add: n_def)
  have new: "walk_ok ex S n N 0 (walk_new N n)" using walk_ok_new[of ex S n N] n by simp
  let ?qs = "\<lparr>q_path = [], q_depth = (if whole then DepthAll else DepthItself)\<rparr> #
            map (\<lambda>st. \<lparr>q_path = sp_path st, q_depth = (if sp_descend st then DepthAll else DepthItself)\<rparr>) starts"
  obtain r s' where a: "ask coll ?qs e s = (r, s')" by fastforce
  show ?thesis
  proof (cases r)
    case (Inl err)
    then show ?thesis using a ask_no_panic[of coll ?qs e s s'] by (auto simp: scan_starts_def n_def fine_listing_def Let_def)
  next
    case (Inr all)
    then have "length all = length ?qs" using ask_length[of coll ?qs e s all s'] a by simp
    then obtain root_answer answers where all: "all = root_answer # answers" "length answers = length starts"
      by (cases all) auto
    let ?first = "if whole then
                        (case an_subtree root_answer of
                           None \<Rightarrow> Inl missing_subtree
                         | Some tree \<Rightarrow> take_subtree ex [] tree [] 0 (walk_new N n))
                      else Inr (walk_new N n)"
    have first: "fine (walk_ok ex S n N 0) ?first"
      using new take_subtree_ok[OF new n(2)] by (auto simp: missing_subtree_def split: option.splits)
    have zip: "\<forall>(st, ans) \<in> set (zip starts answers). sp_path st \<in> S \<and> sp_group st < n"
    proof clarify
      fix st ans assume "(st, ans) \<in> set (zip starts answers)"
      then have st: "st \<in> set starts" by (rule set_zip_leftD)
      then have "sp_group st + 1 \<le> n" unfolding n_def by (intro foldr_max(1)) auto
      then show "sp_path st \<in> S \<and> sp_group st < n" using assms(1) st by simp
    qed
    let ?body = "res_bind (root_identity root_answer) (\<lambda>root_id.
        res_bind ?first (\<lambda>w. res_fold (take_start ex root_id) w (zip starts answers)))"
    have body: "fine (walk_ok ex S n N (length starts)) ?body"
    proof (cases "root_identity root_answer")
      case (Inl err)
      then show ?thesis using root_identity_no_panic[of root_answer] by auto
    next
      case (Inr root_id)
      have "fine (walk_ok ex S n N (length starts)) (res_bind ?first (\<lambda>w. res_fold (take_start ex root_id) w (zip starts answers)))"
        using take_starts_ok[OF _ zip] all(2) by (intro fine_bind[OF first]) force
      then show ?thesis using Inr by simp
    qed
    have eq: "scan_starts coll ex e N whole starts s =
       (case ?body of
          Inl err \<Rightarrow> (Inl err, s')
        | Inr w \<Rightarrow> (case pending_loop coll ex e w s' of
             (Inl err, s'') \<Rightarrow> (Inl err, s'')
           | (Inr w', s'') \<Rightarrow> (Inr (walk_finish w'), s'')))"
      unfolding scan_starts_def Let_def n_def[symmetric] a Inr all(1) by simp
    show ?thesis
    proof (cases ?body)
      case (Inl err)
      then show ?thesis using body unfolding eq by (simp add: fine_listing_def)
    next
      case w: (Inr w)
      then have "walk_ok ex S n N (length starts) w" using body by simp
      from pending_loop_ok[OF this, of coll e s'] show ?thesis
        unfolding eq w using walk_finish_ok
        by (cases "pending_loop coll ex e w s'") (auto simp: fine_listing_def fine_def split: sum.splits)
    qed
  qed
qed

lemma take_directory_ok:
  assumes "walk_ok ex S n N k w" "path \<in> S" "0 < n"
  shows "fine (walk_ok ex S n N k) (take_directory ex path ans w)"
proof -
  have dir: "fine (walk_ok ex S n N k)
      (res_bind (list_directory path e w) (take_subtree ex path tree [] 0))" for e tree
    by (rule fine_bind[OF list_directory_ok[OF assms(1)]]) (use assms(2,3) in \<open>auto intro: take_subtree_ok\<close>)
  have link: "fine (walk_ok ex S n N k) (point_link (pending_link_new path [] 0) ans w)"
    using assms(3) by (intro point_link_ok[OF assms(1)]) (simp add: link_ok_def pending_link_new_def)
  show ?thesis
    unfolding take_directory_def Let_def
    using unreached_start_ok[OF assms(1)] assms(1) dir link
    by (simp add: missing_subtree_def split: sum.split raw_kind.split option.split)
qed

lemma scan_children_ok:
  "fine_listing ex {normalized path} 1 N 0 (fst (scan_children coll ex e path N s))"
proof -
  let ?S = "{normalized path}" and ?p = "normalized path"
  have new: "walk_ok ex ?S 1 N 0 (walk_new N 1)" using walk_ok_new[of ex ?S 1 N] by simp
  let ?qs = "\<lparr>q_path = [], q_depth = (if ?p = [] then DepthChildren else DepthItself)\<rparr> #
            (if ?p = [] then [] else [\<lparr>q_path = ?p, q_depth = DepthChildren\<rparr>])"
  obtain r s' where a: "ask coll ?qs e s = (r, s')" by fastforce
  show ?thesis
  proof (cases r)
    case (Inl err)
    then show ?thesis using a ask_no_panic[of coll ?qs e s s'] by (auto simp: scan_children_def fine_listing_def Let_def)
  next
    case (Inr all)
    then have "length all = length ?qs" using ask_length[of coll ?qs e s all s'] a by simp
    then have "length all = (if ?p = [] then 1 else 2)" by simp
    then obtain root_answer answers where all: "all = root_answer # answers"
      "length answers = (if ?p = [] then 0 else 1)"
      by (cases all) (auto split: if_splits)
    let ?body = "res_bind (root_identity root_answer) (\<lambda>_.
                   if ?p = [] then
                     (case an_subtree root_answer of
                        None \<Rightarrow> Inl missing_subtree
                      | Some tree \<Rightarrow> take_subtree ex [] tree [] 0 (walk_new N 1))
                   else
                     (case answers of
                        [] \<Rightarrow> Inl StopPanic
                      | ans # _ \<Rightarrow> take_directory ex ?p ans (walk_new N 1)))"
    have body: "fine (walk_ok ex ?S 1 N 0) ?body"
      using root_identity_no_panic[of root_answer] take_subtree_ok[OF new, of 0] take_directory_ok[OF new, of ?p] all(2)
      by (cases "root_identity root_answer"; cases "?p = []"; cases answers)
         (auto simp: missing_subtree_def split: option.splits)
    have eq: "scan_children coll ex e path N s =
       (case ?body of
          Inl err \<Rightarrow> (Inl err, s')
        | Inr w \<Rightarrow> (case children_loop coll e w s' of
             (Inl err, s'') \<Rightarrow> (Inl err, s'')
           | (Inr w', s'') \<Rightarrow> (Inr (walk_finish w'), s'')))"
      unfolding scan_children_def Let_def a Inr all(1) by simp
    show ?thesis
    proof (cases ?body)
      case (Inl err)
      then show ?thesis using body unfolding eq by (simp add: fine_listing_def)
    next
      case w: (Inr w)
      then have "walk_ok ex ?S 1 N 0 w" using body by simp
      from children_loop_ok[OF this, of coll e s'] show ?thesis
        unfolding eq w using walk_finish_ok
        by (cases "children_loop coll e w s'") (auto simp: fine_listing_def fine_def split: sum.splits)
    qed
  qed
qed

lemma keep_start_paths:
  "sp_path ` set (fst (keep_start ex x st)) \<subseteq> insert (sp_path x) (sp_path ` set (fst st))"
  by (auto simp: keep_start_def Let_def split: prod.splits if_splits)

lemma fold_keep_start_paths:
  "sp_path ` set (fst (fold (keep_start ex) xs st)) \<subseteq> sp_path ` set xs \<union> sp_path ` set (fst st)"
proof (induction xs arbitrary: st)
  case (Cons x xs)
  show ?case using Cons.IH[of "keep_start ex x st"] keep_start_paths[of ex x st] by auto
qed simp

lemma start_paths_paths:
  "sp_path ` set (snd (start_paths ex starts)) \<subseteq> (\<lambda>s. normalized (st_path s)) ` set starts"
  using fold_keep_start_paths[of ex "sort_key (\<lambda>s. (sp_path s, \<not> sp_descend s, \<not> sp_with_self s))
      (map start_path_of starts)" "([], [])"]
  by (auto simp: start_paths_def Let_def image_image start_path_of_def)

text \<open>The paths a request names, in the form a scan uses.\<close>

fun scope_paths :: "scan_scope \<Rightarrow> string set" where
  "scope_paths ScopeWhole = {}"
| "scope_paths (ScopeStarts starts) = (\<lambda>s. normalized (st_path s)) ` set starts"
| "scope_paths (ScopeChildren path) = {normalized path}"

fun scope_single :: "scan_scope \<Rightarrow> bool" where
  "scope_single (ScopeStarts _) = False"
| "scope_single _ = True"

lemma scan_fine:
  "\<exists>n k. fine_listing (excludes glob e) (scope_paths (sr_scope req)) n (sr_max_entries req) k
      (fst (scan glob coll e req s))
    \<and> (scope_single (sr_scope req) \<longrightarrow> n = 1 \<and> k = 0)"
proof (cases "sr_scope req")
  case ScopeWhole
  then show ?thesis
    using scan_starts_ok[of "[]" "{}" "excludes glob e" "sr_max_entries req" coll e True s]
    by (simp add: scan_def Let_def)
next
  case (ScopeStarts starts)
  let ?sp = "start_paths (excludes glob e) starts"
  have "\<forall>st \<in> set (snd ?sp). sp_path st \<in> scope_paths (sr_scope req)"
    using start_paths_paths[of "excludes glob e" starts] ScopeStarts by auto
  from scan_starts_ok[OF this, of "excludes glob e" "sr_max_entries req" coll e "fst ?sp" s]
  show ?thesis using ScopeStarts by (auto simp: scan_def Let_def case_prod_beta)
next
  case (ScopeChildren path)
  then show ?thesis using scan_children_ok[of "excludes glob e" path "sr_max_entries req" coll e s]
    by (auto simp: scan_def Let_def)
qed

subsection \<open>Properties\<close>

text \<open>C21: Whatever a collector answers, however often it changes its mind, a scan ends (its rounds of
  symlinks are a total function) and never panics: it gives a listing or an error.\<close>

theorem scan_never_panics: "fst (scan glob coll e req s) \<noteq> Inl StopPanic"
  using scan_fine[of glob e req coll s] by (auto simp: fine_listing_def)

text \<open>C20: Whatever a collector answers, the listing is in the order of the paths, and every entry of
  it is one that exclude does not remove, or a path the request names itself (a named path, or a
  named directory as a container).\<close>

theorem scan_lists_allowed:
  assumes "fst (scan glob coll e req s) = Inr l"
  shows "sorted (map le_path (ls_entries l))
    \<and> list_all (\<lambda>entry. excludes glob e (le_path entry) \<longrightarrow> le_path entry \<in> scope_paths (sr_scope req)) (ls_entries l)"
  using scan_fine[of glob e req coll s] assms by (auto simp: fine_listing_def listing_ok_def list_all_iff)

text \<open>C22: A scan of the whole root_dir or of the children of a directory lists at most the limit of
  entries that are not directories, and counts more than the limit only when it reports the listing
  as cut off.\<close>

theorem scan_keeps_limit:
  assumes "fst (scan glob coll e req s) = Inr l" "scope_single (sr_scope req)"
  shows "non_directories l \<le> sr_max_entries req
    \<and> (ls_truncated l \<or> ls_counted l \<le> sr_max_entries req)"
  using scan_fine[of glob e req coll s] assms by (auto simp: fine_listing_def listing_ok_def)

subsection \<open>Witnesses\<close>

text \<open>A collector of a root_dir with the files a and b/x and the directory b.\<close>

definition ex_entry :: "bytes \<Rightarrow> raw_kind \<Rightarrow> raw_entry" where
  "ex_entry path k = \<lparr>re_path = path, re_kind = k, re_size = 1, re_mtime = TimeRead 5 0 0,
     re_mode = 0x1A4, re_id = \<lparr>di_dev = 1, di_ino = of_nat (length path)\<rparr>\<rparr>"

definition ex_collector :: "unit collector" where
  "ex_collector s qs e =
     (Inr (map (\<lambda>q. \<lparr>an_entry = Inr (ex_entry [] RkDirectory), an_link = None,
        an_subtree = Some \<lparr>tr_start = ex_entry [] RkDirectory,
          tr_entries = [ex_entry ''b/x'' RkFile, ex_entry ''b'' RkDirectory, ex_entry ''a'' RkFile],
          tr_unreadable = [], tr_unreadable_entries = [], tr_changed = []\<rparr>\<rparr>) qs), s)"

definition ex_request :: "nat \<Rightarrow> scan_request" where
  "ex_request n = \<lparr>sr_scope = ScopeWhole, sr_max_entries = n\<rparr>"

definition ex_listing :: "nat \<Rightarrow> listing" where
  "ex_listing n = (case fst (scan (=) ex_collector (exclude_new [''b'']) (ex_request n) ()) of Inr l \<Rightarrow> l)"

lemma ex_scan:
  "fst (scan (=) ex_collector (exclude_new [''b'']) (ex_request 7) ()) = Inr (ex_listing 7)"
  "map le_path (ls_entries (ex_listing 7)) = [''a'']"
  by code_simp+

theorem scan_lists_allowed_witness:
  "sorted (map le_path (ls_entries (ex_listing 7)))
    \<and> list_all (\<lambda>entry. excludes (=) (exclude_new [''b'']) (le_path entry) \<longrightarrow> le_path entry \<in> scope_paths (sr_scope (ex_request 7)))
        (ls_entries (ex_listing 7))"
  by (rule scan_lists_allowed[OF ex_scan(1)])

theorem scan_keeps_limit_witness:
  "non_directories (ex_listing 7) \<le> sr_max_entries (ex_request 7)
    \<and> (ls_truncated (ex_listing 7) \<or> ls_counted (ex_listing 7) \<le> sr_max_entries (ex_request 7))"
  by (rule scan_keeps_limit[OF ex_scan(1)]) (simp add: ex_request_def)

end
