(* ===== verification/Compare.thy ===== *)
theory Compare
  imports ScanTypes
begin

text \<open>
  The rules of the comparison (\<open>compare/\<close> of remote-merge-core): the states of a path on each side,
  the judgement of a pair of states, the pairs that are judged by content, and how the hashes and the
  reads settle them. A map keyed by the roles is a partial function, a set of roles a set; a map
  keyed by paths is an ordered association list.
\<close>

subsection \<open>Roles and verdicts\<close>

datatype role = RoleLeft | RoleRight | RoleRef | RoleTarget

fun role_rank :: "role \<Rightarrow> nat" where
  "role_rank RoleLeft = 0"
| "role_rank RoleRight = 1"
| "role_rank RoleRef = 2"
| "role_rank RoleTarget = 3"

lemma role_rank_inject: "role_rank a = role_rank b \<longleftrightarrow> a = b"
  by (cases a; cases b) simp_all

text \<open>The derived order of \<open>Role\<close>: the order of the constructors.\<close>

instantiation role :: linorder
begin

definition less_eq_role :: "role \<Rightarrow> role \<Rightarrow> bool" where
  "less_eq_role a b = (role_rank a \<le> role_rank b)"

definition less_role :: "role \<Rightarrow> role \<Rightarrow> bool" where
  "less_role a b = (role_rank a < role_rank b)"

instance
  by standard (auto simp: less_eq_role_def less_role_def role_rank_inject)

end

definition all_roles :: "role list" where
  "all_roles = [RoleLeft, RoleRight, RoleRef, RoleTarget]"

lemma set_all_roles [simp]: "r \<in> set all_roles"
  by (cases r) (simp_all add: all_roles_def)

lemma distinct_all_roles [simp]: "distinct all_roles"
  by (simp add: all_roles_def)

fun role_name :: "role \<Rightarrow> string" where
  "role_name RoleLeft = ''left''"
| "role_name RoleRight = ''right''"
| "role_name RoleRef = ''ref''"
| "role_name RoleTarget = ''target''"

datatype present = PresentFirst | PresentSecond

record side_failure =
  sf_role :: role
  sf_failure :: op_failure

datatype undecidable =
    UnreadableName
  | NotRegularFile "role list"
  | UnfollowableLink "role list"
  | ReadFailed "side_failure list"

definition write_sides :: "string \<Rightarrow> role list \<Rightarrow> string" where
  "write_sides heading roles = heading @ '': '' @ join_with ''; '' (map role_name (sort roles))"

fun show_undecidable :: "undecidable \<Rightarrow> string" where
  "show_undecidable UnreadableName = ''the name is not valid UTF-8''"
| "show_undecidable (NotRegularFile roles) = write_sides ''not a regular file'' roles"
| "show_undecidable (UnfollowableLink roles) = write_sides ''cannot follow the symlink target'' roles"
| "show_undecidable (ReadFailed failures) =
     ''read failed: '' @ join_with ''; ''
       (map (\<lambda>s. role_name (sf_role s) @ '': '' @ show_op_failure (sf_failure s)) (sort_key sf_role failures))"

datatype verdict =
    VdBothAbsent
  | VdUndecidable undecidable
  | VdOneSided present
  | VdKindDiffers
  | VdSame
  | VdDiffers

datatype judgement = Decided verdict | ByContent

subsection \<open>States\<close>

record mtime =
  mt_secs :: int
  mt_nanos :: u32
  mt_digits :: u8

datatype side_state =
    SsAbsent
  | SsUnreadableName
  | SsOther
  | SsFile "u64 option" "mtime option"
  | SsDirectory
  | SsSymlink bytes link_point

definition state_of_entry :: "listed_entry \<Rightarrow> side_state" where
  "state_of_entry e =
     (case le_kind e of
        LkFile \<Rightarrow>
          SsFile (Some (le_size e))
            (Some \<lparr>mt_secs = le_mtime_secs e, mt_nanos = le_mtime_nanos e, mt_digits = le_mtime_digits e\<rparr>)
      | LkDirectory \<Rightarrow> SsDirectory
      | LkSymlink target points_to \<Rightarrow> SsSymlink target points_to
      | LkOther \<Rightarrow> SsOther)"

fun followed_state :: "link_point \<Rightarrow> side_state" where
  "followed_state LpDirectory = SsDirectory"
| "followed_state LpMissing = SsAbsent"
| "followed_state LpOther = SsOther"
| "followed_state LpUnresolvable = SsOther"
| "followed_state LpNotDirectory = SsFile None None"

subsection \<open>Methods\<close>

datatype compare_method = ByMetadata | ByContentHash

datatype command = CmdStatus | CmdDiff | CmdMerge | CmdSync

datatype selection = NamedFile | BelowDirectory

fun choose_method :: "command \<Rightarrow> bool \<Rightarrow> selection \<Rightarrow> compare_method" where
  "choose_method CmdDiff _ _ = ByContentHash"
| "choose_method CmdStatus checksum _ = (if checksum then ByContentHash else ByMetadata)"
| "choose_method _ True _ = ByContentHash"
| "choose_method _ False NamedFile = ByContentHash"
| "choose_method _ False BelowDirectory = ByMetadata"

definition combine_link_pair :: "verdict \<Rightarrow> verdict \<Rightarrow> verdict" where
  "combine_link_pair link followed =
     (case (link, followed) of
        (VdSame, VdSame) \<Rightarrow> VdSame
      | (VdSame, VdBothAbsent) \<Rightarrow> VdSame
      | (VdSame, VdDiffers) \<Rightarrow> VdDiffers
      | (VdSame, VdOneSided _) \<Rightarrow> VdDiffers
      | (VdSame, VdKindDiffers) \<Rightarrow> VdDiffers
      | (VdSame, VdUndecidable why) \<Rightarrow> VdUndecidable why
      | (VdDiffers, VdUndecidable why) \<Rightarrow> VdUndecidable why
      | _ \<Rightarrow> link)"

subsection \<open>Judging two states\<close>

fun unfollowable :: "side_state \<Rightarrow> bool" where
  "unfollowable (SsSymlink _ LpUnresolvable) = True"
| "unfollowable _ = False"

definition same_or_differs :: "bool \<Rightarrow> verdict" where
  "same_or_differs same = (if same then VdSame else VdDiffers)"

definition same_time :: "mtime \<Rightarrow> mtime \<Rightarrow> bool" where
  "same_time a b =
     (if mt_digits a = 0 \<or> mt_digits b = 0 then False
      else
        (let digits = min (min (unat (mt_digits a)) (unat (mt_digits b))) 9;
             unit = 10 ^ (9 - digits) in
         mt_secs a = mt_secs b \<and> unat (mt_nanos a) div unit = unat (mt_nanos b) div unit))"

definition judge_files ::
  "u64 option \<times> mtime option \<Rightarrow> u64 option \<times> mtime option \<Rightarrow> compare_method \<Rightarrow> judgement" where
  "judge_files f s m =
     (if (case (fst f, fst s) of (Some a, Some b) \<Rightarrow> a \<noteq> b | _ \<Rightarrow> False) then Decided VdDiffers
      else
        (let same_size = (case (fst f, fst s) of (Some a, Some b) \<Rightarrow> a = b | _ \<Rightarrow> False) in
         case (m, snd f, snd s) of
           (ByMetadata, Some a, Some b) \<Rightarrow> if same_size \<and> same_time a b then Decided VdSame else ByContent
         | _ \<Rightarrow> ByContent))"

definition roles_where :: "(side_state \<Rightarrow> bool) \<Rightarrow> (role \<times> side_state) list \<Rightarrow> role list" where
  "roles_where P xs = map fst (filter (\<lambda>(_, s). P s) xs)"

text \<open>The rows of the table, applied from the first one on.\<close>

definition judge_states :: "role \<times> side_state \<Rightarrow> role \<times> side_state \<Rightarrow> compare_method \<Rightarrow> judgement" where
  "judge_states f s m =
     (let a = snd f; b = snd s in
      if a = SsAbsent \<and> b = SsAbsent then Decided VdBothAbsent
      else if a = SsUnreadableName \<or> b = SsUnreadableName then Decided (VdUndecidable UnreadableName)
      else if a = SsOther \<or> b = SsOther then
        Decided (VdUndecidable (NotRegularFile (roles_where (\<lambda>x. x = SsOther) [f, s])))
      else if unfollowable a \<or> unfollowable b then
        Decided (VdUndecidable (UnfollowableLink (roles_where unfollowable [f, s])))
      else if b = SsAbsent then Decided (VdOneSided PresentFirst)
      else if a = SsAbsent then Decided (VdOneSided PresentSecond)
      else
        (case (a, b) of
           (SsSymlink x _, SsSymlink y _) \<Rightarrow> Decided (same_or_differs (x = y))
         | (SsDirectory, SsDirectory) \<Rightarrow> Decided VdSame
         | (SsFile size1 time1, SsFile size2 time2) \<Rightarrow> judge_files (size1, time1) (size2, time2) m
         | _ \<Rightarrow> Decided VdKindDiffers))"

subsection \<open>Reads\<close>

datatype failure_handling = FhUndecidable | FhByReconnection | FhStopSide

fun read_failure_handling :: "op_failure \<Rightarrow> failure_handling" where
  "read_failure_handling (Disconnected _) = FhByReconnection"
| "read_failure_handling RootGone = FhStopSide"
| "read_failure_handling _ = FhUndecidable"

datatype content_judgement = CjDecided verdict | CjStopped side_failure

datatype read_outcome = ReadAll | ReadUndecidable undecidable | ReadStopped side_failure

text \<open>The loop over the failures with those that make the pair undecidable.\<close>

fun read_outcome_loop :: "side_failure list \<Rightarrow> side_failure list \<Rightarrow> read_outcome" where
  "read_outcome_loop acc [] = (if acc = [] then ReadAll else ReadUndecidable (ReadFailed acc))"
| "read_outcome_loop acc (failed # rest) =
     (case read_failure_handling (sf_failure failed) of
        FhUndecidable \<Rightarrow> read_outcome_loop (acc @ [failed]) rest
      | _ \<Rightarrow> ReadStopped failed)"

definition read_outcome_of :: "side_failure list \<Rightarrow> read_outcome" where
  "read_outcome_of failures = read_outcome_loop [] failures"

type_synonym hash_result = "op_failure + string"

definition judge_hashes :: "role \<times> hash_result \<Rightarrow> role \<times> hash_result \<Rightarrow> content_judgement" where
  "judge_hashes f s =
     (let failures = List.map_filter (\<lambda>(r, h). case h of
              Inl e \<Rightarrow> Some \<lparr>sf_role = r, sf_failure = e\<rparr> | Inr _ \<Rightarrow> None) [f, s]
      in
      case read_outcome_of failures of
        ReadStopped failed \<Rightarrow> CjStopped failed
      | ReadUndecidable why \<Rightarrow> CjDecided (VdUndecidable why)
      | ReadAll \<Rightarrow>
          (case (snd f, snd s) of
             (Inr a, Inr b) \<Rightarrow> if a = b then CjDecided VdSame else CjDecided VdDiffers
           | _ \<Rightarrow> CjDecided VdDiffers))"

end
