(* ===== verification/CompareFlow.thy ===== *)
theory CompareFlow
  imports Compare
begin

text \<open>
  The stages of the comparison (\<open>compare/table.rs\<close>, \<open>pairs.rs\<close>, \<open>settle.rs\<close>, \<open>comparison.rs\<close>,
  \<open>recheck.rs\<close> and \<open>starts.rs\<close> of remote-merge-core): from the listings of the sides to the table of
  states, to the judgements of the pairs, to the verdicts; and the check just before a change.
\<close>

subsection \<open>The table of states\<close>

record path_states =
  pst_states :: "role \<Rightarrow> side_state option"
  pst_outside :: "role set"
  pst_not_collected :: "role set"
  pst_permissions :: "role \<Rightarrow> u32 option"

definition no_states :: path_states where
  "no_states = \<lparr>pst_states = Map.empty, pst_outside = {}, pst_not_collected = {}, pst_permissions = Map.empty\<rparr>"

type_synonym state_rows = "(string \<times> path_states) list"

text \<open>What the listing of one side holds: the path, its state and its permissions.\<close>

definition found_in :: "listing \<Rightarrow> (string \<times> side_state \<times> u32 option) list" where
  "found_in l =
     map (\<lambda>e. (le_path e, state_of_entry e, Some (le_permissions e))) (ls_entries l)
     @ map (\<lambda>n. (n, SsUnreadableName, None)) (ls_unreadable_names l)"

definition record_found ::
  "role \<Rightarrow> string list \<Rightarrow> string \<times> side_state \<times> u32 option \<Rightarrow> state_rows \<Rightarrow> state_rows" where
  "record_found r links x table =
     (case x of (path, state, permissions) \<Rightarrow>
       (let below_link = (\<exists>link \<in> set links. is_below path link);
            is_link = (path \<in> set links);
            st = (case map_of table path of Some st \<Rightarrow> st | None \<Rightarrow> no_states);
            st' =
              (if below_link then st\<lparr>pst_not_collected := insert r (pst_not_collected st)\<rparr>
               else
                 st\<lparr>pst_outside := (if is_link then insert r (pst_outside st) else pst_outside st),
                    pst_permissions :=
                      (case permissions of
                         Some p \<Rightarrow> (pst_permissions st)(r \<mapsto> p)
                       | None \<Rightarrow> pst_permissions st),
                    pst_states := (pst_states st)(r \<mapsto> state)\<rparr>)
        in bt_insert path st' table))"

definition links_of :: "(role \<Rightarrow> string list option) \<Rightarrow> role \<Rightarrow> string list" where
  "links_of outside r = (case outside r of Some ls \<Rightarrow> ls | None \<Rightarrow> [])"

definition record_side ::
  "(role \<Rightarrow> listing option) \<Rightarrow> (role \<Rightarrow> string list option) \<Rightarrow> role \<Rightarrow> state_rows \<Rightarrow> state_rows" where
  "record_side listings outside r table =
     (case listings r of
        None \<Rightarrow> table
      | Some l \<Rightarrow> fold (record_found r (links_of outside r)) (found_in l) table)"

text \<open>The second loop: a side whose listing does not hold the path.\<close>

definition fill_side :: "(role \<Rightarrow> listing option) \<Rightarrow> role \<Rightarrow> path_states \<Rightarrow> path_states" where
  "fill_side listings r st =
     (case listings r of
        None \<Rightarrow> st
      | Some l \<Rightarrow>
          if r \<in> pst_not_collected st \<or> pst_states st r \<noteq> None then st
          else if ls_truncated l \<or> ls_cycle l \<noteq> None
          then st\<lparr>pst_not_collected := insert r (pst_not_collected st)\<rparr>
          else st\<lparr>pst_states := (pst_states st)(r \<mapsto> SsAbsent)\<rparr>)"

definition state_table ::
  "(role \<Rightarrow> listing option) \<Rightarrow> (role \<Rightarrow> string list option) \<Rightarrow> state_rows" where
  "state_table listings outside =
     map (\<lambda>(path, st). (path, fold (fill_side listings) all_roles st))
       (fold (record_side listings outside) all_roles [])"

subsection \<open>Pairs\<close>

record pair =
  pr_first :: role
  pr_second :: role

datatype follow = FollowNo | FollowYes

record pair_judgement =
  pj_pair :: pair
  pj_judgement :: judgement
  pj_followed :: "judgement option"

definition all_pairs :: "pair list" where
  "all_pairs =
     [\<lparr>pr_first = RoleLeft, pr_second = RoleRight\<rparr>,
      \<lparr>pr_first = RoleLeft, pr_second = RoleRef\<rparr>,
      \<lparr>pr_first = RoleRight, pr_second = RoleRef\<rparr>]"

definition judge_pair :: "path_states \<Rightarrow> compare_method \<Rightarrow> follow \<Rightarrow> pair \<Rightarrow> pair_judgement option" where
  "judge_pair st m fl p =
     (case (pst_states st (pr_first p), pst_states st (pr_second p)) of
        (Some a, Some b) \<Rightarrow>
          Some \<lparr>pj_pair = p,
                pj_judgement = judge_states (pr_first p, a) (pr_second p, b) m,
                pj_followed =
                  (case (fl, a, b) of
                     (FollowYes, SsSymlink _ pa, SsSymlink _ pb) \<Rightarrow>
                       if pr_first p \<notin> pst_outside st \<and> pr_second p \<notin> pst_outside st
                       then Some (judge_states (pr_first p, followed_state pa) (pr_second p, followed_state pb)
                                    ByContentHash)
                       else None
                   | _ \<Rightarrow> None)\<rparr>
      | _ \<Rightarrow> None)"

definition judge_pairs :: "path_states \<Rightarrow> compare_method \<Rightarrow> follow \<Rightarrow> pair_judgement list" where
  "judge_pairs st m fl = List.map_filter (judge_pair st m fl) all_pairs"

definition hash_roles :: "pair_judgement list \<Rightarrow> role set" where
  "hash_roles judged =
     (\<Union>j \<in> {j \<in> set judged. pj_judgement j = ByContent \<or> pj_followed j = Some ByContent}.
        {pr_first (pj_pair j), pr_second (pj_pair j)})"

subsection \<open>Settling\<close>

record pair_verdict =
  pv_pair :: pair
  pv_verdict :: verdict
  pv_followed :: "verdict option"

type_synonym hashes = "role \<Rightarrow> hash_result option"

definition hash_of :: "hashes \<Rightarrow> role \<Rightarrow> side_failure + hash_result" where
  "hash_of hs r =
     ok_or \<lparr>sf_role = r, sf_failure = Disconnected (NoAnswer ''no hash was answered for the path'')\<rparr> (hs r)"

definition settle :: "judgement \<Rightarrow> pair \<Rightarrow> hashes \<Rightarrow> side_failure + verdict" where
  "settle j p hs =
     (case j of
        Decided v \<Rightarrow> Inr v
      | ByContent \<Rightarrow>
          res_bind (hash_of hs (pr_first p)) (\<lambda>f.
          res_bind (hash_of hs (pr_second p)) (\<lambda>s.
            case judge_hashes (pr_first p, f) (pr_second p, s) of
              CjDecided v \<Rightarrow> Inr v
            | CjStopped failed \<Rightarrow> Inl failed)))"

definition settle_pair :: "hashes \<Rightarrow> pair_judgement \<Rightarrow> side_failure + pair_verdict" where
  "settle_pair hs j =
     res_bind (settle (pj_judgement j) (pj_pair j) hs) (\<lambda>v.
       res_bind
         (case pj_followed j of
            Some f \<Rightarrow> res_bind (settle f (pj_pair j) hs) (\<lambda>x. Inr (Some x))
          | None \<Rightarrow> Inr None)
         (\<lambda>followed.
            Inr \<lparr>pv_pair = pj_pair j,
                 pv_verdict = (case followed of Some f \<Rightarrow> combine_link_pair v f | None \<Rightarrow> v),
                 pv_followed = followed\<rparr>))"

definition settle_pairs :: "pair_judgement list \<Rightarrow> hashes \<Rightarrow> side_failure + pair_verdict list" where
  "settle_pairs judged hs = res_collect (settle_pair hs) judged"

definition lost_verdict :: "pair \<Rightarrow> side_failure \<Rightarrow> pair_verdict" where
  "lost_verdict p lost =
     \<lparr>pv_pair = p, pv_verdict = VdUndecidable (ReadFailed [lost]), pv_followed = None\<rparr>"

definition settle_or_lost ::
  "pair_judgement list \<Rightarrow> hashes \<Rightarrow> side_failure option \<Rightarrow> side_failure + pair_verdict list" where
  "settle_or_lost judged hs lost =
     (case lost of
        None \<Rightarrow> settle_pairs judged hs
      | Some l \<Rightarrow>
          res_collect
            (\<lambda>j. if pr_first (pj_pair j) = sf_role l \<or> pr_second (pj_pair j) = sf_role l
                 then Inr (lost_verdict (pj_pair j) l)
                 else settle_pair hs j)
            judged)"

definition lose_pairs :: "pair_verdict list \<Rightarrow> side_failure \<Rightarrow> pair_verdict list" where
  "lose_pairs pairs lost =
     map (\<lambda>p. if pr_first (pv_pair p) = sf_role lost \<or> pr_second (pv_pair p) = sf_role lost
              then lost_verdict (pv_pair p) lost else p) pairs"

fun is_undecidable :: "verdict \<Rightarrow> bool" where
  "is_undecidable (VdUndecidable _) = True"
| "is_undecidable _ = False"

definition apply_read :: "side_failure list \<Rightarrow> pair_verdict \<Rightarrow> side_failure + pair_verdict" where
  "apply_read failures p =
     (let failed = filter (\<lambda>f. sf_role f = pr_first (pv_pair p) \<or> sf_role f = pr_second (pv_pair p)) failures in
      case read_outcome_of failed of
        ReadStopped f \<Rightarrow> Inl f
      | ReadUndecidable why \<Rightarrow>
          Inr (if is_undecidable (pv_verdict p) then p else p\<lparr>pv_verdict := VdUndecidable why\<rparr>)
      | ReadAll \<Rightarrow> Inr p)"

definition apply_reads :: "pair_verdict list \<Rightarrow> side_failure list \<Rightarrow> side_failure + pair_verdict list" where
  "apply_reads verdicts failures = res_collect (apply_read failures) verdicts"

subsection \<open>The check before a change\<close>

datatype observed = ObAbsent | ObFile string | ObDirectory | ObSymlink bytes | ObOther

datatype relisted = RlDecided observed | RlFile

fun relisted_of :: "listed_kind option \<Rightarrow> relisted" where
  "relisted_of None = RlDecided ObAbsent"
| "relisted_of (Some LkOther) = RlDecided ObOther"
| "relisted_of (Some LkDirectory) = RlDecided ObDirectory"
| "relisted_of (Some (LkSymlink target _)) = RlDecided (ObSymlink target)"
| "relisted_of (Some LkFile) = RlFile"

datatype change_check = Unchanged | Changed | CheckUndecidable undecidable

definition check_before_change :: "observed \<Rightarrow> side_failure + observed \<Rightarrow> side_failure + change_check" where
  "check_before_change compared now_state =
     (case now_state of
        Inr o1 \<Rightarrow> Inr (if o1 = compared then Unchanged else Changed)
      | Inl failed \<Rightarrow>
          if sf_failure failed = NotFound then Inr Changed
          else
            (case read_outcome_of [failed] of
               ReadStopped f \<Rightarrow> Inl f
             | ReadUndecidable why \<Rightarrow> Inr (CheckUndecidable why)
             | ReadAll \<Rightarrow> Inr Changed))"

subsection \<open>The result of a comparison\<close>

record path_comparison =
  cmp_states :: path_states
  cmp_pairs :: "pair_verdict list"
  cmp_hashes :: hashes
  cmp_contents :: "role \<Rightarrow> (op_failure + bytes) option"

datatype not_observed = NotCollected | NotHashed | NameUnreadable

definition comparison_pair :: "path_comparison \<Rightarrow> role \<Rightarrow> role \<Rightarrow> pair_verdict option" where
  "comparison_pair c f s =
     find (\<lambda>p. pr_first (pv_pair p) = f \<and> pr_second (pv_pair p) = s) (cmp_pairs c)"

definition comparison_observed :: "path_comparison \<Rightarrow> role \<Rightarrow> not_observed + observed" where
  "comparison_observed c r =
     (case pst_states (cmp_states c) r of
        None \<Rightarrow> Inl NotCollected
      | Some SsAbsent \<Rightarrow> Inr ObAbsent
      | Some SsUnreadableName \<Rightarrow> Inl NameUnreadable
      | Some SsOther \<Rightarrow> Inr ObOther
      | Some SsDirectory \<Rightarrow> Inr ObDirectory
      | Some (SsSymlink target _) \<Rightarrow> Inr (ObSymlink target)
      | Some (SsFile _ _) \<Rightarrow>
          (case cmp_hashes c r of
             Some (Inr hash) \<Rightarrow> Inr (ObFile hash)
           | _ \<Rightarrow> Inl NotHashed))"

fun has_content :: "side_state \<Rightarrow> bool" where
  "has_content (SsFile _ _) = True"
| "has_content (SsSymlink _ LpNotDirectory) = True"
| "has_content _ = False"

datatype incomplete = IncTruncated role nat | IncCycle role string

subsection \<open>Starts that leave root_dir\<close>

definition trim_slash :: "string \<Rightarrow> string" where
  "trim_slash path = trim_end_matches CHR ''/'' path"

fun elements_loop :: "string \<Rightarrow> string list \<Rightarrow> string list" where
  "elements_loop stem [] = []"
| "elements_loop stem (e # es) =
     (let stem' = (if stem = [] then e else stem @ ''/'' @ e) in stem' # elements_loop stem' es)"

definition elements :: "string \<Rightarrow> string list" where
  "elements path = elements_loop [] (filter (\<lambda>e. e \<noteq> []) (split_on CHR ''/'' (trim_slash path)))"

definition paths_to_check :: "string list \<Rightarrow> string list" where
  "paths_to_check named = map fst (bt_of (map (\<lambda>p. (p, ())) (concat (map elements named))))"

type_synonym path_facts = "string \<Rightarrow> resolved_path option"

definition resolves_outside :: "path_facts \<Rightarrow> string \<Rightarrow> string \<Rightarrow> bool" where
  "resolves_outside facts path root =
     (case facts path of Some (ResolvedSymlink _ real_path _) \<Rightarrow> \<not> is_inside real_path root | _ \<Rightarrow> False)"

text \<open>The inner loop: the shallowest symlink on the way that leaves root_dir.\<close>

fun outside_prefix :: "path_facts \<Rightarrow> string \<Rightarrow> string list \<Rightarrow> string option" where
  "outside_prefix facts root [] = None"
| "outside_prefix facts root (p # ps) =
     (if resolves_outside facts p root then Some p
      else
        (case facts p of
           Some (ResolvedExists _ _) \<Rightarrow> outside_prefix facts root ps
         | Some (ResolvedSymlink _ _ _) \<Rightarrow> outside_prefix facts root ps
         | _ \<Rightarrow> None))"

definition outside_on_the_way :: "string list \<Rightarrow> path_facts \<Rightarrow> string \<Rightarrow> string list" where
  "outside_on_the_way named facts root =
     fold (\<lambda>path out. case outside_prefix facts root (elements path) of
             Some p \<Rightarrow> push_new p out | None \<Rightarrow> out) named []"

definition links_outside :: "string list \<Rightarrow> path_facts \<Rightarrow> string \<Rightarrow> string list" where
  "links_outside links facts root = filter (\<lambda>link. resolves_outside facts link root) links"

definition blocked_starts :: "string list \<Rightarrow> path_facts \<Rightarrow> string list" where
  "blocked_starts named facts =
     filter (\<lambda>path. case facts path of Some (ResolvedAncestorNotDirectory _ _) \<Rightarrow> True | _ \<Rightarrow> False)
       (map trim_slash named)"

end
