(* ===== verification/CompareProps.thy ===== *)
theory CompareProps
  imports CompareFlow
begin

text \<open>
  Correctness of the comparison: the judgement does not depend on which side is named first, the
  table gives every side of every path exactly one fate, and the settled verdicts say what the hashes
  say.
\<close>

subsection \<open>Swapping the sides\<close>

fun swap_present :: "present \<Rightarrow> present" where
  "swap_present PresentFirst = PresentSecond"
| "swap_present PresentSecond = PresentFirst"

fun swap_undecidable :: "undecidable \<Rightarrow> undecidable" where
  "swap_undecidable UnreadableName = UnreadableName"
| "swap_undecidable (NotRegularFile rs) = NotRegularFile (rev rs)"
| "swap_undecidable (UnfollowableLink rs) = UnfollowableLink (rev rs)"
| "swap_undecidable (ReadFailed fs) = ReadFailed (rev fs)"

fun swap_verdict :: "verdict \<Rightarrow> verdict" where
  "swap_verdict (VdUndecidable why) = VdUndecidable (swap_undecidable why)"
| "swap_verdict (VdOneSided p) = VdOneSided (swap_present p)"
| "swap_verdict v = v"

fun swap_judgement :: "judgement \<Rightarrow> judgement" where
  "swap_judgement (Decided v) = Decided (swap_verdict v)"
| "swap_judgement ByContent = ByContent"

lemma same_time_sym: "same_time a b = same_time b a"
  by (auto simp: same_time_def Let_def min.commute)

lemma judge_files_sym: "judge_files a b m = judge_files b a m"
  by (auto simp: judge_files_def Let_def same_time_sym split: option.splits compare_method.splits)

lemma judge_files_swap [simp]: "swap_judgement (judge_files a b m) = judge_files a b m"
  by (auto simp: judge_files_def Let_def split: option.splits compare_method.splits)

text \<open>The judgement of two states does not depend on which side comes first: with the sides
  exchanged it is the same judgement, seen from the other side.\<close>

theorem judge_states_swap:
  "judge_states s f m = swap_judgement (judge_states f s m)"
  by (cases f; cases s)
     (auto simp: judge_states_def Let_def roles_where_def same_or_differs_def judge_files_sym
        split: side_state.split)

subsection \<open>Settled verdicts\<close>

lemma res_collect_map: "(\<And>x. x \<in> set xs \<Longrightarrow> f x = Inr (g x)) \<Longrightarrow> res_collect f xs = Inr (map g xs)"
  by (induction xs) auto

lemma settle_answered:
  assumes "hs (pr_first p) = Some (Inr a)" "hs (pr_second p) = Some (Inr b)"
  shows "settle ByContent p hs = Inr (same_or_differs (a = b))"
  using assms
  by (simp add: settle_def hash_of_def judge_hashes_def read_outcome_of_def List.map_filter_simps
      same_or_differs_def)

definition verdict_with :: "(role \<Rightarrow> string) \<Rightarrow> pair \<Rightarrow> judgement \<Rightarrow> verdict" where
  "verdict_with h p j =
     (case j of Decided v \<Rightarrow> v | ByContent \<Rightarrow> same_or_differs (h (pr_first p) = h (pr_second p)))"

text \<open>The verdict of a judged pair when every hash is there.\<close>

definition settled_with :: "(role \<Rightarrow> string) \<Rightarrow> pair_judgement \<Rightarrow> pair_verdict" where
  "settled_with h j =
     (let v = verdict_with h (pj_pair j) (pj_judgement j);
          f = map_option (verdict_with h (pj_pair j)) (pj_followed j)
      in \<lparr>pv_pair = pj_pair j,
          pv_verdict = (case f of Some x \<Rightarrow> combine_link_pair v x | None \<Rightarrow> v),
          pv_followed = f\<rparr>)"

lemma settle_with:
  assumes "j = ByContent \<Longrightarrow> hs (pr_first p) = Some (Inr (h (pr_first p))) \<and> hs (pr_second p) = Some (Inr (h (pr_second p)))"
  shows "settle j p hs = Inr (verdict_with h p j)"
  using assms settle_answered[of hs p] by (cases j) (auto simp: settle_def verdict_with_def)

text \<open>When every side that the judgements ask a hash of has answered one, settling never fails,
  and each pair judged by content is the same exactly when its two hashes are equal; what the states
  decided stays as it was, and two symlinks are combined with what they point to.\<close>

theorem settle_pairs_answered:
  assumes "\<And>r. r \<in> hash_roles judged \<Longrightarrow> hs r = Some (Inr (h r))"
  shows "settle_pairs judged hs = Inr (map (settled_with h) judged)"
  unfolding settle_pairs_def
proof (rule res_collect_map)
  fix j assume j: "j \<in> set judged"
  have h: "hs (pr_first (pj_pair j)) = Some (Inr (h (pr_first (pj_pair j))))
      \<and> hs (pr_second (pj_pair j)) = Some (Inr (h (pr_second (pj_pair j))))"
    if "pj_judgement j = ByContent \<or> pj_followed j = Some ByContent"
    using assms j that by (auto simp: hash_roles_def)
  have "settle (pj_judgement j) (pj_pair j) hs = Inr (verdict_with h (pj_pair j) (pj_judgement j))"
    using h by (intro settle_with) blast
  moreover have "settle f (pj_pair j) hs = Inr (verdict_with h (pj_pair j) f)" if "pj_followed j = Some f" for f
    using h that by (intro settle_with) blast
  ultimately show "settle_pair hs j = Inr (settled_with h j)"
    by (cases "pj_followed j") (simp_all add: settle_pair_def settled_with_def Let_def)
qed

theorem settle_pairs_answered_witness:
  "settle_pairs [\<lparr>pj_pair = \<lparr>pr_first = RoleLeft, pr_second = RoleRight\<rparr>, pj_judgement = ByContent,
       pj_followed = None\<rparr>] (\<lambda>r. Some (Inr ''h'')) =
     Inr [\<lparr>pv_pair = \<lparr>pr_first = RoleLeft, pr_second = RoleRight\<rparr>, pv_verdict = VdSame, pv_followed = None\<rparr>]"
  using settle_pairs_answered[of "[\<lparr>pj_pair = \<lparr>pr_first = RoleLeft, pr_second = RoleRight\<rparr>,
      pj_judgement = ByContent, pj_followed = None\<rparr>]" "\<lambda>r. Some (Inr ''h'')" "\<lambda>_. ''h''"]
  by (simp add: settled_with_def verdict_with_def same_or_differs_def)

subsection \<open>The check before a change\<close>

lemma read_outcome_single:
  "read_outcome_of [f] =
     (if read_failure_handling (sf_failure f) = FhUndecidable then ReadUndecidable (ReadFailed [f])
      else ReadStopped f)"
  by (cases "read_failure_handling (sf_failure f)") (simp_all add: read_outcome_of_def)


subsection \<open>The table of states\<close>

definition listed_in :: "listing \<Rightarrow> string set" where
  "listed_in l = le_path ` set (ls_entries l) \<union> set (ls_unreadable_names l)"

definition incomplete_listing :: "listing \<Rightarrow> bool" where
  "incomplete_listing l = (ls_truncated l \<or> ls_cycle l \<noteq> None)"

lemma found_in_paths: "fst ` set (found_in l) = listed_in l"
  by (simp add: found_in_def listed_in_def image_Un image_image)

lemma found_in_present: "x \<in> set (found_in l) \<Longrightarrow> fst (snd x) \<noteq> SsAbsent"
  by (auto simp: found_in_def state_of_entry_def split: listed_kind.splits)

text \<open>What a table says of one path and one side: the state, and whether it was not collected.\<close>

definition view :: "state_rows \<Rightarrow> string \<Rightarrow> role \<Rightarrow> side_state option \<times> bool" where
  "view table path r =
     (case map_of table path of
        Some st \<Rightarrow> (pst_states st r, r \<in> pst_not_collected st)
      | None \<Rightarrow> (None, False))"

lemma view_record:
  assumes "bt_ok table"
  shows "view (record_found r links (q, s, perm) table) path r' =
     (if path = q \<and> r' = r then
        (if \<exists>link \<in> set links. is_below path link then (fst (view table path r), True)
         else (Some s, snd (view table path r)))
      else view table path r')"
  using assms
  by (auto simp: view_def record_found_def Let_def bt_get_insert no_states_def split: option.splits)

lemma bt_ok_record [simp]: "bt_ok table \<Longrightarrow> bt_ok (record_found r links x table)"
  by (auto simp: record_found_def Let_def bt_ok_insert split: prod.splits)

lemma keys_record: "fst ` set (record_found r links x table) = insert (fst x) (fst ` set table)"
  by (cases x) (simp add: record_found_def Let_def set_keys_bt_insert)

lemma fold_record:
  assumes "bt_ok table"
  shows "bt_ok (fold (record_found r links) xs table)
    \<and> fst ` set (fold (record_found r links) xs table) = fst ` set xs \<union> fst ` set table
    \<and> (\<forall>r'. r' \<noteq> r \<longrightarrow> view (fold (record_found r links) xs table) path r' = view table path r')
    \<and> (path \<notin> fst ` set xs \<longrightarrow> view (fold (record_found r links) xs table) path r = view table path r)
    \<and> (path \<in> fst ` set xs \<longrightarrow>
         (if \<exists>link \<in> set links. is_below path link
          then view (fold (record_found r links) xs table) path r = (fst (view table path r), True)
          else \<exists>s \<in> (\<lambda>x. fst (snd x)) ` set xs.
                 view (fold (record_found r links) xs table) path r = (Some s, snd (view table path r))))"
  using assms
proof (induction xs arbitrary: table)
  case (Cons x xs)
  obtain q s perm where x: "x = (q, s, perm)" by (cases x) auto
  let ?t = "record_found r links x table"
  note v = view_record[OF Cons.prems, of r links q s perm path]
  note IH = Cons.IH[OF bt_ok_record[OF Cons.prems, of r links x]]
  show ?case
  proof (intro conjI)
    show "bt_ok (fold (record_found r links) (x # xs) table)" using IH by simp
    show "fst ` set (fold (record_found r links) (x # xs) table) = fst ` set (x # xs) \<union> fst ` set table"
      using IH keys_record[of r links x table] by auto
    show "\<forall>r'. r' \<noteq> r \<longrightarrow> view (fold (record_found r links) (x # xs) table) path r' = view table path r'"
      using IH v by (simp add: x)
    show "path \<notin> fst ` set (x # xs) \<longrightarrow> view (fold (record_found r links) (x # xs) table) path r = view table path r"
      using IH v by (simp add: x)
    show "path \<in> fst ` set (x # xs) \<longrightarrow>
         (if \<exists>link \<in> set links. is_below path link
          then view (fold (record_found r links) (x # xs) table) path r = (fst (view table path r), True)
          else \<exists>s \<in> (\<lambda>x. fst (snd x)) ` set (x # xs).
                 view (fold (record_found r links) (x # xs) table) path r = (Some s, snd (view table path r)))"
    proof (cases "\<exists>link \<in> set links. is_below path link")
      case True
      then show ?thesis using IH v by (cases "path \<in> fst ` set xs"; cases "path = q") (simp_all add: x)
    next
      case False
      have "view ?t path r = (if path = q then (Some s, snd (view table path r)) else view table path r)"
        using v[of r] unfolding x if_not_P[OF False] by simp
      then show ?thesis using IH False by (cases "path \<in> fst ` set xs"; cases "path = q") (auto simp: x)
    qed
  qed
qed simp

text \<open>What the first loop leaves of one side, whatever the other sides are.\<close>

definition side_view :: "listing option \<Rightarrow> string list \<Rightarrow> string \<Rightarrow> side_state option \<times> bool \<Rightarrow> bool" where
  "side_view lo links path v \<longleftrightarrow>
     (case lo of
        None \<Rightarrow> v = (None, False)
      | Some l \<Rightarrow>
          if path \<notin> listed_in l then v = (None, False)
          else if \<exists>link \<in> set links. is_below path link then v = (None, True)
          else (\<exists>s. s \<noteq> SsAbsent \<and> v = (Some s, False)))"

lemma record_side_view:
  assumes "bt_ok table" "view table path r = (None, False)"
  shows "bt_ok (record_side listings outside r table)
    \<and> side_view (listings r) (links_of outside r) path (view (record_side listings outside r table) path r)
    \<and> (\<forall>r'. r' \<noteq> r \<longrightarrow> view (record_side listings outside r table) path r' = view table path r')"
proof (cases "listings r")
  case None
  then show ?thesis using assms by (simp add: record_side_def side_view_def)
next
  case (Some l)
  note f = fold_record[OF assms(1), of r "links_of outside r" "found_in l" path]
  let ?t = "fold (record_found r (links_of outside r)) (found_in l) table"
  have t: "record_side listings outside r table = ?t" by (simp add: record_side_def Some)
  have others: "bt_ok ?t" "\<forall>r'. r' \<noteq> r \<longrightarrow> view ?t path r' = view table path r'"
    using f by (blast, blast)
  have "side_view (Some l) (links_of outside r) path (view ?t path r)"
  proof (cases "path \<in> listed_in l")
    case False
    then show ?thesis using f assms(2) unfolding found_in_paths side_view_def by simp
  next
    case listed: True
    have own: "if \<exists>link \<in> set (links_of outside r). is_below path link
        then view ?t path r = (None, True)
        else \<exists>s \<in> (\<lambda>x. fst (snd x)) ` set (found_in l). view ?t path r = (Some s, False)"
      using f listed unfolding found_in_paths assms(2) fst_conv snd_conv by blast
    show ?thesis
    proof (cases "\<exists>link \<in> set (links_of outside r). is_below path link")
      case True
      then show ?thesis using own[unfolded if_P[OF True]] listed unfolding side_view_def by simp
    next
      case False
      then obtain x where "x \<in> set (found_in l)" "view ?t path r = (Some (fst (snd x)), False)"
        using own[unfolded if_not_P[OF False]] by blast
      then show ?thesis using found_in_present[of x l] listed unfolding side_view_def option.case if_not_P[OF False]
        by simp
    qed
  qed
  then show ?thesis using others unfolding t Some by blast
qed

lemma record_sides:
  assumes "bt_ok table" "distinct rs" "\<forall>r \<in> set rs. view table path r = (None, False)"
  shows "bt_ok (fold (record_side listings outside) rs table)
    \<and> (\<forall>r \<in> set rs. side_view (listings r) (links_of outside r) path
          (view (fold (record_side listings outside) rs table) path r))
    \<and> (\<forall>r. r \<notin> set rs \<longrightarrow> view (fold (record_side listings outside) rs table) path r = view table path r)"
  using assms
proof (induction rs arbitrary: table)
  case (Cons r rs)
  let ?t = "record_side listings outside r table"
  have v: "view table path r = (None, False)" using Cons.prems(3) by simp
  note one = record_side_view[OF Cons.prems(1) v, of listings outside]
  have rest: "\<forall>r' \<in> set rs. view ?t path r' = (None, False)"
    using one Cons.prems(2,3) by (metis distinct.simps(2) list.set_intros(2))
  note IH = Cons.IH[OF _ _ rest]
  show ?case using one IH Cons.prems(2) by auto
qed simp

lemma keys_record_side:
  assumes "bt_ok table"
  shows "bt_ok (record_side listings outside r table)
    \<and> fst ` set (record_side listings outside r table) =
        (case listings r of Some l \<Rightarrow> listed_in l | None \<Rightarrow> {}) \<union> fst ` set table"
proof (cases "listings r")
  case (Some l)
  note f = fold_record[OF assms, of r "links_of outside r" "found_in l" "[]"]
  show ?thesis using f[THEN conjunct1] f[THEN conjunct2, THEN conjunct1]
    by (simp add: record_side_def found_in_paths Some)
qed (simp add: record_side_def assms)

lemma keys_record_sides:
  "bt_ok table \<Longrightarrow> fst ` set (fold (record_side listings outside) rs table) =
     (\<Union>r \<in> set rs. case listings r of Some l \<Rightarrow> listed_in l | None \<Rightarrow> {}) \<union> fst ` set table"
proof (induction rs arbitrary: table)
  case (Cons r rs)
  note k = keys_record_side[OF Cons.prems, of listings outside r]
  show ?case using Cons.IH[of "record_side listings outside r table"] k by auto
qed simp

lemma fill_side_other:
  "r' \<noteq> r \<Longrightarrow> pst_states (fill_side listings r st) r' = pst_states st r'
     \<and> (r' \<in> pst_not_collected (fill_side listings r st)) = (r' \<in> pst_not_collected st)"
  by (auto simp: fill_side_def split: option.splits)

lemma fold_fill_side:
  "distinct rs \<Longrightarrow> pst_states (fold (fill_side listings) rs st) r =
       pst_states (if r \<in> set rs then fill_side listings r st else st) r
     \<and> (r \<in> pst_not_collected (fold (fill_side listings) rs st)) =
       (r \<in> pst_not_collected (if r \<in> set rs then fill_side listings r st else st))"
proof (induction rs arbitrary: st)
  case (Cons r1 rs)
  let ?st = "fill_side listings r1 st"
  have IH: "pst_states (fold (fill_side listings) rs ?st) r =
       pst_states (if r \<in> set rs then fill_side listings r ?st else ?st) r
     \<and> (r \<in> pst_not_collected (fold (fill_side listings) rs ?st)) =
       (r \<in> pst_not_collected (if r \<in> set rs then fill_side listings r ?st else ?st))"
    using Cons by simp
  show ?case
  proof (cases "r = r1")
    case True
    then show ?thesis using IH Cons.prems by simp
  next
    case False
    have "pst_states (fill_side listings r ?st) r = pst_states (fill_side listings r st) r
        \<and> (r \<in> pst_not_collected (fill_side listings r ?st)) = (r \<in> pst_not_collected (fill_side listings r st))"
      using fill_side_other[OF False, of listings st] by (auto simp: fill_side_def split: option.splits)
    then show ?thesis using IH False fill_side_other[OF False, of listings st] by auto
  qed
qed simp

definition below_outside :: "(role \<Rightarrow> string list option) \<Rightarrow> role \<Rightarrow> string \<Rightarrow> bool" where
  "below_outside outside r path = (\<exists>link \<in> set (links_of outside r). is_below path link)"

lemma state_table_row:
  assumes "(path, st) \<in> set (state_table listings outside)"
  shows "\<exists>st0 v. side_view (listings r) (links_of outside r) path v
     \<and> v = (pst_states st0 r, r \<in> pst_not_collected st0)
     \<and> pst_states st r = pst_states (fill_side listings r st0) r
     \<and> (r \<in> pst_not_collected st) = (r \<in> pst_not_collected (fill_side listings r st0))"
proof -
  let ?t = "fold (record_side listings outside) all_roles []"
  from assms obtain st0 where st0: "(path, st0) \<in> set ?t" "st = fold (fill_side listings) all_roles st0"
    by (auto simp: state_table_def)
  have "\<forall>r \<in> set all_roles. view [] path r = (None, False)" by (simp add: view_def)
  note rs = record_sides[OF bt_ok_Nil distinct_all_roles this, of listings outside]
  have r: "r \<in> set all_roles" by simp
  have "map_of ?t path = Some st0" by (rule bt_ok_map_of[THEN iffD1, OF rs[THEN conjunct1] st0(1)])
  then have v: "view ?t path r = (pst_states st0 r, r \<in> pst_not_collected st0)" by (simp add: view_def)
  have sv: "side_view (listings r) (links_of outside r) path (view ?t path r)" using rs r by blast
  note fs = fold_fill_side[OF distinct_all_roles, of listings st0 r, unfolded if_P[OF r], folded st0(2)]
  show ?thesis
    by (rule exI[of _ st0], rule exI[of _ "view ?t path r"]) (rule conjI[OF sv conjI[OF v fs]])
qed

text \<open>C33: The table of states gives every side of every path one fate. A side that was listed has a state there or counts as not
  collected, never both and never neither: what lies below a symlink that leaves root_dir is not
  collected, and neither is what an incomplete listing does not hold; absent is only what a complete
  listing does not hold.\<close>

theorem state_table_fates:
  assumes "(path, st) \<in> set (state_table listings outside)" "listings r = Some l"
  shows "(r \<in> pst_not_collected st) =
       (if path \<in> listed_in l then below_outside outside r path else incomplete_listing l)
     \<and> (pst_states st r = None) = (r \<in> pst_not_collected st)
     \<and> (pst_states st r = Some SsAbsent) = (path \<notin> listed_in l \<and> \<not> incomplete_listing l)"
  using state_table_row[OF assms(1), of r] assms(2)
  by (auto simp: side_view_def fill_side_def below_outside_def incomplete_listing_def split: if_splits)

text \<open>A listing of one file below a symlink that leaves root_dir, and of the symlink itself.\<close>

definition sample_outside_listing :: listing where
  "sample_outside_listing =
     \<lparr>ls_entries =
        [\<lparr>le_path = ''l'', le_kind = LkSymlink ''/o'' LpDirectory, le_size = 0, le_mtime_secs = 0,
          le_mtime_nanos = 0, le_mtime_digits = 9, le_permissions = 511\<rparr>,
         \<lparr>le_path = ''l/f'', le_kind = LkFile, le_size = 1, le_mtime_secs = 0,
          le_mtime_nanos = 0, le_mtime_digits = 9, le_permissions = 420\<rparr>],
      ls_unreadable_names = [], ls_truncated = False, ls_cycle = None, ls_unresolvable_names = [],
      ls_counted = 2\<rparr>"

definition sample_outside_row :: path_states where
  "sample_outside_row =
     the (map_of (state_table [RoleLeft \<mapsto> sample_outside_listing] [RoleLeft \<mapsto> [''l'']]) ''l/f'')"

lemma map_fst_in_set: "map_of m k \<noteq> None \<Longrightarrow> (k, the (map_of m k)) \<in> set m"
  by (auto dest: map_of_SomeD)

lemma sample_outside_in_table:
  "(''l/f'', sample_outside_row)
     \<in> set (state_table [RoleLeft \<mapsto> sample_outside_listing] [RoleLeft \<mapsto> [''l'']])"
  unfolding sample_outside_row_def by (rule map_fst_in_set) code_simp

theorem state_table_fates_witness:
  "RoleLeft \<in> pst_not_collected sample_outside_row \<and> pst_states sample_outside_row RoleLeft = None"
proof -
  have l: "''l/f'' \<in> listed_in sample_outside_listing" by code_simp
  have b: "below_outside [RoleLeft \<mapsto> [''l'']] RoleLeft ''l/f''" by code_simp
  show ?thesis
    using state_table_fates[OF sample_outside_in_table, of RoleLeft sample_outside_listing] l b by simp
qed

lemma bt_ok_map_values: "bt_ok (map (\<lambda>(k, v). (k, f v)) m) = bt_ok m"
  by (simp add: bt_ok_def comp_def case_prod_beta)

text \<open>The rows of the table of states are exactly the paths some listing holds, each once and in
  order.\<close>

theorem state_table_rows:
  "bt_ok (state_table listings outside)
   \<and> fst ` set (state_table listings outside) =
       (\<Union>r. case listings r of Some l \<Rightarrow> listed_in l | None \<Rightarrow> {})"
proof -
  let ?t = "fold (record_side listings outside) all_roles []"
  have "bt_ok ?t"
    using record_sides[OF bt_ok_Nil distinct_all_roles, of "[]" listings outside] by (simp add: view_def)
  moreover have "fst ` set (state_table listings outside) = fst ` set ?t"
    by (force simp: state_table_def)
  moreover have "set all_roles = UNIV" by auto
  ultimately show ?thesis using keys_record_sides[OF bt_ok_Nil, of listings outside all_roles]
    by (simp add: state_table_def bt_ok_map_values)
qed

end
