(* ===== verification/Merge.thy ===== *)
theory Merge
  imports CompareFlow RelPath
begin

text \<open>
  What merge and sync do with a path (\<open>treat/merge.rs\<close>, \<open>merge_scope.rs\<close>, \<open>merge_reference.rs\<close> and
  \<open>merge_plan.rs\<close> of remote-merge-engine): the scope of the scan and the named paths, the entry of a
  compared path, the check against the reference, and the plan. The source of a merge is the left
  side, its destination the right one.
\<close>

subsection \<open>Entries\<close>

datatype item_kind = KdFile | KdDirectory | KdSymlink | KdOther

fun kind_of :: "side_state \<Rightarrow> item_kind" where
  "kind_of (SsFile _ _) = KdFile"
| "kind_of SsDirectory = KdDirectory"
| "kind_of (SsSymlink _ _) = KdSymlink"
| "kind_of _ = KdOther"

datatype skip_reason =
    KindMismatch item_kind item_kind
  | DestinationOnly
  | LinkNotDeleted
  | NoChanges

datatype merge_entry =
    WriteFile
  | WriteLink
  | DeleteEntry
  | SkipEntry skip_reason
  | FailEntry string
  | NotFoundEntry
  | AbsentEntry
  | NothingEntry

fun skip_text :: "skip_reason \<Rightarrow> string" where
  "skip_text (KindMismatch _ _) = ''source and destination have different file types''"
| "skip_text DestinationOnly = ''right-only file (use --delete to remove)''"
| "skip_text LinkNotDeleted = ''destination is a symlink; deletion skipped''"
| "skip_text NoChanges = ''no changes''"

fun counts_as_failure :: "skip_reason \<Rightarrow> bool" where
  "counts_as_failure (KindMismatch _ _) = True"
| "counts_as_failure _ = False"

definition written :: "side_state \<Rightarrow> merge_entry" where
  "written source =
     (case kind_of source of
        KdFile \<Rightarrow> WriteFile
      | KdSymlink \<Rightarrow> WriteLink
      | _ \<Rightarrow> NothingEntry)"

definition destination_only :: "side_state \<Rightarrow> bool \<Rightarrow> merge_entry" where
  "destination_only destination delete =
     (case (kind_of destination, delete) of
        (KdFile, True) \<Rightarrow> DeleteEntry
      | (KdSymlink, True) \<Rightarrow> SkipEntry LinkNotDeleted
      | (KdFile, False) \<Rightarrow> SkipEntry DestinationOnly
      | (KdSymlink, False) \<Rightarrow> SkipEntry DestinationOnly
      | _ \<Rightarrow> NothingEntry)"

fun link_to_directory :: "side_state \<Rightarrow> bool" where
  "link_to_directory (SsSymlink _ LpDirectory) = True"
| "link_to_directory _ = False"

definition directory_and_link_to_directory :: "side_state \<Rightarrow> side_state \<Rightarrow> bool" where
  "directory_and_link_to_directory source destination =
     ((source = SsDirectory \<and> link_to_directory destination)
      \<or> (destination = SsDirectory \<and> link_to_directory source))"

definition merge_entry_of :: "path_comparison \<Rightarrow> bool \<Rightarrow> merge_entry" where
  "merge_entry_of c delete =
     (case comparison_pair c RoleLeft RoleRight of
        None \<Rightarrow> NothingEntry
      | Some pair \<Rightarrow>
          (case (pst_states (cmp_states c) RoleLeft, pst_states (cmp_states c) RoleRight) of
             (Some source, Some destination) \<Rightarrow>
               (case pv_verdict pair of
                  VdBothAbsent \<Rightarrow> AbsentEntry
                | VdUndecidable why \<Rightarrow> FailEntry (show_undecidable why)
                | VdOneSided PresentFirst \<Rightarrow> written source
                | VdOneSided PresentSecond \<Rightarrow> destination_only destination delete
                | VdKindDiffers \<Rightarrow>
                    if directory_and_link_to_directory source destination then NothingEntry
                    else SkipEntry (KindMismatch (kind_of source) (kind_of destination))
                | VdDiffers \<Rightarrow> written source
                | VdSame \<Rightarrow> NothingEntry)
           | _ \<Rightarrow> NothingEntry))"

fun is_kind_mismatch :: "merge_entry \<Rightarrow> bool" where
  "is_kind_mismatch (SkipEntry (KindMismatch _ _)) = True"
| "is_kind_mismatch _ = False"

text \<open>The loop of \<open>without_skipped_subtrees\<close>, with the skipped paths so far.\<close>

fun drop_skipped :: "string list \<Rightarrow> (string \<times> merge_entry) list \<Rightarrow> (string \<times> merge_entry) list" where
  "drop_skipped skipped [] = []"
| "drop_skipped skipped ((path, entry) # rest) =
     (if \<exists>root \<in> set skipped. is_below path root then drop_skipped skipped rest
      else
        (path, entry) # drop_skipped (if is_kind_mismatch entry then skipped @ [path] else skipped) rest)"

definition without_skipped_subtrees :: "(string \<times> merge_entry) list \<Rightarrow> (string \<times> merge_entry) list" where
  "without_skipped_subtrees entries = drop_skipped [] entries"

definition exit_success :: int where "exit_success = 0"
definition exit_error :: int where "exit_error = 2"

definition merge_exit_code :: "bool \<Rightarrow> skip_reason list \<Rightarrow> int" where
  "merge_exit_code failed skipped =
     (if failed \<or> (\<exists>reason \<in> set skipped. counts_as_failure reason) then exit_error else exit_success)"

subsection \<open>The scope and the named paths\<close>

definition many_paths :: nat where "many_paths = 21"

datatype merge_scope = MergeWhole | MergeBelow "string list"

record merge_targets =
  tg_scope :: merge_scope
  tg_named :: "string list"
  tg_named_set :: "string set"

definition targets_new :: "merge_scope \<Rightarrow> string list \<Rightarrow> merge_targets" where
  "targets_new scope named = \<lparr>tg_scope = scope, tg_named = named, tg_named_set = set named\<rparr>"

definition selects :: "merge_targets \<Rightarrow> string \<Rightarrow> bool" where
  "selects targets path =
     (tg_named targets = [] \<or> (\<exists>candidate \<in> set (path # ancestors path). candidate \<in> tg_named_set targets))"

definition scope_parent :: "string \<Rightarrow> string" where
  "scope_parent path = (case rsplit_once CHR ''/'' path of None \<Rightarrow> [] | Some (parent, _) \<Rightarrow> parent)"

definition merge_targets_of :: "rel_path list \<Rightarrow> bool \<Rightarrow> merge_targets" where
  "merge_targets_of paths delete =
     (if \<exists>path \<in> set paths. normalized (typed path) = [] then targets_new MergeWhole []
      else
        (let named = fold (\<lambda>path. push_new (normalized (typed path))) paths [];
             with_slash = length (filter (\<lambda>path. typed path \<noteq> [] \<and> last (typed path) = CHR ''/'') paths);
             glob = (\<exists>path \<in> set paths. set (typed path) \<inter> {CHR ''*'', CHR ''?'', CHR ''[''} \<noteq> {});
             mixed = (with_slash \<noteq> 0 \<and> with_slash \<noteq> length paths)
         in
         if delete \<or> glob \<or> mixed \<or> length paths \<ge> many_paths then targets_new MergeWhole named
         else
           (let dirs = (if with_slash = length paths then named else map scope_parent named) in
            if [] \<in> set dirs then targets_new MergeWhole named
            else targets_new (MergeBelow (fold push_new dirs [])) named)))"

subsection \<open>The check against the reference\<close>

datatype reference_failure =
    DestinationChanged
  | ReferenceConflict
  | NotInReference
  | ReferenceIncomplete
  | ReferenceUndecidable string

datatype reference_check = RefWrite | RefFail reference_failure

fun reference_text :: "reference_failure \<Rightarrow> string" where
  "reference_text DestinationChanged = ''destination changed since reference''"
| "reference_text ReferenceConflict = ''three-way conflict''"
| "reference_text NotInReference =
     ''destination exists but is not in the reference, so it cannot be told unchanged''"
| "reference_text ReferenceIncomplete = ''three-way comparison incomplete''"
| "reference_text (ReferenceUndecidable why) = why"

definition by_verdict :: "path_comparison \<Rightarrow> role \<Rightarrow> bool" where
  "by_verdict c r = (map_option pv_verdict (comparison_pair c r RoleRef) = Some VdSame)"

definition same_as_reference :: "path_comparison \<Rightarrow> role \<Rightarrow> bool option" where
  "same_as_reference c r =
     (case (pst_states (cmp_states c) r, pst_states (cmp_states c) RoleRef) of
        (Some (SsFile _ _), Some (SsFile _ _)) \<Rightarrow>
          (case (cmp_hashes c r, cmp_hashes c RoleRef) of
             (Some (Inr h), Some (Inr reference)) \<Rightarrow> Some (h = reference)
           | (Some (Inl _), _) \<Rightarrow> None
           | (_, Some (Inl _)) \<Rightarrow> None
           | _ \<Rightarrow> Some (by_verdict c r))
      | (Some (SsSymlink target _), Some (SsSymlink reference _)) \<Rightarrow> Some (target = reference)
      | _ \<Rightarrow> Some (by_verdict c r))"

text \<open>The loop over the verdicts of the three pairs: the failure it returns early with.\<close>

fun verdicts_failure :: "verdict option list \<Rightarrow> reference_failure option" where
  "verdicts_failure [] = None"
| "verdicts_failure (v # vs) =
     (case v of
        None \<Rightarrow> Some ReferenceIncomplete
      | Some (VdUndecidable (ReadFailed _)) \<Rightarrow> Some ReferenceIncomplete
      | Some (VdUndecidable why) \<Rightarrow> Some (ReferenceUndecidable (show_undecidable why))
      | Some _ \<Rightarrow> verdicts_failure vs)"

definition real_kind :: "item_kind option \<Rightarrow> bool" where
  "real_kind k = (k \<in> {Some KdFile, Some KdDirectory, Some KdSymlink})"

definition reference_check_of :: "path_comparison \<Rightarrow> reference_check" where
  "reference_check_of c =
     (let state = pst_states (cmp_states c);
          present = (\<lambda>r. state r \<noteq> None \<and> state r \<noteq> Some SsAbsent);
          v = (\<lambda>f s. map_option pv_verdict (comparison_pair c f s)) in
      if \<not> present RoleRight then
        (if \<not> present RoleRef then RefWrite else RefFail DestinationChanged)
      else if \<not> present RoleRef then RefFail NotInReference
      else
        (let source = map_option kind_of (state RoleLeft);
             destination = map_option kind_of (state RoleRight);
             reference = map_option kind_of (state RoleRef) in
         if real_kind source \<and> destination = source \<and> real_kind reference \<and> reference \<noteq> source
         then RefFail ReferenceConflict
         else
           (case verdicts_failure [v RoleLeft RoleRight, v RoleLeft RoleRef, v RoleRight RoleRef] of
              Some failure \<Rightarrow> RefFail failure
            | None \<Rightarrow>
                (let changed = (\<lambda>r. map_option Not (same_as_reference c r)) in
                 case (changed RoleLeft, changed RoleRight) of
                   (None, _) \<Rightarrow> RefFail ReferenceIncomplete
                 | (_, None) \<Rightarrow> RefFail ReferenceIncomplete
                 | (_, Some False) \<Rightarrow> RefWrite
                 | (Some False, Some True) \<Rightarrow> RefFail DestinationChanged
                 | (Some True, Some True) \<Rightarrow> RefFail ReferenceConflict))))"

subsection \<open>The plan\<close>

type_synonym merge_plan = "(string \<times> merge_entry) list"

definition change_counts :: "merge_plan \<Rightarrow> nat \<times> nat" where
  "change_counts plan =
     (length (filter (\<lambda>(_, entry). entry = WriteFile \<or> entry = WriteLink) plan),
      length (filter (\<lambda>(_, entry). entry = DeleteEntry) plan))"

fun skip_reason_of :: "merge_entry \<Rightarrow> skip_reason option" where
  "skip_reason_of (SkipEntry reason) = Some reason"
| "skip_reason_of _ = None"

definition skip_reasons :: "merge_plan \<Rightarrow> skip_reason list" where
  "skip_reasons plan = List.map_filter (\<lambda>(_, entry). skip_reason_of entry) plan"

record missing_names =
  mn_names :: "string list"
  mn_all_missing :: bool

definition not_found_names :: "merge_plan \<Rightarrow> string list" where
  "not_found_names plan = map fst (filter (\<lambda>(_, entry). entry = NotFoundEntry) plan)"

definition missing_names_of :: "merge_plan option list \<Rightarrow> nat \<Rightarrow> missing_names" where
  "missing_names_of plans named =
     fold (\<lambda>plan m.
        (case plan of
           None \<Rightarrow> m\<lparr>mn_all_missing := False\<rparr>
         | Some p \<Rightarrow>
             (let found = not_found_names p in
              m\<lparr>mn_names := mn_names m @ found,
                mn_all_missing := (mn_all_missing m \<and> length found = named)\<rparr>)))
       plans \<lparr>mn_names = [], mn_all_missing = (named > 0)\<rparr>"

definition link_unverifiable :: string where
  "link_unverifiable =
     ''the destination symlink target is not plain UTF-8, so it cannot be told unchanged since it was compared''"

definition source_link_not_utf8 :: string where
  "source_link_not_utf8 = ''the link target of the source is not valid UTF-8''"

text \<open>The replacement character U+FFFD, as bytes.\<close>

definition replacement_character :: string where
  "replacement_character = [CHR 0xEF, CHR 0xBF, CHR 0xBD]"

definition destination_link_unverifiable :: "path_comparison \<Rightarrow> bool" where
  "destination_link_unverifiable c =
     (case pst_states (cmp_states c) RoleRight of
        Some (SsSymlink target _) \<Rightarrow> \<not> is_utf8 target \<or> str_contains replacement_character target
      | _ \<Rightarrow> False)"

definition source_link_is_utf8 :: "path_comparison \<Rightarrow> bool" where
  "source_link_is_utf8 c =
     (case pst_states (cmp_states c) RoleLeft of
        Some (SsSymlink target _) \<Rightarrow> is_utf8 target
      | _ \<Rightarrow> True)"

definition skipped_over_a_directory :: "merge_entry \<Rightarrow> path_comparison \<Rightarrow> bool" where
  "skipped_over_a_directory entry c =
     (is_kind_mismatch entry
      \<and> (case pst_states (cmp_states c) RoleRight of
           Some s \<Rightarrow> s = SsDirectory \<or> link_to_directory s
         | None \<Rightarrow> False))"

definition with_destination_read_failure :: "merge_entry \<Rightarrow> path_comparison \<Rightarrow> merge_entry" where
  "with_destination_read_failure entry c =
     (case cmp_hashes c RoleRight of
        Some (Inl failure) \<Rightarrow>
          (let right = \<lparr>sf_role = RoleRight, sf_failure = failure\<rparr> in
           case read_outcome_of [right] of
             ReadStopped _ \<Rightarrow> entry
           | _ \<Rightarrow>
               (let sides = (case map_option pv_verdict (comparison_pair c RoleLeft RoleRight) of
                      Some (VdUndecidable (ReadFailed sides)) \<Rightarrow> sides | _ \<Rightarrow> []);
                    failed = FailEntry (show_undecidable (ReadFailed
                       (if \<exists>side \<in> set sides. sf_role side = RoleRight then sides else sides @ [right])))
                in
                case entry of
                  WriteFile \<Rightarrow> failed
                | WriteLink \<Rightarrow> failed
                | DeleteEntry \<Rightarrow> failed
                | FailEntry _ \<Rightarrow> if sides \<noteq> [] then failed else entry
                | _ \<Rightarrow> entry))
      | _ \<Rightarrow> entry)"

text \<open>The entry a considered path is listed with, if it is.\<close>

definition planned_entry :: "path_comparison \<Rightarrow> bool \<Rightarrow> merge_entry \<Rightarrow> merge_entry option" where
  "planned_entry c ref_check entry =
     (let e = with_destination_read_failure entry c in
      if e = WriteLink \<and> destination_link_unverifiable c then Some (FailEntry link_unverifiable)
      else if e = WriteLink \<and> \<not> source_link_is_utf8 c then Some (FailEntry source_link_not_utf8)
      else if e = AbsentEntry \<or> e = NothingEntry then None
      else if (e = WriteFile \<or> e = WriteLink) \<and> ref_check then
        (case reference_check_of c of
           RefWrite \<Rightarrow> Some e
         | RefFail failure \<Rightarrow> Some (FailEntry (reference_text failure)))
      else Some e)"

type_synonym compared_paths = "(string \<times> path_comparison) list"

definition missing_named :: "compared_paths \<Rightarrow> merge_targets \<Rightarrow> bool \<Rightarrow> string list" where
  "missing_named paths targets delete =
     filter (\<lambda>name. case map_of paths name of
          None \<Rightarrow> True
        | Some c \<Rightarrow> merge_entry_of c delete = AbsentEntry) (tg_named targets)"

definition plan_path ::
  "merge_targets \<Rightarrow> bool \<Rightarrow> bool \<Rightarrow> string set \<Rightarrow> string set \<Rightarrow> string \<times> path_comparison
     \<Rightarrow> (string \<times> merge_entry) option" where
  "plan_path targets delete ref_check missing_set ancestors_of_found x =
     (case x of (path, c) \<Rightarrow>
       if path \<in> missing_set then None
       else
         (let entry = merge_entry_of c delete;
              considered = (selects targets path
                \<or> (tg_scope targets = MergeWhole \<and> path \<in> ancestors_of_found
                   \<and> skipped_over_a_directory entry c))
          in if considered then map_option (Pair path) (planned_entry c ref_check entry) else None))"

definition merge_plan_of :: "compared_paths \<Rightarrow> merge_targets \<Rightarrow> bool \<Rightarrow> bool \<Rightarrow> merge_plan" where
  "merge_plan_of paths targets delete ref_check =
     (let missing = missing_named paths targets delete;
          missing_set = set missing;
          ancestors_of_found =
            (\<Union>name \<in> {name \<in> set (tg_named targets). name \<notin> missing_set}. set (ancestors name));
          entries = List.map_filter (plan_path targets delete ref_check missing_set ancestors_of_found) paths
      in sort_key fst (without_skipped_subtrees entries @ map (\<lambda>name. (name, NotFoundEntry)) missing))"

subsection \<open>Results\<close>

datatype merge_outcome =
    OutMerged "string option" "string option"
  | OutWouldMerge "string option"
  | OutDeleted "string option"
  | OutWouldDelete
  | OutSkipped string
  | OutFailed string
  | OutFailedAfterChange string

record hunk_merge_info =
  hm_applied :: "nat list"
  hm_total :: nat
  hm_direction :: string

record merge_file_result =
  mf_path :: string
  mf_status :: string
  mf_backup :: "string option"
  mf_ref_badge :: "string option"
  mf_hunk_info :: "hunk_merge_info option"

definition copy_note :: "merge_file_result \<Rightarrow> string option" where
  "copy_note r =
     (if mf_status r = ''would merge'' \<and> mf_hunk_info r = None
      then Some ''Copies source bytes unchanged, without encoding conversion'' else None)"

datatype delete_status = DsOk | DsWouldDelete

record delete_file_result =
  df_path :: string
  df_status :: delete_status
  df_backup :: "string option"

record target_lists =
  tl_merged :: "merge_file_result list"
  tl_skipped :: "(string \<times> string) list"
  tl_deleted :: "delete_file_result list"
  tl_failed :: "(string \<times> string) list"
  tl_changed_but_failed :: bool

definition lists_empty :: target_lists where
  "lists_empty = \<lparr>tl_merged = [], tl_skipped = [], tl_deleted = [], tl_failed = [], tl_changed_but_failed = False\<rparr>"

definition lists_is_empty :: "target_lists \<Rightarrow> bool" where
  "lists_is_empty l = (tl_merged l = [] \<and> tl_skipped l = [] \<and> tl_deleted l = [] \<and> tl_failed l = [])"

definition add_outcome :: "string \<times> merge_outcome \<Rightarrow> target_lists \<Rightarrow> target_lists" where
  "add_outcome x l =
     (case x of (path, out) \<Rightarrow>
       (case out of
          OutMerged backup badge \<Rightarrow>
            l\<lparr>tl_merged := tl_merged l @ [\<lparr>mf_path = path, mf_status = ''ok'', mf_backup = backup, mf_ref_badge = badge, mf_hunk_info = None\<rparr>]\<rparr>
        | OutWouldMerge badge \<Rightarrow>
            l\<lparr>tl_merged := tl_merged l @ [\<lparr>mf_path = path, mf_status = ''would merge'', mf_backup = None, mf_ref_badge = badge, mf_hunk_info = None\<rparr>]\<rparr>
        | OutDeleted backup \<Rightarrow>
            l\<lparr>tl_deleted := tl_deleted l @ [\<lparr>df_path = path, df_status = DsOk, df_backup = backup\<rparr>]\<rparr>
        | OutWouldDelete \<Rightarrow>
            l\<lparr>tl_deleted := tl_deleted l @ [\<lparr>df_path = path, df_status = DsWouldDelete, df_backup = None\<rparr>]\<rparr>
        | OutSkipped reason \<Rightarrow> l\<lparr>tl_skipped := tl_skipped l @ [(path, reason)]\<rparr>
        | OutFailed err \<Rightarrow> l\<lparr>tl_failed := tl_failed l @ [(path, err)]\<rparr>
        | OutFailedAfterChange err \<Rightarrow>
            l\<lparr>tl_changed_but_failed := True, tl_failed := tl_failed l @ [(path, err)]\<rparr>))"

definition target_lists_of :: "(string \<times> merge_outcome) list \<Rightarrow> target_lists" where
  "target_lists_of outcomes = fold add_outcome (sort_key fst outcomes) lists_empty"

end
