(* ===== verification/Uses.thy ===== *)
theory Uses
  imports Merge
begin

text \<open>
  What each command asks the comparison to hash and to read (\<open>treat/uses.rs\<close> and
  \<open>treat/merge_uses.rs\<close> of remote-merge-engine): the trait \<open>Uses\<close> of \<open>compare/comparison.rs\<close> and its
  four implementations. A trait object is a record of its three methods.
\<close>

record uses =
  us_hashes :: "string \<Rightarrow> path_states \<Rightarrow> pair_judgement list \<Rightarrow> role set"
  us_contents :: "string \<Rightarrow> path_states \<Rightarrow> pair_verdict list \<Rightarrow> role set"
  us_judges_reference :: "path_states \<Rightarrow> bool"

definition is_file_state :: "path_states \<Rightarrow> role \<Rightarrow> bool" where
  "is_file_state st r = (case pst_states st r of Some (SsFile _ _) \<Rightarrow> True | _ \<Rightarrow> False)"

subsection \<open>status\<close>

definition status_kind :: "path_states \<Rightarrow> role \<Rightarrow> item_kind option" where
  "status_kind st r =
     (case pst_states st r of
        None \<Rightarrow> None
      | Some s \<Rightarrow> if kind_of s \<noteq> KdOther then Some (kind_of s) else None)"

definition nothing_used :: uses where
  "nothing_used =
     \<lparr>us_hashes = (\<lambda>_ _ _. {}), us_contents = (\<lambda>_ _ _. {}),
      us_judges_reference =
        (\<lambda>st. status_kind st RoleLeft \<noteq> None \<and> status_kind st RoleLeft = status_kind st RoleRight)\<rparr>"

subsection \<open>diff\<close>

definition sides_are_files_or_absent :: "path_states \<Rightarrow> bool" where
  "sides_are_files_or_absent st =
     (\<forall>r \<in> {RoleLeft, RoleRight}. is_file_state st r \<or> pst_states st r = Some SsAbsent)"

definition reference_is_compared :: "path_states \<Rightarrow> bool" where
  "reference_is_compared st = (is_file_state st RoleRef \<and> sides_are_files_or_absent st)"

fun changed_verdict :: "verdict \<Rightarrow> bool" where
  "changed_verdict VdDiffers = True"
| "changed_verdict (VdOneSided _) = True"
| "changed_verdict VdKindDiffers = True"
| "changed_verdict _ = False"

definition is_left_right :: "pair \<Rightarrow> bool" where
  "is_left_right p = (pr_first p = RoleLeft \<and> pr_second p = RoleRight)"

definition diff_contents :: "bool \<Rightarrow> string \<Rightarrow> path_states \<Rightarrow> pair_verdict list \<Rightarrow> role set" where
  "diff_contents reference path st verdicts =
     (if \<not> (\<exists>v \<in> set verdicts. is_left_right (pv_pair v) \<and> changed_verdict (pv_verdict v)) then {}
      else
        (let sides_inside = (RoleLeft \<notin> pst_outside st \<and> RoleRight \<notin> pst_outside st);
             roles = {RoleLeft, RoleRight}
               \<union> (if reference \<and> sides_inside \<and> reference_is_compared st then {RoleRef} else {})
         in {r \<in> roles. r \<notin> pst_outside st}))"

definition diff_uses :: "bool \<Rightarrow> uses" where
  "diff_uses reference =
     \<lparr>us_hashes = (\<lambda>_ _ _. {}), us_contents = diff_contents reference,
      us_judges_reference = sides_are_files_or_absent\<rparr>"

subsection \<open>merge and sync\<close>

record merge_uses =
  mu_targets :: merge_targets
  mu_delete :: bool
  mu_dry_run :: bool
  mu_reference_check :: bool

text \<open>What a judgement of the two sides makes of the destination: is it written, is it changed.\<close>

fun writes_changes :: "bool \<Rightarrow> judgement \<Rightarrow> bool \<times> bool" where
  "writes_changes delete ByContent = (True, True)"
| "writes_changes delete (Decided VdDiffers) = (True, True)"
| "writes_changes delete (Decided (VdOneSided PresentFirst)) = (True, False)"
| "writes_changes delete (Decided (VdOneSided PresentSecond)) = (False, delete)"
| "writes_changes delete (Decided _) = (False, False)"

definition merge_hashes :: "merge_uses \<Rightarrow> string \<Rightarrow> path_states \<Rightarrow> pair_judgement list \<Rightarrow> role set" where
  "merge_hashes u path st judged =
     (if \<not> selects (mu_targets u) path then {}
      else
        (case map_option pj_judgement (find (\<lambda>j. is_left_right (pj_pair j)) judged) of
           None \<Rightarrow> {}
         | Some j \<Rightarrow>
             (let (writes, changes) = writes_changes (mu_delete u) j in
              (if changes \<and> is_file_state st RoleRight then {RoleRight} else {})
              \<union> (if mu_reference_check u \<and> writes
                  then {r \<in> {RoleLeft, RoleRight, RoleRef}. is_file_state st r} else {}))))"

fun verdict_writes :: "verdict \<Rightarrow> bool" where
  "verdict_writes VdDiffers = True"
| "verdict_writes (VdOneSided PresentFirst) = True"
| "verdict_writes _ = False"

definition merge_contents :: "merge_uses \<Rightarrow> string \<Rightarrow> path_states \<Rightarrow> pair_verdict list \<Rightarrow> role set" where
  "merge_contents u path st verdicts =
     (if \<not> selects (mu_targets u) path \<or> mu_dry_run u then {}
      else
        (case map_option pv_verdict (find (\<lambda>v. is_left_right (pv_pair v)) verdicts) of
           None \<Rightarrow> {}
         | Some v \<Rightarrow> {r \<in> {RoleLeft}. verdict_writes v \<and> is_file_state st r}))"

definition uses_of_merge :: "merge_uses \<Rightarrow> uses" where
  "uses_of_merge u =
     \<lparr>us_hashes = merge_hashes u, us_contents = merge_contents u, us_judges_reference = (\<lambda>_. True)\<rparr>"

subsection \<open>merge of hunks\<close>

record hunk_uses =
  hu_path :: string
  hu_reference :: bool

definition hunk_hashes :: "hunk_uses \<Rightarrow> string \<Rightarrow> path_states \<Rightarrow> pair_judgement list \<Rightarrow> role set" where
  "hunk_hashes u path st judged =
     (if path \<noteq> hu_path u then {} else {r \<in> {RoleRight}. is_file_state st r})"

definition hunk_contents :: "hunk_uses \<Rightarrow> string \<Rightarrow> path_states \<Rightarrow> pair_verdict list \<Rightarrow> role set" where
  "hunk_contents u path st verdicts =
     (if path \<noteq> hu_path u then {}
      else {r \<in> {RoleLeft, RoleRight} \<union> (if hu_reference u then {RoleRef} else {}). is_file_state st r})"

definition uses_of_hunks :: "hunk_uses \<Rightarrow> uses" where
  "uses_of_hunks u =
     \<lparr>us_hashes = hunk_hashes u, us_contents = hunk_contents u, us_judges_reference = (\<lambda>_. True)\<rparr>"

end
