(* ===== verification/Sides.thy ===== *)
theory Sides
  imports Prelude
begin

text \<open>
  The sides a command compares (\<open>side.rs\<close> and \<open>treat/sides.rs\<close> of remote-merge-engine): this
  machine or a server of the configuration, and how the options of a command name them.
\<close>

datatype side = LocalSide | RemoteSide string

definition side_new :: "string \<Rightarrow> side" where
  "side_new name = (if name = ''local'' then LocalSide else RemoteSide name)"

fun display_name :: "side \<Rightarrow> string" where
  "display_name LocalSide = ''local''"
| "display_name (RemoteSide name) = name"

fun server_name :: "side \<Rightarrow> string option" where
  "server_name LocalSide = None"
| "server_name (RemoteSide name) = Some name"

fun is_remote :: "side \<Rightarrow> bool" where
  "is_remote (RemoteSide _) = True"
| "is_remote LocalSide = False"

type_synonym sides_error = string

definition known_side :: "string \<Rightarrow> string list \<Rightarrow> sides_error + side" where
  "known_side name servers =
     (case side_new name of
        LocalSide \<Rightarrow> Inr LocalSide
      | RemoteSide server \<Rightarrow>
          if server \<in> set servers then Inr (RemoteSide server)
          else Inl (''Server '' @ single_quoted server @ '' not found in config''))"

definition default_server :: "string list \<Rightarrow> sides_error + side" where
  "default_server servers =
     (case sort servers of
        [] \<Rightarrow> Inl ''no server is configured, so the default server cannot be used as a side''
      | name # _ \<Rightarrow> Inr (RemoteSide name))"

definition different_sides :: "side \<Rightarrow> side \<Rightarrow> sides_error + unit" where
  "different_sides l r =
     (if l = r
      then Inl (''--left and --right must be different (both resolved to ''
                 @ single_quoted (display_name l) @ '')'')
      else Inr ())"

definition compared_sides :: "string option \<Rightarrow> string option \<Rightarrow> string list \<Rightarrow> sides_error + side \<times> side" where
  "compared_sides l r servers =
     res_bind (case l of Some name \<Rightarrow> known_side name servers | None \<Rightarrow> Inr LocalSide) (\<lambda>left_side.
     res_bind (case r of Some name \<Rightarrow> known_side name servers | None \<Rightarrow> default_server servers) (\<lambda>right_side.
       if r = None \<and> left_side = right_side
       then Inl (''--left and --right must be different (both resolved to ''
                  @ single_quoted (display_name left_side)
                  @ ''; --right was not given and the default server is ''
                  @ single_quoted (display_name right_side) @ '')'')
       else res_bind (different_sides left_side right_side) (\<lambda>_. Inr (left_side, right_side))))"

definition merge_sides :: "string option \<Rightarrow> string option \<Rightarrow> string list \<Rightarrow> sides_error + side \<times> side" where
  "merge_sides l r servers =
     (case (l, r) of
        (Some l', Some r') \<Rightarrow>
          res_bind (known_side l' servers) (\<lambda>left_side.
          res_bind (known_side r' servers) (\<lambda>right_side.
          res_bind (different_sides left_side right_side) (\<lambda>_. Inr (left_side, right_side))))
      | _ \<Rightarrow> Inl (''--left and --right are required for merge command ''
                   @ ''(e.g. --left local --right staging)''))"

text \<open>The loop over the named targets, with those taken so far.\<close>

fun sync_loop :: "side \<Rightarrow> string list \<Rightarrow> side list \<Rightarrow> string list \<Rightarrow> sides_error + side list" where
  "sync_loop source servers targets [] = Inr targets"
| "sync_loop source servers targets (name # names) =
     res_bind (known_side name servers) (\<lambda>target.
       if target \<in> set targets then Inl (''Duplicate target server: '' @ display_name target)
       else res_bind (different_sides source target) (\<lambda>_. sync_loop source servers (targets @ [target]) names))"

definition sync_sides :: "string option \<Rightarrow> string list \<Rightarrow> string list \<Rightarrow> sides_error + side \<times> side list" where
  "sync_sides l r servers =
     (case l of
        None \<Rightarrow> Inl ''--left is required for sync command''
      | Some name \<Rightarrow>
          if r = [] then Inl ''--right requires at least one target server for sync command''
          else
            res_bind (known_side name servers) (\<lambda>source.
            res_bind (sync_loop source servers [] r) (\<lambda>targets. Inr (source, targets))))"

datatype reference_use = NoReference | UseReference side | SkippedReference string

definition skipped_reference :: "string \<Rightarrow> reference_use" where
  "skipped_reference which =
     SkippedReference (''Warning: --ref server is the same as '' @ which @ '' side; ref comparison skipped.'')"

definition reference_side ::
  "string option \<Rightarrow> side \<times> side \<Rightarrow> string list \<Rightarrow> sides_error + reference_use" where
  "reference_side reference sides servers =
     (case reference of
        None \<Rightarrow> Inr NoReference
      | Some name \<Rightarrow>
          res_bind (known_side name servers) (\<lambda>s.
            Inr (if s = fst sides then skipped_reference ''left''
                 else if s = snd sides then skipped_reference ''right''
                 else UseReference s)))"

definition remote_to_remote_blocked :: "side \<Rightarrow> side \<Rightarrow> bool \<Rightarrow> bool \<Rightarrow> bool" where
  "remote_to_remote_blocked l r force dry_run = (is_remote l \<and> is_remote r \<and> \<not> force \<and> \<not> dry_run)"

text \<open>A side is usable when it is this machine or a server of the configuration.\<close>

definition usable_side :: "string list \<Rightarrow> side \<Rightarrow> bool" where
  "usable_side servers s = (\<forall>name. s = RemoteSide name \<longrightarrow> name \<in> set servers)"

lemma known_side_usable: "known_side name servers = Inr s \<Longrightarrow> usable_side servers s"
  by (auto simp: known_side_def usable_side_def split: side.splits if_splits)

lemma default_server_usable: "default_server servers = Inr s \<Longrightarrow> usable_side servers s"
  by (auto simp: default_server_def usable_side_def split: list.splits)
     (metis list.set_intros(1) set_sort)

lemma sync_loop_ok:
  assumes "sync_loop source servers targets names = Inr r"
    "distinct targets" "source \<notin> set targets" "\<forall>t \<in> set targets. usable_side servers t"
  shows "distinct r \<and> source \<notin> set r \<and> (\<forall>t \<in> set r. usable_side servers t)
     \<and> length r = length targets + length names"
  using assms
proof (induction source servers targets names rule: sync_loop.induct)
  case (2 source servers targets name names)
  from 2(2) obtain t where t: "known_side name servers = Inr t" "t \<notin> set targets" "source \<noteq> t"
      "sync_loop source servers (targets @ [t]) names = Inr r"
    by (auto simp: res_simps different_sides_def split: if_splits)
  have more: "distinct (targets @ [t])" "source \<notin> set (targets @ [t])"
      "\<forall>u \<in> set (targets @ [t]). usable_side servers u"
    using 2 t known_side_usable by auto
  show ?case using 2(1)[OF t(2,4) more] by simp
qed simp

text \<open>Sync never writes to a side twice, never to the side it reads from, and only to this machine
  or to servers of the configuration; every named target is one of its targets.\<close>

theorem sync_sides_distinct:
  assumes "sync_sides l names servers = Inr (source, targets)"
  shows "distinct targets \<and> source \<notin> set targets \<and> length targets = length names \<and> targets \<noteq> []
     \<and> (\<forall>s \<in> insert source (set targets). usable_side servers s)"
proof -
  from assms obtain name where n: "names \<noteq> []" "known_side name servers = Inr source"
      "sync_loop source servers [] names = Inr targets"
    by (auto simp: sync_sides_def res_simps split: option.splits if_splits)
  show ?thesis using sync_loop_ok[OF n(3)] n known_side_usable[OF n(2)] by auto
qed

theorem sync_sides_distinct_witness:
  "distinct [RemoteSide ''b'', RemoteSide ''a''] \<and> LocalSide \<notin> set [RemoteSide ''b'', RemoteSide ''a'']"
proof -
  have "sync_sides (Some ''local'') [''b'', ''a''] [''a'', ''b''] =
      Inr (LocalSide, [RemoteSide ''b'', RemoteSide ''a''])"
    by code_simp
  from sync_sides_distinct[OF this] show ?thesis by blast
qed

end
