(* ===== verification/CompareReads.thy ===== *)
theory CompareReads
  imports Uses Sides
begin

text \<open>
  The second half of a comparison (\<open>runtime/compare_reads.rs\<close>, \<open>compare_answers.rs\<close> and
  \<open>compare_request.rs\<close>): judge every row of the table, take the hashes the judgements and the command
  ask for in one question per side, settle the pairs, read the contents the command uses, and settle
  again.

  The routes to the machines are a parameter: the two questions, whether a side was stopped by a
  lost connection, and how an error is shown. They thread a state of their own. An index into a map
  that has no such key would panic; it is \<open>RsPanic\<close>.
\<close>

subsection \<open>The request\<close>

datatype compare_scope = CsWhole | CsBelow "string list" | CsEntries "string list"

datatype external_links = ExternalFollow | ExternalStop

datatype unfollowable_links = UnfollowableReport | UnfollowableStop

definition unresolvable_entry :: "listed_entry \<Rightarrow> bool" where
  "unresolvable_entry e =
     (case le_kind e of LkSymlink _ p \<Rightarrow> p = LpUnresolvable | _ \<Rightarrow> False)"

definition check_unfollowable :: "unfollowable_links \<Rightarrow> listing \<Rightarrow> scan_failure + unit" where
  "check_unfollowable u l =
     (if u = UnfollowableReport then Inr ()
      else
        (case map le_path (filter unresolvable_entry (ls_entries l)) @ ls_unresolvable_names l of
           [] \<Rightarrow> Inr ()
         | p # ps \<Rightarrow> Inl (UnresolvableLink (Min (set (p # ps))))))"

datatype entry_limit = LimitWhole | LimitPerDirectory

fun left_after :: "entry_limit \<Rightarrow> nat \<Rightarrow> nat \<Rightarrow> nat" where
  "left_after LimitWhole max_entries counted = max_entries - counted"
| "left_after LimitPerDirectory max_entries counted = max_entries"

fun grouped :: "entry_limit \<Rightarrow> scan_scope \<Rightarrow> scan_scope" where
  "grouped LimitWhole (ScopeStarts starts) = ScopeStarts (map (\<lambda>s. s\<lparr>st_group := 0\<rparr>) starts)"
| "grouped _ scope = scope"

datatype lost_destination = StopCommand | FailPaths

record named_files =
  nf_paths :: "string set"
  nf_method :: compare_method

record compare_request =
  cq_scope :: compare_scope
  cq_max_entries :: nat
  cq_entry_limit :: entry_limit
  cq_counted_before :: "role \<Rightarrow> nat option"
  cq_method :: compare_method
  cq_named_files :: "named_files option"
  cq_follow :: follow
  cq_external_links :: external_links
  cq_content_limit :: size_limit
  cq_unfollowable_links :: unfollowable_links
  cq_lost_destination :: lost_destination

definition method_for :: "compare_request \<Rightarrow> string \<Rightarrow> compare_method" where
  "method_for q path =
     (case cq_named_files q of
        Some named \<Rightarrow> if path \<in> nf_paths named then nf_method named else cq_method q
      | None \<Rightarrow> cq_method q)"

record compare_sides =
  cs_left :: side
  cs_right :: side
  cs_reference :: "side option"

definition by_role :: "compare_sides \<Rightarrow> role \<Rightarrow> side option" where
  "by_role sides r =
     (case r of
        RoleLeft \<Rightarrow> Some (cs_left sides)
      | RoleRight \<Rightarrow> Some (cs_right sides)
      | RoleRef \<Rightarrow> cs_reference sides
      | RoleTarget \<Rightarrow> None)"

subsection \<open>Questions\<close>

type_synonym 'a by_path = "(string \<times> (op_failure + 'a)) list"

datatype 'x read_stop = RsError "'x cause list" | RsPanic

type_synonym ('w, 'x, 'a) question_to =
  "'w \<Rightarrow> side \<Rightarrow> entry_path list \<Rightarrow> 'w \<times> ('x cause list + 'a by_path)"

record ('w, 'x) routes =
  rt_hash :: "('w, 'x, string) question_to"
  rt_read :: "size_limit \<Rightarrow> ('w, 'x, bytes) question_to"
  rt_stopped :: "'w \<Rightarrow> side \<Rightarrow> bool"
  rt_show :: "'x cause list \<Rightarrow> string"
  rt_bad_path :: "rel_path_error \<Rightarrow> 'x cause list"

definition unanswered :: "role \<Rightarrow> side_failure" where
  "unanswered r =
     \<lparr>sf_role = r, sf_failure = Disconnected (NoAnswer ''no answer for a path that was asked'')\<rparr>"

definition disconnected_error :: "string \<Rightarrow> side_failure \<Rightarrow> 'x cause list" where
  "disconnected_error path lost = [CauseOp (op_error_new OpHash path (sf_failure lost))]"

text \<open>An answer that was kept is used for a path that was not asked again.\<close>

definition add_known :: "'a by_path \<Rightarrow> string \<Rightarrow> 'a by_path \<Rightarrow> 'a by_path" where
  "add_known known path answered =
     (if map_of answered path = None then
        (case map_of known path of Some a \<Rightarrow> bt_insert path a answered | None \<Rightarrow> answered)
      else answered)"

definition extend_paths :: "'a by_path \<Rightarrow> 'a by_path \<Rightarrow> 'a by_path" where
  "extend_paths new known = fold (\<lambda>(path, a). bt_insert path a) new known"

definition ask_side ::
  "('w, 'x) routes \<Rightarrow> ('w, 'x, 'a) question_to \<Rightarrow> role \<Rightarrow> side \<Rightarrow> string list \<Rightarrow> 'w \<Rightarrow> 'a by_path option
     \<Rightarrow> 'w \<times> 'a by_path option \<times> ('x cause list + 'a by_path)" where
  "ask_side rt question r s paths w known =
     (let to_ask = filter (\<lambda>p. case known of None \<Rightarrow> True | Some k \<Rightarrow> map_of k p = None) paths in
      case res_collect entry_parse to_ask of
        Inl e \<Rightarrow> (w, known, Inl (rt_bad_path rt e))
      | Inr entries \<Rightarrow>
          (case (if entries = [] then (w, Inr []) else question w s entries) of
             (w', Inl e) \<Rightarrow> (w', known, Inl e)
           | (w', Inr answers) \<Rightarrow>
               (let answered = bt_of answers;
                    known' = map_option (extend_paths answered) known;
                    answered' = (case known' of None \<Rightarrow> answered | Some k \<Rightarrow> fold (add_known k) paths answered)
                in
                case find (\<lambda>p. map_of answered' p = None) paths of
                  Some p \<Rightarrow> (w', known', Inl (disconnected_error p (unanswered r)))
                | None \<Rightarrow> (w', known', Inr answered'))))"

definition lost_destination_of ::
  "('w, 'x) routes \<Rightarrow> compare_request \<Rightarrow> 'w \<Rightarrow> role \<Rightarrow> side \<Rightarrow> 'x cause list \<Rightarrow> side_failure option" where
  "lost_destination_of rt q w r s err =
     (if cq_lost_destination q \<noteq> FailPaths \<or> r \<noteq> RoleRight \<or> \<not> rt_stopped rt w s then None
      else
        Some \<lparr>sf_role = r,
              sf_failure = (case failure_of err of
                  Some f \<Rightarrow> f | None \<Rightarrow> Disconnected (NoAnswer (rt_show rt err)))\<rparr>)"

text \<open>What one round of questions threads: the state of the routes and the kept answers of one side.\<close>

record ('w, 'a) asking =
  ak_world :: 'w
  ak_cache :: "(side \<times> 'a by_path) option"

type_synonym 'a answers = "role \<Rightarrow> 'a by_path option"

fun ask_roles ::
  "('w, 'x) routes \<Rightarrow> ('w, 'x, 'a) question_to \<Rightarrow> compare_request \<Rightarrow> (role \<Rightarrow> side option)
     \<Rightarrow> (role \<Rightarrow> string list option) \<Rightarrow> role list \<Rightarrow> ('w, 'a) asking
     \<Rightarrow> 'a answers \<Rightarrow> side_failure option
     \<Rightarrow> ('w, 'a) asking \<times> ('x read_stop + 'a answers \<times> side_failure option)" where
  "ask_roles rt question q sides wanted [] st answers lost = (st, Inr (answers, lost))"
| "ask_roles rt question q sides wanted (r # rs) st answers lost =
     (case wanted r of
        None \<Rightarrow> ask_roles rt question q sides wanted rs st answers lost
      | Some paths \<Rightarrow>
          (case sides r of
             None \<Rightarrow> (st, Inl RsPanic)
           | Some s \<Rightarrow>
               (let known = (case ak_cache st of
                       Some (cached, k) \<Rightarrow> if cached = s then Some k else None | None \<Rightarrow> None);
                    (w', known', result) = ask_side rt question r s paths (ak_world st) known;
                    st' = \<lparr>ak_world = w',
                           ak_cache = (case known' of Some k \<Rightarrow> Some (s, k) | None \<Rightarrow> ak_cache st)\<rparr>
                in
                case result of
                  Inr answered \<Rightarrow>
                    ask_roles rt question q sides wanted rs st' (answers(r \<mapsto> answered)) lost
                | Inl err \<Rightarrow>
                    (case lost_destination_of rt q w' r s err of
                       Some failed \<Rightarrow> ask_roles rt question q sides wanted rs st' answers (Some failed)
                     | None \<Rightarrow> (st', Inl (RsError err))))))"

definition ask_by_role ::
  "('w, 'x) routes \<Rightarrow> ('w, 'x, 'a) question_to \<Rightarrow> compare_request \<Rightarrow> (role \<Rightarrow> side option)
     \<Rightarrow> (role \<Rightarrow> string list option) \<Rightarrow> ('w, 'a) asking
     \<Rightarrow> ('w, 'a) asking \<times> ('x read_stop + 'a answers \<times> side_failure option)" where
  "ask_by_role rt question q sides wanted st =
     ask_roles rt question q sides wanted all_roles st Map.empty None"

text \<open>The answers for one path. The code moves them out of the map; a path of the table is looked up
  once, so reading them is the same.\<close>

definition take_answers :: "'a answers \<Rightarrow> string \<Rightarrow> role \<Rightarrow> (op_failure + 'a) option" where
  "take_answers answers path r =
     (case answers r of Some by_path \<Rightarrow> map_of by_path path | None \<Rightarrow> None)"

subsection \<open>Judging and reading\<close>

definition wanted :: "(string \<times> path_states \<times> role set) list \<Rightarrow> role \<Rightarrow> string list option" where
  "wanted rows r =
     (let paths = map fst (filter (\<lambda>(path, st, roles).
            r \<in> roles \<and> (case pst_states st r of Some s \<Rightarrow> has_content s | None \<Rightarrow> False)) rows)
      in if paths = [] then None else Some paths)"

definition judge_row :: "compare_request \<Rightarrow> uses \<Rightarrow> string \<Rightarrow> path_states \<Rightarrow> pair_judgement list" where
  "judge_row q u path st =
     (let judged = judge_pairs st (method_for q path) (cq_follow q) in
      if us_judges_reference u st then judged
      else filter (\<lambda>j. pr_second (pj_pair j) \<noteq> RoleRef) judged)"

definition hash_wants :: "compare_request \<Rightarrow> uses \<Rightarrow> state_rows \<Rightarrow> role \<Rightarrow> string list option" where
  "hash_wants q u table =
     wanted (map (\<lambda>(path, st).
       (path, st, hash_roles (judge_row q u path st) \<union> us_hashes u path st (judge_row q u path st))) table)"

text \<open>The paths of the question that was lost; \<open>None\<close> where the index would panic.\<close>

definition lost_paths :: "side_failure option \<Rightarrow> (role \<Rightarrow> string list option) \<Rightarrow> string list option" where
  "lost_paths lost asked =
     (case lost of None \<Rightarrow> Some [] | Some l \<Rightarrow> asked (sf_role l))"

definition settle_row ::
  "compare_request \<Rightarrow> uses \<Rightarrow> string answers \<Rightarrow> side_failure option \<Rightarrow> string list
     \<Rightarrow> string \<times> path_states \<Rightarrow> 'x read_stop + string \<times> path_comparison" where
  "settle_row q u hash_answers lost lost_hash_paths row =
     (case row of (path, st) \<Rightarrow>
       (let hashed = take_answers hash_answers path;
            unanswered_of = (if path \<in> set lost_hash_paths then lost else None) in
        case settle_or_lost (judge_row q u path st) hashed unanswered_of of
          Inl l \<Rightarrow> Inl (RsError (disconnected_error path l))
        | Inr pairs \<Rightarrow>
            Inr (path, \<lparr>cmp_states = st, cmp_pairs = pairs, cmp_hashes = hashed, cmp_contents = Map.empty\<rparr>)))"

definition read_wants :: "uses \<Rightarrow> (string \<times> path_comparison) list \<Rightarrow> role \<Rightarrow> string list option" where
  "read_wants u paths =
     wanted (map (\<lambda>(path, c). (path, cmp_states c, us_contents u path (cmp_states c) (cmp_pairs c))) paths)"

text \<open>A destination that was stopped is not asked.\<close>

definition without_lost :: "side_failure option \<Rightarrow> (role \<Rightarrow> string list option) \<Rightarrow> role \<Rightarrow> string list option" where
  "without_lost lost to_read = (case lost of Some l \<Rightarrow> to_read(sf_role l := None) | None \<Rightarrow> to_read)"

definition content_failures :: "(role \<Rightarrow> (op_failure + bytes) option) \<Rightarrow> side_failure list" where
  "content_failures contents =
     List.map_filter (\<lambda>r. case contents r of
        Some (Inl failure) \<Rightarrow> Some \<lparr>sf_role = r, sf_failure = failure\<rparr> | _ \<Rightarrow> None) all_roles"

definition read_row ::
  "bytes answers \<Rightarrow> side_failure option \<Rightarrow> string list \<Rightarrow> string \<times> path_comparison
     \<Rightarrow> 'x read_stop + string \<times> path_comparison" where
  "read_row content_answers lost_read lost_read_paths row =
     (case row of (path, c) \<Rightarrow>
       (let contents = take_answers content_answers path;
            pairs = cmp_pairs c in
        case (if path \<in> set lost_read_paths then lost_read else None) of
          Some l \<Rightarrow> Inr (path, c\<lparr>cmp_contents := contents, cmp_pairs := lose_pairs pairs l\<rparr>)
        | None \<Rightarrow>
            (case apply_reads pairs (content_failures contents) of
               Inl l \<Rightarrow> Inl (RsError (disconnected_error path l))
             | Inr pairs' \<Rightarrow> Inr (path, c\<lparr>cmp_contents := contents, cmp_pairs := pairs'\<rparr>))))"

record asked =
  as_hashed :: "string list"
  as_read :: "string list"

definition asked_of ::
  "(role \<Rightarrow> string list option) \<Rightarrow> (role \<Rightarrow> string list option) \<Rightarrow> role \<Rightarrow> asked option" where
  "asked_of hashed contents r =
     (case (hashed r, contents r) of
        (None, None) \<Rightarrow> None
      | (h, c) \<Rightarrow> Some \<lparr>as_hashed = (case h of Some ps \<Rightarrow> ps | None \<Rightarrow> []),
                       as_read = (case c of Some ps \<Rightarrow> ps | None \<Rightarrow> [])\<rparr>)"

text \<open>The answers kept from an earlier comparison: of one side, its hashes and its contents.\<close>

record reused =
  ru_side :: side
  ru_hashes :: "string by_path"
  ru_contents :: "bytes by_path"

definition kept_hashes :: "reused option \<Rightarrow> ('w, string) asking \<Rightarrow> reused option" where
  "kept_hashes ru st =
     map_option (\<lambda>k. case ak_cache st of Some (_, m) \<Rightarrow> k\<lparr>ru_hashes := m\<rparr> | None \<Rightarrow> k) ru"

definition kept_contents :: "reused option \<Rightarrow> ('w, bytes) asking \<Rightarrow> reused option" where
  "kept_contents ru st =
     map_option (\<lambda>k. case ak_cache st of Some (_, m) \<Rightarrow> k\<lparr>ru_contents := m\<rparr> | None \<Rightarrow> k) ru"

text \<open>The second question and what follows it.\<close>

definition read_stage ::
  "('w, 'x) routes \<Rightarrow> compare_request \<Rightarrow> uses \<Rightarrow> (role \<Rightarrow> side option) \<Rightarrow> (role \<Rightarrow> string list option)
     \<Rightarrow> side_failure option \<Rightarrow> (string \<times> path_comparison) list \<Rightarrow> 'w \<Rightarrow> reused option
     \<Rightarrow> 'w \<times> reused option \<times> ('x read_stop + (string \<times> path_comparison) list \<times> (role \<Rightarrow> asked option))" where
  "read_stage rt q u sides to_hash lost paths w ru =
     (let to_read = without_lost lost (read_wants u paths);
          cache = map_option (\<lambda>k. (ru_side k, ru_contents k)) ru;
          (st, result) = ask_by_role rt (rt_read rt (cq_content_limit q)) q sides to_read
             \<lparr>ak_world = w, ak_cache = cache\<rparr>;
          ru' = kept_contents ru st in
      (ak_world st, ru',
       res_bind result (\<lambda>(contents, lost_read).
         case lost_paths lost_read to_read of
           None \<Rightarrow> Inl RsPanic
         | Some lost_read_paths \<Rightarrow>
             res_bind (res_collect (read_row contents lost_read lost_read_paths) paths)
               (\<lambda>paths'. Inr (paths', asked_of to_hash to_read)))))"

definition judge_and_read ::
  "('w, 'x) routes \<Rightarrow> compare_request \<Rightarrow> uses \<Rightarrow> compare_sides \<Rightarrow> state_rows \<Rightarrow> 'w \<Rightarrow> reused option
     \<Rightarrow> 'w \<times> reused option \<times> ('x read_stop + (string \<times> path_comparison) list \<times> (role \<Rightarrow> asked option))" where
  "judge_and_read rt q u compared table w ru =
     (let sides = by_role compared;
          to_hash = hash_wants q u table;
          cache = map_option (\<lambda>k. (ru_side k, ru_hashes k)) ru;
          (st, result) = ask_by_role rt (rt_hash rt) q sides to_hash \<lparr>ak_world = w, ak_cache = cache\<rparr>;
          ru' = kept_hashes ru st in
      case result of
        Inl e \<Rightarrow> (ak_world st, ru', Inl e)
      | Inr (hash_answers, lost) \<Rightarrow>
          (case lost_paths lost to_hash of
             None \<Rightarrow> (ak_world st, ru', Inl RsPanic)
           | Some lost_hash_paths \<Rightarrow>
               (case res_collect (settle_row q u hash_answers lost lost_hash_paths) table of
                  Inl e \<Rightarrow> (ak_world st, ru', Inl e)
                | Inr paths \<Rightarrow> read_stage rt q u sides to_hash lost paths (ak_world st) ru')))"

end
