(* ===== verification/MergeProps.thy ===== *)
theory MergeProps
  imports Merge
begin

text \<open>
  Correctness of the merge plan: the skipped subtrees, the named paths and the scope of the scan, and
  what a plan may write and delete.
\<close>

subsection \<open>Skipped subtrees\<close>

lemma below_less: "is_below path base \<Longrightarrow> base < path"
  using list_less_append by (auto simp: is_below_iff)

definition below_mismatch :: "(string \<times> merge_entry) list \<Rightarrow> string \<Rightarrow> bool" where
  "below_mismatch entries path =
     (\<exists>y \<in> set entries. is_kind_mismatch (snd y) \<and> is_below path (fst y))"

lemma drop_skipped_filter:
  assumes "sorted_wrt (<) (map fst entries)"
  shows "drop_skipped skipped entries =
     filter (\<lambda>x. \<not> (\<exists>root \<in> set skipped. is_below (fst x) root) \<and> \<not> below_mismatch entries (fst x)) entries"
  using assms
proof (induction skipped entries rule: drop_skipped.induct)
  case (2 skipped path entry rest)
  have sorted: "sorted_wrt (<) (map fst rest)" "\<forall>y \<in> set rest. path < fst y" using 2(3) by auto
  have not_above: "\<not> is_below path (fst y)" if "y \<in> set rest" for y
    using sorted(2) that below_less[of path "fst y"] by force
  have cons: "below_mismatch ((path, entry) # rest) q =
      (is_kind_mismatch entry \<and> is_below q path \<or> below_mismatch rest q)" for q
    by (auto simp: below_mismatch_def)
  show ?case
  proof (cases "\<exists>root \<in> set skipped. is_below path root")
    case True
    then have "is_below q path \<Longrightarrow> \<exists>root \<in> set skipped. is_below q root" for q
      using is_below_trans by blast
    then have "filter (\<lambda>x. \<not> (\<exists>root \<in> set skipped. is_below (fst x) root) \<and> \<not> below_mismatch rest (fst x)) rest =
        filter (\<lambda>x. \<not> (\<exists>root \<in> set skipped. is_below (fst x) root)
          \<and> \<not> below_mismatch ((path, entry) # rest) (fst x)) rest"
      unfolding cons by (intro filter_cong) auto
    then show ?thesis using 2(1)[OF True sorted(1)] True by simp
  next
    case False
    have head: "\<not> below_mismatch ((path, entry) # rest) path"
      using not_above is_below_irrefl by (auto simp: below_mismatch_def)
    have "drop_skipped (if is_kind_mismatch entry then skipped @ [path] else skipped) rest =
        filter (\<lambda>x. \<not> (\<exists>root \<in> set skipped. is_below (fst x) root)
          \<and> \<not> below_mismatch ((path, entry) # rest) (fst x)) rest"
      unfolding 2(2)[OF False sorted(1)] cons by (intro filter_cong) auto
    then show ?thesis using False head by simp
  qed
qed simp

lemma without_skipped_subtrees_exact_aux:
  assumes "sorted_wrt (<) (map fst entries)"
  shows "without_skipped_subtrees entries = filter (\<lambda>x. \<not> below_mismatch entries (fst x)) entries"
  using drop_skipped_filter[OF assms] by (simp add: without_skipped_subtrees_def)

text \<open>The single pass over the entries in the order of their paths drops exactly the entries below a
  path that is skipped because the two sides have different kinds: what the pass remembers of the
  skipped paths it kept is enough, though a skipped path may itself lie below another.\<close>

theorem without_skipped_subtrees_exact:
  assumes "sorted_wrt (<) (map fst entries)"
  shows "without_skipped_subtrees entries = filter (\<lambda>x. \<not> below_mismatch entries (fst x)) entries"
  using assms by (rule without_skipped_subtrees_exact_aux)

theorem without_skipped_subtrees_exact_witness:
  "without_skipped_subtrees
     [(''d'', SkipEntry (KindMismatch KdFile KdDirectory)), (''d-x'', WriteFile), (''d/e'', DeleteEntry)] =
   [(''d'', SkipEntry (KindMismatch KdFile KdDirectory)), (''d-x'', WriteFile)]"
proof -
  let ?es = "[(''d'', SkipEntry (KindMismatch KdFile KdDirectory)), (''d-x'', WriteFile), (''d/e'', DeleteEntry)]"
  have "sorted_wrt (<) (map fst ?es)" by simp
  moreover have "filter (\<lambda>x. \<not> below_mismatch ?es (fst x)) ?es =
      [(''d'', SkipEntry (KindMismatch KdFile KdDirectory)), (''d-x'', WriteFile)]"
    by code_simp
  ultimately show ?thesis using without_skipped_subtrees_exact by metis
qed

subsection \<open>Named paths and the scope\<close>

lemma selects_new: "selects (targets_new scope named) path = (named = [] \<or> (\<exists>n \<in> set named. is_within path n))"
  by (auto simp: selects_def targets_new_def set_ancestors is_within_def)

lemma scope_new [simp]: "tg_scope (targets_new scope named) = scope"
  by (simp add: targets_new_def)

lemma set_fold_push: "set (fold (\<lambda>x. push_new (f x)) xs acc) = set acc \<union> f ` set xs"
  by (induction xs arbitrary: acc) auto

lemma distinct_fold_push: "distinct acc \<Longrightarrow> distinct (fold (\<lambda>x. push_new (f x)) xs acc)"
  by (induction xs arbitrary: acc) auto

lemma scope_parent_above:
  assumes "scope_parent n \<noteq> []" "is_within path n"
  shows "is_below path (scope_parent n)"
proof -
  obtain a b where "rsplit_once CHR ''/'' n = Some (a, b)" "scope_parent n = a"
    using assms(1) by (auto simp: scope_parent_def split: option.splits)
  then have "is_below n (scope_parent n)" using rsplit_once_Some by (fastforce simp: is_below_iff)
  then show ?thesis using assms(2) is_below_trans by (auto simp: is_within_def)
qed

lemma targets_named:
  assumes "\<not> (\<exists>path \<in> set paths. normalized (typed path) = [])"
  shows "\<exists>scope. merge_targets_of paths delete =
       targets_new scope (fold (\<lambda>path. push_new (normalized (typed path))) paths [])"
  using assms by (auto simp: merge_targets_of_def Let_def)

lemma targets_below:
  assumes "tg_scope (merge_targets_of paths delete) = MergeBelow dirs"
  shows "\<not> delete \<and> (\<exists>ds \<in> {fold (\<lambda>path. push_new (normalized (typed path))) paths [],
             map scope_parent (fold (\<lambda>path. push_new (normalized (typed path))) paths [])}.
           [] \<notin> set ds \<and> dirs = fold push_new ds [])"
proof -
  define named where "named = fold (\<lambda>path. push_new (normalized (typed path))) paths []"
  show ?thesis
    using assms unfolding merge_targets_of_def Let_def named_def[symmetric]
    by (simp split: if_split_asm)
qed

text \<open>Merge treats exactly the paths the user named and what lies below them, whatever the scope of
  its scan is; and when it scans only some directories, every path it treats is one of them or lies
  below one, the directories are named once, none is the whole root_dir, and nothing is deleted.\<close>

theorem merge_targets_cover:
  assumes "paths \<noteq> []"
  shows "selects (merge_targets_of paths delete) p =
       (\<exists>q \<in> set paths. normalized (typed q) = [] \<or> is_within p (normalized (typed q)))
     \<and> (\<forall>dirs. tg_scope (merge_targets_of paths delete) = MergeBelow dirs \<longrightarrow>
          distinct dirs \<and> [] \<notin> set dirs \<and> \<not> delete
          \<and> (selects (merge_targets_of paths delete) p \<longrightarrow> (\<exists>d \<in> set dirs. is_within p d)))"
proof (cases "\<exists>path \<in> set paths. normalized (typed path) = []")
  case True
  then show ?thesis by (auto simp: merge_targets_of_def selects_new)
next
  case False
  let ?named = "fold (\<lambda>path. push_new (normalized (typed path))) paths []"
  have named: "set ?named = (\<lambda>q. normalized (typed q)) ` set paths" by (simp add: set_fold_push)
  then have ne: "?named \<noteq> []" using assms by (metis image_is_empty set_empty)
  obtain scope where t: "merge_targets_of paths delete = targets_new scope ?named"
    using targets_named[OF False] by blast
  have sel: "selects (merge_targets_of paths delete) p =
      (\<exists>q \<in> set paths. normalized (typed q) = [] \<or> is_within p (normalized (typed q)))"
    unfolding t selects_new named using ne False by auto
  have dirs: "distinct dirs \<and> [] \<notin> set dirs \<and> \<not> delete
      \<and> (set dirs = set ?named \<or> set dirs = scope_parent ` set ?named)"
    if below: "tg_scope (merge_targets_of paths delete) = MergeBelow dirs" for dirs
  proof -
    obtain ds where ds: "ds = ?named \<or> ds = map scope_parent ?named" "[] \<notin> set ds" "\<not> delete"
        "dirs = fold push_new ds []"
      using targets_below[OF below] by blast
    have "set dirs = set ds" "distinct dirs"
      using ds(4) set_fold_push[of "\<lambda>x. x" ds "[]"] distinct_fold_push[of "[]" "\<lambda>x. x" ds] by simp_all
    then show ?thesis using ds(1-3) by (elim disjE) simp_all
  qed
  have cover: "\<exists>d \<in> set dirs. is_within p d"
    if d: "tg_scope (merge_targets_of paths delete) = MergeBelow dirs"
      and s: "selects (merge_targets_of paths delete) p" for dirs
  proof -
    from s obtain n where n: "n \<in> set ?named" "is_within p n" using ne unfolding t selects_new by blast
    from dirs[OF d] consider "n \<in> set dirs" | "scope_parent n \<in> set dirs" "scope_parent n \<noteq> []"
      using n(1) by (metis imageI)
    then show ?thesis using n(2) scope_parent_above[of n p] by cases (auto simp: is_within_def)
  qed
  show ?thesis using sel dirs cover by blast
qed

theorem merge_targets_cover_witness:
  "selects (merge_targets_of [\<lparr>typed = ''d/a''\<rparr>] False) ''d/a/f''
   \<and> (\<exists>d \<in> set [''d'']. is_within ''d/a/f'' d)"
proof -
  have "tg_scope (merge_targets_of [\<lparr>typed = ''d/a''\<rparr>] False) = MergeBelow [''d'']" by code_simp
  moreover have "is_within ''d/a/f'' (normalized ''d/a'')" by code_simp
  ultimately show ?thesis
    using merge_targets_cover[of "[\<lparr>typed = ''d/a''\<rparr>]" False "''d/a/f''"] by simp
qed

subsection \<open>What a plan may change\<close>

definition left_right_verdict :: "path_comparison \<Rightarrow> verdict option" where
  "left_right_verdict c = map_option pv_verdict (comparison_pair c RoleLeft RoleRight)"

definition absent_side :: "path_comparison \<Rightarrow> role \<Rightarrow> bool" where
  "absent_side c r = (pst_states (cmp_states c) r \<in> {None, Some SsAbsent})"

definition side_kind :: "path_comparison \<Rightarrow> role \<Rightarrow> item_kind option" where
  "side_kind c r = map_option kind_of (pst_states (cmp_states c) r)"

text \<open>What must hold of a compared path for each of the three changes.\<close>

definition may_change :: "path_comparison \<Rightarrow> bool \<Rightarrow> merge_entry \<Rightarrow> bool" where
  "may_change c delete e =
     (case e of
        WriteFile \<Rightarrow> left_right_verdict c \<in> {Some VdDiffers, Some (VdOneSided PresentFirst)}
                       \<and> side_kind c RoleLeft = Some KdFile
      | WriteLink \<Rightarrow> left_right_verdict c \<in> {Some VdDiffers, Some (VdOneSided PresentFirst)}
                       \<and> side_kind c RoleLeft = Some KdSymlink
                       \<and> source_link_is_utf8 c \<and> \<not> destination_link_unverifiable c
      | DeleteEntry \<Rightarrow> delete \<and> left_right_verdict c = Some (VdOneSided PresentSecond)
                       \<and> side_kind c RoleRight = Some KdFile
      | _ \<Rightarrow> False)"

definition unchanged_since_reference :: "path_comparison \<Rightarrow> bool" where
  "unchanged_since_reference c =
     ((absent_side c RoleRight \<and> absent_side c RoleRef)
      \<or> (\<not> absent_side c RoleRight \<and> \<not> absent_side c RoleRef \<and> same_as_reference c RoleRight = Some True))"

definition destination_hash_read :: "path_comparison \<Rightarrow> bool" where
  "destination_hash_read c =
     (\<forall>f. cmp_hashes c RoleRight = Some (Inl f) \<longrightarrow> read_failure_handling f \<noteq> FhUndecidable)"

fun changes_destination :: "merge_entry \<Rightarrow> bool" where
  "changes_destination WriteFile = True"
| "changes_destination WriteLink = True"
| "changes_destination DeleteEntry = True"
| "changes_destination _ = False"

lemma changes_iff: "changes_destination e \<longleftrightarrow> e = WriteFile \<or> e = WriteLink \<or> e = DeleteEntry"
  by (cases e) simp_all

lemma reference_write:
  assumes "reference_check_of c = RefWrite"
  shows "unchanged_since_reference c"
  using assms
  by (auto simp: reference_check_of_def Let_def unchanged_since_reference_def absent_side_def
      split: if_splits option.splits bool.splits)

lemma entry_may_change:
  assumes "merge_entry_of c delete = e"
  shows "e = WriteFile \<or> e = DeleteEntry \<Longrightarrow> may_change c delete e"
    and "e = WriteLink \<Longrightarrow> source_link_is_utf8 c \<Longrightarrow> \<not> destination_link_unverifiable c
      \<Longrightarrow> may_change c delete e"
  using assms
  by (auto simp: merge_entry_of_def may_change_def left_right_verdict_def side_kind_def written_def
      destination_only_def split: option.splits verdict.splits present.splits item_kind.splits
        if_splits bool.splits)

lemma read_failure_entry:
  "with_destination_read_failure e c = e' \<Longrightarrow> changes_destination e' \<Longrightarrow> e' = e \<and> destination_hash_read c"
  by (cases e)
     (auto simp: with_destination_read_failure_def destination_hash_read_def Let_def read_outcome_of_def
        split: option.splits sum.splits read_outcome.splits failure_handling.splits if_splits)

lemma planned_change:
  assumes "planned_entry c ref_check (merge_entry_of c delete) = Some e" "changes_destination e"
  shows "may_change c delete e \<and> destination_hash_read c \<and> e = merge_entry_of c delete
     \<and> (ref_check \<longrightarrow> e \<noteq> DeleteEntry \<longrightarrow> unchanged_since_reference c)"
proof -
  let ?e = "with_destination_read_failure (merge_entry_of c delete) c"
  from assms have e: "?e = e" "e = WriteLink \<Longrightarrow> source_link_is_utf8 c \<and> \<not> destination_link_unverifiable c"
      "ref_check \<Longrightarrow> e \<noteq> DeleteEntry \<Longrightarrow> reference_check_of c = RefWrite"
    by (auto simp: planned_entry_def Let_def changes_iff split: if_splits reference_check.splits)
  have "merge_entry_of c delete = e" "destination_hash_read c"
    using read_failure_entry[OF e(1) assms(2)] by simp_all
  then show ?thesis using entry_may_change[of c delete e] e assms(2) reference_write
    by (cases e) auto
qed

lemma kind_mismatch_planned:
  assumes "planned_entry c ref_check e = Some e'" "is_kind_mismatch e"
  shows "e' = e"
  using assms
  by (cases e rule: is_kind_mismatch.cases)
     (auto simp: planned_entry_def with_destination_read_failure_def Let_def
        split: option.splits sum.splits read_outcome.splits)

lemma planned_mismatch:
  assumes "planned_entry c ref_check e = Some e'" "is_kind_mismatch e'"
  shows "is_kind_mismatch e"
  using assms
  by (cases e)
     (auto simp: planned_entry_def with_destination_read_failure_def Let_def
        split: option.splits sum.splits read_outcome.splits if_splits reference_check.splits)

lemma plan_path_key: "plan_path targets delete ref_check missing up x = Some y \<Longrightarrow> fst y = fst x"
  by (auto simp: plan_path_def Let_def split: prod.splits if_splits)

lemma map_filter_keys:
  assumes "sorted_wrt (<) (map fst xs)" "\<And>x y. f x = Some y \<Longrightarrow> fst y = fst x"
  shows "sorted_wrt (<) (map fst (List.map_filter f xs))"
  using assms(1)
proof (induction xs)
  case (Cons x xs)
  have "fst ` set (List.map_filter f xs) \<subseteq> fst ` set xs"
    using assms(2) by (force simp: set_map_filter)
  then have "\<forall>y \<in> set (List.map_filter f xs). fst x < fst y"
    using Cons.prems by (metis (no_types, lifting) image_eqI image_subset_iff list.simps(9) set_map sorted_wrt.simps(2) subsetD)
  then show ?case using Cons assms(2)[of x] by (simp add: List.map_filter_simps split: option.split)
qed (simp add: List.map_filter_simps)

definition plan_entries :: "compared_paths \<Rightarrow> merge_targets \<Rightarrow> bool \<Rightarrow> bool \<Rightarrow> merge_plan" where
  "plan_entries paths targets delete ref_check =
     List.map_filter
       (plan_path targets delete ref_check (set (missing_named paths targets delete))
         (\<Union>name \<in> {name \<in> set (tg_named targets). name \<notin> set (missing_named paths targets delete)}.
            set (ancestors name))) paths"

lemma merge_plan_eq:
  "bt_ok paths \<Longrightarrow> merge_plan_of paths targets delete ref_check =
     sort_key fst
       (filter (\<lambda>x. \<not> below_mismatch (plan_entries paths targets delete ref_check) (fst x))
          (plan_entries paths targets delete ref_check)
        @ map (\<lambda>name. (name, NotFoundEntry)) (missing_named paths targets delete))"
  unfolding merge_plan_of_def Let_def plan_entries_def[symmetric]
  by (subst without_skipped_subtrees_exact_aux)
     (auto simp: plan_entries_def bt_ok_def intro!: map_filter_keys plan_path_key)

lemma plan_entry_cases:
  assumes "(path, e) \<in> set (plan_entries paths targets delete ref_check)"
  obtains c where "(path, c) \<in> set paths" "path \<notin> set (missing_named paths targets delete)"
    "planned_entry c ref_check (merge_entry_of c delete) = Some e"
    "selects targets path \<or> is_kind_mismatch e"
  using assms kind_mismatch_planned
  by (fastforce simp: plan_entries_def set_map_filter plan_path_def Let_def skipped_over_a_directory_def
      split: prod.splits if_splits)

lemma planned_not_found: "planned_entry c ref_check (merge_entry_of c delete) \<noteq> Some NotFoundEntry"
proof -
  have "merge_entry_of c delete \<noteq> NotFoundEntry"
    by (auto simp: merge_entry_of_def written_def destination_only_def
        split: option.splits verdict.splits present.splits item_kind.splits bool.splits)
  then have "with_destination_read_failure (merge_entry_of c delete) c \<noteq> NotFoundEntry"
    by (cases "merge_entry_of c delete")
       (auto simp: with_destination_read_failure_def Let_def split: option.splits sum.splits read_outcome.splits)
  then show ?thesis by (auto simp: planned_entry_def Let_def split: if_splits reference_check.splits)
qed

text \<open>The topmost skipped path above a path is not itself below one.\<close>

lemma below_mismatch_top:
  "below_mismatch es path \<longleftrightarrow> (\<exists>y \<in> {x \<in> set es. \<not> below_mismatch es (fst x)}. is_kind_mismatch (snd y) \<and> is_below path (fst y))"
proof
  assume "below_mismatch es path"
  then obtain y0 where y0: "y0 \<in> set es \<and> is_kind_mismatch (snd y0) \<and> is_below path (fst y0)"
    unfolding below_mismatch_def by blast
  obtain y where y: "y \<in> set es \<and> is_kind_mismatch (snd y) \<and> is_below path (fst y)"
    and least: "\<And>z. z \<in> set es \<and> is_kind_mismatch (snd z) \<and> is_below path (fst z) \<Longrightarrow> length (fst y) \<le> length (fst z)"
    using ex_has_least_nat[of "\<lambda>z. z \<in> set es \<and> is_kind_mismatch (snd z) \<and> is_below path (fst z)" y0
        "\<lambda>z. length (fst z)", OF y0]
    by blast
  have "\<not> below_mismatch es (fst y)"
    using least y is_below_trans is_below_length unfolding below_mismatch_def by (metis not_le)
  then show "\<exists>y \<in> {x \<in> set es. \<not> below_mismatch es (fst x)}. is_kind_mismatch (snd y) \<and> is_below path (fst y)"
    using y by blast
qed (unfold below_mismatch_def[of es path], blast)

lemma plan_change:
  assumes "bt_ok paths" "(path, e) \<in> set (merge_plan_of paths targets delete ref_check)"
    and "changes_destination e"
  shows "\<exists>c. map_of paths path = Some c \<and> selects targets path \<and> may_change c delete e
     \<and> destination_hash_read c \<and> (ref_check \<longrightarrow> e \<noteq> DeleteEntry \<longrightarrow> unchanged_since_reference c)"
proof -
  from assms have "(path, e) \<in> set (plan_entries paths targets delete ref_check)"
    by (auto simp: merge_plan_eq)
  then obtain c where c: "(path, c) \<in> set paths"
      "planned_entry c ref_check (merge_entry_of c delete) = Some e" "selects targets path \<or> is_kind_mismatch e"
    by (rule plan_entry_cases)
  moreover have "\<not> is_kind_mismatch e" using assms(3) by (cases e) auto
  ultimately show ?thesis using planned_change[OF c(2) assms(3)] bt_ok_map_of[OF assms(1)] by blast
qed

text \<open>A merge changes nothing it must not. Whatever the plan writes or deletes is a path the user
  named or one below it, that the comparison found to differ or to exist on one side only, with the
  right kind of entry on the side it is read from or deleted from; a delete needs --delete; a
  symlink is only written when both link targets can be told; the destination's hash was not
  unreadable; and with the check against a reference, the destination is as the reference has it.\<close>

theorem merge_plan_safe:
  assumes "bt_ok paths" "(path, e) \<in> set (merge_plan_of paths targets delete ref_check)"
    and "changes_destination e"
  shows "\<exists>c. map_of paths path = Some c \<and> selects targets path \<and> may_change c delete e
     \<and> destination_hash_read c \<and> (ref_check \<longrightarrow> e \<noteq> DeleteEntry \<longrightarrow> unchanged_since_reference c)"
  using plan_change[OF assms] .

text \<open>C34: No path is lost and nothing happens below a skipped path. The plan is in the order of the
  paths; a named path is in it as not found exactly when neither side has it; every other path the
  merge treats is in it, unless nothing is to be done for it or it lies below a path of the plan that
  is skipped for its kind; and no entry but a name not found lies below such a path.\<close>

theorem merge_plan_complete:
  assumes "bt_ok paths" and plan_def: "plan = merge_plan_of paths targets delete ref_check"
  shows "sorted (map fst plan)
   \<and> (\<forall>name. (name, NotFoundEntry) \<in> set plan \<longleftrightarrow> name \<in> set (tg_named targets)
        \<and> (map_of paths name = None \<or> map_option (\<lambda>c. merge_entry_of c delete) (map_of paths name) = Some AbsentEntry))
   \<and> (\<forall>(path, c) \<in> set paths. selects targets path \<longrightarrow>
        planned_entry c ref_check (merge_entry_of c delete) = None
        \<or> path \<in> fst ` set plan \<or> below_mismatch plan path)
   \<and> (\<forall>(path, e) \<in> set plan. below_mismatch plan path \<longrightarrow> e = NotFoundEntry)"
proof -
  let ?es = "plan_entries paths targets delete ref_check"
  let ?missing = "missing_named paths targets delete"
  have set_plan: "set plan = {x \<in> set ?es. \<not> below_mismatch ?es (fst x)}
      \<union> (\<lambda>name. (name, NotFoundEntry)) ` set ?missing"
    unfolding plan_def merge_plan_eq[OF assms(1)] by simp
  have below: "below_mismatch plan path = below_mismatch ?es path" for path
  proof -
    have "(\<exists>y \<in> set plan. is_kind_mismatch (snd y) \<and> is_below path (fst y)) =
        (\<exists>y \<in> {x \<in> set ?es. \<not> below_mismatch ?es (fst x)}. is_kind_mismatch (snd y) \<and> is_below path (fst y))"
      unfolding set_plan bex_Un by simp
    then show ?thesis using below_mismatch_top[of ?es path] below_mismatch_def[of plan path] by simp
  qed
  have missing: "name \<in> set ?missing \<longleftrightarrow> name \<in> set (tg_named targets)
      \<and> (map_of paths name = None \<or> map_option (\<lambda>c. merge_entry_of c delete) (map_of paths name) = Some AbsentEntry)"
    for name by (auto simp: missing_named_def split: option.splits)
  have no_nf: "(path, NotFoundEntry) \<notin> set ?es" for path
    by (rule notI, erule plan_entry_cases) (simp add: planned_not_found)
  show ?thesis
  proof (intro conjI)
    show "sorted (map fst plan)" unfolding plan_def merge_plan_eq[OF assms(1)] by simp
    show "\<forall>name. (name, NotFoundEntry) \<in> set plan \<longleftrightarrow> name \<in> set (tg_named targets)
        \<and> (map_of paths name = None \<or> map_option (\<lambda>c. merge_entry_of c delete) (map_of paths name) = Some AbsentEntry)"
      using no_nf missing unfolding set_plan by auto
    show "\<forall>(path, c) \<in> set paths. selects targets path \<longrightarrow>
        planned_entry c ref_check (merge_entry_of c delete) = None
        \<or> path \<in> fst ` set plan \<or> below_mismatch plan path"
    proof (safe, rule ccontr)
      fix path c e
      assume a: "(path, c) \<in> set paths" "selects targets path" "path \<notin> fst ` set plan"
        "\<not> below_mismatch plan path" "planned_entry c ref_check (merge_entry_of c delete) = Some e"
      have "path \<notin> set ?missing" using a(3) unfolding set_plan by force
      then have "(path, e) \<in> set ?es"
        using a(1,2,5) unfolding plan_entries_def set_map_filter by (force simp: plan_path_def Let_def)
      then show False using a(3,4) below unfolding set_plan by force
    qed
    show "\<forall>(path, e) \<in> set plan. below_mismatch plan path \<longrightarrow> e = NotFoundEntry"
      using below unfolding set_plan by auto
  qed
qed

subsection \<open>A plan of three paths\<close>

definition sample_comparison :: "side_state \<Rightarrow> side_state \<Rightarrow> verdict \<Rightarrow> path_comparison" where
  "sample_comparison l r v =
     \<lparr>cmp_states = no_states\<lparr>pst_states := [RoleLeft \<mapsto> l, RoleRight \<mapsto> r]\<rparr>,
      cmp_pairs = [\<lparr>pv_pair = \<lparr>pr_first = RoleLeft, pr_second = RoleRight\<rparr>, pv_verdict = v, pv_followed = None\<rparr>],
      cmp_hashes = Map.empty, cmp_contents = Map.empty\<rparr>"

definition sample_paths :: compared_paths where
  "sample_paths =
     [(''a'', sample_comparison (SsFile None None) SsDirectory VdKindDiffers),
      (''a/b'', sample_comparison SsAbsent (SsFile None None) (VdOneSided PresentSecond)),
      (''c'', sample_comparison (SsFile None None) (SsFile None None) VdDiffers)]"

lemma sample_paths_ok: "bt_ok sample_paths"
  by code_simp

lemma sample_plan:
  "merge_plan_of sample_paths (targets_new MergeWhole []) True False =
     [(''a'', SkipEntry (KindMismatch KdFile KdDirectory)), (''c'', WriteFile)]"
  by code_simp

theorem merge_plan_safe_witness:
  "\<exists>c. map_of sample_paths ''c'' = Some c \<and> may_change c True WriteFile"
  using merge_plan_safe[OF sample_paths_ok, of "''c''" WriteFile "targets_new MergeWhole []" True False]
    sample_plan by auto

theorem merge_plan_complete_witness:
  "below_mismatch (merge_plan_of sample_paths (targets_new MergeWhole []) True False) ''a/b''"
proof -
  let ?c = "sample_comparison SsAbsent (SsFile None None) (VdOneSided PresentSecond)"
  have c: "(''a/b'', ?c) \<in> set sample_paths" by (simp add: sample_paths_def)
  have p: "planned_entry ?c False (merge_entry_of ?c True) = Some DeleteEntry" by code_simp
  have s: "selects (targets_new MergeWhole []) ''a/b''" by code_simp
  have n: "''a/b'' \<notin> fst ` set (merge_plan_of sample_paths (targets_new MergeWhole []) True False)"
    by (simp add: sample_plan)
  show ?thesis
    using merge_plan_complete[OF sample_paths_ok refl, of "targets_new MergeWhole []" True False] c p s n
    by fastforce
qed

end
