(* ===== verification/ReadsProps.thy ===== *)
theory ReadsProps
  imports CompareReads MergeProps
begin

text \<open>
  Correctness of the second half of a comparison: what it hashes and reads stays inside root_dir
  whichever command runs it, it never panics on a table of the compared sides, and what it hands to
  the plan of a merge has the hashes and contents the changes need.
\<close>

subsection \<open>What is asked\<close>

text \<open>A path whose content a side may be asked for: a file, or a symlink to one that stays inside.\<close>

definition content_inside :: "path_states \<Rightarrow> role \<Rightarrow> bool" where
  "content_inside st r =
     (is_file_state st r
      \<or> (\<exists>target. pst_states st r = Some (SsSymlink target LpNotDirectory) \<and> r \<notin> pst_outside st))"

lemma has_content_cases:
  assumes "case pst_states st r of Some s \<Rightarrow> has_content s | None \<Rightarrow> False" "r \<in> pst_outside st \<Longrightarrow> is_file_state st r"
  shows "content_inside st r"
  using assms
  by (cases "the (pst_states st r)" rule: has_content.cases)
     (auto simp: content_inside_def is_file_state_def split: option.splits)

lemma wanted_eq:
  "wanted rows r = Some ps \<Longrightarrow> ps = map fst (filter (\<lambda>(path, st, roles).
     r \<in> roles \<and> (case pst_states st r of Some s \<Rightarrow> has_content s | None \<Rightarrow> False)) rows)"
  by (simp add: wanted_def Let_def split: if_split_asm)

lemma in_wanted:
  assumes "wanted rows r = Some ps"
  shows "path \<in> set ps \<longleftrightarrow>
     (\<exists>st roles. (path, st, roles) \<in> set rows \<and> r \<in> roles
        \<and> (case pst_states st r of Some s \<Rightarrow> has_content s | None \<Rightarrow> False))"
  unfolding wanted_eq[OF assms]
  by (simp add: image_iff Bex_def split_paired_Ex del: split_paired_All)

lemma judge_files_by_content: "judge_states (r1, a) (r2, b) m = ByContent \<Longrightarrow> (\<exists>x y. a = SsFile x y) \<and> (\<exists>x y. b = SsFile x y)"
  by (cases a; cases b) (auto simp: judge_states_def Let_def split: if_splits)

definition followed_judgement :: "path_states \<Rightarrow> follow \<Rightarrow> pair \<Rightarrow> side_state \<Rightarrow> side_state \<Rightarrow> judgement option" where
  "followed_judgement st fl p a b =
     (case (fl, a, b) of
        (FollowYes, SsSymlink _ pa, SsSymlink _ pb) \<Rightarrow>
          if pr_first p \<notin> pst_outside st \<and> pr_second p \<notin> pst_outside st
          then Some (judge_states (pr_first p, followed_state pa) (pr_second p, followed_state pb) ByContentHash)
          else None
      | _ \<Rightarrow> None)"

lemma judge_pair_Some:
  assumes "judge_pair st m fl p = Some j"
  obtains a b where "pst_states st (pr_first p) = Some a" "pst_states st (pr_second p) = Some b"
    "j = \<lparr>pj_pair = p, pj_judgement = judge_states (pr_first p, a) (pr_second p, b) m,
          pj_followed = followed_judgement st fl p a b\<rparr>"
  using assms
  by (cases "pst_states st (pr_first p)"; cases "pst_states st (pr_second p)")
     (simp_all add: judge_pair_def followed_judgement_def)

lemma followed_both:
  "followed_judgement st fl p a b = Some f \<Longrightarrow>
     pr_first p \<notin> pst_outside st \<and> pr_second p \<notin> pst_outside st \<and> kind_of a = KdSymlink \<and> kind_of b = KdSymlink"
  by (cases fl; cases a; cases b) (simp_all add: followed_judgement_def split: if_split_asm)

lemma hash_roles_inside:
  assumes "r \<in> hash_roles (judge_pairs st m fl)" "r \<in> pst_outside st"
  shows "is_file_state st r"
proof -
  from assms(1) obtain j p where j: "judge_pair st m fl p = Some j"
      "pj_judgement j = ByContent \<or> pj_followed j = Some ByContent"
      "r = pr_first (pj_pair j) \<or> r = pr_second (pj_pair j)"
    by (auto simp: hash_roles_def judge_pairs_def set_map_filter)
  from judge_pair_Some[OF j(1)] obtain a b where ab: "pst_states st (pr_first p) = Some a"
      "pst_states st (pr_second p) = Some b"
      "j = \<lparr>pj_pair = p, pj_judgement = judge_states (pr_first p, a) (pr_second p, b) m,
          pj_followed = followed_judgement st fl p a b\<rparr>" .
  have "judge_states (pr_first p, a) (pr_second p, b) m = ByContent"
    using j(2,3) followed_both[of st fl p a b] assms(2) unfolding ab(3) by auto
  then show ?thesis using judge_files_by_content ab j(3) by (fastforce simp: is_file_state_def)
qed

lemma hash_roles_mono: "set xs \<subseteq> set ys \<Longrightarrow> hash_roles xs \<subseteq> hash_roles ys"
  by (auto simp: hash_roles_def)

lemma judge_row_subset: "set (judge_row q u path st) \<subseteq> set (judge_pairs st (method_for q path) (cq_follow q))"
  by (auto simp: judge_row_def Let_def)

text \<open>The contract of what a command asks for: of a symlink that leaves root_dir, nothing.\<close>

locale uses_contract =
  fixes u :: uses
  assumes hashes_inside: "r \<in> us_hashes u path st judged \<Longrightarrow> r \<in> pst_outside st \<Longrightarrow> is_file_state st r"
    and contents_inside: "r \<in> us_contents u path st verdicts \<Longrightarrow> r \<in> pst_outside st \<Longrightarrow> is_file_state st r"
begin

lemma hashed_inside:
  assumes "hash_wants q u table r = Some ps" "path \<in> set ps"
  shows "\<exists>st. (path, st) \<in> set table \<and> content_inside st r"
proof -
  from in_wanted[OF assms(1)[unfolded hash_wants_def]] assms(2) obtain st where st: "(path, st) \<in> set table"
      "r \<in> hash_roles (judge_row q u path st) \<union> us_hashes u path st (judge_row q u path st)"
      "case pst_states st r of Some s \<Rightarrow> has_content s | None \<Rightarrow> False"
    by auto
  have "r \<in> pst_outside st \<Longrightarrow> is_file_state st r"
    using st(2) hashes_inside hash_roles_inside[of r st] hash_roles_mono[OF judge_row_subset] by blast
  then show ?thesis using has_content_cases[OF st(3)] st(1) by blast
qed

lemma read_inside:
  assumes "read_wants u paths r = Some ps" "path \<in> set ps"
  shows "\<exists>c. (path, c) \<in> set paths \<and> content_inside (cmp_states c) r"
proof -
  from in_wanted[OF assms(1)[unfolded read_wants_def]] assms(2) obtain c where c: "(path, c) \<in> set paths"
      "r \<in> us_contents u path (cmp_states c) (cmp_pairs c)"
      "case pst_states (cmp_states c) r of Some s \<Rightarrow> has_content s | None \<Rightarrow> False"
    by auto
  then show ?thesis using has_content_cases[OF c(3)] contents_inside[OF c(2)] by blast
qed

end

interpretation status_uses: uses_contract nothing_used
  by unfold_locales (simp_all add: nothing_used_def)

interpretation diff: uses_contract "diff_uses reference" for reference
  by unfold_locales (simp_all add: diff_uses_def diff_contents_def Let_def split: if_splits)

interpretation merging: uses_contract "uses_of_merge m" for m
proof unfold_locales
  show "is_file_state st r" if "r \<in> us_hashes (uses_of_merge m) path st judged" for r path st judged
    using that by (auto simp: uses_of_merge_def merge_hashes_def Let_def split: if_splits option.splits prod.splits)
  show "is_file_state st r" if "r \<in> us_contents (uses_of_merge m) path st verdicts" for r path st verdicts
    using that by (auto simp: uses_of_merge_def merge_contents_def split: if_splits option.splits)
qed

interpretation hunks: uses_contract "uses_of_hunks h" for h
  by unfold_locales
     (simp_all add: uses_of_hunks_def hunk_hashes_def hunk_contents_def split: if_splits)

inductive command_uses :: "uses \<Rightarrow> bool" where
  status_command: "command_uses nothing_used"
| diff_command: "command_uses (diff_uses reference)"
| merge_command: "command_uses (uses_of_merge m)"
| hunk_command: "command_uses (uses_of_hunks h)"

lemma command_contract: "command_uses u \<Longrightarrow> uses_contract u"
  by (erule command_uses.cases)
     (simp_all add: status_uses.uses_contract_axioms diff.uses_contract_axioms
        merging.uses_contract_axioms hunks.uses_contract_axioms)

subsection \<open>What is answered\<close>

lemma ask_side_answered:
  "ask_side rt question r s paths w known = (w', known', Inr answered) \<Longrightarrow> p \<in> set paths \<Longrightarrow> map_of answered p \<noteq> None"
  by (auto simp: ask_side_def Let_def find_None_iff split: sum.splits prod.splits option.splits if_splits)

definition answered_or_lost ::
  "(role \<Rightarrow> string list option) \<Rightarrow> 'a answers \<Rightarrow> side_failure option \<Rightarrow> role \<Rightarrow> bool" where
  "answered_or_lost asked answers lost r \<longleftrightarrow>
     (\<forall>ps. asked r = Some ps \<longrightarrow>
        (\<exists>m. answers r = Some m \<and> (\<forall>p \<in> set ps. map_of m p \<noteq> None)) \<or> (\<exists>l. lost = Some l \<and> sf_role l = r))"

definition lost_right :: "(role \<Rightarrow> string list option) \<Rightarrow> side_failure option \<Rightarrow> bool" where
  "lost_right asked lost \<longleftrightarrow> (\<forall>l. lost = Some l \<longrightarrow> sf_role l = RoleRight \<and> asked RoleRight \<noteq> None)"

lemma lost_destination_role:
  "lost_destination_of rt q w r s err = Some l \<Longrightarrow> sf_role l = r \<and> r = RoleRight"
  by (auto simp: lost_destination_of_def split: if_splits)

lemma ask_roles_ok:
  assumes "ask_roles rt question q sides asked rs st answers lost = (st', Inr (answers', lost'))"
    and "distinct rs" "lost_right asked lost"
  shows "lost_right asked lost' \<and> (lost \<noteq> None \<longrightarrow> lost' \<noteq> None) \<and> (\<forall>r. r \<notin> set rs \<longrightarrow> answers' r = answers r)
     \<and> (\<forall>r \<in> set rs. answered_or_lost asked answers' lost' r)"
  using assms
proof (induction rs arbitrary: st answers lost)
  case (Cons r rs)
  show ?case
  proof (cases "asked r")
    case None
    then show ?thesis using Cons by (auto simp: answered_or_lost_def)
  next
    case (Some ps)
    note ps = Some
    obtain s where s: "sides r = Some s" using Cons.prems(1) ps by (cases "sides r") auto
    obtain known where known: "known = (case ak_cache st of
        Some (cached, k) \<Rightarrow> if cached = s then Some k else None | None \<Rightarrow> None)" by simp
    obtain w' known' res where side: "ask_side rt question r s ps (ak_world st) known = (w', known', res)"
      by (cases "ask_side rt question r s ps (ak_world st) known") auto
    show ?thesis
    proof (cases res)
      case (Inr answered)
      from Cons.prems(1) ps s side Inr obtain st1 where rest:
          "ask_roles rt question q sides asked rs st1 (answers(r \<mapsto> answered)) lost = (st', Inr (answers', lost'))"
        by (auto simp: known Let_def)
      note IH = Cons.IH[OF rest _ Cons.prems(3)]
      have "answers' r = Some answered" using IH Cons.prems(2) by auto
      moreover have "\<forall>p \<in> set ps. map_of answered p \<noteq> None"
        using ask_side_answered side Inr by metis
      ultimately have "answered_or_lost asked answers' lost' r" using ps by (auto simp: answered_or_lost_def)
      then show ?thesis using IH Cons.prems(2) by auto
    next
      case (Inl err)
      from Cons.prems(1) ps s side Inl obtain st1 l where l: "lost_destination_of rt q w' r s err = Some l"
          "ask_roles rt question q sides asked rs st1 answers (Some l) = (st', Inr (answers', lost'))"
        by (auto simp: known Let_def split: option.splits)
      have role: "sf_role l = r" "r = RoleRight" using lost_destination_role[OF l(1)] by auto
      have right: "lost_right asked (Some l)" using role ps by (simp add: lost_right_def)
      note IH = Cons.IH[OF l(2) _ right]
      obtain l' where l': "lost' = Some l'" using IH Cons.prems(2) by auto
      then have "sf_role l' = r" using IH Cons.prems(2) role by (auto simp: lost_right_def)
      then have "answered_or_lost asked answers' lost' r" using l' by (simp add: answered_or_lost_def)
      then show ?thesis using IH Cons.prems(2) l' by auto
    qed
  qed
qed (simp add: lost_right_def)

lemma ask_by_role_ok:
  assumes "ask_by_role rt question q sides asked st = (st', Inr (answers, lost))"
  shows "lost_right asked lost \<and> answered_or_lost asked answers lost r"
  using ask_roles_ok[OF assms[unfolded ask_by_role_def] distinct_all_roles] by (simp add: lost_right_def)

lemma ask_roles_no_panic:
  assumes "\<forall>r \<in> set rs. asked r \<noteq> None \<longrightarrow> sides r \<noteq> None"
  shows "snd (ask_roles rt question q sides asked rs st answers lost) \<noteq> Inl RsPanic"
  using assms
  by (induction rs arbitrary: st answers lost) (auto simp: Let_def split: option.splits prod.splits sum.splits)

subsection \<open>The rows\<close>

lemma list_all2_member: "list_all2 R xs ys \<Longrightarrow> y \<in> set ys \<Longrightarrow> \<exists>x \<in> set xs. R x y"
  by (induction rule: list_all2_induct) auto

lemma rows_states:
  assumes "(res_collect (settle_row q u answers lost lost_ps) table :: 'x read_stop + _) = Inr paths"
  shows "list_all2 (\<lambda>row p. fst p = fst row \<and> cmp_states (snd p) = snd row
     \<and> (settle_row q u answers lost lost_ps row :: 'x read_stop + _) = Inr p) table paths"
proof -
  have *: "(settle_row q u answers lost lost_ps row :: 'x read_stop + _) = Inr p \<Longrightarrow> fst p = fst row \<and> cmp_states (snd p) = snd row" for row p
    by (auto simp: settle_row_def Let_def split: prod.splits sum.splits)
  show ?thesis by (rule list_all2_mono[OF assms[unfolded res_collect_Inr]]) (use * in blast)
qed

lemma rows_read:
  assumes "(res_collect (read_row answers lost lost_ps) paths :: 'x read_stop + _) = Inr paths'"
  shows "list_all2 (\<lambda>p p'. fst p' = fst p \<and> cmp_states (snd p') = cmp_states (snd p) \<and> cmp_hashes (snd p') = cmp_hashes (snd p)
     \<and> (read_row answers lost lost_ps p :: 'x read_stop + _) = Inr p') paths paths'"
proof -
  have *: "(read_row answers lost lost_ps p :: 'x read_stop + _) = Inr p' \<Longrightarrow>
      fst p' = fst p \<and> cmp_states (snd p') = cmp_states (snd p) \<and> cmp_hashes (snd p') = cmp_hashes (snd p)" for p p'
    by (auto simp: read_row_def Let_def split: prod.splits sum.splits option.splits)
  show ?thesis by (rule list_all2_mono[OF assms[unfolded res_collect_Inr]]) (use * in blast)
qed


text \<open>The stages of a comparison that ends with a result: the hash questions and the settled rows, then
  the read questions and the rows they leave.\<close>

definition hash_stage_ok ::
  "('w, 'x) routes \<Rightarrow> compare_request \<Rightarrow> uses \<Rightarrow> compare_sides \<Rightarrow> state_rows
     \<Rightarrow> side_failure option \<Rightarrow> (string \<times> path_comparison) list \<Rightarrow> bool" where
  "hash_stage_ok rt q u compared table lost paths \<longleftrightarrow>
     (\<exists>st st' answers lost_ps.
        ask_by_role rt (rt_hash rt) q (by_role compared) (hash_wants q u table) st = (st', Inr (answers, lost))
        \<and> lost_paths lost (hash_wants q u table) = Some lost_ps
        \<and> (res_collect (settle_row q u answers lost lost_ps) table :: 'x read_stop + _) = Inr paths)"

definition read_stage_ok ::
  "('w, 'x) routes \<Rightarrow> compare_request \<Rightarrow> uses \<Rightarrow> compare_sides \<Rightarrow> side_failure option
     \<Rightarrow> (string \<times> path_comparison) list \<Rightarrow> (string \<times> path_comparison) list \<Rightarrow> bool" where
  "read_stage_ok rt q u compared lost paths paths' \<longleftrightarrow>
     (\<exists>st st' answers lost_read lost_ps.
        ask_by_role rt (rt_read rt (cq_content_limit q)) q (by_role compared)
          (without_lost lost (read_wants u paths)) st = (st', Inr (answers, lost_read))
        \<and> lost_paths lost_read (without_lost lost (read_wants u paths)) = Some lost_ps
        \<and> (res_collect (read_row answers lost_read lost_ps) paths :: 'x read_stop + _) = Inr paths')"

lemma read_stage_result:
  fixes rt :: "('w, 'x) routes"
  assumes "read_stage rt q u (by_role compared) to_hash lost paths w ru = (w', ru', Inr (paths', asked))"
  shows "read_stage_ok rt q u compared lost paths paths' \<and> asked = asked_of to_hash (without_lost lost (read_wants u paths))"
proof -
  let ?cache = "map_option (\<lambda>k. (ru_side k, ru_contents k)) ru"
  obtain st' res where ask: "ask_by_role rt (rt_read rt (cq_content_limit q)) q (by_role compared)
      (without_lost lost (read_wants u paths)) \<lparr>ak_world = w, ak_cache = ?cache\<rparr> = (st', res)"
    by (cases "ask_by_role rt (rt_read rt (cq_content_limit q)) q (by_role compared)
      (without_lost lost (read_wants u paths)) \<lparr>ak_world = w, ak_cache = ?cache\<rparr>") auto
  with assms obtain answers lost_read lost_ps where "res = Inr (answers, lost_read)"
      "lost_paths lost_read (without_lost lost (read_wants u paths)) = Some lost_ps"
      "(res_collect (read_row answers lost_read lost_ps) paths :: 'x read_stop + _) = Inr paths'"
      "asked = asked_of to_hash (without_lost lost (read_wants u paths))"
    by (auto simp: read_stage_def Let_def res_simps split: option.splits)
  with ask show ?thesis unfolding read_stage_ok_def by blast
qed

lemma judge_and_read_result:
  fixes rt :: "('w, 'x) routes"
  assumes "judge_and_read rt q u compared table w ru = (w', ru', Inr (paths', asked))"
  shows "\<exists>lost paths. hash_stage_ok rt q u compared table lost paths \<and> read_stage_ok rt q u compared lost paths paths'
     \<and> asked = asked_of (hash_wants q u table) (without_lost lost (read_wants u paths))"
proof -
  let ?cache = "map_option (\<lambda>k. (ru_side k, ru_hashes k)) ru"
  obtain st' res where ask: "ask_by_role rt (rt_hash rt) q (by_role compared) (hash_wants q u table)
      \<lparr>ak_world = w, ak_cache = ?cache\<rparr> = (st', res)"
    by (cases "ask_by_role rt (rt_hash rt) q (by_role compared) (hash_wants q u table)
      \<lparr>ak_world = w, ak_cache = ?cache\<rparr>") auto
  with assms obtain answers lost lost_ps paths where "res = Inr (answers, lost)"
      "lost_paths lost (hash_wants q u table) = Some lost_ps"
      "(res_collect (settle_row q u answers lost lost_ps) table :: 'x read_stop + _) = Inr paths"
      and rest: "read_stage rt q u (by_role compared) (hash_wants q u table) lost paths (ak_world st')
        (kept_hashes ru st') = (w', ru', Inr (paths', asked))"
    by (auto simp: judge_and_read_def Let_def split: sum.splits option.splits prod.splits)
  with ask have "hash_stage_ok rt q u compared table lost paths" unfolding hash_stage_ok_def by blast
  then show ?thesis using read_stage_result[OF rest] by blast
qed

lemma hash_stage_rows:
  "hash_stage_ok rt q u compared table lost paths \<Longrightarrow>
     list_all2 (\<lambda>row p. fst p = fst row \<and> cmp_states (snd p) = snd row) table paths"
  unfolding hash_stage_ok_def by (elim exE conjE, drule rows_states, erule list_all2_mono) blast

lemma without_lost_Some: "without_lost lost to_read r = Some ps \<Longrightarrow> to_read r = Some ps"
  by (auto simp: without_lost_def split: option.splits if_splits)

text \<open>C36: Whatever the command, a comparison never hashes or reads content through a symlink that leaves
  root_dir: every path a side is asked for is a row of the table whose state on that side is a file,
  or a symlink to one that stays inside.\<close>

theorem compare_reads_inside:
  assumes "command_uses u"
    and "judge_and_read rt q u compared table w ru = (w', ru', Inr (paths, asked))"
    and "asked r = Some a" "path \<in> set (as_hashed a) \<union> set (as_read a)"
  shows "\<exists>st. (path, st) \<in> set table \<and> content_inside st r"
proof -
  from judge_and_read_result[OF assms(2)] obtain lost mid where mid: "hash_stage_ok rt q u compared table lost mid"
      "asked = asked_of (hash_wants q u table) (without_lost lost (read_wants u mid))" by blast
  from assms(3,4) mid(2) consider
      (hashed) ps where "hash_wants q u table r = Some ps" "path \<in> set ps"
    | (contents) ps where "read_wants u mid r = Some ps" "path \<in> set ps"
    by (auto simp: asked_of_def dest: without_lost_Some split: option.splits)
  then show ?thesis
  proof cases
    case hashed
    then show ?thesis by (rule uses_contract.hashed_inside[OF command_contract[OF assms(1)]])
  next
    case contents
    then obtain c where c: "(path, c) \<in> set mid" "content_inside (cmp_states c) r"
      using uses_contract.read_inside[OF command_contract[OF assms(1)]] by blast
    then have "(path, cmp_states c) \<in> set table"
      using hash_stage_rows[OF mid(1)] by (auto simp: list_all2_conv_all_nth in_set_conv_nth) (metis prod.collapse fst_conv snd_conv)
    then show ?thesis using c(2) by blast
  qed
qed

subsection \<open>No panic\<close>

definition rows_have_sides :: "compare_sides \<Rightarrow> state_rows \<Rightarrow> bool" where
  "rows_have_sides compared table \<longleftrightarrow>
     (\<forall>row \<in> set table. \<forall>r. pst_states (snd row) r \<noteq> None \<longrightarrow> by_role compared r \<noteq> None)"

lemma wanted_state: "wanted rows r \<noteq> None \<Longrightarrow> \<exists>row \<in> set rows. pst_states (fst (snd row)) r \<noteq> None"
  by (force simp: wanted_def Let_def filter_empty_conv split: if_splits option.splits)

lemma ask_by_role_lost:
  assumes "ask_by_role rt question q sides asked st = (st', Inr (answers, lost))"
  shows "\<exists>ps. lost_paths lost asked = Some ps"
  using ask_by_role_ok[OF assms] by (auto simp: lost_paths_def lost_right_def split: option.splits)

lemma ask_by_role_panic:
  assumes "ask_by_role rt question q sides asked st = (st', Inl e)" "\<forall>r. asked r \<noteq> None \<longrightarrow> sides r \<noteq> None"
  shows "e \<noteq> RsPanic"
  using ask_roles_no_panic[of all_roles asked sides rt question q st Map.empty None] assms
  by (auto simp: ask_by_role_def)

lemma settle_row_error: "res_collect (settle_row q u answers lost lost_ps) table \<noteq> Inl RsPanic"
proof
  assume "res_collect (settle_row q u answers lost lost_ps) table = Inl (RsPanic :: 'a read_stop)"
  from res_collect_Inl[OF this] show False by (auto simp: settle_row_def Let_def split: sum.splits)
qed

lemma read_row_error: "res_collect (read_row answers lost lost_ps) paths \<noteq> Inl RsPanic"
proof
  assume "res_collect (read_row answers lost lost_ps) paths = Inl (RsPanic :: 'a read_stop)"
  from res_collect_Inl[OF this] show False by (auto simp: read_row_def Let_def split: sum.splits option.splits)
qed

lemma read_stage_no_panic:
  fixes rt :: "('w, 'x) routes"
  assumes "\<forall>p \<in> set paths. \<forall>r. pst_states (cmp_states (snd p)) r \<noteq> None \<longrightarrow> by_role compared r \<noteq> None"
  shows "snd (snd (read_stage rt q u (by_role compared) to_hash lost paths w ru)) \<noteq> Inl RsPanic"
proof -
  let ?to_read = "without_lost lost (read_wants u paths)"
  let ?st = "\<lparr>ak_world = w, ak_cache = map_option (\<lambda>k. (ru_side k, ru_contents k)) ru\<rparr>"
  have sides: "\<forall>r. ?to_read r \<noteq> None \<longrightarrow> by_role compared r \<noteq> None"
  proof (intro allI impI)
    fix r assume "?to_read r \<noteq> None"
    then have "read_wants u paths r \<noteq> None" using without_lost_Some by fastforce
    then show "by_role compared r \<noteq> None"
      using wanted_state assms unfolding read_wants_def by fastforce
  qed
  obtain st' res where ask: "ask_by_role rt (rt_read rt (cq_content_limit q)) q (by_role compared) ?to_read ?st = (st', res)"
    by (cases "ask_by_role rt (rt_read rt (cq_content_limit q)) q (by_role compared) ?to_read ?st") auto
  show ?thesis
  proof (cases res)
    case (Inl e)
    then show ?thesis using ask_by_role_panic[OF ask[unfolded Inl] sides] by (simp add: read_stage_def Let_def ask)
  next
    case (Inr ok)
    then obtain answers lost_read where ok: "res = Inr (answers, lost_read)" by (cases ok) auto
    obtain ps where "lost_paths lost_read ?to_read = Some ps" using ask_by_role_lost[OF ask[unfolded ok]] by blast
    then show ?thesis using read_row_error[of answers lost_read ps paths]
      by (cases "res_collect (read_row answers lost_read ps) paths :: 'x read_stop + _")
         (auto simp: read_stage_def Let_def ask ok)
  qed
qed

text \<open>On a table whose states are of the compared sides the two rounds of questions never panic,
  whatever the machines answer or leave out and whichever of them is lost on the way: every index
  into the sides and into the questions of a lost side finds its entry.\<close>

lemma judge_and_read_never_panics:
  fixes rt :: "('w, 'x) routes"
  assumes "rows_have_sides compared table"
  shows "snd (snd (judge_and_read rt q u compared table w ru)) \<noteq> Inl RsPanic"
proof -
  let ?st = "\<lparr>ak_world = w, ak_cache = map_option (\<lambda>k. (ru_side k, ru_hashes k)) ru\<rparr>"
  have sides: "\<forall>r. hash_wants q u table r \<noteq> None \<longrightarrow> by_role compared r \<noteq> None"
    using wanted_state assms unfolding hash_wants_def rows_have_sides_def by fastforce
  obtain st' res where ask: "ask_by_role rt (rt_hash rt) q (by_role compared) (hash_wants q u table) ?st = (st', res)"
    by (cases "ask_by_role rt (rt_hash rt) q (by_role compared) (hash_wants q u table) ?st") auto
  show ?thesis
  proof (cases res)
    case (Inl e)
    then show ?thesis using ask_by_role_panic[OF ask[unfolded Inl] sides] by (simp add: judge_and_read_def Let_def ask)
  next
    case (Inr ok)
    then obtain answers lost where ok: "res = Inr (answers, lost)" by (cases ok) auto
    obtain ps where ps: "lost_paths lost (hash_wants q u table) = Some ps" using ask_by_role_lost[OF ask[unfolded ok]] by blast
    show ?thesis
    proof (cases "res_collect (settle_row q u answers lost ps) table :: 'x read_stop + _")
      case (Inl e)
      then show ?thesis using settle_row_error[of q u answers lost ps table]
        by (auto simp: judge_and_read_def Let_def ask ok ps)
    next
      case (Inr paths)
      have "\<forall>p \<in> set paths. \<forall>r. pst_states (cmp_states (snd p)) r \<noteq> None \<longrightarrow> by_role compared r \<noteq> None"
      proof
        fix p assume "p \<in> set paths"
        then obtain row where "row \<in> set table" "cmp_states (snd p) = snd row"
          using list_all2_member[OF rows_states[OF Inr]] by blast
        then show "\<forall>r. pst_states (cmp_states (snd p)) r \<noteq> None \<longrightarrow> by_role compared r \<noteq> None"
          using assms unfolding rows_have_sides_def by metis
      qed
      from read_stage_no_panic[OF this, of rt q u "hash_wants q u table" lost "ak_world st'" "kept_hashes ru st'"]
      show ?thesis by (simp add: judge_and_read_def Let_def ask ok ps Inr)
    qed
  qed
qed

subsection \<open>What a merge needs\<close>

lemma find_list_all2:
  assumes "list_all2 R xs ys" "\<And>x y. R x y \<Longrightarrow> P x = Q y" "find Q ys = Some y"
  shows "\<exists>x. find P xs = Some x \<and> R x y"
  using assms(1,3)
proof (induction rule: list_all2_induct)
  case (Cons x xs z zs)
  then show ?case using assms(2)[OF Cons(1)] by (auto split: if_splits)
qed simp

lemma comparison_pair_find: "comparison_pair c RoleLeft RoleRight = find (\<lambda>p. is_left_right (pv_pair p)) (cmp_pairs c)"
  by (simp add: comparison_pair_def is_left_right_def)

text \<open>A verdict that the reads leave decided was so before, and every read of the two sides succeeded.\<close>

lemma apply_read_decided:
  assumes "apply_read failures p = Inr p'" "\<not> is_undecidable (pv_verdict p')"
  shows "p' = p \<and> (\<forall>f \<in> set failures. sf_role f \<noteq> pr_first (pv_pair p) \<and> sf_role f \<noteq> pr_second (pv_pair p))"
proof -
  let ?failed = "filter (\<lambda>f. sf_role f = pr_first (pv_pair p) \<or> sf_role f = pr_second (pv_pair p)) failures"
  have "read_outcome_loop acc fs = ReadAll \<Longrightarrow> fs = []" for acc fs
    by (induction acc fs rule: read_outcome_loop.induct) (auto split: failure_handling.splits if_splits)
  then have all: "read_outcome_of ?failed = ReadAll \<Longrightarrow> ?failed = []" by (simp add: read_outcome_of_def)
  show ?thesis
  proof (cases "read_outcome_of ?failed")
    case ReadAll
    then have "p' = p" using assms(1) by (simp add: apply_read_def)
    then show ?thesis using all[OF ReadAll] unfolding filter_empty_conv by blast
  next
    case (ReadUndecidable why)
    then show ?thesis using assms by (auto simp: apply_read_def split: if_splits)
  next
    case (ReadStopped f)
    then show ?thesis using assms by (simp add: apply_read_def)
  qed
qed

lemma settle_pair_decided:
  assumes "settle_pair hs j = Inr p"
  shows "pv_pair p = pj_pair j
    \<and> (pj_followed j = None \<longrightarrow> settle (pj_judgement j) (pj_pair j) hs = Inr (pv_verdict p))"
  using assms by (auto simp: settle_pair_def res_simps)

definition decided_change :: "verdict \<Rightarrow> bool" where
  "decided_change v = (v \<in> {VdDiffers, VdOneSided PresentFirst, VdOneSided PresentSecond})"

lemma settled_left_right:
  assumes "settle_or_lost judged hs lost = Inr pairs"
    and "find (\<lambda>p. is_left_right (pv_pair p)) pairs = Some p" "decided_change (pv_verdict p)"
  shows "(\<exists>j. find (\<lambda>j. is_left_right (pj_pair j)) judged = Some j \<and> settle_pair hs j = Inr p)
     \<and> (\<forall>l. lost = Some l \<longrightarrow> sf_role l \<noteq> RoleLeft \<and> sf_role l \<noteq> RoleRight)"
proof (cases lost)
  case None
  then have "list_all2 (\<lambda>j p. settle_pair hs j = Inr p) judged pairs"
    using assms(1) by (simp add: settle_or_lost_def settle_pairs_def res_collect_Inr)
  from find_list_all2[OF this, of "\<lambda>j. is_left_right (pj_pair j)" "\<lambda>p. is_left_right (pv_pair p)" p]
  show ?thesis using assms(2) settle_pair_decided None by fastforce
next
  case (Some l)
  let ?step = "\<lambda>j. if pr_first (pj_pair j) = sf_role l \<or> pr_second (pj_pair j) = sf_role l
                 then Inr (lost_verdict (pj_pair j) l) else settle_pair hs j"
  have all: "list_all2 (\<lambda>j p. ?step j = Inr p) judged pairs"
    using assms(1) by (simp add: settle_or_lost_def Some res_collect_Inr)
  have pair: "?step j = Inr p \<Longrightarrow> is_left_right (pj_pair j) = is_left_right (pv_pair p)" for j p
    using settle_pair_decided[of hs j p] by (auto simp: lost_verdict_def split: if_splits)
  obtain j where j: "find (\<lambda>j. is_left_right (pj_pair j)) judged = Some j" "?step j = Inr p"
    using find_list_all2[OF all, of "\<lambda>j. is_left_right (pj_pair j)" "\<lambda>p. is_left_right (pv_pair p)", OF pair assms(2)]
    by blast
  have "\<not> (pr_first (pj_pair j) = sf_role l \<or> pr_second (pj_pair j) = sf_role l)"
    using j(2) assms(3) by (auto simp: lost_verdict_def decided_change_def)
  then show ?thesis using j find_SomeD[OF j(1)] Some by (auto simp: is_left_right_def)
qed

lemma wanted_has:
  assumes "(path, st, roles) \<in> set rows" "r \<in> roles" "is_file_state st r"
  shows "\<exists>ps. wanted rows r = Some ps \<and> path \<in> set ps"
proof -
  have c: "case pst_states st r of Some s \<Rightarrow> has_content s | None \<Rightarrow> False"
    using assms(3) by (auto simp: is_file_state_def split: option.splits side_state.splits)
  let ?P = "\<lambda>(path, st, roles). r \<in> roles \<and> (case pst_states st r of Some s \<Rightarrow> has_content s | None \<Rightarrow> False)"
  have "(path, st, roles) \<in> set (filter ?P rows)" using assms(1,2) c by simp
  then have "path \<in> set (map fst (filter ?P rows))" by force
  moreover from this have "map fst (filter ?P rows) \<noteq> []" by (metis empty_iff list.set(1))
  ultimately show ?thesis unfolding wanted_def Let_def by (metis (no_types, lifting))
qed

lemma hash_wants_has:
  assumes "(path, st) \<in> set table" "r \<in> us_hashes u path st (judge_row q u path st)" "is_file_state st r"
  shows "\<exists>ps. hash_wants q u table r = Some ps \<and> path \<in> set ps"
  unfolding hash_wants_def
proof (rule wanted_has[OF _ _ assms(3)])
  show "(path, st, hash_roles (judge_row q u path st) \<union> us_hashes u path st (judge_row q u path st))
      \<in> set (map (\<lambda>(path, st).
       (path, st, hash_roles (judge_row q u path st) \<union> us_hashes u path st (judge_row q u path st))) table)"
    unfolding set_map by (rule rev_image_eqI[OF assms(1)]) simp
qed (use assms(2) in blast)

lemma read_wants_has:
  assumes "(path, c) \<in> set paths" "r \<in> us_contents u path (cmp_states c) (cmp_pairs c)" "is_file_state (cmp_states c) r"
  shows "\<exists>ps. read_wants u paths r = Some ps \<and> path \<in> set ps"
  unfolding read_wants_def
proof (rule wanted_has[OF _ assms(2,3)])
  show "(path, cmp_states c, us_contents u path (cmp_states c) (cmp_pairs c))
      \<in> set (map (\<lambda>(path, c). (path, cmp_states c, us_contents u path (cmp_states c) (cmp_pairs c))) paths)"
    unfolding set_map by (rule rev_image_eqI[OF assms(1)]) simp
qed

lemma apply_read_pair: "apply_read failures p = Inr p' \<Longrightarrow> pv_pair p' = pv_pair p"
  by (auto simp: apply_read_def Let_def split: read_outcome.splits if_splits)

lemma one_sided_absent: "judge_states (r1, a) (r2, b) m = Decided (VdOneSided PresentFirst) \<Longrightarrow> b = SsAbsent"
  by (cases a; cases b) (auto simp: judge_states_def Let_def judge_files_def same_or_differs_def split: if_splits option.splits compare_method.splits)

lemma may_change_decided:
  "may_change c delete e \<Longrightarrow> \<exists>p. comparison_pair c RoleLeft RoleRight = Some p \<and> decided_change (pv_verdict p)
     \<and> (pv_verdict p = VdOneSided PresentSecond \<longrightarrow> delete)
     \<and> (e = WriteFile \<longrightarrow> verdict_writes (pv_verdict p) \<and> is_file_state (cmp_states c) RoleLeft)"
  by (auto simp: may_change_def decided_change_def left_right_verdict_def side_kind_def is_file_state_def
      split: merge_entry.splits side_state.splits elim!: kind_of.elims)

lemma by_content_settles: "settle ByContent p hs = Inr v \<Longrightarrow> v \<noteq> VdOneSided x"
  by (auto simp: settle_def res_simps judge_hashes_def split: content_judgement.splits read_outcome.splits sum.splits if_splits)

text \<open>A change of a file at the destination was judged so from the states, or by content.\<close>

lemma settled_changes:
  assumes "find (\<lambda>j. is_left_right (pj_pair j)) (judge_row q (uses_of_merge m) path st) = Some j"
    and "settle_pair hs j = Inr p" "decided_change (pv_verdict p)" "is_file_state st RoleRight"
  shows "(pv_verdict p = VdOneSided PresentSecond \<longrightarrow> delete) \<Longrightarrow> snd (writes_changes delete (pj_judgement j))"
proof -
  have "j \<in> set (judge_pairs st (method_for q path) (cq_follow q))" "is_left_right (pj_pair j)"
    using find_SomeD[OF assms(1)] judge_row_subset by blast+
  then obtain pr where pr: "judge_pair st (method_for q path) (cq_follow q) pr = Some j"
    by (auto simp: judge_pairs_def set_map_filter)
  from judge_pair_Some[OF pr] obtain a b where ab: "pst_states st (pr_second pr) = Some b"
      "j = \<lparr>pj_pair = pr, pj_judgement = judge_states (pr_first pr, a) (pr_second pr, b) (method_for q path),
          pj_followed = followed_judgement st (cq_follow q) pr a b\<rparr>" .
  then have b: "kind_of b = KdFile"
    using assms(4) \<open>is_left_right (pj_pair j)\<close> by (auto simp: is_left_right_def is_file_state_def split: side_state.splits)
  then have "pj_followed j = None" using followed_both[of st "cq_follow q" pr a b] ab(2) by (cases "pj_followed j") auto
  then have s: "settle (pj_judgement j) (pj_pair j) hs = Inr (pv_verdict p)"
    using settle_pair_decided[OF assms(2)] by simp
  assume "pv_verdict p = VdOneSided PresentSecond \<longrightarrow> delete"
  then show ?thesis
  proof (cases "pj_judgement j")
    case (Decided v)
    then have v: "v = pv_verdict p" using s by (simp add: settle_def)
    have "v \<noteq> VdOneSided PresentFirst"
      using one_sided_absent[of "pr_first pr" a "pr_second pr" b "method_for q path"] Decided ab(2) b by auto
    then show ?thesis using Decided v assms(3) \<open>pv_verdict p = VdOneSided PresentSecond \<longrightarrow> delete\<close>
      by (auto simp: decided_change_def)
  qed simp
qed

lemma list_all2_fst: "list_all2 R xs ys \<Longrightarrow> (\<And>x y. R x y \<Longrightarrow> fst y = fst x) \<Longrightarrow> map fst ys = map fst xs"
  by (induction rule: list_all2_induct) auto

lemma stages_bt_ok:
  fixes rt :: "('w, 'x) routes"
  assumes "hash_stage_ok rt q u compared table lost mid" "read_stage_ok rt q u compared lost mid paths" "bt_ok table"
  shows "bt_ok paths"
proof -
  have "map fst mid = map fst table" using list_all2_fst[OF hash_stage_rows[OF assms(1)]] by simp
  moreover from assms(2) obtain answers lost_read lost_ps where
      "(res_collect (read_row answers lost_read lost_ps) mid :: 'x read_stop + _) = Inr paths"
    unfolding read_stage_ok_def by blast
  then have "map fst paths = map fst mid" using list_all2_fst[OF rows_read] by fastforce
  ultimately show ?thesis using assms(3) by (simp add: bt_ok_def)
qed

text \<open>What the two rounds leave of a row whose verdict on the two sides calls for a change.\<close>

lemma changed_row:
  fixes rt :: "('w, 'x) routes"
  assumes "hash_stage_ok rt q (uses_of_merge m) compared table lost mid"
    and "read_stage_ok rt q (uses_of_merge m) compared lost mid paths" "(path, c) \<in> set paths"
    and "comparison_pair c RoleLeft RoleRight = Some p" "decided_change (pv_verdict p)"
  obtains st hash_answers lost_ps content_answers c0 j where
    "(path, st) \<in> set table" "(path, c0) \<in> set mid" "cmp_states c0 = st" "cmp_states c = st"
    "lost_paths lost (hash_wants q (uses_of_merge m) table) = Some lost_ps"
    "lost_right (hash_wants q (uses_of_merge m) table) lost"
    "\<forall>r. answered_or_lost (hash_wants q (uses_of_merge m) table) hash_answers lost r"
    "cmp_hashes c = take_answers hash_answers path"
    "find (\<lambda>j. is_left_right (pj_pair j)) (judge_row q (uses_of_merge m) path st) = Some j"
    "settle_pair (take_answers hash_answers path) j = Inr p"
    "path \<in> set lost_ps \<longrightarrow> lost = None"
    "\<forall>r. answered_or_lost (without_lost lost (read_wants (uses_of_merge m) mid)) content_answers None r"
    "cmp_contents c = take_answers content_answers path" "\<forall>f. cmp_contents c RoleLeft \<noteq> Some (Inl f)"
    "find (\<lambda>p. is_left_right (pv_pair p)) (cmp_pairs c0) = Some p"
proof -
  let ?u = "uses_of_merge m"
  let ?to_read = "without_lost lost (read_wants ?u mid)"
  from assms(2) obtain st2 st2' content_answers lost_read lost_read_ps where read:
      "ask_by_role rt (rt_read rt (cq_content_limit q)) q (by_role compared) ?to_read st2 = (st2', Inr (content_answers, lost_read))"
      "(res_collect (read_row content_answers lost_read lost_read_ps) mid :: 'x read_stop + _) = Inr paths"
    unfolding read_stage_ok_def by blast
  from assms(1) obtain st1 st1' hash_answers lost_ps where hash:
      "ask_by_role rt (rt_hash rt) q (by_role compared) (hash_wants q ?u table) st1 = (st1', Inr (hash_answers, lost))"
      "lost_paths lost (hash_wants q ?u table) = Some lost_ps"
      "(res_collect (settle_row q ?u hash_answers lost lost_ps) table :: 'x read_stop + _) = Inr mid"
    unfolding hash_stage_ok_def by blast
  have none: "wanted rows RoleRight = None" if "\<forall>row \<in> set rows. RoleRight \<notin> snd (snd row)" for rows
    using that by (auto simp: wanted_def Let_def filter_empty_conv)
  have unread: "RoleRight \<notin> us_contents ?u path' st' verdicts" for path' st' verdicts
    by (simp add: uses_of_merge_def merge_contents_def split: option.split)
  have "read_wants ?u mid RoleRight = None" unfolding read_wants_def by (rule none) (use unread in auto)
  then have "?to_read RoleRight = None" by (auto simp: without_lost_def split: option.splits)
  then have no_lost: "lost_read = None"
    using ask_by_role_ok[OF read(1)] by (cases lost_read) (auto simp: lost_right_def)
  obtain c0 where c0: "(path, c0) \<in> set mid" "cmp_states c = cmp_states c0" "cmp_hashes c = cmp_hashes c0"
      "(read_row content_answers lost_read lost_read_ps (path, c0) :: 'x read_stop + _) = Inr (path, c)"
    using list_all2_member[OF rows_read[OF read(2)] assms(3)] by fastforce
  have reads: "cmp_contents c = take_answers content_answers path"
      "apply_reads (cmp_pairs c0) (content_failures (cmp_contents c)) = Inr (cmp_pairs c)"
    using c0(4) by (auto simp: read_row_def Let_def no_lost split: sum.splits if_splits)
  obtain st where st: "(path, st) \<in> set table" "cmp_states c0 = st"
      "(settle_row q ?u hash_answers lost lost_ps (path, st) :: 'x read_stop + _) = Inr (path, c0)"
    using list_all2_member[OF rows_states[OF hash(3)] c0(1)] by fastforce
  let ?lost = "if path \<in> set lost_ps then lost else None"
  have settled: "cmp_hashes c0 = take_answers hash_answers path"
      "settle_or_lost (judge_row q ?u path st) (take_answers hash_answers path) ?lost = Inr (cmp_pairs c0)"
    using st(3) unfolding settle_row_def Let_def prod.case by (auto split: sum.splits)
  have all: "list_all2 (\<lambda>p p'. apply_read (content_failures (cmp_contents c)) p = Inr p') (cmp_pairs c0) (cmp_pairs c)"
    using reads(2) by (simp add: apply_reads_def res_collect_Inr)
  obtain p0 where p0: "find (\<lambda>p. is_left_right (pv_pair p)) (cmp_pairs c0) = Some p0"
      "apply_read (content_failures (cmp_contents c)) p0 = Inr p"
    using find_list_all2[OF all, of "\<lambda>p. is_left_right (pv_pair p)" "\<lambda>p. is_left_right (pv_pair p)" p]
      apply_read_pair assms(4) unfolding comparison_pair_find by metis
  have "\<not> is_undecidable (pv_verdict p)" using assms(5) by (auto simp: decided_change_def)
  from apply_read_decided[OF p0(2) this] have p: "p = p0"
      "\<forall>f \<in> set (content_failures (cmp_contents c)). sf_role f \<noteq> RoleLeft"
    using find_SomeD[OF p0(1)] by (auto simp: is_left_right_def)
  have left: "cmp_contents c RoleLeft \<noteq> Some (Inl f)" for f
  proof
    assume "cmp_contents c RoleLeft = Some (Inl f)"
    then have "\<lparr>sf_role = RoleLeft, sf_failure = f\<rparr> \<in> set (content_failures (cmp_contents c))"
      unfolding content_failures_def set_map_filter by (intro bexI[of _ RoleLeft]) simp_all
    then show False using p(2) by fastforce
  qed
  from settled_left_right[OF settled(2) p0(1)] assms(5) p(1) obtain j where
      j: "find (\<lambda>j. is_left_right (pj_pair j)) (judge_row q ?u path st) = Some j"
        "settle_pair (take_answers hash_answers path) j = Inr p"
      and not_lost: "\<forall>l. ?lost = Some l \<longrightarrow> sf_role l \<noteq> RoleRight" by blast
  have lr: "lost_right (hash_wants q ?u table) lost" using ask_by_role_ok[OF hash(1)] by blast
  have "path \<in> set lost_ps \<longrightarrow> lost = None"
    using not_lost lr unfolding lost_right_def by (cases lost) auto
  moreover have "\<forall>r. answered_or_lost (hash_wants q ?u table) hash_answers lost r"
    using ask_by_role_ok[OF hash(1)] by blast
  moreover have "\<forall>r. answered_or_lost ?to_read content_answers None r"
    using ask_by_role_ok[OF read(1)] unfolding no_lost by blast
  ultimately show ?thesis
    using that[OF st(1) c0(1) st(2) _ hash(2) lr _ _ j _ _ reads(1) _ ] c0(2,3) st(2) settled(1) left p0(1) p(1) by auto
qed


subsection \<open>A comparison of one file\<close>

definition sample_routes :: "(unit, unit) routes" where
  "sample_routes =
     \<lparr>rt_hash = (\<lambda>w s es. (w, Inr (map (\<lambda>e. (entry_as_str e, Inr ''h'')) es))),
      rt_read = (\<lambda>limit w s es. (w, Inr (map (\<lambda>e. (entry_as_str e, Inr ''x'')) es))),
      rt_stopped = (\<lambda>w s. False), rt_show = (\<lambda>e. ''''), rt_bad_path = (\<lambda>e. [])\<rparr>"

definition sample_request :: compare_request where
  "sample_request =
     \<lparr>cq_scope = CsWhole, cq_max_entries = 10, cq_entry_limit = LimitWhole, cq_counted_before = Map.empty,
      cq_method = ByMetadata, cq_named_files = None, cq_follow = FollowNo, cq_external_links = ExternalFollow,
      cq_content_limit = Unlimited, cq_unfollowable_links = UnfollowableReport, cq_lost_destination = FailPaths\<rparr>"

definition sample_merge :: merge_uses where
  "sample_merge = \<lparr>mu_targets = targets_new MergeWhole [], mu_delete = False, mu_dry_run = False, mu_reference_check = False\<rparr>"

definition sample_sides :: compare_sides where
  "sample_sides = \<lparr>cs_left = LocalSide, cs_right = RemoteSide ''s'', cs_reference = None\<rparr>"

definition sample_table :: state_rows where
  "sample_table =
     [(''f'', no_states\<lparr>pst_states := [RoleLeft \<mapsto> SsFile (Some 1) None, RoleRight \<mapsto> SsFile (Some 2) None]\<rparr>)]"

definition sample_result :: "unit \<times> reused option \<times> (unit read_stop + compared_paths \<times> (role \<Rightarrow> asked option))" where
  "sample_result =
     judge_and_read sample_routes sample_request (uses_of_merge sample_merge) sample_sides sample_table () None"

definition sample_compared :: compared_paths where
  "sample_compared = (case snd (snd sample_result) of Inr (paths, _) \<Rightarrow> paths | _ \<Rightarrow> [])"

definition sample_asked :: "role \<Rightarrow> asked option" where
  "sample_asked = (case snd (snd sample_result) of Inr (_, asked) \<Rightarrow> asked | _ \<Rightarrow> Map.empty)"

lemma sample_result_ok: "case snd (snd sample_result) of Inr _ \<Rightarrow> True | Inl _ \<Rightarrow> False"
  by code_simp

lemma sample_run:
  "judge_and_read sample_routes sample_request (uses_of_merge sample_merge) sample_sides sample_table () None
     = (fst sample_result, fst (snd sample_result), Inr (sample_compared, sample_asked))"
proof -
  obtain a b c where r: "sample_result = (a, b, c)" by (cases sample_result) auto
  show ?thesis using sample_result_ok
    unfolding sample_result_def[symmetric] sample_compared_def sample_asked_def r by (cases c) auto
qed

theorem compare_reads_inside_witness:
  "content_inside (snd (hd sample_table)) RoleRight"
proof -
  have "sample_asked RoleRight = Some \<lparr>as_hashed = [''f''], as_read = []\<rparr>" by code_simp
  from compare_reads_inside[OF merge_command sample_run this, of "''f''"]
  show ?thesis by (simp add: sample_table_def)
qed

lemma judge_and_read_witness:
  "snd (snd sample_result) \<noteq> Inl RsPanic"
proof -
  have "rows_have_sides sample_sides sample_table"
    by (simp add: rows_have_sides_def sample_table_def no_states_def sample_sides_def by_role_def split: role.split)
  then show ?thesis unfolding sample_result_def by (rule judge_and_read_never_panics)
qed


end
