(* ===== verification/ChangeCheck.thy ===== *)
theory ChangeCheck
  imports ScanTypes
begin

text \<open>
  Whether a change took place (\<open>change_check.rs\<close> of remote-merge-core): after the connection was lost
  in the middle of a change, the destination is read again and its state is judged against the state
  before and the change. SHA-256 as lower case hex (\<open>hex_of_bytes\<close>) is a parameter.
\<close>

datatype before = BfAbsent | BfContent bytes | BfHash string | BfUnknown

datatype change = ChWrite before bytes | ChSymlink string | ChRemove | ChChmod u32

datatype seen = SeenAbsent | SeenFile bytes | SeenLink string | SeenMode u32 bool

datatype outcome = Done | NotDone | Partial | Undetermined

fun judge_write :: "(bytes \<Rightarrow> string) \<Rightarrow> before \<Rightarrow> seen \<Rightarrow> outcome" where
  "judge_write hex BfAbsent SeenAbsent = NotDone"
| "judge_write hex (BfContent previous) (SeenFile now) = (if previous = now then NotDone else Partial)"
| "judge_write hex (BfHash previous) (SeenFile now) = (if previous = hex now then NotDone else Partial)"
| "judge_write hex BfUnknown _ = Undetermined"
| "judge_write hex _ _ = Partial"

fun judge :: "(bytes \<Rightarrow> string) \<Rightarrow> change \<Rightarrow> seen \<Rightarrow> outcome" where
  "judge hex (ChWrite before content) observed =
     (if observed = SeenFile content then Done else judge_write hex before observed)"
| "judge hex (ChSymlink target) observed =
     (case observed of
        SeenLink now \<Rightarrow> if now = target then Done else Partial
      | SeenAbsent \<Rightarrow> NotDone
      | _ \<Rightarrow> Partial)"
| "judge hex ChRemove observed = (case observed of SeenAbsent \<Rightarrow> Done | _ \<Rightarrow> NotDone)"
| "judge hex (ChChmod mode) observed =
     (case observed of
        SeenMode now directory \<Rightarrow>
          (case permission_mode mode of
             Inr m \<Rightarrow> if resulting m now directory = now then Done else NotDone
           | Inl _ \<Rightarrow> NotDone)
      | _ \<Rightarrow> NotDone)"

definition mode_in_listing :: "listed_entry list \<Rightarrow> string \<Rightarrow> seen" where
  "mode_in_listing entries path =
     (case find (\<lambda>e. le_path e = path) entries of
        Some e \<Rightarrow>
          SeenMode (le_permissions e)
            (case le_kind e of
               LkDirectory \<Rightarrow> True
             | LkSymlink _ points_to \<Rightarrow> points_to = LpDirectory
             | _ \<Rightarrow> False)
      | None \<Rightarrow> SeenAbsent)"

fun what_happened :: "change \<Rightarrow> outcome \<Rightarrow> seen \<Rightarrow> string" where
  "what_happened _ Done _ = ''done''"
| "what_happened _ Partial _ =
     ''partially written: after reconnecting, the destination matched ''
       @ ''neither its previous nor the new content; it was not restored automatically''"
| "what_happened _ Undetermined _ =
     ''result unknown: after reconnecting, the destination did ''
       @ ''not match the new content, and its previous content was not kept, so it cannot be ''
       @ ''told whether it was left unchanged or partially written''"
| "what_happened ChRemove NotDone _ =
     ''not deleted: after reconnecting, the file was confirmed to still exist''"
| "what_happened (ChChmod _) NotDone (SeenMode now _) =
     ''permissions not changed: after reconnecting, the mode was confirmed to be '' @ show_oct (unat now)"
| "what_happened (ChChmod _) NotDone _ =
     ''permissions not changed: after reconnecting, the path was not found''"
| "what_happened _ NotDone _ =
     ''not written: after reconnecting, the destination was confirmed unchanged''"

definition describe :: "change \<Rightarrow> outcome \<Rightarrow> seen \<Rightarrow> string \<Rightarrow> string" where
  "describe change outcome observed cause =
     what_happened change outcome observed @ '' (the connection was lost: '' @ cause @ '')''"

definition describe_unconfirmed :: "string \<Rightarrow> string \<Rightarrow> string" where
  "describe_unconfirmed cause reason =
     ''result unknown: the connection was lost and the destination could not be confirmed (''
       @ reason @ '') (the connection was lost: '' @ cause @ '')''"

subsection \<open>An abstract destination\<close>

text \<open>
  What a path can hold, what a change makes of it, and what the confirming reads of \<open>confirm.rs\<close>
  show of it: the content for a write, whether something is there and which link for a symlink and
  a removal, and the mode for a chmod.
\<close>

datatype entry_at =
    AtNothing
  | AtFile bytes u32
  | AtDirectory u32
  | AtLink string

fun completed :: "change \<Rightarrow> entry_at \<Rightarrow> entry_at option" where
  "completed (ChWrite _ content) AtNothing = Some (AtFile content 0x1A4)"
| "completed (ChWrite _ content) (AtFile _ mode) = Some (AtFile content mode)"
| "completed (ChSymlink target) AtNothing = Some (AtLink target)"
| "completed ChRemove (AtFile _ _) = Some AtNothing"
| "completed ChRemove (AtLink _) = Some AtNothing"
| "completed (ChChmod m) (AtFile content now) =
     (case permission_mode m of Inr m' \<Rightarrow> Some (AtFile content (resulting m' now False)) | Inl _ \<Rightarrow> None)"
| "completed (ChChmod m) (AtDirectory now) =
     (case permission_mode m of Inr m' \<Rightarrow> Some (AtDirectory (resulting m' now True)) | Inl _ \<Rightarrow> None)"
| "completed _ _ = None"

fun shown_to :: "change \<Rightarrow> entry_at \<Rightarrow> seen option" where
  "shown_to _ AtNothing = Some SeenAbsent"
| "shown_to (ChChmod _) (AtFile _ mode) = Some (SeenMode mode False)"
| "shown_to (ChChmod _) (AtDirectory mode) = Some (SeenMode mode True)"
| "shown_to (ChChmod _) (AtLink _) = None"
| "shown_to (ChWrite _ _) (AtFile content _) = Some (SeenFile content)"
| "shown_to (ChWrite _ _) (AtDirectory _) = None"
| "shown_to _ (AtLink target) = Some (SeenLink target)"
| "shown_to _ _ = Some (SeenFile [])"

text \<open>The state before a write, as the merge kept it, is that of the destination.\<close>

fun kept_before :: "(bytes \<Rightarrow> string) \<Rightarrow> change \<Rightarrow> entry_at \<Rightarrow> bool" where
  "kept_before hex (ChWrite BfAbsent _) at = (at = AtNothing)"
| "kept_before hex (ChWrite (BfContent c) _) (AtFile now _) = (c = now)"
| "kept_before hex (ChWrite (BfHash h) _) (AtFile now _) = (h = hex now)"
| "kept_before hex (ChWrite BfUnknown _) _ = False"
| "kept_before hex (ChWrite _ _) _ = False"
| "kept_before hex _ _ = True"

lemma judge_completed:
  assumes "completed ch at = Some after" and "shown_to ch after = Some obs"
  shows "judge hex ch obs = Done"
  using assms
  by (cases "(ch, at)" rule: completed.cases) (auto simp: resulting_idem split: sum.splits)

lemma judge_write_not_done: "judge_write hex b obs \<noteq> Done"
  by (cases "(hex, b, obs)" rule: judge_write.cases) auto

lemma judge_untouched:
  assumes "completed ch at = Some after" and "kept_before hex ch at"
    and "shown_to ch at = Some obs" and "shown_to ch after = Some obs'" and "obs \<noteq> obs'"
  shows "judge hex ch obs = NotDone"
  using assms
  by (cases "(ch, at)" rule: completed.cases; cases ch)
     (auto split: sum.splits before.splits if_splits elim!: kept_before.elims)

lemma judge_Done:
  assumes "judge hex ch obs = Done"
  shows "case ch of
      ChWrite _ content \<Rightarrow> obs = SeenFile content
    | ChSymlink target \<Rightarrow> obs = SeenLink target
    | ChRemove \<Rightarrow> obs = SeenAbsent
    | ChChmod m \<Rightarrow> \<exists>now directory. obs = SeenMode now directory \<and> permission_mode m = Inr m
                     \<and> resulting m now directory = now"
proof (cases ch)
  case (ChWrite b content)
  then show ?thesis using assms judge_write_not_done[of hex b obs] by (auto split: if_splits)
qed (use assms in \<open>auto simp: permission_mode_def split: seen.splits if_splits sum.splits\<close>)

text \<open>C40: after a lost connection the judgement of a change is exact. What the completed change leaves is
  judged done; what was there before, when it is known and looks different, is judged not done; and done
  is never said of anything but the content written, the link created, nothing left, or a mode that the
  change would leave as it is.\<close>

theorem judge_change_exact:
  assumes "completed ch at = Some after" and "shown_to ch after = Some obs'"
  shows "judge hex ch obs' = Done
    \<and> (kept_before hex ch at \<and> shown_to ch at = Some obs \<and> obs \<noteq> obs' \<longrightarrow> judge hex ch obs = NotDone)
    \<and> (judge hex ch any = Done \<longrightarrow>
        (case ch of
           ChWrite _ content \<Rightarrow> any = SeenFile content
         | ChSymlink target \<Rightarrow> any = SeenLink target
         | ChRemove \<Rightarrow> any = SeenAbsent
         | ChChmod m \<Rightarrow> \<exists>now directory. any = SeenMode now directory \<and> permission_mode m = Inr m
                          \<and> resulting m now directory = now))"
  using judge_completed[OF assms] judge_untouched[OF assms(1) _ _ assms(2)] judge_Done by blast

lemma judge_change_exact_witness:
  "judge (\<lambda>_. ''h'') (ChWrite (BfContent ''old'') ''new'') (SeenFile ''new'') = Done \<and>
   judge (\<lambda>_. ''h'') (ChWrite (BfContent ''old'') ''new'') (SeenFile ''old'') = NotDone"
  using judge_change_exact[of "ChWrite (BfContent ''old'') ''new''" "AtFile ''old'' 420" "AtFile ''new'' 420"
      "SeenFile ''new''" "\<lambda>_. ''h''" "SeenFile ''old''"] by simp

end
