(* ===== verification/AppError.thy ===== *)
theory AppError
  imports Prelude
begin

text \<open>
  The errors of the application (\<open>error.rs\<close> of remote-merge-core) and their words. Paths are shown by
  \<open>Path::display\<close>, which is the identity on UTF-8 paths.
\<close>

type_synonym u16 = "16 word"

datatype app_error =
    ConfigNotFound string string
  | ConfigParse string string
  | ConfigValidation string string
  | SshConnection string string
  | SshDisconnected string string
  | SshAuth string string
  | SshExec string
  | SshTimeout string u64
  | SshKeyLoad string
  | PathNotFound string
  | RemoteRootNotFound string string

definition newline :: string where
  "newline = [CHR 0x0A]"

fun show_app_error :: "app_error \<Rightarrow> string" where
  "show_app_error (ConfigNotFound project_path global_path) =
     ''Config file not found.'' @ newline @ ''  Searched:'' @ newline @ ''  - '' @ project_path @ newline
       @ ''  - '' @ global_path"
| "show_app_error (ConfigParse path detail) = ''Failed to parse config file: '' @ path @ '': '' @ detail"
| "show_app_error (ConfigValidation field message) = ''Invalid config value: '' @ field @ '' - '' @ message"
| "show_app_error (SshConnection host message) = ''SSH connection failed to '' @ host @ '': '' @ message"
| "show_app_error (SshDisconnected host message) = ''SSH connection failed to '' @ host @ '': '' @ message"
| "show_app_error (SshAuth host user) = ''SSH authentication failed (user: '' @ user @ ''@'' @ host @ '')''"
| "show_app_error (SshExec cmd) = ''SSH command execution failed: '' @ cmd"
| "show_app_error (SshTimeout host timeout_sec) =
     ''SSH connection timed out ('' @ show_nat (unat timeout_sec) @ ''s): '' @ host"
| "show_app_error (SshKeyLoad path) = ''Failed to load SSH private key: '' @ path"
| "show_app_error (PathNotFound path) = ''Path not found: '' @ path"
| "show_app_error (RemoteRootNotFound host path) = ''Remote root_dir not found: '' @ host @ '':'' @ path"

end
