(* ===== verification/ConfigValue.thy ===== *)
theory ConfigValue
  imports AppError Content
begin

text \<open>
  The settings (\<open>value.rs\<close>, \<open>schema.rs\<close> of remote-merge-config and \<open>remote-merge-settings\<close>): the
  values as they are written, the values the program uses, their defaults and the conversion between
  them. Paths are strings; the home directory is a parameter. An error is a config error, or the
  failure of a system call with words in front of it.
\<close>

subsection \<open>Paths\<close>

text \<open>\<open>Path::join\<close> and \<open>Path::components().collect()\<close>.\<close>

definition path_join :: "string \<Rightarrow> string \<Rightarrow> string" where
  "path_join base p =
     (if starts_with ''/'' p \<or> base = [] then p
      else if last base = CHR ''/'' then base @ p
      else base @ ''/'' @ p)"

definition path_is_absolute :: "string \<Rightarrow> bool" where
  "path_is_absolute p = starts_with ''/'' p"

definition path_names :: "string \<Rightarrow> string list" where
  "path_names p = filter (\<lambda>e. e \<noteq> [] \<and> e \<noteq> ''.'') (split_on CHR ''/'' p)"

definition collect_components :: "string \<Rightarrow> string" where
  "collect_components p =
     (if path_is_absolute p then ''/'' @ join_with ''/'' (path_names p)
      else
        join_with ''/''
          ((if hd (split_on CHR ''/'' p) = ''.'' then [''.''] else []) @ path_names p))"

definition expand_tilde :: "string option \<Rightarrow> string \<Rightarrow> string" where
  "expand_tilde home path =
     (case (strip_prefix ''~/'' path, home) of
        (Some stripped, Some h) \<Rightarrow> path_join h stripped
      | _ \<Rightarrow> path)"

subsection \<open>The values used\<close>

datatype auth_method = AuthKey | AuthPassword

record ssh_options =
  so_kex_algorithms :: "string list option"
  so_host_key_algorithms :: "string list option"
  so_ciphers :: "string list option"
  so_mac_algorithms :: "string list option"

record server_config =
  sv_host :: string
  sv_port :: u16
  sv_user :: string
  sv_auth :: auth_method
  sv_password :: "string option"
  sv_key :: "string option"
  sv_root_dir :: string
  sv_ssh_options :: "ssh_options option"
  sv_sudo :: bool
  sv_file_permissions :: "u32 option"
  sv_dir_permissions :: "u32 option"

datatype strict_checking = StrictAsk | StrictYes | StrictNo

record ssh_config =
  sc_timeout_sec :: u64
  sc_strict :: strict_checking
  sc_auto_yes :: bool
  sc_known_hosts :: "string option"

definition default_ssh :: ssh_config where
  "default_ssh =
     \<lparr>sc_timeout_sec = 300, sc_strict = StrictAsk, sc_auto_yes = False, sc_known_hosts = None\<rparr>"

record filter_config =
  fc_exclude :: "string list"
  fc_include :: "string list"

record backup_config =
  bc_enabled :: bool
  bc_retention_days :: u32

record defaults_config =
  dc_file_permissions :: u32
  dc_dir_permissions :: u32

record agent_config =
  ac_enabled :: bool
  ac_deploy_dir :: string

record content_rule =
  cr_side :: string
  cr_path :: string
  cr_encoding :: interpretation_of

record content_config =
  cc_defaults :: "(string \<times> interpretation_of) list"
  cc_rules :: "content_rule list"

record app_config =
  cf_content :: content_config
  cf_servers :: "(string \<times> server_config) list"
  cf_local_root :: string
  cf_filter :: filter_config
  cf_ssh :: ssh_config
  cf_backup :: backup_config
  cf_agent :: agent_config
  cf_defaults :: defaults_config
  cf_max_scan_entries :: nat

definition default_defaults :: defaults_config where
  "default_defaults = \<lparr>dc_file_permissions = 0x1B4, dc_dir_permissions = 0x1FD\<rparr>"

definition default_max_scan_entries :: nat where
  "default_max_scan_entries = 50000"

definition default_backup :: backup_config where
  "default_backup = \<lparr>bc_enabled = True, bc_retention_days = 7\<rparr>"

definition default_agent :: agent_config where
  "default_agent = \<lparr>ac_enabled = True, ac_deploy_dir = ''/var/tmp''\<rparr>"

subsection \<open>The values as written\<close>

record raw_server =
  rs_host :: string
  rs_port :: "u16 option"
  rs_user :: string
  rs_auth :: "string option"
  rs_password :: "string option"
  rs_key :: "string option"
  rs_root_dir :: string
  rs_ssh_options :: "ssh_options option"
  rs_sudo :: "bool option"
  rs_file_permissions :: "string option"
  rs_dir_permissions :: "string option"

record raw_defaults =
  rd_file_permissions :: "string option"
  rd_dir_permissions :: "string option"

record raw_local =
  rl_root_dir :: string
  rl_config_path :: string

record raw_filter =
  rf_exclude :: "string list option"
  rf_include :: "string list option"

record raw_ssh =
  rh_timeout_sec :: "u64 option"
  rh_strict :: "string option"

record raw_backup =
  rb_enabled :: "bool option"
  rb_retention_days :: "u32 option"

record raw_agent =
  ra_enabled :: "bool option"
  ra_deploy_dir :: "string option"

record raw_rule =
  rr_side :: string
  rr_path :: string
  rr_encoding :: string

record raw_content =
  rc_defaults :: "(string \<times> string) list"
  rc_rules :: "raw_rule list"

record raw_config =
  raw_content_of :: "raw_content option"
  raw_servers :: "(string \<times> raw_server) list option"
  raw_local_of :: "raw_local option"
  raw_filter_of :: "raw_filter option"
  raw_ssh_of :: "raw_ssh option"
  raw_backup_of :: "raw_backup option"
  raw_agent_of :: "raw_agent option"
  raw_defaults_of :: "raw_defaults option"
  raw_max_scan_entries :: "nat option"

subsection \<open>Conversions\<close>

datatype config_error = CfApp app_error | CfText string | CfIo string | CfFailed string string

fun unwrap_or :: "'a option \<Rightarrow> 'a \<Rightarrow> 'a" where
  "unwrap_or (Some x) _ = x"
| "unwrap_or None d = d"

definition validate_max_scan_entries :: "nat \<Rightarrow> string + unit" where
  "validate_max_scan_entries n =
     (if n = 0 \<or> n > 1000000
      then Inl (''max_scan_entries must be between 1 and 1,000,000, got '' @ show_nat n)
      else Inr ())"

definition resolve_max_entries :: "nat option \<Rightarrow> app_config \<Rightarrow> config_error + nat" where
  "resolve_max_entries cli_override config =
     (let n = unwrap_or cli_override (cf_max_scan_entries config) in
      res_bind (res_map_err CfText (validate_max_scan_entries n)) (\<lambda>_. Inr n))"

text \<open>\<open>u32::from_str_radix(digits, 8)\<close> of octal digits: \<open>None\<close> when the value does not fit.\<close>

definition octal_value :: "string \<Rightarrow> nat" where
  "octal_value digits = foldl (\<lambda>v c. 8 * v + (of_char c - 48)) 0 digits"

definition u32_from_octal :: "string \<Rightarrow> u32 option" where
  "u32_from_octal digits =
     (if octal_value digits < 2 ^ 32 then Some (word_of_nat (octal_value digits)) else None)"

definition parse_permissions :: "string \<Rightarrow> string + u32" where
  "parse_permissions s =
     (let digits = (case strip_prefix ''0o'' s of Some rest \<Rightarrow> rest | None \<Rightarrow> s) in
      if digits = [] then
        Inl (''invalid permissions string: '' @ single_quoted s @ '' (empty octal digits)'')
      else if \<not> list_all (byte_in 48 55) digits then
        Inl (''invalid permissions string: '' @ single_quoted s @ '' (must contain only octal digits 0-7)'')
      else
        (case u32_from_octal digits of
           None \<Rightarrow> Inl (''invalid permissions string: '' @ single_quoted s
                      @ '' (number too large to fit in target type)'')
         | Some value \<Rightarrow>
             if value > 0x1FF then
               Inl (''invalid permissions value: '' @ single_quoted s @ '' (must be <= 0o777, got 0o''
                    @ show_oct (unat value) @ '')'')
             else Inr value))"

definition parse_permissions_field :: "string \<Rightarrow> string \<Rightarrow> config_error + u32" where
  "parse_permissions_field value field_name =
     res_map_err (\<lambda>msg. CfApp (ConfigValidation field_name msg)) (parse_permissions value)"

definition resolve_file_permissions :: "server_config \<Rightarrow> defaults_config \<Rightarrow> u32" where
  "resolve_file_permissions server defaults =
     unwrap_or (sv_file_permissions server) (dc_file_permissions defaults)"

definition resolve_dir_permissions :: "server_config \<Rightarrow> defaults_config \<Rightarrow> u32" where
  "resolve_dir_permissions server defaults =
     unwrap_or (sv_dir_permissions server) (dc_dir_permissions defaults)"

definition convert_agent_config :: "raw_agent option \<Rightarrow> agent_config" where
  "convert_agent_config raw =
     (case raw of
        None \<Rightarrow> default_agent
      | Some r \<Rightarrow>
          \<lparr>ac_enabled = unwrap_or (ra_enabled r) (ac_enabled default_agent),
           ac_deploy_dir = unwrap_or (ra_deploy_dir r) (ac_deploy_dir default_agent)\<rparr>)"

definition convert_backup_config :: "raw_backup option \<Rightarrow> backup_config" where
  "convert_backup_config raw =
     (case raw of
        None \<Rightarrow> default_backup
      | Some r \<Rightarrow>
          \<lparr>bc_enabled = unwrap_or (rb_enabled r) (bc_enabled default_backup),
           bc_retention_days = unwrap_or (rb_retention_days r) (bc_retention_days default_backup)\<rparr>)"

text \<open>
  \<open>str::to_lowercase\<close>, as far as the comparison with an ASCII word can tell: besides A to Z, only the
  Kelvin sign (U+212A, the bytes E2 84 AA) has an ASCII letter as its lower case.
\<close>

fun lowercase_view :: "string \<Rightarrow> string" where
  "lowercase_view (a # b # c # s) =
     (if a = CHR 0xE2 \<and> b = CHR 0x84 \<and> c = CHR 0xAA then CHR ''k'' # lowercase_view s
      else ascii_lower a # lowercase_view (b # c # s))"
| "lowercase_view s = map ascii_lower s"

definition parse_strict_host_key_checking :: "string \<Rightarrow> config_error + strict_checking" where
  "parse_strict_host_key_checking s =
     (let lower = lowercase_view s in
      if lower = ''ask'' then Inr StrictAsk
      else if lower = ''yes'' \<or> lower = ''true'' then Inr StrictYes
      else if lower = ''no'' \<or> lower = ''false'' then Inr StrictNo
      else
        Inl (CfApp (ConfigValidation ''ssh.strict_host_key_checking''
          (''unknown value '' @ single_quoted s @ '' (expected '' @ single_quoted ''ask'' @ '', ''
             @ single_quoted ''yes'' @ '', '' @ single_quoted ''true'' @ '', '' @ single_quoted ''no''
             @ '' or '' @ single_quoted ''false'' @ '')''))))"

definition convert_raw_ssh_config :: "raw_ssh \<Rightarrow> config_error + ssh_config" where
  "convert_raw_ssh_config raw =
     res_bind
       (case rh_strict raw of
          Some value \<Rightarrow> parse_strict_host_key_checking value
        | None \<Rightarrow> Inr (sc_strict default_ssh))
       (\<lambda>strict.
         Inr (default_ssh\<lparr>sc_timeout_sec := unwrap_or (rh_timeout_sec raw) (sc_timeout_sec default_ssh),
                sc_strict := strict\<rparr>))"

text \<open>An optional permission that is written, or the default.\<close>

definition permissions_or :: "string option \<Rightarrow> string \<Rightarrow> u32 \<Rightarrow> config_error + u32" where
  "permissions_or written field d =
     (case written of Some s \<Rightarrow> parse_permissions_field s field | None \<Rightarrow> Inr d)"

definition convert_defaults_config :: "raw_defaults option \<Rightarrow> config_error + defaults_config" where
  "convert_defaults_config raw =
     (case raw of
        None \<Rightarrow> Inr default_defaults
      | Some r \<Rightarrow>
          res_bind (permissions_or (rd_file_permissions r) ''defaults.file_permissions''
                      (dc_file_permissions default_defaults)) (\<lambda>file.
          res_bind (permissions_or (rd_dir_permissions r) ''defaults.dir_permissions''
                      (dc_dir_permissions default_defaults)) (\<lambda>dir.
            Inr \<lparr>dc_file_permissions = file, dc_dir_permissions = dir\<rparr>)))"

definition parse_auth :: "string \<Rightarrow> string option \<Rightarrow> config_error + auth_method" where
  "parse_auth name auth =
     (case auth of
        None \<Rightarrow> Inr AuthKey
      | Some value \<Rightarrow>
          if value = ''password'' then Inr AuthPassword
          else if value = ''key'' then Inr AuthKey
          else
            Inl (CfApp (ConfigValidation (''servers.'' @ name @ ''.auth'')
              (''invalid auth value: '' @ single_quoted value @ '' (expected '' @ single_quoted ''key''
                 @ '' or '' @ single_quoted ''password'' @ '')''))))"

definition server_permissions :: "string \<Rightarrow> string \<Rightarrow> string option \<Rightarrow> config_error + u32 option" where
  "server_permissions name field written =
     (case written of
        None \<Rightarrow> Inr None
      | Some p \<Rightarrow>
          res_bind (parse_permissions_field p (''servers.'' @ name @ ''.'' @ field)) (\<lambda>m. Inr (Some m)))"

definition convert_server_config :: "string option \<Rightarrow> string \<Rightarrow> raw_server \<Rightarrow> config_error + server_config" where
  "convert_server_config home name raw =
     (let port = unwrap_or (rs_port raw) 22 in
      if port = 0 then
        Inl (CfApp (ConfigValidation (''servers.'' @ name @ ''.port'') ''port must be >= 1''))
      else
        res_bind (parse_auth name (rs_auth raw)) (\<lambda>auth.
        if rs_root_dir raw = [] then
          Inl (CfApp (ConfigValidation (''servers.'' @ name @ ''.root_dir'') ''root_dir must not be empty''))
        else
          res_bind (server_permissions name ''file_permissions'' (rs_file_permissions raw)) (\<lambda>file.
          res_bind (server_permissions name ''dir_permissions'' (rs_dir_permissions raw)) (\<lambda>dir.
            Inr \<lparr>sv_host = rs_host raw, sv_port = port, sv_user = rs_user raw, sv_auth = auth,
                 sv_password = rs_password raw, sv_key = map_option (expand_tilde home) (rs_key raw),
                 sv_root_dir = rs_root_dir raw, sv_ssh_options = rs_ssh_options raw,
                 sv_sudo = unwrap_or (rs_sudo raw) False,
                 sv_file_permissions = file, sv_dir_permissions = dir\<rparr>))))"

end
