(* ===== verification/ConfigInclude.thy ===== *)
theory ConfigInclude
  imports ConfigValue RelPath
begin

text \<open>
  The include values of the settings (\<open>include.rs\<close> of remote-merge-config): leading "./" is dropped,
  absolute paths, ".." and glob characters are refused with a warning, what is left is normalised, and
  values below another value are dropped. Values that are all refused are told apart from no value, so
  that a typo never widens a scan to the whole root_dir.
\<close>

datatype include_values = IncListed "string list" | IncWholeRoot | IncAllInvalid

fun strip_leading_dot_slash :: "string \<Rightarrow> string" where
  "strip_leading_dot_slash (a # b # rest) =
     (if a = CHR ''.'' \<and> b = CHR ''/'' then strip_leading_dot_slash rest else a # b # rest)"
| "strip_leading_dot_slash s = s"

definition has_parent_element :: "string \<Rightarrow> bool" where
  "has_parent_element value = (''..'' \<in> set (split_on CHR ''/'' value))"

definition join_normal_elements :: "string \<Rightarrow> string" where
  "join_normal_elements value = join_with ''/'' (filter (\<lambda>e. e \<noteq> ''..'') (path_names value))"

definition invalid_include_warning :: "string \<Rightarrow> string \<Rightarrow> string option" where
  "invalid_include_warning raw value =
     (if path_is_absolute value then Some (''Absolute path is not allowed in include filter: '' @ raw)
      else if has_parent_element value then
        Some (''Path traversal is not allowed in include filter: '' @ raw)
      else if CHR ''*'' \<in> set value \<or> CHR ''?'' \<in> set value \<or> CHR ''['' \<in> set value then
        Some (''Glob patterns are not supported in include filter: '' @ raw)
      else None)"

text \<open>The loop that keeps a path unless one kept before is above it; \<open>Vec::dedup\<close> drops neighbours that
  are equal, which is \<open>remdups_adj\<close>.\<close>

definition nested_in :: "string \<Rightarrow> string \<Rightarrow> bool" where
  "nested_in path parent = (starts_with parent path \<and> nth_opt path (length parent) = Some CHR ''/'')"

fun keep_outer :: "string list \<Rightarrow> string list \<Rightarrow> string list" where
  "keep_outer kept [] = kept"
| "keep_outer kept (path # paths) =
     keep_outer (if list_ex (nested_in path) kept then kept else kept @ [path]) paths"

definition drop_nested_include_paths :: "string list \<Rightarrow> string list" where
  "drop_nested_include_paths paths = keep_outer [] (remdups_adj (sort paths))"

record include_loop =
  il_warnings :: "string list"
  il_normalized :: "string list"
  il_whole_root :: bool

definition include_step :: "string \<Rightarrow> include_loop \<Rightarrow> include_loop" where
  "include_step raw st =
     (let value = strip_leading_dot_slash raw in
      if value = [] then st
      else
        (case invalid_include_warning raw value of
           Some warning \<Rightarrow> st\<lparr>il_warnings := il_warnings st @ [warning]\<rparr>
         | None \<Rightarrow>
             (let joined = join_normal_elements value in
              if joined = [] then st\<lparr>il_whole_root := True\<rparr>
              else st\<lparr>il_normalized := push_new joined (il_normalized st)\<rparr>)))"

definition normalize_include_paths :: "string list \<Rightarrow> include_values \<times> string list" where
  "normalize_include_paths paths =
     (let st = fold include_step paths \<lparr>il_warnings = [], il_normalized = [], il_whole_root = False\<rparr> in
      if il_whole_root st then (IncWholeRoot, il_warnings st)
      else if il_normalized st = [] \<and> il_warnings st \<noteq> [] then (IncAllInvalid, il_warnings st)
      else (IncListed (drop_nested_include_paths (il_normalized st)), il_warnings st))"

subsection \<open>What normalisation keeps\<close>

text \<open>A value below root_dir in its one spelling: names joined by single slashes.\<close>

definition plain_relative :: "string \<Rightarrow> bool" where
  "plain_relative p =
     (p \<noteq> [] \<and> (\<forall>e \<in> set (split_on CHR ''/'' p). e \<noteq> [] \<and> e \<noteq> ''.'' \<and> e \<noteq> ''..''))"

lemma nested_in_below: "nested_in path parent \<longleftrightarrow> (\<exists>rest. path = parent @ ''/'' @ rest)"
proof -
  have "starts_with parent path \<and> length parent < length path \<and> path ! length parent = CHR ''/''
      \<longleftrightarrow> (\<exists>rest. path = parent @ ''/'' @ rest)"
  proof
    assume "starts_with parent path \<and> length parent < length path \<and> path ! length parent = CHR ''/''"
    then obtain t where "path = parent @ t" "t \<noteq> []" "hd t = CHR ''/''"
      by (auto simp: starts_with_iff nth_append hd_conv_nth)
    then show "\<exists>rest. path = parent @ ''/'' @ rest" by (cases t) auto
  qed (auto simp: starts_with_iff)
  then show ?thesis by (auto simp: nested_in_def nth_opt_eq split: if_splits)
qed

lemma plain_relative_joined:
  assumes "join_normal_elements v \<noteq> []"
  shows "plain_relative (join_normal_elements v)"
proof -
  let ?es = "filter (\<lambda>e. e \<noteq> ''..'') (path_names v)"
  have "?es \<noteq> []" using assms by (auto simp: join_normal_elements_def)
  moreover have "CHR ''/'' \<notin> set e" if "e \<in> set ?es" for e
    using that split_on_elem by (auto simp: path_names_def)
  ultimately have "split_on CHR ''/'' (join_normal_elements v) = ?es"
    using split_join[of ?es "CHR ''/''"] by (simp add: join_normal_elements_def)
  then show ?thesis using assms by (auto simp: plain_relative_def path_names_def)
qed

lemma include_step_plain:
  "\<forall>p \<in> set (il_normalized st). plain_relative p \<Longrightarrow>
   \<forall>p \<in> set (il_normalized (include_step raw st)). plain_relative p"
  using plain_relative_joined by (auto simp: include_step_def Let_def split: option.splits)

lemma include_loop_plain:
  "\<forall>p \<in> set (il_normalized st). plain_relative p \<Longrightarrow>
   \<forall>p \<in> set (il_normalized (fold include_step paths st)). plain_relative p"
proof (induction paths arbitrary: st)
  case (Cons raw paths)
  then show ?case using include_step_plain[of st raw] by simp
qed simp

lemma keep_outer_subset: "set (keep_outer kept paths) \<subseteq> set kept \<union> set paths"
  by (induction kept paths rule: keep_outer.induct) (auto split: if_splits)

lemma keep_outer_kept: "set kept \<subseteq> set (keep_outer kept paths)"
  by (induction kept paths rule: keep_outer.induct) (auto split: if_splits)

lemma nested_in_less: "nested_in a b \<Longrightarrow> b < a"
  using list_less_append by (auto simp: nested_in_below)

lemma keep_outer_antichain:
  assumes "sorted (kept @ paths)"
    and "\<forall>a \<in> set kept. \<forall>b \<in> set kept. \<not> nested_in a b"
  shows "\<forall>a \<in> set (keep_outer kept paths). \<forall>b \<in> set (keep_outer kept paths). \<not> nested_in a b"
  using assms
proof (induction paths arbitrary: kept)
  case (Cons path paths)
  show ?case
  proof (cases "list_ex (nested_in path) kept")
    case True
    have "sorted (kept @ paths)" using Cons.prems(1) by (simp add: sorted_append)
    from Cons.IH[OF this Cons.prems(2)] True show ?thesis by simp
  next
    case False
    have ge: "\<forall>a \<in> set kept. a \<le> path" using Cons.prems(1) by (simp add: sorted_append)
    have "\<not> nested_in a path" if "a \<in> set kept" for a
      using that ge nested_in_less[of a path] by fastforce
    moreover have "\<not> nested_in path path" using nested_in_less[of path path] by auto
    ultimately have "\<forall>a \<in> set (kept @ [path]). \<forall>b \<in> set (kept @ [path]). \<not> nested_in a b"
      using Cons.prems(2) False by (auto simp: list_ex_iff)
    moreover have "sorted ((kept @ [path]) @ paths)" using Cons.prems(1) by simp
    ultimately have "\<forall>a \<in> set (keep_outer (kept @ [path]) paths).
        \<forall>b \<in> set (keep_outer (kept @ [path]) paths). \<not> nested_in a b"
      by (rule Cons.IH[rotated])
    with False show ?thesis by simp
  qed
qed simp

lemma keep_outer_covers:
  "p \<in> set paths \<Longrightarrow> p \<in> set (keep_outer kept paths) \<or> (\<exists>q \<in> set (keep_outer kept paths). nested_in p q)"
proof (induction paths arbitrary: kept)
  case (Cons path paths)
  let ?kept = "if list_ex (nested_in path) kept then kept else kept @ [path]"
  show ?case
  proof (cases "p = path")
    case True
    have "path \<in> set ?kept \<or> (\<exists>q \<in> set ?kept. nested_in path q)" by (auto simp: list_ex_iff)
    then show ?thesis using True keep_outer_kept[of ?kept paths] by (simp only: keep_outer.simps) blast
  next
    case False
    then show ?thesis using Cons.IH[of ?kept] Cons.prems by simp
  qed
qed simp

lemma keep_outer_sorted:
  "sorted_wrt (<) (kept @ paths) \<Longrightarrow> sorted_wrt (<) (keep_outer kept paths)"
  by (induction kept paths rule: keep_outer.induct) (auto simp: sorted_wrt_append)

subsection \<open>The values are the ones written, in one spelling\<close>

lemma drop_nested_exact:
  assumes "drop_nested_include_paths paths = kept"
  shows "set kept \<subseteq> set paths" and "sorted_wrt (<) kept"
    and "\<forall>a \<in> set kept. \<forall>b \<in> set kept. \<not> nested_in a b"
    and "\<forall>p \<in> set paths. p \<in> set kept \<or> (\<exists>q \<in> set kept. nested_in p q)"
proof -
  have k: "kept = keep_outer [] (remdups_adj (sort paths))" using assms by (simp add: drop_nested_include_paths_def)
  have s: "sorted_wrt (<) (remdups_adj (sort paths))" by (rule sorted_dedup) simp
  show "set kept \<subseteq> set paths" using keep_outer_subset[of "[]" "remdups_adj (sort paths)"] k by simp
  show "sorted_wrt (<) kept" using keep_outer_sorted[of "[]"] s k by simp
  show "\<forall>a \<in> set kept. \<forall>b \<in> set kept. \<not> nested_in a b"
    using keep_outer_antichain[of "[]" "remdups_adj (sort paths)"] k by simp
  show "\<forall>p \<in> set paths. p \<in> set kept \<or> (\<exists>q \<in> set kept. nested_in p q)"
    using keep_outer_covers[of _ "remdups_adj (sort paths)" "[]"] k by simp
qed

end
