(* ===== verification/ConfigMerge.thy ===== *)
theory ConfigMerge
  imports ConfigInclude Exclude
begin

text \<open>
  Merging the two layers of settings (\<open>merge.rs\<close>, \<open>content.rs\<close> and the path functions of \<open>loading.rs\<close>
  of remote-merge-config): the global file and the file of the project, which wins. The system calls
  are a parameter, and so is the order in which a HashMap is visited.
\<close>

record config_os =
  co_home :: "string option"
  co_canonicalize :: "string \<Rightarrow> string + string"
  co_current_dir :: "string + string"

subsection \<open>Content rules\<close>

definition content_resolve ::
  "glob \<Rightarrow> content_config \<Rightarrow> string \<Rightarrow> string \<Rightarrow> interpretation_of option \<Rightarrow> interpretation_of" where
  "content_resolve glob c side path cli =
     (case cli of
        Some i \<Rightarrow> i
      | None \<Rightarrow>
          (case find (\<lambda>rule. cr_side rule = side \<and> matches_path_pattern glob path (cr_path rule))
                  (rev (cc_rules c)) of
             Some rule \<Rightarrow> cr_encoding rule
           | None \<Rightarrow> unwrap_or (map_of (cc_defaults c) side) Unspecified))"

definition validate_side :: "(string \<times> server_config) list \<Rightarrow> string \<Rightarrow> config_error + unit" where
  "validate_side servers side =
     (if side = ''local'' \<or> map_of servers side \<noteq> None then Inr ()
      else Inl (CfText (''unknown content side: '' @ side)))"

definition add_content_default ::
  "(string \<times> server_config) list \<Rightarrow> content_config \<Rightarrow> string \<times> string \<Rightarrow> config_error + content_config" where
  "add_content_default servers c d =
     res_bind (validate_side servers (fst d)) (\<lambda>_.
     res_bind (res_map_err CfText (interpretation_from_str (snd d))) (\<lambda>i.
       Inr (c\<lparr>cc_defaults := bt_insert (fst d) i (cc_defaults c)\<rparr>)))"

definition add_content_rule ::
  "(string \<times> server_config) list \<Rightarrow> content_config \<Rightarrow> raw_rule \<Rightarrow> config_error + content_config" where
  "add_content_rule servers c rule =
     res_bind (validate_side servers (rr_side rule)) (\<lambda>_.
     res_bind (res_map_err CfText (interpretation_from_str (rr_encoding rule))) (\<lambda>i.
       Inr (c\<lparr>cc_rules := cc_rules c @ [\<lparr>cr_side = rr_side rule, cr_path = rr_path rule, cr_encoding = i\<rparr>]\<rparr>)))"

definition add_content ::
  "(string \<times> server_config) list \<Rightarrow> content_config \<Rightarrow> raw_content \<Rightarrow> config_error + content_config" where
  "add_content servers c raw =
     res_bind (res_fold (add_content_default servers) c (rc_defaults raw)) (\<lambda>c'.
       res_fold (add_content_rule servers) c' (rc_rules raw))"

fun some_list :: "'a option \<Rightarrow> 'a list" where
  "some_list (Some x) = [x]"
| "some_list None = []"

definition merge_content ::
  "raw_content option \<Rightarrow> raw_content option \<Rightarrow> (string \<times> server_config) list \<Rightarrow> config_error + content_config" where
  "merge_content global project servers =
     res_fold (add_content servers) \<lparr>cc_defaults = [], cc_rules = []\<rparr> (some_list global @ some_list project)"

subsection \<open>The local root\<close>

definition path_for_messages :: "config_os \<Rightarrow> string \<Rightarrow> config_error + string" where
  "path_for_messages os path =
     (if path_is_absolute path then Inr path
      else res_bind (res_map_err CfIo (co_current_dir os)) (\<lambda>dir. Inr (path_join dir path)))"

text \<open>\<open>Path::parent\<close> of a canonical absolute path.\<close>

definition real_parent :: "string \<Rightarrow> string" where
  "real_parent p =
     (if p = ''/'' then p
      else (case rsplit_once CHR ''/'' p of
          Some ([], _) \<Rightarrow> ''/''
        | Some (dir, _) \<Rightarrow> dir
        | None \<Rightarrow> p))"

definition config_directory :: "config_os \<Rightarrow> string \<Rightarrow> config_error + string" where
  "config_directory os path =
     (case co_canonicalize os path of
        Inr real \<Rightarrow> Inr (real_parent real)
      | Inl err \<Rightarrow>
          res_bind (path_for_messages os path) (\<lambda>shown.
            Inl (CfFailed (''Failed to resolve the directory of config file: '' @ shown) err)))"

definition resolve_local_root :: "config_os \<Rightarrow> string \<Rightarrow> string \<Rightarrow> config_error + string" where
  "resolve_local_root os root_dir config_path =
     (let expanded = expand_tilde (co_home os) root_dir in
      if path_is_absolute expanded then Inr expanded
      else res_bind (config_directory os config_path) (\<lambda>dir. Inr (collect_components (path_join dir expanded))))"

subsection \<open>Filters\<close>

fun split_suspicious_excludes :: "string list \<Rightarrow> string list \<Rightarrow> string list \<Rightarrow> string list \<times> string list" where
  "split_suspicious_excludes kept suspicious [] = (kept, suspicious)"
| "split_suspicious_excludes kept suspicious (pattern # patterns) =
     (if \<not> str_contains ''../'' pattern then split_suspicious_excludes (kept @ [pattern]) suspicious patterns
      else split_suspicious_excludes kept (push_new pattern suspicious) patterns)"

definition push_all_new :: "string list \<Rightarrow> string list \<Rightarrow> string list" where
  "push_all_new new xs = fold push_new new xs"

text \<open>The exclude patterns of the global file are taken as they are, those of the project when new;
  the include values of both when new.\<close>

definition merged_exclude :: "raw_filter option \<Rightarrow> raw_filter option \<Rightarrow> string list" where
  "merged_exclude global project =
     push_all_new
       (case project of Some f \<Rightarrow> unwrap_or (rf_exclude f) [] | None \<Rightarrow> [])
       (case global of Some f \<Rightarrow> unwrap_or (rf_exclude f) [] | None \<Rightarrow> [])"

definition merged_include :: "raw_filter option \<Rightarrow> raw_filter option \<Rightarrow> string list" where
  "merged_include global project =
     push_all_new
       (case project of Some f \<Rightarrow> unwrap_or (rf_include f) [] | None \<Rightarrow> [])
       (push_all_new (case global of Some f \<Rightarrow> unwrap_or (rf_include f) [] | None \<Rightarrow> []) [])"

definition checked_include_values :: "string list \<Rightarrow> config_error + string list" where
  "checked_include_values include =
     (if include = [] then Inr []
      else
        (case fst (normalize_include_paths include) of
           IncListed paths \<Rightarrow> Inr paths
         | IncWholeRoot \<Rightarrow> Inr []
         | IncAllInvalid \<Rightarrow>
             Inl (CfApp (ConfigValidation ''filter.include''
               ''every include value is invalid; refusing to scan the whole root_dir''))))"

subsection \<open>The merge\<close>

definition first_some :: "'a option \<Rightarrow> 'a option \<Rightarrow> 'a option" where
  "first_some a b = (case a of Some x \<Rightarrow> Some x | None \<Rightarrow> b)"

definition merge_raw_defaults :: "raw_defaults option \<Rightarrow> raw_defaults option \<Rightarrow> raw_defaults option" where
  "merge_raw_defaults global project =
     (if global = None \<and> project = None then None
      else
        Some \<lparr>rd_file_permissions =
                first_some (Option.bind project rd_file_permissions) (Option.bind global rd_file_permissions),
              rd_dir_permissions =
                first_some (Option.bind project rd_dir_permissions) (Option.bind global rd_dir_permissions)\<rparr>)"

text \<open>The servers of the project replace those of the same name; every server is converted, in the
  order in which the map is visited.\<close>

type_synonym visit = "(string \<times> raw_server) list \<Rightarrow> (string \<times> raw_server) list"

definition merged_servers ::
  "(string \<times> raw_server) list option \<Rightarrow> (string \<times> raw_server) list option \<Rightarrow> (string \<times> raw_server) list" where
  "merged_servers global project =
     fold (\<lambda>(name, s). bt_insert name s) (unwrap_or project []) (bt_of (unwrap_or global []))"

definition convert_servers ::
  "config_os \<Rightarrow> visit \<Rightarrow> (string \<times> raw_server) list \<Rightarrow> config_error + (string \<times> server_config) list" where
  "convert_servers os visit servers =
     res_fold (\<lambda>m (name, raw).
         res_bind (convert_server_config (co_home os) name raw) (\<lambda>c. Inr (bt_insert name c m)))
       [] (visit servers)"

definition merged_local_root :: "config_os \<Rightarrow> raw_config \<Rightarrow> raw_config option \<Rightarrow> config_error + string" where
  "merged_local_root os global project =
     (case first_some (Option.bind project raw_local_of) (raw_local_of global) of
        None \<Rightarrow> Inl (CfApp (ConfigValidation ''local'' ''[local] section is required''))
      | Some l \<Rightarrow>
          if rl_root_dir l = [] then
            Inl (CfApp (ConfigValidation ''local.root_dir'' ''root_dir must not be empty''))
          else resolve_local_root os (rl_root_dir l) (rl_config_path l))"

definition merged_max_scan_entries :: "raw_config \<Rightarrow> raw_config option \<Rightarrow> config_error + nat" where
  "merged_max_scan_entries global project =
     (let n = unwrap_or (first_some (Option.bind project raw_max_scan_entries) (raw_max_scan_entries global))
                default_max_scan_entries
      in
      res_bind (res_map_err (\<lambda>msg. CfApp (ConfigValidation ''max_scan_entries'' msg))
                  (validate_max_scan_entries n)) (\<lambda>_. Inr n))"

definition merge_layers :: "config_os \<Rightarrow> visit \<Rightarrow> raw_config \<Rightarrow> raw_config option \<Rightarrow> config_error + app_config" where
  "merge_layers os visit global project =
     res_bind (convert_servers os visit
                 (merged_servers (raw_servers global) (Option.bind project raw_servers))) (\<lambda>servers.
     res_bind (merged_local_root os global project) (\<lambda>root.
     (let project_filter = Option.bind project raw_filter_of;
          exclude = fst (split_suspicious_excludes [] [] (merged_exclude (raw_filter_of global) project_filter))
      in
      res_bind (checked_include_values (merged_include (raw_filter_of global) project_filter)) (\<lambda>include.
      res_bind (case first_some (Option.bind project raw_ssh_of) (raw_ssh_of global) of
                  Some raw \<Rightarrow> convert_raw_ssh_config raw
                | None \<Rightarrow> Inr default_ssh) (\<lambda>ssh.
      res_bind (convert_defaults_config
                  (merge_raw_defaults (raw_defaults_of global) (Option.bind project raw_defaults_of))) (\<lambda>defaults.
      res_bind (merged_max_scan_entries global project) (\<lambda>max_entries.
      res_bind (merge_content (raw_content_of global) (Option.bind project raw_content_of) servers) (\<lambda>content.
        Inr \<lparr>cf_content = content, cf_servers = servers, cf_local_root = root,
             cf_filter = \<lparr>fc_exclude = exclude, fc_include = include\<rparr>, cf_ssh = ssh,
             cf_backup = convert_backup_config
                (first_some (Option.bind project raw_backup_of) (raw_backup_of global)),
             cf_agent = convert_agent_config
                (first_some (Option.bind project raw_agent_of) (raw_agent_of global)),
             cf_defaults = defaults, cf_max_scan_entries = max_entries\<rparr>))))))))"

definition merge_configs ::
  "config_os \<Rightarrow> visit \<Rightarrow> raw_config option \<Rightarrow> raw_config option \<Rightarrow> config_error + app_config" where
  "merge_configs os visit global project =
     (case (global, project) of
        (Some g, Some p) \<Rightarrow> merge_layers os visit g (Some p)
      | (Some g, None) \<Rightarrow> merge_layers os visit g None
      | (None, Some p) \<Rightarrow> merge_layers os visit p None
      | (None, None) \<Rightarrow>
          Inl (CfText ''internal error: merge_configs called with both global and project as None''))"

end
