(* ===== verification/ConfigProps.thy ===== *)
theory ConfigProps
  imports ConfigMerge
begin

text \<open>
  What the merge of the settings guarantees: every value of a configuration that was accepted lies in
  its range, permissions are read back from their octal spelling, and include values never widen.
\<close>

declare res_map_err_Inr [simp]

subsection \<open>Permissions in octal\<close>

definition octal_digits :: "string \<Rightarrow> bool" where
  "octal_digits s = list_all (byte_in 48 55) s"

lemma octal_value_snoc: "octal_value (s @ [c]) = 8 * octal_value s + (of_char c - 48)"
  by (simp add: octal_value_def)

lemma show_oct_step: "show_oct n = (if n < 8 then [char_of (48 + n)] else show_oct (n div 8) @ [char_of (48 + n mod 8)])"
  by (simp add: show_oct_def show_base.simps[of 8 n])

lemma octal_digit:
  assumes "k < 8"
  shows "of_char (char_of (48 + k) :: char) - 48 = (k::nat)" and "byte_in 48 55 (char_of (48 + k :: nat))"
  using assms by (simp_all add: byte_in_def)

lemma octal_value_show: "octal_value (show_oct n) = n"
proof (induction n rule: less_induct)
  case (less n)
  show ?case
  proof (cases "n < 8")
    case True
    then show ?thesis using octal_digit(1)[OF True] by (simp add: show_oct_step octal_value_def)
  next
    case False
    then have "octal_value (show_oct (n div 8)) = n div 8" using less.IH by simp
    moreover have "n mod 8 < 8" by simp
    ultimately show ?thesis using False octal_digit(1)[of "n mod 8"]
      by (subst show_oct_step) (simp add: octal_value_snoc)
  qed
qed

lemma octal_digits_show: "octal_digits (show_oct n) \<and> show_oct n \<noteq> []"
proof (induction n rule: less_induct)
  case (less n)
  show ?case
  proof (cases "n < 8")
    case True
    then show ?thesis using octal_digit(2)[OF True] by (simp add: show_oct_step octal_digits_def)
  next
    case False
    then have "octal_digits (show_oct (n div 8))" using less.IH by simp
    then show ?thesis using False octal_digit(2)[of "n mod 8"]
      by (subst (1 2) show_oct_step) (simp add: octal_digits_def)
  qed
qed

lemma octal_digits_no_prefix: "octal_digits s \<Longrightarrow> strip_prefix ''0o'' s = None"
  by (cases "strip_prefix ''0o'' s") (auto simp: strip_prefix_Some octal_digits_def byte_in_def)

text \<open>permissions are read back from the octal number they are shown with, with or without the "0o" in
  front; and whatever is accepted is made of octal digits whose value is the mode read, at most 0o777, so
  setuid, setgid and sticky bits never come out of the settings.\<close>

theorem permissions_round_trip:
  "(m \<le> 0x1FF \<longrightarrow> parse_permissions (show_oct (unat m)) = Inr m
                 \<and> parse_permissions (''0o'' @ show_oct (unat m)) = Inr m)
   \<and> (parse_permissions s = Inr m \<longrightarrow>
        m \<le> 0x1FF \<and> (\<exists>digits. (s = digits \<or> s = ''0o'' @ digits) \<and> digits \<noteq> [] \<and> octal_digits digits
                      \<and> octal_value digits = unat m))"
proof (intro conjI impI)
  assume m: "m \<le> 0x1FF"
  have v: "octal_value (show_oct (unat m)) = unat m" by (rule octal_value_show)
  have "unat m < 2 ^ 32" using m by (simp add: word_le_nat_alt)
  then have u: "u32_from_octal (show_oct (unat m)) = Some m" by (simp add: u32_from_octal_def v)
  have d: "list_all (byte_in 48 55) (show_oct (unat m))" "show_oct (unat m) \<noteq> []"
    using octal_digits_show by (simp_all add: octal_digits_def)
  show "parse_permissions (show_oct (unat m)) = Inr m"
    using m u d octal_digits_no_prefix[of "show_oct (unat m)"] by (simp add: parse_permissions_def octal_digits_def Let_def)
  show "parse_permissions (''0o'' @ show_oct (unat m)) = Inr m"
    using m u d by (simp add: parse_permissions_def Let_def)
next
  assume p: "parse_permissions s = Inr m"
  define digits where "digits = (case strip_prefix ''0o'' s of Some rest \<Rightarrow> rest | None \<Rightarrow> s)"
  have "s = digits \<or> s = ''0o'' @ digits"
    by (cases "strip_prefix ''0o'' s") (auto simp: digits_def strip_prefix_Some)
  moreover have "digits \<noteq> []" "octal_digits digits" "u32_from_octal digits = Some m" "m \<le> 0x1FF"
    using p unfolding parse_permissions_def Let_def digits_def[symmetric] octal_digits_def
    by (auto split: if_splits option.splits)
  moreover from this(3) have "octal_value digits = unat m"
    by (auto simp: u32_from_octal_def unat_of_nat take_bit_nat_eq_self split: if_splits)
  ultimately show "m \<le> 0x1FF"
    and "\<exists>digits. (s = digits \<or> s = ''0o'' @ digits) \<and> digits \<noteq> [] \<and> octal_digits digits
           \<and> octal_value digits = unat m" by blast+
qed

lemma permissions_round_trip_witness:
  "parse_permissions (show_oct (unat (420 :: u32))) = Inr 420 \<and> (420 :: u32) \<le> 0x1FF"
  using permissions_round_trip[of 420 "show_oct (unat (420 :: u32))"] by simp

subsection \<open>Include values\<close>

text \<open>What a written value means: nothing, a refusal, the whole root_dir, or a path below it.\<close>

definition include_empty :: "string \<Rightarrow> bool" where
  "include_empty raw = (strip_leading_dot_slash raw = [])"

definition include_refused :: "string \<Rightarrow> bool" where
  "include_refused raw =
     (\<not> include_empty raw \<and> invalid_include_warning raw (strip_leading_dot_slash raw) \<noteq> None)"

definition include_path :: "string \<Rightarrow> string" where
  "include_path raw = join_normal_elements (strip_leading_dot_slash raw)"

definition include_usable :: "string \<Rightarrow> bool" where
  "include_usable raw = (\<not> include_empty raw \<and> \<not> include_refused raw)"

lemma include_fold:
  "fold include_step paths st =
     \<lparr>il_warnings = il_warnings st @ map (\<lambda>raw. the (invalid_include_warning raw (strip_leading_dot_slash raw)))
                                       (filter include_refused paths),
      il_normalized = push_all_new (filter (\<lambda>p. p \<noteq> []) (map include_path (filter include_usable paths)))
                        (il_normalized st),
      il_whole_root = (il_whole_root st \<or> (\<exists>raw \<in> set paths. include_usable raw \<and> include_path raw = []))\<rparr>"
proof (induction paths arbitrary: st)
  case (Cons raw paths)
  have one: "include_step raw st =
      (if include_empty raw then st
       else if include_refused raw then
         st\<lparr>il_warnings := il_warnings st @ [the (invalid_include_warning raw (strip_leading_dot_slash raw))]\<rparr>
       else if include_path raw = [] then st\<lparr>il_whole_root := True\<rparr>
       else st\<lparr>il_normalized := push_new (include_path raw) (il_normalized st)\<rparr>)"
    by (auto simp: include_step_def include_empty_def include_refused_def include_path_def Let_def
        split: option.splits)
  have r: "include_refused raw \<Longrightarrow> \<not> include_empty raw" by (simp add: include_refused_def)
  have u: "include_usable raw \<longleftrightarrow> \<not> include_empty raw \<and> \<not> include_refused raw"
    by (simp add: include_usable_def)
  show ?case
    unfolding fold_simps comp_def one Cons.IH
    using r u by (auto simp: push_all_new_def)
qed (simp add: push_all_new_def)

lemma set_push_all_new: "set (push_all_new new xs) = set xs \<union> set new"
  by (induction new arbitrary: xs) (auto simp: push_all_new_def)

lemma push_all_new_Nil: "push_all_new new xs = [] \<longleftrightarrow> new = [] \<and> xs = []"
  using set_push_all_new[of new xs] by (metis Un_empty set_empty)

text \<open>C39: include values never widen what they say. The whole root_dir is meant only when some accepted
  value names it; when every value that says anything is refused, the settings are refused instead of
  being read as no include at all; otherwise the values kept are paths below root_dir in one spelling, each
  the path of an accepted value, none inside another, in order, and every accepted value's path is kept
  or lies inside one that is.\<close>

theorem include_values_exact:
  "case fst (normalize_include_paths paths) of
     IncWholeRoot \<Rightarrow> \<exists>raw \<in> set paths. include_usable raw \<and> include_path raw = []
   | IncAllInvalid \<Rightarrow> (\<exists>raw \<in> set paths. include_refused raw) \<and> \<not> (\<exists>raw \<in> set paths. include_usable raw)
   | IncListed kept \<Rightarrow>
       sorted_wrt (<) kept \<and> list_all plain_relative kept
       \<and> set kept \<subseteq> include_path ` {raw \<in> set paths. include_usable raw}
       \<and> \<not> (\<exists>a \<in> set kept. \<exists>b \<in> set kept. nested_in a b)
       \<and> (\<forall>raw \<in> set paths. include_usable raw \<longrightarrow>
            include_path raw \<in> set kept \<or> (\<exists>q \<in> set kept. nested_in (include_path raw) q))
       \<and> (kept = [] \<longrightarrow> (\<forall>raw \<in> set paths. include_empty raw))"
proof -
  let ?refused = "filter include_refused paths"
  let ?names = "filter (\<lambda>p. p \<noteq> []) (map include_path (filter include_usable paths))"
  let ?norm = "push_all_new ?names []"
  let ?whole = "\<exists>raw \<in> set paths. include_usable raw \<and> include_path raw = []"
  have n: "set ?norm = {p. p \<noteq> [] \<and> p \<in> include_path ` {raw \<in> set paths. include_usable raw}}"
    by (auto simp: set_push_all_new)
  have vals: "fst (normalize_include_paths paths) =
      (if ?whole then IncWholeRoot
       else if ?norm = [] \<and> ?refused \<noteq> [] then IncAllInvalid
       else IncListed (drop_nested_include_paths ?norm))"
    by (simp add: normalize_include_paths_def include_fold Let_def)
  have none: "?norm = [] \<longleftrightarrow> \<not> (\<exists>raw \<in> set paths. include_usable raw)" if "\<not> ?whole"
  proof -
    have all: "set ?norm = include_path ` {raw \<in> set paths. include_usable raw}" using that n by force
    have "set ?norm = {} \<longleftrightarrow> \<not> (\<exists>raw \<in> set paths. include_usable raw)" unfolding all by auto
    then show ?thesis by (simp only: set_empty)
  qed
  show ?thesis
  proof (cases ?whole)
    case True
    then show ?thesis by (simp add: vals)
  next
    case not_whole: False
    show ?thesis
    proof (cases "?norm = [] \<and> ?refused \<noteq> []")
      case True
      then have "\<exists>raw \<in> set paths. include_refused raw" by (auto simp: filter_empty_conv)
      with True not_whole none[OF not_whole] show ?thesis by (simp add: vals)
    next
      case False
      define kept where "kept = drop_nested_include_paths ?norm"
      note d = drop_nested_exact[OF kept_def[symmetric]]
      have "plain_relative p" if "p \<in> set kept" for p
        using that d(1) n plain_relative_joined by (auto simp: include_path_def)
      moreover have "set kept \<subseteq> include_path ` {raw \<in> set paths. include_usable raw}" using d(1) n by blast
      moreover have "include_path raw \<in> set kept \<or> (\<exists>q \<in> set kept. nested_in (include_path raw) q)"
        if "raw \<in> set paths" "include_usable raw" for raw
        using that d(4) n not_whole by auto
      moreover have "include_empty raw" if "kept = []" "raw \<in> set paths" for raw
      proof -
        have "set ?norm = {}" using that(1) d(4) by fastforce
        then have "?norm = []" by (simp only: set_empty)
        with False none[OF not_whole] that(2) show ?thesis
          by (auto simp: include_usable_def filter_empty_conv)
      qed
      moreover have "fst (normalize_include_paths paths) = IncListed kept"
        unfolding vals kept_def using False not_whole by (simp only: if_False)
      ultimately show ?thesis
        using d(2,3) by (simp only: include_values.case list_all_iff) blast
    qed
  qed
qed

lemma include_values_exact_witness:
  "fst (normalize_include_paths [''./app/'', ''app//web'', ''../x'', ''lib'']) = IncListed [''app'', ''lib'']
   \<and> list_all plain_relative [''app'', ''lib'']"
proof -
  have v: "fst (normalize_include_paths [''./app/'', ''app//web'', ''../x'', ''lib'']) = IncListed [''app'', ''lib'']"
    by code_simp
  show ?thesis using include_values_exact[of "[''./app/'', ''app//web'', ''../x'', ''lib'']"] by (simp add: v)
qed

subsection \<open>Accepted settings are well-formed\<close>

definition small_mode :: "u32 \<Rightarrow> bool" where
  "small_mode m = (m \<le> 0x1FF)"

definition server_ok :: "server_config \<Rightarrow> bool" where
  "server_ok s =
     (sv_port s \<noteq> 0 \<and> sv_root_dir s \<noteq> []
      \<and> pred_option small_mode (sv_file_permissions s) \<and> pred_option small_mode (sv_dir_permissions s))"

definition content_ok :: "(string \<times> server_config) list \<Rightarrow> content_config \<Rightarrow> bool" where
  "content_ok servers c =
     (\<forall>side \<in> fst ` set (cc_defaults c) \<union> cr_side ` set (cc_rules c).
        side = ''local'' \<or> side \<in> fst ` set servers)"

definition config_ok :: "app_config \<Rightarrow> bool" where
  "config_ok c =
     (bt_ok (cf_servers c) \<and> (\<forall>s \<in> snd ` set (cf_servers c). server_ok s)
      \<and> path_is_absolute (cf_local_root c)
      \<and> list_all (\<lambda>p. \<not> str_contains ''../'' p) (fc_exclude (cf_filter c))
      \<and> sorted_wrt (<) (fc_include (cf_filter c)) \<and> list_all plain_relative (fc_include (cf_filter c))
      \<and> small_mode (dc_file_permissions (cf_defaults c)) \<and> small_mode (dc_dir_permissions (cf_defaults c))
      \<and> cf_max_scan_entries c \<in> {1..1000000}
      \<and> content_ok (cf_servers c) (cf_content c))"

lemma field_small: "parse_permissions_field v f = Inr m \<Longrightarrow> small_mode m"
  by (auto simp: parse_permissions_field_def small_mode_def parse_permissions_def Let_def
      split: if_splits option.splits)

lemma server_permissions_small:
  "server_permissions name field w = Inr p \<Longrightarrow> pred_option small_mode p"
  using field_small by (auto simp: server_permissions_def res_simps split: option.splits)

lemma convert_server_ok: "convert_server_config home name raw = Inr s \<Longrightarrow> server_ok s"
  by (auto simp: convert_server_config_def server_ok_def res_simps Let_def dest: server_permissions_small
      split: if_splits)

lemma set_bt_insert_subset: "set (bt_insert k v m) \<subseteq> insert (k, v) (set m)"
  by (induction k v m rule: bt_insert.induct) auto

lemma convert_servers_ok:
  assumes "convert_servers os visit raws = Inr m"
  shows "bt_ok m \<and> (\<forall>s \<in> snd ` set m. server_ok s)"
  using assms unfolding convert_servers_def
proof (rule res_fold_invariant)
  show "bt_ok [] \<and> (\<forall>s \<in> snd ` set []. server_ok s)" by simp
next
  fix m m' :: "(string \<times> server_config) list" and x
  assume m: "bt_ok m \<and> (\<forall>s \<in> snd ` set m. server_ok s)"
    and step: "(case x of (name, raw) \<Rightarrow>
         res_bind (convert_server_config (co_home os) name raw) (\<lambda>c. Inr (bt_insert name c m))) = Inr m'"
  then obtain c where "convert_server_config (co_home os) (fst x) (snd x) = Inr c"
    and e: "m' = bt_insert (fst x) c m"
    by (auto simp: res_simps split: prod.splits)
  then have c: "server_ok c" using convert_server_ok by blast
  show "bt_ok m' \<and> (\<forall>s \<in> snd ` set m'. server_ok s)"
    using m c e set_bt_insert_subset[of "fst x" c m] by (auto simp: bt_ok_insert)
qed

lemma kept_excludes:
  "list_all (\<lambda>p. \<not> str_contains ''../'' p) kept \<Longrightarrow>
   list_all (\<lambda>p. \<not> str_contains ''../'' p) (fst (split_suspicious_excludes kept suspicious patterns))"
  by (induction kept suspicious patterns rule: split_suspicious_excludes.induct) auto

lemma include_listed_ok:
  "fst (normalize_include_paths incl) = IncListed paths \<Longrightarrow>
   sorted_wrt (<) paths \<and> list_all plain_relative paths"
  using include_loop_plain[of "\<lparr>il_warnings = [], il_normalized = [], il_whole_root = False\<rparr>" incl]
    drop_nested_exact(1,2)[OF refl]
  by (fastforce simp: normalize_include_paths_def Let_def list_all_iff split: if_splits)

lemma checked_include_ok:
  "checked_include_values incl = Inr paths \<Longrightarrow> sorted_wrt (<) paths \<and> list_all plain_relative paths"
  using include_listed_ok by (auto simp: checked_include_values_def split: if_splits include_values.splits)

lemma content_ok_mono: "validate_side servers side = Inr () \<Longrightarrow> side = ''local'' \<or> side \<in> fst ` set servers"
  by (auto simp: validate_side_def map_of_eq_None_iff split: if_splits)

lemma add_content_default_ok:
  assumes "content_ok servers c" and "add_content_default servers c d = Inr c'"
  shows "content_ok servers c'"
proof -
  obtain i where v: "validate_side servers (fst d) = Inr ()"
    and c': "c' = c\<lparr>cc_defaults := bt_insert (fst d) i (cc_defaults c)\<rparr>"
    using assms(2) by (auto simp: add_content_default_def res_simps)
  show ?thesis
    using assms(1) content_ok_mono[OF v] unfolding content_ok_def c' by (simp add: set_keys_bt_insert)
qed

lemma add_content_rule_ok:
  assumes "content_ok servers c" and "add_content_rule servers c r = Inr c'"
  shows "content_ok servers c'"
proof -
  obtain i where v: "validate_side servers (rr_side r) = Inr ()"
    and c': "c' = c\<lparr>cc_rules := cc_rules c @ [\<lparr>cr_side = rr_side r, cr_path = rr_path r, cr_encoding = i\<rparr>]\<rparr>"
    using assms(2) by (auto simp: add_content_rule_def res_simps)
  show ?thesis
    using assms(1) content_ok_mono[OF v] unfolding content_ok_def c' by simp
qed

lemma add_content_ok:
  assumes "content_ok servers c" and "add_content servers c raw = Inr c'"
  shows "content_ok servers c'"
proof -
  from assms(2) obtain c1 where c1: "res_fold (add_content_default servers) c (rc_defaults raw) = Inr c1"
    and r: "res_fold (add_content_rule servers) c1 (rc_rules raw) = Inr c'"
    by (auto simp: add_content_def res_simps)
  have "content_ok servers c1"
    using c1 assms(1) by (rule res_fold_invariant) (rule add_content_default_ok)
  with r show ?thesis by (rule res_fold_invariant) (rule add_content_rule_ok)
qed

lemma merge_content_ok:
  assumes "merge_content g p servers = Inr c"
  shows "content_ok servers c"
  using assms unfolding merge_content_def
  by (rule res_fold_invariant) (auto simp: content_ok_def[of _ "\<lparr>cc_defaults = [], cc_rules = []\<rparr>"] intro: add_content_ok)

lemma absolute_join: "path_is_absolute d \<Longrightarrow> path_is_absolute (path_join d p)"
  by (auto simp: path_is_absolute_def path_join_def starts_with_iff)

lemma absolute_parent:
  assumes "path_is_absolute p"
  shows "path_is_absolute (real_parent p)"
proof (cases "p = ''/''")
  case True
  then show ?thesis by (simp add: real_parent_def path_is_absolute_def starts_with_iff)
next
  case False
  obtain dir name where r: "rsplit_once CHR ''/'' p = Some (dir, name)"
    using assms by (cases "rsplit_once CHR ''/'' p")
      (auto simp: rsplit_once_None path_is_absolute_def starts_with_iff)
  then have "p = dir @ CHR ''/'' # name" by (simp add: rsplit_once_Some)
  then show ?thesis using assms False r
    by (cases dir) (auto simp: real_parent_def path_is_absolute_def starts_with_iff)
qed

lemma local_root_absolute:
  assumes "\<And>p real. co_canonicalize os p = Inr real \<Longrightarrow> path_is_absolute real"
    and "resolve_local_root os root config_path = Inr r"
  shows "path_is_absolute r"
proof (cases "path_is_absolute (expand_tilde (co_home os) root)")
  case True
  then show ?thesis using assms(2) by (simp add: resolve_local_root_def)
next
  case False
  then obtain dir where dir: "config_directory os config_path = Inr dir"
    and r: "r = collect_components (path_join dir (expand_tilde (co_home os) root))"
    using assms(2) by (auto simp: resolve_local_root_def res_simps Let_def)
  obtain real where "co_canonicalize os config_path = Inr real" "dir = real_parent real"
    using dir by (auto simp: config_directory_def res_simps split: sum.splits)
  then have "path_is_absolute (path_join dir (expand_tilde (co_home os) root))"
    using assms(1) absolute_parent absolute_join by metis
  then show ?thesis using r by (simp add: collect_components_def) (simp add: path_is_absolute_def starts_with_iff)
qed

lemma defaults_small:
  "convert_defaults_config raw = Inr d \<Longrightarrow>
   small_mode (dc_file_permissions d) \<and> small_mode (dc_dir_permissions d)"
  by (auto simp: convert_defaults_config_def permissions_or_def res_simps default_defaults_def
      dest: field_small split: option.splits) (simp_all add: small_mode_def)

lemma merge_layers_ok:
  assumes "\<And>p real. co_canonicalize os p = Inr real \<Longrightarrow> path_is_absolute real"
    and "merge_layers os visit global project = Inr c"
  shows "config_ok c"
proof -
  let ?pf = "Option.bind project raw_filter_of"
  obtain servers root incl ssh defaults max_entries content where
    s: "convert_servers os visit (merged_servers (raw_servers global) (Option.bind project raw_servers)) = Inr servers"
    and r: "merged_local_root os global project = Inr root"
    and i: "checked_include_values (merged_include (raw_filter_of global) ?pf) = Inr incl"
    and d: "convert_defaults_config
        (merge_raw_defaults (raw_defaults_of global) (Option.bind project raw_defaults_of)) = Inr defaults"
    and m: "merged_max_scan_entries global project = Inr max_entries"
    and t: "merge_content (raw_content_of global) (Option.bind project raw_content_of) servers = Inr content"
    and c: "cf_servers c = servers" "cf_local_root c = root" "cf_content c = content" "cf_defaults c = defaults"
      "cf_max_scan_entries c = max_entries" "fc_include (cf_filter c) = incl"
      "fc_exclude (cf_filter c) =
         fst (split_suspicious_excludes [] [] (merged_exclude (raw_filter_of global) ?pf))"
    using assms(2) by (auto simp: merge_layers_def res_simps Let_def)
  have "path_is_absolute root"
    using r local_root_absolute[OF assms(1)]
    by (auto simp: merged_local_root_def split: option.splits if_splits)
  moreover have "max_entries \<in> {1..1000000}"
    using m by (auto simp: merged_max_scan_entries_def validate_max_scan_entries_def res_simps Let_def split: if_splits)
  ultimately show ?thesis
    using convert_servers_ok[OF s] checked_include_ok[OF i] defaults_small[OF d] merge_content_ok[OF t]
      kept_excludes[of "[]"] c
    by (simp add: config_ok_def)
qed

text \<open>C38: settings that are accepted are well-formed, whatever the two files say: every server has a port, a
  root and permissions without special bits, the local root is an absolute path, no exclude pattern leaves
  root_dir, incl values are paths below it in order, the limit of a scan is between 1 and a million, and
  content rules name configured sides only.\<close>

theorem merged_config_well_formed:
  assumes "\<And>p real. co_canonicalize os p = Inr real \<Longrightarrow> path_is_absolute real"
    and "merge_configs os visit global project = Inr c"
  shows "config_ok c"
  using assms(2) merge_layers_ok[OF assms(1)]
  by (auto simp: merge_configs_def split: option.splits)

definition sample_os :: config_os where
  "sample_os =
     \<lparr>co_home = Some ''/home/u'', co_canonicalize = (\<lambda>_. Inr ''/work/.remote-merge.toml''),
      co_current_dir = Inr ''/work''\<rparr>"

definition sample_raw :: raw_config where
  "sample_raw =
     \<lparr>raw_content_of = None,
      raw_servers = Some [(''web'', \<lparr>rs_host = ''h'', rs_port = None, rs_user = ''u'', rs_auth = None,
        rs_password = None, rs_key = Some ''~/k'', rs_root_dir = ''/srv'', rs_ssh_options = None,
        rs_sudo = None, rs_file_permissions = None, rs_dir_permissions = None\<rparr>)],
      raw_local_of = Some \<lparr>rl_root_dir = ''app'', rl_config_path = ''.remote-merge.toml''\<rparr>,
      raw_filter_of = Some \<lparr>rf_exclude = Some [''*.log'', ''../x''], rf_include = Some [''./src'']\<rparr>,
      raw_ssh_of = None, raw_backup_of = None, raw_agent_of = None, raw_defaults_of = None,
      raw_max_scan_entries = None\<rparr>"

text \<open>The parts of the sample, evaluated one by one.\<close>

lemma sample_parts:
  "merged_local_root sample_os sample_raw None = Inr ''/work/app''"
  "checked_include_values (merged_include (raw_filter_of sample_raw) None) = Inr [''src'']"
  "\<exists>servers. convert_servers sample_os (\<lambda>m. m) (merged_servers (raw_servers sample_raw) None) = Inr servers"
  "convert_defaults_config (merge_raw_defaults (raw_defaults_of sample_raw) None) = Inr default_defaults"
  "merge_content (raw_content_of sample_raw) None servers = Inr \<lparr>cc_defaults = [], cc_rules = []\<rparr>"
proof -
  show "merged_local_root sample_os sample_raw None = Inr ''/work/app''" by code_simp
  show "checked_include_values (merged_include (raw_filter_of sample_raw) None) = Inr [''src'']" by code_simp
  have "(case convert_servers sample_os (\<lambda>m. m) (merged_servers (raw_servers sample_raw) None) of
      Inr _ \<Rightarrow> True | Inl _ \<Rightarrow> False)"
    by code_simp
  then show "\<exists>servers. convert_servers sample_os (\<lambda>m. m) (merged_servers (raw_servers sample_raw) None)
      = Inr servers"
    by (auto split: sum.splits)
qed (simp_all add: sample_raw_def merge_raw_defaults_def convert_defaults_config_def merge_content_def)

lemma sample_merged:
  "\<exists>c. merge_configs sample_os (\<lambda>m. m) None (Some sample_raw) = Inr c \<and> fc_include (cf_filter c) = [''src'']"
proof -
  have "merged_max_scan_entries sample_raw None = Inr 50000"
    by (simp add: merged_max_scan_entries_def sample_raw_def first_some_def default_max_scan_entries_def
        validate_max_scan_entries_def Let_def)
  moreover have "raw_ssh_of sample_raw = None" by (simp add: sample_raw_def)
  ultimately show ?thesis
    using sample_parts by (auto simp: merge_configs_def merge_layers_def Let_def first_some_def)
qed

lemma sample_os_absolute: "co_canonicalize sample_os p = Inr real \<Longrightarrow> path_is_absolute real"
proof -
  assume "co_canonicalize sample_os p = Inr real"
  then have "real = ''/work/.remote-merge.toml''" by (simp add: sample_os_def)
  moreover have "path_is_absolute ''/work/.remote-merge.toml''" by code_simp
  ultimately show ?thesis by simp
qed

lemma merged_config_well_formed_witness:
  "\<exists>c. merge_configs sample_os (\<lambda>m. m) None (Some sample_raw) = Inr c \<and> config_ok c"
  using sample_merged merged_config_well_formed[of sample_os "\<lambda>m. m" None "Some sample_raw"] sample_os_absolute by blast

end
