(* ===== verification/Framing.thy ===== *)
theory Framing
  imports Prelude
begin

text \<open>
  Frames between the program and the agent (\<open>framing.rs\<close> of remote-merge-protocol): four bytes with the
  length of the payload, most significant first, then the payload. A writer is the bytes written so far
  and a reader the bytes still to come; a writer that fails is a parameter, \<open>accept\<close>, that says how many
  of the bytes it is given it takes before its error.
\<close>

definition max_frame_size :: u32 where
  "max_frame_size = 16 * 1024 * 1024"

datatype frame_error = FeInvalidInput string | FeInvalidData string | FeUnexpectedEof | FeWrite

definition to_be_bytes :: "u32 \<Rightarrow> bytes" where
  "to_be_bytes n =
     map (\<lambda>k. char_of (unat n div 256 ^ k mod 256)) [3, 2, 1, 0]"

definition from_be_bytes :: "bytes \<Rightarrow> u32" where
  "from_be_bytes bs = foldl (\<lambda>v b. 256 * v + of_nat (of_char b)) 0 bs"

text \<open>\<open>Write::write_all\<close> on a writer that may fail after some bytes.\<close>

record writer =
  wr_written :: bytes
  wr_accept :: "nat option"

definition writer_new :: "nat option \<Rightarrow> writer" where
  "writer_new limit = \<lparr>wr_written = [], wr_accept = limit\<rparr>"

definition write_all :: "writer \<Rightarrow> bytes \<Rightarrow> writer \<times> (frame_error + unit)" where
  "write_all w bs =
     (case wr_accept w of
        None \<Rightarrow> (w\<lparr>wr_written := wr_written w @ bs\<rparr>, Inr ())
      | Some n \<Rightarrow>
          if length bs \<le> n
          then (w\<lparr>wr_written := wr_written w @ bs, wr_accept := Some (n - length bs)\<rparr>, Inr ())
          else (w\<lparr>wr_written := wr_written w @ take n bs, wr_accept := Some 0\<rparr>, Inl FeWrite))"

definition write_frame :: "writer \<Rightarrow> bytes \<Rightarrow> writer \<times> (frame_error + unit)" where
  "write_frame w payload =
     (if length payload > unat max_frame_size then
        (w, Inl (FeInvalidInput (''payload size '' @ show_nat (length payload)
                   @ '' exceeds maximum frame size '' @ show_nat (unat max_frame_size))))
      else
        (case write_all w (to_be_bytes (word_of_nat (length payload))) of
           (w', Inl e) \<Rightarrow> (w', Inl e)
         | (w', Inr _) \<Rightarrow> write_all w' payload))"

text \<open>\<open>Read::read_exact\<close>: the bytes asked for, or the end of the stream came first and it is used up.\<close>

definition read_exact :: "nat \<Rightarrow> bytes \<Rightarrow> bytes \<times> (frame_error + bytes)" where
  "read_exact n stream =
     (if n \<le> length stream then (drop n stream, Inr (take n stream)) else ([], Inl FeUnexpectedEof))"

definition read_frame :: "bytes \<Rightarrow> bytes \<times> (frame_error + bytes)" where
  "read_frame stream =
     (case read_exact 4 stream of
        (rest, Inl e) \<Rightarrow> (rest, Inl e)
      | (rest, Inr len_buf) \<Rightarrow>
          (let len = from_be_bytes len_buf in
           if len > max_frame_size then
             (rest, Inl (FeInvalidData (''frame length '' @ show_nat (unat len)
                       @ '' exceeds maximum frame size '' @ show_nat (unat max_frame_size))))
           else read_exact (unat len) rest))"

text \<open>Writing and reading frames one after another, as both ends of a connection do.\<close>

fun write_frames :: "writer \<Rightarrow> bytes list \<Rightarrow> writer \<times> (frame_error + unit)" where
  "write_frames w [] = (w, Inr ())"
| "write_frames w (p # ps) =
     (case write_frame w p of (w', Inl e) \<Rightarrow> (w', Inl e) | (w', Inr _) \<Rightarrow> write_frames w' ps)"

fun read_frames :: "nat \<Rightarrow> bytes \<Rightarrow> bytes \<times> (frame_error + bytes list)" where
  "read_frames 0 stream = (stream, Inr [])"
| "read_frames (Suc n) stream =
     (case read_frame stream of
        (rest, Inl e) \<Rightarrow> (rest, Inl e)
      | (rest, Inr p) \<Rightarrow>
          (case read_frames n rest of (rest', Inl e) \<Rightarrow> (rest', Inl e) | (rest', Inr ps) \<Rightarrow> (rest', Inr (p # ps))))"

subsection \<open>The length in front\<close>

lemma length_to_be_bytes [simp]: "length (to_be_bytes n) = 4"
  by (simp add: to_be_bytes_def)

lemma unat_max_frame_size: "unat max_frame_size = 16777216"
  by (simp add: max_frame_size_def)

lemma from_to_be_bytes: "from_be_bytes (to_be_bytes n) = n"
proof -
  have split: "m = 256 * (256 * (256 * (m div 256 ^ 3 mod 256) + m div 256 ^ 2 mod 256) + m div 256 mod 256) + m mod 256"
    if "m < 2 ^ 32" for m :: nat
  proof -
    have "m div 256 ^ 3 < 256" using that by (simp add: less_mult_imp_div_less)
    then have "m div 256 ^ 3 mod 256 = m div 256 ^ 3" by simp
    moreover have "m div 256 ^ 2 = 256 * (m div 256 ^ 3) + m div 256 ^ 2 mod 256"
      by (metis div_mult2_eq mult_div_mod_eq power3_eq_cube power2_eq_square mult.assoc)
    moreover have "m div 256 = 256 * (m div 256 ^ 2) + m div 256 mod 256"
      by (metis div_mult2_eq mult_div_mod_eq power2_eq_square)
    moreover have "m = 256 * (m div 256) + m mod 256" by simp
    ultimately show ?thesis by presburger
  qed
  have "unat n < 2 ^ LENGTH(32)" by (rule unsigned_less)
  then have "unat n < 2 ^ 32" by simp
  from arg_cong[OF split[OF this], of "of_nat :: nat \<Rightarrow> u32"]
  have "n = 256 * (256 * (256 * of_nat (unat n div 256 ^ 3 mod 256) + of_nat (unat n div 256 ^ 2 mod 256))
      + of_nat (unat n div 256 mod 256)) + of_nat (unat n mod 256)"
    by (simp only: of_nat_add of_nat_mult of_nat_numeral of_nat_unat ucast_id)
  then show ?thesis by (simp add: from_be_bytes_def to_be_bytes_def)
qed

subsection \<open>Frames\<close>

lemma unat_length: "length payload \<le> unat max_frame_size \<Longrightarrow> unat (word_of_nat (length payload) :: u32) = length payload"
  by (simp add: unat_max_frame_size unat_of_nat take_bit_nat_eq_self)

lemma write_frame_bytes:
  assumes "write_frame w payload = (w', Inr u)"
  shows "wr_written w' = wr_written w @ to_be_bytes (word_of_nat (length payload)) @ payload
       \<and> length payload \<le> unat max_frame_size"
  using assms by (auto simp: write_frame_def write_all_def split: if_splits option.splits)

lemma read_frame_bytes:
  assumes "length payload \<le> unat max_frame_size"
  shows "read_frame (to_be_bytes (word_of_nat (length payload)) @ payload @ rest) = (rest, Inr payload)"
proof -
  let ?len = "word_of_nat (length payload) :: u32"
  have u: "unat ?len = length payload" using assms by (rule unat_length)
  then have "\<not> ?len > max_frame_size" using assms by (simp add: word_less_nat_alt)
  then show ?thesis by (simp add: read_frame_def read_exact_def from_to_be_bytes u)
qed

lemma write_frames_bytes:
  "write_frames w ps = (w', Inr u) \<Longrightarrow>
   wr_written w' = wr_written w @ concat (map (\<lambda>p. to_be_bytes (word_of_nat (length p)) @ p) ps)
   \<and> (\<forall>p \<in> set ps. length p \<le> unat max_frame_size)"
proof (induction ps arbitrary: w)
  case (Cons p ps)
  obtain w1 where "write_frame w p = (w1, Inr ())" "write_frames w1 ps = (w', Inr u)"
    using Cons.prems by (auto split: prod.splits sum.splits)
  then show ?case using Cons.IH[of w1] write_frame_bytes[of w p w1] by simp
qed simp

lemma read_frames_bytes:
  "\<forall>p \<in> set ps. length p \<le> unat max_frame_size \<Longrightarrow>
   read_frames (length ps) (concat (map (\<lambda>p. to_be_bytes (word_of_nat (length p)) @ p) ps) @ rest) = (rest, Inr ps)"
  by (induction ps) (simp_all add: read_frame_bytes)

text \<open>A reader never allocates more than the limit, and takes nothing behind the frame.\<close>

lemma read_frame_bound:
  assumes "read_frame stream = (rest, Inr payload)"
  shows "length payload \<le> unat max_frame_size
       \<and> (\<exists>header. length header = 4 \<and> stream = header @ payload @ rest \<and> unat (from_be_bytes header) = length payload)"
proof -
  obtain mid len_buf where h: "read_exact 4 stream = (mid, Inr len_buf)"
    and l: "\<not> from_be_bytes len_buf > max_frame_size"
    and p: "read_exact (unat (from_be_bytes len_buf)) mid = (rest, Inr payload)"
    using assms by (auto simp: read_frame_def Let_def split: prod.splits sum.splits if_splits)
  from h have s: "stream = len_buf @ mid" "length len_buf = 4" by (auto simp: read_exact_def split: if_splits)
  from p have "mid = payload @ rest" "length payload = unat (from_be_bytes len_buf)"
    by (auto simp: read_exact_def split: if_splits)
  then show ?thesis using s l by (auto simp: word_less_nat_alt not_less intro!: exI[of _ len_buf])
qed

text \<open>A stream that stops inside a frame is an end of file, never a shorter payload.\<close>

lemma read_frame_truncated:
  assumes "length payload \<le> unat max_frame_size"
    and "to_be_bytes (word_of_nat (length payload)) @ payload = stream @ missing" and "missing \<noteq> []"
  shows "snd (read_frame stream) = Inl FeUnexpectedEof"
proof (cases "length stream < 4")
  case True
  then show ?thesis by (simp add: read_frame_def read_exact_def)
next
  case False
  let ?len = "word_of_nat (length payload) :: u32"
  have "take 4 stream = to_be_bytes ?len"
    using False arg_cong[OF assms(2), of "take 4"] by simp
  moreover have "length stream < 4 + length payload"
    using arg_cong[OF assms(2), of length] assms(3) by (cases missing) auto
  moreover have "unat ?len = length payload" using assms(1) by (rule unat_length)
  moreover from this have "\<not> ?len > max_frame_size" using assms(1) by (simp add: word_less_nat_alt)
  ultimately show ?thesis using False
    by (auto simp: read_frame_def read_exact_def from_to_be_bytes)
qed

text \<open>C37: frames round trip. Payloads written one after another, on a writer that takes all of them, are read
  back in order, whatever follows, and nothing behind them is taken; a stream that stops inside a frame is
  an end of file; and no read answers more than the largest frame.\<close>

theorem frames_round_trip:
  assumes "write_frames (writer_new limit) ps = (w, Inr u)"
  shows "read_frames (length ps) (wr_written w @ rest) = (rest, Inr ps)
    \<and> (\<forall>p stream missing. p \<in> set ps \<and> to_be_bytes (word_of_nat (length p)) @ p = stream @ missing \<and> missing \<noteq> []
         \<longrightarrow> snd (read_frame stream) = Inl FeUnexpectedEof)
    \<and> (\<forall>stream after payload. read_frame stream = (after, Inr payload) \<longrightarrow> length payload \<le> unat max_frame_size)"
proof -
  have w: "wr_written w = concat (map (\<lambda>p. to_be_bytes (word_of_nat (length p)) @ p) ps)"
    and ps: "\<forall>p \<in> set ps. length p \<le> unat max_frame_size"
    using write_frames_bytes[OF assms] by (simp_all add: writer_new_def)
  show ?thesis
    using read_frames_bytes[OF ps, of rest] ps read_frame_truncated read_frame_bound unfolding w by blast
qed

lemma frames_round_trip_witness:
  "read_frames 2 (wr_written (fst (write_frames (writer_new (Some 20)) [''ab'', []])) @ ''x'') = (''x'', Inr [''ab'', []])"
proof -
  have "snd (write_frames (writer_new (Some 20)) [''ab'', []]) = Inr ()"
    by (simp add: write_frame_def write_all_def writer_new_def unat_max_frame_size)
  then obtain w where w: "write_frames (writer_new (Some 20)) [''ab'', []] = (w, Inr ())"
    by (metis prod.collapse)
  have "length [''ab'', []] = 2" by simp
  with conjunct1[OF frames_round_trip[OF w, of "''x''"]] show ?thesis by (simp only: w fst_conv)
qed

end
