(* ===== verification/RouteChoice.thy ===== *)
theory RouteChoice
  imports Prelude
begin

text \<open>
  Whether the agent of a server is used (\<open>route_choice/mod.rs\<close> of remote-merge-core). Remote files are
  handled through the agent or not at all.
\<close>

datatype agent_state =
    Ready
  | Disabled
  | UnsafeLocation string
  | VersionMismatch u32 u32
  | CannotDeploy string
  | CannotStart string

datatype route_choice = UseAgent | StopWith string

fun why_unusable :: "agent_state \<Rightarrow> string" where
  "why_unusable Ready = ''the agent is ready''"
| "why_unusable Disabled =
     ''[agent] enabled is false. Set [agent] enabled = true in your config.''"
| "why_unusable (UnsafeLocation location) =
     ''agent deploy directory '' @ location @ '' could not be confirmed safe: it must be a ''
       @ ''directory, not a symlink, owned by the login user (root with sudo), and every ''
       @ ''directory on the path to it, including directories holding intermediate symlinks, ''
       @ ''must be owned by root or the login user (root with sudo) and not writable by group ''
       @ ''or others unless it has the sticky bit''"
| "why_unusable (VersionMismatch remote own) =
     ''the agent answered protocol version '' @ show_nat (unat remote)
       @ '', but this remote-merge uses protocol version '' @ show_nat (unat own)"
| "why_unusable (CannotDeploy reason) = ''the agent could not be placed: '' @ reason"
| "why_unusable (CannotStart reason) = ''the agent could not be started: '' @ reason"

definition choose_route :: "agent_state \<Rightarrow> route_choice" where
  "choose_route state =
     (if state = Ready then UseAgent
      else StopWith (''remote files are handled only through the agent, and the agent cannot be used: ''
             @ why_unusable state))"

end
