(* ===== verification/Connection.thy ===== *)
theory Connection
  imports AppError ChangeCheck RouteChoice Sides
begin

text \<open>
  The errors of a run and the kinds of their failures (\<open>connection.rs\<close> and \<open>root_gone.rs\<close> of
  remote-merge, \<open>inspection.rs\<close> of remote-merge-agent). An \<open>anyhow::Error\<close> is the chain of its causes;
  \<open>run_cause\<close> lists the types the run looks for, and \<open>RcText\<close> stands for words without a type.
\<close>

datatype failure = NotSentYet | Lost | Refused

definition is_lost_failure :: "failure \<Rightarrow> bool" where
  "is_lost_failure f = (f \<noteq> Refused)"

datatype stop_cause = ConnectionLost | RootDirGone

datatype run_cause =
    RcLabeled failure string
  | RcAgentRefused string
  | RcConfirmed "outcome option" string
  | RcStopped string string stop_cause
  | RcApp app_error
  | RcIo bool string
  | RcAfterChange string
  | RcResolve resolve_error
  | RcScan scan_failure
  | RcScanStopped scan_failure string
  | RcVersion u32 u32
  | RcText string

type_synonym run_error = "run_cause cause list"

text \<open>\<open>RcIo\<close> says whether the error is of kind InvalidInput. The words of each cause.\<close>

fun show_run_cause :: "run_cause \<Rightarrow> string" where
  "show_run_cause (RcLabeled _ message) = message"
| "show_run_cause (RcAgentRefused message) = message"
| "show_run_cause (RcConfirmed _ message) = message"
| "show_run_cause (RcStopped server reason ConnectionLost) =
     ''not attempted: processing for '' @ server @ '' stopped after the connection was lost ('' @ reason @ '')''"
| "show_run_cause (RcStopped server reason RootDirGone) =
     ''not attempted: processing for '' @ server @ '' stopped because its root_dir was gone''"
| "show_run_cause (RcApp e) = show_app_error e"
| "show_run_cause (RcIo _ shown) = shown"
| "show_run_cause (RcAfterChange message) = message"
| "show_run_cause (RcResolve e) = show_resolve_error e"
| "show_run_cause (RcScan f) = show_scan_failure f"
| "show_run_cause (RcScanStopped _ shown) = shown"
| "show_run_cause (RcVersion remote own) =
     ''the agent speaks protocol v'' @ show_nat (unat remote) @ '', but this remote-merge speaks protocol v''
       @ show_nat (unat own)"
| "show_run_cause (RcText message) = message"

fun show_cause :: "run_cause cause \<Rightarrow> string" where
  "show_cause (CauseOp e) = show_op_error e"
| "show_cause (CausePrefixed message _) = message"
| "show_cause (CauseOther c) = show_run_cause c"

text \<open>\<open>{error:#}\<close> and \<open>{error}\<close>.\<close>

definition show_error :: "run_error \<Rightarrow> string" where
  "show_error e = join_with '': '' (map show_cause e)"

definition show_head :: "run_error \<Rightarrow> string" where
  "show_head e = (case e of [] \<Rightarrow> [] | c # _ \<Rightarrow> show_cause c)"

definition run_error_text :: "string \<Rightarrow> run_error" where
  "run_error_text message = [CauseOther (RcText message)]"

definition op_run_error :: "operation \<Rightarrow> string \<Rightarrow> op_failure \<Rightarrow> run_error" where
  "op_run_error operation path f = [CauseOp (op_error_new operation path f)]"

text \<open>\<open>error.context(message)\<close>.\<close>

definition with_context :: "string \<Rightarrow> run_error \<Rightarrow> run_error" where
  "with_context message e = CauseOther (RcText message) # e"

subsection \<open>Kinds of failure\<close>

fun op_failure_class :: "op_failure \<Rightarrow> failure" where
  "op_failure_class (Disconnected (NotSent _)) = NotSentYet"
| "op_failure_class (Disconnected (NoAnswer _)) = Lost"
| "op_failure_class _ = Refused"

fun app_error_class :: "app_error \<Rightarrow> failure" where
  "app_error_class (SshConnection _ _) = NotSentYet"
| "app_error_class (SshDisconnected _ _) = Lost"
| "app_error_class (SshTimeout _ _) = Lost"
| "app_error_class _ = Refused"

fun cause_class :: "run_cause cause \<Rightarrow> failure option" where
  "cause_class (CauseOp e) = Some (op_failure_class (oe_failure e))"
| "cause_class (CausePrefixed _ e) = Some (op_failure_class (oe_failure e))"
| "cause_class (CauseOther (RcLabeled f _)) = Some f"
| "cause_class (CauseOther (RcAgentRefused _)) = Some Refused"
| "cause_class (CauseOther (RcConfirmed _ _)) = Some Lost"
| "cause_class (CauseOther (RcStopped _ _ _)) = Some NotSentYet"
| "cause_class (CauseOther (RcApp e)) = Some (app_error_class e)"
| "cause_class (CauseOther (RcIo invalid_input _)) = Some (if invalid_input then Refused else Lost)"
| "cause_class _ = None"

definition classify :: "run_error \<Rightarrow> failure" where
  "classify e = (case find_map cause_class e of Some f \<Rightarrow> f | None \<Rightarrow> Refused)"

fun is_stopped_cause :: "run_cause cause \<Rightarrow> bool" where
  "is_stopped_cause (CauseOther (RcStopped _ _ _)) = True"
| "is_stopped_cause _ = False"

definition is_stopped_error :: "run_error \<Rightarrow> bool" where
  "is_stopped_error e = list_ex is_stopped_cause e"

definition retry_failed :: "run_error \<Rightarrow> string \<Rightarrow> run_error \<Rightarrow> run_error" where
  "retry_failed e what retry = with_context (show_head e @ ''; '' @ what @ '': '' @ show_error retry) e"

definition label_read :: "run_error \<Rightarrow> run_error" where
  "label_read e =
     (if is_stopped_error e \<or> classify e = Refused then e
      else [CauseOther (RcLabeled (classify e) (''read failed: the connection was lost: '' @ show_error e))])"

text \<open>A lost connection, as opposed to a side that was stopped before.\<close>

definition is_lost_error :: "run_error \<Rightarrow> bool" where
  "is_lost_error e = (is_lost_failure (classify e) \<and> \<not> is_stopped_error e)"

subsection \<open>A root that is gone\<close>

definition command_error_message :: "run_error \<Rightarrow> string" where
  "command_error_message e =
     (case find is_stopped_cause e of
        Some (CauseOther (RcStopped _ reason RootDirGone)) \<Rightarrow> reason
      | _ \<Rightarrow> show_error e)"

definition with_shown_root :: "run_error \<Rightarrow> string \<Rightarrow> run_error" where
  "with_shown_root e shown_root =
     (case op_error_of e of
        Some oe \<Rightarrow>
          if oe_failure oe = RootGone then [CausePrefixed (show_op_error oe @ '': '' @ shown_root) oe] else e
      | None \<Rightarrow> e)"

fun scan_failure_carried :: "run_cause \<Rightarrow> scan_failure option" where
  "scan_failure_carried (RcScan f) = Some f"
| "scan_failure_carried (RcScanStopped f _) = Some f"
| "scan_failure_carried _ = None"

fun is_root_gone_cause :: "run_cause cause \<Rightarrow> bool" where
  "is_root_gone_cause (CauseOther (RcResolve RNotADirectory)) = True"
| "is_root_gone_cause (CauseOther (RcResolve DanglingSymlink)) = True"
| "is_root_gone_cause _ = False"

definition is_root_gone_error :: "run_error \<Rightarrow> bool" where
  "is_root_gone_error e = list_ex is_root_gone_cause e"

fun is_root_missing_cause :: "run_cause cause \<Rightarrow> bool" where
  "is_root_missing_cause (CauseOther (RcScanStopped RootMissing _)) = True"
| "is_root_missing_cause _ = False"

definition is_root_missing :: "run_error \<Rightarrow> bool" where
  "is_root_missing e = list_ex is_root_missing_cause e"

subsection \<open>Words in front and behind keep the kind\<close>

lemma classify_context [simp]: "classify (with_context m e) = classify e"
  by (simp add: classify_def with_context_def)

lemma is_stopped_context [simp]: "is_stopped_error (with_context m e) = is_stopped_error e"
  by (simp add: is_stopped_error_def with_context_def)

lemma classify_retry_failed [simp]: "classify (retry_failed e what r) = classify e"
  by (simp add: retry_failed_def)

lemma is_stopped_retry_failed [simp]: "is_stopped_error (retry_failed e what r) = is_stopped_error e"
  by (simp add: retry_failed_def)

lemma label_read_keeps:
  "classify (label_read e) = classify e \<and> is_stopped_error (label_read e) = is_stopped_error e"
  by (simp add: label_read_def classify_def[of "[_]"] is_stopped_error_def[of "[_]"])

lemma op_error_of_shown_root: "map_option oe_failure (op_error_of (with_shown_root e shown)) = failure_of e"
  by (auto simp: with_shown_root_def failure_of_def op_error_of_def split: option.splits)

end
