(* ===== verification/Text.thy ===== *)
theory Text
  imports Prelude
begin

text \<open>
  Whitespace and numbers of Rust's std: \<open>str::trim\<close>, \<open>str::split_whitespace\<close>, \<open>u32::from_str\<close>. A string is
  its UTF-8 bytes; \<open>ws_head\<close> is the length of the whitespace character (Unicode's White_Space) a string
  starts with, 0 when it starts with none, and \<open>ws_last\<close> the same of the reversed string.
\<close>

definition ascii_ws :: "char \<Rightarrow> bool" where
  "ascii_ws c = (byte_in 9 13 c \<or> c = CHR 0x20)"

definition wide_ws :: "char \<Rightarrow> char \<Rightarrow> char \<Rightarrow> bool" where
  "wide_ws a b c =
     ((a = CHR 0xE1 \<and> b = CHR 0x9A \<and> c = CHR 0x80)
      \<or> (a = CHR 0xE2 \<and> b = CHR 0x80
          \<and> (byte_in 0x80 0x8A c \<or> c = CHR 0xA8 \<or> c = CHR 0xA9 \<or> c = CHR 0xAF))
      \<or> (a = CHR 0xE2 \<and> b = CHR 0x81 \<and> c = CHR 0x9F)
      \<or> (a = CHR 0xE3 \<and> b = CHR 0x80 \<and> c = CHR 0x80))"

definition pair_ws :: "char \<Rightarrow> char \<Rightarrow> bool" where
  "pair_ws a b = (a = CHR 0xC2 \<and> (b = CHR 0x85 \<or> b = CHR 0xA0))"

fun ws_head :: "string \<Rightarrow> nat" where
  "ws_head [] = 0"
| "ws_head [a] = (if ascii_ws a then 1 else 0)"
| "ws_head [a, b] = (if ascii_ws a then 1 else if pair_ws a b then 2 else 0)"
| "ws_head (a # b # c # _) = (if ascii_ws a then 1 else if pair_ws a b then 2 else if wide_ws a b c then 3 else 0)"

fun ws_last :: "string \<Rightarrow> nat" where
  "ws_last [] = 0"
| "ws_last [a] = (if ascii_ws a then 1 else 0)"
| "ws_last [b, a] = (if ascii_ws b then 1 else if pair_ws a b then 2 else 0)"
| "ws_last (c # b # a # _) = (if ascii_ws c then 1 else if pair_ws b c then 2 else if wide_ws a b c then 3 else 0)"

function trim_by :: "(string \<Rightarrow> nat) \<Rightarrow> string \<Rightarrow> string" where
  "trim_by w s = (if w s = 0 \<or> s = [] then s else trim_by w (drop (w s) s))"
  by auto
termination by (relation "measure (\<lambda>(w, s). length s)") auto

declare trim_by.simps [simp del]

definition str_trim_end :: "string \<Rightarrow> string" where
  "str_trim_end s = rev (trim_by ws_last (rev s))"

definition str_trim :: "string \<Rightarrow> string" where
  "str_trim s = str_trim_end (trim_by ws_head s)"

text \<open>The pieces between whitespace that are not empty; the piece being read is kept reversed.\<close>

function split_ws_loop :: "string \<Rightarrow> string \<Rightarrow> string list" where
  "split_ws_loop piece s =
     (case s of
        [] \<Rightarrow> (if piece = [] then [] else [rev piece])
      | c # rest \<Rightarrow>
          if ws_head s = 0 then split_ws_loop (c # piece) rest
          else (if piece = [] then [] else [rev piece]) @ split_ws_loop [] (drop (ws_head s) s))"
  by pat_completeness auto
termination
proof (relation "measure (\<lambda>(piece, s). length s)", goal_cases)
  case (3 piece s c rest)
  then show ?case by (cases "ws_head s") auto
qed auto

declare split_ws_loop.simps [simp del]

definition split_whitespace :: "string \<Rightarrow> string list" where
  "split_whitespace s = split_ws_loop [] s"

subsection \<open>Decimal numbers\<close>

definition is_digit :: "char \<Rightarrow> bool" where
  "is_digit = byte_in 48 57"

definition decimal_value :: "string \<Rightarrow> nat" where
  "decimal_value digits = foldl (\<lambda>v c. 10 * v + (of_char c - 48)) 0 digits"

text \<open>\<open>from_str\<close> of an unsigned type: digits with at most one plus sign in front, below the limit.\<close>

definition parse_unsigned :: "nat \<Rightarrow> string \<Rightarrow> nat option" where
  "parse_unsigned limit s =
     (let digits = (case s of c # rest \<Rightarrow> (if c = CHR ''+'' then rest else s) | [] \<Rightarrow> s) in
      if digits \<noteq> [] \<and> list_all is_digit digits \<and> decimal_value digits < limit
      then Some (decimal_value digits) else None)"

definition parse_u32 :: "string \<Rightarrow> u32 option" where
  "parse_u32 s = map_option word_of_nat (parse_unsigned (2 ^ 32) s)"

lemma decimal_value_snoc: "decimal_value (s @ [c]) = 10 * decimal_value s + (of_char c - 48)"
  by (simp add: decimal_value_def)

lemma show_nat_step:
  "show_nat n = (if n < 10 then [char_of (48 + n)] else show_nat (n div 10) @ [char_of (48 + n mod 10)])"
  by (simp add: show_nat_def show_base.simps[of 10 n])

lemma decimal_digit:
  assumes "k < 10"
  shows "of_char (char_of (48 + k) :: char) - 48 = (k::nat)" and "is_digit (char_of (48 + k :: nat))"
  using assms by (simp_all add: is_digit_def byte_in_def)

lemma show_nat_digits: "list_all is_digit (show_nat n) \<and> show_nat n \<noteq> [] \<and> decimal_value (show_nat n) = n"
proof (induction n rule: less_induct)
  case (less n)
  show ?case
  proof (cases "n < 10")
    case True
    then show ?thesis using decimal_digit[OF True] by (simp add: show_nat_step decimal_value_def)
  next
    case False
    then have "list_all is_digit (show_nat (n div 10)) \<and> decimal_value (show_nat (n div 10)) = n div 10"
      using less.IH by simp
    moreover have "n mod 10 < 10" by simp
    ultimately show ?thesis using False decimal_digit[of "n mod 10"]
      by (subst (1 2 3) show_nat_step) (simp add: decimal_value_snoc)
  qed
qed

lemma show_nat_no_plus: "show_nat n = c # rest \<Longrightarrow> c \<noteq> CHR ''+''"
  using show_nat_digits[of n] by (auto simp: is_digit_def byte_in_def)

lemma parse_show_nat: "n < limit \<Longrightarrow> parse_unsigned limit (show_nat n) = Some n"
  using show_nat_digits[of n] show_nat_no_plus[of n]
  by (auto simp: parse_unsigned_def Let_def split: list.splits)

lemma digit_not_ws: "is_digit c \<Longrightarrow> \<not> ascii_ws c \<and> \<not> pair_ws c d \<and> \<not> pair_ws d c \<and> \<not> wide_ws c d e \<and> \<not> wide_ws d e c"
  by (auto simp: is_digit_def ascii_ws_def byte_in_def pair_ws_def wide_ws_def)

lemma ws_last_digit: "is_digit c \<Longrightarrow> ws_last (c # s) = 0"
  using digit_not_ws by (cases "c # s" rule: ws_last.cases) auto

end
