(* ===== verification/Wire.thy ===== *)
theory Wire
  imports Connection Text
begin

text \<open>
  Values that travel between the program and the agent (\<open>failure.rs\<close>, \<open>data.rs\<close> and the version check of
  remote-merge-protocol) and how the answer to the inspection of a path is read (\<open>inspection.rs\<close> of
  remote-merge-agent).
\<close>

datatype wire_failure =
    WfNotFound | WfNotADirectory | WfPermissionDenied | WfTooLarge u64 u64 | WfIo string | WfRootGone

fun wire_of_failure :: "op_failure \<Rightarrow> wire_failure" where
  "wire_of_failure NotFound = WfNotFound"
| "wire_of_failure NotADirectory = WfNotADirectory"
| "wire_of_failure PermissionDenied = WfPermissionDenied"
| "wire_of_failure (TooLarge sz limit) = WfTooLarge sz limit"
| "wire_of_failure (Io reason) = WfIo reason"
| "wire_of_failure RootGone = WfRootGone"
| "wire_of_failure (Disconnected d) = WfIo (show_op_failure (Disconnected d))"

fun failure_of_wire :: "wire_failure \<Rightarrow> op_failure" where
  "failure_of_wire WfNotFound = NotFound"
| "failure_of_wire WfNotADirectory = NotADirectory"
| "failure_of_wire WfPermissionDenied = PermissionDenied"
| "failure_of_wire (WfTooLarge sz limit) = TooLarge sz limit"
| "failure_of_wire (WfIo reason) = Io reason"
| "failure_of_wire WfRootGone = RootGone"

datatype file_read_result = FrOk string bytes bool | FrFailed string wire_failure

datatype file_hash_result = FhOk string string | FhSymlink string string | FhFailed string wire_failure

datatype agent_inspection =
    AiMissing string bool
  | AiExists string existing_kind
  | AiSymlink string string "existing_kind option"
  | AiAncestorNotDirectory string bool
  | AiUnresolved string
  | AiError string

definition protocol_version :: u32 where
  "protocol_version = 15"

definition check_protocol_version :: "u32 \<Rightarrow> run_error + u32" where
  "check_protocol_version remote =
     (if remote \<noteq> protocol_version then Inl [CauseOther (RcVersion remote protocol_version)] else Inr remote)"

fun resolved_from_agent :: "agent_inspection \<Rightarrow> run_error + resolved_path" where
  "resolved_from_agent (AiMissing parent parent_exists) = Inr (ResolvedMissing parent parent_exists)"
| "resolved_from_agent (AiExists real k) = Inr (ResolvedExists real k)"
| "resolved_from_agent (AiSymlink link real k) = Inr (ResolvedSymlink link real k)"
| "resolved_from_agent (AiAncestorNotDirectory real regular) = Inr (ResolvedAncestorNotDirectory real regular)"
| "resolved_from_agent (AiUnresolved cause) =
     (case resolve_from_cause cause of
        Some e \<Rightarrow> Inl [CauseOther (RcResolve e)]
      | None \<Rightarrow> Inl [CauseOther (RcAgentRefused (''unknown path inspection cause: '' @ cause))])"
| "resolved_from_agent (AiError message) = Inl [CauseOther (RcAgentRefused message)]"

subsection \<open>The handshake\<close>

definition handshake_prefix :: string where
  "handshake_prefix = ''remote-merge agent''"

definition format_handshake :: string where
  "format_handshake = handshake_prefix @ '' v'' @ show_nat (unat protocol_version)"

definition parse_handshake :: "string \<Rightarrow> run_error + u32" where
  "parse_handshake line =
     (case strip_prefix handshake_prefix (str_trim line) of
        None \<Rightarrow> Inl (run_error_text (''invalid handshake: expected prefix '' @ [CHR 0x22] @ handshake_prefix @ [CHR 0x22]))
      | Some rest \<Rightarrow>
          (case strip_prefix ''v'' (str_trim rest) of
             None \<Rightarrow> Inl (run_error_text (''invalid handshake: missing version prefix '' @ single_quoted ''v''))
           | Some version_str \<Rightarrow>
               (case parse_u32 version_str of
                  Some version \<Rightarrow> Inr version
                | None \<Rightarrow> Inl (run_error_text (''invalid handshake: cannot parse version ''
                             @ [CHR 0x22] @ version_str @ [CHR 0x22])))))"

lemma handshake_round_trip: "parse_handshake format_handshake = Inr protocol_version"
proof -
  have f: "format_handshake = ''remote-merge agent v15''" by code_simp
  have t: "str_trim ''remote-merge agent v15'' = ''remote-merge agent v15''" "str_trim '' v15'' = ''v15''"
    by code_simp+
  have "show_nat 15 = ''15''" by code_simp
  then have "parse_u32 ''15'' = Some 15" using parse_show_nat[of 15 "2 ^ 32"] by (simp add: parse_u32_def)
  then show ?thesis by (simp add: f t parse_handshake_def handshake_prefix_def protocol_version_def)
qed

text \<open>Every failure an agent can have travels unchanged.\<close>

lemma wire_round_trip: "\<not> is_disconnection f \<Longrightarrow> failure_of_wire (wire_of_failure f) = f"
  by (cases f) auto

lemma wire_never_disconnected: "\<not> is_disconnection (failure_of_wire f)"
  by (cases f) auto

end
