(* ===== verification/ScanResults.thy ===== *)
theory ScanResults
  imports Connection CompareFlow ScanDrive
begin

text \<open>
  From the result of a scan to a listing or an error (\<open>scan_result.rs\<close>, \<open>child_listing.rs\<close> and
  \<open>treat/incomplete.rs\<close> of remote-merge-engine). Every route goes through these functions.
\<close>

datatype run_scan_error = RsScanFailure scan_failure | RsCollect run_error

definition root_changed_text :: "string \<Rightarrow> string" where
  "root_changed_text shown_root = ''root_dir changed during the scan: '' @ shown_root"

definition into_listing :: "string \<Rightarrow> run_scan_error + listing \<Rightarrow> run_error \<Rightarrow> run_error + listing" where
  "into_listing shown_root scanned root_missing =
     (case scanned of
        Inr l \<Rightarrow> Inr l
      | Inl (RsScanFailure RootMissing) \<Rightarrow> Inl [CauseOther (RcScanStopped RootMissing (show_error root_missing))]
      | Inl (RsScanFailure RootChanged) \<Rightarrow>
          Inl [CauseOther (RcScanStopped RootChanged (root_changed_text shown_root))]
      | Inl (RsScanFailure f) \<Rightarrow> Inl [CauseOther (RcScan f)]
      | Inl (RsCollect e) \<Rightarrow> Inl e)"

subsection \<open>Listings that were cut\<close>

definition scan_truncated_text :: "nat \<Rightarrow> string" where
  "scan_truncated_text max_entries =
     ''Tree scan truncated at '' @ show_nat max_entries
       @ '' entries. Use --max-entries <value> to increase the limit, ''
       @ ''set max_scan_entries in the config, or specify file paths instead of scanning ''
       @ ''the whole tree.''"

definition cycle_found_text :: "string \<Rightarrow> string" where
  "cycle_found_text path = ''Directory scan incomplete: symbolic link cycle at '' @ path"

fun incomplete_text :: "incomplete \<Rightarrow> string" where
  "incomplete_text (IncTruncated _ max_entries) = scan_truncated_text max_entries"
| "incomplete_text (IncCycle _ path) = cycle_found_text path"

definition incomplete_error :: "incomplete \<Rightarrow> run_error" where
  "incomplete_error i = run_error_text (incomplete_text i)"

fun incomplete_path :: "incomplete \<Rightarrow> string" where
  "incomplete_path (IncTruncated _ _) = ''.''"
| "incomplete_path (IncCycle _ path) = path"

record diff_error =
  de_path :: string
  de_reason :: string

definition incomplete_errors :: "incomplete list \<Rightarrow> diff_error list" where
  "incomplete_errors is =
     fold (\<lambda>i errors. push_new \<lparr>de_path = incomplete_path i, de_reason = incomplete_text i\<rparr> errors) is []"

subsection \<open>Listings of children\<close>

definition into_child_listing ::
  "string \<Rightarrow> string \<Rightarrow> run_scan_error + listing \<Rightarrow> nat \<Rightarrow> run_error \<Rightarrow> run_error + children_listing" where
  "into_child_listing shown_root dir scanned max_entries root_missing =
     (let go_on =
        res_bind (into_listing shown_root scanned root_missing) (\<lambda>l.
          case ls_cycle l of
            Some path \<Rightarrow> Inl (run_error_text (cycle_found_text path))
          | None \<Rightarrow>
              if ls_truncated l then Inl (run_error_text (scan_truncated_text max_entries))
              else Inr (children_in l dir))
      in
      case scanned of
        Inl (RsScanFailure f) \<Rightarrow>
          (case listing_failure_of f of
             LfNotDirectory \<Rightarrow> Inr ChildrenNotDirectory
           | LfUnlistable \<Rightarrow> Inr (Unlistable (show_scan_failure f))
           | LfStop \<Rightarrow> go_on)
      | _ \<Rightarrow> go_on)"

text \<open>The kind of the failure that stopped a scan stays in the error.\<close>

lemma into_listing_kind:
  "into_listing shown_root (Inl (RsScanFailure f)) missing = Inl e \<Longrightarrow> scan_failure_of scan_failure_carried e = Some f"
  by (cases f) (auto simp: into_listing_def scan_failure_of_def)

end
