(* ===== verification/Runtime.thy ===== *)
theory Runtime
  imports Wire ScanResults ConfigMerge CompareReads
begin

text \<open>
  The state of one run and its connections (\<open>runtime/core.rs\<close>, \<open>route_state.rs\<close>, \<open>route_retry.rs\<close> and
  \<open>agent_clients.rs\<close> of remote-merge): which servers are connected, which were found to have a usable
  agent, and which sides were stopped. The machines behind it are a parameter, a record of what SSH, the
  client of an agent, this machine and the store of backups answer; each call takes a state of the world
  and returns the next one, so other programs may change it at any call.
\<close>

subsection \<open>Stopped sides\<close>

datatype stop_key = StopServer string | StopLocal

definition stop_key_of :: "side \<Rightarrow> stop_key" where
  "stop_key_of side = (case server_name side of Some name \<Rightarrow> StopServer name | None \<Rightarrow> StopLocal)"

fun shown_key :: "stop_key \<Rightarrow> string" where
  "shown_key (StopServer name) = name"
| "shown_key StopLocal = ''local''"

record stop =
  sp_cause :: stop_cause
  sp_reason :: string
  sp_order :: nat

record 'w runtime =
  rn_world :: 'w
  rn_ssh :: "string set"
  rn_agents :: "string set"
  rn_chosen :: "string set"
  rn_config :: app_config
  rn_overrides :: "string \<Rightarrow> string option"
  rn_stopped :: "(stop_key \<times> stop) list"
  rn_checked_include :: "(side \<times> string list option) list"

text \<open>A step of the run: it answers a value or an error and always leaves a next state.\<close>

type_synonym ('w, 'a) act = "'w runtime \<Rightarrow> 'w runtime \<times> (run_error + 'a)"

definition act_return :: "'a \<Rightarrow> ('w, 'a) act" where
  "act_return x rt = (rt, Inr x)"

definition act_fail :: "run_error \<Rightarrow> ('w, 'a) act" where
  "act_fail e rt = (rt, Inl e)"

definition act_bind :: "('w, 'a) act \<Rightarrow> ('a \<Rightarrow> ('w, 'b) act) \<Rightarrow> ('w, 'b) act" where
  "act_bind f g rt = (case f rt of (rt', Inl e) \<Rightarrow> (rt', Inl e) | (rt', Inr x) \<Rightarrow> g x rt')"

definition on_world :: "('w \<Rightarrow> 'w \<times> 'r) \<Rightarrow> 'w runtime \<Rightarrow> 'w runtime \<times> 'r" where
  "on_world f rt = (case f (rn_world rt) of (w, r) \<Rightarrow> (rt\<lparr>rn_world := w\<rparr>, r))"

text \<open>The map of stopped sides is kept in the order of the stops; an entry is never replaced.\<close>

definition stop_with :: "stop_key \<Rightarrow> stop_cause \<Rightarrow> run_error \<Rightarrow> 'w runtime \<Rightarrow> 'w runtime" where
  "stop_with key cause e rt =
     (if map_of (rn_stopped rt) key = None
      then rt\<lparr>rn_stopped := rn_stopped rt
               @ [(key, \<lparr>sp_cause = cause, sp_reason = show_error e, sp_order = length (rn_stopped rt)\<rparr>)]\<rparr>
      else rt)"

definition stop_server :: "string \<Rightarrow> run_error \<Rightarrow> 'w runtime \<Rightarrow> 'w runtime" where
  "stop_server name e = stop_with (StopServer name) ConnectionLost e"

definition stop_for_root_gone :: "stop_key \<Rightarrow> run_error \<Rightarrow> 'w runtime \<Rightarrow> 'w runtime" where
  "stop_for_root_gone key e = stop_with key RootDirGone e"

definition has_stopped :: "'w runtime \<Rightarrow> bool" where
  "has_stopped rt = (rn_stopped rt \<noteq> [])"

definition stopped_error_of :: "stop_key \<Rightarrow> 'w runtime \<Rightarrow> run_error option" where
  "stopped_error_of key rt =
     map_option (\<lambda>stop. [CauseOther (RcStopped (shown_key key) (sp_reason stop) (sp_cause stop))])
       (map_of (rn_stopped rt) key)"

definition stopped_error_for :: "side \<Rightarrow> 'w runtime \<Rightarrow> run_error option" where
  "stopped_error_for side = stopped_error_of (stop_key_of side)"

definition stopped_for_root_gone :: "side \<Rightarrow> 'w runtime \<Rightarrow> bool" where
  "stopped_for_root_gone side rt =
     (case map_of (rn_stopped rt) (stop_key_of side) of
        Some stop \<Rightarrow> sp_cause stop = RootDirGone
      | None \<Rightarrow> False)"

text \<open>\<open>min_by_key\<close>: the first element with the smallest key.\<close>

fun min_by_key :: "('a \<Rightarrow> nat) \<Rightarrow> 'a list \<Rightarrow> 'a option" where
  "min_by_key k [] = None"
| "min_by_key k (x # xs) =
     (case min_by_key k xs of
        None \<Rightarrow> Some x
      | Some y \<Rightarrow> if k y < k x then Some y else Some x)"

definition root_gone_stop :: "'w runtime \<Rightarrow> run_error option" where
  "root_gone_stop rt =
     Option.bind
       (min_by_key (\<lambda>(_, stop). sp_order stop) (filter (\<lambda>(_, stop). sp_cause stop = RootDirGone) (rn_stopped rt)))
       (\<lambda>(key, _). stopped_error_of key rt)"

subsection \<open>The machines\<close>

record 'w machine =
  mc_connect :: "string \<Rightarrow> 'w \<Rightarrow> 'w \<times> (run_error + unit)"
  mc_start_agent :: "string \<Rightarrow> 'w \<Rightarrow> 'w \<times> (agent_state + unit)"
  mc_shutdown :: "string \<Rightarrow> 'w \<Rightarrow> 'w"
  mc_disconnect :: "string \<Rightarrow> 'w \<Rightarrow> 'w"
  ag_inspect :: "string \<Rightarrow> rel_path \<Rightarrow> 'w \<Rightarrow> 'w \<times> (run_error + agent_inspection)"
  ag_inspect_paths :: "string \<Rightarrow> rel_path list \<Rightarrow> 'w \<Rightarrow> 'w \<times> (run_error + (run_error + agent_inspection) list)"
  ag_read_files :: "string \<Rightarrow> u64 option \<Rightarrow> entry_path list \<Rightarrow> 'w \<Rightarrow> 'w \<times> (run_error + bytes by_path)"
  ag_hash_contents :: "string \<Rightarrow> entry_path list \<Rightarrow> 'w \<Rightarrow> 'w \<times> (run_error + file_hash_result list)"
  ag_hash_files :: "string \<Rightarrow> entry_path list \<Rightarrow> 'w \<Rightarrow> 'w \<times> (run_error + file_hash_result list)"
  ag_list_tree :: "string \<Rightarrow> scan_request \<Rightarrow> string list \<Rightarrow> 'w \<Rightarrow> 'w \<times> (run_error + (scan_failure + listing))"
  ag_write :: "string \<Rightarrow> entry_path \<Rightarrow> bytes \<Rightarrow> bool \<Rightarrow> 'w \<Rightarrow> 'w \<times> (run_error + unit)"
  ag_chmod :: "string \<Rightarrow> entry_path \<Rightarrow> u32 \<Rightarrow> 'w \<Rightarrow> 'w \<times> (run_error + unit)"
  ag_remove :: "string \<Rightarrow> entry_path \<Rightarrow> 'w \<Rightarrow> 'w \<times> (run_error + unit)"
  ag_symlink :: "string \<Rightarrow> entry_path \<Rightarrow> string \<Rightarrow> 'w \<Rightarrow> 'w \<times> (run_error + unit)"
  lo_resolve :: "string \<Rightarrow> string \<Rightarrow> 'w \<Rightarrow> 'w \<times> (resolve_error + resolved_path)"
  lo_scan :: "string \<Rightarrow> string list \<Rightarrow> scan_request \<Rightarrow> 'w \<Rightarrow> 'w \<times> (run_scan_error + listing)"
  lo_read :: "string \<Rightarrow> size_limit \<Rightarrow> entry_path \<Rightarrow> 'w \<Rightarrow> 'w \<times> (op_failure + bytes)"
  lo_hash :: "string \<Rightarrow> entry_path \<Rightarrow> 'w \<Rightarrow> 'w \<times> (op_failure + string)"
  lo_write :: "string \<Rightarrow> entry_path \<Rightarrow> bytes \<Rightarrow> 'w \<Rightarrow> 'w \<times> (op_failure + unit)"
  lo_chmod :: "string \<Rightarrow> entry_path \<Rightarrow> u32 \<Rightarrow> 'w \<Rightarrow> 'w \<times> (op_failure + unit)"
  lo_remove :: "string \<Rightarrow> entry_path \<Rightarrow> 'w \<Rightarrow> 'w \<times> (op_failure + unit)"
  lo_symlink :: "string \<Rightarrow> entry_path \<Rightarrow> string \<Rightarrow> 'w \<Rightarrow> 'w \<times> (op_failure + unit)"
  bk_save_file :: "side \<Rightarrow> string \<Rightarrow> string \<Rightarrow> string \<Rightarrow> bytes \<Rightarrow> 'w \<Rightarrow> 'w \<times> (run_error + string)"
  bk_save_symlink ::
    "side \<Rightarrow> string \<Rightarrow> string \<Rightarrow> string \<Rightarrow> (string \<times> string) option \<Rightarrow> 'w \<Rightarrow> 'w \<times> (run_error + string)"

subsection \<open>Connections\<close>

definition server_config_of :: "string \<Rightarrow> 'w runtime \<Rightarrow> run_error + server_config" where
  "server_config_of name rt =
     ok_or (run_error_text (''Server '' @ single_quoted name @ '' not found in config''))
       (map_of (cf_servers (rn_config rt)) name)"

definition has_client :: "string \<Rightarrow> 'w runtime \<Rightarrow> bool" where
  "has_client name rt = (name \<in> rn_ssh rt)"

definition require_agent_route :: "string \<Rightarrow> ('w, unit) act" where
  "require_agent_route name rt =
     (rt, if name \<in> rn_chosen rt then Inr () else Inl (run_error_text (''SSH not connected: '' @ name)))"

definition disconnect_agent :: "'w machine \<Rightarrow> string \<Rightarrow> 'w runtime \<Rightarrow> 'w runtime" where
  "disconnect_agent mc name rt =
     (if name \<in> rn_agents rt
      then rt\<lparr>rn_agents := rn_agents rt - {name}, rn_world := mc_shutdown mc name (rn_world rt)\<rparr>
      else rt)"

definition disconnect :: "'w machine \<Rightarrow> string \<Rightarrow> 'w runtime \<Rightarrow> 'w runtime" where
  "disconnect mc name rt =
     (let rt' = disconnect_agent mc name rt in
      if name \<in> rn_ssh rt'
      then rt'\<lparr>rn_ssh := rn_ssh rt' - {name}, rn_world := mc_disconnect mc name (rn_world rt')\<rparr>
      else rt')"

definition connect_ssh :: "'w machine \<Rightarrow> string \<Rightarrow> ('w, unit) act" where
  "connect_ssh mc name rt =
     (case server_config_of name rt of
        Inl e \<Rightarrow> (rt, Inl e)
      | Inr _ \<Rightarrow>
          (case on_world (mc_connect mc name) rt of
             (rt', Inr _) \<Rightarrow> (rt'\<lparr>rn_ssh := insert name (rn_ssh rt')\<rparr>, Inr ())
           | (rt', Inl e) \<Rightarrow> (rt', Inl e)))"

definition start_and_keep :: "'w machine \<Rightarrow> string \<Rightarrow> 'w runtime \<Rightarrow> 'w runtime \<times> agent_state" where
  "start_and_keep mc name rt =
     (case on_world (mc_start_agent mc name) rt of
        (rt', Inr _) \<Rightarrow> (rt'\<lparr>rn_agents := insert name (rn_agents rt')\<rparr>, Ready)
      | (rt', Inl state) \<Rightarrow> (rt', state))"

definition settle_route :: "'w machine \<Rightarrow> string \<Rightarrow> agent_state \<Rightarrow> ('w, unit) act" where
  "settle_route mc name state rt =
     (case choose_route state of
        UseAgent \<Rightarrow> (rt\<lparr>rn_chosen := insert name (rn_chosen rt)\<rparr>, Inr ())
      | StopWith reason \<Rightarrow> (disconnect mc name rt, Inl (run_error_text (name @ '': '' @ reason))))"

definition start_agent :: "'w machine \<Rightarrow> string \<Rightarrow> ('w, unit) act" where
  "start_agent mc name rt =
     (case start_and_keep mc name rt of
        (rt', Ready) \<Rightarrow> (rt', Inr ())
      | (rt', state) \<Rightarrow>
          (rt', Inl (run_error_text (name @ '': the agent could not be started again: '' @ why_unusable state))))"

definition connect :: "'w machine \<Rightarrow> string \<Rightarrow> ('w, unit) act" where
  "connect mc name rt =
     (if \<not> ac_enabled (cf_agent (rn_config rt)) \<and> name \<notin> rn_chosen rt then settle_route mc name Disabled rt
      else
        act_bind (connect_ssh mc name) (\<lambda>_ rt'.
          if name \<in> rn_chosen rt' then start_agent mc name rt'
          else (case start_and_keep mc name rt' of (rt'', state) \<Rightarrow> settle_route mc name state rt'')) rt)"

definition try_reconnect :: "'w machine \<Rightarrow> string \<Rightarrow> ('w, unit) act" where
  "try_reconnect mc name rt = connect mc name (disconnect mc name rt)"

definition reconnect_route :: "'w machine \<Rightarrow> string \<Rightarrow> ('w, unit) act" where
  "reconnect_route mc name =
     act_bind (require_agent_route name) (\<lambda>_ rt.
       if \<not> has_client name rt then
         (rt, Inl (run_error_text (''the agent could not be restarted: SSH not connected: '' @ name)))
       else
         (case start_agent mc name (disconnect_agent mc name rt) of
            (rt', Inr _) \<Rightarrow> (rt', Inr ())
          | (rt', Inl restart) \<Rightarrow>
              (case try_reconnect mc name rt' of
                 (rt'', Inr _) \<Rightarrow> (rt'', Inr ())
               | (rt'', Inl e) \<Rightarrow>
                   (rt'', Inl (with_context (''the agent could not be restarted ('' @ show_error restart
                       @ ''), nor after reconnecting'') e)))))"

definition connect_if_needed :: "'w machine \<Rightarrow> string \<Rightarrow> ('w, unit) act" where
  "connect_if_needed mc name rt = (if has_client name rt then (rt, Inr ()) else connect mc name rt)"

definition connect_side :: "'w machine \<Rightarrow> side \<Rightarrow> ('w, unit) act" where
  "connect_side mc side rt =
     (case side of
        LocalSide \<Rightarrow> (rt, Inr ())
      | RemoteSide name \<Rightarrow>
          if rn_overrides rt name \<noteq> None then (rt, Inr ()) else connect_if_needed mc name rt)"

subsection \<open>Lost connections\<close>

definition read_on_route :: "'w machine \<Rightarrow> string \<Rightarrow> ('w, 'a) act \<Rightarrow> ('w, 'a) act" where
  "read_on_route mc name read rt =
     (case read rt of
        (rt1, Inr x) \<Rightarrow> (rt1, Inr x)
      | (rt1, Inl first) \<Rightarrow>
          if \<not> is_lost_error first then (rt1, Inl first)
          else
            (case reconnect_route mc name rt1 of
               (rt2, Inl reconnect) \<Rightarrow>
                 (let e = retry_failed first ''could not reconnect'' reconnect in (stop_server name e rt2, Inl e))
             | (rt2, Inr _) \<Rightarrow>
                 (case read rt2 of
                    (rt3, Inr x) \<Rightarrow> (rt3, Inr x)
                  | (rt3, Inl again) \<Rightarrow>
                      if is_lost_error again then
                        (let e = retry_failed first ''the retry also failed'' again in
                         (stop_server name e rt3, Inl e))
                      else (rt3, Inl again))))"

definition change_on_route :: "string \<Rightarrow> ('w, 'a) act \<Rightarrow> ('w, 'a) act" where
  "change_on_route name change rt =
     (case change rt of
        (rt', Inl e) \<Rightarrow> (if is_lost_error e then stop_server name e rt' else rt', Inl e)
      | (rt', Inr x) \<Rightarrow> (rt', Inr x))"

end
