(* ===== verification/Targets.thy ===== *)
theory Targets
  imports Runtime
begin

text \<open>
  The operations on one side (\<open>agent_route\<close>, \<open>remote_ops.rs\<close>, \<open>remote_change.rs\<close>, \<open>remote_target.rs\<close>,
  \<open>local_target.rs\<close>, \<open>local_ops.rs\<close>, \<open>stopped_target.rs\<close>, \<open>root_watch.rs\<close>, \<open>root_watch_io.rs\<close>,
  \<open>target_io.rs\<close> and \<open>side_facts.rs\<close> of remote-merge). The trait \<open>TargetIo\<close> is a record of its methods.
\<close>

subsection \<open>The route of the agent\<close>

definition not_running :: "string \<Rightarrow> run_error" where
  "not_running name =
     op_run_error OpRead name (Disconnected (NotSent (''the agent for '' @ name @ '' is not running'')))"

definition with_agent :: "string \<Rightarrow> ('w \<Rightarrow> 'w \<times> (run_error + 'a)) \<Rightarrow> ('w, 'a) act" where
  "with_agent name operation rt =
     (if name \<notin> rn_agents rt then (rt, Inl (not_running name)) else on_world operation rt)"

definition agent_read_batch_size :: nat where
  "agent_read_batch_size = 2000"

text \<open>\<open>slice::chunks\<close> of at least one element.\<close>

function chunks :: "nat \<Rightarrow> 'a list \<Rightarrow> 'a list list" where
  "chunks n xs = (if xs = [] \<or> n = 0 then [] else take n xs # chunks n (drop n xs))"
  by auto
termination by (relation "measure (\<lambda>(n, xs). length xs)") auto

declare chunks.simps [simp del]

fun ask_chunks :: "string \<Rightarrow> ('p list \<Rightarrow> 'w \<Rightarrow> 'w \<times> (run_error + 'a list)) \<Rightarrow> 'p list list \<Rightarrow> ('w, 'a list) act" where
  "ask_chunks name q [] rt = (rt, Inr [])"
| "ask_chunks name q (chunk # rest) rt =
     (case with_agent name (q chunk) rt of
        (rt', Inl e) \<Rightarrow> (rt', Inl e)
      | (rt', Inr answers) \<Rightarrow>
          (case ask_chunks name q rest rt' of
             (rt'', Inl e) \<Rightarrow> (rt'', Inl e)
           | (rt'', Inr others) \<Rightarrow> (rt'', Inr (answers @ others))))"

definition in_batches ::
  "string \<Rightarrow> 'p list \<Rightarrow> ('p list \<Rightarrow> 'w \<Rightarrow> 'w \<times> (run_error + 'a list)) \<Rightarrow> ('w, 'a list) act" where
  "in_batches name paths q = ask_chunks name q (chunks agent_read_batch_size paths)"

definition act_map :: "('a \<Rightarrow> run_error + 'b) \<Rightarrow> ('w, 'a) act \<Rightarrow> ('w, 'b) act" where
  "act_map f a rt = (case a rt of (rt', r) \<Rightarrow> (rt', res_bind r f))"

definition agent_inspect :: "'w machine \<Rightarrow> string \<Rightarrow> rel_path \<Rightarrow> ('w, resolved_path) act" where
  "agent_inspect mc name path = act_map resolved_from_agent (with_agent name (ag_inspect mc name path))"

definition agent_inspect_paths ::
  "'w machine \<Rightarrow> string \<Rightarrow> rel_path list \<Rightarrow> ('w, (run_error + resolved_path) list) act" where
  "agent_inspect_paths mc name paths =
     act_map (\<lambda>inspections. Inr (map (\<lambda>i. res_bind i resolved_from_agent) inspections))
       (in_batches name paths (ag_inspect_paths mc name))"

fun limit_bytes :: "size_limit \<Rightarrow> u64 option" where
  "limit_bytes (LimitBytes n) = Some n"
| "limit_bytes Unlimited = None"

definition agent_read_entries :: "'w machine \<Rightarrow> string \<Rightarrow> entry_path list \<Rightarrow> size_limit \<Rightarrow> ('w, bytes by_path) act" where
  "agent_read_entries mc name paths limit = in_batches name paths (ag_read_files mc name (limit_bytes limit))"

fun content_hash_of :: "file_hash_result \<Rightarrow> string \<times> (op_failure + string)" where
  "content_hash_of (FhOk path hash) = (path, Inr hash)"
| "content_hash_of (FhFailed path f) = (path, Inl (failure_of_wire f))"
| "content_hash_of (FhSymlink path _) =
     (path, Inl (Disconnected (NoAnswer ''the agent answered a link to a content hash'')))"

fun entry_hash_of :: "file_hash_result \<Rightarrow> string \<times> (op_failure + string)" where
  "entry_hash_of (FhOk path hash) = (path, Inr hash)"
| "entry_hash_of (FhSymlink path target) = (path, Inr target)"
| "entry_hash_of (FhFailed path f) = (path, Inl (failure_of_wire f))"

definition agent_hash_contents :: "'w machine \<Rightarrow> string \<Rightarrow> entry_path list \<Rightarrow> ('w, string by_path) act" where
  "agent_hash_contents mc name paths =
     act_map (\<lambda>rs. Inr (map content_hash_of rs)) (in_batches name paths (ag_hash_contents mc name))"

definition agent_hash_entries :: "'w machine \<Rightarrow> string \<Rightarrow> entry_path list \<Rightarrow> ('w, string by_path) act" where
  "agent_hash_entries mc name paths =
     act_map (\<lambda>rs. Inr (map entry_hash_of rs)) (in_batches name paths (ag_hash_files mc name))"

definition remote_shown_root :: "string \<Rightarrow> string \<Rightarrow> string" where
  "remote_shown_root name root_dir = name @ '':'' @ root_dir"

definition remote_root_missing :: "string \<Rightarrow> string \<Rightarrow> run_error" where
  "remote_root_missing name root_dir = [CauseOther (RcApp (RemoteRootNotFound name root_dir))]"

fun scan_error_of_agent :: "scan_failure + listing \<Rightarrow> run_scan_error + listing" where
  "scan_error_of_agent (Inl f) = Inl (RsScanFailure f)"
| "scan_error_of_agent (Inr l) = Inr l"

definition agent_scan_listing :: "'w machine \<Rightarrow> string \<Rightarrow> scan_request \<Rightarrow> ('w, listing) act" where
  "agent_scan_listing mc name request rt =
     (case server_config_of name rt of
        Inl e \<Rightarrow> (rt, Inl e)
      | Inr server \<Rightarrow>
          act_map (\<lambda>scanned. into_listing (remote_shown_root name (sv_root_dir server))
                      (scan_error_of_agent scanned) (remote_root_missing name (sv_root_dir server)))
            (with_agent name (ag_list_tree mc name request (fc_exclude (cf_filter (rn_config rt))))) rt)"

definition agent_list_children ::
  "'w machine \<Rightarrow> string \<Rightarrow> rel_path \<Rightarrow> string list \<Rightarrow> nat \<Rightarrow> ('w, children_listing) act" where
  "agent_list_children mc name path excl max_entries rt =
     (case server_config_of name rt of
        Inl e \<Rightarrow> (rt, Inl e)
      | Inr server \<Rightarrow>
          act_map (\<lambda>scanned. into_child_listing (remote_shown_root name (sv_root_dir server)) (rel_as_str path)
                      (scan_error_of_agent scanned) max_entries (remote_root_missing name (sv_root_dir server)))
            (with_agent name (ag_list_tree mc name
               \<lparr>sr_scope = ScopeChildren (rel_as_str path), sr_max_entries = max_entries\<rparr> excl)) rt)"

subsection \<open>Remote operations, once\<close>

definition remotely :: "string \<Rightarrow> ('w, 'a) act \<Rightarrow> ('w, 'a) act" where
  "remotely name operation = act_bind (require_agent_route name) (\<lambda>_. operation)"

datatype remote_change = RwWrite bytes bool | RwChmod u32 | RwRemove | RwSymlink string

fun agent_change :: "'w machine \<Rightarrow> string \<Rightarrow> entry_path \<Rightarrow> remote_change \<Rightarrow> 'w \<Rightarrow> 'w \<times> (run_error + unit)" where
  "agent_change mc name path (RwWrite content is_binary) = ag_write mc name path content is_binary"
| "agent_change mc name path (RwChmod mode) = ag_chmod mc name path mode"
| "agent_change mc name path RwRemove = ag_remove mc name path"
| "agent_change mc name path (RwSymlink target) = ag_symlink mc name path target"

definition remote_change :: "'w machine \<Rightarrow> string \<Rightarrow> entry_path \<Rightarrow> remote_change \<Rightarrow> ('w, unit) act" where
  "remote_change mc name path change = remotely name (with_agent name (agent_change mc name path change))"

subsection \<open>Targets\<close>

record 'w target_io =
  io_inspect :: "rel_path \<Rightarrow> ('w, resolved_path) act"
  io_inspect_paths :: "rel_path list \<Rightarrow> ('w, (run_error + resolved_path) list) act"
  io_read :: "entry_path list \<Rightarrow> size_limit \<Rightarrow> ('w, bytes by_path) act"
  io_write :: "entry_path \<Rightarrow> bytes \<Rightarrow> ('w, unit) act"
  io_chmod :: "entry_path \<Rightarrow> u32 \<Rightarrow> ('w, unit) act"
  io_remove :: "entry_path \<Rightarrow> ('w, unit) act"
  io_symlink :: "entry_path \<Rightarrow> string \<Rightarrow> ('w, unit) act"
  io_scan :: "scan_request \<Rightarrow> ('w, listing) act"
  io_hash :: "entry_path list \<Rightarrow> ('w, string by_path) act"
  io_states_before :: "entry_path list \<Rightarrow> ('w, (string \<times> before) list) act"

definition changed_on :: "'w machine \<Rightarrow> string \<Rightarrow> entry_path \<Rightarrow> remote_change \<Rightarrow> ('w, unit) act" where
  "changed_on mc name path change = change_on_route name (remote_change mc name path change)"

definition states_of_hashes :: "string by_path \<Rightarrow> (string \<times> before) list" where
  "states_of_hashes hashes =
     List.map_filter (\<lambda>(path, h). case h of Inr hash \<Rightarrow> Some (path, BfHash hash) | Inl _ \<Rightarrow> None) hashes"

definition remote_states_before_restore :: "'w machine \<Rightarrow> string \<Rightarrow> entry_path list \<Rightarrow> ('w, (string \<times> before) list) act" where
  "remote_states_before_restore mc name paths =
     (if paths = [] then act_return []
      else act_map (\<lambda>hashes. Inr (states_of_hashes hashes))
             (read_on_route mc name (remotely name (agent_hash_entries mc name paths))))"

definition remote_target :: "'w machine \<Rightarrow> string \<Rightarrow> 'w target_io" where
  "remote_target mc name =
     \<lparr>io_inspect = (\<lambda>path. read_on_route mc name (remotely name (agent_inspect mc name path))),
      io_inspect_paths = (\<lambda>paths. read_on_route mc name (remotely name (agent_inspect_paths mc name paths))),
      io_read = (\<lambda>paths limit. read_on_route mc name (remotely name (agent_read_entries mc name paths limit))),
      io_write = (\<lambda>path content. changed_on mc name path (RwWrite content True)),
      io_chmod = (\<lambda>path mode. changed_on mc name path (RwChmod mode)),
      io_remove = (\<lambda>path. changed_on mc name path RwRemove),
      io_symlink = (\<lambda>path target. changed_on mc name path (RwSymlink target)),
      io_scan = (\<lambda>request. read_on_route mc name (remotely name (agent_scan_listing mc name request))),
      io_hash = (\<lambda>paths. read_on_route mc name (remotely name (agent_hash_contents mc name paths))),
      io_states_before = remote_states_before_restore mc name\<rparr>"

text \<open>This machine. Failures of an operation get the operation and the path as typed.\<close>

definition local_op :: "operation \<Rightarrow> entry_path \<Rightarrow> ('w \<Rightarrow> 'w \<times> (op_failure + 'a)) \<Rightarrow> ('w, 'a) act" where
  "local_op operation path f rt =
     (case on_world f rt of (rt', r) \<Rightarrow> (rt', res_map_err (op_run_error operation (entry_as_typed path)) r))"

fun local_each ::
  "(entry_path \<Rightarrow> 'w \<Rightarrow> 'w \<times> (op_failure + 'a)) \<Rightarrow> entry_path list \<Rightarrow> 'w runtime \<Rightarrow> 'w runtime \<times> 'a by_path" where
  "local_each f [] rt = (rt, [])"
| "local_each f (path # paths) rt =
     (case on_world (f path) rt of
        (rt', r) \<Rightarrow> (case local_each f paths rt' of (rt'', rs) \<Rightarrow> (rt'', (entry_as_typed path, r) # rs)))"

definition all_answered :: "'w runtime \<times> 'a \<Rightarrow> 'w runtime \<times> (run_error + 'a)" where
  "all_answered p = (fst p, Inr (snd p))"

definition missing_root :: "string \<Rightarrow> run_error" where
  "missing_root root = [CauseOther (RcApp (PathNotFound root))]"

definition local_inspect :: "'w machine \<Rightarrow> string \<Rightarrow> rel_path \<Rightarrow> ('w, resolved_path) act" where
  "local_inspect mc root path rt =
     (if \<not> path_is_absolute root then
        (rt, Inl (run_error_text (''local root_dir is not an absolute path: '' @ root)))
      else
        (case on_world (lo_resolve mc root (path_to_resolve path)) rt of
           (rt', r) \<Rightarrow> (rt', res_map_err (\<lambda>e. [CauseOther (RcResolve e)]) r)))"

text \<open>The method the trait gives when a target has none of its own: one path after another.\<close>

fun inspect_one_by_one ::
  "(rel_path \<Rightarrow> ('w, resolved_path) act) \<Rightarrow> rel_path list \<Rightarrow> 'w runtime \<Rightarrow> 'w runtime \<times> (run_error + resolved_path) list" where
  "inspect_one_by_one f [] rt = (rt, [])"
| "inspect_one_by_one f (path # paths) rt =
     (case f path rt of
        (rt', r) \<Rightarrow> (case inspect_one_by_one f paths rt' of (rt'', rs) \<Rightarrow> (rt'', r # rs)))"

definition mode_too_wide_text :: "u32 \<Rightarrow> string" where
  "mode_too_wide_text mode =
     ''mode 0o'' @ show_oct (unat mode) @ '' has bits beyond 0o777 (setuid, setgid and sticky are not set)''"

definition local_chmod :: "'w machine \<Rightarrow> string \<Rightarrow> entry_path \<Rightarrow> u32 \<Rightarrow> ('w, unit) act" where
  "local_chmod mc root path mode rt =
     (case permission_mode mode of
        Inl wide \<Rightarrow>
          (rt, Inl (run_error_text (''cannot change permissions of '' @ entry_as_typed path @ '': '' @ mode_too_wide_text wide)))
      | Inr m \<Rightarrow> local_op OpChmod path (lo_chmod mc root path m) rt)"

definition local_target :: "'w machine \<Rightarrow> string \<Rightarrow> string list \<Rightarrow> 'w target_io" where
  "local_target mc root excl =
     \<lparr>io_inspect = local_inspect mc root,
      io_inspect_paths = (\<lambda>paths rt. all_answered (inspect_one_by_one (local_inspect mc root) paths rt)),
      io_read = (\<lambda>paths limit rt. all_answered (local_each (lo_read mc root limit) paths rt)),
      io_write = (\<lambda>path content. local_op OpWrite path (lo_write mc root path content)),
      io_chmod = local_chmod mc root,
      io_remove = (\<lambda>path. local_op OpRemove path (lo_remove mc root path)),
      io_symlink = (\<lambda>path target. local_op OpCreateSymlink path (lo_symlink mc root path target)),
      io_scan = (\<lambda>request rt. case on_world (lo_scan mc root excl request) rt of
          (rt', r) \<Rightarrow> (rt', into_listing root r (missing_root root))),
      io_hash = (\<lambda>paths rt. all_answered (local_each (lo_hash mc root) paths rt)),
      io_states_before = (\<lambda>_. act_return [])\<rparr>"

text \<open>A side that was stopped: nothing is done, every operation answers that it was not attempted.\<close>

definition refuse :: "stop_key \<Rightarrow> ('w, 'a) act" where
  "refuse key rt = (rt, Inl (case stopped_error_of key rt of Some e \<Rightarrow> e | None \<Rightarrow> run_error_text ''processing was stopped''))"

definition stopped_target :: "stop_key \<Rightarrow> 'w target_io" where
  "stopped_target key =
     \<lparr>io_inspect = (\<lambda>_. refuse key),
      io_inspect_paths = (\<lambda>paths rt. all_answered (inspect_one_by_one (\<lambda>_. refuse key) paths rt)),
      io_read = (\<lambda>_ _. refuse key), io_write = (\<lambda>_ _. refuse key), io_chmod = (\<lambda>_ _. refuse key),
      io_remove = (\<lambda>_. refuse key), io_symlink = (\<lambda>_ _. refuse key), io_scan = (\<lambda>_. refuse key),
      io_hash = (\<lambda>_. refuse key), io_states_before = (\<lambda>_. refuse key)\<rparr>"

end
