(* ===== verification/RootWatch.thy ===== *)
theory RootWatch
  imports Targets
begin

text \<open>
  Watching for a root_dir that is gone (\<open>root_watch.rs\<close>, \<open>root_watch_io.rs\<close>, \<open>root_checked.rs\<close>,
  \<open>target_io.rs\<close>, \<open>side_facts.rs\<close> and \<open>scan_entry.rs\<close> of remote-merge): every target is wrapped so that an
  answer "not found" is followed by a look at root_dir itself, and the side is stopped when that is gone.
\<close>

subsection \<open>The watch\<close>

fun gone_answer :: "run_error + resolved_path \<Rightarrow> bool" where
  "gone_answer (Inr (ResolvedMissing _ _)) = True"
| "gone_answer (Inr (ResolvedAncestorNotDirectory _ _)) = True"
| "gone_answer (Inr (ResolvedExists _ k)) = (k \<noteq> EkDirectory)"
| "gone_answer (Inr (ResolvedSymlink _ _ k)) = (k \<noteq> Some EkDirectory)"
| "gone_answer (Inl e) = is_root_gone_error e"

definition root_is_gone :: "'w target_io \<Rightarrow> 'w runtime \<Rightarrow> 'w runtime \<times> bool" where
  "root_is_gone inner rt = (case io_inspect inner rel_root rt of (rt', r) \<Rightarrow> (rt', gone_answer r))"

record 'w watch =
  wt_key :: stop_key
  wt_shown_root :: string
  wt_inner :: "'w target_io"

definition stop_gone :: "'w watch \<Rightarrow> run_error \<Rightarrow> 'w runtime \<Rightarrow> 'w runtime \<times> run_error" where
  "stop_gone w e rt =
     (let shown = with_shown_root e (wt_shown_root w) in (stop_for_root_gone (wt_key w) shown rt, shown))"

definition watch_settle :: "'w watch \<Rightarrow> run_error \<Rightarrow> 'w runtime \<Rightarrow> 'w runtime \<times> run_error" where
  "watch_settle w e rt =
     (case op_error_of e of
        None \<Rightarrow> (rt, e)
      | Some oe \<Rightarrow>
          if oe_failure oe = RootGone then stop_gone w e rt
          else if oe_failure oe = NotFound \<or> oe_failure oe = NotADirectory then
            (case root_is_gone (wt_inner w) rt of
               (rt', True) \<Rightarrow> stop_gone w (op_run_error (oe_operation oe) (oe_path oe) RootGone) rt'
             | (rt', False) \<Rightarrow> (rt', e))
          else (rt, e))"

definition watch_result :: "'w watch \<Rightarrow> ('w, 'a) act \<Rightarrow> ('w, 'a) act" where
  "watch_result w a rt =
     (case a rt of
        (rt', Inr x) \<Rightarrow> (rt', Inr x)
      | (rt', Inl e) \<Rightarrow> (case watch_settle w e rt' of (rt'', e') \<Rightarrow> (rt'', Inl e')))"

fun missing_failure :: "operation \<Rightarrow> string \<times> (op_failure + 'a) \<Rightarrow> op_error option" where
  "missing_failure operation (path, Inl NotFound) = Some (op_error_new operation path NotFound)"
| "missing_failure operation (path, Inl NotADirectory) = Some (op_error_new operation path NotADirectory)"
| "missing_failure operation _ = None"

definition watch_entries :: "'w watch \<Rightarrow> operation \<Rightarrow> ('w, 'a by_path) act \<Rightarrow> ('w, 'a by_path) act" where
  "watch_entries w operation a rt =
     (case watch_result w a rt of
        (rt', Inl e) \<Rightarrow> (rt', Inl e)
      | (rt', Inr results) \<Rightarrow>
          (case find_map (missing_failure operation) results of
             None \<Rightarrow> (rt', Inr results)
           | Some oe \<Rightarrow>
               (case watch_settle w [CauseOp oe] rt' of
                  (rt'', settled) \<Rightarrow>
                    (rt'', if map_of (rn_stopped rt'') (wt_key w) \<noteq> None then Inl settled else Inr results))))"

definition unusual :: "rel_path \<Rightarrow> resolved_path \<Rightarrow> bool" where
  "unusual path resolved =
     (if rel_is_root path then False
      else
        (case resolved of
           ResolvedMissing _ parent_exists \<Rightarrow>
             \<not> parent_exists \<and> CHR ''/'' \<notin> set (trim_end_matches CHR ''/'' (rel_as_str path))
         | ResolvedAncestorNotDirectory _ _ \<Rightarrow> True
         | _ \<Rightarrow> False))"

definition gone_read :: "rel_path \<Rightarrow> run_error" where
  "gone_read path = op_run_error OpRead (rel_as_str path) RootGone"

definition watch_inspect :: "'w watch \<Rightarrow> rel_path \<Rightarrow> ('w, resolved_path) act" where
  "watch_inspect w path =
     act_bind (io_inspect (wt_inner w) path) (\<lambda>resolved rt.
       if \<not> unusual path resolved then (rt, Inr resolved)
       else
         (case root_is_gone (wt_inner w) rt of
            (rt', False) \<Rightarrow> (rt', Inr resolved)
          | (rt', True) \<Rightarrow> (case watch_settle w (gone_read path) rt' of (rt'', e) \<Rightarrow> (rt'', Inl e))))"

definition first_unusual :: "rel_path list \<Rightarrow> (run_error + resolved_path) list \<Rightarrow> rel_path option" where
  "first_unusual paths answered =
     find_map (\<lambda>(path, answer). case answer of Inr r \<Rightarrow> if unusual path r then Some path else None | Inl _ \<Rightarrow> None)
       (zip paths answered)"

definition watch_inspect_paths :: "'w watch \<Rightarrow> rel_path list \<Rightarrow> ('w, (run_error + resolved_path) list) act" where
  "watch_inspect_paths w paths =
     act_bind (io_inspect_paths (wt_inner w) paths) (\<lambda>answered rt.
       case first_unusual paths answered of
         None \<Rightarrow> (rt, Inr answered)
       | Some path \<Rightarrow>
           if list_ex rel_is_root paths then (rt, Inr answered)
           else
             (case root_is_gone (wt_inner w) rt of
                (rt', False) \<Rightarrow> (rt', Inr answered)
              | (rt', True) \<Rightarrow> (case watch_settle w (gone_read path) rt' of (rt'', e) \<Rightarrow> (rt'', Inl e))))"

definition watch_scan :: "'w watch \<Rightarrow> scan_request \<Rightarrow> ('w, listing) act" where
  "watch_scan w request rt =
     (case io_scan (wt_inner w) request rt of
        (rt', Inr l) \<Rightarrow> (rt', Inr l)
      | (rt', Inl e) \<Rightarrow>
          (if scan_failure_of scan_failure_carried e = Some RootChanged
           then stop_for_root_gone (wt_key w) e rt' else rt', Inl e))"

definition root_watch :: "'w watch \<Rightarrow> 'w target_io" where
  "root_watch w =
     \<lparr>io_inspect = watch_inspect w,
      io_inspect_paths = watch_inspect_paths w,
      io_read = (\<lambda>paths limit. watch_entries w OpRead (io_read (wt_inner w) paths limit)),
      io_write = (\<lambda>path content. watch_result w (io_write (wt_inner w) path content)),
      io_chmod = (\<lambda>path mode. watch_result w (io_chmod (wt_inner w) path mode)),
      io_remove = (\<lambda>path. watch_result w (io_remove (wt_inner w) path)),
      io_symlink = (\<lambda>path target. watch_result w (io_symlink (wt_inner w) path target)),
      io_scan = watch_scan w,
      io_hash = (\<lambda>paths. watch_entries w OpHash (io_hash (wt_inner w) paths)),
      io_states_before = io_states_before (wt_inner w)\<rparr>"

subsection \<open>The target of a side\<close>

definition shown_root_of :: "side \<Rightarrow> 'w runtime \<Rightarrow> string" where
  "shown_root_of side rt =
     (case side of
        LocalSide \<Rightarrow> cf_local_root (rn_config rt)
      | RemoteSide name \<Rightarrow>
          (case rn_overrides rt name of
             Some root \<Rightarrow> root
           | None \<Rightarrow>
               (case server_config_of name rt of
                  Inr server \<Rightarrow> remote_shown_root name (sv_root_dir server)
                | Inl _ \<Rightarrow> name)))"

definition inner_target :: "'w machine \<Rightarrow> side \<Rightarrow> 'w runtime \<Rightarrow> 'w target_io" where
  "inner_target mc side rt =
     (case side of
        LocalSide \<Rightarrow> local_target mc (cf_local_root (rn_config rt)) (fc_exclude (cf_filter (rn_config rt)))
      | RemoteSide name \<Rightarrow>
          (case rn_overrides rt name of
             Some root \<Rightarrow> local_target mc root (fc_exclude (cf_filter (rn_config rt)))
           | None \<Rightarrow> remote_target mc name))"

definition for_side :: "'w machine \<Rightarrow> side \<Rightarrow> 'w runtime \<Rightarrow> 'w target_io" where
  "for_side mc side rt =
     (let key = stop_key_of side in
      if map_of (rn_stopped rt) key \<noteq> None then stopped_target key
      else root_watch \<lparr>wt_key = key, wt_shown_root = shown_root_of side rt, wt_inner = inner_target mc side rt\<rparr>)"

definition side_scan :: "'w machine \<Rightarrow> side \<Rightarrow> scan_request \<Rightarrow> ('w, listing) act" where
  "side_scan mc side request rt = io_scan (for_side mc side rt) request rt"

definition side_read :: "'w machine \<Rightarrow> side \<Rightarrow> entry_path list \<Rightarrow> size_limit \<Rightarrow> ('w, bytes by_path) act" where
  "side_read mc side paths limit rt = io_read (for_side mc side rt) paths limit rt"

definition side_hash :: "'w machine \<Rightarrow> side \<Rightarrow> entry_path list \<Rightarrow> ('w, string by_path) act" where
  "side_hash mc side paths rt = io_hash (for_side mc side rt) paths rt"

subsection \<open>Asking for root_dir and paths together\<close>

text \<open>\<open>DistinctPaths\<close>: a path is asked once, and found again by its position.\<close>

fun index_of :: "'a \<Rightarrow> 'a list \<Rightarrow> nat option" where
  "index_of x [] = None"
| "index_of x (y # ys) = (if x = y then Some 0 else map_option Suc (index_of x ys))"

definition distinct_add :: "rel_path \<Rightarrow> rel_path list \<Rightarrow> rel_path list \<times> nat" where
  "distinct_add path paths =
     (case index_of path paths of Some at \<Rightarrow> (paths, at) | None \<Rightarrow> (paths @ [path], length paths))"

datatype root_absent = GoneAfterScan | MissingAtStart

record under_root =
  ur_root :: string
  ur_answers :: "(run_error + resolved_path) list"

definition root_gone_after_scan :: "side \<Rightarrow> 'w runtime \<Rightarrow> 'w runtime \<times> run_error" where
  "root_gone_after_scan side rt =
     (let e = [CausePrefixed (show_op_failure RootGone @ '': '' @ shown_root_of side rt)
                 (op_error_new OpRead [] RootGone)]
      in (stop_for_root_gone (stop_key_of side) e rt, e))"

definition root_missing_error :: "side \<Rightarrow> 'w runtime \<Rightarrow> run_error" where
  "root_missing_error side rt =
     (let shown =
        (case side of
           RemoteSide name \<Rightarrow>
             if rn_overrides rt name = None then
               (case server_config_of name rt of
                  Inr server \<Rightarrow> remote_root_missing name (sv_root_dir server)
                | Inl e \<Rightarrow> e)
             else missing_root (shown_root_of side rt)
         | LocalSide \<Rightarrow> missing_root (shown_root_of side rt))
      in [CauseOther (RcScanStopped RootMissing (show_error shown))])"

fun directory_real_path :: "resolved_path \<Rightarrow> string option" where
  "directory_real_path (ResolvedExists real EkDirectory) = Some real"
| "directory_real_path (ResolvedSymlink _ real (Some EkDirectory)) = Some real"
| "directory_real_path _ = None"

definition inspect_under_root :: "'w machine \<Rightarrow> side \<Rightarrow> rel_path list \<Rightarrow> root_absent \<Rightarrow> ('w, under_root) act" where
  "inspect_under_root mc side paths absent rt =
     (case io_inspect_paths (for_side mc side rt) (rel_root # paths) rt of
        (rt', Inl e) \<Rightarrow> (rt', Inl e)
      | (rt', Inr answered) \<Rightarrow>
          (let root_absent =
             (case absent of
                GoneAfterScan \<Rightarrow> (case root_gone_after_scan side rt' of (rt'', e) \<Rightarrow> (rt'', Inl e))
              | MissingAtStart \<Rightarrow> (rt', Inl (root_missing_error side rt')))
           in
           case answered of
             [] \<Rightarrow> root_absent
           | Inl e # answers \<Rightarrow> if \<not> is_root_gone_error e then (rt', Inl e) else root_absent
           | Inr r # answers \<Rightarrow>
               (case directory_real_path r of
                  None \<Rightarrow> root_absent
                | Some root \<Rightarrow>
                    if length answers \<noteq> length paths then
                      (rt', Inl (run_error_text ''the paths were not all answered''))
                    else (rt', Inr \<lparr>ur_root = root, ur_answers = answers\<rparr>))))"

definition root_gone_before_changes :: "side \<Rightarrow> string list \<Rightarrow> string \<Rightarrow> string \<Rightarrow> 'w runtime \<Rightarrow> string list option" where
  "root_gone_before_changes side paths found front rt =
     (if \<not> stopped_for_root_gone side rt then None
      else
        map_option (\<lambda>untouched.
            let gone = front @ show_error (with_shown_root (op_run_error OpRead found RootGone) (shown_root_of side rt))
            in map (\<lambda>path. if path = found then gone else show_error untouched) paths)
          (stopped_error_for side rt))"

subsection \<open>The include values of a side\<close>

definition label_answer :: "run_error + 'a \<Rightarrow> run_error + 'a" where
  "label_answer = res_map_err label_read"

definition rel_path_run_error :: "rel_path_error \<Rightarrow> run_error" where
  "rel_path_run_error e = run_error_text (show_rel_path_error e)"

fun keep_include :: "string \<Rightarrow> string list \<Rightarrow> (run_error + resolved_path) list \<Rightarrow> run_error + string list" where
  "keep_include root [] answers = Inr []"
| "keep_include root (v # vs) [] = Inl (run_error_text ''the include values were not all answered'')"
| "keep_include root (v # vs) (a # answers) =
     res_bind (label_answer a) (\<lambda>resolved.
     res_bind (res_map_err (\<lambda>e. [CauseOther (RcResolve e)]) (decide_value resolved root)) (\<lambda>decision.
     res_bind (keep_include root vs answers) (\<lambda>kept.
       Inr (case value_warning decision v of Some _ \<Rightarrow> kept | None \<Rightarrow> v # kept))))"

definition check_include :: "'w machine \<Rightarrow> side \<Rightarrow> ('w, string list option) act" where
  "check_include mc side rt =
     (let include_values = fc_include (cf_filter (rn_config rt)) in
      if include_values = [] then (rt, Inr None)
      else
        (case res_collect rel_parse ([] # include_values) of
           Inl e \<Rightarrow> (rt, Inl (rel_path_run_error e))
         | Inr asked \<Rightarrow>
             (case io_inspect_paths (for_side mc side rt) asked rt of
                (rt', Inl e) \<Rightarrow> (rt', Inl (label_read e))
              | (rt', Inr []) \<Rightarrow> (rt', Inl (run_error_text ''the include values were not all answered''))
              | (rt', Inr (Inl e # answers)) \<Rightarrow>
                  if is_root_gone_error e then (rt', Inr (Some [])) else (rt', Inl (label_read e))
              | (rt', Inr (Inr r # answers)) \<Rightarrow>
                  (case directory_real_path r of
                     None \<Rightarrow> (rt', Inr (Some []))
                   | Some root \<Rightarrow> (rt', res_bind (keep_include root include_values answers) (\<lambda>kept. Inr (Some kept)))))))"

definition checked_include :: "'w machine \<Rightarrow> side \<Rightarrow> ('w, string list option) act" where
  "checked_include mc side rt =
     (case map_of (rn_checked_include rt) side of
        Some kept \<Rightarrow> (rt, Inr kept)
      | None \<Rightarrow>
          (case check_include mc side rt of
             (rt', Inl e) \<Rightarrow> (rt', Inl e)
           | (rt', Inr kept) \<Rightarrow> (rt'\<lparr>rn_checked_include := (side, kept) # rn_checked_include rt'\<rparr>, Inr kept)))"

end
