(* ===== verification/Confirm.thy ===== *)
theory Confirm
  imports RootWatch
begin

text \<open>
  Confirming a change after the connection was lost (\<open>confirm.rs\<close> of remote-merge), and the check before a
  change (\<open>compare_checks.rs\<close>, \<open>merge_recheck.rs\<close>). A change is never repeated: the destination is read
  once, after one reconnection. \<open>expect\<close> on an answer that is missing panics; a step that may panic
  answers an option.
\<close>

type_synonym ('w, 'a) panicking = "'w runtime \<Rightarrow> 'w runtime \<times> (run_error + 'a) option"

subsection \<open>Confirming\<close>

text \<open>\<open>downcast\<close> sees the outermost error that is not only words put around another.\<close>

definition outermost :: "run_error \<Rightarrow> run_error" where
  "outermost e = dropWhile (\<lambda>c. case c of CauseOther (RcText _) \<Rightarrow> True | _ \<Rightarrow> False) e"

definition with_backup :: "string option \<Rightarrow> run_error \<Rightarrow> run_error" where
  "with_backup backup e =
     (case backup of
        None \<Rightarrow> e
      | Some b \<Rightarrow>
          (case outermost e of
             CauseOther (RcConfirmed outcome message) # _ \<Rightarrow>
               if outcome = Some Partial
               then [CauseOther (RcConfirmed outcome (message @ ''; backup: '' @ b))]
               else [CauseOther (RcConfirmed outcome message)]
           | _ \<Rightarrow> e))"

definition read_after_loss :: "'w machine \<Rightarrow> string \<Rightarrow> entry_path \<Rightarrow> ('w, bytes) panicking" where
  "read_after_loss mc name path rt =
     (case remotely name (agent_read_entries mc name [path] Unlimited) rt of
        (rt', Inl e) \<Rightarrow> (rt', Some (Inl e))
      | (rt', Inr answers) \<Rightarrow>
          (rt',
           if answers = [] then None
           else Some (res_map_err (op_run_error OpRead (entry_as_typed path)) (snd (last answers)))))"

definition observe_entry :: "'w machine \<Rightarrow> string \<Rightarrow> entry_path \<Rightarrow> bool \<Rightarrow> ('w, seen) panicking" where
  "observe_entry mc name path with_content rt =
     (case remotely name (agent_inspect mc name (ep_rel path)) rt of
        (rt', Inl e) \<Rightarrow> (rt', Some (Inl e))
      | (rt', Inr (ResolvedMissing _ _)) \<Rightarrow> (rt', Some (Inr SeenAbsent))
      | (rt', Inr (ResolvedAncestorNotDirectory _ _)) \<Rightarrow> (rt', Some (Inr SeenAbsent))
      | (rt', Inr (ResolvedSymlink link _ _)) \<Rightarrow> (rt', Some (Inr (SeenLink link)))
      | (rt', Inr (ResolvedExists _ _)) \<Rightarrow>
          if with_content then
            (case read_after_loss mc name path rt' of
               (rt'', r) \<Rightarrow> (rt'', map_option (\<lambda>x. res_bind x (\<lambda>c. Inr (SeenFile c))) r))
          else (rt', Some (Inr (SeenFile []))))"

definition usize_max :: nat where
  "usize_max = 2 ^ 64 - 1"

definition observe_mode :: "'w machine \<Rightarrow> string \<Rightarrow> entry_path \<Rightarrow> ('w, seen) act" where
  "observe_mode mc name path =
     act_map (\<lambda>listed. case listed of
          Children entries \<Rightarrow> Inr (mode_in_listing entries (entry_as_str path))
        | ChildrenNotDirectory \<Rightarrow> Inr SeenAbsent
        | Unlistable reason \<Rightarrow> Inl (run_error_text reason))
       (remotely name (agent_list_children mc name (fst (entry_parent_and_name path)) [] usize_max))"

definition observe_after_loss :: "'w machine \<Rightarrow> string \<Rightarrow> entry_path \<Rightarrow> change \<Rightarrow> ('w, seen) panicking" where
  "observe_after_loss mc name path change rt =
     (case reconnect_route mc name rt of
        (rt', Inl e) \<Rightarrow> (rt', Some (Inl e))
      | (rt', Inr _) \<Rightarrow>
          (case change of
             ChChmod _ \<Rightarrow> (case observe_mode mc name path rt' of (rt'', r) \<Rightarrow> (rt'', Some r))
           | ChWrite _ _ \<Rightarrow> observe_entry mc name path True rt'
           | _ \<Rightarrow> observe_entry mc name path False rt'))"

definition settle_change ::
  "(bytes \<Rightarrow> string) \<Rightarrow> 'w machine \<Rightarrow> side \<Rightarrow> entry_path \<Rightarrow> change \<Rightarrow> run_error + unit \<Rightarrow> ('w, unit) panicking" where
  "settle_change hex mc side path change changed rt =
     (case changed of
        Inr _ \<Rightarrow> (rt, Some (Inr ()))
      | Inl e \<Rightarrow>
          (case server_name side of
             None \<Rightarrow> (rt, Some (Inl e))
           | Some name \<Rightarrow>
               if \<not> is_lost_error e then (rt, Some (Inl e))
               else
                 (case observe_after_loss mc name path change rt of
                    (rt', None) \<Rightarrow> (rt', None)
                  | (rt', Some (Inl reason)) \<Rightarrow>
                      (rt', Some (Inl [CauseOther (RcConfirmed None
                                 (describe_unconfirmed (show_error e) (show_error reason)))]))
                  | (rt', Some (Inr observed)) \<Rightarrow>
                      (let outcome = judge hex change observed in
                       if outcome = Done then (rt', Some (Inr ()))
                       else
                         (rt', Some (Inl [CauseOther (RcConfirmed (Some outcome)
                                    (describe change outcome observed (show_error e)))]))))))"

subsection \<open>The check before a change\<close>

definition stop_if_root_gone :: "side \<Rightarrow> run_error \<Rightarrow> 'w runtime \<Rightarrow> 'w runtime \<times> run_error" where
  "stop_if_root_gone side e rt =
     (if failure_of e \<noteq> Some RootGone then (rt, e)
      else
        (let shown = with_shown_root e (shown_root_of side rt) in
         (stop_for_root_gone (stop_key_of side) shown rt, shown)))"

definition no_hash_answered :: "entry_path \<Rightarrow> run_error" where
  "no_hash_answered path =
     op_run_error OpHash (entry_as_typed path) (Disconnected (NoAnswer ''no hash was answered''))"

definition observe_listed ::
  "'w machine \<Rightarrow> side \<Rightarrow> role \<Rightarrow> entry_path \<Rightarrow> listing \<Rightarrow> ('w, side_failure + observed) act" where
  "observe_listed mc side r path l rt =
     (case relisted_of (map_option le_kind (find (\<lambda>e. le_path e = entry_as_str path) (ls_entries l))) of
        RlDecided ob \<Rightarrow> (rt, Inr (Inr ob))
      | RlFile \<Rightarrow>
          (case side_hash mc side [path] rt of
             (rt', Inl e) \<Rightarrow> (rt', Inl e)
           | (rt', Inr hashed) \<Rightarrow>
               (case find (\<lambda>(key, _). key = entry_as_typed path) hashed of
                  Some (_, Inr hash) \<Rightarrow> (rt', Inr (Inr (ObFile hash)))
                | Some (_, Inl f) \<Rightarrow> (rt', Inr (Inl \<lparr>sf_role = r, sf_failure = f\<rparr>))
                | None \<Rightarrow> (rt', Inl (no_hash_answered path)))))"

definition is_start_blocked :: "run_error \<Rightarrow> bool" where
  "is_start_blocked e =
     (case outermost e of CauseOther (RcScan (StartBlocked _)) # _ \<Rightarrow> True | _ \<Rightarrow> False)"

definition recheck_before_change ::
  "'w machine \<Rightarrow> side \<Rightarrow> role \<Rightarrow> entry_path \<Rightarrow> observed \<Rightarrow> ('w, change_check) act" where
  "recheck_before_change mc side r path compared rt =
     (let request = \<lparr>sr_scope = ScopeStarts [start_itself (entry_as_str path) 0],
                     sr_max_entries = cf_max_scan_entries (rn_config rt)\<rparr>;
          decide = (\<lambda>now rt'.
            case check_before_change compared now of
              Inr c \<Rightarrow> (rt', Inr c)
            | Inl failed \<Rightarrow>
                (case stop_if_root_gone side (op_run_error OpHash (entry_as_typed path) (sf_failure failed)) rt' of
                   (rt'', e) \<Rightarrow> (rt'', Inl e)))
      in
      case side_scan mc side request rt of
        (rt', Inr l) \<Rightarrow>
          (case observe_listed mc side r path l rt' of
             (rt'', Inl e) \<Rightarrow> (rt'', Inl e)
           | (rt'', Inr now) \<Rightarrow> decide now rt'')
      | (rt', Inl e) \<Rightarrow>
          if is_lost_failure (classify e) then (rt', Inl e)
          else if is_start_blocked e then decide (Inr ObAbsent) rt'
          else
            decide (Inl \<lparr>sf_role = r,
                         sf_failure = (case failure_of_scan_error scan_failure_carried e of
                             Some f \<Rightarrow> f | None \<Rightarrow> Io (show_error e))\<rparr>) rt')"

end
