(* ===== verification/MergeApply.thy ===== *)
theory MergeApply
  imports Confirm Merge
begin

unbundle bit_operations_syntax

text \<open>
  Changing the destination of a merge (\<open>merge_apply.rs\<close>, \<open>merge_inspect.rs\<close>, \<open>merge_change.rs\<close>,
  \<open>merge_recheck.rs\<close> and \<open>merge_permissions.rs\<close> of remote-merge, \<open>treat/merge_permissions.rs\<close> of
  remote-merge-engine): every path is looked at first, all together, then its destination is checked to
  be as it was compared, backed up, changed and given its permissions. A step that may panic answers an
  option.
\<close>

subsection \<open>Data\<close>

datatype change_kind = CkWriteFile | CkWriteLink | CkDelete

record planned_change =
  pc_path :: string
  pc_comparison :: path_comparison
  pc_kind :: change_kind
  pc_content :: "bytes option"

record apply_options =
  ao_dry_run :: bool
  ao_session :: "string option"
  ao_with_permissions :: bool
  ao_content_limit :: size_limit

datatype applied =
    AppliedDone "string option"
  | AppliedPlanned
  | AppliedFailed string
  | AppliedFailedAfterChange string

definition changed_since_compared_text :: string where
  "changed_since_compared_text = ''destination changed since it was compared''"

definition right_state :: "path_comparison \<Rightarrow> side_state option" where
  "right_state c = pst_states (cmp_states c) RoleRight"

fun is_file :: "side_state option \<Rightarrow> bool" where
  "is_file (Some (SsFile _ _)) = True"
| "is_file _ = False"

fun is_symlink :: "side_state option \<Rightarrow> bool" where
  "is_symlink (Some (SsSymlink _ _)) = True"
| "is_symlink _ = False"

subsection \<open>Looking at the destinations\<close>

record inspected =
  in_entry :: resolved_path
  in_parent :: "string + resolved_path"
  in_missing_ancestors :: "entry_path list"

definition destination_absent :: "path_comparison \<Rightarrow> bool" where
  "destination_absent c = (right_state c = Some SsAbsent)"

record asked_change =
  aq_entry :: nat
  aq_parent :: nat
  aq_ancestors :: "(entry_path \<times> nat) list"

fun ask_ancestors :: "entry_path list \<Rightarrow> rel_path list \<Rightarrow> rel_path list \<times> (entry_path \<times> nat) list" where
  "ask_ancestors [] asked = (asked, [])"
| "ask_ancestors (a # as) asked =
     (case distinct_add (ep_rel a) asked of
        (asked', at) \<Rightarrow> (case ask_ancestors as asked' of (asked'', rest) \<Rightarrow> (asked'', (a, at) # rest)))"

definition ask_change :: "planned_change \<Rightarrow> rel_path list \<Rightarrow> rel_path_error + rel_path list \<times> asked_change" where
  "ask_change c asked =
     res_bind (entry_parse (pc_path c)) (\<lambda>entry.
       case distinct_add (ep_rel entry) asked of
         (asked1, at_entry) \<Rightarrow>
           (case distinct_add (fst (entry_parent_and_name entry)) asked1 of
              (asked2, at_parent) \<Rightarrow>
                (case (if destination_absent (pc_comparison c) then ask_ancestors (parent_entries entry) asked2 else (asked2, [])) of
                   (asked3, above_asked) \<Rightarrow>
                     Inr (asked3, \<lparr>aq_entry = at_entry, aq_parent = at_parent, aq_ancestors = above_asked\<rparr>))))"

fun ask_changes :: "planned_change list \<Rightarrow> rel_path list \<Rightarrow> rel_path_error + rel_path list \<times> asked_change list" where
  "ask_changes [] asked = Inr (asked, [])"
| "ask_changes (c # cs) asked =
     res_bind (ask_change c asked) (\<lambda>(asked', q).
     res_bind (ask_changes cs asked') (\<lambda>(asked'', qs). Inr (asked'', q # qs)))"

text \<open>An index behind the answers would panic; \<open>None\<close> here.\<close>

definition inspected_of :: "(string + resolved_path) list \<Rightarrow> asked_change \<Rightarrow> (string + inspected) option" where
  "inspected_of answers q =
     (if list_ex (\<lambda>(_, at). length answers \<le> at) (aq_ancestors q) then None
      else
        (let missing = map fst
             (filter (\<lambda>(_, at). case nth_opt answers at of Some (Inr (ResolvedMissing _ _)) \<Rightarrow> True | _ \<Rightarrow> False)
               (aq_ancestors q))
         in
         case nth_opt answers (aq_entry q) of
           None \<Rightarrow> None
         | Some (Inl e) \<Rightarrow> Some (Inl e)
         | Some (Inr e) \<Rightarrow>
             map_option (\<lambda>parent. Inr \<lparr>in_entry = e, in_parent = parent, in_missing_ancestors = missing\<rparr>)
               (nth_opt answers (aq_parent q))))"

fun opt_all :: "('a \<Rightarrow> 'b option) \<Rightarrow> 'a list \<Rightarrow> 'b list option" where
  "opt_all f [] = Some []"
| "opt_all f (x # xs) = Option.bind (f x) (\<lambda>y. map_option ((#) y) (opt_all f xs))"

definition inspect_destinations ::
  "'w machine \<Rightarrow> side \<Rightarrow> planned_change list \<Rightarrow> ('w, (string + inspected) list) panicking" where
  "inspect_destinations mc target changes rt =
     (case ask_changes changes [] of
        Inl e \<Rightarrow> (rt, Some (Inl (rel_path_run_error e)))
      | Inr (asked, layout) \<Rightarrow>
          (case inspect_under_root mc target asked GoneAfterScan rt of
             (rt', Inl e) \<Rightarrow> (rt', Some (Inl e))
           | (rt', Inr u) \<Rightarrow>
               (let answers = map (res_map_err show_error) (ur_answers u) in
                (rt', map_option Inr (opt_all (inspected_of answers) layout)))))"

subsection \<open>The contents to back up\<close>

definition backed_up_paths :: "planned_change list \<Rightarrow> apply_options \<Rightarrow> rel_path_error + entry_path list" where
  "backed_up_paths changes opts =
     (if ao_session opts = None \<or> ao_dry_run opts then Inr []
      else
        res_collect (\<lambda>c. entry_parse (pc_path c))
          (filter (\<lambda>c. pc_kind c \<noteq> CkWriteLink \<and> is_file (right_state (pc_comparison c))) changes))"

definition read_backup_contents ::
  "'w machine \<Rightarrow> side \<Rightarrow> entry_path list \<Rightarrow> apply_options \<Rightarrow> ('w, bytes by_path) act" where
  "read_backup_contents mc target paths opts rt =
     (if paths = [] then (rt, Inr [])
      else
        (case io_read (for_side mc target rt) paths (ao_content_limit opts) rt of
           (rt', r) \<Rightarrow> (rt', res_bind r (\<lambda>answers. Inr (bt_of answers)))))"

subsection \<open>Backing up\<close>

definition link_target_of :: "path_comparison \<Rightarrow> role \<Rightarrow> run_error + string" where
  "link_target_of c r =
     (case pst_states (cmp_states c) r of
        Some (SsSymlink target _) \<Rightarrow>
          if is_utf8 target then Inr target else Inl (run_error_text source_link_not_utf8)
      | _ \<Rightarrow> Inl (run_error_text ''the source is no longer a symlink''))"

definition back_up_file ::
  "'w machine \<Rightarrow> side \<Rightarrow> planned_change \<Rightarrow> inspected \<Rightarrow> (op_failure + bytes) option \<Rightarrow> string \<Rightarrow> ('w, string option) act" where
  "back_up_file mc target c ins content session rt =
     (case in_entry ins of
        ResolvedExists real _ \<Rightarrow>
          (case content of
             Some (Inr bs) \<Rightarrow>
               (case on_world (bk_save_file mc target session (pc_path c) real bs) rt of
                  (rt', r) \<Rightarrow> (rt', res_bind r (\<lambda>saved. Inr (Some saved))))
           | Some (Inl f) \<Rightarrow> (rt, Inl (run_error_text (show_op_failure f)))
           | None \<Rightarrow> (rt, Inl (run_error_text ''the destination content was not read'')))
      | _ \<Rightarrow> (rt, Inl (run_error_text ''the destination is no longer a regular file'')))"

fun real_parent_of :: "string + resolved_path \<Rightarrow> run_error + string" where
  "real_parent_of (Inr (ResolvedExists real _)) = Inr real"
| "real_parent_of (Inr (ResolvedSymlink _ real _)) = Inr real"
| "real_parent_of (Inr _) = Inl (run_error_text ''the parent directory of the destination is gone'')"
| "real_parent_of (Inl e) = Inl (run_error_text e)"

definition back_up_link ::
  "'w machine \<Rightarrow> side \<Rightarrow> planned_change \<Rightarrow> inspected \<Rightarrow> string \<Rightarrow> ('w, string option) act" where
  "back_up_link mc target c ins session rt =
     (case in_entry ins of
        ResolvedSymlink link _ _ \<Rightarrow>
          (case res_bind (real_parent_of (in_parent ins)) (\<lambda>parent.
                res_bind (link_target_of (pc_comparison c) RoleLeft) (\<lambda>new. Inr (new, parent))) of
             Inl e \<Rightarrow> (rt, Inl e)
           | Inr expected \<Rightarrow>
               (case on_world (bk_save_symlink mc target session (pc_path c) link (Some expected)) rt of
                  (rt', r) \<Rightarrow> (rt', res_bind r (\<lambda>saved. Inr (Some saved)))))
      | _ \<Rightarrow> (rt, Inl (run_error_text ''the destination is no longer a symlink'')))"

definition back_up_destination ::
  "'w machine \<Rightarrow> side \<Rightarrow> planned_change \<Rightarrow> inspected \<Rightarrow> (op_failure + bytes) option \<Rightarrow> string \<Rightarrow> ('w, string option) act" where
  "back_up_destination mc target c ins content session =
     (if is_file (right_state (pc_comparison c)) then back_up_file mc target c ins content session
      else if is_symlink (right_state (pc_comparison c)) then back_up_link mc target c ins session
      else act_return None)"

text \<open>What is known of the destination before it is written.\<close>

definition before_writing :: "path_comparison \<Rightarrow> bytes option \<Rightarrow> before" where
  "before_writing c content =
     (case (right_state c, content, cmp_hashes c RoleRight) of
        (Some SsAbsent, _, _) \<Rightarrow> BfAbsent
      | (_, Some bs, _) \<Rightarrow> BfContent bs
      | (_, None, Some (Inr hash)) \<Rightarrow> BfHash hash
      | _ \<Rightarrow> BfUnknown)"

subsection \<open>Changing the destination\<close>

definition old_link_removed :: string where
  "old_link_removed = ''the old symlink was removed, but the new symlink not created''"

definition after_change :: "run_error \<Rightarrow> run_error" where
  "after_change e = [CauseOther (RcAfterChange (old_link_removed @ '': '' @ show_error e))]"

definition settled ::
  "(bytes \<Rightarrow> string) \<Rightarrow> 'w machine \<Rightarrow> side \<Rightarrow> entry_path \<Rightarrow> change \<Rightarrow> ('w, unit) act \<Rightarrow> ('w, unit) panicking" where
  "settled hex mc target path change operation rt =
     (case operation rt of (rt', changed) \<Rightarrow> settle_change hex mc target path change changed rt')"

definition create_link ::
  "(bytes \<Rightarrow> string) \<Rightarrow> 'w machine \<Rightarrow> side \<Rightarrow> entry_path \<Rightarrow> string \<Rightarrow> bool \<Rightarrow> ('w, unit) panicking" where
  "create_link hex mc target path link replaces rt =
     (case settled hex mc target path (ChSymlink link) (io_symlink (for_side mc target rt) path link) rt of
        (rt', Some (Inl e)) \<Rightarrow> (rt', Some (Inl (if replaces then after_change e else e)))
      | r \<Rightarrow> r)"

definition create_or_replace_symlink ::
  "(bytes \<Rightarrow> string) \<Rightarrow> 'w machine \<Rightarrow> side \<Rightarrow> entry_path \<Rightarrow> string \<Rightarrow> bool \<Rightarrow> ('w, unit) panicking" where
  "create_or_replace_symlink hex mc target path link replaces rt =
     (if \<not> replaces then create_link hex mc target path link False rt
      else
        (case settled hex mc target path ChRemove (io_remove (for_side mc target rt) path) rt of
           (rt', Some (Inr _)) \<Rightarrow>
             (case stopped_error_for target rt' of
                Some e \<Rightarrow> (rt', Some (Inl (after_change e)))
              | None \<Rightarrow> create_link hex mc target path link True rt')
         | r \<Rightarrow> r))"

definition written_content :: "planned_change \<Rightarrow> run_error + bytes" where
  "written_content c =
     (case (pc_content c, cmp_contents (pc_comparison c) RoleLeft) of
        (Some bs, _) \<Rightarrow> Inr bs
      | (None, Some (Inr bs)) \<Rightarrow> Inr bs
      | (None, Some (Inl f)) \<Rightarrow> Inl (run_error_text (show_op_failure f))
      | (None, None) \<Rightarrow> Inl (run_error_text ''the source content was not read''))"

definition change_destination ::
  "(bytes \<Rightarrow> string) \<Rightarrow> 'w machine \<Rightarrow> side \<Rightarrow> entry_path \<Rightarrow> planned_change \<Rightarrow> bytes option \<Rightarrow> ('w, unit) panicking" where
  "change_destination hex mc target path c before_content rt =
     (case pc_kind c of
        CkWriteFile \<Rightarrow>
          (case written_content c of
             Inl e \<Rightarrow> (rt, Some (Inl e))
           | Inr content \<Rightarrow>
               settled hex mc target path (ChWrite (before_writing (pc_comparison c) before_content) content)
                 (io_write (for_side mc target rt) path content) rt)
      | CkWriteLink \<Rightarrow>
          (case link_target_of (pc_comparison c) RoleLeft of
             Inl e \<Rightarrow> (rt, Some (Inl e))
           | Inr link \<Rightarrow>
               create_or_replace_symlink hex mc target path link (is_symlink (right_state (pc_comparison c))) rt)
      | CkDelete \<Rightarrow> settled hex mc target path ChRemove (io_remove (for_side mc target rt) path) rt)"

subsection \<open>The check just before the change\<close>

fun why_not_observed :: "not_observed \<Rightarrow> string" where
  "why_not_observed NotCollected = ''the destination was not compared''"
| "why_not_observed NotHashed = ''the destination content was not hashed when it was compared''"
| "why_not_observed NameUnreadable = ''the destination name is not valid UTF-8''"

definition changed_since_compared ::
  "'w machine \<Rightarrow> side \<Rightarrow> entry_path \<Rightarrow> path_comparison \<Rightarrow> 'w runtime \<Rightarrow> 'w runtime \<times> applied option" where
  "changed_since_compared mc target path c rt =
     (case comparison_observed c RoleRight of
        Inl why \<Rightarrow> (rt, Some (AppliedFailed (why_not_observed why)))
      | Inr compared \<Rightarrow>
          (case recheck_before_change mc target RoleRight path compared rt of
             (rt', Inr Unchanged) \<Rightarrow> (rt', None)
           | (rt', Inr Changed) \<Rightarrow> (rt', Some (AppliedFailed changed_since_compared_text))
           | (rt', Inr (CheckUndecidable why)) \<Rightarrow> (rt', Some (AppliedFailed (show_undecidable why)))
           | (rt', Inl e) \<Rightarrow> (rt', Some (AppliedFailed (show_error e)))))"

subsection \<open>Permissions after the change\<close>

datatype file_permissions = FpKeep | FpSet u32 | FpFail string

definition permissions_unknown :: string where
  "permissions_unknown =
     ''content written, but permissions not copied because the source permissions are unknown''"

definition special_bits :: string where
  "special_bits =
     ''content written, but permissions not copied because the source has setuid, setgid or sticky bits''"

definition written_file :: "path_states \<Rightarrow> bool \<Rightarrow> u32 \<Rightarrow> file_permissions" where
  "written_file st with_permissions configured =
     (if with_permissions then
        (case pst_permissions st RoleLeft of
           None \<Rightarrow> FpFail permissions_unknown
         | Some p \<Rightarrow> if p AND NOT 0x1FF \<noteq> 0 then FpFail special_bits else FpSet p)
      else if pst_states st RoleRight = Some SsAbsent then FpSet configured
      else FpKeep)"

definition configured_modes :: "side \<Rightarrow> 'w runtime \<Rightarrow> u32 \<times> u32" where
  "configured_modes target rt =
     (let defaults = cf_defaults (rn_config rt) in
      case target of
        RemoteSide name \<Rightarrow>
          (case map_of (cf_servers (rn_config rt)) name of
             Some server \<Rightarrow> (resolve_file_permissions server defaults, resolve_dir_permissions server defaults)
           | None \<Rightarrow> (dc_file_permissions defaults, dc_dir_permissions defaults))
      | LocalSide \<Rightarrow> (dc_file_permissions defaults, dc_dir_permissions defaults))"

definition change_mode ::
  "(bytes \<Rightarrow> string) \<Rightarrow> 'w machine \<Rightarrow> side \<Rightarrow> entry_path \<Rightarrow> u32 \<Rightarrow> ('w, unit) panicking" where
  "change_mode hex mc target path mode rt =
     settled hex mc target path (ChChmod mode) (io_chmod (for_side mc target rt) path mode) rt"

definition label_failure :: "string \<Rightarrow> run_error + unit \<Rightarrow> string + unit" where
  "label_failure front = res_map_err (\<lambda>e. front @ show_error e)"

fun change_dir_modes ::
  "(bytes \<Rightarrow> string) \<Rightarrow> 'w machine \<Rightarrow> side \<Rightarrow> u32 \<Rightarrow> entry_path list \<Rightarrow>
     'w runtime \<Rightarrow> 'w runtime \<times> (string + unit) option" where
  "change_dir_modes hex mc target mode [] rt = (rt, Some (Inr ()))"
| "change_dir_modes hex mc target mode (d # ds) rt =
     (case change_mode hex mc target d mode rt of
        (rt', None) \<Rightarrow> (rt', None)
      | (rt', Some (Inl e)) \<Rightarrow>
          (rt', Some (label_failure (''content written, but permissions of the created directory ''
             @ entry_as_typed d @ '' not changed: '') (Inl e)))
      | (rt', Some (Inr _)) \<Rightarrow> change_dir_modes hex mc target mode ds rt')"

definition set_permissions ::
  "(bytes \<Rightarrow> string) \<Rightarrow> 'w machine \<Rightarrow> side \<Rightarrow> entry_path \<Rightarrow> planned_change \<Rightarrow> inspected \<Rightarrow> apply_options \<Rightarrow>
     'w runtime \<Rightarrow> 'w runtime \<times> (string + unit) option" where
  "set_permissions hex mc target path c ins opts rt =
     (case configured_modes target rt of
        (file_mode, dir_mode) \<Rightarrow>
          (case change_dir_modes hex mc target dir_mode (in_missing_ancestors ins) rt of
             (rt', Some (Inr _)) \<Rightarrow>
               if pc_kind c \<noteq> CkWriteFile then (rt', Some (Inr ()))
               else
                 (case written_file (cmp_states (pc_comparison c)) (ao_with_permissions opts) file_mode of
                    FpKeep \<Rightarrow> (rt', Some (Inr ()))
                  | FpFail e \<Rightarrow> (rt', Some (Inl e))
                  | FpSet mode \<Rightarrow>
                      (case change_mode hex mc target path mode rt' of
                         (rt'', r) \<Rightarrow>
                           (rt'', map_option (label_failure ''content written, but permissions not changed: '') r)))
           | r \<Rightarrow> r))"

subsection \<open>Applying the changes\<close>

fun is_after_change :: "run_cause cause \<Rightarrow> bool" where
  "is_after_change (CauseOther (RcAfterChange _)) = True"
| "is_after_change _ = False"

fun is_partial_cause :: "run_cause cause \<Rightarrow> bool" where
  "is_partial_cause (CauseOther (RcConfirmed oc _)) = (oc = Some Partial)"
| "is_partial_cause _ = False"

definition is_partially_written :: "run_error \<Rightarrow> bool" where
  "is_partially_written e = list_ex is_partial_cause e"

definition failed_change :: "string option \<Rightarrow> run_error \<Rightarrow> applied" where
  "failed_change backup e =
     (let shown = show_error (with_backup backup e) in
      if list_ex is_after_change e \<or> is_partially_written e then AppliedFailedAfterChange shown
      else AppliedFailed shown)"

definition back_up_if_asked ::
  "'w machine \<Rightarrow> side \<Rightarrow> planned_change \<Rightarrow> inspected \<Rightarrow> (op_failure + bytes) option \<Rightarrow> apply_options \<Rightarrow> ('w, string option) act" where
  "back_up_if_asked mc target c ins content opts =
     (case ao_session opts of
        Some session \<Rightarrow> back_up_destination mc target c ins content session
      | None \<Rightarrow> act_return None)"

text \<open>\<open>Result::ok\<close>.\<close>

fun res_ok :: "'e + 'a \<Rightarrow> 'a option" where
  "res_ok (Inr x) = Some x"
| "res_ok (Inl _) = None"

definition change_and_set ::
  "(bytes \<Rightarrow> string) \<Rightarrow> 'w machine \<Rightarrow> side \<Rightarrow> entry_path \<Rightarrow> planned_change \<Rightarrow> inspected \<Rightarrow>
     (op_failure + bytes) option \<Rightarrow> apply_options \<Rightarrow> string option \<Rightarrow> 'w runtime \<Rightarrow> 'w runtime \<times> applied option" where
  "change_and_set hex mc target path c ins content opts backup rt =
     (case change_destination hex mc target path c (Option.bind content res_ok) rt of
        (rt', None) \<Rightarrow> (rt', None)
      | (rt', Some (Inl e)) \<Rightarrow> (rt', Some (failed_change backup e))
      | (rt', Some (Inr _)) \<Rightarrow>
          (case set_permissions hex mc target path c ins opts rt' of
             (rt'', None) \<Rightarrow> (rt'', None)
           | (rt'', Some (Inl reason)) \<Rightarrow> (rt'', Some (AppliedFailedAfterChange reason))
           | (rt'', Some (Inr _)) \<Rightarrow> (rt'', Some (AppliedDone backup))))"

definition apply_one ::
  "(bytes \<Rightarrow> string) \<Rightarrow> 'w machine \<Rightarrow> side \<Rightarrow> planned_change \<Rightarrow> inspected \<Rightarrow> (op_failure + bytes) option \<Rightarrow>
     apply_options \<Rightarrow> 'w runtime \<Rightarrow> 'w runtime \<times> applied option" where
  "apply_one hex mc target c ins content opts rt =
     (case entry_parse (pc_path c) of
        Inl e \<Rightarrow> (rt, Some (AppliedFailed (show_rel_path_error e)))
      | Inr path \<Rightarrow>
          (case changed_since_compared mc target path (pc_comparison c) rt of
             (rt1, Some failed) \<Rightarrow> (rt1, Some failed)
           | (rt1, None) \<Rightarrow>
               (case back_up_if_asked mc target c ins content opts rt1 of
                  (rt2, Inl e) \<Rightarrow> (rt2, Some (AppliedFailed (''backup failed: '' @ show_error e)))
                | (rt2, Inr backup) \<Rightarrow> change_and_set hex mc target path c ins content opts backup rt2)))"

text \<open>The loop over the changes, with the contents not yet taken. \<open>failed_batch\<close> says why the contents
  could not be read together, and of which paths.\<close>

fun apply_loop ::
  "(bytes \<Rightarrow> string) \<Rightarrow> 'w machine \<Rightarrow> side \<Rightarrow> apply_options \<Rightarrow> (string \<times> string list) option \<Rightarrow>
     (planned_change \<times> (string + inspected)) list \<Rightarrow> bytes by_path \<Rightarrow> 'w runtime \<Rightarrow> 'w runtime \<times> applied list option" where
  "apply_loop hex mc target opts failed_batch [] contents rt = (rt, Some [])"
| "apply_loop hex mc target opts failed_batch ((c, inspection) # rest) contents rt =
     (let decided = (\<lambda>a. case apply_loop hex mc target opts failed_batch rest contents rt of
            (rt', r) \<Rightarrow> (rt', map_option ((#) a) r)) in
      case inspection of
        Inl e \<Rightarrow> decided (AppliedFailed e)
      | Inr ins \<Rightarrow>
          (case in_entry ins of
             ResolvedAncestorNotDirectory _ _ \<Rightarrow> decided (AppliedFailed (show_resolve_error RNotADirectory))
           | _ \<Rightarrow>
               if ao_dry_run opts then decided AppliedPlanned
               else
                 (case Option.bind failed_batch (\<lambda>(why, paths). if pc_path c \<in> set paths then Some why else None) of
                    Some why \<Rightarrow> decided (AppliedFailed (''backup failed: read failed: '' @ why))
                  | None \<Rightarrow>
                      (case apply_one hex mc target c ins (map_of contents (pc_path c)) opts rt of
                         (rt', None) \<Rightarrow> (rt', None)
                       | (rt', Some a) \<Rightarrow>
                           (case apply_loop hex mc target opts failed_batch rest
                                   (filter (\<lambda>(path, _). path \<noteq> pc_path c) contents) rt' of
                              (rt'', r) \<Rightarrow> (rt'', map_option ((#) a) r))))))"

text \<open>\<open>batch[0]\<close> is read only when reading the batch failed; on an empty batch it would panic.\<close>

definition apply_changes ::
  "(bytes \<Rightarrow> string) \<Rightarrow> 'w machine \<Rightarrow> side \<Rightarrow> planned_change list \<Rightarrow> apply_options \<Rightarrow>
     'w runtime \<Rightarrow> 'w runtime \<times> applied list option" where
  "apply_changes hex mc target changes opts rt =
     (if changes = [] then (rt, Some [])
      else
        (let paths = map pc_path changes in
         case inspect_destinations mc target changes rt of
           (rt1, None) \<Rightarrow> (rt1, None)
         | (rt1, Some (Inl e)) \<Rightarrow>
             (rt1, Some (map AppliedFailed
               (case root_gone_before_changes target paths (hd paths) [] rt1 of
                  Some errors \<Rightarrow> errors
                | None \<Rightarrow> map (\<lambda>_. ''read failed: right: '' @ show_error e) paths)))
         | (rt1, Some (Inr inspections)) \<Rightarrow>
             (case backed_up_paths changes opts of
                Inl e \<Rightarrow> (rt1, Some (map (\<lambda>_. AppliedFailed (show_rel_path_error e)) changes))
              | Inr batch \<Rightarrow>
                  (case read_backup_contents mc target batch opts rt1 of
                     (rt2, Inr contents) \<Rightarrow>
                       apply_loop hex mc target opts None (zip changes inspections) contents rt2
                   | (rt2, Inl e) \<Rightarrow>
                       (case batch of
                          [] \<Rightarrow> (rt2, None)
                        | first # _ \<Rightarrow>
                            (case root_gone_before_changes target paths (entry_as_str first)
                                    ''backup failed: read failed: '' rt2 of
                               Some errors \<Rightarrow> (rt2, Some (map AppliedFailed errors))
                             | None \<Rightarrow>
                                 apply_loop hex mc target opts (Some (show_error e, map entry_as_str batch))
                                   (zip changes inspections) [] rt2))))))"

end
