(* ===== verification/RuntimeRules.thy ===== *)
theory RuntimeRules
  imports MergeApply
begin

text \<open>
  What every operation of the runtime keeps. The locale \<open>kept_by_calls\<close> is the interface: a property of
  the state of the run that connecting and the calls that only read keep. \<open>kept_by_reads\<close> extends it by
  stopping a side. Inside them one rule per operation shows that the operation keeps the property too.
\<close>

named_theorems after_rules "one rule for each construct that passes the state on"

definition after :: "('s \<Rightarrow> bool) \<Rightarrow> 's \<times> 'r \<Rightarrow> bool" where
  "after P p = P (fst p)"

lemma after_pair [after_rules]: "P rt \<Longrightarrow> after P (rt, r)"
  by (simp add: after_def)

lemma after_prod [after_rules]:
  "after P p \<Longrightarrow> (\<And>rt r. P rt \<Longrightarrow> p = (rt, r) \<Longrightarrow> after P (f rt r)) \<Longrightarrow> after P (case p of (rt, r) \<Rightarrow> f rt r)"
  by (cases p) (simp add: after_def)

lemma after_sum [after_rules]:
  "(\<And>e. s = Inl e \<Longrightarrow> after P (f e)) \<Longrightarrow> (\<And>x. s = Inr x \<Longrightarrow> after P (g x)) \<Longrightarrow> after P (case s of Inl e \<Rightarrow> f e | Inr x \<Rightarrow> g x)"
  by (cases s) simp_all

lemma after_option [after_rules]:
  "after P a \<Longrightarrow> (\<And>x. after P (f x)) \<Longrightarrow> after P (case s of None \<Rightarrow> a | Some x \<Rightarrow> f x)"
  by (cases s) simp_all

lemma after_list [after_rules]:
  "after P a \<Longrightarrow> (\<And>x xs. after P (f x xs)) \<Longrightarrow> after P (case s of [] \<Rightarrow> a | x # xs \<Rightarrow> f x xs)"
  by (cases s) simp_all

lemma after_bool [after_rules]:
  "after P a \<Longrightarrow> after P b \<Longrightarrow> after P (case s of True \<Rightarrow> a | False \<Rightarrow> b)"
  by (cases s) simp_all

lemma after_if [after_rules]: "after P a \<Longrightarrow> after P b \<Longrightarrow> after P (if c then a else b)"
  by simp

lemma after_Let [after_rules]: "(\<And>x. x = t \<Longrightarrow> after P (f x)) \<Longrightarrow> after P (Let t f)"
  by simp

lemma after_resolved [after_rules]:
  "(\<And>a b. after P (f a b)) \<Longrightarrow> (\<And>a b. after P (g a b)) \<Longrightarrow> (\<And>a b c. after P (h a b c))
     \<Longrightarrow> (\<And>a b. after P (k a b))
     \<Longrightarrow> after P (case s of ResolvedMissing a b \<Rightarrow> f a b | ResolvedExists a b \<Rightarrow> g a b
          | ResolvedSymlink a b c \<Rightarrow> h a b c | ResolvedAncestorNotDirectory a b \<Rightarrow> k a b)"
  by (cases s) simp_all

lemma after_state [after_rules]:
  "after P a \<Longrightarrow> (\<And>r. after P (f r)) \<Longrightarrow> after P (case s of Ready \<Rightarrow> a | Disabled \<Rightarrow> f Disabled
      | UnsafeLocation l \<Rightarrow> f (UnsafeLocation l) | VersionMismatch v w \<Rightarrow> f (VersionMismatch v w)
      | CannotDeploy e \<Rightarrow> f (CannotDeploy e) | CannotStart e \<Rightarrow> f (CannotStart e))"
  by (cases s) simp_all

lemma after_bind: "after P (f rt) \<Longrightarrow> (\<And>x rt'. P rt' \<Longrightarrow> after P (g x rt')) \<Longrightarrow> after P (act_bind f g rt)"
  unfolding act_bind_def by (intro after_rules) (simp_all add: after_def)

lemma after_map: "after P (a rt) \<Longrightarrow> after P (act_map f a rt)"
  unfolding act_map_def by (cases "a rt") (simp add: after_def)

lemma after_all_answered: "after P p \<Longrightarrow> after P (all_answered p)"
  by (simp add: after_def all_answered_def)

definition target_reads :: "('w runtime \<Rightarrow> bool) \<Rightarrow> 'w target_io \<Rightarrow> bool" where
  "target_reads P io \<longleftrightarrow>
     (\<forall>path rt. P rt \<longrightarrow> after P (io_inspect io path rt))
     \<and> (\<forall>paths rt. P rt \<longrightarrow> after P (io_inspect_paths io paths rt))
     \<and> (\<forall>paths limit rt. P rt \<longrightarrow> after P (io_read io paths limit rt))
     \<and> (\<forall>request rt. P rt \<longrightarrow> after P (io_scan io request rt))
     \<and> (\<forall>paths rt. P rt \<longrightarrow> after P (io_hash io paths rt))
     \<and> (\<forall>paths rt. P rt \<longrightarrow> after P (io_states_before io paths rt))"

lemma target_readsI:
  assumes "\<And>path rt. P rt \<Longrightarrow> after P (io_inspect io path rt)"
    "\<And>paths rt. P rt \<Longrightarrow> after P (io_inspect_paths io paths rt)"
    "\<And>entries limit rt. P rt \<Longrightarrow> after P (io_read io entries limit rt)"
    "\<And>request rt. P rt \<Longrightarrow> after P (io_scan io request rt)"
    "\<And>entries rt. P rt \<Longrightarrow> after P (io_hash io entries rt)"
    "\<And>entries rt. P rt \<Longrightarrow> after P (io_states_before io entries rt)"
  shows "target_reads P io"
  using assms by (simp add: target_reads_def)

lemma target_readsD:
  assumes "target_reads P io" "P rt"
  shows "after P (io_inspect io path rt)" "after P (io_inspect_paths io paths rt)"
    "after P (io_read io entries limit rt)" "after P (io_scan io request rt)"
    "after P (io_hash io entries rt)" "after P (io_states_before io entries rt)"
  using assms by (simp_all add: target_reads_def)

text \<open>The calls that do not change a side, as what they do to the world.\<close>

inductive_set world_reads :: "'w machine \<Rightarrow> ('w \<Rightarrow> 'w) set" for mc :: "'w machine" where
  WrConnect: "(\<lambda>w. fst (mc_connect mc name w)) \<in> world_reads mc"
| WrStart: "(\<lambda>w. fst (mc_start_agent mc name w)) \<in> world_reads mc"
| WrShutdown: "mc_shutdown mc name \<in> world_reads mc"
| WrDisconnect: "mc_disconnect mc name \<in> world_reads mc"
| WrInspect: "(\<lambda>w. fst (ag_inspect mc name path w)) \<in> world_reads mc"
| WrInspects: "(\<lambda>w. fst (ag_inspect_paths mc name paths w)) \<in> world_reads mc"
| WrRead: "(\<lambda>w. fst (ag_read_files mc name limit entries w)) \<in> world_reads mc"
| WrHash: "(\<lambda>w. fst (ag_hash_contents mc name entries w)) \<in> world_reads mc"
| WrHashFiles: "(\<lambda>w. fst (ag_hash_files mc name entries w)) \<in> world_reads mc"
| WrList: "(\<lambda>w. fst (ag_list_tree mc name request excl w)) \<in> world_reads mc"
| WrResolve: "(\<lambda>w. fst (lo_resolve mc root text w)) \<in> world_reads mc"
| WrScan: "(\<lambda>w. fst (lo_scan mc root excl request w)) \<in> world_reads mc"
| WrLocalRead: "(\<lambda>w. fst (lo_read mc root most entry w)) \<in> world_reads mc"
| WrLocalHash: "(\<lambda>w. fst (lo_hash mc root entry w)) \<in> world_reads mc"

locale kept_by_calls =
  fixes mc :: "'w machine" and P :: "'w runtime \<Rightarrow> bool"
  assumes keeps_world: "f \<in> world_reads mc \<Longrightarrow> P rt \<Longrightarrow> P (rt\<lparr>rn_world := f (rn_world rt)\<rparr>)"
    and keeps_ssh: "P rt \<Longrightarrow> P (rt\<lparr>rn_ssh := names\<rparr>)"
    and keeps_agents: "P rt \<Longrightarrow> P (rt\<lparr>rn_agents := names\<rparr>)"
    and keeps_chosen: "P rt \<Longrightarrow> P (rt\<lparr>rn_chosen := names\<rparr>)"
begin

lemma after_on_world: "(\<lambda>w. fst (f w)) \<in> world_reads mc \<Longrightarrow> P rt \<Longrightarrow> after P (on_world f rt)"
  using keeps_world[of "\<lambda>w. fst (f w)" rt] by (cases "f (rn_world rt)") (simp add: after_def on_world_def)

lemmas keeps_names = keeps_ssh keeps_agents keeps_chosen

lemma keeps_if: "P a \<Longrightarrow> P b \<Longrightarrow> P (if c then a else b)"
  by simp

text \<open>Connections.\<close>

lemma keeps_disconnect_agent: "P rt \<Longrightarrow> P (disconnect_agent mc name rt)"
  using keeps_world[OF WrShutdown[of mc name] keeps_agents[of rt "rn_agents rt - {name}"]]
  by (simp add: disconnect_agent_def)

lemma keeps_disconnect: "P rt \<Longrightarrow> P (disconnect mc name rt)"
  using keeps_world[OF WrDisconnect[of mc name]
      keeps_ssh[of "disconnect_agent mc name rt" "rn_ssh (disconnect_agent mc name rt) - {name}"]]
  by (simp add: disconnect_def Let_def keeps_disconnect_agent)

lemma after_connect_ssh: "P rt \<Longrightarrow> after P (connect_ssh mc name rt)"
  unfolding connect_ssh_def by (intro after_rules after_on_world keeps_names world_reads.intros)

lemma after_start_and_keep: "P rt \<Longrightarrow> after P (start_and_keep mc name rt)"
  unfolding start_and_keep_def by (intro after_rules after_on_world keeps_names world_reads.intros)

lemma after_settle_route: "P rt \<Longrightarrow> after P (settle_route mc name state rt)"
  unfolding settle_route_def
  by (cases "choose_route state") (simp_all add: after_def keeps_chosen keeps_disconnect)

lemma after_start_agent: "P rt \<Longrightarrow> after P (start_agent mc name rt)"
  using after_start_and_keep[of rt name]
  by (auto simp: start_agent_def after_def split: prod.splits agent_state.splits)

lemma after_connect: "P rt \<Longrightarrow> after P (connect mc name rt)"
  unfolding connect_def
  by (intro after_rules after_bind after_settle_route after_connect_ssh after_start_agent after_start_and_keep)

lemma after_try_reconnect: "P rt \<Longrightarrow> after P (try_reconnect mc name rt)"
  unfolding try_reconnect_def by (intro after_connect keeps_disconnect)

lemma after_require: "P rt \<Longrightarrow> after P (require_agent_route name rt)"
  by (simp add: require_agent_route_def after_def)

lemma after_reconnect: "P rt \<Longrightarrow> after P (reconnect_route mc name rt)"
  unfolding reconnect_route_def
  by (intro after_rules after_bind after_require after_start_agent after_try_reconnect keeps_disconnect_agent)

text \<open>The operations of an agent, once.\<close>

lemma after_with_agent: "(\<lambda>w. fst (f w)) \<in> world_reads mc \<Longrightarrow> P rt \<Longrightarrow> after P (with_agent name f rt)"
  unfolding with_agent_def by (intro after_rules after_on_world)

lemma after_ask_chunks:
  assumes "\<And>chunk. (\<lambda>w. fst (q chunk w)) \<in> world_reads mc"
  shows "P rt \<Longrightarrow> after P (ask_chunks name q parts rt)"
proof (induction parts arbitrary: rt)
  case (Cons part parts)
  show ?case unfolding ask_chunks.simps
    by (intro after_rules after_with_agent Cons assms; assumption)
qed (simp add: after_def)

lemma after_in_batches:
  "(\<And>chunk. (\<lambda>w. fst (q chunk w)) \<in> world_reads mc) \<Longrightarrow> P rt \<Longrightarrow> after P (in_batches name paths q rt)"
  unfolding in_batches_def by (rule after_ask_chunks)

lemmas after_agent = after_map after_with_agent after_in_batches world_reads.intros

lemma after_agent_reads:
  assumes "P rt"
  shows "after P (agent_inspect mc name path rt)" "after P (agent_inspect_paths mc name paths rt)"
    "after P (agent_read_entries mc name entries limit rt)" "after P (agent_hash_contents mc name entries rt)"
    "after P (agent_hash_entries mc name entries rt)"
  unfolding agent_inspect_def agent_inspect_paths_def agent_read_entries_def agent_hash_contents_def
    agent_hash_entries_def
  by (intro after_agent assms)+

lemma after_agent_scan: "P rt \<Longrightarrow> after P (agent_scan_listing mc name request rt)"
  unfolding agent_scan_listing_def by (intro after_rules after_agent)

lemma after_agent_children: "P rt \<Longrightarrow> after P (agent_list_children mc name path excl n rt)"
  unfolding agent_list_children_def by (intro after_rules after_agent)

lemma after_remotely: "(\<And>rt'. P rt' \<Longrightarrow> after P (a rt')) \<Longrightarrow> P rt \<Longrightarrow> after P (remotely name a rt)"
  unfolding remotely_def by (intro after_bind after_require)

end

locale kept_by_reads = kept_by_calls mc P
  for mc :: "'w machine" and P :: "'w runtime \<Rightarrow> bool" +
  assumes keeps_include: "P rt \<Longrightarrow> P (rt\<lparr>rn_checked_include := checked\<rparr>)"
    and keeps_stop: "P rt \<Longrightarrow> P (stop_with key cause e rt)"
begin

lemma keeps_stop_server: "P rt \<Longrightarrow> P (stop_server name e rt)"
  by (simp add: stop_server_def keeps_stop)

lemma keeps_stop_gone: "P rt \<Longrightarrow> P (stop_for_root_gone key e rt)"
  by (simp add: stop_for_root_gone_def keeps_stop)

lemmas keeps_parts = keeps_names keeps_include keeps_stop keeps_stop_server keeps_stop_gone

lemma after_read_on_route:
  "(\<And>rt'. P rt' \<Longrightarrow> after P (rd rt')) \<Longrightarrow> P rt \<Longrightarrow> after P (read_on_route mc name rd rt)"
  unfolding read_on_route_def by (intro after_rules after_reconnect keeps_parts)

lemma after_change_on_route:
  "(\<And>rt'. P rt' \<Longrightarrow> after P (change rt')) \<Longrightarrow> P rt \<Longrightarrow> after P (change_on_route name change rt)"
  unfolding change_on_route_def
  by (intro after_rules) (simp_all add: keeps_stop_server)

text \<open>Targets.\<close>

lemmas after_remote = after_read_on_route after_remotely after_agent_reads after_agent_scan

lemma after_states_before: "P rt \<Longrightarrow> after P (remote_states_before_restore mc name entries rt)"
  unfolding remote_states_before_restore_def
  by (cases "entries = []") (simp_all add: act_return_def after_pair after_map after_remote)

lemma remote_target_reads: "target_reads P (remote_target mc name)"
  unfolding target_reads_def remote_target_def target_io.simps
  by (intro conjI allI impI after_remote after_states_before; assumption)

lemma after_inspect_one_by_one:
  assumes "\<And>path rt'. P rt' \<Longrightarrow> after P (f path rt')"
  shows "P rt \<Longrightarrow> after P (inspect_one_by_one f paths rt)"
proof (induction paths arbitrary: rt)
  case (Cons path paths)
  show ?case unfolding inspect_one_by_one.simps by (intro after_rules Cons assms; assumption)
qed (simp add: after_def)

lemma after_local_each:
  assumes "\<And>path. (\<lambda>w. fst (f path w)) \<in> world_reads mc"
  shows "P rt \<Longrightarrow> after P (local_each f paths rt)"
proof (induction paths arbitrary: rt)
  case (Cons path paths)
  show ?case unfolding local_each.simps by (intro after_rules after_on_world Cons assms; assumption)
qed (simp add: after_def)

lemma after_local_inspect: "P rt \<Longrightarrow> after P (local_inspect mc root path rt)"
  unfolding local_inspect_def by (intro after_rules after_on_world world_reads.intros)

lemma local_target_reads: "target_reads P (local_target mc root excl)"
  unfolding target_reads_def local_target_def target_io.simps act_return_def
  by (intro conjI allI impI after_all_answered after_inspect_one_by_one after_local_inspect after_local_each
      after_rules after_on_world world_reads.intros; assumption)

lemma after_refuse: "P rt \<Longrightarrow> after P (refuse key rt)"
  by (simp add: refuse_def after_def)

lemma stopped_target_reads: "target_reads P (stopped_target key)"
  unfolding target_reads_def stopped_target_def target_io.simps
  by (intro conjI allI impI after_all_answered after_inspect_one_by_one after_refuse; assumption)

text \<open>The watch.\<close>

lemma after_root_is_gone: "target_reads P io \<Longrightarrow> P rt \<Longrightarrow> after P (root_is_gone io rt)"
  unfolding root_is_gone_def by (intro after_rules target_readsD)

lemma after_stop_gone: "P rt \<Longrightarrow> after P (stop_gone w e rt)"
  by (simp add: stop_gone_def Let_def after_def keeps_stop_gone)

lemma after_watch_settle: "target_reads P (wt_inner w) \<Longrightarrow> P rt \<Longrightarrow> after P (watch_settle w e rt)"
  unfolding watch_settle_def by (intro after_rules after_stop_gone after_root_is_gone)

lemma after_watch_result:
  "target_reads P (wt_inner w) \<Longrightarrow> after P (a rt) \<Longrightarrow> after P (watch_result w a rt)"
  unfolding watch_result_def by (intro after_rules after_watch_settle)

lemma after_watch_entries:
  "target_reads P (wt_inner w) \<Longrightarrow> after P (a rt) \<Longrightarrow> after P (watch_entries w operation a rt)"
  unfolding watch_entries_def by (intro after_rules after_watch_result after_watch_settle)

lemma after_watch_inspect:
  "target_reads P (wt_inner w) \<Longrightarrow> P rt \<Longrightarrow> after P (watch_inspect w path rt)"
  unfolding watch_inspect_def by (intro after_bind after_rules target_readsD after_root_is_gone after_watch_settle)

lemma after_watch_inspect_paths:
  "target_reads P (wt_inner w) \<Longrightarrow> P rt \<Longrightarrow> after P (watch_inspect_paths w paths rt)"
  unfolding watch_inspect_paths_def by (intro after_bind after_rules target_readsD after_root_is_gone after_watch_settle)

lemma after_watch_scan:
  "target_reads P (wt_inner w) \<Longrightarrow> P rt \<Longrightarrow> after P (watch_scan w request rt)"
  unfolding watch_scan_def by (intro after_rules target_readsD keeps_if keeps_stop_gone)

lemma root_watch_reads: "target_reads P (wt_inner w) \<Longrightarrow> target_reads P (root_watch w)"
  by (intro target_readsI)
     (simp_all add: root_watch_def after_watch_inspect after_watch_inspect_paths after_watch_scan
       after_watch_entries target_readsD)

lemma for_side_reads: "target_reads P (for_side mc side rt)"
proof -
  have "target_reads P (inner_target mc side rt)"
    by (auto simp: inner_target_def local_target_reads remote_target_reads split: side.splits option.splits)
  then show ?thesis
    by (simp add: for_side_def Let_def stopped_target_reads root_watch_reads)
qed

lemma after_side_reads:
  assumes "P rt"
  shows "after P (side_scan mc side request rt)" "after P (side_read mc side entries limit rt)"
    "after P (side_hash mc side entries rt)"
  unfolding side_scan_def side_read_def side_hash_def
  by (intro target_readsD[OF for_side_reads] assms)+

lemma after_inspect_under_root: "P rt \<Longrightarrow> after P (inspect_under_root mc side paths absent rt)"
  unfolding inspect_under_root_def
  by (cases absent)
     (auto intro!: after_rules target_readsD[OF for_side_reads] keeps_stop_gone
       simp: root_gone_after_scan_def Let_def)

lemma after_check_include: "P rt \<Longrightarrow> after P (check_include mc side rt)"
  unfolding check_include_def
  by (intro after_rules target_readsD[OF for_side_reads])

lemma after_checked_include: "P rt \<Longrightarrow> after P (checked_include mc side rt)"
  unfolding checked_include_def by (intro after_rules after_check_include keeps_parts)

text \<open>Looking after a change whose connection was lost, and before a change.\<close>

lemma after_observe_mode: "P rt \<Longrightarrow> after P (observe_mode mc name path rt)"
  unfolding observe_mode_def by (intro after_map after_remotely after_agent_children)

lemma after_read_after_loss: "P rt \<Longrightarrow> after P (read_after_loss mc name path rt)"
  unfolding read_after_loss_def by (intro after_rules after_remote)

lemma after_observe_entry: "P rt \<Longrightarrow> after P (observe_entry mc name path with_content rt)"
  unfolding observe_entry_def by (intro after_rules after_remote after_read_after_loss)

lemma after_change_kind:
  "(\<And>b c. after P (f b c)) \<Longrightarrow> (\<And>l. after P (g l)) \<Longrightarrow> after P h \<Longrightarrow> (\<And>m. after P (k m))
     \<Longrightarrow> after P (case change of ChWrite b c \<Rightarrow> f b c | ChSymlink l \<Rightarrow> g l | ChRemove \<Rightarrow> h | ChChmod m \<Rightarrow> k m)"
  by (cases change) simp_all

lemma after_observe_after_loss: "P rt \<Longrightarrow> after P (observe_after_loss mc name path change rt)"
  unfolding observe_after_loss_def
  by (intro after_rules after_reconnect after_change_kind after_observe_mode after_observe_entry)

lemma after_settle_change: "P rt \<Longrightarrow> after P (settle_change hex mc side path change changed rt)"
  unfolding settle_change_def by (intro after_rules after_observe_after_loss)

lemma after_stop_if_root_gone: "P rt \<Longrightarrow> after P (stop_if_root_gone side e rt)"
  unfolding stop_if_root_gone_def by (intro after_rules keeps_parts)

lemma after_observe_listed: "P rt \<Longrightarrow> after P (observe_listed mc side r path l rt)"
  using after_side_reads(3)[of rt side "[path]"]
  by (auto simp: observe_listed_def after_def split: relisted.splits prod.splits sum.splits option.splits)

lemma after_recheck: "P rt \<Longrightarrow> after P (recheck_before_change mc side r path compared rt)"
  unfolding recheck_before_change_def Let_def
  by (intro after_rules after_side_reads after_observe_listed after_stop_if_root_gone)

lemma after_check_result:
  "after P a \<Longrightarrow> after P b \<Longrightarrow> (\<And>w. after P (f w))
     \<Longrightarrow> after P (case c of Unchanged \<Rightarrow> a | Changed \<Rightarrow> b | CheckUndecidable w \<Rightarrow> f w)"
  by (cases c) simp_all

lemma after_changed_since_compared: "P rt \<Longrightarrow> after P (changed_since_compared mc target path c rt)"
  unfolding changed_since_compared_def by (intro after_rules after_recheck after_check_result)

lemma after_inspect_destinations: "P rt \<Longrightarrow> after P (inspect_destinations mc target changes rt)"
  using after_inspect_under_root[of rt target]
  by (auto simp: inspect_destinations_def after_def Let_def split: prod.splits sum.splits)
     (metis fst_conv)+

lemma after_read_backups: "P rt \<Longrightarrow> after P (read_backup_contents mc target paths opts rt)"
  unfolding read_backup_contents_def by (intro after_rules target_readsD[OF for_side_reads])

end

end
