(* ===== verification/ChangeRules.thy ===== *)
theory ChangeRules
  imports RuntimeRules
begin

text \<open>
  What the operations that change a side keep: the locale \<open>kept_by_changes\<close> extends \<open>kept_by_reads\<close> by the
  calls that change a side or save a backup, with one rule per operation up to \<open>apply_changes\<close>. Its
  interpretation \<open>stops\<close> shows that stopping a side is for good.
\<close>

inductive_set world_changes :: "'w machine \<Rightarrow> ('w \<Rightarrow> 'w) set" for mc :: "'w machine" where
  WcWrite: "(\<lambda>w. fst (ag_write mc name entry content bin w)) \<in> world_changes mc"
| WcChmod: "(\<lambda>w. fst (ag_chmod mc name entry mode w)) \<in> world_changes mc"
| WcRemove: "(\<lambda>w. fst (ag_remove mc name entry w)) \<in> world_changes mc"
| WcSymlink: "(\<lambda>w. fst (ag_symlink mc name entry link w)) \<in> world_changes mc"
| WcLocalWrite: "(\<lambda>w. fst (lo_write mc root entry content w)) \<in> world_changes mc"
| WcLocalChmod: "(\<lambda>w. fst (lo_chmod mc root entry mode w)) \<in> world_changes mc"
| WcLocalRemove: "(\<lambda>w. fst (lo_remove mc root entry w)) \<in> world_changes mc"
| WcLocalSymlink: "(\<lambda>w. fst (lo_symlink mc root entry link w)) \<in> world_changes mc"
| WcSaveFile: "(\<lambda>w. fst (bk_save_file mc side session text real content w)) \<in> world_changes mc"
| WcSaveLink: "(\<lambda>w. fst (bk_save_symlink mc side session text link expected w)) \<in> world_changes mc"

definition target_changes :: "('w runtime \<Rightarrow> bool) \<Rightarrow> 'w target_io \<Rightarrow> bool" where
  "target_changes P io \<longleftrightarrow>
     (\<forall>entry content rt. P rt \<longrightarrow> after P (io_write io entry content rt))
     \<and> (\<forall>entry mode rt. P rt \<longrightarrow> after P (io_chmod io entry mode rt))
     \<and> (\<forall>entry rt. P rt \<longrightarrow> after P (io_remove io entry rt))
     \<and> (\<forall>entry link rt. P rt \<longrightarrow> after P (io_symlink io entry link rt))"

lemma target_changesD:
  assumes "target_changes P io" "P rt"
  shows "after P (io_write io entry content rt)" "after P (io_chmod io entry mode rt)"
    "after P (io_remove io entry rt)" "after P (io_symlink io entry link rt)"
  using assms by (simp_all add: target_changes_def)

locale kept_by_changes = kept_by_reads mc P
  for mc :: "'w machine" and P :: "'w runtime \<Rightarrow> bool" +
  assumes keeps_change: "f \<in> world_changes mc \<Longrightarrow> P rt \<Longrightarrow> P (rt\<lparr>rn_world := f (rn_world rt)\<rparr>)"
begin

lemma after_change_world: "(\<lambda>w. fst (f w)) \<in> world_changes mc \<Longrightarrow> P rt \<Longrightarrow> after P (on_world f rt)"
  using keeps_change[of "\<lambda>w. fst (f w)" rt] by (cases "f (rn_world rt)") (simp add: after_def on_world_def)

lemma after_remote_change: "P rt \<Longrightarrow> after P (remote_change mc name entry c rt)"
  unfolding remote_change_def with_agent_def
  by (cases c) (auto intro!: after_remotely after_rules after_change_world world_changes.intros)

lemma after_changed_on: "P rt \<Longrightarrow> after P (changed_on mc name entry c rt)"
  unfolding changed_on_def by (intro after_change_on_route after_remote_change)

lemma after_local_op: "(\<lambda>w. fst (f w)) \<in> world_changes mc \<Longrightarrow> P rt \<Longrightarrow> after P (local_op operation entry f rt)"
  unfolding local_op_def by (intro after_rules after_change_world)

lemma remote_target_changes: "target_changes P (remote_target mc name)"
  by (simp add: target_changes_def remote_target_def after_changed_on)

lemma local_target_changes: "target_changes P (local_target mc root excl)"
  unfolding target_changes_def local_target_def target_io.simps local_chmod_def
  by (intro conjI allI impI after_rules after_local_op world_changes.intros; assumption)

lemma stopped_target_changes: "target_changes P (stopped_target key)"
  by (simp add: target_changes_def stopped_target_def after_refuse)

lemma root_watch_changes:
  "target_reads P (wt_inner w) \<Longrightarrow> target_changes P (wt_inner w) \<Longrightarrow> target_changes P (root_watch w)"
  by (simp add: target_changes_def root_watch_def after_watch_result)

lemma for_side_changes: "target_changes P (for_side mc side rt)"
proof -
  have "target_reads P (inner_target mc side rt)" "target_changes P (inner_target mc side rt)"
    by (auto simp: inner_target_def local_target_reads remote_target_reads local_target_changes
        remote_target_changes split: side.splits option.splits)
  then show ?thesis by (simp add: for_side_def Let_def stopped_target_changes root_watch_changes)
qed

lemma after_settled:
  "after P (operation rt) \<Longrightarrow> after P (settled hex mc target path change operation rt)"
  unfolding settled_def by (intro after_rules after_settle_change)

lemmas after_sent = after_settled target_changesD[OF for_side_changes]

lemma after_create_link: "P rt \<Longrightarrow> after P (create_link hex mc target path link replaces rt)"
  unfolding create_link_def
  by (intro after_rules after_sent)

lemma after_create_or_replace:
  "P rt \<Longrightarrow> after P (create_or_replace_symlink hex mc target path link replaces rt)"
  unfolding create_or_replace_symlink_def
  by (intro after_rules after_sent after_create_link)

lemma after_kind:
  "after P a \<Longrightarrow> after P b \<Longrightarrow> after P c \<Longrightarrow> after P (case k of CkWriteFile \<Rightarrow> a | CkWriteLink \<Rightarrow> b | CkDelete \<Rightarrow> c)"
  by (cases k) simp_all

lemma after_change_destination: "P rt \<Longrightarrow> after P (change_destination hex mc target path c bs rt)"
  unfolding change_destination_def by (intro after_rules after_kind after_sent after_create_or_replace)

lemma after_change_mode: "P rt \<Longrightarrow> after P (change_mode hex mc target path mode rt)"
  unfolding change_mode_def by (intro after_sent)

lemma after_change_dir_modes: "P rt \<Longrightarrow> after P (change_dir_modes hex mc target mode ds rt)"
proof (induction ds arbitrary: rt)
  case (Cons d ds)
  show ?case unfolding change_dir_modes.simps by (intro after_rules after_change_mode Cons; assumption)
qed (simp add: after_def)

lemma after_file_permissions:
  "after P a \<Longrightarrow> (\<And>m. after P (f m)) \<Longrightarrow> (\<And>e. after P (g e))
     \<Longrightarrow> after P (case p of FpKeep \<Rightarrow> a | FpSet m \<Rightarrow> f m | FpFail e \<Rightarrow> g e)"
  by (cases p) simp_all

lemma after_set_permissions: "P rt \<Longrightarrow> after P (set_permissions hex mc target path c ins opts rt)"
  unfolding set_permissions_def
  by (cases "configured_modes target rt")
     (simp, intro after_rules after_change_dir_modes after_change_mode after_file_permissions)

lemma after_back_up: "P rt \<Longrightarrow> after P (back_up_if_asked mc target c ins content opts rt)"
  unfolding back_up_if_asked_def back_up_destination_def back_up_file_def back_up_link_def act_return_def
  by (auto intro!: after_rules after_change_world world_changes.intros split: option.splits)

lemma after_change_and_set: "P rt \<Longrightarrow> after P (change_and_set hex mc target path c ins content opts backup rt)"
  unfolding change_and_set_def by (intro after_rules after_change_destination after_set_permissions)

lemma after_apply_one: "P rt \<Longrightarrow> after P (apply_one hex mc target c ins content opts rt)"
  unfolding apply_one_def
  by (intro after_rules after_changed_since_compared after_back_up after_change_and_set)

lemma after_apply_loop: "P rt \<Longrightarrow> after P (apply_loop hex mc target opts failed_batch todo contents rt)"
proof (induction todo arbitrary: contents rt)
  case (Cons todo rest)
  obtain c inspection where [simp]: "todo = (c, inspection)" by (cases todo)
  show ?case unfolding \<open>todo = _\<close> apply_loop.simps Let_def
    by (intro after_rules after_apply_one Cons; assumption)
qed (simp add: after_def)

lemma after_apply_changes: "P rt \<Longrightarrow> after P (apply_changes hex mc target changes opts rt)"
  unfolding apply_changes_def Let_def
  by (intro after_rules after_inspect_destinations after_read_backups after_apply_loop)

end

subsection \<open>Stops are final\<close>

text \<open>\<open>later rt rt'\<close>: the settings are the same, and every side that was stopped still is, for the same
  reason and at the same place in the order.\<close>

definition later :: "'w runtime \<Rightarrow> 'w runtime \<Rightarrow> bool" where
  "later rt rt' \<longleftrightarrow> rn_config rt' = rn_config rt \<and> rn_overrides rt' = rn_overrides rt
     \<and> (\<exists>others. rn_stopped rt' = rn_stopped rt @ others)"

definition stops_ok :: "'w runtime \<Rightarrow> bool" where
  "stops_ok rt \<longleftrightarrow> distinct (map fst (rn_stopped rt))
     \<and> map (\<lambda>(_, stop). sp_order stop) (rn_stopped rt) = [0..<length (rn_stopped rt)]"

lemma later_refl [simp]: "later rt rt"
  by (simp add: later_def)

lemma later_trans: "later a b \<Longrightarrow> later b c \<Longrightarrow> later a c"
  by (auto simp: later_def)

lemma later_stop: "later rt rt' \<Longrightarrow> later rt (stop_with key cause e rt')"
  by (auto simp: later_def stop_with_def)

lemma stops_ok_stop: "stops_ok rt \<Longrightarrow> stops_ok (stop_with key cause e rt)"
  by (auto simp: stops_ok_def stop_with_def map_of_eq_None_iff)

lemma later_parts [simp]:
  "later rt (rt'\<lparr>rn_world := w\<rparr>) = later rt rt'" "later rt (rt'\<lparr>rn_ssh := names\<rparr>) = later rt rt'"
  "later rt (rt'\<lparr>rn_agents := names\<rparr>) = later rt rt'" "later rt (rt'\<lparr>rn_chosen := names\<rparr>) = later rt rt'"
  "later rt (rt'\<lparr>rn_checked_include := checked\<rparr>) = later rt rt'"
  by (simp_all add: later_def)

lemma stops_ok_parts [simp]:
  "stops_ok (rt\<lparr>rn_world := w\<rparr>) = stops_ok rt" "stops_ok (rt\<lparr>rn_ssh := names\<rparr>) = stops_ok rt"
  "stops_ok (rt\<lparr>rn_agents := names\<rparr>) = stops_ok rt" "stops_ok (rt\<lparr>rn_chosen := names\<rparr>) = stops_ok rt"
  "stops_ok (rt\<lparr>rn_checked_include := checked\<rparr>) = stops_ok rt"
  by (simp_all add: stops_ok_def)

interpretation stops: kept_by_changes mc "later rt0" for mc :: "'w machine" and rt0
  by unfold_locales (simp_all add: later_stop)

interpretation order_of_stops: kept_by_changes mc stops_ok for mc :: "'w machine"
  by unfold_locales (simp_all add: stops_ok_stop)

lemma later_stopped: "later rt rt' \<Longrightarrow> map_of (rn_stopped rt) key = Some stop \<Longrightarrow> map_of (rn_stopped rt') key = Some stop"
  by (auto simp: later_def)

lemma later_modes: "later rt rt' \<Longrightarrow> configured_modes target rt' = configured_modes target rt"
  by (cases target) (simp_all add: later_def configured_modes_def)

end
