(* ===== verification/AppliedPlan.thy ===== *)
theory AppliedPlan
  imports ChangeRules "HOL-Library.Sublist"
begin

text \<open>
  What applying the changes of a merge does to the machines. \<open>recorded\<close> is a machine that also writes down,
  in order, every call that changes a side or saves a backup; \<open>adds\<close> says that an operation writes down
  calls of a given list only, each at most once and in its order.
\<close>

subsection \<open>Writing down the calls that change something\<close>

datatype place = OnServer string | OnThisMachine string

datatype alteration =
    Altered place entry_path remote_change
  | BackedUp side string string bool

type_synonym 'w recording = "'w \<times> alteration list"

definition on_first :: "('w \<Rightarrow> 'w \<times> 'r) \<Rightarrow> 'w recording \<Rightarrow> 'w recording \<times> 'r" where
  "on_first f w = (case f (fst w) of (w', r) \<Rightarrow> ((w', snd w), r))"

definition noting :: "('r \<Rightarrow> alteration) \<Rightarrow> ('w \<Rightarrow> 'w \<times> 'r) \<Rightarrow> 'w recording \<Rightarrow> 'w recording \<times> 'r" where
  "noting what f w = (case f (fst w) of (w', r) \<Rightarrow> ((w', snd w @ [what r]), r))"

fun succeeded :: "'e + 'a \<Rightarrow> bool" where
  "succeeded (Inr _) = True"
| "succeeded (Inl _) = False"

definition recorded :: "'w machine \<Rightarrow> 'w recording machine" where
  "recorded mc =
     \<lparr>mc_connect = (\<lambda>name. on_first (mc_connect mc name)),
      mc_start_agent = (\<lambda>name. on_first (mc_start_agent mc name)),
      mc_shutdown = (\<lambda>name (w, l). (mc_shutdown mc name w, l)),
      mc_disconnect = (\<lambda>name (w, l). (mc_disconnect mc name w, l)),
      ag_inspect = (\<lambda>name path. on_first (ag_inspect mc name path)),
      ag_inspect_paths = (\<lambda>name paths. on_first (ag_inspect_paths mc name paths)),
      ag_read_files = (\<lambda>name limit entries. on_first (ag_read_files mc name limit entries)),
      ag_hash_contents = (\<lambda>name entries. on_first (ag_hash_contents mc name entries)),
      ag_hash_files = (\<lambda>name entries. on_first (ag_hash_files mc name entries)),
      ag_list_tree = (\<lambda>name request excl. on_first (ag_list_tree mc name request excl)),
      ag_write = (\<lambda>name entry content bin.
        noting (\<lambda>_. Altered (OnServer name) entry (RwWrite content bin)) (ag_write mc name entry content bin)),
      ag_chmod = (\<lambda>name entry mode.
        noting (\<lambda>_. Altered (OnServer name) entry (RwChmod mode)) (ag_chmod mc name entry mode)),
      ag_remove = (\<lambda>name entry. noting (\<lambda>_. Altered (OnServer name) entry RwRemove) (ag_remove mc name entry)),
      ag_symlink = (\<lambda>name entry link.
        noting (\<lambda>_. Altered (OnServer name) entry (RwSymlink link)) (ag_symlink mc name entry link)),
      lo_resolve = (\<lambda>root text. on_first (lo_resolve mc root text)),
      lo_scan = (\<lambda>root excl request. on_first (lo_scan mc root excl request)),
      lo_read = (\<lambda>root most entry. on_first (lo_read mc root most entry)),
      lo_hash = (\<lambda>root entry. on_first (lo_hash mc root entry)),
      lo_write = (\<lambda>root entry content.
        noting (\<lambda>_. Altered (OnThisMachine root) entry (RwWrite content True)) (lo_write mc root entry content)),
      lo_chmod = (\<lambda>root entry mode.
        noting (\<lambda>_. Altered (OnThisMachine root) entry (RwChmod mode)) (lo_chmod mc root entry mode)),
      lo_remove = (\<lambda>root entry.
        noting (\<lambda>_. Altered (OnThisMachine root) entry RwRemove) (lo_remove mc root entry)),
      lo_symlink = (\<lambda>root entry link.
        noting (\<lambda>_. Altered (OnThisMachine root) entry (RwSymlink link)) (lo_symlink mc root entry link)),
      bk_save_file = (\<lambda>side session path real content.
        noting (\<lambda>r. BackedUp side session path (succeeded r)) (bk_save_file mc side session path real content)),
      bk_save_symlink = (\<lambda>side session path link expected.
        noting (\<lambda>r. BackedUp side session path (succeeded r))
          (bk_save_symlink mc side session path link expected))\<rparr>"

definition log :: "'w recording runtime \<Rightarrow> alteration list" where
  "log rt = snd (rn_world rt)"

definition quiet_since :: "'w recording runtime \<Rightarrow> 'w recording runtime \<Rightarrow> bool" where
  "quiet_since rt rt' \<longleftrightarrow> later rt rt' \<and> log rt' = log rt"

lemma quiet_since_refl [simp]: "quiet_since rt rt"
  by (simp add: quiet_since_def)

lemma log_parts [simp]:
  "log (rt\<lparr>rn_ssh := names\<rparr>) = log rt" "log (rt\<lparr>rn_agents := names\<rparr>) = log rt"
  "log (rt\<lparr>rn_chosen := names\<rparr>) = log rt" "log (rt\<lparr>rn_checked_include := checked\<rparr>) = log rt"
  "log (rt\<lparr>rn_world := w\<rparr>) = snd w" "log (stop_with key cause e rt) = log rt"
  by (simp_all add: log_def stop_with_def)

lemma on_first_log [simp]: "snd (fst (on_first f w)) = snd w"
  by (simp add: on_first_def split: prod.splits)

lemma world_reads_log: "f \<in> world_reads (recorded mc) \<Longrightarrow> snd (f w) = snd w"
  by (induction rule: world_reads.induct) (auto simp: recorded_def split: prod.splits)

text \<open>Nothing that only reads is written down.\<close>

interpretation quiet: kept_by_reads "recorded mc" "quiet_since rt0" for mc :: "'w machine" and rt0
  by unfold_locales (auto simp: quiet_since_def world_reads_log later_stop log_def[symmetric])

subsection \<open>Calls of a list, each at most once and in order\<close>

definition adds :: "alteration list \<Rightarrow> 'w recording runtime \<Rightarrow> 'w recording runtime \<times> 'r \<Rightarrow> bool" where
  "adds plan rt p \<longleftrightarrow> later rt (fst p) \<and> (\<exists>calls. log (fst p) = log rt @ calls \<and> subseq calls plan)"

lemma adds_quiet: "after (quiet_since rt) p \<Longrightarrow> adds plan rt p"
  by (simp add: adds_def after_def quiet_since_def)

lemma adds_nothing [simp]: "adds plan rt (rt, r)"
  by (simp add: adds_def)

lemma adds_more: "adds plan rt p \<Longrightarrow> subseq plan plan' \<Longrightarrow> adds plan' rt p"
  by (auto simp: adds_def intro: subseq_order.order_trans)

lemma adds_bind:
  assumes "adds first rt p" "\<And>rt' r. p = (rt', r) \<Longrightarrow> later rt rt' \<Longrightarrow> adds second rt' (f rt' r)"
  shows "adds (first @ second) rt (case p of (rt', r) \<Rightarrow> f rt' r)"
proof -
  obtain rt' r where p: "p = (rt', r)" by (cases p)
  obtain a where a: "later rt rt'" "log rt' = log rt @ a" "subseq a first"
    using assms(1) by (auto simp: adds_def p)
  obtain b where b: "later rt' (fst (f rt' r))" "log (fst (f rt' r)) = log rt' @ b" "subseq b second"
    using assms(2)[OF p a(1)] by (auto simp: adds_def)
  from a b later_trans[OF a(1) b(1)] list_emb_append_mono[OF a(3) b(3)] show ?thesis
    by (auto simp: adds_def p)
qed

lemma adds_then_quiet:
  assumes "adds plan rt p" "\<And>rt' r. p = (rt', r) \<Longrightarrow> later rt rt' \<Longrightarrow> after (quiet_since rt') (f rt' r)"
  shows "adds plan rt (case p of (rt', r) \<Rightarrow> f rt' r)"
  using adds_bind[OF assms(1), where second = "[]" and f = f] assms(2) by (simp add: adds_quiet)

lemma adds_on_world:
  assumes "\<And>w. snd (fst (f w)) = snd w @ [what]"
  shows "adds [what] rt (on_world f rt)"
  using assms[of "rn_world rt"] by (cases "f (rn_world rt)") (auto simp: adds_def on_world_def log_def)

lemma noting_log [simp]: "snd (fst (noting what f w)) = snd w @ [what (snd (f (fst w)))]"
  by (simp add: noting_def split: prod.splits)

subsection \<open>The operations that change one side\<close>

definition place_of :: "side \<Rightarrow> 'w runtime \<Rightarrow> place" where
  "place_of side rt =
     (case side of
        LocalSide \<Rightarrow> OnThisMachine (cf_local_root (rn_config rt))
      | RemoteSide name \<Rightarrow>
          (case rn_overrides rt name of Some root \<Rightarrow> OnThisMachine root | None \<Rightarrow> OnServer name))"

lemma later_place: "later rt rt' \<Longrightarrow> place_of side rt' = place_of side rt"
  by (simp add: later_def place_of_def split: side.splits)

lemma adds_agent_change:
  "adds [Altered (OnServer name) entry c] rt (on_world (agent_change (recorded mc) name entry c) rt)"
  by (rule adds_on_world) (cases c; simp add: recorded_def)

lemma adds_remote_change: "adds [Altered (OnServer name) entry c] rt (remote_change (recorded mc) name entry c rt)"
  by (simp add: remote_change_def remotely_def act_bind_def require_agent_route_def with_agent_def
      adds_agent_change)

lemma adds_changed_on: "adds [Altered (OnServer name) entry c] rt (changed_on (recorded mc) name entry c rt)"
  unfolding changed_on_def change_on_route_def
  by (rule adds_then_quiet[OF adds_remote_change])
     (auto simp: after_def quiet.keeps_stop_server split: sum.splits)

lemma adds_local_op:
  "(\<And>w. snd (fst (f w)) = snd w @ [what]) \<Longrightarrow> adds [what] rt (local_op operation entry f rt)"
  unfolding local_op_def by (rule adds_then_quiet[OF adds_on_world]) (auto simp: after_def)

lemma adds_watch_result:
  assumes "adds plan rt (a rt)" and "\<And>rt. target_reads (quiet_since rt) (wt_inner w)"
  shows "adds plan rt (watch_result w a rt)"
  unfolding watch_result_def
  by (rule adds_then_quiet[OF assms(1)])
     (intro after_rules quiet.after_watch_settle assms(2) quiet_since_refl)

text \<open>A target that sends each change at most once, to one place.\<close>

definition sends_once :: "place \<Rightarrow> 'w recording target_io \<Rightarrow> bool" where
  "sends_once pl io \<longleftrightarrow>
     (\<forall>entry content rt. adds [Altered pl entry (RwWrite content True)] rt (io_write io entry content rt))
     \<and> (\<forall>entry mode rt. adds [Altered pl entry (RwChmod mode)] rt (io_chmod io entry mode rt))
     \<and> (\<forall>entry rt. adds [Altered pl entry RwRemove] rt (io_remove io entry rt))
     \<and> (\<forall>entry link rt. adds [Altered pl entry (RwSymlink link)] rt (io_symlink io entry link rt))"

lemma remote_target_once: "sends_once (OnServer name) (remote_target (recorded mc) name)"
  by (simp add: sends_once_def remote_target_def adds_changed_on)

lemma local_target_once: "sends_once (OnThisMachine root) (local_target (recorded mc) root excl)"
  by (auto simp: sends_once_def local_target_def local_chmod_def permission_mode_def recorded_def
      intro!: adds_local_op split: sum.splits if_splits)

lemma stopped_target_once: "sends_once pl (stopped_target key)"
  by (simp add: sends_once_def stopped_target_def refuse_def)

lemma root_watch_once:
  "sends_once pl (wt_inner w) \<Longrightarrow> (\<And>rt. target_reads (quiet_since rt) (wt_inner w)) \<Longrightarrow> sends_once pl (root_watch w)"
  by (simp add: sends_once_def root_watch_def adds_watch_result)

lemma for_side_once: "sends_once (place_of side rt) (for_side (recorded mc) side rt)"
proof -
  have "sends_once (place_of side rt) (inner_target (recorded mc) side rt)"
    "target_reads (quiet_since rt') (inner_target (recorded mc) side rt)" for rt'
    by (auto simp: inner_target_def place_of_def local_target_once remote_target_once
        quiet.local_target_reads quiet.remote_target_reads split: side.splits option.splits)
  then show ?thesis by (simp add: for_side_def Let_def stopped_target_once root_watch_once)
qed

lemma adds_settled:
  "adds plan rt (operation rt) \<Longrightarrow> adds plan rt (settled hex (recorded mc) target path change operation rt)"
  unfolding settled_def
  by (rule adds_then_quiet) (auto intro: quiet.after_settle_change)

lemma adds_sent:
  shows "adds [Altered (place_of target rt) entry (RwWrite content True)] rt
      (settled hex (recorded mc) target path change (io_write (for_side (recorded mc) target rt) entry content) rt)"
    and "adds [Altered (place_of target rt) entry (RwChmod mode)] rt
      (settled hex (recorded mc) target path change (io_chmod (for_side (recorded mc) target rt) entry mode) rt)"
    and "adds [Altered (place_of target rt) entry RwRemove] rt
      (settled hex (recorded mc) target path change (io_remove (for_side (recorded mc) target rt) entry) rt)"
    and "adds [Altered (place_of target rt) entry (RwSymlink link)] rt
      (settled hex (recorded mc) target path change (io_symlink (for_side (recorded mc) target rt) entry link) rt)"
  using for_side_once[of target rt mc] by (auto simp: sends_once_def intro: adds_settled)

subsection \<open>The plan of one change\<close>

definition content_calls :: "place \<Rightarrow> entry_path \<Rightarrow> planned_change \<Rightarrow> alteration list" where
  "content_calls pl entry c =
     (case pc_kind c of
        CkWriteFile \<Rightarrow>
          (case written_content c of Inr bs \<Rightarrow> [Altered pl entry (RwWrite bs True)] | Inl _ \<Rightarrow> [])
      | CkWriteLink \<Rightarrow>
          (case link_target_of (pc_comparison c) RoleLeft of
             Inr link \<Rightarrow>
               (if is_symlink (right_state (pc_comparison c)) then [Altered pl entry RwRemove] else [])
                 @ [Altered pl entry (RwSymlink link)]
           | Inl _ \<Rightarrow> [])
      | CkDelete \<Rightarrow> [Altered pl entry RwRemove])"

definition dir_calls :: "place \<Rightarrow> u32 \<Rightarrow> entry_path list \<Rightarrow> alteration list" where
  "dir_calls pl mode dirs = map (\<lambda>d. Altered pl d (RwChmod mode)) dirs"

definition mode_calls :: "place \<Rightarrow> u32 \<Rightarrow> entry_path \<Rightarrow> planned_change \<Rightarrow> apply_options \<Rightarrow> alteration list" where
  "mode_calls pl configured entry c opts =
     (if pc_kind c \<noteq> CkWriteFile then []
      else
        (case written_file (cmp_states (pc_comparison c)) (ao_with_permissions opts) configured of
           FpSet mode \<Rightarrow> [Altered pl entry (RwChmod mode)]
         | _ \<Rightarrow> []))"

text \<open>The directories a change may create: those above an entry that was absent when it was compared.\<close>

definition created_dirs :: "planned_change \<Rightarrow> entry_path \<Rightarrow> entry_path list" where
  "created_dirs c entry = (if destination_absent (pc_comparison c) then parent_entries entry else [])"

definition planned_calls :: "place \<Rightarrow> u32 \<times> u32 \<Rightarrow> apply_options \<Rightarrow> planned_change \<Rightarrow> alteration list" where
  "planned_calls pl modes opts c =
     (case entry_parse (pc_path c) of
        Inl _ \<Rightarrow> []
      | Inr entry \<Rightarrow>
          content_calls pl entry c @ dir_calls pl (snd modes) (created_dirs c entry)
            @ mode_calls pl (fst modes) entry c opts)"

lemma adds_create_link:
  "adds [Altered (place_of target rt) entry (RwSymlink link)] rt
     (create_link hex (recorded mc) target entry link replaces rt)"
  unfolding create_link_def
  by (rule adds_then_quiet[OF adds_sent(4)]) (auto simp: after_def split: option.splits sum.splits)

lemma adds_create_or_replace:
  "adds ((if replaces then [Altered (place_of target rt) entry RwRemove] else [])
       @ [Altered (place_of target rt) entry (RwSymlink link)]) rt
     (create_or_replace_symlink hex (recorded mc) target entry link replaces rt)"
proof (cases replaces)
  case True
  show ?thesis
    unfolding create_or_replace_symlink_def using True
    by (simp only: if_True if_False not_True_eq_False)
       (rule adds_bind[OF adds_sent(3)],
        auto split: option.splits sum.splits simp: later_place[symmetric] intro: adds_create_link)
qed (simp add: create_or_replace_symlink_def adds_create_link)

lemma adds_change_destination:
  "adds (content_calls (place_of target rt) entry c) rt (change_destination hex (recorded mc) target entry c before rt)"
  using adds_create_or_replace[where replaces = True] adds_create_or_replace[where replaces = False]
  by (cases "pc_kind c") (auto simp: change_destination_def content_calls_def adds_sent split: sum.splits)

lemma adds_change_dir_modes:
  "adds (dir_calls (place_of target rt) mode dirs) rt (change_dir_modes hex (recorded mc) target mode dirs rt)"
proof (induction dirs arbitrary: rt)
  case (Cons d dirs)
  have "adds ([Altered (place_of target rt) d (RwChmod mode)] @ dir_calls (place_of target rt) mode dirs) rt
      (change_dir_modes hex (recorded mc) target mode (d # dirs) rt)"
    unfolding change_dir_modes.simps change_mode_def
    by (rule adds_bind[OF adds_sent(2)])
       (auto split: option.splits sum.splits simp: later_place[symmetric] intro: Cons)
  then show ?case by (simp add: dir_calls_def)
qed (simp add: dir_calls_def)

lemma adds_set_permissions:
  "adds (dir_calls (place_of target rt) (snd (configured_modes target rt)) (in_missing_ancestors ins)
       @ mode_calls (place_of target rt) (fst (configured_modes target rt)) entry c opts) rt
     (set_permissions hex (recorded mc) target entry c ins opts rt)"
proof -
  obtain file_mode dir_mode where m: "configured_modes target rt = (file_mode, dir_mode)" by fastforce
  have last: "adds (mode_calls (place_of target rt) file_mode entry c opts) rt'
      (case written_file (cmp_states (pc_comparison c)) (ao_with_permissions opts) file_mode of
         FpKeep \<Rightarrow> (rt', Some (Inr ()))
       | FpSet mode \<Rightarrow>
           (case change_mode hex (recorded mc) target entry mode rt' of
              (rt'', r) \<Rightarrow> (rt'', map_option (label_failure front) r))
       | FpFail e \<Rightarrow> (rt', Some (Inl e)))"
    if "later rt rt'" "pc_kind c = CkWriteFile" for rt' front
  proof (cases "written_file (cmp_states (pc_comparison c)) (ao_with_permissions opts) file_mode")
    case (FpSet mode)
    have "adds [Altered (place_of target rt) entry (RwChmod mode)] rt'
        (case change_mode hex (recorded mc) target entry mode rt' of
              (rt'', r) \<Rightarrow> (rt'', map_option (label_failure front) r))"
      unfolding change_mode_def later_place[OF that(1), symmetric]
      by (rule adds_then_quiet[OF adds_sent(2)]) (simp add: after_def)
    then show ?thesis using FpSet that(2) by (simp add: mode_calls_def)
  qed simp_all
  show ?thesis
    unfolding set_permissions_def m prod.case fst_conv snd_conv
    by (rule adds_bind[OF adds_change_dir_modes])
       (auto split: option.split sum.split intro: last)
qed

lemma adds_change_and_set:
  assumes "entry_parse (pc_path c) = Inr entry" "subseq (in_missing_ancestors ins) (created_dirs c entry)"
  shows "adds (planned_calls (place_of target rt) (configured_modes target rt) opts c) rt
     (change_and_set hex (recorded mc) target entry c ins content opts backup rt)"
proof -
  have "adds (content_calls (place_of target rt) entry c
        @ dir_calls (place_of target rt) (snd (configured_modes target rt)) (in_missing_ancestors ins)
        @ mode_calls (place_of target rt) (fst (configured_modes target rt)) entry c opts) rt
     (change_and_set hex (recorded mc) target entry c ins content opts backup rt)"
    unfolding change_and_set_def
  proof (rule adds_bind[OF adds_change_destination], goal_cases)
    case (1 rt' r)
    have "adds (dir_calls (place_of target rt) (snd (configured_modes target rt)) (in_missing_ancestors ins)
          @ mode_calls (place_of target rt) (fst (configured_modes target rt)) entry c opts) rt'
        (set_permissions hex (recorded mc) target entry c ins opts rt')"
      using adds_set_permissions[of target rt'] 1(2) by (simp add: later_place later_modes)
    then have "adds (dir_calls (place_of target rt) (snd (configured_modes target rt)) (in_missing_ancestors ins)
          @ mode_calls (place_of target rt) (fst (configured_modes target rt)) entry c opts) rt'
        (case set_permissions hex (recorded mc) target entry c ins opts rt' of
           (rt'', None) \<Rightarrow> (rt'', None)
         | (rt'', Some (Inl reason)) \<Rightarrow> (rt'', Some (AppliedFailedAfterChange reason))
         | (rt'', Some (Inr _)) \<Rightarrow> (rt'', Some (AppliedDone backup)))"
      by (rule adds_then_quiet) (auto simp: after_def split: option.splits sum.splits)
    then show ?case by (cases r) (auto split: sum.splits)
  qed
  moreover have "subseq
      (content_calls (place_of target rt) entry c
        @ dir_calls (place_of target rt) (snd (configured_modes target rt)) (in_missing_ancestors ins)
        @ mode_calls (place_of target rt) (fst (configured_modes target rt)) entry c opts)
      (planned_calls (place_of target rt) (configured_modes target rt) opts c)"
    unfolding planned_calls_def assms(1) sum.case dir_calls_def
    by (intro list_emb_append_mono subseq_map assms(2)) simp_all
  ultimately show ?thesis by (rule adds_more)
qed

subsection \<open>One change with its backup\<close>

definition needed_backup :: "side \<Rightarrow> apply_options \<Rightarrow> planned_change \<Rightarrow> alteration list" where
  "needed_backup target opts c =
     (case ao_session opts of
        None \<Rightarrow> []
      | Some session \<Rightarrow>
          if is_file (right_state (pc_comparison c)) \<or> is_symlink (right_state (pc_comparison c))
          then [BackedUp target session (pc_path c) True] else [])"

text \<open>The calls made for one change: none, a backup that failed and nothing else, or the backup that is
  needed and then planned calls.\<close>

definition as_planned ::
  "place \<Rightarrow> u32 \<times> u32 \<Rightarrow> side \<Rightarrow> apply_options \<Rightarrow> planned_change \<Rightarrow> alteration list \<Rightarrow> bool" where
  "as_planned pl modes target opts c calls \<longleftrightarrow>
     calls = []
     \<or> \<not> ao_dry_run opts
        \<and> ((\<exists>session. ao_session opts = Some session \<and> calls = [BackedUp target session (pc_path c) False])
           \<or> (\<exists>changes. calls = needed_backup target opts c @ changes
                \<and> subseq changes (planned_calls pl modes opts c)))"

lemma as_planned_nothing [simp]: "as_planned pl modes target opts c []"
  by (simp add: as_planned_def)

definition backed_up ::
  "side \<Rightarrow> apply_options \<Rightarrow> planned_change \<Rightarrow> 'w recording runtime \<Rightarrow>
     'w recording runtime \<times> (run_error + string option) \<Rightarrow> bool" where
  "backed_up target opts c rt p \<longleftrightarrow> later rt (fst p)
     \<and> (case snd p of
          Inr _ \<Rightarrow> log (fst p) = log rt @ needed_backup target opts c
        | Inl _ \<Rightarrow> log (fst p) = log rt
            \<or> (\<exists>session. ao_session opts = Some session
                 \<and> log (fst p) = log rt @ [BackedUp target session (pc_path c) False]))"

lemma backed_up_saved:
  assumes "ao_session opts = Some session" "is_file (right_state (pc_comparison c)) \<or> is_symlink (right_state (pc_comparison c))"
  shows "backed_up target opts c rt
     (case on_world (noting (\<lambda>r. BackedUp target session (pc_path c) (succeeded r)) f) rt of
        (rt', r) \<Rightarrow> (rt', res_bind r (\<lambda>saved. Inr (Some saved))))"
  using assms
  by (cases "f (fst (rn_world rt))"; cases "snd (f (fst (rn_world rt)))")
     (auto simp: backed_up_def needed_backup_def on_world_def noting_def log_def)

lemma backed_up_refused: "backed_up target opts c rt (rt, Inl e)"
  by (simp add: backed_up_def)

lemma back_up_planned: "backed_up target opts c rt (back_up_if_asked (recorded mc) target c ins content opts rt)"
proof (cases "ao_session opts")
  case None
  then show ?thesis by (simp add: backed_up_def back_up_if_asked_def needed_backup_def act_return_def)
next
  case (Some session)
  have of_file: "backed_up target opts c rt (back_up_file (recorded mc) target c ins content session rt)"
    if "is_file (right_state (pc_comparison c))"
    using that Some
    by (simp add: back_up_file_def recorded_def backed_up_saved backed_up_refused
        split: resolved_path.split option.split sum.split)
  have of_link: "backed_up target opts c rt (back_up_link (recorded mc) target c ins session rt)"
    if "is_symlink (right_state (pc_comparison c))"
    using that Some
    by (simp add: back_up_link_def recorded_def backed_up_saved backed_up_refused
        split: resolved_path.split option.split sum.split)
  have "backed_up target opts c rt (rt, Inr None)"
    if "\<not> is_file (right_state (pc_comparison c))" "\<not> is_symlink (right_state (pc_comparison c))"
    using that Some by (simp add: backed_up_def needed_backup_def)
  then show ?thesis
    using Some of_file of_link by (simp add: back_up_if_asked_def back_up_destination_def act_return_def)
qed

subsection \<open>All changes\<close>

text \<open>\<open>alters\<close>: an operation writes down calls as they are planned for one change.\<close>

definition alters ::
  "side \<Rightarrow> apply_options \<Rightarrow> planned_change \<Rightarrow> 'w recording runtime \<Rightarrow> 'w recording runtime \<times> 'r \<Rightarrow> bool" where
  "alters target opts c rt p \<longleftrightarrow> later rt (fst p)
     \<and> (\<exists>calls. log (fst p) = log rt @ calls
          \<and> as_planned (place_of target rt) (configured_modes target rt) target opts c calls)"

lemma alters_quiet: "after (quiet_since rt) p \<Longrightarrow> alters target opts c rt p"
  by (auto simp: alters_def after_def quiet_since_def)

lemma alters_apply_one:
  assumes "\<not> ao_dry_run opts"
    and "\<And>entry. entry_parse (pc_path c) = Inr entry \<Longrightarrow> subseq (in_missing_ancestors ins) (created_dirs c entry)"
  shows "alters target opts c rt (apply_one hex (recorded mc) target c ins content opts rt)"
proof (cases "entry_parse (pc_path c)")
  case (Inl e)
  then show ?thesis by (simp add: apply_one_def alters_quiet after_def)
next
  case (Inr entry)
  note sub = assms(2)[OF Inr]
  obtain rt1 a where c1: "changed_since_compared (recorded mc) target entry (pc_comparison c) rt = (rt1, a)" by fastforce
  obtain rt2 b where c2: "back_up_if_asked (recorded mc) target c ins content opts rt1 = (rt2, b)" by fastforce
  have q: "quiet_since rt rt1"
    using quiet.after_changed_since_compared[of rt rt mc target entry "pc_comparison c"] c1 by (simp add: after_def)
  show ?thesis
  proof (cases a)
    case (Some failed)
    then show ?thesis using Inr c1 q by (simp add: apply_one_def alters_quiet after_def)
  next
    case None
    have bk: "backed_up target opts c rt1 (rt2, b)"
      using back_up_planned[of target opts c rt1] c2 by metis
    then have l2: "later rt rt2" using q by (auto simp: backed_up_def quiet_since_def intro: later_trans)
    show ?thesis
    proof (cases b)
      case (Inl e)
      then show ?thesis
        using \<open>entry_parse (pc_path c) = Inr entry\<close> None c1 c2 bk q l2 assms(1)
        by (auto simp: apply_one_def alters_def backed_up_def quiet_since_def as_planned_def)
    next
      case (Inr backup)
      have r: "apply_one hex (recorded mc) target c ins content opts rt
          = change_and_set hex (recorded mc) target entry c ins content opts backup rt2"
        using \<open>entry_parse (pc_path c) = Inr entry\<close> None c1 c2 Inr by (simp add: apply_one_def)
      have "adds (planned_calls (place_of target rt) (configured_modes target rt) opts c) rt2
          (change_and_set hex (recorded mc) target entry c ins content opts backup rt2)"
        using adds_change_and_set[OF \<open>entry_parse (pc_path c) = Inr entry\<close> sub, of target rt2] l2
        by (simp add: later_place later_modes)
      moreover have "log rt2 = log rt @ needed_backup target opts c"
        using bk q Inr by (simp add: backed_up_def quiet_since_def)
      ultimately show ?thesis
        unfolding r using l2 assms(1) by (auto simp: adds_def alters_def as_planned_def intro: later_trans)
    qed
  qed
qed

definition possible_dirs :: "planned_change \<Rightarrow> string + inspected \<Rightarrow> bool" where
  "possible_dirs c i \<longleftrightarrow>
     (\<forall>ins entry. i = Inr ins \<longrightarrow> entry_parse (pc_path c) = Inr entry
        \<longrightarrow> subseq (in_missing_ancestors ins) (created_dirs c entry))"

lemma ask_ancestors_paths: "map fst (snd (ask_ancestors as asked)) = as"
  by (induction as arbitrary: asked) (auto simp: split_beta)

lemma ask_change_dirs:
  "ask_change c asked = Inr (asked', q) \<Longrightarrow> entry_parse (pc_path c) = Inr entry
     \<Longrightarrow> map fst (aq_ancestors q) = created_dirs c entry"
  by (auto simp: ask_change_def created_dirs_def split_beta ask_ancestors_paths)

lemma ask_changes_dirs:
  "ask_changes cs asked = Inr (asked', qs)
     \<Longrightarrow> list_all2 (\<lambda>c q. \<forall>entry. entry_parse (pc_path c) = Inr entry \<longrightarrow> map fst (aq_ancestors q) = created_dirs c entry) cs qs"
proof (induction cs arbitrary: asked asked' qs)
  case (Cons c cs)
  then obtain asked1 q asked2 qs' where
      q: "ask_change c asked = Inr (asked1, q)" "ask_changes cs asked1 = Inr (asked2, qs')" "qs = q # qs'"
    by (auto simp: res_simps)
  then show ?case using ask_change_dirs[OF q(1)] Cons.IH[OF q(2)] by simp
qed simp

lemma opt_all_Some: "opt_all f xs = Some ys \<Longrightarrow> list_all2 (\<lambda>x y. f x = Some y) xs ys"
  by (induction xs arbitrary: ys) (auto split: Option.bind_splits)

lemma inspected_of_dirs:
  "inspected_of answers q = Some (Inr ins) \<Longrightarrow> subseq (in_missing_ancestors ins) (map fst (aq_ancestors q))"
  by (auto simp: inspected_of_def Let_def subseq_map subseq_filter_left split: option.splits sum.splits if_splits)

lemma inspections_possible:
  assumes "inspect_destinations mc target changes rt = (rt', Some (Inr inspections))"
  shows "list_all2 possible_dirs changes inspections"
proof -
  obtain asked layout answers where
      l: "ask_changes changes [] = Inr (asked, layout)" "opt_all (inspected_of answers) layout = Some inspections"
    using assms by (auto simp: inspect_destinations_def Let_def split: sum.splits prod.splits)
  show ?thesis
    using ask_changes_dirs[OF l(1)] opt_all_Some[OF l(2)]
    by (auto simp: list_all2_conv_all_nth possible_dirs_def) (metis inspected_of_dirs)
qed

lemma alters_bind:
  assumes "alters target opts c rt p"
    and "\<And>rt' r. p = (rt', r) \<Longrightarrow> later rt rt' \<Longrightarrow>
      later rt' (fst (f rt' r)) \<and> (\<exists>pieces. log (fst (f rt' r)) = log rt' @ concat pieces
        \<and> list_all2 (as_planned (place_of target rt') (configured_modes target rt') target opts) cs pieces)"
  shows "later rt (fst (case p of (rt', r) \<Rightarrow> f rt' r))
    \<and> (\<exists>pieces. log (fst (case p of (rt', r) \<Rightarrow> f rt' r)) = log rt @ concat pieces
        \<and> list_all2 (as_planned (place_of target rt) (configured_modes target rt) target opts) (c # cs) pieces)"
proof -
  obtain rt' r where p: "p = (rt', r)" by (cases p)
  obtain calls where a: "later rt rt'" "log rt' = log rt @ calls"
      "as_planned (place_of target rt) (configured_modes target rt) target opts c calls"
    using assms(1) by (auto simp: alters_def p)
  obtain pieces where b: "later rt' (fst (f rt' r))" "log (fst (f rt' r)) = log rt' @ concat pieces"
      "list_all2 (as_planned (place_of target rt) (configured_modes target rt) target opts) cs pieces"
    using assms(2)[OF p a(1)] by (auto simp: later_place[OF a(1)] later_modes[OF a(1)])
  from a b later_trans[OF a(1) b(1)] show ?thesis
    by (auto simp: p intro!: exI[of _ "calls # pieces"])
qed

lemma nothing_planned: "list_all2 (as_planned pl modes target opts) cs (map (\<lambda>_. []) cs)"
  by (simp add: list_all2_conv_all_nth)

lemma log_nothing:
  "log rt' = log rt \<Longrightarrow> \<exists>pieces. log rt' = log rt @ concat pieces
     \<and> list_all2 (as_planned pl modes target opts) cs pieces"
  using nothing_planned[of pl modes target opts cs] by (intro exI[of _ "map (\<lambda>_. []) cs"]) simp

lemma alters_loop:
  "list_all (\<lambda>(c, i). possible_dirs c i) todo \<Longrightarrow>
     later rt (fst (apply_loop hex (recorded mc) target opts failed_batch todo contents rt))
     \<and> (\<exists>pieces. log (fst (apply_loop hex (recorded mc) target opts failed_batch todo contents rt)) = log rt @ concat pieces
        \<and> list_all2 (as_planned (place_of target rt) (configured_modes target rt) target opts) (map fst todo) pieces)"
proof (induction todo arbitrary: contents rt)
  case (Cons t rest)
  obtain c i where t: "t = (c, i)" by (cases t)
  have ok: "possible_dirs c i" "list_all (\<lambda>(c, i). possible_dirs c i) rest" using Cons.prems by (auto simp: t)
  note IH = Cons.IH[OF ok(2)]
  have skip: "later rt (fst (case apply_loop hex (recorded mc) target opts failed_batch rest contents rt of
            (rt', r) \<Rightarrow> (rt', g r)))
      \<and> (\<exists>pieces. log (fst (case apply_loop hex (recorded mc) target opts failed_batch rest contents rt of
            (rt', r) \<Rightarrow> (rt', g r))) = log rt @ concat pieces
        \<and> list_all2 (as_planned (place_of target rt) (configured_modes target rt) target opts) (map fst (t # rest)) pieces)"
    for g :: "applied list option \<Rightarrow> applied list option"
    using IH[of rt contents] by (auto simp: t split_beta intro: exI[of _ "[] # _"])
  show ?case
  proof (cases "\<exists>ins. i = Inr ins \<and> (\<forall>a b. in_entry ins \<noteq> ResolvedAncestorNotDirectory a b) \<and> \<not> ao_dry_run opts
      \<and> Option.bind failed_batch (\<lambda>(why, paths). if pc_path c \<in> set paths then Some why else None) = None")
    case True
    then obtain ins where ins: "i = Inr ins" "\<forall>a b. in_entry ins \<noteq> ResolvedAncestorNotDirectory a b" "\<not> ao_dry_run opts"
      "Option.bind failed_batch (\<lambda>(why, paths). if pc_path c \<in> set paths then Some why else None) = None" by blast
    have r: "apply_loop hex (recorded mc) target opts failed_batch (t # rest) contents rt =
       (case apply_one hex (recorded mc) target c ins (map_of contents (pc_path c)) opts rt of
          (rt', None) \<Rightarrow> (rt', None)
        | (rt', Some a) \<Rightarrow>
            (case apply_loop hex (recorded mc) target opts failed_batch rest
                (filter (\<lambda>(path, _). path \<noteq> pc_path c) contents) rt' of
               (rt'', r) \<Rightarrow> (rt'', map_option ((#) a) r)))"
      using ins(2) by (cases "in_entry ins") (auto simp: t Let_def ins(1,3,4))
    have one: "alters target opts c rt (apply_one hex (recorded mc) target c ins (map_of contents (pc_path c)) opts rt)"
      using ok(1) ins by (intro alters_apply_one) (auto simp: possible_dirs_def)
    show ?thesis
      unfolding t r[unfolded t] list.map fst_conv
    proof (rule alters_bind[OF one], goal_cases)
      case (1 rt' a)
      show ?case
      proof (cases a)
        case None
        then show ?thesis using log_nothing[of rt' rt'] by simp
      next
        case (Some b)
        then show ?thesis using IH[of rt' "filter (\<lambda>(path, _). path \<noteq> pc_path c) contents"]
          by (simp add: split_beta)
      qed
    qed
  next
    case False
    then have "\<exists>g. apply_loop hex (recorded mc) target opts failed_batch (t # rest) contents rt =
        (case apply_loop hex (recorded mc) target opts failed_batch rest contents rt of (rt', r) \<Rightarrow> (rt', g r))"
      by (auto simp: t Let_def split: sum.splits resolved_path.splits option.splits)
    then show ?thesis using skip by metis
  qed
qed simp

lemma apply_changes_planned:
  "later rt (fst (apply_changes hex (recorded mc) target changes opts rt))
   \<and> (\<exists>pieces. log (fst (apply_changes hex (recorded mc) target changes opts rt)) = log rt @ concat pieces
     \<and> list_all2 (as_planned (place_of target rt) (configured_modes target rt) target opts) changes pieces)"
proof (cases "changes = []")
  case False
  obtain rt1 i where i: "inspect_destinations (recorded mc) target changes rt = (rt1, i)" by fastforce
  have q1: "quiet_since rt rt1"
    using quiet.after_inspect_destinations[of rt rt mc target changes] i by (simp add: after_def)
  have stop: ?thesis if "quiet_since rt (fst (apply_changes hex (recorded mc) target changes opts rt))"
    using that unfolding quiet_since_def by (intro conjI log_nothing) simp_all
  show ?thesis
  proof (cases "\<exists>inspections batch. i = Some (Inr inspections) \<and> backed_up_paths changes opts = Inr batch")
    case True
    then obtain inspections batch where b: "i = Some (Inr inspections)" "backed_up_paths changes opts = Inr batch" by blast
    obtain rt2 r where r: "read_backup_contents (recorded mc) target batch opts rt1 = (rt2, r)" by fastforce
    have q2: "quiet_since rt rt2"
      using quiet.after_read_backups[OF q1, of mc target batch opts] r by (simp add: after_def)
    have fits: "list_all2 possible_dirs changes inspections"
      using inspections_possible[OF i[unfolded b(1)]] .
    then have zip: "list_all (\<lambda>(c, i). possible_dirs c i) (zip changes inspections)"
      "map fst (zip changes inspections) = changes"
      by (auto simp: list_all2_iff list_all_iff)
    have loop: ?thesis
      if "apply_changes hex (recorded mc) target changes opts rt
          = apply_loop hex (recorded mc) target opts failed (zip changes inspections) contents rt2" for failed contents
      using alters_loop[OF zip(1), of rt2 hex mc target opts failed contents] q2
      by (auto simp: that zip(2) quiet_since_def later_place[of rt rt2] later_modes[of rt rt2] intro: later_trans)
    show ?thesis
    proof (cases r)
      case (Inl e)
      then show ?thesis
        using False i b r q2 loop stop
        by (cases "\<exists>first others errors. batch = first # others \<and> root_gone_before_changes target
              (map pc_path changes) (entry_as_str first) ''backup failed: read failed: '' rt2 = Some errors")
           (auto simp: apply_changes_def Let_def split: list.splits option.splits)
    next
      case (Inr contents)
      then show ?thesis using False i b r by (intro loop) (simp add: apply_changes_def Let_def)
    qed
  next
    case False
    then show ?thesis
      using \<open>changes \<noteq> []\<close> i q1
      by (intro stop) (auto simp: apply_changes_def Let_def split: option.splits sum.splits)
  qed
qed (simp add: apply_changes_def)

text \<open>C16: applying the changes of a merge does nothing but what was planned. The calls that change a side
  or save a backup split into one piece for each change, in the order of the changes: nothing at all, a
  backup that failed and nothing behind it, or the backup the destination needs, saved, followed by the
  planned calls for that path (write, link or remove, then permissions), each at most once and in order.
  With --dry-run no piece holds a call.\<close>

theorem applies_as_planned:
  "\<exists>pieces. log (fst (apply_changes hex (recorded mc) target changes opts rt)) = log rt @ concat pieces
     \<and> list_all2 (as_planned (place_of target rt) (configured_modes target rt) target opts) changes pieces"
  using apply_changes_planned by blast

end
