(* ===== verification/RuntimeProps.thy ===== *)
theory RuntimeProps
  imports AppliedPlan
begin

text \<open>
  Properties of the runtime: changes are always answered, a stopped side is left alone and stays stopped,
  and a read whose connection was lost is settled by one repetition.
\<close>

subsection \<open>Every change is answered\<close>

definition reads_answered :: "'w machine \<Rightarrow> bool" where
  "reads_answered mc \<longleftrightarrow>
     (\<forall>name limit entry w. snd (ag_read_files mc name limit [entry] w) \<noteq> Inr [])"

lemma batches_one: "in_batches name [x] q rt = ask_chunks name q [[x]] rt"
  by (simp add: in_batches_def agent_read_batch_size_def chunks.simps)

lemma read_after_loss_answers [simp]: "reads_answered mc \<Longrightarrow> read_after_loss mc name entry rt \<noteq> (rt', None)"
  by (auto simp: read_after_loss_def remotely_def act_bind_def require_agent_route_def agent_read_entries_def
      batches_one with_agent_def on_world_def reads_answered_def split: prod.splits sum.splits if_splits)
     (metis snd_conv)+

lemma observe_entry_answers [simp]:
  "reads_answered mc \<Longrightarrow> observe_entry mc name entry with_content rt \<noteq> (rt', None)"
  by (auto simp: observe_entry_def split: sum.splits prod.splits resolved_path.splits if_splits)
     (metis read_after_loss_answers not_None_eq)

lemma settle_change_answers [simp]:
  "reads_answered mc \<Longrightarrow> settle_change hex mc side entry change changed rt \<noteq> (rt', None)"
  by (auto simp: settle_change_def observe_after_loss_def Let_def
      split: sum.splits option.splits prod.splits change.splits if_splits)

lemma settled_answers [simp]:
  "reads_answered mc \<Longrightarrow> settled hex mc target entry change operation rt \<noteq> (rt', None)"
  by (auto simp: settled_def split: prod.splits)

lemma create_link_answers [simp]:
  "reads_answered mc \<Longrightarrow> create_link hex mc target entry link replaces rt \<noteq> (rt', None)"
  by (auto simp: create_link_def split: prod.splits option.splits sum.splits)

lemma create_or_replace_answers [simp]:
  "reads_answered mc \<Longrightarrow> create_or_replace_symlink hex mc target entry link replaces rt \<noteq> (rt', None)"
  by (auto simp: create_or_replace_symlink_def split: prod.splits option.splits sum.splits if_splits)

lemma change_destination_answers [simp]:
  "reads_answered mc \<Longrightarrow> change_destination hex mc target entry c before rt \<noteq> (rt', None)"
  by (auto simp: change_destination_def split: change_kind.splits sum.splits)

lemma change_dir_modes_answers [simp]:
  "reads_answered mc \<Longrightarrow> change_dir_modes hex mc target mode dirs rt \<noteq> (rt', None)"
  by (induction dirs arbitrary: rt) (auto simp: change_mode_def split: prod.splits option.splits sum.splits)

lemma set_permissions_answers [simp]:
  "reads_answered mc \<Longrightarrow> set_permissions hex mc target entry c ins opts rt \<noteq> (rt', None)"
  by (auto simp: set_permissions_def change_mode_def
      split: prod.splits option.splits sum.splits if_splits file_permissions.splits)
     (metis settled_answers not_None_eq)

lemma apply_one_answers [simp]:
  "reads_answered mc \<Longrightarrow> apply_one hex mc target c ins content opts rt \<noteq> (rt', None)"
  by (auto simp: apply_one_def change_and_set_def split: prod.splits option.splits sum.splits)

lemma apply_loop_answers:
  assumes "reads_answered mc"
  shows "\<exists>rt' answers. apply_loop hex mc target opts failed_batch todo contents rt = (rt', Some answers)
     \<and> length answers = length todo"
proof (induction todo arbitrary: contents rt)
  case (Cons t rest)
  obtain c i where t: "t = (c, i)" by (cases t)
  obtain rt1 a1 where rest: "apply_loop hex mc target opts failed_batch rest contents rt = (rt1, Some a1)"
      "length a1 = length rest" using Cons by blast
  show ?case
  proof (cases i)
    case (Inr ins)
    obtain rt2 a where one: "apply_one hex mc target c ins (map_of contents (pc_path c)) opts rt = (rt2, Some a)"
      using apply_one_answers[OF assms] by (metis not_None_eq surj_pair)
    obtain rt3 a3 where rest': "apply_loop hex mc target opts failed_batch rest
        (filter (\<lambda>(path, _). path \<noteq> pc_path c) contents) rt2 = (rt3, Some a3)" "length a3 = length rest"
      using Cons by blast
    show ?thesis
      using rest rest' one by (auto simp: t Inr Let_def split: resolved_path.split option.split)
  qed (simp add: t rest)
qed simp

text \<open>The paths asked about the destinations are found again at their places.\<close>

lemma index_of_Some: "index_of x xs = Some at \<Longrightarrow> at < length xs"
  by (induction xs arbitrary: at) (auto split: if_splits)

lemma distinct_add_at: "distinct_add path asked = (asked', at) \<Longrightarrow> at < length asked' \<and> length asked \<le> length asked'"
  by (auto simp: distinct_add_def split: option.splits dest: index_of_Some)

lemma ask_ancestors_at:
  "ask_ancestors as asked = (asked', found)
     \<Longrightarrow> list_all (\<lambda>(_, at). at < length asked') found \<and> length asked \<le> length asked'"
proof (induction as arbitrary: asked asked' found)
  case (Cons a as)
  obtain asked1 at where a: "distinct_add (ep_rel a) asked = (asked1, at)" by fastforce
  obtain asked2 others where b: "ask_ancestors as asked1 = (asked2, others)" by fastforce
  show ?case using Cons.prems Cons.IH[OF b] distinct_add_at[OF a] a b by auto
qed simp

definition asked_within :: "nat \<Rightarrow> asked_change \<Rightarrow> bool" where
  "asked_within n q \<longleftrightarrow> aq_entry q < n \<and> aq_parent q < n \<and> list_all (\<lambda>(_, at). at < n) (aq_ancestors q)"

lemma asked_within_mono: "asked_within n q \<Longrightarrow> n \<le> m \<Longrightarrow> asked_within m q"
  by (auto simp: asked_within_def list_all_iff)

lemma ask_change_at:
  assumes "ask_change c asked = Inr (asked', q)"
  shows "asked_within (length asked') q \<and> length asked \<le> length asked'"
proof -
  obtain entry where e: "entry_parse (pc_path c) = Inr entry" using assms by (auto simp: ask_change_def res_simps)
  obtain asked1 at1 where a1: "distinct_add (ep_rel entry) asked = (asked1, at1)" by fastforce
  obtain asked2 at2 where a2: "distinct_add (fst (entry_parent_and_name entry)) asked1 = (asked2, at2)" by fastforce
  obtain asked3 found where a3: "(if destination_absent (pc_comparison c)
      then ask_ancestors (parent_entries entry) asked2 else (asked2, [])) = (asked3, found)" by fastforce
  have "list_all (\<lambda>(_, at). at < length asked3) found \<and> length asked2 \<le> length asked3"
    using a3 ask_ancestors_at by (auto split: if_splits)
  then show ?thesis
    using assms e a1 a2 a3 distinct_add_at[OF a1] distinct_add_at[OF a2]
    by (auto simp: ask_change_def asked_within_def)
qed

lemma ask_changes_at:
  "ask_changes cs asked = Inr (asked', qs)
     \<Longrightarrow> list_all (asked_within (length asked')) qs \<and> length qs = length cs \<and> length asked \<le> length asked'"
proof (induction cs arbitrary: asked asked' qs)
  case (Cons c cs)
  then obtain asked1 q asked2 qs' where
      q: "ask_change c asked = Inr (asked1, q)" "ask_changes cs asked1 = Inr (asked2, qs')" "qs = q # qs'" "asked' = asked2"
    by (auto simp: res_simps)
  show ?case using ask_change_at[OF q(1)] Cons.IH[OF q(2)] q(3,4) by (auto intro: asked_within_mono)
qed simp

lemma inspected_of_answers: "asked_within (length answers) q \<Longrightarrow> inspected_of answers q \<noteq> None"
  by (auto simp: inspected_of_def asked_within_def nth_opt_eq list_ex_iff list_all_iff Let_def
      split: option.splits sum.splits)

lemma opt_all_total: "list_all (\<lambda>x. f x \<noteq> None) xs \<Longrightarrow> \<exists>ys. opt_all f xs = Some ys \<and> length ys = length xs"
  by (induction xs) auto

lemma inspect_under_root_length:
  "inspect_under_root mc side paths absent rt = (rt', Inr u) \<Longrightarrow> length (ur_answers u) = length paths"
  by (auto simp: inspect_under_root_def Let_def root_gone_after_scan_def
      split: prod.splits sum.splits list.splits option.splits root_absent.splits if_splits)

lemma inspect_destinations_answers:
  "\<exists>rt' r. inspect_destinations mc target changes rt = (rt', Some r)
     \<and> (\<forall>inspections. r = Inr inspections \<longrightarrow> length inspections = length changes)"
proof (cases "ask_changes changes []")
  case (Inr p)
  obtain asked layout where p: "p = (asked, layout)" by (cases p)
  note at = ask_changes_at[OF Inr[unfolded p]]
  obtain rt1 r where u: "inspect_under_root mc target asked GoneAfterScan rt = (rt1, r)" by fastforce
  show ?thesis
  proof (cases r)
    case (Inr v)
    let ?answers = "map (res_map_err show_error) (ur_answers v)"
    have "length ?answers = length asked" using inspect_under_root_length u Inr by simp
    then have "list_all (\<lambda>q. inspected_of ?answers q \<noteq> None) layout"
      using at inspected_of_answers[of ?answers] by (auto simp: list_all_iff)
    from opt_all_total[OF this] obtain ys where "opt_all (inspected_of ?answers) layout = Some ys"
      "length ys = length layout" by blast
    then show ?thesis
      using \<open>ask_changes changes [] = Inr p\<close> p u Inr at by (simp add: inspect_destinations_def Let_def)
  qed (use \<open>ask_changes changes [] = Inr p\<close> p u in \<open>simp add: inspect_destinations_def\<close>)
qed (simp add: inspect_destinations_def)

lemma root_gone_length:
  "root_gone_before_changes side paths found front rt = Some errors \<Longrightarrow> length errors = length paths"
  by (auto simp: root_gone_before_changes_def split: if_splits)

lemma changes_answered:
  assumes "reads_answered mc"
  shows "\<exists>answers. snd (apply_changes hex mc target changes opts rt) = Some answers
     \<and> length answers = length changes"
proof (cases "changes = []")
  case False
  obtain rt1 i where i: "inspect_destinations mc target changes rt = (rt1, Some i)"
      "\<forall>inspections. i = Inr inspections \<longrightarrow> length inspections = length changes"
    using inspect_destinations_answers by blast
  show ?thesis
  proof (cases "\<exists>inspections batch. i = Inr inspections \<and> backed_up_paths changes opts = Inr batch")
    case True
    then obtain inspections batch where b: "i = Inr inspections" "backed_up_paths changes opts = Inr batch" by blast
    obtain rt2 r where r: "read_backup_contents mc target batch opts rt1 = (rt2, r)" by fastforce
    have loop: ?thesis if "apply_changes hex mc target changes opts rt
        = apply_loop hex mc target opts failed (zip changes inspections) contents rt2" for failed contents
      using apply_loop_answers[OF assms, of hex target opts failed "zip changes inspections" contents rt2] i(2) b(1)
      by (auto simp: that)
    show ?thesis
    proof (cases r)
      case (Inl e)
      have "batch \<noteq> []" using r Inl by (auto simp: read_backup_contents_def)
      then obtain first others where "batch = first # others" by (cases batch) auto
      then show ?thesis
        using False i(1) b r Inl loop
        by (cases "root_gone_before_changes target (map pc_path changes) (entry_as_str first)
              ''backup failed: read failed: '' rt2")
           (auto simp: apply_changes_def Let_def root_gone_length)
    next
      case (Inr contents)
      show ?thesis using False i(1) b r Inr by (intro loop) (simp add: apply_changes_def Let_def)
    qed
  next
    case refused: False
    show ?thesis
      using False i(1) refused
      by (auto simp: apply_changes_def Let_def root_gone_length split: option.split sum.splits)
  qed
qed (simp add: apply_changes_def)

text \<open>No change of a merge is left without an answer. As long as the agent answers something for a path
  it is asked to read, applying the changes never panics, whatever else the machines answer, and there is
  one result for each change.\<close>

theorem apply_changes_answers:
  assumes "reads_answered mc"
  shows "\<exists>answers. snd (apply_changes hex mc target changes opts rt) = Some answers
     \<and> length answers = length changes"
  using changes_answered[OF assms] .

subsection \<open>Stopped sides\<close>

definition refuses :: "'w machine \<Rightarrow> side \<Rightarrow> 'w runtime \<Rightarrow> bool" where
  "refuses mc side rt \<longleftrightarrow>
     (\<forall>hex changes opts. \<exists>errors. apply_changes hex mc side changes opts rt = (rt, Some (map AppliedFailed errors))
        \<and> length errors = length changes)
     \<and> (\<forall>entries limit. \<exists>e. side_read mc side entries limit rt = (rt, Inl e) \<and> is_stopped_error e)
     \<and> (\<forall>entries. \<exists>e. side_hash mc side entries rt = (rt, Inl e) \<and> is_stopped_error e)
     \<and> (\<forall>request. \<exists>e. side_scan mc side request rt = (rt, Inl e) \<and> is_stopped_error e)
     \<and> (\<forall>r entry compared. \<exists>e. recheck_before_change mc side r entry compared rt = (rt, Inl e)
          \<and> is_stopped_error e)"

lemma stopped_refuses:
  assumes "map_of (rn_stopped rt) (stop_key_of side) = Some stop"
  shows "refuses mc side rt"
proof -
  define e :: run_error where
    "e = [CauseOther (RcStopped (shown_key (stop_key_of side)) (sp_reason stop) (sp_cause stop))]"
  have e: "is_stopped_error e" "classify e = NotSentYet" "\<not> is_root_gone_error e"
    by (simp_all add: e_def is_stopped_error_def classify_def is_root_gone_error_def)
  have s: "stopped_error_of (stop_key_of side) rt = Some e"
    using assms by (simp add: stopped_error_of_def e_def)
  have io: "for_side mc side rt = stopped_target (stop_key_of side)"
    using assms by (simp add: for_side_def)
  have answers: "inspect_one_by_one (\<lambda>_. refuse (stop_key_of side)) paths rt = (rt, map (\<lambda>_. Inl e) paths)" for paths
    by (induction paths) (simp_all add: refuse_def s)
  have under: "inspect_under_root mc side paths GoneAfterScan rt = (rt, Inl e)" for paths
    by (simp add: inspect_under_root_def io stopped_target_def answers all_answered_def e(3) Let_def
        del: inspect_one_by_one.simps)
  have applying: "\<exists>errors. apply_changes hex mc side changes opts rt = (rt, Some (map AppliedFailed errors))
      \<and> length errors = length changes" for hex changes opts
  proof (cases "changes = []")
    case False
    obtain f where "inspect_destinations mc side changes rt = (rt, Some (Inl f))"
      by (cases "ask_changes changes []") (auto simp: inspect_destinations_def under)
    then show ?thesis
      using False
      by (cases "root_gone_before_changes side (map pc_path changes) (hd (map pc_path changes)) [] rt")
         (auto simp: apply_changes_def Let_def dest!: root_gone_length
           intro: exI[of _ "map (\<lambda>_. ''read failed: right: '' @ show_error f) (map pc_path changes)"])
  qed (simp add: apply_changes_def)
  have scan: "side_scan mc side request rt = (rt, Inl e)" for request
    by (simp add: side_scan_def io stopped_target_def refuse_def s)
  have reads: "side_read mc side entries limit rt = (rt, Inl e)" "side_hash mc side entries rt = (rt, Inl e)"
    for entries limit
    by (simp_all add: side_read_def side_hash_def io stopped_target_def refuse_def s)
  have "recheck_before_change mc side r entry compared rt = (rt, Inl e)" for r entry compared
    by (simp add: recheck_before_change_def Let_def scan e(2) is_lost_failure_def)
  then show ?thesis using applying scan reads e(1) by (auto simp: refuses_def)
qed


subsection \<open>Lost reads\<close>

interpretation connecting: kept_by_calls mc "\<lambda>rt. rn_stopped rt = stopped" for mc :: "'w machine" and stopped
  by unfold_locales simp_all

definition lost_answer :: "run_error + 'a \<Rightarrow> bool" where
  "lost_answer r = (case r of Inl e \<Rightarrow> is_lost_error e | Inr _ \<Rightarrow> False)"

lemma lost_retry: "is_lost_error (retry_failed e what again) = is_lost_error e"
  by (simp add: is_lost_error_def)

lemma reconnect_stops: "reconnect_route mc name rt = (rt', r) \<Longrightarrow> rn_stopped rt' = rn_stopped rt"
  using connecting.after_reconnect[of rt "rn_stopped rt" mc name] by (simp add: after_def)

definition stopped_by_loss :: "string \<Rightarrow> 'w runtime \<Rightarrow> 'w runtime \<Rightarrow> bool" where
  "stopped_by_loss name rt rt' \<longleftrightarrow>
     (\<exists>e. rn_stopped rt' = rn_stopped (stop_server name e rt)) \<and> map_of (rn_stopped rt') (StopServer name) \<noteq> None"

lemma stop_server_stops:
  "rn_stopped rt' = rn_stopped rt \<Longrightarrow> stopped_by_loss name rt (stop_server name e rt')"
  by (auto simp: stopped_by_loss_def stop_server_def stop_with_def map_of_eq_None_iff intro: exI[of _ e])

text \<open>C17: a read that lost its connection is settled. If the agent can be restarted (or reached again) and
  answers the repeated read, the read answers that and nothing is stopped; any other answer than a lost
  connection is passed on as it is, the first one without reconnecting at all; and the answer is a lost
  connection only if its server was stopped for it, with every other stop left as it was.\<close>

theorem lost_read_settled:
  assumes "\<And>rt. rn_stopped (fst (rd rt)) = rn_stopped rt"
    and "read_on_route mc name rd rt = (rt', r)"
  shows "(\<not> lost_answer (snd (rd rt)) \<longrightarrow> (rt', r) = rd rt)
    \<and> (\<forall>rt1 e rt2. rd rt = (rt1, Inl e) \<and> is_lost_error e \<and> reconnect_route mc name rt1 = (rt2, Inr ())
         \<and> \<not> lost_answer (snd (rd rt2)) \<longrightarrow> (rt', r) = rd rt2)
    \<and> (if lost_answer r then stopped_by_loss name rt rt' else rn_stopped rt' = rn_stopped rt)"
proof -
  obtain rt1 r1 where first: "rd rt = (rt1, r1)" by fastforce
  have s1: "rn_stopped rt1 = rn_stopped rt" using assms(1)[of rt] first by simp
  show ?thesis
  proof (cases "lost_answer r1")
    case False
    then show ?thesis
      using assms(2) first s1 by (auto simp: read_on_route_def lost_answer_def split: sum.splits)
  next
    case True
    then obtain e where e: "r1 = Inl e" "is_lost_error e" by (auto simp: lost_answer_def split: sum.splits)
    obtain rt2 r2 where again: "reconnect_route mc name rt1 = (rt2, r2)" by fastforce
    have s2: "rn_stopped rt2 = rn_stopped rt" using reconnect_stops[OF again] s1 by simp
    obtain rt3 r3 where second: "rd rt2 = (rt3, r3)" by fastforce
    have s3: "rn_stopped rt3 = rn_stopped rt" using assms(1)[of rt2] second s2 by simp
    have lost: "stopped_by_loss name rt (stop_server name x rt2)" "stopped_by_loss name rt (stop_server name x rt3)" for x
      using stop_server_stops s2 s3 by blast+
    show ?thesis
      using assms(2) first e again second s3 lost
      by (cases r2; cases r3)
         (auto simp: read_on_route_def lost_answer_def lost_retry Let_def split: if_splits)
  qed
qed

subsection \<open>A machine whose agent loses the first read\<close>

definition no_answer :: "'w \<Rightarrow> 'w \<times> (run_error + 'a)" where
  "no_answer w = (w, Inl (run_error_text ''no answer''))"

definition not_there :: "'w \<Rightarrow> 'w \<times> (op_failure + 'a)" where
  "not_there w = (w, Inl NotFound)"

definition flaky_read :: "nat \<Rightarrow> nat \<times> (run_error + bytes by_path)" where
  "flaky_read w =
     (if w = 0 then (1, Inl (op_run_error OpRead ''a'' (Disconnected (NoAnswer ''broken pipe''))))
      else (w, Inr [(''a'', Inr ''new'')]))"

definition flaky_machine :: "nat machine" where
  "flaky_machine =
     \<lparr>mc_connect = (\<lambda>_ w. (w, Inr ())), mc_start_agent = (\<lambda>_ w. (w, Inr ())),
      mc_shutdown = (\<lambda>_ w. w), mc_disconnect = (\<lambda>_ w. w),
      ag_inspect = (\<lambda>_ _. no_answer), ag_inspect_paths = (\<lambda>_ _. no_answer),
      ag_read_files = (\<lambda>_ _ _. flaky_read), ag_hash_contents = (\<lambda>_ _. no_answer),
      ag_hash_files = (\<lambda>_ _. no_answer), ag_list_tree = (\<lambda>_ _ _. no_answer),
      ag_write = (\<lambda>_ _ _ _. no_answer), ag_chmod = (\<lambda>_ _ _. no_answer), ag_remove = (\<lambda>_ _. no_answer),
      ag_symlink = (\<lambda>_ _ _. no_answer), lo_resolve = (\<lambda>_ _ w. (w, Inl RNotADirectory)),
      lo_scan = (\<lambda>_ _ _ w. (w, Inl (RsScanFailure RootMissing))), lo_read = (\<lambda>_ _ _. not_there),
      lo_hash = (\<lambda>_ _. not_there), lo_write = (\<lambda>_ _ _. not_there), lo_chmod = (\<lambda>_ _ _. not_there),
      lo_remove = (\<lambda>_ _. not_there), lo_symlink = (\<lambda>_ _ _. not_there),
      bk_save_file = (\<lambda>_ _ _ _ _. no_answer), bk_save_symlink = (\<lambda>_ _ _ _ _. no_answer)\<rparr>"

definition flaky_run :: "nat runtime" where
  "flaky_run =
     \<lparr>rn_world = 0, rn_ssh = {''web''}, rn_agents = {''web''}, rn_chosen = {''web''},
      rn_config =
        \<lparr>cf_content = \<lparr>cc_defaults = [], cc_rules = []\<rparr>, cf_servers = [], cf_local_root = ''/work'',
         cf_filter = \<lparr>fc_exclude = [], fc_include = []\<rparr>, cf_ssh = default_ssh, cf_backup = default_backup,
         cf_agent = default_agent, cf_defaults = default_defaults, cf_max_scan_entries = 10\<rparr>,
      rn_overrides = Map.empty, rn_stopped = [], rn_checked_include = []\<rparr>"

definition entry_a :: entry_path where
  "entry_a = \<lparr>ep_rel = \<lparr>typed = ''a''\<rparr>\<rparr>"

lemma flaky_reads_answered: "reads_answered flaky_machine"
  by (simp add: reads_answered_def flaky_machine_def flaky_read_def)

definition removal_of_a :: planned_change where
  "removal_of_a =
     \<lparr>pc_path = ''a'',
      pc_comparison = \<lparr>cmp_states = no_states, cmp_pairs = [], cmp_hashes = Map.empty, cmp_contents = Map.empty\<rparr>,
      pc_kind = CkDelete, pc_content = None\<rparr>"

lemma apply_changes_answers_witness:
  "\<exists>answers. snd (apply_changes (\<lambda>bs. bs) flaky_machine (RemoteSide ''web'') [removal_of_a] \<lparr>ao_dry_run = False, ao_session = None,
       ao_with_permissions = False, ao_content_limit = Unlimited\<rparr> flaky_run) = Some answers
     \<and> length answers = length [removal_of_a]"
  by (rule apply_changes_answers[OF flaky_reads_answered])


abbreviation flaky_rd :: "(nat, bytes by_path) act" where
  "flaky_rd \<equiv> remotely ''web'' (agent_read_entries flaky_machine ''web'' [entry_a] Unlimited)"

lemma flaky_rd_stops: "rn_stopped (fst (flaky_rd rt)) = rn_stopped rt"
proof -
  have "after (\<lambda>rt'. rn_stopped rt' = rn_stopped rt) (flaky_rd rt)"
    by (intro connecting.after_remotely connecting.after_agent_reads) simp_all
  then show ?thesis by (simp add: after_def)
qed

lemma flaky_rd_answers:
  "flaky_rd flaky_run = (flaky_run\<lparr>rn_world := 1\<rparr>, Inl (op_run_error OpRead ''a'' (Disconnected (NoAnswer ''broken pipe''))))"
  "flaky_rd (flaky_run\<lparr>rn_world := 1\<rparr>) = (flaky_run\<lparr>rn_world := 1\<rparr>, Inr [(''a'', Inr ''new'')])"
  "reconnect_route flaky_machine ''web'' (flaky_run\<lparr>rn_world := 1\<rparr>) = (flaky_run\<lparr>rn_world := 1\<rparr>, Inr ())"
  by (simp_all add: remotely_def act_bind_def require_agent_route_def agent_read_entries_def batches_one
      with_agent_def on_world_def flaky_run_def flaky_machine_def flaky_read_def reconnect_route_def
      has_client_def disconnect_agent_def start_agent_def start_and_keep_def)

text \<open>The agent answers when it is asked again, and nothing is stopped.\<close>

lemma lost_read_settled_witness:
  "\<exists>rt'. read_on_route flaky_machine ''web'' flaky_rd flaky_run = (rt', Inr [(''a'', Inr ''new'')]) \<and> rn_stopped rt' = []"
proof -
  obtain rt' r where run: "read_on_route flaky_machine ''web'' flaky_rd flaky_run = (rt', r)" by fastforce
  have "is_lost_error (op_run_error OpRead ''a'' (Disconnected (NoAnswer ''broken pipe'')))"
    by (simp add: is_lost_error_def is_lost_failure_def classify_def op_run_error_def op_error_new_def
        is_stopped_error_def)
  then have "(rt', r) = (flaky_run\<lparr>rn_world := 1\<rparr>, Inr [(''a'', Inr ''new'')])"
    using lost_read_settled[OF flaky_rd_stops run] flaky_rd_answers by (simp add: lost_answer_def)
  moreover have "rn_stopped (flaky_run\<lparr>rn_world := 1\<rparr>) = []" by (simp add: flaky_run_def)
  ultimately show ?thesis using run by blast
qed

end
