(* ===== verification/CompareStarts.thy ===== *)
theory CompareStarts
  imports RootWatch
begin

text \<open>
  Collecting the states of the compared sides (\<open>runtime/compare_starts.rs\<close>,
  \<open>compare_start_entries.rs\<close> and \<open>compare_flow.rs\<close> of remote-merge): scanning the range of each side
  without the named starts that lie below a file, replacing the listed starts by themselves, finding
  the links that leave root_dir, and the whole comparison over the machines of one run.
\<close>

subsection \<open>Starts on the way\<close>

definition is_blocked :: "string \<Rightarrow> string list \<Rightarrow> bool" where
  "is_blocked path blocked = (\<exists>b \<in> set blocked. is_within (trim_slash path) b)"

record path_answers =
  pa_root :: string
  pa_facts :: path_facts

definition facts_of :: "string list \<Rightarrow> resolved_path list \<Rightarrow> path_facts" where
  "facts_of paths answers = map_of (rev (zip paths answers))"

definition path_facts_of :: "'w machine \<Rightarrow> side \<Rightarrow> string list \<Rightarrow> ('w, path_answers) act" where
  "path_facts_of mc side paths rt =
     (case res_collect rel_parse paths of
        Inl e \<Rightarrow> (rt, Inl (rel_path_run_error e))
      | Inr rels \<Rightarrow>
          (case inspect_under_root mc side rels GoneAfterScan rt of
             (rt', Inl e) \<Rightarrow> (rt', Inl e)
           | (rt', Inr checked) \<Rightarrow>
               (rt', res_bind (res_collect id (ur_answers checked)) (\<lambda>answers.
                  Inr \<lparr>pa_root = ur_root checked, pa_facts = facts_of paths answers\<rparr>))))"

subsection \<open>Scanning the named starts\<close>

text \<open>The blocked start an error of the chain reports.\<close>

fun blocked_start :: "run_cause cause \<Rightarrow> string option" where
  "blocked_start (CauseOther (RcScan (StartBlocked path))) = Some (trim_slash path)"
| "blocked_start _ = None"

definition reported_start :: "run_error \<Rightarrow> string option" where
  "reported_start e = find_map blocked_start e"

definition retain_starts :: "string list \<Rightarrow> start list \<Rightarrow> start list" where
  "retain_starts blocked starts = filter (\<lambda>s. \<not> is_blocked (st_path s) blocked) starts"

definition merged_facts :: "path_answers option \<Rightarrow> path_answers \<Rightarrow> path_answers" where
  "merged_facts known checked =
     (case known of
        Some k \<Rightarrow> k\<lparr>pa_facts := pa_facts k ++ pa_facts checked\<rparr>
      | None \<Rightarrow> checked)"

definition newly_blocked :: "string \<Rightarrow> string list \<Rightarrow> string list \<Rightarrow> path_facts \<Rightarrow> string list" where
  "newly_blocked reported blocked remaining facts =
     fold push_new (blocked_starts remaining facts) (blocked @ [reported])"

lemma set_fold_push_new: "set (fold push_new xs ys) = set xs \<union> set ys"
  by (induction xs arbitrary: ys) (auto simp: push_new_def)

type_synonym scanned = "listing \<times> string list \<times> path_answers option"

text \<open>
  The loop of \<open>scan_named\<close> over a scope of starts. Every repetition takes out a name that was not
  taken out before, so it ends whatever the machines answer.
\<close>

function scan_starts_loop ::
  "'w machine \<Rightarrow> side \<Rightarrow> nat \<Rightarrow> string list \<Rightarrow> start list \<Rightarrow> string list \<Rightarrow> path_answers option
    \<Rightarrow> ('w, scanned) act" where
  "scan_starts_loop mc side max_entries named starts blocked known rt =
     (case side_scan mc side \<lparr>sr_scope = ScopeStarts starts, sr_max_entries = max_entries\<rparr> rt of
        (rt', Inr l) \<Rightarrow> (rt', Inr (l, blocked, known))
      | (rt', Inl e) \<Rightarrow>
          (case reported_start e of
             None \<Rightarrow> (rt', Inl e)
           | Some reported \<Rightarrow>
               if reported \<in> set (map trim_slash named) \<and> reported \<notin> set blocked then
                 (let remaining = filter (\<lambda>name. \<not> is_blocked name blocked) named in
                  case path_facts_of mc side (paths_to_check remaining) rt' of
                    (rt'', Inl e') \<Rightarrow> (rt'', Inl e')
                  | (rt'', Inr checked) \<Rightarrow>
                      (let blocked' = newly_blocked reported blocked remaining (pa_facts checked) in
                       scan_starts_loop mc side max_entries named (retain_starts blocked' starts) blocked'
                         (Some (merged_facts known checked)) rt''))
               else (rt', Inl e)))"
  by pat_completeness auto
termination
proof (relation "measure (\<lambda>(mc, side, max_entries, named, starts, blocked, known, rt).
    card (set (map trim_slash named) - set blocked))", goal_cases)
  case (2 mc side max_entries named starts blocked known rt)
  then show ?case by (auto intro!: psubset_card_mono simp: newly_blocked_def set_fold_push_new)
qed auto

declare scan_starts_loop.simps [simp del]

definition scan_named ::
  "'w machine \<Rightarrow> side \<Rightarrow> scan_scope \<Rightarrow> nat \<Rightarrow> string list \<Rightarrow> string list \<Rightarrow> ('w, scanned) act" where
  "scan_named mc side scope max_entries named blocked rt =
     (case scope of
        ScopeStarts starts \<Rightarrow>
          scan_starts_loop mc side max_entries named (retain_starts blocked starts) blocked None rt
      | _ \<Rightarrow>
          (case side_scan mc side \<lparr>sr_scope = scope, sr_max_entries = max_entries\<rparr> rt of
             (rt', r) \<Rightarrow> (rt', res_bind r (\<lambda>l. Inr (l, blocked, None)))))"

subsection \<open>The starts themselves\<close>

definition with_starts_themselves ::
  "'w machine \<Rightarrow> side \<Rightarrow> string list \<Rightarrow> string list \<Rightarrow> listing \<Rightarrow> nat \<Rightarrow> ('w, listing) act" where
  "with_starts_themselves mc side dirs blocked l max_entries rt =
     (let listed = map le_path (filter (\<lambda>e. le_kind e \<noteq> LkDirectory) (ls_entries l));
          scan = map trim_slash
            (filter (\<lambda>dir. trim_slash dir \<notin> set listed) (filter (\<lambda>dir. \<not> is_blocked dir blocked) dirs))
      in if scan = [] then (rt, Inr l)
         else
           (case scan_named mc side (ScopeStarts (map (\<lambda>p. start_itself p 0) scan)) max_entries dirs blocked rt of
              (rt', r) \<Rightarrow>
                (rt', res_bind r (\<lambda>(themselves, _, _).
                   Inr (join_listings
                     (l\<lparr>ls_entries := filter (\<lambda>e. le_path e \<notin> set scan) (ls_entries l)\<rparr>) themselves)))))"

definition listed_links :: "listing \<Rightarrow> string list" where
  "listed_links l =
     List.map_filter
       (\<lambda>e. case le_kind e of
           LkSymlink _ p \<Rightarrow> if p = LpMissing \<or> p = LpUnresolvable then None else Some (le_path e)
         | _ \<Rightarrow> None) (ls_entries l)"

subsection \<open>One side\<close>

definition compare_scope_of :: "'w machine \<Rightarrow> side \<Rightarrow> compare_request \<Rightarrow> ('w, scan_scope) act" where
  "compare_scope_of mc side q rt =
     (let with_include = (\<lambda>dirs.
            case checked_include mc side rt of
              (rt', r) \<Rightarrow> (rt', res_bind r (\<lambda>kept. Inr (grouped (cq_entry_limit q) (scope_for dirs kept)))))
      in case cq_scope q of
           CsWhole \<Rightarrow> with_include None
         | CsBelow dirs \<Rightarrow> with_include (Some dirs)
         | CsEntries paths \<Rightarrow>
             (rt, Inr (grouped (cq_entry_limit q) (ScopeStarts (map (\<lambda>p. start_itself p 0) paths)))))"

definition listed_with_starts ::
  "'w machine \<Rightarrow> side \<Rightarrow> compare_request \<Rightarrow> nat \<Rightarrow> scanned \<Rightarrow> ('w, listing) act" where
  "listed_with_starts mc side q max_entries sc rt =
     (case (sc, cq_scope q) of
        ((l, blocked, known), CsBelow dirs) \<Rightarrow>
          with_starts_themselves mc side dirs blocked l
            (left_after (cq_entry_limit q) max_entries (ls_counted l)) rt
      | ((l, blocked, known), _) \<Rightarrow> (rt, Inr l))"

text \<open>What is not known yet of the paths to check is asked in one question.\<close>

definition checked_paths ::
  "'w machine \<Rightarrow> side \<Rightarrow> string list \<Rightarrow> path_answers option \<Rightarrow> ('w, path_answers) act" where
  "checked_paths mc side paths known rt =
     (let unknown = filter (\<lambda>p. case known of Some k \<Rightarrow> pa_facts k p = None | None \<Rightarrow> True) paths in
      case known of
        None \<Rightarrow> path_facts_of mc side unknown rt
      | Some k \<Rightarrow>
          if unknown = [] then (rt, Inr k)
          else
            (case path_facts_of mc side unknown rt of
               (rt', r) \<Rightarrow> (rt', res_bind r (\<lambda>asked. Inr (merged_facts (Some k) asked)))))"

definition outside_links ::
  "'w machine \<Rightarrow> side \<Rightarrow> string list \<Rightarrow> string list \<Rightarrow> path_answers option \<Rightarrow> listing
    \<Rightarrow> ('w, string list) act" where
  "outside_links mc side named blocked known l rt =
     (let starts = filter (\<lambda>p. trim_slash p \<notin> set blocked) named;
          links = listed_links l;
          on_the_way = paths_to_check starts;
          paths = on_the_way @ filter (\<lambda>link. link \<notin> set on_the_way) links
      in if paths = [] then (rt, Inr [])
         else
           (case checked_paths mc side paths known rt of
              (rt', r) \<Rightarrow>
                (rt', res_bind r (\<lambda>checked.
                   Inr (outside_on_the_way starts (pa_facts checked) (pa_root checked)
                        @ links_outside links (pa_facts checked) (pa_root checked))))))"

definition collect_side ::
  "'w machine \<Rightarrow> side \<Rightarrow> compare_request \<Rightarrow> string list \<Rightarrow> nat \<Rightarrow> ('w, listing \<times> string list option) act" where
  "collect_side mc side q named max_entries =
     act_bind (compare_scope_of mc side q) (\<lambda>scope.
     act_bind (scan_named mc side scope max_entries named []) (\<lambda>(l, blocked, known).
     act_bind (listed_with_starts mc side q max_entries (l, blocked, known)) (\<lambda>l'.
       if cq_external_links q \<noteq> ExternalStop then act_return (l', None)
       else
         act_bind (outside_links mc side named blocked known l') (\<lambda>outside.
           act_return (l', Some outside)))))"

subsection \<open>All sides\<close>

record collected_states =
  cls_table :: state_rows
  cls_incomplete :: "incomplete list"
  cls_counted :: "role \<Rightarrow> nat option"

text \<open>
  The listing kept of one side across comparisons is kept even when a later side fails. The variables
  of the loop over the sides.
\<close>

type_synonym kept_listing = "(side \<times> (listing \<times> string list option) option) option"

type_synonym ('w, 'a) keeping = "'w runtime \<Rightarrow> 'w runtime \<times> kept_listing \<times> (run_error + 'a)"

record collecting =
  clg_listings :: "role \<Rightarrow> listing option"
  clg_outside :: "role \<Rightarrow> string list option"
  clg_incomplete :: "incomplete list"
  clg_counted :: "role \<Rightarrow> nat option"

definition named_of :: "compare_request \<Rightarrow> string list" where
  "named_of q = (case cq_scope q of CsWhole \<Rightarrow> [] | CsBelow paths \<Rightarrow> paths | CsEntries paths \<Rightarrow> paths)"

definition listing_of_side ::
  "'w machine \<Rightarrow> side \<Rightarrow> compare_request \<Rightarrow> nat \<Rightarrow> kept_listing \<Rightarrow> ('w, listing \<times> string list option) keeping" where
  "listing_of_side mc side q budget kept rt =
     (case kept of
        Some (kept_side, Some found) \<Rightarrow>
          if kept_side = side then (rt, kept, Inr found)
          else (case collect_side mc side q (named_of q) budget rt of (rt', r) \<Rightarrow> (rt', kept, r))
      | Some (kept_side, None) \<Rightarrow>
          (case collect_side mc side q (named_of q) budget rt of
             (rt', Inr found) \<Rightarrow>
               (rt', if kept_side = side then Some (kept_side, Some found) else kept, Inr found)
           | (rt', Inl e) \<Rightarrow> (rt', kept, Inl e))
      | None \<Rightarrow> (case collect_side mc side q (named_of q) budget rt of (rt', r) \<Rightarrow> (rt', kept, r)))"

definition incomplete_of :: "role \<Rightarrow> nat \<Rightarrow> listing \<Rightarrow> incomplete list" where
  "incomplete_of r max_entries l =
     (if ls_truncated l then [IncTruncated r max_entries] else [])
     @ (case ls_cycle l of Some path \<Rightarrow> [IncCycle r path] | None \<Rightarrow> [])"

definition add_listing ::
  "compare_request \<Rightarrow> role \<Rightarrow> listing \<times> string list option \<Rightarrow> collecting \<Rightarrow> run_error + collecting" where
  "add_listing q r found st =
     (case found of (l, links) \<Rightarrow>
       res_bind (res_map_err (\<lambda>failure. [CauseOther (RcScan failure)])
           (check_unfollowable (cq_unfollowable_links q) l)) (\<lambda>_.
         Inr \<lparr>clg_listings = (clg_listings st)(r \<mapsto> l),
              clg_outside =
                (case links of Some ls \<Rightarrow> (clg_outside st)(r \<mapsto> ls) | None \<Rightarrow> clg_outside st),
              clg_incomplete = clg_incomplete st @ incomplete_of r (cq_max_entries q) l,
              clg_counted = (clg_counted st)(r \<mapsto> ls_counted l)\<rparr>))"

definition budget_of :: "compare_request \<Rightarrow> role \<Rightarrow> nat" where
  "budget_of q r = cq_max_entries q - (case cq_counted_before q r of Some n \<Rightarrow> n | None \<Rightarrow> 0)"

fun collect_roles ::
  "'w machine \<Rightarrow> compare_request \<Rightarrow> (role \<times> side) list \<Rightarrow> collecting \<Rightarrow> kept_listing \<Rightarrow> ('w, collecting) keeping" where
  "collect_roles mc q [] st kept rt = (rt, kept, Inr st)"
| "collect_roles mc q ((r, side) # xs) st kept rt =
     (case listing_of_side mc side q (budget_of q r) kept rt of
        (rt', kept', Inl e) \<Rightarrow> (rt', kept', Inl e)
      | (rt', kept', Inr found) \<Rightarrow>
          (case add_listing q r found st of
             Inl e \<Rightarrow> (rt', kept', Inl e)
           | Inr st' \<Rightarrow> collect_roles mc q xs st' kept' rt'))"

definition each_side :: "compare_sides \<Rightarrow> (role \<times> side) list" where
  "each_side sides =
     [(RoleLeft, cs_left sides), (RoleRight, cs_right sides)]
     @ (case cs_reference sides of Some s \<Rightarrow> [(RoleRef, s)] | None \<Rightarrow> [])"

definition collect_states ::
  "'w machine \<Rightarrow> compare_sides \<Rightarrow> compare_request \<Rightarrow> kept_listing \<Rightarrow> ('w, collected_states) keeping" where
  "collect_states mc sides q kept rt =
     (case collect_roles mc q (each_side sides)
             \<lparr>clg_listings = Map.empty, clg_outside = Map.empty, clg_incomplete = [], clg_counted = Map.empty\<rparr>
             kept rt of
        (rt', kept', r) \<Rightarrow>
          (rt', kept', res_bind r (\<lambda>st.
             Inr \<lparr>cls_table = state_table (clg_listings st) (clg_outside st),
                  cls_incomplete = clg_incomplete st, cls_counted = clg_counted st\<rparr>)))"

subsection \<open>The comparison\<close>

record comparison =
  cn_paths :: "(string \<times> path_comparison) list"
  cn_incomplete :: "incomplete list"
  cn_counted :: "role \<Rightarrow> nat option"
  cn_asked :: "role \<Rightarrow> asked option"

text \<open>The routes of one run: the questions of \<open>CompareReads\<close> asked of its machines.\<close>

definition run_routes :: "'w machine \<Rightarrow> ('w runtime, run_cause) routes" where
  "run_routes mc =
     \<lparr>rt_hash = (\<lambda>rt side paths. side_hash mc side paths rt),
      rt_read = (\<lambda>limit rt side paths. side_read mc side paths limit rt),
      rt_stopped = (\<lambda>rt side. stopped_error_for side rt \<noteq> None \<and> \<not> stopped_for_root_gone side rt),
      rt_show = show_error,
      rt_bad_path = rel_path_run_error\<rparr>"

definition finish_comparison ::
  "'w machine \<Rightarrow> compare_sides \<Rightarrow> collected_states \<Rightarrow> compare_request \<Rightarrow> uses \<Rightarrow> reused option \<Rightarrow> 'w runtime
    \<Rightarrow> 'w runtime \<times> reused option \<times> (run_cause read_stop + comparison)" where
  "finish_comparison mc sides collected q u ru rt =
     (case judge_and_read (run_routes mc) q u sides (cls_table collected) rt ru of
        (rt', ru', r) \<Rightarrow>
          (rt', ru', res_bind r (\<lambda>(paths, asked).
             Inr \<lparr>cn_paths = paths, cn_incomplete = cls_incomplete collected,
                  cn_counted = cls_counted collected, cn_asked = asked\<rparr>)))"

definition compare ::
  "'w machine \<Rightarrow> compare_sides \<Rightarrow> compare_request \<Rightarrow> uses \<Rightarrow> 'w runtime
    \<Rightarrow> 'w runtime \<times> (run_cause read_stop + comparison)" where
  "compare mc sides q u rt =
     (case collect_states mc sides q None rt of
        (rt', _, Inl e) \<Rightarrow> (rt', Inl (RsError e))
      | (rt', _, Inr collected) \<Rightarrow>
          (case finish_comparison mc sides collected q u None rt' of (rt'', _, r) \<Rightarrow> (rt'', r)))"

text \<open>What one side is kept of: its listing, and its hashes and contents.\<close>

definition compare_reusing ::
  "'w machine \<Rightarrow> compare_sides \<Rightarrow> compare_request \<Rightarrow> uses \<Rightarrow> kept_listing \<Rightarrow> reused option \<Rightarrow> 'w runtime
    \<Rightarrow> 'w runtime \<times> kept_listing \<times> reused option \<times> (run_cause read_stop + comparison)" where
  "compare_reusing mc sides q u kept ru rt =
     (case collect_states mc sides q kept rt of
        (rt', kept', Inl e) \<Rightarrow> (rt', kept', ru, Inl (RsError e))
      | (rt', kept', Inr collected) \<Rightarrow>
          (case finish_comparison mc sides collected q u ru rt' of (rt'', ru', r) \<Rightarrow> (rt'', kept', ru', r)))"

end
