(* ===== verification/CompareRules.thy ===== *)
theory CompareRules
  imports CompareStarts ReadsProps AppliedPlan CompareProps
begin

text \<open>
  What collecting and comparing keep: the locale \<open>kept_by_reads\<close> goes on with the operations of
  \<open>CompareStarts\<close> and \<open>CompareReads\<close>. A comparison makes no call that changes a side, and never panics.
\<close>

subsection \<open>Questions over routes\<close>

definition routes_keep :: "('w \<Rightarrow> bool) \<Rightarrow> ('w, 'x) routes \<Rightarrow> bool" where
  "routes_keep P rts \<longleftrightarrow>
     (\<forall>w side entries. P w \<longrightarrow> after P (rt_hash rts w side entries))
     \<and> (\<forall>limit w side entries. P w \<longrightarrow> after P (rt_read rts limit w side entries))"

lemma ask_side_keeps:
  assumes "\<And>w side entries. P w \<Longrightarrow> after P (question w side entries)" "P w"
  shows "after P (ask_side rts question r side paths w known)"
  unfolding ask_side_def Let_def by (intro after_rules assms)

lemma ask_roles_keeps:
  assumes "\<And>w side entries. P w \<Longrightarrow> after P (question w side entries)"
  shows "P (ak_world st) \<Longrightarrow> P (ak_world (fst (ask_roles rts question q sides want rs st answers lost)))"
proof (induction rs arbitrary: st answers lost)
  case (Cons r rs)
  have one: "P w'" if "ask_side rts question r s paths (ak_world st) known = (w', known', result)"
    for s paths known w' known' and result
    using ask_side_keeps[where question = question and P = P, OF assms Cons.prems, of rts r s paths known] that by (simp add: after_def)
  show ?case using Cons one
    by (auto simp: Let_def split: option.splits prod.splits sum.splits)
qed simp

lemma judge_and_read_keeps:
  assumes "routes_keep P rts" "P w"
  shows "P (fst (judge_and_read rts q u compared table w ru))"
proof -
  have hash: "P (ak_world st')" if "ask_by_role rts (rt_hash rts) q sides want st = (st', r)" "P (ak_world st)"
    for sides want st st' r
    using ask_roles_keeps[of P "rt_hash rts" st rts q sides want all_roles Map.empty None] assms(1) that
    by (simp add: ask_by_role_def routes_keep_def)
  have read: "P (ak_world st')" if "ask_by_role rts (rt_read rts limit) q sides want st = (st', r)" "P (ak_world st)"
    for limit sides want st st' r
    using ask_roles_keeps[of P "rt_read rts limit" st rts q sides want all_roles Map.empty None] assms(1) that
    by (simp add: ask_by_role_def routes_keep_def)
  have stage: "P (fst (read_stage rts q u sides to_hash lost paths w' ru'))" if "P w'" for sides to_hash lost paths w' ru'
  proof -
    let ?st = "\<lparr>ak_world = w', ak_cache = map_option (\<lambda>k. (ru_side k, ru_contents k)) ru'\<rparr>"
    obtain st' r where asked: "ask_by_role rts (rt_read rts (cq_content_limit q)) q sides
        (without_lost lost (read_wants u paths)) ?st = (st', r)" by fastforce
    then show ?thesis using read[OF asked] that by (simp add: read_stage_def Let_def)
  qed
  let ?st = "\<lparr>ak_world = w, ak_cache = map_option (\<lambda>k. (ru_side k, ru_hashes k)) ru\<rparr>"
  obtain st' r where asked: "ask_by_role rts (rt_hash rts) q (by_role compared) (hash_wants q u table) ?st = (st', r)"
    by fastforce
  have kept: "P (ak_world st')" using hash[OF asked] assms(2) by simp
  show ?thesis
  proof (cases r)
    case (Inl e)
    then show ?thesis using kept by (simp add: judge_and_read_def Let_def asked)
  next
    case (Inr x)
    then show ?thesis using kept stage[OF kept]
      by (auto simp: judge_and_read_def Let_def asked split: prod.split option.split sum.split)
  qed
qed

subsection \<open>Collecting\<close>

context kept_by_reads
begin

lemma after_path_facts: "P rt \<Longrightarrow> after P (path_facts_of mc side paths rt)"
  unfolding path_facts_of_def by (intro after_rules after_inspect_under_root)

lemma after_scan_starts_loop:
  "P rt \<Longrightarrow> after P (scan_starts_loop mc side max_entries named starts blocked known rt)"
proof (induction "card (set (map trim_slash named) - set blocked)" arbitrary: starts blocked known rt rule: less_induct)
  case less
  let ?request = "\<lparr>sr_scope = ScopeStarts starts, sr_max_entries = max_entries\<rparr>"
  obtain rt1 r where scan: "side_scan mc side ?request rt = (rt1, r)" by fastforce
  have p1: "P rt1" using after_side_reads(1)[OF less.prems, of side ?request] scan by (simp add: after_def)
  note unfold = scan_starts_loop.simps[of mc side max_entries named starts blocked known rt]
  show ?case
  proof (cases "\<exists>e reported. r = Inl e \<and> reported_start e = Some reported
      \<and> reported \<in> set (map trim_slash named) \<and> reported \<notin> set blocked")
    case False
    then show ?thesis using p1 by (auto simp: unfold scan after_def split: sum.split option.split)
  next
    case True
    then obtain e reported where r: "r = Inl e" "reported_start e = Some reported"
      "reported \<in> set (map trim_slash named)" "reported \<notin> set blocked" by blast
    let ?remaining = "filter (\<lambda>name. \<not> is_blocked name blocked) named"
    obtain rt2 c where facts: "path_facts_of mc side (paths_to_check ?remaining) rt1 = (rt2, c)" by fastforce
    have p2: "P rt2" using after_path_facts[OF p1, of side "paths_to_check ?remaining"] facts by (simp add: after_def)
    show ?thesis
    proof (cases c)
      case (Inl e')
      then show ?thesis using p2 r by (simp add: unfold scan facts after_def)
    next
      case (Inr checked)
      let ?blocked = "newly_blocked reported blocked ?remaining (pa_facts checked)"
      have "reported \<in> set ?blocked" "set blocked \<subseteq> set ?blocked"
        by (auto simp: newly_blocked_def set_fold_push_new)
      then have "set (map trim_slash named) - set ?blocked \<subset> set (map trim_slash named) - set blocked"
        using r(3,4) by auto
      then have "card (set (map trim_slash named) - set ?blocked) < card (set (map trim_slash named) - set blocked)"
        by (intro psubset_card_mono) auto
      from less.hyps[OF this p2] show ?thesis using r Inr by (simp add: unfold scan facts Let_def)
    qed
  qed
qed

lemma after_result:
  "(\<And>k e. after P (f k e)) \<Longrightarrow> (\<And>k x. after P (g k x))
     \<Longrightarrow> after P (case r of (k, Inl e) \<Rightarrow> f k e | (k, Inr x) \<Rightarrow> g k x)"
  by (cases r; cases "snd r") auto

lemma after_rest: "(\<And>a b. after P (f a b)) \<Longrightarrow> after P (case r of (a, b) \<Rightarrow> f a b)"
  by (cases r) auto

lemma after_compared_scope:
  "after P a \<Longrightarrow> (\<And>dirs. after P (f dirs)) \<Longrightarrow> (\<And>es. after P (g es))
     \<Longrightarrow> after P (case scope of CsWhole \<Rightarrow> a | CsBelow dirs \<Rightarrow> f dirs | CsEntries es \<Rightarrow> g es)"
  by (cases scope) simp_all

lemma after_scan_named: "P rt \<Longrightarrow> after P (scan_named mc side scope max_entries named blocked rt)"
  unfolding scan_named_def by (cases scope) (auto intro!: after_rules after_scan_starts_loop after_side_reads)

lemma after_with_starts: "P rt \<Longrightarrow> after P (with_starts_themselves mc side dirs blocked l max_entries rt)"
  unfolding with_starts_themselves_def by (intro after_rules after_scan_named)

lemma after_compare_scope: "P rt \<Longrightarrow> after P (compare_scope_of mc side q rt)"
  unfolding compare_scope_of_def Let_def by (intro after_rules after_compared_scope after_checked_include)

lemma after_listed_with_starts: "P rt \<Longrightarrow> after P (listed_with_starts mc side q max_entries sc rt)"
  unfolding listed_with_starts_def
  by (cases sc; cases "cq_scope q") (auto intro!: after_rules after_with_starts)

lemma after_checked_paths: "P rt \<Longrightarrow> after P (checked_paths mc side paths known rt)"
  unfolding checked_paths_def by (intro after_rules after_path_facts)

lemma after_outside_links: "P rt \<Longrightarrow> after P (outside_links mc side named blocked known l rt)"
  unfolding outside_links_def by (intro after_rules after_checked_paths)

lemma after_collect_side: "P rt \<Longrightarrow> after P (collect_side mc side q named max_entries rt)"
  unfolding collect_side_def
  by (rule after_bind[OF after_compare_scope], assumption, rule after_bind[OF after_scan_named], assumption)
     (auto intro!: after_bind after_listed_with_starts after_outside_links after_pair simp: act_return_def
        split: prod.split)

lemma after_listing_of_side:
  assumes "P rt"
  shows "after P (listing_of_side mc side q budget kept rt)"
proof -
  have "after P (case collect_side mc side q (named_of q) budget rt of (rt', r) \<Rightarrow> (rt', f rt' r))" for f :: "_ \<Rightarrow> _ \<Rightarrow> 'x"
    using after_collect_side[OF assms] by (rule after_prod) (rule after_pair)
  then have found: "after P (case collect_side mc side q (named_of q) budget rt of (rt', r) \<Rightarrow> (rt', g r))"
    for g :: "_ \<Rightarrow> 'y" .
  have both: "(case collect_side mc side q (named_of q) budget rt of
        (rt', Inr x) \<Rightarrow> (rt', f x) | (rt', Inl e) \<Rightarrow> (rt', g e))
      = (case collect_side mc side q (named_of q) budget rt of (rt', r) \<Rightarrow> (rt', case r of Inr x \<Rightarrow> f x | Inl e \<Rightarrow> g e))"
    for f g :: "_ \<Rightarrow> 'y" by (simp split: prod.split sum.split)
  show ?thesis
    using assms found
    by (cases kept) (auto simp: listing_of_side_def both after_pair split: option.split)
qed

lemma after_collect_roles: "P rt \<Longrightarrow> after P (collect_roles mc q xs st kept rt)"
proof (induction xs arbitrary: st kept rt)
  case (Cons x xs)
  obtain r side where x: "x = (r, side)" by fastforce
  show ?case unfolding x collect_roles.simps
    by (rule after_prod[OF after_listing_of_side[OF Cons.prems]])
       (auto intro!: Cons.IH simp: after_pair split: prod.split sum.split)
qed (simp add: after_def)

lemma after_collect_states: "P rt \<Longrightarrow> after P (collect_states mc sides q kept rt)"
  unfolding collect_states_def
  by (rule after_prod[OF after_collect_roles]) (auto intro!: after_pair split: prod.split)

lemma run_routes_keep: "routes_keep P (run_routes mc)"
  by (simp add: routes_keep_def run_routes_def after_side_reads)

lemma after_finish_comparison:
  assumes "P rt"
  shows "after P (finish_comparison mc sides collected q u ru rt)"
  unfolding finish_comparison_def
proof (rule after_prod)
  show "after P (judge_and_read (run_routes mc) q u sides (cls_table collected) rt ru)"
    using judge_and_read_keeps[OF run_routes_keep assms] by (simp add: after_def)
qed (auto intro!: after_rest after_pair)

lemma after_compare: "P rt \<Longrightarrow> after P (compare mc sides q u rt)"
  unfolding compare_def
  by (rule after_prod[OF after_collect_states], assumption)
     (intro after_result after_pair after_prod[OF after_finish_comparison] after_rest; assumption)

lemma after_compare_reusing: "P rt \<Longrightarrow> after P (compare_reusing mc sides q u kept ru rt)"
  unfolding compare_reusing_def
  by (rule after_prod[OF after_collect_states], assumption)
     (intro after_result after_pair after_prod[OF after_finish_comparison] after_rest; assumption)

end

subsection \<open>Comparing only reads\<close>

text \<open>A comparison changes nothing. Whatever is compared, however it is asked for and whatever the machines
  answer, collecting, hashing and reading make no call that writes, removes, links or changes permissions
  on a side, and save no backup.\<close>

theorem compare_changes_nothing:
  "log (fst (compare (recorded mc) sides q u rt)) = log rt
   \<and> log (fst (compare_reusing (recorded mc) sides q u kept ru rt)) = log rt"
  using quiet.after_compare[of rt rt mc sides q u] quiet.after_compare_reusing[of rt rt mc sides q u kept ru]
  by (simp add: after_def quiet_since_def)

subsection \<open>Comparing never panics\<close>

lemma state_table_unlisted:
  assumes "(path, st) \<in> set (state_table listings outside)" "listings r = None"
  shows "pst_states st r = None"
  using state_table_row[OF assms(1), of r] assms(2) by (auto simp: side_view_def fill_side_def)

lemma listing_of_side_listed: "add_listing q r found st = Inr st' \<Longrightarrow> dom (clg_listings st') = insert r (dom (clg_listings st))"
  by (cases found) (auto simp: add_listing_def res_simps)

lemma collect_roles_listed:
  "snd (snd (collect_roles mc q xs st kept rt)) = Inr st' \<Longrightarrow> dom (clg_listings st') \<subseteq> dom (clg_listings st) \<union> fst ` set xs"
proof (induction xs arbitrary: st kept rt)
  case (Cons x xs)
  obtain r side where x: "x = (r, side)" by fastforce
  obtain rt1 kept1 found where one: "listing_of_side mc side q (budget_of q r) kept rt = (rt1, kept1, Inr found)"
    and added: "\<exists>st1. add_listing q r found st = Inr st1
        \<and> snd (snd (collect_roles mc q xs st1 kept1 rt1)) = Inr st'"
    using Cons.prems x by (auto split: prod.splits sum.splits)
  then obtain st1 where st1: "add_listing q r found st = Inr st1"
      "snd (snd (collect_roles mc q xs st1 kept1 rt1)) = Inr st'" by blast
  from Cons.IH[OF st1(2)] listing_of_side_listed[OF st1(1)] show ?case by (auto simp: x)
qed simp

lemma collected_rows:
  assumes "collect_states mc sides q kept rt = (rt', kept', Inr collected)"
  shows "rows_have_sides sides (cls_table collected)"
proof -
  let ?st = "\<lparr>clg_listings = Map.empty, clg_outside = Map.empty, clg_incomplete = [], clg_counted = Map.empty\<rparr>"
  obtain st where st: "snd (snd (collect_roles mc q (each_side sides) ?st kept rt)) = Inr st"
    and table: "cls_table collected = state_table (clg_listings st) (clg_outside st)"
    using assms by (auto simp: collect_states_def res_simps split: prod.splits)
  have "dom (clg_listings st) \<subseteq> fst ` set (each_side sides)" using collect_roles_listed[OF st] by simp
  then have listed: "clg_listings st r \<noteq> None \<Longrightarrow> by_role sides r \<noteq> None" for r
    by (cases r; cases "cs_reference sides") (force simp: each_side_def by_role_def)+
  show ?thesis unfolding rows_have_sides_def table
    using state_table_unlisted listed by (metis prod.collapse)
qed

lemma finish_never_panics:
  assumes "collect_states mc sides q kept rt0 = (rt', kept', Inr collected)"
  shows "snd (snd (finish_comparison mc sides collected q u ru rt)) \<noteq> Inl RsPanic"
proof -
  let ?run = "judge_and_read (run_routes mc) q u sides (cls_table collected) rt ru"
  show ?thesis
    using judge_and_read_never_panics[OF collected_rows[OF assms], of "run_routes mc" q u rt ru]
    by (cases ?run; cases "snd (snd ?run)") (auto simp: finish_comparison_def)
qed

lemma compare_no_panic: "snd (compare mc sides q u rt) \<noteq> Inl RsPanic"
  using finish_never_panics[of mc sides q None rt _ _ _ u None]
  by (auto simp: compare_def split: prod.split sum.split) (metis snd_conv)

lemma compare_reusing_no_panic: "snd (snd (snd (compare_reusing mc sides q u kept ru rt))) \<noteq> Inl RsPanic"
  using finish_never_panics[of mc sides q kept rt _ _ _ u ru]
  by (auto simp: compare_reusing_def split: prod.split sum.split) (metis snd_conv)

text \<open>A comparison never panics. Whatever the machines answer or leave out and whichever of them is lost on
  the way, the rows that collecting the sides gives have states only of the sides compared, and every
  index into the sides and into the questions of a lost side finds its entry: it comes to a comparison
  or to an error, also when a side's listing and answers are used again.\<close>

theorem compare_never_panics:
  "snd (compare mc sides q u rt) \<noteq> Inl RsPanic
   \<and> snd (snd (snd (compare_reusing mc sides q u kept ru rt))) \<noteq> Inl RsPanic"
  using compare_no_panic compare_reusing_no_panic by blast

end
