(* ===== verification/Lossy.thy ===== *)
theory Lossy
  imports Prelude
begin

text \<open>
  Showing bytes that may not be UTF-8: \<open>String::from_utf8_lossy\<close> of the standard library, which
  \<open>Path::display\<close> and \<open>to_string_lossy\<close> use too. Every longest prefix of a scalar value that cannot be
  continued becomes one replacement character.
\<close>

definition replacement :: string where
  "replacement = [CHR 0xEF, CHR 0xBF, CHR 0xBD]"

text \<open>
  The length of the invalid sequence at the head of \<open>s\<close>, where no scalar value starts: as many bytes
  as could start one, at least one.
\<close>

fun utf8_broken :: "string \<Rightarrow> nat" where
  "utf8_broken [] = 0"
| "utf8_broken (a # s) =
     (if byte_in 224 239 a
        then (case s of b # _ \<Rightarrow> if utf8_second a b then 2 else 1 | [] \<Rightarrow> 1)
      else if byte_in 240 244 a
        then (case s of
                b # c # _ \<Rightarrow> if utf8_second a b then (if utf8_cont c then 3 else 2) else 1
              | [b] \<Rightarrow> if utf8_second a b then 2 else 1
              | [] \<Rightarrow> 1)
      else 1)"

lemma utf8_broken_le: "utf8_broken s \<le> length s"
  by (cases s) (auto split: list.splits)

lemma utf8_broken_pos: "s \<noteq> [] \<Longrightarrow> utf8_broken s \<noteq> 0"
  by (cases s) (auto split: list.splits)

function utf8_lossy :: "bytes \<Rightarrow> string" where
  "utf8_lossy s =
     (if s = [] then []
      else if utf8_head s \<noteq> 0 then take (utf8_head s) s @ utf8_lossy (drop (utf8_head s) s)
      else replacement @ utf8_lossy (drop (utf8_broken s) s))"
  by pat_completeness auto
termination
  using utf8_head_le utf8_broken_le utf8_broken_pos by (relation "measure length") fastforce+

declare utf8_lossy.simps [simp del]

lemma utf8_lossy_Nil [simp]: "utf8_lossy [] = []"
  by (simp add: utf8_lossy.simps)

text \<open>UTF-8 is shown as it is.\<close>

lemma utf8_lossy_utf8: "is_utf8 s \<Longrightarrow> utf8_lossy s = s"
proof (induction s rule: utf8_lossy.induct)
  case (1 s)
  then show ?case
    by (cases "s = []"; cases "utf8_head s = 0") (simp_all add: utf8_lossy.simps[of s] is_utf8.simps[of s])
qed

text \<open>Whatever the bytes, what is shown is UTF-8.\<close>

lemma utf8_head_take: "utf8_head s \<noteq> 0 \<Longrightarrow> utf8_head (take (utf8_head s) s @ t) = utf8_head s"
  by (cases s) (auto split: list.splits if_splits)

lemma is_utf8_append_head:
  assumes "utf8_head s \<noteq> 0" and "is_utf8 t"
  shows "is_utf8 (take (utf8_head s) s @ t)"
  using assms utf8_head_le[of s]
  by (subst is_utf8.simps) (auto simp: utf8_head_take)

lemma is_utf8_replacement: "is_utf8 t \<Longrightarrow> is_utf8 (replacement @ t)"
  by (subst is_utf8.simps) (simp add: replacement_def byte_in_def utf8_second_def utf8_cont_def)

lemma utf8_lossy_is_utf8: "is_utf8 (utf8_lossy s)"
proof (induction s rule: utf8_lossy.induct)
  case (1 s)
  then show ?case
    by (cases "s = []"; cases "utf8_head s = 0")
       (simp_all add: utf8_lossy.simps[of s] is_utf8_append_head is_utf8_replacement)
qed

end
