(* ===== verification/Sessions.thy ===== *)
theory Sessions
  imports Text Lossy ConfigValue Merge
begin

text \<open>
  The backup sessions (\<open>backup/mod.rs\<close> and \<open>treat/rollback_session.rs\<close> of remote-merge-engine): where
  the store is, how a target is identified in it, the session ids, which session a rollback takes
  and its exit code. An instant is an int, the nanoseconds since the epoch; how an instant is
  written as \<open>%Y%m%d-%H%M%S\<close> and read back is chrono's, a record of two functions.
\<close>

subsection \<open>The store and its targets\<close>

definition backup_store_path :: "string option \<Rightarrow> string option \<Rightarrow> string option" where
  "backup_store_path xdg_data_home home_dir =
     map_option (\<lambda>data_home. path_join data_home ''remote-merge/backups'')
       (case xdg_data_home of
          Some path \<Rightarrow>
            if path_is_absolute path then Some path
            else map_option (\<lambda>h. path_join h ''.local/share'') home_dir
        | None \<Rightarrow> map_option (\<lambda>h. path_join h ''.local/share'') home_dir)"

text \<open>Collecting the components other than \<open>Component::CurDir\<close>.\<close>

definition lexically_normalized :: "string \<Rightarrow> string" where
  "lexically_normalized root_dir =
     (let path = (if path_is_absolute root_dir then ''/'' else []) @ join_with ''/'' (path_names root_dir)
      in if path = [] then ''.'' else path)"

definition local_target_identity :: "string \<Rightarrow> string \<Rightarrow> string" where
  "local_target_identity root_dir startup_directory =
     lexically_normalized
       (if path_is_absolute root_dir then root_dir else path_join startup_directory root_dir)"

record backup_target =
  rti_host :: string
  rti_port :: u16
  rti_root_dir :: string

definition remote_target_identity :: "server_config \<Rightarrow> backup_target" where
  "remote_target_identity c =
     \<lparr>rti_host = sv_host c, rti_port = sv_port c, rti_root_dir = lexically_normalized (sv_root_dir c)\<rparr>"

subsection \<open>Session ids\<close>

record time_format =
  tf_show :: "int \<Rightarrow> string"
  tf_parse :: "string \<Rightarrow> int option"

record session_id =
  sid_timestamp :: int
  sid_sequence :: u64

text \<open>\<open>str::get(..n)\<close> and \<open>str::get(n..)\<close>: None past the end and inside a character.\<close>

definition is_char_boundary :: "nat \<Rightarrow> string \<Rightarrow> bool" where
  "is_char_boundary n s = (n = length s \<or> n < length s \<and> \<not> utf8_cont (s ! n))"

definition get_to :: "nat \<Rightarrow> string \<Rightarrow> string option" where
  "get_to n s = (if is_char_boundary n s then Some (take n s) else None)"

definition get_from :: "nat \<Rightarrow> string \<Rightarrow> string option" where
  "get_from n s = (if is_char_boundary n s then Some (drop n s) else None)"

definition parse_u64 :: "string \<Rightarrow> u64 option" where
  "parse_u64 s = map_option word_of_nat (parse_unsigned (2 ^ 64) s)"

definition parse_session_id :: "time_format \<Rightarrow> string \<Rightarrow> session_id option" where
  "parse_session_id tf session =
     Option.bind (get_to 15 session) (\<lambda>timestamp_text.
     Option.bind (tf_parse tf timestamp_text) (\<lambda>timestamp.
     Option.bind
       (case get_from 15 session of
          Some [] \<Rightarrow> Some 1
        | Some rest \<Rightarrow> Option.bind (strip_prefix ''-'' rest) parse_u64
        | None \<Rightarrow> None) (\<lambda>sequence.
       if sequence < 2 \<and> length session > 15 then None
       else Some \<lparr>sid_timestamp = timestamp, sid_sequence = sequence\<rparr>)))"

fun max_opt :: "'a::linorder list \<Rightarrow> 'a option" where
  "max_opt [] = None"
| "max_opt (x # xs) = Some (fold max xs x)"

definition sequences_at :: "time_format \<Rightarrow> string \<Rightarrow> string list \<Rightarrow> u64 list" where
  "sequences_at tf timestamp existing =
     map sid_sequence (filter (\<lambda>i. tf_show tf (sid_timestamp i) = timestamp)
       (List.map_filter (parse_session_id tf) existing))"

text \<open>The error is \<open>SessionSequenceExhausted\<close>.\<close>

definition next_session_id :: "time_format \<Rightarrow> int \<Rightarrow> string list \<Rightarrow> unit + string" where
  "next_session_id tf now existing =
     (let timestamp = tf_show tf now in
      res_bind
        (case max_opt (sequences_at tf timestamp existing) of
           None \<Rightarrow> Inr 1
         | Some n \<Rightarrow> if n = - 1 then Inl () else Inr (n + 1))
        (\<lambda>next. Inr (if next = 1 then timestamp else timestamp @ ''-'' @ show_nat (unat next))))"

text \<open>The derived order: by the timestamp, then by the sequence.\<close>

definition sid_less :: "session_id \<Rightarrow> session_id \<Rightarrow> bool" where
  "sid_less a b \<longleftrightarrow>
     sid_timestamp a < sid_timestamp b
     \<or> sid_timestamp a = sid_timestamp b \<and> sid_sequence a < sid_sequence b"

datatype ordering = Less | Equal | Greater

definition compare_session_ids :: "time_format \<Rightarrow> string \<Rightarrow> string \<Rightarrow> ordering option" where
  "compare_session_ids tf l r =
     Option.bind (parse_session_id tf l) (\<lambda>a.
     Option.bind (parse_session_id tf r) (\<lambda>b.
       Some (if sid_less a b then Less else if a = b then Equal else Greater)))"

definition nanos_per_day :: int where
  "nanos_per_day = 86400000000000"

definition is_session_expired :: "time_format \<Rightarrow> string \<Rightarrow> u32 \<Rightarrow> int \<Rightarrow> bool option" where
  "is_session_expired tf session retention_days now =
     map_option (\<lambda>i. now - sid_timestamp i \<ge> uint retention_days * nanos_per_day)
       (parse_session_id tf session)"

subsection \<open>The session of a rollback\<close>

record backup_entry =
  be_path :: string
  be_size :: "u64 option"
  be_link_target :: "string option"

record backup_session =
  bs_session_id :: string
  bs_file_count :: nat
  bs_files :: "backup_entry list"
  bs_expired :: bool

definition backup_session_new :: "string \<Rightarrow> backup_entry list \<Rightarrow> bool \<Rightarrow> backup_session" where
  "backup_session_new session files expired =
     \<lparr>bs_session_id = session, bs_file_count = length files, bs_files = files, bs_expired = expired\<rparr>"

datatype session_choice_error = NoSessions | SessionNotFound string | SessionExpired string | AllExpired

fun show_session_choice :: "session_choice_error \<Rightarrow> string" where
  "show_session_choice NoSessions = ''No backup sessions found''"
| "show_session_choice (SessionNotFound i) = ''No backup sessions found with the ID '' @ i"
| "show_session_choice (SessionExpired i) =
     ''backup session '' @ i @ '' has expired; use --force to restore it''"
| "show_session_choice AllExpired =
     ''No backup sessions found that have not expired; name one with --session and use --force to restore it''"

definition choose_session ::
  "backup_session list \<Rightarrow> string option \<Rightarrow> bool \<Rightarrow> session_choice_error + backup_session" where
  "choose_session sessions requested force =
     (case requested of
        Some i \<Rightarrow>
          res_bind (ok_or (SessionNotFound i) (find (\<lambda>s. bs_session_id s = i) sessions)) (\<lambda>session.
            if bs_expired session \<and> \<not> force then Inl (SessionExpired i) else Inr session)
      | None \<Rightarrow>
          if sessions = [] then Inl NoSessions
          else ok_or AllExpired (find (\<lambda>s. \<not> bs_expired s) sessions))"

definition with_expiry :: "time_format \<Rightarrow> backup_session list \<Rightarrow> u32 \<Rightarrow> int \<Rightarrow> backup_session list" where
  "with_expiry tf sessions retention_days now =
     map (\<lambda>s. s\<lparr>bs_expired := is_session_expired tf (bs_session_id s) retention_days now = Some True\<rparr>)
       sessions"

record rollback_counts =
  rbc_restored :: nat
  rbc_skipped :: nat
  rbc_failed :: nat

definition rollback_exit_code :: "rollback_counts \<Rightarrow> bool \<Rightarrow> bool \<Rightarrow> int" where
  "rollback_exit_code counts dry_run stop =
     (let clean = (if dry_run then rbc_failed counts = 0
           else rbc_restored counts > 0 \<and> rbc_skipped counts = 0 \<and> rbc_failed counts = 0)
      in if clean \<and> \<not> stop then exit_success else exit_error)"

subsection \<open>Fresh ids\<close>

lemma max_opt_upper:
  assumes "max_opt xs = Some m"
  shows "m \<in> set xs \<and> (\<forall>x \<in> set xs. x \<le> m)"
proof (cases xs)
  case (Cons y ys)
  then have "m = Max (set (y # ys))" using assms by (simp add: Max.set_eq_fold del: list.set)
  then show ?thesis using Cons by (metis List.finite_set Max_ge Max_in list.distinct(1) set_empty)
qed (use assms in simp)

lemma max_opt_None: "max_opt xs = None \<longleftrightarrow> xs = []"
  by (cases xs) simp_all

text \<open>What is relied on of chrono at one instant: the text has fifteen one-byte characters and names a
  second that is written the same way.\<close>

definition writes_second :: "time_format \<Rightarrow> int \<Rightarrow> int \<Rightarrow> bool" where
  "writes_second tf now second \<longleftrightarrow>
     tf_parse tf (tf_show tf now) = Some second \<and> tf_show tf second = tf_show tf now
     \<and> length (tf_show tf now) = 15"

lemma parse_first_id:
  assumes "writes_second tf now second"
  shows "parse_session_id tf (tf_show tf now) = Some \<lparr>sid_timestamp = second, sid_sequence = 1\<rparr>"
  using assms
  by (simp add: writes_second_def parse_session_id_def get_to_def get_from_def is_char_boundary_def)

lemma parse_next_id:
  assumes "writes_second tf now second" and "1 < n"
  shows "parse_session_id tf (tf_show tf now @ ''-'' @ show_nat (unat n)) =
    Some \<lparr>sid_timestamp = second, sid_sequence = n\<rparr>"
proof -
  have "unat n < 2 ^ LENGTH(64)" by (rule unsigned_less)
  then have "parse_u64 (show_nat (unat n)) = Some n"
    by (simp add: parse_u64_def parse_show_nat del: One_nat_def)
  moreover have "\<not> n < 2" using assms(2) by unat_arith
  moreover have "\<not> utf8_cont CHR ''-''" by (simp add: utf8_cont_def byte_in_def)
  ultimately show ?thesis using assms(1)
    by (simp add: writes_second_def parse_session_id_def get_to_def get_from_def is_char_boundary_def
        nth_append)
qed

lemma word_inc_less: "k \<noteq> - 1 \<Longrightarrow> k < k + 1" for k :: u64
  using inc_less_eq_iff[of k k] by (simp add: not_le)

lemma sequence_at:
  assumes "e \<in> set existing" "parse_session_id tf e = Some m" "tf_show tf (sid_timestamp m) = timestamp"
  shows "sid_sequence m \<in> set (sequences_at tf timestamp existing)"
  using assms by (force simp: sequences_at_def set_map_filter)

lemma next_session_id_parsed:
  assumes "writes_second tf now second" and "next_session_id tf now existing = Inr i"
  shows "\<exists>n. parse_session_id tf i = Some \<lparr>sid_timestamp = second, sid_sequence = n\<rparr>
    \<and> (\<forall>k \<in> set (sequences_at tf (tf_show tf now) existing). k < n)"
proof (cases "max_opt (sequences_at tf (tf_show tf now) existing)")
  case None
  then show ?thesis using assms parse_first_id[OF assms(1)]
    by (simp add: next_session_id_def max_opt_None)
next
  case (Some k)
  then have k: "k \<noteq> - 1" and i: "i = (if k + 1 = 1 then tf_show tf now
      else tf_show tf now @ ''-'' @ show_nat (unat (k + 1)))"
    using assms(2) by (auto simp: next_session_id_def Let_def split: if_splits)
  have less: "k < k + 1" using k by (simp add: word_inc_less)
  then have "\<forall>x \<in> set (sequences_at tf (tf_show tf now) existing). x < k + 1"
    using max_opt_upper[OF Some] by (auto intro: le_less_trans)
  moreover have "parse_session_id tf i = Some \<lparr>sid_timestamp = second, sid_sequence = k + 1\<rparr>"
  proof (cases "k = 0")
    case True
    then show ?thesis using i parse_first_id[OF assms(1)] by simp
  next
    case False
    then have "1 < k + 1" using less by unat_arith
    then show ?thesis using i False parse_next_id[OF assms(1)] by simp
  qed
  ultimately show ?thesis by blast
qed

end
