(* ===== verification/Rollback.thy ===== *)
theory Rollback
  imports Sessions CompareFlow
begin

text \<open>
  What a rollback does with each path of a session (\<open>treat/rollback.rs\<close> of remote-merge-engine): the
  record, the facts gathered of the target, and the decision. One path that cannot be resolved fails
  them all, and one that now leads elsewhere keeps the others from being restored.
\<close>

subsection \<open>Paths\<close>

text \<open>The equality of \<open>Path\<close> compares components; a leading \<open>.\<close> of a relative path is one.\<close>

definition path_parts :: "string \<Rightarrow> bool \<times> bool \<times> string list" where
  "path_parts p =
     (path_is_absolute p, \<not> path_is_absolute p \<and> hd (split_on CHR ''/'' p) = ''.'', path_names p)"

definition path_eq :: "string \<Rightarrow> string \<Rightarrow> bool" where
  "path_eq a b = (path_parts a = path_parts b)"

definition parent_parts :: "string \<Rightarrow> (bool \<times> bool \<times> string list) option" where
  "parent_parts p =
     (case path_parts p of (absolute, dot, names) \<Rightarrow>
        if names \<noteq> [] then Some (absolute, dot, butlast names)
        else if dot then Some (False, False, []) else None)"

subsection \<open>Records\<close>

datatype backup_record =
    BackupFile string bytes
  | BackupSymlink string "string option" "string option"

datatype restore_record = RecordedFile string | RecordedLink string string | ReplacedLink

definition path_text :: "string \<Rightarrow> string + string" where
  "path_text path =
     (if is_utf8 path then Inr path
      else Inl (''the recorded path '' @ utf8_lossy path @ '' is not UTF-8''))"

definition recorded_of :: "backup_record \<Rightarrow> string + restore_record" where
  "recorded_of r =
     (case r of
        BackupFile real_path _ \<Rightarrow> map_sum id RecordedFile (path_text real_path)
      | BackupSymlink _ (Some expected_target) (Some parent) \<Rightarrow>
          res_bind (path_text expected_target) (\<lambda>t.
          res_bind (path_text parent) (\<lambda>p. Inr (RecordedLink t p)))
      | BackupSymlink _ _ _ \<Rightarrow> Inr ReplacedLink)"

datatype target_facts =
    FactsUnresolvable string
  | FactsResolved side_state resolved_path resolved_path

subsection \<open>The decision\<close>

datatype restore_entry = Restore | RestoreSkip string | RestoreFail string

datatype judged = JudgedEntry restore_entry | Blocks string | JudgedUnresolvable string

definition parent_gone :: string where
  "parent_gone = ''parent directory no longer exists''"

definition link_not_supported :: string where
  "link_not_supported = ''symlink restore not supported''"

definition changed_location :: string where
  "changed_location = ''path now resolves to a different location''"

definition link_changed :: string where
  "link_changed = ''symlink changed after merge''"

definition judge_file :: "string \<Rightarrow> side_state \<Rightarrow> resolved_path \<Rightarrow> judged" where
  "judge_file recorded_path state entry =
     (case state of
        SsOther \<Rightarrow> JudgedEntry (RestoreFail (show_undecidable (NotRegularFile [RoleTarget])))
      | SsDirectory \<Rightarrow> JudgedEntry (RestoreFail (show_undecidable (NotRegularFile [RoleTarget])))
      | SsUnreadableName \<Rightarrow> JudgedEntry (RestoreFail (show_undecidable UnreadableName))
      | SsSymlink _ _ \<Rightarrow> Blocks changed_location
      | SsFile _ _ \<Rightarrow>
          (case entry of
             ResolvedExists real_path EkFile \<Rightarrow>
               if path_eq real_path recorded_path then JudgedEntry Restore else Blocks changed_location
           | _ \<Rightarrow> Blocks changed_location)
      | SsAbsent \<Rightarrow>
          (case entry of
             ResolvedAncestorNotDirectory _ _ \<Rightarrow> JudgedEntry (RestoreSkip parent_gone)
           | ResolvedMissing parent parent_exists \<Rightarrow>
               if \<not> parent_exists then JudgedEntry (RestoreSkip parent_gone)
               else if parent_parts recorded_path = Some (path_parts parent) then JudgedEntry Restore
               else Blocks changed_location
           | _ \<Rightarrow> Blocks changed_location))"

definition judge_link :: "string \<Rightarrow> string \<Rightarrow> side_state \<Rightarrow> resolved_path \<Rightarrow> judged" where
  "judge_link expected_target recorded_parent state parent =
     (case state of
        SsSymlink target _ \<Rightarrow>
          if target = expected_target then
            (case parent of
               ResolvedExists real_path _ \<Rightarrow>
                 if path_eq real_path recorded_parent then JudgedEntry Restore else Blocks changed_location
             | ResolvedSymlink _ real_path _ \<Rightarrow>
                 if path_eq real_path recorded_parent then JudgedEntry Restore else Blocks changed_location
             | _ \<Rightarrow> Blocks changed_location)
          else Blocks link_changed
      | _ \<Rightarrow> Blocks link_changed)"

definition judge_restore :: "restore_record \<Rightarrow> target_facts \<Rightarrow> judged" where
  "judge_restore r facts =
     (case (r, facts) of
        (ReplacedLink, _) \<Rightarrow> JudgedEntry (RestoreSkip link_not_supported)
      | (_, FactsUnresolvable cause) \<Rightarrow> JudgedUnresolvable cause
      | (RecordedFile real_path, FactsResolved state entry parent) \<Rightarrow> judge_file real_path state entry
      | (RecordedLink expected_target p, FactsResolved state entry parent) \<Rightarrow>
          judge_link expected_target p state parent)"

definition unresolvable_text :: "string \<Rightarrow> string" where
  "unresolvable_text cause = ''cannot resolve path: '' @ cause"

fun unresolvable_cause :: "judged \<Rightarrow> string option" where
  "unresolvable_cause (JudgedUnresolvable cause) = Some cause"
| "unresolvable_cause _ = None"

fun blocking_reason :: "judged \<Rightarrow> string option" where
  "blocking_reason (Blocks reason) = Some reason"
| "blocking_reason _ = None"

definition final_entry :: "string option \<Rightarrow> string option \<Rightarrow> judged \<Rightarrow> restore_entry" where
  "final_entry unresolvable blocking j =
     (case (j, unresolvable) of
        (JudgedUnresolvable cause, _) \<Rightarrow> RestoreFail (unresolvable_text cause)
      | (_, Some cause) \<Rightarrow> RestoreFail (unresolvable_text cause)
      | (Blocks reason, None) \<Rightarrow> RestoreSkip reason
      | (JudgedEntry Restore, None) \<Rightarrow>
          (case blocking of Some reason \<Rightarrow> RestoreSkip reason | None \<Rightarrow> Restore)
      | (JudgedEntry e, None) \<Rightarrow> e)"

definition rollback_plan :: "(string \<times> restore_record \<times> target_facts) list \<Rightarrow> (string \<times> restore_entry) list" where
  "rollback_plan paths =
     (let js = map (\<lambda>(path, r, facts). (path, judge_restore r facts)) paths;
          unresolvable = find_map (\<lambda>(_, j). unresolvable_cause j) js;
          blocking = find_map (\<lambda>(_, j). blocking_reason j) js
      in map (\<lambda>(path, j). (path, final_entry unresolvable blocking j)) js)"

end
