(* ===== verification/RollbackApply.thy ===== *)
theory RollbackApply
  imports Rollback MergeApply CompareStarts
begin

text \<open>
  Restoring a session (\<open>runtime/rollback_apply.rs\<close>, \<open>rollback_facts.rs\<close>, \<open>rollback_restore_one.rs\<close>,
  \<open>rollback_root_gone.rs\<close>, \<open>restore_saved.rs\<close> and \<open>core_backup.rs\<close> of remote-merge): gathering the facts
  of the target, deciding each path, saving what is there now or taking its hash, and writing the
  record back. The operations of the store of backups that a merge does not use are a parameter.
\<close>

record 'w store =
  bk_reserve :: "'w \<Rightarrow> 'w \<times> (run_error + string)"
  bk_prepare :: "side \<Rightarrow> string \<Rightarrow> 'w \<Rightarrow> 'w \<times> (run_error + unit)"
  bk_finish :: "string \<Rightarrow> 'w \<Rightarrow> 'w"
  bk_read :: "side \<Rightarrow> string \<Rightarrow> string \<Rightarrow> 'w \<Rightarrow> 'w \<times> (run_error + backup_record)"
  bk_cleanup :: "'w \<Rightarrow> 'w \<times> (run_error + nat)"
  bk_sessions :: "side \<Rightarrow> 'w \<Rightarrow> 'w \<times> (run_error + backup_session list)"

datatype restore_outcome = Restored "string option" | RestoreSkipped string | RestoreFailed string

record restoring =
  rg_entry :: entry_path
  rg_record :: backup_record
  rg_state :: side_state

type_synonym restorings = "(string \<times> restoring) list"

subsection \<open>The store\<close>

fun prepare_targets :: "'w store \<Rightarrow> side list \<Rightarrow> string \<Rightarrow> ('w, unit) act" where
  "prepare_targets bk [] session rt = (rt, Inr ())"
| "prepare_targets bk (t # ts) session rt =
     (case on_world (bk_prepare bk t session) rt of
        (rt', Inl e) \<Rightarrow> (rt', Inl e)
      | (rt', Inr _) \<Rightarrow> prepare_targets bk ts session rt')"

definition reserve_backup_session :: "'w store \<Rightarrow> side list \<Rightarrow> ('w, string) act" where
  "reserve_backup_session bk targets rt =
     (case on_world (bk_reserve bk) rt of
        (rt', Inl e) \<Rightarrow> (rt', Inl e)
      | (rt', Inr session) \<Rightarrow>
          (case prepare_targets bk targets session rt' of
             (rt'', r) \<Rightarrow> (rt'', res_bind r (\<lambda>_. Inr session))))"

definition finish_backup_session :: "'w store \<Rightarrow> string \<Rightarrow> 'w runtime \<Rightarrow> 'w runtime" where
  "finish_backup_session bk session rt = rt\<lparr>rn_world := bk_finish bk session (rn_world rt)\<rparr>"

subsection \<open>The facts of the target\<close>

definition unresolved_cause :: "run_error \<Rightarrow> string" where
  "unresolved_cause e =
     (case outermost e of
        CauseOther (RcResolve re) # _ \<Rightarrow> resolve_cause re
      | _ \<Rightarrow> show_error e)"

definition not_all_listed :: string where
  "not_all_listed = ''the paths of the session could not all be listed on the target''"

definition target_request :: "string list \<Rightarrow> 'w runtime \<Rightarrow> compare_request" where
  "target_request names rt =
     \<lparr>cq_scope = CsEntries names, cq_max_entries = cf_max_scan_entries (rn_config rt),
      cq_entry_limit = LimitPerDirectory, cq_counted_before = Map.empty, cq_method = ByMetadata,
      cq_named_files = None, cq_follow = FollowNo, cq_external_links = ExternalFollow,
      cq_content_limit = from_force False, cq_unfollowable_links = UnfollowableStop,
      cq_lost_destination = StopCommand\<rparr>"

definition target_states :: "'w machine \<Rightarrow> side \<Rightarrow> string list \<Rightarrow> ('w, (string \<times> side_state) list) act" where
  "target_states mc target names rt =
     (if names = [] then (rt, Inr [])
      else
        (let q = target_request names rt in
         case collect_side mc target q names (cq_max_entries q) rt of
           (rt', Inl e) \<Rightarrow> (rt', Inl e)
         | (rt', Inr (l, _)) \<Rightarrow>
             (case check_unfollowable (cq_unfollowable_links q) l of
                Inl failure \<Rightarrow> (rt', Inl [CauseOther (RcScan failure)])
              | Inr _ \<Rightarrow>
                  if ls_truncated l \<or> ls_cycle l \<noteq> None then (rt', Inl (run_error_text not_all_listed))
                  else
                    (rt', Inr (List.map_filter (\<lambda>(path, st). map_option (Pair path) (pst_states st RoleTarget))
                       (state_table [RoleTarget \<mapsto> l] Map.empty))))))"

text \<open>Which of the distinct questions answer a path and its parent.\<close>

fun facts_layout :: "entry_path list \<Rightarrow> rel_path list \<Rightarrow> rel_path list \<times> (entry_path \<times> nat \<times> nat) list" where
  "facts_layout [] asked = (asked, [])"
| "facts_layout (path # paths) asked =
     (case distinct_add (ep_rel path) asked of
        (asked1, at_entry) \<Rightarrow>
          (case distinct_add (fst (entry_parent_and_name path)) asked1 of
             (asked2, at_parent) \<Rightarrow>
               (case facts_layout paths asked2 of
                  (asked3, layout) \<Rightarrow> (asked3, (path, at_entry, at_parent) # layout))))"

definition resolved_at ::
  "(string + resolved_path) list \<Rightarrow> entry_path \<times> nat \<times> nat \<Rightarrow> string + string \<times> resolved_path \<times> resolved_path" where
  "resolved_at answers x =
     (case x of (path, at_entry, at_parent) \<Rightarrow>
        (case (answers ! at_entry, answers ! at_parent) of
           (Inr entry, Inr parent) \<Rightarrow> Inr (entry_as_str path, entry, parent)
         | (Inl cause, _) \<Rightarrow> Inl cause
         | (_, Inl cause) \<Rightarrow> Inl cause))"

definition facts_with :: "(string \<times> side_state) list \<Rightarrow> string + string \<times> resolved_path \<times> resolved_path \<Rightarrow> target_facts" where
  "facts_with table r =
     (case r of
        Inl cause \<Rightarrow> FactsUnresolvable cause
      | Inr (name, entry, parent) \<Rightarrow>
          FactsResolved (case map_of table name of Some s \<Rightarrow> s | None \<Rightarrow> SsAbsent) entry parent)"

definition rollback_facts :: "'w machine \<Rightarrow> side \<Rightarrow> entry_path list \<Rightarrow> ('w, target_facts list) act" where
  "rollback_facts mc target paths rt =
     (case facts_layout paths [] of
        (asked, layout) \<Rightarrow>
          (case inspect_under_root mc target asked MissingAtStart rt of
             (rt', Inl e) \<Rightarrow>
               if is_lost_error e \<or> is_root_missing e then (rt', Inl e)
               else (rt', Inr (map (\<lambda>_. FactsUnresolvable (unresolved_cause e)) paths))
           | (rt', Inr answered) \<Rightarrow>
               (let answers = map (res_map_err unresolved_cause) (ur_answers answered);
                    resolved = map (resolved_at answers) layout;
                    names = List.map_filter (\<lambda>r. case r of Inr (name, _, _) \<Rightarrow> Some name | Inl _ \<Rightarrow> None) resolved
                in case target_states mc target names rt' of
                     (rt'', Inl e) \<Rightarrow> (rt'', Inl e)
                   | (rt'', Inr table) \<Rightarrow> (rt'', Inr (map (facts_with table) resolved)))))"

subsection \<open>One path\<close>

definition restore_one ::
  "(bytes \<Rightarrow> string) \<Rightarrow> 'w machine \<Rightarrow> side \<Rightarrow> restoring \<Rightarrow> before
    \<Rightarrow> 'w runtime \<Rightarrow> 'w runtime \<times> restore_outcome option" where
  "restore_one hex mc target r before rt =
     (case (case rg_record r of
              BackupFile _ content \<Rightarrow>
                settled hex mc target (rg_entry r) (ChWrite before content)
                  (io_write (for_side mc target rt) (rg_entry r) content) rt
            | BackupSymlink link_target _ _ \<Rightarrow>
                if is_utf8 link_target then
                  create_or_replace_symlink hex mc target (rg_entry r) link_target
                    (is_symlink (Some (rg_state r))) rt
                else (rt, Some (Inl (run_error_text ''the recorded link target is not UTF-8'')))) of
        (rt', None) \<Rightarrow> (rt', None)
      | (rt', Some (Inr _)) \<Rightarrow> (rt', Some (Restored None))
      | (rt', Some (Inl e)) \<Rightarrow> (rt', Some (RestoreFailed (show_error e))))"

text \<open>\<open>before_from_saved\<close>: None is the record of a symlink.\<close>

definition before_from_saved :: "run_error + backup_record \<Rightarrow> run_error + before option" where
  "before_from_saved saved =
     (case saved of
        Inr (BackupSymlink _ _ _) \<Rightarrow> Inr None
      | Inr (BackupFile _ content) \<Rightarrow> Inr (Some (BfContent content))
      | Inl e \<Rightarrow> Inl (CauseOther (RcText ''cannot read back the backup saved before restoring'') # e))"

definition save_current ::
  "'w machine \<Rightarrow> side \<Rightarrow> string \<Rightarrow> restoring \<Rightarrow> string \<Rightarrow> (op_failure + bytes) option \<Rightarrow> ('w, string option) act" where
  "save_current mc target path r session content rt =
     (case (rg_state r, rg_record r) of
        (SsAbsent, _) \<Rightarrow> (rt, Inr None)
      | (SsFile _ _, BackupFile real_path _) \<Rightarrow>
          (case content of
             Some (Inr bs) \<Rightarrow>
               (case on_world (bk_save_file mc target session path real_path bs) rt of
                  (rt', saved) \<Rightarrow> (rt', res_bind saved (\<lambda>_. Inr (Some session))))
           | Some (Inl failure) \<Rightarrow> (rt, Inl (run_error_text (show_op_failure failure)))
           | None \<Rightarrow> (rt, Inl (run_error_text ''the current content was not read'')))
      | (SsSymlink current _, BackupSymlink link_target _ (Some parent)) \<Rightarrow>
          if is_utf8 current then
            (case on_world (bk_save_symlink mc target session path current (Some (link_target, parent))) rt of
               (rt', saved) \<Rightarrow> (rt', res_bind saved (\<lambda>_. Inr (Some session))))
          else (rt, Inl (run_error_text ''the current link target is not UTF-8''))
      | _ \<Rightarrow> (rt, Inl (run_error_text ''the target is no longer what the record restores'')))"

text \<open>The last part of \<open>save_and_restore\<close>: what becomes of the outcome once something was saved.\<close>

definition outcome_with_saved :: "string \<Rightarrow> restore_outcome \<Rightarrow> restore_outcome" where
  "outcome_with_saved saved out =
     (case out of
        Restored _ \<Rightarrow> Restored (Some saved)
      | RestoreFailed e \<Rightarrow> RestoreFailed (show_error (with_backup (Some saved) (run_error_text e)))
      | RestoreSkipped reason \<Rightarrow> RestoreSkipped reason)"

text \<open>The error is a text by then, so the backup of a half-written file is not named.\<close>

lemma failed_restore_names_no_backup:
  "outcome_with_saved saved (RestoreFailed e) = RestoreFailed e"
  by (simp add: outcome_with_saved_def with_backup_def outermost_def run_error_text_def show_error_def)

definition save_and_restore ::
  "(bytes \<Rightarrow> string) \<Rightarrow> 'w machine \<Rightarrow> 'w store \<Rightarrow> side \<Rightarrow> string \<Rightarrow> restoring \<Rightarrow> string
    \<Rightarrow> (op_failure + bytes) option \<Rightarrow> 'w runtime \<Rightarrow> 'w runtime \<times> restore_outcome option" where
  "save_and_restore hex mc bk target path r session content rt =
     (case save_current mc target path r session content rt of
        (rt1, Inl e) \<Rightarrow> (rt1, Some (RestoreFailed (''backup failed: '' @ show_error e)))
      | (rt1, Inr None) \<Rightarrow> restore_one hex mc target r BfAbsent rt1
      | (rt1, Inr (Some saved)) \<Rightarrow>
          (case on_world (bk_read bk target saved path) rt1 of
             (rt2, read_back) \<Rightarrow>
               (case before_from_saved read_back of
                  Inl e \<Rightarrow> (rt2, Some (RestoreFailed (show_error e)))
                | Inr before \<Rightarrow>
                    (case restore_one hex mc target r (case before of Some b \<Rightarrow> b | None \<Rightarrow> BfUnknown) rt2 of
                       (rt3, out) \<Rightarrow> (rt3, map_option (outcome_with_saved saved) out)))))"

subsection \<open>The paths to restore\<close>

definition present_files :: "restorings \<Rightarrow> entry_path list" where
  "present_files rs = map (\<lambda>(_, r). rg_entry r) (filter (\<lambda>(_, r). is_file (Some (rg_state r))) rs)"

definition hashes_before_restore ::
  "'w machine \<Rightarrow> side \<Rightarrow> restorings \<Rightarrow> 'w runtime \<Rightarrow> 'w runtime \<times> (string + (string \<times> before) list)" where
  "hashes_before_restore mc target rs rt =
     (let files = present_files rs in
      if files = [] then (rt, Inr [])
      else
        (case io_states_before (for_side mc target rt) files rt of
           (rt', r) \<Rightarrow> (rt', res_map_err show_error r)))"

definition contents_to_save ::
  "'w machine \<Rightarrow> side \<Rightarrow> restorings \<Rightarrow> bool \<Rightarrow> 'w runtime \<Rightarrow> 'w runtime \<times> (string + bytes by_path)" where
  "contents_to_save mc target rs force rt =
     (let files = present_files rs in
      if files = [] then (rt, Inr [])
      else
        (case io_read (for_side mc target rt) files (from_force force) rt of
           (rt', r) \<Rightarrow> (rt', res_map_err show_error (map_sum id bt_of r))))"

definition restore_prefix :: "string + 'a \<Rightarrow> string + 'b \<Rightarrow> string option" where
  "restore_prefix contents befores =
     (case (contents, befores) of
        (Inl _, _) \<Rightarrow> Some ''backup failed: read failed: ''
      | (_, Inl _) \<Rightarrow> Some ''read failed: target: ''
      | _ \<Rightarrow> None)"

definition root_gone_before_restore ::
  "side \<Rightarrow> restorings \<Rightarrow> string + 'a \<Rightarrow> string + 'b \<Rightarrow> 'w runtime \<Rightarrow> (string \<times> restore_outcome) list option" where
  "root_gone_before_restore target rs contents befores rt =
     Option.bind (restore_prefix contents befores) (\<lambda>front.
     Option.bind (find (\<lambda>(_, r). is_file (Some (rg_state r))) rs) (\<lambda>(found, _).
     map_option (\<lambda>errors. zip (map fst rs) (map RestoreFailed errors))
       (root_gone_before_changes target (map fst rs) found front rt)))"

text \<open>One turn of the loop: with a session the current content is saved first, without one its hash was
  taken.\<close>

definition restore_in_turn ::
  "(bytes \<Rightarrow> string) \<Rightarrow> 'w machine \<Rightarrow> 'w store \<Rightarrow> side \<Rightarrow> string option \<Rightarrow> string + bytes by_path
    \<Rightarrow> string + (string \<times> before) list \<Rightarrow> string \<times> restoring \<Rightarrow> 'w runtime \<Rightarrow> 'w runtime \<times> restore_outcome option" where
  "restore_in_turn hex mc bk target session contents befores x rt =
     (case x of (path, r) \<Rightarrow>
       (case session of
          Some s \<Rightarrow>
            (case (is_file (Some (rg_state r)), contents) of
               (True, Inl cause) \<Rightarrow> (rt, Some (RestoreFailed (''backup failed: read failed: '' @ cause)))
             | _ \<Rightarrow>
                 save_and_restore hex mc bk target path r s
                   (case contents of Inr cs \<Rightarrow> map_of cs path | Inl _ \<Rightarrow> None) rt)
        | None \<Rightarrow>
            (case (rg_state r, befores) of
               (SsFile _ _, Inl cause) \<Rightarrow> (rt, Some (RestoreFailed (''read failed: target: '' @ cause)))
             | (SsAbsent, _) \<Rightarrow> restore_one hex mc target r BfAbsent rt
             | (_, Inr bs) \<Rightarrow>
                 restore_one hex mc target r (case map_of bs path of Some b \<Rightarrow> b | None \<Rightarrow> BfUnknown) rt
             | (_, Inl _) \<Rightarrow> restore_one hex mc target r BfUnknown rt)))"

fun restore_loop ::
  "(bytes \<Rightarrow> string) \<Rightarrow> 'w machine \<Rightarrow> 'w store \<Rightarrow> side \<Rightarrow> string option \<Rightarrow> string + bytes by_path
    \<Rightarrow> string + (string \<times> before) list \<Rightarrow> restorings \<Rightarrow> 'w runtime
    \<Rightarrow> 'w runtime \<times> (string \<times> restore_outcome) list option" where
  "restore_loop hex mc bk target session contents befores [] rt = (rt, Some [])"
| "restore_loop hex mc bk target session contents befores (x # xs) rt =
     (case restore_in_turn hex mc bk target session contents befores x rt of
        (rt', None) \<Rightarrow> (rt', None)
      | (rt', Some out) \<Rightarrow>
          (case restore_loop hex mc bk target session contents befores xs rt' of
             (rt'', done) \<Rightarrow> (rt'', map_option (\<lambda>d. (fst x, out) # d) done)))"

definition session_for ::
  "'w store \<Rightarrow> side \<Rightarrow> restorings \<Rightarrow> ('w, string option) act" where
  "session_for bk target rs rt =
     (if bc_enabled (cf_backup (rn_config rt)) \<and> (\<exists>(_, r) \<in> set rs. rg_state r \<noteq> SsAbsent)
      then (case reserve_backup_session bk [target] rt of (rt', r) \<Rightarrow> (rt', res_bind r (\<lambda>s. Inr (Some s))))
      else (rt, Inr None))"

text \<open>Either the hashes or the contents are asked for, in one question.\<close>

definition ask_before_restore ::
  "'w machine \<Rightarrow> side \<Rightarrow> restorings \<Rightarrow> bool \<Rightarrow> string option \<Rightarrow> 'w runtime
    \<Rightarrow> 'w runtime \<times> (string + (string \<times> before) list) \<times> (string + bytes by_path)" where
  "ask_before_restore mc target rs force session rt =
     (case session of
        None \<Rightarrow> (case hashes_before_restore mc target rs rt of (rt', b) \<Rightarrow> (rt', b, Inr []))
      | Some _ \<Rightarrow> (case contents_to_save mc target rs force rt of (rt', c) \<Rightarrow> (rt', Inr [], c)))"

definition restore_paths ::
  "(bytes \<Rightarrow> string) \<Rightarrow> 'w machine \<Rightarrow> 'w store \<Rightarrow> side \<Rightarrow> restorings \<Rightarrow> bool
    \<Rightarrow> ('w, (string \<times> restore_outcome) list) panicking" where
  "restore_paths hex mc bk target rs force rt =
     (case session_for bk target rs rt of
        (rt1, Inl e) \<Rightarrow> (rt1, Some (Inl e))
      | (rt1, Inr session) \<Rightarrow>
          (case ask_before_restore mc target rs force session rt1 of
             (rt2, befores, contents) \<Rightarrow>
               (let gone = root_gone_before_restore target rs contents befores rt2 in
                case (if gone = None then restore_loop hex mc bk target session contents befores rs rt2
                      else (rt2, Some [])) of
                  (rt3, None) \<Rightarrow> (rt3, None)
                | (rt3, Some done) \<Rightarrow>
                    (case session of Some s \<Rightarrow> finish_backup_session bk s rt3 | None \<Rightarrow> rt3,
                     Some (Inr (case gone of Some outcomes \<Rightarrow> outcomes | None \<Rightarrow> done))))))"

subsection \<open>A session\<close>

fun read_records :: "'w store \<Rightarrow> side \<Rightarrow> string \<Rightarrow> string list \<Rightarrow> ('w, backup_record list) act" where
  "read_records bk target session [] rt = (rt, Inr [])"
| "read_records bk target session (path # paths) rt =
     (case on_world (bk_read bk target session path) rt of
        (rt', Inl e) \<Rightarrow> (rt', Inl e)
      | (rt', Inr record) \<Rightarrow>
          (case read_records bk target session paths rt' of
             (rt'', r) \<Rightarrow> (rt'', res_bind r (\<lambda>records. Inr (record # records)))))"

text \<open>One path of the plan: what is restored, and the outcome it has so far.\<close>

definition planned_outcome ::
  "(string \<times> entry_path \<times> backup_record) \<times> target_facts \<times> restore_entry
    \<Rightarrow> restoring option \<times> restore_outcome" where
  "planned_outcome x =
     (case x of ((path, entry, record), facts, planned) \<Rightarrow>
       (case (planned, facts) of
          (Restore, FactsResolved state _ _) \<Rightarrow>
            (Some \<lparr>rg_entry = entry, rg_record = record, rg_state = state\<rparr>, Restored None)
        | (Restore, FactsUnresolvable cause) \<Rightarrow> (None, RestoreFailed cause)
        | (RestoreSkip reason, _) \<Rightarrow> (None, RestoreSkipped reason)
        | (RestoreFail e, _) \<Rightarrow> (None, RestoreFailed e)))"

definition restorings_of :: "(string \<times> restoring option \<times> restore_outcome) list \<Rightarrow> restorings" where
  "restorings_of planned =
     bt_of (List.map_filter (\<lambda>(path, r, _). map_option (Pair path) r) planned)"

definition plan_restores ::
  "string list \<Rightarrow> entry_path list \<Rightarrow> backup_record list \<Rightarrow> target_facts list
    \<Rightarrow> run_error + (string \<times> restoring option \<times> restore_outcome) list" where
  "plan_restores paths entries records facts =
     res_map_err run_error_text
       (res_bind (res_collect recorded_of (map fst (zip records (zip paths facts)))) (\<lambda>kinds.
          (let plan = rollback_plan (zip paths (zip kinds facts))
           in Inr (map (\<lambda>(x, y). (fst x, planned_outcome (x, y)))
                (zip (zip paths (zip entries records)) (zip facts (map snd plan)))))))"

text \<open>\<open>done.remove(&path).unwrap_or(outcome)\<close>: an outcome is taken once.\<close>

fun replace_done ::
  "(string \<times> restore_outcome) list \<Rightarrow> (string \<times> restore_outcome) list \<Rightarrow> (string \<times> restore_outcome) list" where
  "replace_done [] done = []"
| "replace_done ((path, out) # rest) done =
     (case map_of done path of
        Some out' \<Rightarrow> (path, out') # replace_done rest (filter (\<lambda>(p, _). p \<noteq> path) done)
      | None \<Rightarrow> (path, out) # replace_done rest done)"

definition restore_planned ::
  "(bytes \<Rightarrow> string) \<Rightarrow> 'w machine \<Rightarrow> 'w store \<Rightarrow> side \<Rightarrow> (string \<times> restoring option \<times> restore_outcome) list
    \<Rightarrow> bool \<Rightarrow> bool \<Rightarrow> ('w, (string \<times> restore_outcome) list) panicking" where
  "restore_planned hex mc bk target planned dry_run force rt =
     (let outcomes = map (\<lambda>(path, _, out). (path, out)) planned;
          rs = restorings_of planned
      in if dry_run \<or> rs = [] then (rt, Some (Inr outcomes))
         else
           (case restore_paths hex mc bk target rs force rt of
              (rt', r) \<Rightarrow>
                (rt', map_option (\<lambda>x. res_bind x (\<lambda>done.
                   Inr (replace_done outcomes done))) r)))"

definition lost_facts_text :: "run_error \<Rightarrow> string" where
  "lost_facts_text e = ''read failed: target: '' @ show_error e"

definition restore_session ::
  "(bytes \<Rightarrow> string) \<Rightarrow> 'w machine \<Rightarrow> 'w store \<Rightarrow> side \<Rightarrow> string \<Rightarrow> string list \<Rightarrow> bool \<Rightarrow> bool
    \<Rightarrow> ('w, (string \<times> restore_outcome) list) panicking" where
  "restore_session hex mc bk target session paths dry_run force rt =
     (case res_collect entry_parse paths of
        Inl e \<Rightarrow> (rt, Some (Inl (rel_path_run_error e)))
      | Inr entries \<Rightarrow>
          (case read_records bk target session paths rt of
             (rt1, Inl e) \<Rightarrow> (rt1, Some (Inl e))
           | (rt1, Inr records) \<Rightarrow>
               (case rollback_facts mc target entries rt1 of
                  (rt2, Inl e) \<Rightarrow>
                    (rt2, Some (if is_lost_error e
                       then Inr (map (\<lambda>path. (path, RestoreFailed (lost_facts_text e))) paths)
                       else Inl e))
                | (rt2, Inr facts) \<Rightarrow>
                    (case plan_restores paths entries records facts of
                       Inl e \<Rightarrow> (rt2, Some (Inl e))
                     | Inr planned \<Rightarrow> restore_planned hex mc bk target planned dry_run force rt2))))"

end
