(* ===== verification/Status.thy ===== *)
theory Status
  imports Merge
begin

text \<open>
  How status shows a comparison and how sync sums up its targets (\<open>treat/mod.rs\<close>,
  \<open>treat/status.rs\<close>, \<open>treat/status_listing.rs\<close> and \<open>treat/sync.rs\<close> of remote-merge-engine, with their
  output types of \<open>service/types.rs\<close>).
\<close>

definition only_directories :: "path_comparison \<Rightarrow> bool" where
  "only_directories c =
     (let here = filter (\<lambda>s. s \<noteq> SsAbsent)
            (List.map_filter (pst_states (cmp_states c)) [RoleLeft, RoleRight])
      in here \<noteq> [] \<and> (\<forall>s \<in> set here. s = SsDirectory))"

definition exit_diff_found :: int where "exit_diff_found = 1"

subsection \<open>One path\<close>

datatype file_status_kind = FkModified | FkLeftOnly | FkRightOnly | FkEqual

datatype status_entry = StListed file_status_kind | StUnreadable string | StNotListed

definition status_entry_of :: "path_comparison \<Rightarrow> status_entry" where
  "status_entry_of c =
     (case comparison_pair c RoleLeft RoleRight of
        None \<Rightarrow> StNotListed
      | Some left_right \<Rightarrow>
          if only_directories c then StNotListed
          else
            (case pv_verdict left_right of
               VdOneSided PresentFirst \<Rightarrow> StListed FkLeftOnly
             | VdOneSided PresentSecond \<Rightarrow> StListed FkRightOnly
             | VdKindDiffers \<Rightarrow> StListed FkModified
             | VdDiffers \<Rightarrow> StListed FkModified
             | VdSame \<Rightarrow> StListed FkEqual
             | VdUndecidable why \<Rightarrow> StUnreadable (show_undecidable why)
             | VdBothAbsent \<Rightarrow> StNotListed))"

datatype ref_badge = MissingInRef | RefDiffers | AllEqual

fun badge_str :: "ref_badge \<Rightarrow> string" where
  "badge_str MissingInRef = ''missing_in_ref''"
| "badge_str RefDiffers = ''differs''"
| "badge_str AllEqual = ''all_equal''"

datatype ref_mark = RmBadge ref_badge | RmUnreadable string

definition present_at :: "path_comparison \<Rightarrow> role \<Rightarrow> bool" where
  "present_at c r =
     (case pst_states (cmp_states c) r of Some s \<Rightarrow> s \<noteq> SsAbsent | None \<Rightarrow> False)"

definition undecidable_text :: "pair_verdict \<Rightarrow> string option" where
  "undecidable_text p = (case pv_verdict p of VdUndecidable why \<Rightarrow> Some (show_undecidable why) | _ \<Rightarrow> None)"

definition ref_mark_of :: "path_comparison \<Rightarrow> ref_mark" where
  "ref_mark_of c =
     (if \<not> present_at c RoleRef then RmBadge MissingInRef
      else if \<not> (present_at c RoleLeft \<and> present_at c RoleRight) then RmBadge RefDiffers
      else
        (let verdicts = map pv_verdict (List.map_filter (\<lambda>(f, s). comparison_pair c f s)
               [(RoleLeft, RoleRight), (RoleLeft, RoleRef), (RoleRight, RoleRef)]);
             with_ref = List.map_filter (\<lambda>r. comparison_pair c r RoleRef) [RoleLeft, RoleRight]
         in if VdKindDiffers \<in> set verdicts then RmBadge RefDiffers
            else
              (case find_map undecidable_text with_ref of
                 Some reason \<Rightarrow> RmUnreadable reason
               | None \<Rightarrow>
                   if \<forall>v \<in> set verdicts. v = VdSame then RmBadge AllEqual else RmBadge RefDiffers)))"

record ref_counts =
  rc_differs :: nat
  rc_only :: nat
  rc_missing :: nat

definition count_where :: "('a \<Rightarrow> bool) \<Rightarrow> 'a list \<Rightarrow> nat" where
  "count_where p xs = length (filter p xs)"

definition ref_counts_of :: "ref_mark list \<Rightarrow> nat \<Rightarrow> ref_counts" where
  "ref_counts_of marks only_in_ref =
     \<lparr>rc_differs = count_where (\<lambda>m. m = RmBadge RefDiffers) marks,
      rc_only = only_in_ref,
      rc_missing = count_where (\<lambda>m. m = RmBadge MissingInRef) marks\<rparr>"

record file_status =
  fs_path :: string
  fs_status :: file_status_kind
  fs_ref_badge :: "string option"

record status_summary =
  sm_modified :: nat
  sm_left_only :: nat
  sm_right_only :: nat
  sm_equal :: nat
  sm_ref_differs :: "nat option"
  sm_ref_only :: "nat option"
  sm_ref_missing :: "nat option"
  sm_unreadable :: nat

definition count_status :: "file_status list \<Rightarrow> file_status_kind \<Rightarrow> nat" where
  "count_status files kind = count_where (\<lambda>f. fs_status f = kind) files"

definition status_summary_of :: "file_status list \<Rightarrow> nat \<Rightarrow> ref_counts option \<Rightarrow> status_summary" where
  "status_summary_of files unreadable reference =
     \<lparr>sm_modified = count_status files FkModified,
      sm_left_only = count_status files FkLeftOnly,
      sm_right_only = count_status files FkRightOnly,
      sm_equal = count_status files FkEqual,
      sm_ref_differs = map_option rc_differs reference,
      sm_ref_only = map_option rc_only reference,
      sm_ref_missing = map_option rc_missing reference,
      sm_unreadable = unreadable\<rparr>"

definition status_shown :: "file_status list \<Rightarrow> bool \<Rightarrow> file_status list" where
  "status_shown files all = (if all then files else filter (\<lambda>f. fs_status f \<noteq> FkEqual) files)"

definition status_exit_code :: "file_status list \<Rightarrow> nat \<Rightarrow> int" where
  "status_exit_code files unreadable =
     (if unreadable > 0 then exit_error
      else if \<exists>f \<in> set files. fs_status f \<noteq> FkEqual then exit_diff_found
      else exit_success)"

subsection \<open>The listing\<close>

record unreadable_file =
  uf_path :: string
  uf_reason :: string

record status_listing =
  stl_files :: "file_status list"
  stl_errors :: "unreadable_file list"
  stl_ref_counts :: "ref_counts option"

definition only_in_the_ref :: "path_comparison \<Rightarrow> bool" where
  "only_in_the_ref c =
     ((case comparison_pair c RoleLeft RoleRight of Some p \<Rightarrow> pv_verdict p = VdBothAbsent | None \<Rightarrow> False)
      \<and> (case pst_states (cmp_states c) RoleRef of
           Some s \<Rightarrow> s \<noteq> SsAbsent \<and> s \<noteq> SsDirectory | None \<Rightarrow> False))"

text \<open>The variables of the loop of \<open>status_listing\<close>.\<close>

record status_loop =
  sl_files :: "file_status list"
  sl_errors :: "unreadable_file list"
  sl_marks :: "ref_mark list"
  sl_only_in_ref :: nat

definition status_step :: "bool \<Rightarrow> string \<times> path_comparison \<Rightarrow> status_loop \<Rightarrow> status_loop" where
  "status_step with_ref x st =
     (case x of (path, c) \<Rightarrow>
       (case status_entry_of c of
          StListed status \<Rightarrow>
            (let mark = (if with_ref then Some (ref_mark_of c) else None);
                 (badge, errors) =
                   (case mark of
                      Some (RmBadge b) \<Rightarrow> (Some (badge_str b), sl_errors st)
                    | Some (RmUnreadable reason) \<Rightarrow>
                        (None, sl_errors st @ [\<lparr>uf_path = path, uf_reason = reason\<rparr>])
                    | None \<Rightarrow> (None, sl_errors st))
             in st\<lparr>sl_errors := errors,
                   sl_marks := sl_marks st @ opt_list mark,
                   sl_files := sl_files st @
                     [\<lparr>fs_path = path, fs_status = status, fs_ref_badge = badge\<rparr>]\<rparr>)
        | StUnreadable reason \<Rightarrow>
            st\<lparr>sl_errors := sl_errors st @ [\<lparr>uf_path = path, uf_reason = reason\<rparr>]\<rparr>
        | StNotListed \<Rightarrow>
            if with_ref \<and> only_in_the_ref c then st\<lparr>sl_only_in_ref := sl_only_in_ref st + 1\<rparr> else st))"

definition status_listing_of :: "compared_paths \<Rightarrow> bool \<Rightarrow> status_listing" where
  "status_listing_of paths with_ref =
     (let st = fold (status_step with_ref) paths
           \<lparr>sl_files = [], sl_errors = [], sl_marks = [], sl_only_in_ref = 0\<rparr>
      in \<lparr>stl_files = sl_files st, stl_errors = sl_errors st,
          stl_ref_counts =
            (if with_ref then Some (ref_counts_of (sl_marks st) (sl_only_in_ref st)) else None)\<rparr>)"

subsection \<open>The targets of sync\<close>

datatype sync_target_status = SyncSuccess | SyncPartial | SyncFailed

record source_info =
  si_label :: string
  si_root :: string

record sync_target_result =
  str_target :: source_info
  str_merged :: "merge_file_result list"
  str_skipped :: "(string \<times> string) list"
  str_deleted :: "delete_file_result list"
  str_failed :: "(string \<times> string) list"
  str_status :: sync_target_status

record sync_summary =
  sy_total_servers :: nat
  sy_successful_servers :: nat
  sy_total_files_merged :: nat
  sy_total_files_deleted :: nat
  sy_total_files_failed :: nat

fun plans_nothing :: "merge_entry \<Rightarrow> bool" where
  "plans_nothing (SkipEntry reason) = (\<not> counts_as_failure reason)"
| "plans_nothing NothingEntry = True"
| "plans_nothing AbsentEntry = True"
| "plans_nothing _ = False"

definition nothing_to_sync :: "merge_plan \<Rightarrow> bool" where
  "nothing_to_sync plan = (\<forall>(_, entry) \<in> set plan. plans_nothing entry)"

definition target_status :: "bool \<Rightarrow> bool \<Rightarrow> sync_target_status" where
  "target_status changed failed =
     (if \<not> failed then SyncSuccess else if changed then SyncPartial else SyncFailed)"

definition status_of_target :: "target_lists \<Rightarrow> merge_plan \<Rightarrow> bool \<Rightarrow> sync_target_status" where
  "status_of_target ls plan stop =
     (let changed = (tl_merged ls \<noteq> [] \<or> tl_deleted ls \<noteq> [] \<or> tl_changed_but_failed ls);
          failed = (tl_failed ls \<noteq> [] \<or> stop \<or> (\<exists>r \<in> set (skip_reasons plan). counts_as_failure r))
      in target_status changed failed)"

definition sync_summary_of :: "sync_target_result list \<Rightarrow> sync_summary" where
  "sync_summary_of results =
     \<lparr>sy_total_servers = length results,
      sy_successful_servers = count_where (\<lambda>t. str_status t = SyncSuccess) results,
      sy_total_files_merged = sum_list (map (\<lambda>t. length (str_merged t)) results),
      sy_total_files_deleted = sum_list (map (\<lambda>t. length (str_deleted t)) results),
      sy_total_files_failed = sum_list (map (\<lambda>t. length (str_failed t)) results)\<rparr>"

definition sync_exit_code :: "sync_target_status list \<Rightarrow> int" where
  "sync_exit_code statuses =
     (if \<forall>s \<in> set statuses. s = SyncSuccess then exit_success else exit_error)"

subsection \<open>What the listing holds\<close>

text \<open>The listing without the variables of the loop: each path in its order.\<close>

definition file_status_of :: "bool \<Rightarrow> string \<times> path_comparison \<Rightarrow> file_status option" where
  "file_status_of with_ref x =
     (case status_entry_of (snd x) of
        StListed status \<Rightarrow>
          Some \<lparr>fs_path = fst x, fs_status = status,
                fs_ref_badge =
                  (if with_ref then
                     (case ref_mark_of (snd x) of RmBadge b \<Rightarrow> Some (badge_str b) | RmUnreadable _ \<Rightarrow> None)
                   else None)\<rparr>
      | _ \<Rightarrow> None)"

definition status_error_of :: "bool \<Rightarrow> string \<times> path_comparison \<Rightarrow> unreadable_file option" where
  "status_error_of with_ref x =
     (case status_entry_of (snd x) of
        StUnreadable reason \<Rightarrow> Some \<lparr>uf_path = fst x, uf_reason = reason\<rparr>
      | StListed _ \<Rightarrow>
          (if with_ref then
             (case ref_mark_of (snd x) of
                RmUnreadable reason \<Rightarrow> Some \<lparr>uf_path = fst x, uf_reason = reason\<rparr>
              | RmBadge _ \<Rightarrow> None)
           else None)
      | StNotListed \<Rightarrow> None)"

lemma status_step_lists:
  "sl_files (status_step w x st) = sl_files st @ opt_list (file_status_of w x)
   \<and> sl_errors (status_step w x st) = sl_errors st @ opt_list (status_error_of w x)"
  by (auto simp: status_step_def file_status_of_def status_error_of_def
        split: prod.splits status_entry.splits ref_mark.splits)

lemma status_loop_lists:
  "sl_files (fold (status_step w) paths st) = sl_files st @ List.map_filter (file_status_of w) paths
   \<and> sl_errors (fold (status_step w) paths st) = sl_errors st @ List.map_filter (status_error_of w) paths"
  by (induction paths arbitrary: st)
     (auto simp: status_step_lists opt_list_def split: option.splits)

lemma status_listing_lists:
  "stl_files (status_listing_of paths w) = List.map_filter (file_status_of w) paths"
  "stl_errors (status_listing_of paths w) = List.map_filter (status_error_of w) paths"
  by (simp_all add: status_listing_of_def Let_def status_loop_lists)

lemma status_error_None:
  "status_error_of w x = None \<longleftrightarrow>
     (\<nexists>reason. status_entry_of (snd x) = StUnreadable reason)
     \<and> (w \<longrightarrow> (\<forall>kind. status_entry_of (snd x) = StListed kind \<longrightarrow> (\<exists>b. ref_mark_of (snd x) = RmBadge b)))"
  by (auto simp: status_error_of_def split: status_entry.splits ref_mark.splits)

lemma status_no_errors:
  "stl_errors (status_listing_of paths w) = [] \<longleftrightarrow> (\<forall>x \<in> set paths. status_error_of w x = None)"
  by (simp add: status_listing_lists map_filter_Nil)

lemma file_status_differs:
  "(\<exists>f. file_status_of w x = Some f \<and> fs_status f \<noteq> FkEqual) \<longleftrightarrow>
     (\<exists>kind. kind \<noteq> FkEqual \<and> status_entry_of (snd x) = StListed kind)"
  by (simp add: file_status_of_def split: status_entry.splits)

lemma bex_map_filter: "(\<exists>y \<in> set (List.map_filter f xs). P y) \<longleftrightarrow> (\<exists>x \<in> set xs. \<exists>y. f x = Some y \<and> P y)"
  unfolding Bex_def set_map_filter by blast

lemma status_no_difference:
  "(\<exists>f \<in> set (stl_files (status_listing_of paths w)). fs_status f \<noteq> FkEqual) \<longleftrightarrow>
     (\<exists>x \<in> set paths. \<exists>kind. kind \<noteq> FkEqual \<and> status_entry_of (snd x) = StListed kind)"
  by (simp add: status_listing_lists bex_map_filter file_status_differs)

end
