(* ===== verification/PlanApply.thy ===== *)
theory PlanApply
  imports RollbackApply Status
begin

text \<open>
  What the commands share (\<open>cli/compare_steps.rs\<close> and \<open>cli/plan_apply.rs\<close> of remote-merge): connecting
  the sides, joining comparisons, preparing the backup and applying a plan to one destination. Lines
  written for the user while a command runs (warnings, questions) are left out. A step of a command comes
  to a value, an error or a panic.
\<close>

type_synonym ('w, 'a) running = "'w runtime \<Rightarrow> 'w runtime \<times> (run_cause read_stop + 'a)"

definition stop_error :: "run_error \<Rightarrow> run_cause read_stop + 'a" where
  "stop_error e = Inl (RsError e)"

definition run_act :: "('w, 'a) act \<Rightarrow> ('w, 'a) running" where
  "run_act f rt = (case f rt of (rt', r) \<Rightarrow> (rt', res_map_err RsError r))"

definition run_bind :: "('w, 'a) running \<Rightarrow> ('a \<Rightarrow> ('w, 'b) running) \<Rightarrow> ('w, 'b) running" where
  "run_bind f g rt = (case f rt of (rt', Inl e) \<Rightarrow> (rt', Inl e) | (rt', Inr x) \<Rightarrow> g x rt')"

definition run_return :: "'a \<Rightarrow> ('w, 'a) running" where
  "run_return x rt = (rt, Inr x)"

definition run_fail :: "run_error \<Rightarrow> ('w, 'a) running" where
  "run_fail e rt = (rt, stop_error e)"

text \<open>A value that is missing when the code panics.\<close>

definition run_or_panic :: "'w runtime \<times> 'a option \<Rightarrow> 'w runtime \<times> (run_cause read_stop + 'a)" where
  "run_or_panic x = (case x of (rt, r) \<Rightarrow> (rt, ok_or RsPanic r))"

subsection \<open>The form of the output\<close>

datatype output_format = OfText | OfJson

definition parse_output_format :: "string \<Rightarrow> run_error + output_format" where
  "parse_output_format s =
     (if s = ''text'' \<or> s = ''diff'' then Inr OfText
      else if s = ''json'' then Inr OfJson
      else Inl (run_error_text (''Unknown format: '' @ single_quoted s @ '' (expected text, json, or diff)'')))"

definition parse_text_or_json :: "string \<Rightarrow> run_error + output_format" where
  "parse_text_or_json s =
     (if s = ''text'' then Inr OfText
      else if s = ''json'' then Inr OfJson
      else Inl (run_error_text (''Unknown format: '' @ single_quoted s @ '' (expected text or json)'')))"

subsection \<open>Around a comparison\<close>

definition used_reference :: "reference_use \<Rightarrow> side option" where
  "used_reference r =
     (case r of NoReference \<Rightarrow> None | UseReference side \<Rightarrow> Some side | SkippedReference _ \<Rightarrow> None)"

fun connect_each :: "'w machine \<Rightarrow> (role \<times> side) list \<Rightarrow> ('w, unit) act" where
  "connect_each mc [] rt = (rt, Inr ())"
| "connect_each mc ((_, side) # xs) rt =
     (case connect_side mc side rt of
        (rt', Inl e) \<Rightarrow> (rt', Inl e)
      | (rt', Inr _) \<Rightarrow> connect_each mc xs rt')"

definition connect_sides :: "'w machine \<Rightarrow> compare_sides \<Rightarrow> ('w, unit) act" where
  "connect_sides mc sides = connect_each mc (each_side sides)"

definition absorb_paths :: "compared_paths \<Rightarrow> compared_paths \<Rightarrow> compared_paths" where
  "absorb_paths paths more_paths =
     fold (\<lambda>(path, found) t. if map_of t path = None then bt_insert path found t else t) more_paths paths"

definition absorb_incomplete :: "incomplete list \<Rightarrow> incomplete list \<Rightarrow> incomplete list" where
  "absorb_incomplete xs more_incomplete = fold push_new more_incomplete xs"

definition absorb_comparison :: "comparison \<Rightarrow> comparison \<Rightarrow> comparison" where
  "absorb_comparison c more_found =
     c\<lparr>cn_paths := absorb_paths (cn_paths c) (cn_paths more_found),
       cn_incomplete := absorb_incomplete (cn_incomplete c) (cn_incomplete more_found)\<rparr>"

definition source_info_of :: "side \<Rightarrow> 'w runtime \<Rightarrow> source_info" where
  "source_info_of side rt = \<lparr>si_label = display_name side, si_root = shown_root_of side rt\<rparr>"

text \<open>What a command does with the sides that were found gone and with a listing that was cut.\<close>

definition root_gone_first :: "'w runtime \<times> (run_cause read_stop + 'a) \<Rightarrow> 'w runtime \<times> (run_cause read_stop + 'a)" where
  "root_gone_first x =
     (case x of
        (rt, Inl (RsError e)) \<Rightarrow>
          (rt, Inl (RsError (case root_gone_stop rt of Some gone \<Rightarrow> gone | None \<Rightarrow> e)))
      | _ \<Rightarrow> x)"

definition stop_if_gone :: "('w, unit) running" where
  "stop_if_gone rt =
     (case root_gone_stop rt of Some gone \<Rightarrow> (rt, stop_error gone) | None \<Rightarrow> (rt, Inr ()))"

definition stop_if_incomplete :: "incomplete list \<Rightarrow> ('w, unit) running" where
  "stop_if_incomplete xs rt =
     (case xs of x # _ \<Rightarrow> (rt, stop_error (incomplete_error x)) | [] \<Rightarrow> (rt, Inr ()))"

subsection \<open>The backup\<close>

definition start_backup_session :: "'w store \<Rightarrow> bool \<Rightarrow> side list \<Rightarrow> ('w, string option) act" where
  "start_backup_session bk dry_run changing rt =
     (case (if dry_run then (rt, Inr ())
            else (case on_world (bk_cleanup bk) rt of (rt', r) \<Rightarrow> (rt', res_bind r (\<lambda>_. Inr ())))) of
        (rt', Inl e) \<Rightarrow> (rt', Inl e)
      | (rt', Inr _) \<Rightarrow>
          if bc_enabled (cf_backup (rn_config rt')) \<and> \<not> dry_run \<and> changing \<noteq> []
          then (case reserve_backup_session bk changing rt' of
                  (rt'', r) \<Rightarrow> (rt'', res_bind r (\<lambda>session. Inr (Some session))))
          else (rt', Inr None))"

definition end_backup_session :: "'w store \<Rightarrow> string option \<Rightarrow> 'w runtime \<Rightarrow> 'w runtime" where
  "end_backup_session bk session rt =
     (case session of Some s \<Rightarrow> finish_backup_session bk s rt | None \<Rightarrow> rt)"

subsection \<open>Applying a plan\<close>

definition not_found_text :: string where
  "not_found_text = ''not found on either side''"

fun change_kind_of :: "merge_entry \<Rightarrow> change_kind option" where
  "change_kind_of WriteFile = Some CkWriteFile"
| "change_kind_of WriteLink = Some CkWriteLink"
| "change_kind_of DeleteEntry = Some CkDelete"
| "change_kind_of _ = None"

text \<open>\<open>&paths[path]\<close> panics when the plan names a path that was not compared.\<close>

fun planned_changes :: "compared_paths \<Rightarrow> merge_plan \<Rightarrow> planned_change list option" where
  "planned_changes paths [] = Some []"
| "planned_changes paths ((path, entry) # plan) =
     (case change_kind_of entry of
        None \<Rightarrow> planned_changes paths plan
      | Some k \<Rightarrow>
          (case (map_of paths path, planned_changes paths plan) of
             (Some c, Some changes) \<Rightarrow>
               Some (\<lparr>pc_path = path, pc_comparison = c, pc_kind = k, pc_content = None\<rparr> # changes)
           | _ \<Rightarrow> None))"

definition badge_of :: "compared_paths \<Rightarrow> bool \<Rightarrow> string \<Rightarrow> string option option" where
  "badge_of paths with_ref path =
     (if \<not> with_ref then Some None
      else
        map_option
          (\<lambda>c. case ref_mark_of c of RmBadge badge \<Rightarrow> Some (badge_str badge) | RmUnreadable _ \<Rightarrow> None)
          (map_of paths path))"

fun entry_outcome :: "string option option \<Rightarrow> merge_entry \<Rightarrow> applied option \<Rightarrow> merge_outcome option" where
  "entry_outcome badge (SkipEntry reason) a = Some (OutSkipped (skip_text reason))"
| "entry_outcome badge (FailEntry e) a = Some (OutFailed e)"
| "entry_outcome badge NotFoundEntry a = Some (OutFailed not_found_text)"
| "entry_outcome badge entry (Some (AppliedFailed e)) = Some (OutFailed e)"
| "entry_outcome badge entry (Some (AppliedFailedAfterChange e)) = Some (OutFailedAfterChange e)"
| "entry_outcome badge DeleteEntry (Some (AppliedDone backup)) = Some (OutDeleted backup)"
| "entry_outcome badge DeleteEntry (Some AppliedPlanned) = Some OutWouldDelete"
| "entry_outcome badge entry (Some (AppliedDone backup)) = map_option (OutMerged backup) badge"
| "entry_outcome badge entry (Some AppliedPlanned) = map_option OutWouldMerge badge"
| "entry_outcome badge entry None = Some (OutFailed ''the change was not attempted'')"

text \<open>The results by path; each is removed when it is taken.\<close>

fun plan_outcomes ::
  "compared_paths \<Rightarrow> bool \<Rightarrow> (string \<Rightarrow> applied option) \<Rightarrow> merge_plan \<Rightarrow> (string \<times> merge_outcome) list option" where
  "plan_outcomes paths with_ref results [] = Some []"
| "plan_outcomes paths with_ref results ((path, entry) # plan) =
     (case entry_outcome (badge_of paths with_ref path) entry (results path) of
        None \<Rightarrow> None
      | Some out \<Rightarrow>
          map_option ((#) (path, out)) (plan_outcomes paths with_ref (results(path := None)) plan))"

definition apply_plan ::
  "(bytes \<Rightarrow> string) \<Rightarrow> 'w machine \<Rightarrow> side \<Rightarrow> compared_paths \<Rightarrow> merge_plan \<Rightarrow> apply_options \<Rightarrow> bool
    \<Rightarrow> 'w runtime \<Rightarrow> 'w runtime \<times> (string \<times> merge_outcome) list option" where
  "apply_plan hex mc target paths plan opts with_ref rt =
     (case planned_changes paths plan of
        None \<Rightarrow> (rt, None)
      | Some changes \<Rightarrow>
          (case apply_changes hex mc target changes opts rt of
             (rt', None) \<Rightarrow> (rt', None)
           | (rt', Some applied_all) \<Rightarrow>
               (rt', plan_outcomes paths with_ref (map_of (rev (zip (map pc_path changes) applied_all))) plan)))"

subsection \<open>Every path of the plan has an outcome\<close>

lemma planned_changes_total:
  "(\<forall>(path, entry) \<in> set plan. change_kind_of entry \<noteq> None \<longrightarrow> map_of paths path \<noteq> None)
    \<Longrightarrow> \<exists>changes. planned_changes paths plan = Some changes"
  by (induction plan) (auto split: option.splits)

lemma planned_changes_member:
  assumes "planned_changes paths plan = Some changes" "c \<in> set changes"
  shows "\<exists>entry. (pc_path c, entry) \<in> set plan \<and> change_kind_of entry = Some (pc_kind c)
     \<and> map_of paths (pc_path c) = Some (pc_comparison c) \<and> pc_content c = None"
  using assms
proof (induction paths plan arbitrary: changes rule: planned_changes.induct)
  case (2 paths path entry plan)
  show ?case
  proof (cases "change_kind_of entry")
    case None
    then show ?thesis using 2(1)[OF None _ 2(4)] 2(3) by auto
  next
    case (Some k)
    then obtain c1 rest where c1: "map_of paths path = Some c1" "planned_changes paths plan = Some rest"
        "changes = \<lparr>pc_path = path, pc_comparison = c1, pc_kind = k, pc_content = None\<rparr> # rest"
      using 2(3) by (auto split: option.splits)
    then show ?thesis using 2(2)[OF Some c1(2)] 2(4) Some by auto
  qed
qed simp

lemma badge_of_found: "map_of paths path \<noteq> None \<Longrightarrow> badge_of paths with_ref path \<noteq> None"
  by (auto simp: badge_of_def)

lemma entry_outcome_total:
  "change_kind_of entry \<noteq> None \<longrightarrow> badge \<noteq> None \<Longrightarrow> a = None \<or> change_kind_of entry \<noteq> None
    \<Longrightarrow> entry_outcome badge entry a \<noteq> None"
  by (cases "(badge, entry, a)" rule: entry_outcome.cases) auto

lemma plan_outcomes_paths: "plan_outcomes paths with_ref results plan = Some outs \<Longrightarrow> map fst outs = map fst plan"
  by (induction paths with_ref results plan arbitrary: outs rule: plan_outcomes.induct)
     (auto split: option.splits)

end
