(* ===== verification/Prepare.thy ===== *)
theory Prepare
  imports ConfigMerge Conflict CompareFlow Sides
begin

text \<open>
  The contents a comparison read, interpreted by the settings of each side, and what is made of
  them: the conflicts with the reference, the encodings, and the file with selected hunks taken over
  (\<open>treat/content.rs\<close> and \<open>treat/hunk_merge.rs\<close> of remote-merge-engine). The decoders, the glob
  patterns and the line diff are parameters. A result of type option is None when the code panics.
\<close>

subsection \<open>Preparing\<close>

record overrides =
  ov_left_as :: "interpretation_of option"
  ov_right_as :: "interpretation_of option"
  ov_reference_as :: "interpretation_of option"

record content_context =
  cx_config :: content_config
  cx_sides :: "role \<Rightarrow> side option"
  cx_overrides :: overrides

datatype prepared = PrAbsent | PrNonFile | PrUnavailable | PrBinary bytes | PrText text_content

definition empty_text :: text_content where
  "empty_text = text_of [] [] Utf8 0"

lemma interpret_nothing: "interpret_as d [] Unspecified = Inr (TextContent empty_text)"
  by (simp add: interpret_as_def decode_def empty_text_def starts_with_def utf8_bom_def)

fun text_or_empty :: "prepared \<Rightarrow> text_content option" where
  "text_or_empty PrAbsent = Some empty_text"
| "text_or_empty PrNonFile = Some empty_text"
| "text_or_empty (PrText t) = Some t"
| "text_or_empty _ = None"

fun prepared_text :: "prepared \<Rightarrow> text_content option" where
  "prepared_text (PrText t) = Some t"
| "prepared_text _ = None"

fun prepared_raw :: "prepared \<Rightarrow> bytes option" where
  "prepared_raw (PrText t) = Some (t_raw t)"
| "prepared_raw (PrBinary b) = Some b"
| "prepared_raw _ = None"

record content_view =
  vw_left :: "string + prepared"
  vw_right :: "string + prepared"
  vw_reference :: "string + prepared"

text \<open>The derived \<open>Debug\<close> of \<open>Role\<close> and the words of \<open>DecodeError\<close>.\<close>

fun role_debug :: "role \<Rightarrow> string" where
  "role_debug RoleLeft = ''Left''"
| "role_debug RoleRight = ''Right''"
| "role_debug RoleRef = ''Ref''"
| "role_debug RoleTarget = ''Target''"

definition decode_error_text :: "encoding \<Rightarrow> string" where
  "decode_error_text e = ''invalid '' @ encoding_name e @ '' content''"

definition override_of :: "overrides \<Rightarrow> role \<Rightarrow> interpretation_of option" where
  "override_of ov r =
     (case r of
        RoleLeft \<Rightarrow> ov_left_as ov
      | RoleRight \<Rightarrow> ov_right_as ov
      | RoleRef \<Rightarrow> ov_reference_as ov
      | RoleTarget \<Rightarrow> None)"

definition prepare_bytes ::
  "decoders \<Rightarrow> glob \<Rightarrow> content_context \<Rightarrow> string \<Rightarrow> role \<Rightarrow> bytes \<Rightarrow> string + prepared" where
  "prepare_bytes d glob cx path r bs =
     (let name = (case cx_sides cx r of Some s \<Rightarrow> display_name s | None \<Rightarrow> ''local'');
          specification = content_resolve glob (cx_config cx) name path (override_of (cx_overrides cx) r)
      in case interpret_as d bs specification of
           Inl e \<Rightarrow> Inl (role_debug r @ '' ('' @ name @ ''): '' @ decode_error_text e)
         | Inr BinaryContent \<Rightarrow> Inr (PrBinary bs)
         | Inr (TextContent t) \<Rightarrow> Inr (PrText t))"

definition prepare_side ::
  "decoders \<Rightarrow> glob \<Rightarrow> content_context \<Rightarrow> path_comparison \<Rightarrow> string \<Rightarrow> role \<Rightarrow> string + prepared" where
  "prepare_side d glob cx c path r =
     (case pst_states (cmp_states c) r of
        Some SsAbsent \<Rightarrow> Inr PrAbsent
      | Some SsDirectory \<Rightarrow> Inr PrNonFile
      | Some (SsSymlink _ LpDirectory) \<Rightarrow> Inr PrNonFile
      | None \<Rightarrow> Inr PrUnavailable
      | Some SsOther \<Rightarrow> Inr PrUnavailable
      | Some SsUnreadableName \<Rightarrow> Inr PrUnavailable
      | Some _ \<Rightarrow>
          (case cmp_contents c r of
             None \<Rightarrow> Inr PrUnavailable
           | Some (Inl failure) \<Rightarrow> Inl (show_op_failure failure)
           | Some (Inr bs) \<Rightarrow> prepare_bytes d glob cx path r bs))"

definition prepare ::
  "decoders \<Rightarrow> glob \<Rightarrow> path_comparison \<Rightarrow> string \<Rightarrow> content_context \<Rightarrow> bool \<Rightarrow> content_view" where
  "prepare d glob c path cx reference =
     \<lparr>vw_left = prepare_side d glob cx c path RoleLeft,
      vw_right = prepare_side d glob cx c path RoleRight,
      vw_reference =
        (if reference then prepare_side d glob cx c path RoleRef else Inr PrUnavailable)\<rparr>"

subsection \<open>Conflicts and encodings\<close>

datatype conflict_area = WholeFile bool | LinesArea conflict_region

definition whole_file :: conflict_area where
  "whole_file = WholeFile True"

fun comparable :: "prepared \<Rightarrow> bool" where
  "comparable PrUnavailable = False"
| "comparable PrNonFile = False"
| "comparable _ = True"

definition whole_conflict :: "prepared \<Rightarrow> prepared \<Rightarrow> prepared \<Rightarrow> conflict_area list" where
  "whole_conflict l r reference =
     (let (a, b, o1) = (prepared_raw l, prepared_raw r, prepared_raw reference)
      in if a \<noteq> o1 \<and> b \<noteq> o1 \<and> a \<noteq> b then [whole_file] else [])"

definition view_conflicts :: "line_diff \<Rightarrow> content_view \<Rightarrow> conflict_area list option" where
  "view_conflicts line_diff v =
     (case (vw_left v, vw_right v, vw_reference v) of
        (Inr l, Inr r, Inr reference) \<Rightarrow>
          if \<not> comparable l \<or> \<not> comparable r \<or> \<not> comparable reference then Some []
          else
            (case (l, r, reference) of
               (PrText lt, PrText rt, PrText ot) \<Rightarrow>
                 map_option (map LinesArea) (text_conflicts line_diff ot lt rt)
             | _ \<Rightarrow> Some (whole_conflict l r reference))
      | _ \<Rightarrow> Some [])"

definition encoding_of_side :: "string + prepared \<Rightarrow> string option" where
  "encoding_of_side p =
     (case p of
        Inr x \<Rightarrow> map_option (\<lambda>t. encoding_name (t_encoding t)) (prepared_text x)
      | Inl _ \<Rightarrow> None)"

definition view_encodings :: "content_view \<Rightarrow> (string \<times> string) list" where
  "view_encodings v =
     bt_of (List.map_filter (\<lambda>(r, p). map_option (Pair r) (encoding_of_side p))
       [(''left'', vw_left v), (''right'', vw_right v), (''ref'', vw_reference v)])"

subsection \<open>Taking over selected hunks\<close>

datatype hunk_error =
    HeBinary
  | HeNotRegular
  | HeOutOfRange nat nat
  | HeConflict
  | HeInvalid string

definition invalid_side :: "string + prepared \<Rightarrow> hunk_error + prepared" where
  "invalid_side p = res_map_err HeInvalid p"

fun is_binary :: "prepared \<Rightarrow> bool" where
  "is_binary (PrBinary _) = True"
| "is_binary _ = False"

definition not_regular :: "prepared \<Rightarrow> bool" where
  "not_regular p = (p = PrNonFile \<or> p = PrUnavailable)"

definition three_way_incomplete :: string where
  "three_way_incomplete = ''three-way comparison incomplete''"

text \<open>The checks on the two sides and the reference, in the order of the code: the two texts.\<close>

definition merge_texts :: "content_view \<Rightarrow> bool \<Rightarrow> hunk_error + prepared \<times> text_content \<times> text_content" where
  "merge_texts v reference =
     res_bind (invalid_side (vw_left v)) (\<lambda>l.
     res_bind (invalid_side (vw_right v)) (\<lambda>r.
       if is_binary l \<or> is_binary r then Inl HeBinary
       else if not_regular l \<or> not_regular r then Inl HeNotRegular
       else
         res_bind (if reference
             then res_map_err (\<lambda>reason. HeInvalid (three_way_incomplete @ '': '' @ reason))
                    (map_sum id (\<lambda>_. ()) (vw_reference v))
             else Inr ()) (\<lambda>_.
         res_bind (ok_or HeNotRegular (text_or_empty l)) (\<lambda>lt.
         res_bind (ok_or HeNotRegular (text_or_empty r)) (\<lambda>rt.
           if l \<noteq> PrAbsent \<and> r \<noteq> PrAbsent \<and> t_encoding lt \<noteq> t_encoding rt
             then Inl (HeInvalid ''Hunk merge requires the same content encoding on both sides'')
           else if reference \<and> vw_reference v = Inr PrUnavailable then Inl (HeInvalid three_way_incomplete)
           else Inr (r, lt, rt))))))"

definition apply_selected ::
  "pair_script \<Rightarrow> nat list \<Rightarrow> prepared \<Rightarrow> text_content \<Rightarrow> (hunk_error + (bytes \<times> nat) option) option" where
  "apply_selected script selected r lt =
     (case hunk_count script of
        None \<Rightarrow> Some (Inr None)
      | Some n \<Rightarrow>
          (case find (\<lambda>i. n \<le> i) selected of
             Some index \<Rightarrow> Some (Inl (HeOutOfRange index n))
           | None \<Rightarrow>
               map_option
                 (\<lambda>content. Inr (Some (if r = PrAbsent then t_bom lt @ content else content, n)))
                 (ps_apply script (set selected) LeftToRight)))"

definition merge_prepared ::
  "line_diff \<Rightarrow> content_view \<Rightarrow> nat list \<Rightarrow> bool \<Rightarrow> (hunk_error + (bytes \<times> nat) option) option" where
  "merge_prepared line_diff v selected reference =
     (case merge_texts v reference of
        Inl e \<Rightarrow> Some (Inl e)
      | Inr (r, lt, rt) \<Rightarrow>
          (case (if reference then view_conflicts line_diff v else Some []) of
             None \<Rightarrow> None
           | Some conflicts \<Rightarrow>
               if conflicts \<noteq> [] then Some (Inl HeConflict)
               else
                 (case pair_script_new line_diff lt rt of
                    None \<Rightarrow> None
                  | Some script \<Rightarrow> apply_selected script selected r lt)))"

end
