(* ===== verification/MergeCommand.thy ===== *)
theory MergeCommand
  imports PlanApply Prepare
begin

text \<open>
  The command merge (\<open>cli/merge.rs\<close>, \<open>cli/merge_files.rs\<close>, \<open>cli/merge_hunks.rs\<close> and
  \<open>cli/merge_hunks_result.rs\<close> of remote-merge): checking its arguments, comparing, planning, changing
  the destination and the exit code; of whole files and of selected hunks of one file. Rendering the result and
  closing the connections at the end are left out.
\<close>

subsection \<open>Arguments\<close>

record merge_args =
  ma_encodings :: overrides
  ma_paths :: "string list"
  ma_left :: "string option"
  ma_right :: "string option"
  ma_ref_server :: "string option"
  ma_dry_run :: bool
  ma_force :: bool
  ma_delete :: bool
  ma_with_permissions :: bool
  ma_checksum :: bool
  ma_format :: string
  ma_max_entries :: "nat option"
  ma_hunks :: "nat list option"

definition parse_path_arguments :: "string list \<Rightarrow> run_error + rel_path list" where
  "parse_path_arguments paths = res_collect (\<lambda>path. res_map_err rel_path_run_error (rel_parse path)) paths"

definition check_hunk_args :: "merge_args \<Rightarrow> nat list \<Rightarrow> run_error + unit" where
  "check_hunk_args args hunks =
     (if length (ma_paths args) \<noteq> 1
        then Inl (run_error_text (''--hunks requires exactly one path (got '' @ show_nat (length (ma_paths args)) @ '')''))
      else if ma_delete args then Inl (run_error_text ''--hunks and --delete cannot be used together'')
      else if hunks = [] then Inl (run_error_text ''--hunks requires at least one hunk index'')
      else Inr ())"

definition validate_merge_args :: "merge_args \<Rightarrow> run_error + rel_path list" where
  "validate_merge_args args =
     (if ma_paths args = [] then Inl (run_error_text ''at least one path is required for merge'')
      else if ma_left args = None \<or> ma_right args = None
        then Inl (run_error_text (''--left and --right are required for merge command ''
                @ ''(e.g. --left local --right staging)''))
      else
        res_bind (parse_path_arguments (ma_paths args)) (\<lambda>paths.
        res_bind (case ma_hunks args of Some hunks \<Rightarrow> check_hunk_args args hunks | None \<Rightarrow> Inr ()) (\<lambda>_.
          Inr paths)))"

datatype no_merge = NoFilesToMerge | R2rBlocked string string

record merge_output =
  mo_lists :: target_lists
  mo_ref :: "source_info option"

datatype merge_command_output = MergeNothing no_merge | MergeFiles merge_output

record merge_command_result =
  mr_output :: merge_command_output
  mr_exit_code :: int

subsection \<open>Comparing\<close>

definition merge_request :: "merge_targets \<Rightarrow> bool \<Rightarrow> bool \<Rightarrow> nat \<Rightarrow> compare_request" where
  "merge_request targets checksum force max_entries =
     \<lparr>cq_scope = (case tg_scope targets of MergeWhole \<Rightarrow> CsWhole | MergeBelow dirs \<Rightarrow> CsBelow dirs),
      cq_max_entries = max_entries, cq_entry_limit = LimitPerDirectory, cq_counted_before = Map.empty,
      cq_method = choose_method CmdMerge checksum BelowDirectory,
      cq_named_files =
        Some \<lparr>nf_paths = set (tg_named targets), nf_method = choose_method CmdMerge checksum NamedFile\<rparr>,
      cq_follow = FollowNo, cq_external_links = ExternalFollow, cq_content_limit = from_force force,
      cq_unfollowable_links = UnfollowableStop, cq_lost_destination = FailPaths\<rparr>"

definition compare_named_files ::
  "'w machine \<Rightarrow> compare_sides \<Rightarrow> compare_request \<Rightarrow> string list \<Rightarrow> uses \<Rightarrow> comparison \<Rightarrow> ('w, comparison) running" where
  "compare_named_files mc sides q named u c rt =
     (let unseen = filter (\<lambda>name. map_of (cn_paths c) name = None) named in
      if unseen = [] then (rt, Inr c)
      else
        (case compare mc sides (q\<lparr>cq_scope := CsEntries unseen, cq_counted_before := cn_counted c\<rparr>) u rt of
           (rt', r) \<Rightarrow> (rt', res_bind r (\<lambda>more_found. Inr (absorb_comparison c more_found)))))"

text \<open>The comparison that files and hunks share: connected, compared again for the named files that were
  not listed, and complete.\<close>

definition compare_for_merge ::
  "'w machine \<Rightarrow> compare_sides \<Rightarrow> merge_targets \<Rightarrow> compare_request \<Rightarrow> uses \<Rightarrow> ('w, comparison) running" where
  "compare_for_merge mc sides targets q u =
     run_bind (\<lambda>rt. root_gone_first (compare mc sides q u rt)) (\<lambda>first.
     run_bind (compare_named_files mc sides q (tg_named targets) u first) (\<lambda>c.
     run_bind stop_if_gone (\<lambda>_.
     run_bind (stop_if_incomplete (cn_incomplete c)) (\<lambda>_.
       run_return c))))"

definition paths_not_found :: run_error where
  "paths_not_found = run_error_text ''specified path(s) not found on either side''"

definition report_missing_names :: "missing_names \<Rightarrow> run_error + unit" where
  "report_missing_names m = (if mn_all_missing m then Inl paths_not_found else Inr ())"

subsection \<open>Whole files\<close>

record planned_merge =
  pm_paths :: compared_paths
  pm_plan :: merge_plan

definition checks_reference :: "compare_sides \<Rightarrow> merge_args \<Rightarrow> bool" where
  "checks_reference sides args = (cs_reference sides \<noteq> None \<and> \<not> ma_force args)"

definition plan_merge ::
  "'w machine \<Rightarrow> merge_args \<Rightarrow> compare_sides \<Rightarrow> rel_path list \<Rightarrow> nat \<Rightarrow> ('w, planned_merge) running" where
  "plan_merge mc args sides paths max_entries =
     (let targets = merge_targets_of paths (ma_delete args);
          reference_check = checks_reference sides args;
          u = uses_of_merge \<lparr>mu_targets = targets, mu_delete = ma_delete args, mu_dry_run = ma_dry_run args,
                mu_reference_check = reference_check\<rparr>;
          q = merge_request targets (ma_checksum args) (ma_force args) max_entries
      in run_bind (run_act (connect_sides mc sides)) (\<lambda>_.
         run_bind (compare_for_merge mc sides targets q u) (\<lambda>c.
           (let plan = merge_plan_of (cn_paths c) targets (ma_delete args) reference_check in
            run_act (\<lambda>rt. (rt, res_bind (report_missing_names (missing_names_of [Some plan] (length (tg_named targets))))
              (\<lambda>_. Inr \<lparr>pm_paths = cn_paths c, pm_plan = plan\<rparr>)))))))"

definition merge_options :: "merge_args \<Rightarrow> string option \<Rightarrow> apply_options" where
  "merge_options args session =
     \<lparr>ao_dry_run = ma_dry_run args, ao_session = session, ao_with_permissions = ma_with_permissions args,
      ao_content_limit = from_force (ma_force args)\<rparr>"

definition changing_sides :: "side \<Rightarrow> merge_plan \<Rightarrow> side list" where
  "changing_sides target plan = (case change_counts plan of (writes, deletes) \<Rightarrow> if writes + deletes > 0 then [target] else [])"

definition merge_result_of ::
  "compare_sides \<Rightarrow> merge_plan \<Rightarrow> (string \<times> merge_outcome) list \<Rightarrow> 'w runtime \<Rightarrow> merge_command_result" where
  "merge_result_of sides plan outs rt =
     (let lists = target_lists_of outs;
          was_stopped = (stopped_error_for (cs_right sides) rt \<noteq> None)
      in \<lparr>mr_output =
            (if lists_is_empty lists then MergeNothing NoFilesToMerge
             else MergeFiles \<lparr>mo_lists = lists,
                    mo_ref = map_option (\<lambda>side. source_info_of side rt) (cs_reference sides)\<rparr>),
          mr_exit_code = merge_exit_code (tl_failed lists \<noteq> [] \<or> was_stopped) (skip_reasons plan)\<rparr>)"

definition apply_merge ::
  "(bytes \<Rightarrow> string) \<Rightarrow> 'w machine \<Rightarrow> 'w store \<Rightarrow> merge_args \<Rightarrow> compare_sides \<Rightarrow> planned_merge
    \<Rightarrow> ('w, merge_command_result) running" where
  "apply_merge hex mc bk args sides planned =
     run_bind (run_act (start_backup_session bk (ma_dry_run args) (changing_sides (cs_right sides) (pm_plan planned))))
       (\<lambda>session rt.
          (case apply_plan hex mc (cs_right sides) (pm_paths planned) (pm_plan planned) (merge_options args session)
                  (cs_reference sides \<noteq> None) rt of
             (rt', None) \<Rightarrow> (rt', Inl RsPanic)
           | (rt', Some outs) \<Rightarrow>
               (let rt'' = end_backup_session bk session rt'
                in (rt'', Inr (merge_result_of sides (pm_plan planned) outs rt'')))))"

definition merge_files ::
  "(bytes \<Rightarrow> string) \<Rightarrow> 'w machine \<Rightarrow> 'w store \<Rightarrow> merge_args \<Rightarrow> compare_sides \<Rightarrow> rel_path list \<Rightarrow> nat
    \<Rightarrow> ('w, merge_command_result) running" where
  "merge_files hex mc bk args sides paths max_entries =
     run_bind (plan_merge mc args sides paths max_entries) (apply_merge hex mc bk args sides)"

subsection \<open>Hunks of one file\<close>

definition merge_direction :: string where
  "merge_direction = ''left_to_right''"

definition no_changes_status :: string where
  "no_changes_status = ''skipped (no changes)''"

definition hunks_written :: "merge_file_result \<Rightarrow> bool \<Rightarrow> merge_command_result" where
  "hunks_written result was_stopped =
     \<lparr>mr_output = MergeFiles \<lparr>mo_lists = lists_empty\<lparr>tl_merged := [result]\<rparr>, mo_ref = None\<rparr>,
      mr_exit_code = (if was_stopped then exit_error else exit_success)\<rparr>"

definition hunks_no_changes :: "string \<Rightarrow> merge_command_result" where
  "hunks_no_changes path =
     hunks_written \<lparr>mf_path = path, mf_status = no_changes_status, mf_backup = None, mf_ref_badge = None,
       mf_hunk_info = None\<rparr> False"

definition hunks_failed :: "string \<Rightarrow> string \<Rightarrow> merge_command_result" where
  "hunks_failed path e =
     \<lparr>mr_output = MergeFiles \<lparr>mo_lists = lists_empty\<lparr>tl_failed := [(path, e)]\<rparr>, mo_ref = None\<rparr>,
      mr_exit_code = exit_error\<rparr>"

definition is_link_side :: "path_comparison \<Rightarrow> role \<Rightarrow> bool" where
  "is_link_side c r = (case pst_states (cmp_states c) r of Some (SsSymlink _ _) \<Rightarrow> True | _ \<Rightarrow> False)"

text \<open>What merging the hunks comes to before anything is written: a result that ends the command, or the new
  content and the number of hunks.\<close>

definition hunk_content ::
  "decoders \<Rightarrow> glob \<Rightarrow> line_diff \<Rightarrow> content_context \<Rightarrow> string \<Rightarrow> path_comparison \<Rightarrow> nat list \<Rightarrow> bool
    \<Rightarrow> (run_error + (merge_command_result + bytes \<times> nat)) option" where
  "hunk_content d glob line_diff cx path c hunks reference_check =
     map_option
       (\<lambda>merged.
          (case merged of
             Inr None \<Rightarrow> Inr (Inl (hunks_no_changes path))
           | Inr (Some result) \<Rightarrow> Inr (Inr result)
           | Inl (HeOutOfRange index n) \<Rightarrow>
               Inl (run_error_text (''Hunk index '' @ show_nat index @ '' is out of range (total hunks: ''
                 @ show_nat n @ '')''))
           | Inl HeConflict \<Rightarrow> Inl (run_error_text (''three-way conflict: '' @ path))
           | Inl HeBinary \<Rightarrow>
               Inl (run_error_text (''Hunk merge is not supported for binary files: '' @ single_quoted path))
           | Inl HeNotRegular \<Rightarrow>
               Inr (Inl (hunks_failed path (single_quoted path @ '' is not a regular file on both sides'')))
           | Inl (HeInvalid reason) \<Rightarrow> Inl (run_error_text (path @ '': '' @ reason))))
       (merge_prepared line_diff (prepare d glob c path cx reference_check) hunks reference_check)"

definition checked_hunk_content ::
  "decoders \<Rightarrow> glob \<Rightarrow> line_diff \<Rightarrow> content_context \<Rightarrow> string \<Rightarrow> path_comparison \<Rightarrow> nat list \<Rightarrow> bool
    \<Rightarrow> (run_error + (merge_command_result + bytes \<times> nat)) option" where
  "checked_hunk_content d glob line_diff cx path c hunks reference_check =
     (if is_link_side c RoleLeft \<or> is_link_side c RoleRight
      then Some (Inl (run_error_text (''Hunk merge is not supported for symlink files: '' @ single_quoted path)))
      else
        (case map_option pv_verdict (comparison_pair c RoleLeft RoleRight) of
           Some (VdUndecidable (ReadFailed failures)) \<Rightarrow>
             Some (Inr (Inl (hunks_failed path (show_undecidable (ReadFailed failures)))))
         | _ \<Rightarrow> hunk_content d glob line_diff cx path c hunks reference_check))"

definition hunk_info :: "nat list \<Rightarrow> nat \<Rightarrow> hunk_merge_info" where
  "hunk_info hunks n = \<lparr>hm_applied = remdups (sort hunks), hm_total = n, hm_direction = merge_direction\<rparr>"

definition hunks_result :: "side \<Rightarrow> string \<Rightarrow> hunk_merge_info \<Rightarrow> applied list \<Rightarrow> 'w runtime \<Rightarrow> merge_command_result" where
  "hunks_result target path info applied_all rt =
     (let finished = (\<lambda>status backup.
            hunks_written \<lparr>mf_path = path, mf_status = status, mf_backup = backup, mf_ref_badge = None,
                mf_hunk_info = Some info\<rparr> (stopped_error_for target rt \<noteq> None))
      in case applied_all of
           AppliedDone backup # _ \<Rightarrow> finished ''merged'' backup
         | AppliedPlanned # _ \<Rightarrow> finished ''would merge'' None
         | AppliedFailed e # _ \<Rightarrow> hunks_failed path e
         | AppliedFailedAfterChange e # _ \<Rightarrow> hunks_failed path e
         | [] \<Rightarrow> hunks_failed path ''the change was not attempted'')"

definition write_hunks ::
  "(bytes \<Rightarrow> string) \<Rightarrow> 'w machine \<Rightarrow> 'w store \<Rightarrow> merge_args \<Rightarrow> side \<Rightarrow> string \<Rightarrow> path_comparison \<Rightarrow> nat list
    \<Rightarrow> bytes \<Rightarrow> nat \<Rightarrow> ('w, merge_command_result) running" where
  "write_hunks hex mc bk args target path c hunks merged n =
     run_bind (run_act (start_backup_session bk (ma_dry_run args) [target])) (\<lambda>session rt.
       (case apply_changes hex mc target
               [\<lparr>pc_path = path, pc_comparison = c, pc_kind = CkWriteFile, pc_content = Some merged\<rparr>]
               (merge_options args session) rt of
          (rt', None) \<Rightarrow> (rt', Inl RsPanic)
        | (rt', Some applied_all) \<Rightarrow>
            (let rt'' = end_backup_session bk session rt'
             in (rt'', Inr (hunks_result target path (hunk_info hunks n) applied_all rt'')))))"

definition merge_compared_hunks ::
  "(bytes \<Rightarrow> string) \<Rightarrow> decoders \<Rightarrow> glob \<Rightarrow> line_diff \<Rightarrow> 'w machine \<Rightarrow> 'w store \<Rightarrow> merge_args \<Rightarrow> compare_sides
    \<Rightarrow> string \<Rightarrow> nat list \<Rightarrow> comparison \<Rightarrow> ('w, merge_command_result) running" where
  "merge_compared_hunks hex d glob line_diff mc bk args sides path hunks compared rt =
     (case map_of (cn_paths compared) path of
        None \<Rightarrow> (rt, stop_error paths_not_found)
      | Some c \<Rightarrow>
          (case checked_hunk_content d glob line_diff
                  \<lparr>cx_config = cf_content (rn_config rt), cx_sides = by_role sides, cx_overrides = ma_encodings args\<rparr>
                  path c hunks (checks_reference sides args) of
             None \<Rightarrow> (rt, Inl RsPanic)
           | Some (Inl e) \<Rightarrow> (rt, stop_error e)
           | Some (Inr (Inl result)) \<Rightarrow> (rt, Inr result)
           | Some (Inr (Inr (merged, n))) \<Rightarrow>
               write_hunks hex mc bk args (cs_right sides) path c hunks merged n rt))"

definition merge_hunks ::
  "(bytes \<Rightarrow> string) \<Rightarrow> decoders \<Rightarrow> glob \<Rightarrow> line_diff \<Rightarrow> 'w machine \<Rightarrow> 'w store \<Rightarrow> merge_args \<Rightarrow> compare_sides
    \<Rightarrow> rel_path list \<Rightarrow> nat list \<Rightarrow> nat \<Rightarrow> ('w, merge_command_result) running" where
  "merge_hunks hex d glob line_diff mc bk args sides paths hunks max_entries =
     (let targets = merge_targets_of paths False in
      run_bind (run_act (connect_sides mc sides)) (\<lambda>_.
        (case tg_named targets of
           [] \<Rightarrow> run_fail (run_error_text ''--hunks requires a file path, not the whole root_dir'')
         | path # _ \<Rightarrow>
             run_bind
               (compare_for_merge mc sides targets
                 (merge_request targets (ma_checksum args) (ma_force args) max_entries)
                 (uses_of_hunks \<lparr>hu_path = path, hu_reference = checks_reference sides args\<rparr>))
               (merge_compared_hunks hex d glob line_diff mc bk args sides path hunks))))"

subsection \<open>The command\<close>

text \<open>\<open>execute_merge\<close> up to the runtime it starts: an error, a merge between servers that is not forced, or
  the sides, the paths and the limit of the merge.\<close>

fun config_run_error :: "config_error \<Rightarrow> run_error" where
  "config_run_error (CfApp e) = [CauseOther (RcApp e)]"
| "config_run_error (CfText words) = run_error_text words"
| "config_run_error (CfIo words) = [CauseOther (RcIo False words)]"
| "config_run_error (CfFailed context words) = with_context context (run_error_text words)"

definition merge_blocked :: "side \<Rightarrow> side \<Rightarrow> merge_command_result" where
  "merge_blocked l r =
     \<lparr>mr_output = MergeNothing (R2rBlocked (display_name l) (display_name r)), mr_exit_code = exit_error\<rparr>"

definition merge_start ::
  "merge_args \<Rightarrow> app_config \<Rightarrow> run_error + (merge_command_result + compare_sides \<times> rel_path list \<times> nat)" where
  "merge_start args config =
     res_bind (validate_merge_args args) (\<lambda>paths.
     res_bind (parse_output_format (ma_format args)) (\<lambda>_.
     res_bind (res_map_err config_run_error (resolve_max_entries (ma_max_entries args) config)) (\<lambda>max_entries.
       (let servers = map fst (cf_servers config) in
        res_bind (res_map_err run_error_text (merge_sides (ma_left args) (ma_right args) servers)) (\<lambda>(l, r).
        res_bind (res_map_err run_error_text (reference_side (ma_ref_server args) (l, r) servers)) (\<lambda>reference.
          Inr (if remote_to_remote_blocked l r (ma_force args) (ma_dry_run args) then Inl (merge_blocked l r)
               else Inr (\<lparr>cs_left = l, cs_right = r, cs_reference = used_reference reference\<rparr>, paths, max_entries))))))))"

definition execute_merge ::
  "(bytes \<Rightarrow> string) \<Rightarrow> decoders \<Rightarrow> glob \<Rightarrow> line_diff \<Rightarrow> 'w machine \<Rightarrow> 'w store \<Rightarrow> merge_args
    \<Rightarrow> ('w, merge_command_result) running" where
  "execute_merge hex d glob line_diff mc bk args rt =
     (case merge_start args (rn_config rt) of
        Inl e \<Rightarrow> (rt, stop_error e)
      | Inr (Inl result) \<Rightarrow> (rt, Inr result)
      | Inr (Inr (sides, paths, max_entries)) \<Rightarrow>
          (case ma_hunks args of
             Some hunks \<Rightarrow> merge_hunks hex d glob line_diff mc bk args sides paths hunks max_entries rt
           | None \<Rightarrow> merge_files hex mc bk args sides paths max_entries rt))"

end
