(* ===== verification/SyncCommand.thy ===== *)
theory SyncCommand
  imports MergeCommand Text
begin

text \<open>
  The command sync (\<open>cli/sync.rs\<close>, \<open>cli/sync_plan.rs\<close> and \<open>cli/sync_targets.rs\<close> of remote-merge): one
  comparison and one plan per destination, the question whether to go on, and one run over the destinations.
  The line the user answers with is a parameter; the words around the question, rendering the result
  and closing the connections at the end are left out.
\<close>

subsection \<open>Arguments\<close>

record sync_args =
  sa_paths :: "string list"
  sa_left :: "string option"
  sa_right :: "string list"
  sa_dry_run :: bool
  sa_force :: bool
  sa_delete :: bool
  sa_with_permissions :: bool
  sa_checksum :: bool
  sa_format :: string
  sa_max_entries :: "nat option"

record sync_output =
  syo_left :: source_info
  syo_targets :: "sync_target_result list"
  syo_summary :: sync_summary

datatype sync_command_output = SyncResult sync_output | SyncCancelled

record sync_command_result =
  sr_output :: sync_command_output
  sr_exit_code :: int
  sr_no_files :: bool

definition validate_sync_args :: "sync_args \<Rightarrow> run_error + rel_path list" where
  "validate_sync_args args =
     (if sa_left args = None then Inl (run_error_text ''--left is required for sync command'')
      else if sa_right args = []
        then Inl (run_error_text ''--right requires at least one target server for sync command'')
      else if sa_paths args = [] then Inl (run_error_text ''at least one path is required for sync'')
      else parse_path_arguments (sa_paths args))"

subsection \<open>One plan per destination\<close>

datatype target_state = TargetPlanned compared_paths merge_plan | TargetFailed string

record target_plan =
  tp_side :: side
  tp_target :: source_info
  tp_state :: target_state

definition plan_counts :: "target_plan \<Rightarrow> nat \<times> nat" where
  "plan_counts p = (case tp_state p of TargetPlanned _ plan \<Rightarrow> change_counts plan | TargetFailed _ \<Rightarrow> (0, 0))"

definition changes_anything :: "target_plan \<Rightarrow> bool" where
  "changes_anything p = (plan_counts p \<noteq> (0, 0))"

definition plan_is_empty :: "target_plan \<Rightarrow> bool" where
  "plan_is_empty p = (case tp_state p of TargetPlanned _ plan \<Rightarrow> nothing_to_sync plan | TargetFailed _ \<Rightarrow> False)"

text \<open>What is kept of the source: its listing, and its hashes and contents (\<open>Reused\<close>).\<close>

type_synonym source_facts = "kept_listing \<times> reused option"

definition reused_new :: "side \<Rightarrow> source_facts" where
  "reused_new side = (Some (side, None), Some \<lparr>ru_side = side, ru_hashes = [], ru_contents = []\<rparr>)"

definition of_left :: "incomplete \<Rightarrow> bool" where
  "of_left x = (case x of IncTruncated r _ \<Rightarrow> r = RoleLeft | IncCycle r _ \<Rightarrow> r = RoleLeft)"

definition source_unreadable :: "'w machine \<Rightarrow> side \<Rightarrow> compare_request \<Rightarrow> 'w runtime \<Rightarrow> 'w runtime \<times> bool" where
  "source_unreadable mc source q rt =
     (case collect_states mc \<lparr>cs_left = source, cs_right = source, cs_reference = None\<rparr> q None rt of
        (rt', _, Inl _) \<Rightarrow> (rt', True)
      | (rt', _, Inr _) \<Rightarrow> (rt', False))"

text \<open>How the result of comparing one destination goes on: an error of the source ends the command, an error
  of the destination fails that destination.\<close>

definition judge_target ::
  "'w machine \<Rightarrow> side \<Rightarrow> compare_request \<Rightarrow> run_cause read_stop + comparison \<Rightarrow> ('w, string + compared_paths) running" where
  "judge_target mc source q compared rt =
     (case compared of
        Inr c \<Rightarrow>
          (case stopped_error_for source rt of
             Some gone \<Rightarrow> (rt, stop_error gone)
           | None \<Rightarrow>
               (case find of_left (cn_incomplete c) of
                  Some x \<Rightarrow> (rt, stop_error (incomplete_error x))
                | None \<Rightarrow>
                    (rt, Inr (case cn_incomplete c of
                        x # _ \<Rightarrow> Inl (show_error (incomplete_error x))
                      | [] \<Rightarrow> Inr (cn_paths c)))))
      | Inl RsPanic \<Rightarrow> (rt, Inl RsPanic)
      | Inl (RsError e) \<Rightarrow>
          if stopped_error_for source rt \<noteq> None then (rt, stop_error e)
          else
            (case source_unreadable mc source q rt of
               (rt', True) \<Rightarrow> (rt', stop_error e)
             | (rt', False) \<Rightarrow> (rt', Inr (Inl (show_error e)))))"

definition compare_destination ::
  "'w machine \<Rightarrow> side \<Rightarrow> side \<Rightarrow> compare_request \<Rightarrow> string list \<Rightarrow> uses \<Rightarrow> source_facts \<Rightarrow> 'w runtime
    \<Rightarrow> 'w runtime \<times> source_facts \<times> (run_cause read_stop + comparison)" where
  "compare_destination mc source destination q named u facts rt =
     (let sides = \<lparr>cs_left = source, cs_right = destination, cs_reference = None\<rparr> in
      case compare_reusing mc sides q u (fst facts) (snd facts) rt of
        (rt', kept, ru, Inl e) \<Rightarrow> (rt', (kept, ru), Inl e)
      | (rt', kept, ru, Inr c) \<Rightarrow>
          (case compare_named_files mc sides q named u c rt' of (rt'', r) \<Rightarrow> (rt'', (kept, ru), r)))"

definition compare_target ::
  "'w machine \<Rightarrow> side \<Rightarrow> side \<Rightarrow> compare_request \<Rightarrow> string list \<Rightarrow> uses \<Rightarrow> source_facts \<Rightarrow> 'w runtime
    \<Rightarrow> 'w runtime \<times> source_facts \<times> (run_cause read_stop + (string + compared_paths))" where
  "compare_target mc source destination q named u facts rt =
     (case connect_side mc destination rt of
        (rt', Inl e) \<Rightarrow> (rt', facts, Inr (Inl (show_error e)))
      | (rt', Inr _) \<Rightarrow>
          (case compare_destination mc source destination q named u facts rt' of
             (rt'', facts', compared) \<Rightarrow>
               (case judge_target mc source q compared rt'' of (rt3, r) \<Rightarrow> (rt3, facts', r))))"

definition target_plan_of ::
  "side \<Rightarrow> merge_targets \<Rightarrow> bool \<Rightarrow> 'w runtime \<Rightarrow> string + compared_paths \<Rightarrow> target_plan" where
  "target_plan_of destination targets delete rt compared =
     \<lparr>tp_side = destination, tp_target = source_info_of destination rt,
      tp_state =
        (case compared of
           Inr paths \<Rightarrow> TargetPlanned paths (merge_plan_of paths targets delete False)
         | Inl e \<Rightarrow> TargetFailed e)\<rparr>"

fun plan_each ::
  "'w machine \<Rightarrow> side \<Rightarrow> compare_request \<Rightarrow> merge_targets \<Rightarrow> bool \<Rightarrow> uses \<Rightarrow> side list \<Rightarrow> source_facts
    \<Rightarrow> ('w, target_plan list) running" where
  "plan_each mc source q targets delete u [] facts rt = (rt, Inr [])"
| "plan_each mc source q targets delete u (destination # ds) facts rt =
     (case compare_target mc source destination q (tg_named targets) u facts rt of
        (rt', facts', Inl e) \<Rightarrow> (rt', Inl e)
      | (rt', facts', Inr compared) \<Rightarrow>
          (let plan = target_plan_of destination targets delete rt' compared in
           case plan_each mc source q targets delete u ds facts' rt' of
             (rt'', r) \<Rightarrow> (rt'', res_bind r (\<lambda>plans. Inr (plan # plans)))))"

definition planned_of :: "target_plan \<Rightarrow> merge_plan option" where
  "planned_of p = (case tp_state p of TargetPlanned _ plan \<Rightarrow> Some plan | TargetFailed _ \<Rightarrow> None)"

definition plan_targets ::
  "'w machine \<Rightarrow> sync_args \<Rightarrow> side \<Rightarrow> side list \<Rightarrow> rel_path list \<Rightarrow> nat \<Rightarrow> ('w, target_plan list) running" where
  "plan_targets mc args source destinations paths max_entries =
     (let targets = merge_targets_of paths (sa_delete args);
          u = uses_of_merge \<lparr>mu_targets = targets, mu_delete = sa_delete args, mu_dry_run = sa_dry_run args,
                mu_reference_check = False\<rparr>;
          q = merge_request targets (sa_checksum args) (sa_force args) max_entries
      in run_bind (run_act (connect_side mc source)) (\<lambda>_.
         run_bind (plan_each mc source q targets (sa_delete args) u destinations (reused_new source)) (\<lambda>plans.
           run_act (\<lambda>rt. (rt, res_bind
             (report_missing_names (missing_names_of (map planned_of plans) (length (tg_named targets))))
             (\<lambda>_. Inr plans))))))"

subsection \<open>Changing the destinations\<close>

definition sync_options :: "sync_args \<Rightarrow> string option \<Rightarrow> apply_options" where
  "sync_options args session =
     \<lparr>ao_dry_run = sa_dry_run args, ao_session = session, ao_with_permissions = sa_with_permissions args,
      ao_content_limit = from_force (sa_force args)\<rparr>"

definition target_failed :: "source_info \<Rightarrow> string \<Rightarrow> sync_target_result" where
  "target_failed target e =
     \<lparr>str_target = target, str_merged = [], str_skipped = [], str_deleted = [], str_failed = [([], e)],
      str_status = SyncFailed\<rparr>"

definition target_applied :: "source_info \<Rightarrow> target_lists \<Rightarrow> sync_target_status \<Rightarrow> sync_target_result" where
  "target_applied target ls status =
     \<lparr>str_target = target, str_merged = tl_merged ls, str_skipped = tl_skipped ls,
      str_deleted = tl_deleted ls, str_failed = tl_failed ls, str_status = status\<rparr>"

definition sync_target ::
  "(bytes \<Rightarrow> string) \<Rightarrow> 'w machine \<Rightarrow> apply_options \<Rightarrow> target_plan \<Rightarrow> 'w runtime
    \<Rightarrow> 'w runtime \<times> sync_target_result option" where
  "sync_target hex mc opts p rt =
     (case tp_state p of
        TargetFailed e \<Rightarrow> (rt, Some (target_failed (tp_target p) e))
      | TargetPlanned paths plan \<Rightarrow>
          (case apply_plan hex mc (tp_side p) paths plan opts False rt of
             (rt', None) \<Rightarrow> (rt', None)
           | (rt', Some outs) \<Rightarrow>
               (let lists = target_lists_of outs in
                (rt', Some (target_applied (tp_target p) lists
                  (status_of_target lists plan (stopped_error_for (tp_side p) rt' \<noteq> None)))))))"

fun sync_each ::
  "(bytes \<Rightarrow> string) \<Rightarrow> 'w machine \<Rightarrow> apply_options \<Rightarrow> target_plan list \<Rightarrow> 'w runtime
    \<Rightarrow> 'w runtime \<times> sync_target_result list option" where
  "sync_each hex mc opts [] rt = (rt, Some [])"
| "sync_each hex mc opts (p # ps) rt =
     (case sync_target hex mc opts p rt of
        (rt', None) \<Rightarrow> (rt', None)
      | (rt', Some result) \<Rightarrow>
          (case sync_each hex mc opts ps rt' of
             (rt'', results) \<Rightarrow> (rt'', map_option ((#) result) results)))"

definition sync_targets ::
  "(bytes \<Rightarrow> string) \<Rightarrow> 'w machine \<Rightarrow> 'w store \<Rightarrow> sync_args \<Rightarrow> target_plan list
    \<Rightarrow> ('w, sync_target_result list) running" where
  "sync_targets hex mc bk args plans =
     run_bind (run_act (start_backup_session bk (sa_dry_run args) (map tp_side (filter changes_anything plans))))
       (\<lambda>session rt.
          (case sync_each hex mc (sync_options args session) plans rt of
             (rt', None) \<Rightarrow> (rt', Inl RsPanic)
           | (rt', Some results) \<Rightarrow> (end_backup_session bk session rt', Inr results)))"

subsection \<open>The command\<close>

text \<open>\<open>answer\<close> is the line read from the user, or the failure to read it.\<close>

definition confirmed_sync :: "string \<Rightarrow> bool" where
  "confirmed_sync answer = (str_trim answer = ''y'' \<or> str_trim answer = ''Y'')"

definition sync_cancelled :: sync_command_result where
  "sync_cancelled = \<lparr>sr_output = SyncCancelled, sr_exit_code = exit_success, sr_no_files = False\<rparr>"

definition sync_result_of :: "side \<Rightarrow> bool \<Rightarrow> sync_target_result list \<Rightarrow> 'w runtime \<Rightarrow> sync_command_result" where
  "sync_result_of source no_files results rt =
     \<lparr>sr_output =
        SyncResult \<lparr>syo_left = source_info_of source rt, syo_targets = results, syo_summary = sync_summary_of results\<rparr>,
      sr_exit_code = sync_exit_code (map str_status results), sr_no_files = no_files\<rparr>"

definition asks_before_sync :: "sync_args \<Rightarrow> target_plan list \<Rightarrow> bool" where
  "asks_before_sync args plans = (\<not> sa_force args \<and> \<not> sa_dry_run args \<and> (\<exists>p \<in> set plans. changes_anything p))"

definition sync_planned ::
  "(bytes \<Rightarrow> string) \<Rightarrow> 'w machine \<Rightarrow> 'w store \<Rightarrow> sync_args \<Rightarrow> side \<Rightarrow> run_error + string \<Rightarrow> target_plan list
    \<Rightarrow> ('w, sync_command_result) running" where
  "sync_planned hex mc bk args source answer plans =
     run_bind (if asks_before_sync args plans then run_act (\<lambda>rt. (rt, res_bind answer (\<lambda>a. Inr (confirmed_sync a))))
               else run_return True)
       (\<lambda>go_on.
          if \<not> go_on then run_return sync_cancelled
          else
            run_bind (sync_targets hex mc bk args plans) (\<lambda>results rt.
              (rt, Inr (sync_result_of source (\<forall>p \<in> set plans. plan_is_empty p) results rt))))"

definition sync_start :: "sync_args \<Rightarrow> app_config \<Rightarrow> run_error + side \<times> side list \<times> rel_path list \<times> nat" where
  "sync_start args config =
     res_bind (validate_sync_args args) (\<lambda>paths.
     res_bind (parse_text_or_json (sa_format args)) (\<lambda>_.
     res_bind (res_map_err config_run_error (resolve_max_entries (sa_max_entries args) config)) (\<lambda>max_entries.
     res_bind (res_map_err run_error_text (sync_sides (sa_left args) (sa_right args) (map fst (cf_servers config))))
       (\<lambda>(source, destinations). Inr (source, destinations, paths, max_entries)))))"

definition execute_sync ::
  "(bytes \<Rightarrow> string) \<Rightarrow> 'w machine \<Rightarrow> 'w store \<Rightarrow> sync_args \<Rightarrow> run_error + string
    \<Rightarrow> ('w, sync_command_result) running" where
  "execute_sync hex mc bk args answer rt =
     (case sync_start args (rn_config rt) of
        Inl e \<Rightarrow> (rt, stop_error e)
      | Inr (source, destinations, paths, max_entries) \<Rightarrow>
          run_bind (plan_targets mc args source destinations paths max_entries)
            (sync_planned hex mc bk args source answer) rt)"

end
