(* ===== verification/DiffTreat.thy ===== *)
theory DiffTreat
  imports Prepare Status Lossy Uses ScanResults
begin

text \<open>
  How diff shows a comparison (\<open>treat/diff.rs\<close>, \<open>diff_names.rs\<close>, \<open>diff_hunks.rs\<close>, \<open>diff_file.rs\<close> and
  \<open>diff_listing.rs\<close> of remote-merge-engine, with their output types of \<open>service/types.rs\<close>). SHA-256
  as lower case hex is a parameter. A result of type option is None when the code panics.
\<close>

subsection \<open>One path\<close>

datatype change_of = ChDiffers | ChOneSided present | ChKindDiffers

datatype diff_entry = DeChanged change_of | DeUnchanged | DeUnreadable string | DeNotListed

definition diff_entry_of :: "path_comparison \<Rightarrow> diff_entry" where
  "diff_entry_of c =
     (case comparison_pair c RoleLeft RoleRight of
        None \<Rightarrow> DeNotListed
      | Some p \<Rightarrow>
          if only_directories c then DeNotListed
          else
            (case pv_verdict p of
               VdDiffers \<Rightarrow> DeChanged ChDiffers
             | VdOneSided present \<Rightarrow> DeChanged (ChOneSided present)
             | VdKindDiffers \<Rightarrow> DeChanged ChKindDiffers
             | VdSame \<Rightarrow> DeUnchanged
             | VdUndecidable why \<Rightarrow> DeUnreadable (show_undecidable why)
             | VdBothAbsent \<Rightarrow> DeNotListed))"

definition diff_exit_code :: "bool \<Rightarrow> bool \<Rightarrow> int" where
  "diff_exit_code changed errors =
     (if errors then exit_error else if changed then exit_diff_found else exit_success)"

subsection \<open>Names\<close>

datatype diff_scope = DiffWhole "string list" | DiffNamed "string list"

definition diff_scope_of :: "rel_path list \<Rightarrow> diff_scope" where
  "diff_scope_of paths =
     (let (named, whole) = fold (\<lambda>path (named, whole).
            (let normal = normalized (typed path) in
             if normal = [] then (named, True) else (push_new normal named, whole)))
          paths ([], paths = [])
      in if whole then DiffWhole named else DiffNamed named)"

definition found_on_a_side :: "path_comparison \<Rightarrow> bool" where
  "found_on_a_side c =
     (\<exists>r \<in> {RoleLeft, RoleRight}. r \<in> pst_not_collected (cmp_states c) \<or> present_at c r)"

definition diff_missing_names :: "string list \<Rightarrow> compared_paths \<Rightarrow> string list" where
  "diff_missing_names named paths =
     filter (\<lambda>name. \<not> (case map_of paths name of Some c \<Rightarrow> found_on_a_side c | None \<Rightarrow> False)) named"

definition missing_names_of_complete :: "string list \<Rightarrow> compared_paths \<Rightarrow> role list \<Rightarrow> string list" where
  "missing_names_of_complete named paths incomplete =
     (if \<exists>r \<in> set incomplete. r = RoleLeft \<or> r = RoleRight then [] else diff_missing_names named paths)"

definition nothing_named_found :: "bool \<Rightarrow> string list \<Rightarrow> string list \<Rightarrow> nat \<Rightarrow> bool" where
  "nothing_named_found whole missing named unlistable =
     (\<not> whole \<and> missing \<noteq> [] \<and> length missing = length named \<and> unlistable = 0)"

fun failure_path :: "scan_failure \<Rightarrow> string option" where
  "failure_path (StartUnreadable path _) = Some path"
| "failure_path (UnreadableDirectory path _) = Some path"
| "failure_path (UnresolvableLink path) = Some path"
| "failure_path (UnreadableLinkTarget path) = Some path"
| "failure_path (UnreadableTime path) = Some path"
| "failure_path (ChangedDuringScan path) = Some path"
| "failure_path _ = None"

definition unlistable_name :: "string list \<Rightarrow> scan_failure \<Rightarrow> string option" where
  "unlistable_name named failure =
     Option.bind (failure_path failure) (\<lambda>path. find (\<lambda>name. is_within path name) named)"

subsection \<open>Hunks\<close>

datatype diff_line_type = LtContext | LtAdded | LtRemoved

record shown_line =
  sn_type :: diff_line_type
  sn_content :: string

record shown_hunk =
  sh_index :: nat
  sh_left_start :: nat
  sh_right_start :: nat
  sh_lines :: "shown_line list"

record shown_hunks =
  sw_hunks :: "shown_hunk list"
  sw_truncated :: bool

fun line_type :: "diff_tag \<Rightarrow> diff_line_type" where
  "line_type TEqual = LtContext"
| "line_type TDelete = LtRemoved"
| "line_type TInsert = LtAdded"

definition at_limit :: "nat option \<Rightarrow> nat \<Rightarrow> bool" where
  "at_limit limit changes = (case limit of Some l \<Rightarrow> changes \<ge> l | None \<Rightarrow> False)"

text \<open>
  The inner loop over the lines of a hunk: the lines kept, the changed lines counted and whether the
  limit cut it.
\<close>

fun keep_lines :: "nat option \<Rightarrow> diff_line list \<Rightarrow> nat \<Rightarrow> shown_line list \<times> nat \<times> bool" where
  "keep_lines limit [] changes = ([], changes, False)"
| "keep_lines limit (line # ls) changes =
     (if at_limit limit changes then ([], changes, True)
      else
        (let (kept, rest) =
           keep_lines limit ls (if dl_tag line \<noteq> TEqual then changes + 1 else changes)
         in (\<lparr>sn_type = line_type (dl_tag line), sn_content = dl_value line\<rparr> # kept, rest)))"

fun keep_hunks ::
  "nat option \<Rightarrow> diff_line list \<Rightarrow> (nat \<times> diff_hunk) list \<Rightarrow> nat \<Rightarrow> shown_hunks" where
  "keep_hunks limit all_lines [] changes = \<lparr>sw_hunks = [], sw_truncated = False\<rparr>"
| "keep_hunks limit all_lines ((index, h) # hs) changes =
     (let (kept, changes', truncated) = keep_lines limit (hunk_lines h all_lines) changes;
          this = (if kept = [] then []
            else [\<lparr>sh_index = index, sh_left_start = dh_old_start h, sh_right_start = dh_new_start h,
                   sh_lines = kept\<rparr>])
      in if truncated then \<lparr>sw_hunks = this, sw_truncated = True\<rparr>
         else
           (let rest = keep_hunks limit all_lines hs changes'
            in \<lparr>sw_hunks = this @ sw_hunks rest, sw_truncated = sw_truncated rest\<rparr>))"

definition line_limit :: "nat option \<Rightarrow> nat option" where
  "line_limit max_lines = (case max_lines of Some l \<Rightarrow> if l > 0 then Some l else None | None \<Rightarrow> None)"

definition shown_script :: "diff_result \<Rightarrow> nat option \<Rightarrow> shown_hunks" where
  "shown_script script max_lines =
     (case script of
        DiffModified hunks _ ls \<Rightarrow> keep_hunks (line_limit max_lines) ls (enum_from 0 hunks) 0
      | DiffEqual \<Rightarrow> \<lparr>sw_hunks = [], sw_truncated = False\<rparr>)"

subsection \<open>A file of the listing\<close>

record sources =
  so_left :: source_info
  so_right :: source_info
  so_reference :: "source_info option"

record link_targets =
  lk_left :: "string option"
  lk_right :: "string option"
  lk_ref :: "string option option"

record diff_output =
  do_encodings :: "(string \<times> string) list"
  do_byte_only :: bool
  do_path :: string
  do_left :: source_info
  do_right :: source_info
  do_ref :: "source_info option"
  do_binary :: bool
  do_symlink :: bool
  do_link_targets :: "link_targets option"
  do_truncated :: bool
  do_hunks :: "shown_hunk list"
  do_ref_hunks :: "shown_hunk list option"
  do_left_hash :: "string option"
  do_right_hash :: "string option"
  do_ref_hash :: "string option"
  do_note :: "string option"
  do_conflict_count :: nat
  do_conflict_regions :: "conflict_area list"

definition shown_reference :: "path_comparison \<Rightarrow> sources \<Rightarrow> source_info option" where
  "shown_reference c so =
     (if pst_states (cmp_states c) RoleRef \<noteq> None \<and> pst_outside (cmp_states c) = {}
      then so_reference so else None)"

definition is_link :: "path_comparison \<Rightarrow> role \<Rightarrow> bool" where
  "is_link c r = (case pst_states (cmp_states c) r of Some (SsSymlink _ _) \<Rightarrow> True | _ \<Rightarrow> False)"

definition link_target_at :: "path_comparison \<Rightarrow> role \<Rightarrow> string option" where
  "link_target_at c r =
     (case pst_states (cmp_states c) r of
        Some (SsSymlink target _) \<Rightarrow> Some (utf8_lossy target)
      | _ \<Rightarrow> None)"

definition kind_text :: "path_comparison \<Rightarrow> role \<Rightarrow> string" where
  "kind_text c r =
     (case pst_states (cmp_states c) r of
        Some (SsFile _ _) \<Rightarrow> ''file''
      | Some SsDirectory \<Rightarrow> ''directory''
      | Some (SsSymlink _ _) \<Rightarrow> ''symlink''
      | Some SsOther \<Rightarrow> ''other''
      | Some SsUnreadableName \<Rightarrow> ''unreadable name''
      | Some SsAbsent \<Rightarrow> ''missing''
      | None \<Rightarrow> ''missing'')"

definition side_text :: "string + prepared \<Rightarrow> text_content option" where
  "side_text p = (case p of Inr x \<Rightarrow> text_or_empty x | Inl _ \<Rightarrow> None)"

definition hash_of_side :: "(bytes \<Rightarrow> string) \<Rightarrow> string + prepared \<Rightarrow> string option" where
  "hash_of_side hex p = (case p of Inr x \<Rightarrow> map_option hex (prepared_raw x) | Inl _ \<Rightarrow> None)"

definition zip_options :: "'a option \<Rightarrow> 'b option \<Rightarrow> ('a \<times> 'b) option" where
  "zip_options x y = (case (x, y) of (Some a, Some b) \<Rightarrow> Some (a, b) | _ \<Rightarrow> None)"

text \<open>The item before the contents are looked at.\<close>

definition bare_output ::
  "string \<Rightarrow> path_comparison \<Rightarrow> change_of option \<Rightarrow> sources \<Rightarrow> content_view \<Rightarrow> bool \<Rightarrow> diff_output" where
  "bare_output path c change so v binary =
     (let symlink = (is_link c RoleLeft \<or> is_link c RoleRight);
          reference = shown_reference c so
      in \<lparr>do_encodings = view_encodings v, do_byte_only = False, do_path = path,
          do_left = so_left so, do_right = so_right so, do_ref = reference,
          do_binary = binary, do_symlink = symlink,
          do_link_targets =
            (if symlink
             then Some \<lparr>lk_left = link_target_at c RoleLeft, lk_right = link_target_at c RoleRight,
                        lk_ref = map_option (\<lambda>_. link_target_at c RoleRef) reference\<rparr>
             else None),
          do_truncated = False, do_hunks = [], do_ref_hunks = None,
          do_left_hash = None, do_right_hash = None, do_ref_hash = None,
          do_note =
            (if change = Some ChKindDiffers
             then Some (''type mismatch: '' @ kind_text c RoleLeft @ '' vs '' @ kind_text c RoleRight)
             else None),
          do_conflict_count = 0, do_conflict_regions = []\<rparr>)"

definition byte_only_note :: string where
  "byte_only_note = ''byte-only representation difference; decoded text is equal''"

definition with_texts ::
  "(bytes \<Rightarrow> string) \<Rightarrow> line_diff \<Rightarrow> nat option \<Rightarrow> text_content \<times> text_content
    \<Rightarrow> diff_output \<Rightarrow> diff_output option" where
  "with_texts hex line_diff max_lines texts out =
     (case texts of (lt, rt) \<Rightarrow>
       map_option
         (\<lambda>script.
           (let sw = shown_script (ps_display script) max_lines;
                out1 = out\<lparr>do_hunks := sw_hunks sw, do_truncated := sw_truncated sw\<rparr>
            in if t_decoded lt = t_decoded rt \<and> t_raw lt \<noteq> t_raw rt
               then out1\<lparr>do_byte_only := True, do_left_hash := Some (hex (t_raw lt)),
                      do_right_hash := Some (hex (t_raw rt)), do_note := Some byte_only_note\<rparr>
               else out1))
         (pair_script_new line_diff lt rt))"

definition with_hashes :: "(bytes \<Rightarrow> string) \<Rightarrow> content_view \<Rightarrow> diff_output \<Rightarrow> diff_output" where
  "with_hashes hex v out =
     out\<lparr>do_left_hash := hash_of_side hex (vw_left v), do_right_hash := hash_of_side hex (vw_right v)\<rparr>"

definition with_reference_content ::
  "(bytes \<Rightarrow> string) \<Rightarrow> line_diff \<Rightarrow> nat option \<Rightarrow> (text_content \<times> text_content) option \<Rightarrow> content_view
    \<Rightarrow> diff_output \<Rightarrow> diff_output option" where
  "with_reference_content hex line_diff max_lines texts v out =
     (case vw_reference v of
        Inr (PrText reference) \<Rightarrow>
          (case texts of
             Some (lt, _) \<Rightarrow>
               map_option
                 (\<lambda>script.
                   (let sw = shown_script (ps_display script) max_lines
                    in out\<lparr>do_ref_hunks := Some (sw_hunks sw),
                           do_truncated := (do_truncated out \<or> sw_truncated sw)\<rparr>))
                 (pair_script_new line_diff lt reference)
           | None \<Rightarrow> Some (out\<lparr>do_ref_hash := Some (hex (t_raw reference))\<rparr>))
      | Inr (PrBinary reference) \<Rightarrow> Some (out\<lparr>do_ref_hash := Some (hex reference)\<rparr>)
      | _ \<Rightarrow> Some out)"

definition with_conflicts :: "line_diff \<Rightarrow> content_view \<Rightarrow> diff_output \<Rightarrow> diff_output option" where
  "with_conflicts line_diff v out =
     map_option (\<lambda>regions. out\<lparr>do_conflict_regions := regions, do_conflict_count := length regions\<rparr>)
       (view_conflicts line_diff v)"

definition prepared_file ::
  "(bytes \<Rightarrow> string) \<Rightarrow> line_diff \<Rightarrow> string \<Rightarrow> path_comparison \<Rightarrow> change_of option \<Rightarrow> sources
    \<Rightarrow> nat option \<Rightarrow> content_view \<Rightarrow> diff_output option" where
  "prepared_file hex line_diff path c change so max_lines v =
     (let texts = zip_options (side_text (vw_left v)) (side_text (vw_right v));
          out = bare_output path c change so v (texts = None)
      in Option.bind
           (case texts of
              Some pair \<Rightarrow> with_texts hex line_diff max_lines pair out
            | None \<Rightarrow> Some (with_hashes hex v out))
           (\<lambda>out1.
             if do_ref out \<noteq> None \<and> \<not> do_symlink out \<and> sides_are_files_or_absent (cmp_states c)
             then Option.bind (with_reference_content hex line_diff max_lines texts v out1)
                    (with_conflicts line_diff v)
             else Some out1))"

subsection \<open>The listing\<close>

definition outside_not_compared :: string where
  "outside_not_compared =
     ''the link resolves outside root_dir and its target was not compared; use --follow-external-links to compare it''"

definition link_target_missing :: string where
  "link_target_missing = ''the link target is unreadable: it does not exist''"

record limits =
  lm_max_lines :: "nat option"
  lm_max_files :: nat

record coverage =
  cv_named :: "string list"
  cv_incomplete :: "role set"

record multi_diff_output =
  md_files :: "diff_output list"
  md_errors :: "diff_error list"
  md_scanned_files :: nat
  md_files_with_changes :: nat
  md_truncated :: bool
  md_changed_files_total :: "nat option"

definition not_compared :: "path_comparison \<Rightarrow> string option" where
  "not_compared c =
     (if RoleLeft \<in> pst_outside (cmp_states c) \<or> RoleRight \<in> pst_outside (cmp_states c)
      then Some outside_not_compared
      else if \<exists>r \<in> {RoleLeft, RoleRight}.
           (case pst_states (cmp_states c) r of Some (SsSymlink _ LpMissing) \<Rightarrow> True | _ \<Rightarrow> False)
      then Some link_target_missing else None)"

definition not_collected_through_outside :: "path_comparison \<Rightarrow> coverage \<Rightarrow> bool" where
  "not_collected_through_outside c cov =
     (\<exists>r \<in> {RoleLeft, RoleRight}. r \<in> pst_not_collected (cmp_states c) \<and> r \<notin> cv_incomplete cov)"

definition reference_outside :: "path_comparison \<Rightarrow> coverage \<Rightarrow> bool" where
  "reference_outside c cov =
     (if RoleLeft \<in> pst_outside (cmp_states c) \<or> RoleRight \<in> pst_outside (cmp_states c) then False
      else RoleRef \<in> pst_outside (cmp_states c)
        \<or> (RoleRef \<in> pst_not_collected (cmp_states c) \<and> RoleRef \<notin> cv_incomplete cov))"

definition compared_elsewhere :: "path_comparison \<Rightarrow> bool" where
  "compared_elsewhere c =
     (\<exists>r \<in> {RoleLeft, RoleRight}.
        (case pst_states (cmp_states c) r of
           Some s \<Rightarrow> s \<noteq> SsAbsent \<and> s \<noteq> SsDirectory | None \<Rightarrow> False))"

definition reference_error :: "path_comparison \<Rightarrow> string option" where
  "reference_error c =
     find_map undecidable_text
       (List.map_filter (\<lambda>r. comparison_pair c r RoleRef) [RoleLeft, RoleRight])"

definition diff_error_at :: "string \<Rightarrow> string \<Rightarrow> diff_error" where
  "diff_error_at path reason = \<lparr>de_path = path, de_reason = reason\<rparr>"

text \<open>The variables of the loop.\<close>

record diff_loop =
  dlp_files :: "diff_output list"
  dlp_errors :: "diff_error list"
  dlp_scanned :: nat
  dlp_changed :: nat
  dlp_shown :: nat

definition failed_sides :: "content_view \<Rightarrow> string list" where
  "failed_sides v =
     List.map_filter (\<lambda>p. case p of Inl reason \<Rightarrow> Some reason | Inr _ \<Rightarrow> None) [vw_left v, vw_right v]"

text \<open>The errors of a path whose two sides could be prepared.\<close>

definition listed_errors ::
  "string \<Rightarrow> path_comparison \<Rightarrow> sources \<Rightarrow> coverage \<Rightarrow> content_view \<Rightarrow> diff_error list" where
  "listed_errors path c so cov v =
     map (diff_error_at path)
       ((case vw_reference v of
           Inl reason \<Rightarrow> if reference_error c = None then [reason] else []
         | Inr _ \<Rightarrow> [])
        @ opt_list (not_compared c)
        @ (if so_reference so \<noteq> None
           then opt_list (reference_error c)
             @ (if reference_outside c cov then [outside_not_compared] else [])
           else []))"

text \<open>The end of the loop's body: counting and pushing the item of the path.\<close>

definition push_file ::
  "(bytes \<Rightarrow> string) \<Rightarrow> line_diff \<Rightarrow> limits \<Rightarrow> sources \<Rightarrow> string \<Rightarrow> path_comparison \<Rightarrow> change_of option
    \<Rightarrow> content_view \<Rightarrow> diff_loop \<Rightarrow> diff_loop option" where
  "push_file hex line_diff lim so path c change v st =
     (let push = (\<lambda>st. map_option (\<lambda>out. st\<lparr>dlp_files := dlp_files st @ [out]\<rparr>)
            (prepared_file hex line_diff path c change so (lm_max_lines lim) v))
      in if change \<noteq> None then
           (let st1 = st\<lparr>dlp_changed := dlp_changed st + 1\<rparr> in
            if lm_max_files lim \<noteq> 0 \<and> dlp_shown st1 \<ge> lm_max_files lim then Some st1
            else push (st1\<lparr>dlp_shown := dlp_shown st1 + 1\<rparr>))
         else if not_compared c = None then Some st
         else push st)"

definition list_path ::
  "decoders \<Rightarrow> glob \<Rightarrow> (bytes \<Rightarrow> string) \<Rightarrow> line_diff \<Rightarrow> content_context \<Rightarrow> sources \<Rightarrow> limits \<Rightarrow> coverage
    \<Rightarrow> string \<times> path_comparison \<Rightarrow> diff_loop \<Rightarrow> diff_loop option" where
  "list_path d glob hex line_diff cx so lim cov x st =
     (case x of (path, c) \<Rightarrow>
       if not_collected_through_outside c cov then
         Some (if path \<in> set (cv_named cov) \<or> compared_elsewhere c
               then st\<lparr>dlp_errors := dlp_errors st @ [diff_error_at path outside_not_compared]\<rparr> else st)
       else
         (case diff_entry_of c of
            DeNotListed \<Rightarrow> Some st
          | DeUnreadable reason \<Rightarrow>
              Some (st\<lparr>dlp_scanned := dlp_scanned st + 1,
                       dlp_errors := dlp_errors st @ [diff_error_at path reason]\<rparr>)
          | entry \<Rightarrow>
              (let change = (case entry of DeChanged ch \<Rightarrow> Some ch | _ \<Rightarrow> None);
                   st1 = st\<lparr>dlp_scanned := dlp_scanned st + 1\<rparr>;
                   v = prepare d glob c path cx (so_reference so \<noteq> None)
               in if failed_sides v \<noteq> [] then
                    Some (st1\<lparr>dlp_errors := dlp_errors st1 @
                            [diff_error_at path (join_with ''; '' (failed_sides v))]\<rparr>)
                  else
                    push_file hex line_diff lim so path c change v
                      (st1\<lparr>dlp_errors := dlp_errors st1 @ listed_errors path c so cov v\<rparr>))))"

fun list_paths ::
  "decoders \<Rightarrow> glob \<Rightarrow> (bytes \<Rightarrow> string) \<Rightarrow> line_diff \<Rightarrow> content_context \<Rightarrow> sources \<Rightarrow> limits \<Rightarrow> coverage
    \<Rightarrow> compared_paths \<Rightarrow> diff_loop \<Rightarrow> diff_loop option" where
  "list_paths d glob hex line_diff cx so lim cov [] st = Some st"
| "list_paths d glob hex line_diff cx so lim cov (x # xs) st =
     Option.bind (list_path d glob hex line_diff cx so lim cov x st)
       (list_paths d glob hex line_diff cx so lim cov xs)"

definition diff_listing_with_content ::
  "decoders \<Rightarrow> glob \<Rightarrow> (bytes \<Rightarrow> string) \<Rightarrow> line_diff \<Rightarrow> compared_paths \<Rightarrow> sources \<Rightarrow> limits \<Rightarrow> coverage
    \<Rightarrow> content_context \<Rightarrow> multi_diff_output option" where
  "diff_listing_with_content d glob hex line_diff paths so lim cov cx =
     map_option
       (\<lambda>st.
         (let truncated = (lm_max_files lim \<noteq> 0 \<and> dlp_changed st > lm_max_files lim)
          in \<lparr>md_files = dlp_files st, md_errors = dlp_errors st,
              md_scanned_files = dlp_scanned st, md_files_with_changes = dlp_shown st,
              md_truncated = truncated,
              md_changed_files_total = (if truncated then Some (dlp_changed st) else None)\<rparr>))
       (list_paths d glob hex line_diff cx so lim cov paths
          \<lparr>dlp_files = [], dlp_errors = [], dlp_scanned = 0, dlp_changed = 0, dlp_shown = 0\<rparr>)"

end
