(* ===== verification/ReadCommands.thy ===== *)
theory ReadCommands
  imports PlanApply DiffTreat MergeCommand
begin

text \<open>
  The commands that only read (\<open>cli/status.rs\<close>, \<open>cli/diff.rs\<close> and \<open>cli/diff_compare.rs\<close> of remote-merge):
  status lists how each path compares, diff shows what differs in the files. Rendering the result and
  closing the connections at the end are left out.
\<close>

subsection \<open>status\<close>

record status_args =
  ta_left :: "string option"
  ta_right :: "string option"
  ta_ref_server :: "string option"
  ta_format :: string
  ta_summary :: bool
  ta_all :: bool
  ta_checksum :: bool
  ta_verbose :: u8
  ta_max_entries :: "nat option"

datatype agent_status = AgentConnected

record status_output =
  sto_left :: source_info
  sto_right :: source_info
  sto_ref :: "source_info option"
  sto_agent :: "agent_status option"
  sto_files :: "file_status list option"
  sto_summary :: status_summary
  sto_errors :: "unreadable_file list"

record status_command_result =
  stc_output :: status_output
  stc_exit_code :: int

definition status_request :: "bool \<Rightarrow> nat \<Rightarrow> compare_request" where
  "status_request checksum max_entries =
     \<lparr>cq_scope = CsWhole, cq_max_entries = max_entries, cq_entry_limit = LimitWhole,
      cq_counted_before = Map.empty, cq_method = choose_method CmdStatus checksum BelowDirectory,
      cq_named_files = None, cq_follow = FollowNo, cq_external_links = ExternalFollow,
      cq_content_limit = Unlimited, cq_unfollowable_links = UnfollowableReport,
      cq_lost_destination = StopCommand\<rparr>"

definition determine_agent_status :: "side \<Rightarrow> 'w runtime \<Rightarrow> agent_status option" where
  "determine_agent_status right rt =
     (case server_name right of
        Some name \<Rightarrow> if name \<in> rn_agents rt then Some AgentConnected else None
      | None \<Rightarrow> None)"

definition status_result_of ::
  "status_args \<Rightarrow> compare_sides \<Rightarrow> comparison \<Rightarrow> 'w runtime \<Rightarrow> status_command_result" where
  "status_result_of args sides c rt =
     (let listing = status_listing_of (cn_paths c) (cs_reference sides \<noteq> None);
          unreadable = length (stl_errors listing)
      in \<lparr>stc_output =
            \<lparr>sto_left = source_info_of (cs_left sides) rt, sto_right = source_info_of (cs_right sides) rt,
             sto_ref = map_option (\<lambda>side. source_info_of side rt) (cs_reference sides),
             sto_agent = (if ta_verbose args > 0 then determine_agent_status (cs_right sides) rt else None),
             sto_files = (if ta_summary args then None else Some (status_shown (stl_files listing) (ta_all args))),
             sto_summary = status_summary_of (stl_files listing) unreadable (stl_ref_counts listing),
             sto_errors = stl_errors listing\<rparr>,
          stc_exit_code = status_exit_code (stl_files listing) unreadable\<rparr>)"

definition compare_and_list ::
  "'w machine \<Rightarrow> status_args \<Rightarrow> compare_sides \<Rightarrow> nat \<Rightarrow> ('w, status_command_result) running" where
  "compare_and_list mc args sides max_entries =
     run_bind (run_act (connect_sides mc sides)) (\<lambda>_.
     run_bind (compare mc sides (status_request (ta_checksum args) max_entries) nothing_used) (\<lambda>c.
     run_bind stop_if_gone (\<lambda>_.
     run_bind (stop_if_incomplete (cn_incomplete c)) (\<lambda>_ rt.
       (rt, Inr (status_result_of args sides c rt))))))"

definition read_sides :: "string option \<Rightarrow> string option \<Rightarrow> string option \<Rightarrow> app_config \<Rightarrow> run_error + compare_sides" where
  "read_sides left right ref_server config =
     (let servers = map fst (cf_servers config) in
      res_bind (res_map_err run_error_text (compared_sides left right servers)) (\<lambda>(l, r).
      res_bind (res_map_err run_error_text (reference_side ref_server (l, r) servers)) (\<lambda>reference.
        Inr \<lparr>cs_left = l, cs_right = r, cs_reference = used_reference reference\<rparr>)))"

definition status_start :: "status_args \<Rightarrow> app_config \<Rightarrow> run_error + compare_sides \<times> nat" where
  "status_start args config =
     res_bind (parse_output_format (ta_format args)) (\<lambda>_.
     res_bind (read_sides (ta_left args) (ta_right args) (ta_ref_server args) config) (\<lambda>sides.
     res_bind (res_map_err config_run_error (resolve_max_entries (ta_max_entries args) config)) (\<lambda>max_entries.
       Inr (sides, max_entries))))"

definition execute_status :: "'w machine \<Rightarrow> status_args \<Rightarrow> ('w, status_command_result) running" where
  "execute_status mc args rt =
     (case status_start args (rn_config rt) of
        Inl e \<Rightarrow> (rt, stop_error e)
      | Inr (sides, max_entries) \<Rightarrow> compare_and_list mc args sides max_entries rt)"

subsection \<open>diff: comparing the names\<close>

record diff_compared =
  dc_paths :: compared_paths
  dc_incomplete :: "incomplete list"
  dc_unlistable :: "diff_error list"
  dc_named :: "string list"

definition diff_compared_default :: diff_compared where
  "diff_compared_default = \<lparr>dc_paths = [], dc_incomplete = [], dc_unlistable = [], dc_named = []\<rparr>"

fun scan_failure_in :: "run_cause cause \<Rightarrow> scan_failure option" where
  "scan_failure_in (CauseOther c) = scan_failure_carried c"
| "scan_failure_in _ = None"

definition diff_scan_failure :: "run_error \<Rightarrow> scan_failure option" where
  "diff_scan_failure e = find_map scan_failure_in e"

definition unlistable_start :: "string list \<Rightarrow> run_error \<Rightarrow> (string \<times> scan_failure) option" where
  "unlistable_start named e =
     Option.bind (diff_scan_failure e) (\<lambda>failure.
       map_option (\<lambda>name. (name, failure)) (unlistable_name named failure))"

lemma unlistable_start_named: "unlistable_start named e = Some (name, failure) \<Longrightarrow> name \<in> set named"
  by (auto simp: unlistable_start_def unlistable_name_def bind_eq_Some_conv find_Some_iff)

text \<open>A name that cannot be listed is reported and left out; the others are compared again.\<close>

function compare_named_loop ::
  "'w machine \<Rightarrow> compare_sides \<Rightarrow> compare_request \<Rightarrow> uses \<Rightarrow> string list \<Rightarrow> diff_error list
    \<Rightarrow> ('w, diff_compared) running" where
  "compare_named_loop mc sides q u named unlistable rt =
     (if named = [] then (rt, Inr (diff_compared_default\<lparr>dc_unlistable := unlistable\<rparr>))
      else
        (case compare mc sides (q\<lparr>cq_scope := CsBelow named\<rparr>) u rt of
           (rt', Inr c) \<Rightarrow>
             (rt', Inr \<lparr>dc_paths = cn_paths c, dc_incomplete = cn_incomplete c, dc_unlistable = unlistable,
                dc_named = named\<rparr>)
         | (rt', Inl RsPanic) \<Rightarrow> (rt', Inl RsPanic)
         | (rt', Inl (RsError e)) \<Rightarrow>
             (case unlistable_start named e of
                None \<Rightarrow> (rt', stop_error e)
              | Some (name, failure) \<Rightarrow>
                  compare_named_loop mc sides q u (filter (\<lambda>x. x \<noteq> name) named)
                    (unlistable @ [diff_error_at name (show_scan_failure failure)]) rt')))"
  by pat_completeness auto
termination
proof (relation "measure (\<lambda>(mc, sides, q, u, named, unlistable, rt). length named)")
  fix mc :: "'w machine" and sides q u and named :: "string list" and unlistable :: "diff_error list"
    and rt rt' :: "'w runtime" and e :: run_error and x and name failure
  assume "unlistable_start named e = Some x" "(name, failure) = x"
  then have "name \<in> set named" by (auto dest: unlistable_start_named)
  then have "length (filter (\<lambda>x. x \<noteq> name) named) < length named"
    by (rule length_filter_less) simp
  then show "((mc, sides, q, u, filter (\<lambda>x. x \<noteq> name) named,
      unlistable @ [diff_error_at name (show_scan_failure failure)], rt'), mc, sides, q, u, named, unlistable, rt)
    \<in> measure (\<lambda>(mc, sides, q, u, named, unlistable, rt). length named)" by simp
qed simp

declare compare_named_loop.simps [simp del]

definition diff_named ::
  "'w machine \<Rightarrow> compare_sides \<Rightarrow> compare_request \<Rightarrow> uses \<Rightarrow> string list \<Rightarrow> ('w, diff_compared) running" where
  "diff_named mc sides q u named = compare_named_loop mc sides q u named []"

definition absorb_named :: "diff_compared \<Rightarrow> diff_compared \<Rightarrow> diff_compared" where
  "absorb_named found again =
     \<lparr>dc_paths = absorb_paths (dc_paths found) (dc_paths again),
      dc_incomplete = absorb_incomplete (dc_incomplete found) (dc_incomplete again),
      dc_unlistable = dc_unlistable again,
      dc_named = filter (\<lambda>name. \<not> (\<exists>e \<in> set (dc_unlistable again). de_path e = name)) (dc_named found)\<rparr>"

definition compare_diff_scope ::
  "'w machine \<Rightarrow> compare_sides \<Rightarrow> compare_request \<Rightarrow> uses \<Rightarrow> diff_scope \<Rightarrow> ('w, diff_compared) running" where
  "compare_diff_scope mc sides q u scope =
     (case scope of
        DiffNamed named \<Rightarrow> diff_named mc sides q u named
      | DiffWhole extra \<Rightarrow>
          run_bind (compare mc sides (q\<lparr>cq_scope := CsWhole\<rparr>) u) (\<lambda>c.
            (let found = \<lparr>dc_paths = cn_paths c, dc_incomplete = cn_incomplete c, dc_unlistable = [],
                   dc_named = extra\<rparr>;
                 unseen = diff_missing_names extra (dc_paths found)
             in if unseen = [] then run_return found
                else
                  run_bind (diff_named mc sides (q\<lparr>cq_scope := CsWhole, cq_counted_before := cn_counted c\<rparr>) u unseen)
                    (\<lambda>again. run_return (absorb_named found again)))))"

subsection \<open>diff: the command\<close>

record diff_args =
  da_encodings :: overrides
  da_paths :: "string list"
  da_left :: "string option"
  da_right :: "string option"
  da_ref_server :: "string option"
  da_format :: string
  da_max_lines :: "nat option"
  da_max_files :: nat
  da_force :: bool
  da_follow_external_links :: bool
  da_max_entries :: "nat option"

definition diff_request :: "bool \<Rightarrow> bool \<Rightarrow> nat \<Rightarrow> compare_request" where
  "diff_request follow_external_links force max_entries =
     \<lparr>cq_scope = CsWhole, cq_max_entries = max_entries, cq_entry_limit = LimitWhole,
      cq_counted_before = Map.empty, cq_method = choose_method CmdDiff False BelowDirectory,
      cq_named_files = None, cq_follow = FollowYes,
      cq_external_links = (if follow_external_links then ExternalFollow else ExternalStop),
      cq_content_limit = from_force force, cq_unfollowable_links = UnfollowableReport,
      cq_lost_destination = StopCommand\<rparr>"

definition is_whole_diff :: "diff_scope \<Rightarrow> bool" where
  "is_whole_diff scope = (case scope of DiffWhole _ \<Rightarrow> True | DiffNamed _ \<Rightarrow> False)"

definition incomplete_role :: "incomplete \<Rightarrow> role" where
  "incomplete_role x = (case x of IncTruncated r _ \<Rightarrow> r | IncCycle r _ \<Rightarrow> r)"

definition diff_sources :: "compare_sides \<Rightarrow> 'w runtime \<Rightarrow> sources" where
  "diff_sources sides rt =
     \<lparr>so_left = source_info_of (cs_left sides) rt, so_right = source_info_of (cs_right sides) rt,
      so_reference = map_option (\<lambda>side. source_info_of side rt) (cs_reference sides)\<rparr>"

definition diff_result_of :: "diff_compared \<Rightarrow> multi_diff_output \<Rightarrow> multi_diff_output \<times> int" where
  "diff_result_of compared shown_output =
     (let errors = dc_unlistable compared @ md_errors shown_output @ incomplete_errors (dc_incomplete compared)
      in (shown_output\<lparr>md_errors := errors\<rparr>,
          diff_exit_code (md_files_with_changes shown_output > 0 \<or> md_truncated shown_output) (errors \<noteq> [])))"

definition show_compared ::
  "(bytes \<Rightarrow> string) \<Rightarrow> decoders \<Rightarrow> glob \<Rightarrow> line_diff \<Rightarrow> diff_args \<Rightarrow> compare_sides \<Rightarrow> bool \<Rightarrow> diff_compared
    \<Rightarrow> ('w, multi_diff_output \<times> int) running" where
  "show_compared hex d glob line_diff args sides whole compared rt =
     (let incomplete = map incomplete_role (dc_incomplete compared);
          missing = missing_names_of_complete (dc_named compared) (dc_paths compared) incomplete
      in if nothing_named_found whole missing (dc_named compared) (length (dc_unlistable compared))
         then (rt, stop_error paths_not_found)
         else
           (rt, ok_or RsPanic (map_option (diff_result_of compared)
              (diff_listing_with_content d glob hex line_diff (dc_paths compared) (diff_sources sides rt)
                \<lparr>lm_max_lines = da_max_lines args, lm_max_files = da_max_files args\<rparr>
                \<lparr>cv_named = dc_named compared, cv_incomplete = set incomplete\<rparr>
                \<lparr>cx_config = cf_content (rn_config rt), cx_sides = by_role sides,
                 cx_overrides = da_encodings args\<rparr>))))"

definition compare_and_show ::
  "(bytes \<Rightarrow> string) \<Rightarrow> decoders \<Rightarrow> glob \<Rightarrow> line_diff \<Rightarrow> 'w machine \<Rightarrow> diff_args \<Rightarrow> compare_sides \<Rightarrow> diff_scope \<Rightarrow> nat
    \<Rightarrow> ('w, multi_diff_output \<times> int) running" where
  "compare_and_show hex d glob line_diff mc args sides scope max_entries =
     run_bind (run_act (connect_sides mc sides)) (\<lambda>_.
     run_bind (compare_diff_scope mc sides
         (diff_request (da_follow_external_links args) (da_force args) max_entries)
         (diff_uses (cs_reference sides \<noteq> None)) scope) (\<lambda>compared.
     run_bind stop_if_gone (\<lambda>_.
       show_compared hex d glob line_diff args sides (is_whole_diff scope) compared)))"

definition diff_start :: "diff_args \<Rightarrow> app_config \<Rightarrow> run_error + compare_sides \<times> diff_scope \<times> nat" where
  "diff_start args config =
     res_bind (parse_output_format (da_format args)) (\<lambda>_.
     res_bind (res_map_err config_run_error (resolve_max_entries (da_max_entries args) config)) (\<lambda>max_entries.
     res_bind (parse_path_arguments (da_paths args)) (\<lambda>paths.
     res_bind (read_sides (da_left args) (da_right args) (da_ref_server args) config) (\<lambda>sides.
       Inr (sides, diff_scope_of paths, max_entries)))))"

definition execute_diff ::
  "(bytes \<Rightarrow> string) \<Rightarrow> decoders \<Rightarrow> glob \<Rightarrow> line_diff \<Rightarrow> 'w machine \<Rightarrow> diff_args
    \<Rightarrow> ('w, multi_diff_output \<times> int) running" where
  "execute_diff hex d glob line_diff mc args rt =
     (case diff_start args (rn_config rt) of
        Inl e \<Rightarrow> (rt, stop_error e)
      | Inr (sides, scope, max_entries) \<Rightarrow>
          compare_and_show hex d glob line_diff mc args sides scope max_entries rt)"

end
