(* ===== verification/RollbackCommand.thy ===== *)
theory RollbackCommand
  imports RollbackApply PlanApply Text
begin

text \<open>
  The command rollback (\<open>cli/rollback.rs\<close> of remote-merge): the sessions of a target, the session that is
  chosen, the question whether to go on, restoring it and the exit code. The line the user answers with,
  the clock and the time format of session ids are parameters; rendering the result and closing the
  connections at the end are left out.
\<close>

record rollback_args =
  ra_target :: "string option"
  ra_list :: bool
  ra_session :: "string option"
  ra_dry_run :: bool
  ra_force :: bool
  ra_format :: string

record rollback_output =
  ro_target :: source_info
  ro_session_id :: string
  ro_restored :: "(string \<times> string option) list"
  ro_skipped :: "(string \<times> string) list"
  ro_failed :: "(string \<times> string) list"

datatype rollback_command_output =
    RollbackList source_info "backup_session list"
  | RollbackRestore rollback_output
  | RollbackDryRun rollback_output "string list"
  | RollbackAborted

record rollback_command_result =
  rbr_output :: rollback_command_output
  rbr_exit_code :: int

definition resolve_target :: "string option \<Rightarrow> bool \<Rightarrow> run_error + side" where
  "resolve_target target is_list =
     (case target of
        Some name \<Rightarrow> Inr (side_new name)
      | None \<Rightarrow>
          if is_list then Inr LocalSide
          else Inl (run_error_text ''--target is required (e.g. --target local or --target develop)''))"

subsection \<open>The result\<close>

fun add_restored :: "string \<times> restore_outcome \<Rightarrow> rollback_output \<Rightarrow> rollback_output" where
  "add_restored (path, Restored saved) out = out\<lparr>ro_restored := ro_restored out @ [(path, saved)]\<rparr>"
| "add_restored (path, RestoreSkipped reason) out = out\<lparr>ro_skipped := ro_skipped out @ [(path, reason)]\<rparr>"
| "add_restored (path, RestoreFailed e) out = out\<lparr>ro_failed := ro_failed out @ [(path, e)]\<rparr>"

definition rollback_output_of :: "source_info \<Rightarrow> string \<Rightarrow> (string \<times> restore_outcome) list \<Rightarrow> rollback_output" where
  "rollback_output_of target session outcomes =
     fold add_restored outcomes
       \<lparr>ro_target = target, ro_session_id = session, ro_restored = [], ro_skipped = [], ro_failed = []\<rparr>"

definition rollback_counts_of :: "rollback_output \<Rightarrow> rollback_counts" where
  "rollback_counts_of out =
     \<lparr>rbc_restored = length (ro_restored out), rbc_skipped = length (ro_skipped out),
      rbc_failed = length (ro_failed out)\<rparr>"

definition expiry_warnings :: "backup_session \<Rightarrow> string list" where
  "expiry_warnings session =
     (if bs_expired session then [''backup session '' @ bs_session_id session @ '' has expired''] else [])"

definition rollback_result_of ::
  "rollback_args \<Rightarrow> source_info \<Rightarrow> backup_session \<Rightarrow> (string \<times> restore_outcome) list \<Rightarrow> bool \<Rightarrow> rollback_command_result" where
  "rollback_result_of args target session outcomes was_stopped =
     (let out = rollback_output_of target (bs_session_id session) outcomes in
      \<lparr>rbr_output =
         (if ra_dry_run args then RollbackDryRun out (expiry_warnings session) else RollbackRestore out),
       rbr_exit_code = rollback_exit_code (rollback_counts_of out) (ra_dry_run args) was_stopped\<rparr>)"

subsection \<open>The command\<close>

definition confirmed_rollback :: "string \<Rightarrow> bool" where
  "confirmed_rollback answer =
     (lowercase_view (str_trim answer) = ''y'' \<or> lowercase_view (str_trim answer) = ''yes'')"

definition asks_before_rollback :: "rollback_args \<Rightarrow> bool" where
  "asks_before_rollback args = (\<not> ra_force args \<and> \<not> ra_dry_run args)"

definition restore_chosen ::
  "(bytes \<Rightarrow> string) \<Rightarrow> 'w machine \<Rightarrow> 'w store \<Rightarrow> rollback_args \<Rightarrow> side \<Rightarrow> source_info \<Rightarrow> backup_session
    \<Rightarrow> ('w, rollback_command_result) running" where
  "restore_chosen hex mc bk args side target session rt =
     (case restore_session hex mc bk side (bs_session_id session) (map be_path (bs_files session))
             (ra_dry_run args) (ra_force args) rt of
        (rt', None) \<Rightarrow> (rt', Inl RsPanic)
      | (rt', Some (Inl e)) \<Rightarrow> (rt', stop_error e)
      | (rt', Some (Inr outcomes)) \<Rightarrow>
          (rt', Inr (rollback_result_of args target session outcomes (has_stopped rt'))))"

definition rollback_session_chosen ::
  "(bytes \<Rightarrow> string) \<Rightarrow> 'w machine \<Rightarrow> 'w store \<Rightarrow> rollback_args \<Rightarrow> run_error + string \<Rightarrow> side \<Rightarrow> source_info
    \<Rightarrow> backup_session \<Rightarrow> ('w, rollback_command_result) running" where
  "rollback_session_chosen hex mc bk args answer side target session =
     run_bind (run_act (connect_side mc side)) (\<lambda>_.
     run_bind (if asks_before_rollback args
               then run_act (\<lambda>rt. (rt, res_bind answer (\<lambda>a. Inr (confirmed_rollback a))))
               else run_return True) (\<lambda>go_on.
       if \<not> go_on then run_return \<lparr>rbr_output = RollbackAborted, rbr_exit_code = 0\<rparr>
       else restore_chosen hex mc bk args side target session))"

definition execute_rollback ::
  "(bytes \<Rightarrow> string) \<Rightarrow> 'w machine \<Rightarrow> 'w store \<Rightarrow> time_format \<Rightarrow> int \<Rightarrow> rollback_args \<Rightarrow> run_error + string
    \<Rightarrow> ('w, rollback_command_result) running" where
  "execute_rollback hex mc bk tf now args answer rt =
     (case res_bind (parse_text_or_json (ra_format args)) (\<lambda>_. resolve_target (ra_target args) (ra_list args)) of
        Inl e \<Rightarrow> (rt, stop_error e)
      | Inr side \<Rightarrow>
          run_bind (run_act (on_world (bk_sessions bk side))) (\<lambda>found rt'.
            (let target = source_info_of side rt;
                 sessions = with_expiry tf found (bc_retention_days (cf_backup (rn_config rt))) now
             in if ra_list args
                then (rt', Inr \<lparr>rbr_output = RollbackList target sessions, rbr_exit_code = 0\<rparr>)
                else
                  (case choose_session sessions (ra_session args) (ra_force args) of
                     Inl e \<Rightarrow> (rt', stop_error (run_error_text (show_session_choice e)))
                   | Inr session \<Rightarrow>
                       rollback_session_chosen hex mc bk args answer side target session rt'))) rt)"

end
