(* ===== verification/CommandRules.thy ===== *)
theory CommandRules
  imports SyncCommand ReadCommands RollbackCommand CompareRules
begin

text \<open>
  What the commands keep up to the point where they change a side. \<open>kept_by_store\<close> extends the rules of
  the reads by the operations of the store of backups; the interpretation at its end shows that whatever
  comes before a change writes down no call.
\<close>

lemma after_run_bind [after_rules]:
  "after P (f rt) \<Longrightarrow> (\<And>x rt'. P rt' \<Longrightarrow> after P (g x rt')) \<Longrightarrow> after P (run_bind f g rt)"
  unfolding run_bind_def by (intro after_rules) (simp_all add: after_def)

lemma after_run_act [after_rules]: "after P (f rt) \<Longrightarrow> after P (run_act f rt)"
  unfolding run_act_def by (cases "f rt") (simp add: after_def)

lemma after_run_return [after_rules]: "P rt \<Longrightarrow> after P (run_return x rt)"
  by (simp add: run_return_def after_def)

lemma after_run_fail [after_rules]: "P rt \<Longrightarrow> after P (run_fail e rt)"
  by (simp add: run_fail_def after_def)

lemma after_root_gone_first: "after P p \<Longrightarrow> after P (root_gone_first p)"
  by (cases p) (auto simp: root_gone_first_def after_def split: sum.split read_stop.split)

lemma after_stop_if_gone: "P rt \<Longrightarrow> after P (stop_if_gone rt)"
  unfolding stop_if_gone_def by (intro after_rules)

lemma after_stop_if_incomplete: "P rt \<Longrightarrow> after P (stop_if_incomplete xs rt)"
  unfolding stop_if_incomplete_def by (intro after_rules)

lemma after_read_stop [after_rules]:
  "(\<And>e. after P (f e)) \<Longrightarrow> after P a \<Longrightarrow> after P (case s of RsError e \<Rightarrow> f e | RsPanic \<Rightarrow> a)"
  by (cases s) simp_all

locale kept_by_store = kept_by_reads mc P
  for mc :: "'w machine" and P :: "'w runtime \<Rightarrow> bool" +
  fixes bk :: "'w store"
  assumes after_reserve: "P rt \<Longrightarrow> after P (on_world (bk_reserve bk) rt)"
    and after_prepare: "P rt \<Longrightarrow> after P (on_world (bk_prepare bk side session) rt)"
    and after_read_record: "P rt \<Longrightarrow> after P (on_world (bk_read bk side session path) rt)"
    and after_cleanup: "P rt \<Longrightarrow> after P (on_world (bk_cleanup bk) rt)"
    and after_sessions: "P rt \<Longrightarrow> after P (on_world (bk_sessions bk side) rt)"
    and keeps_finish: "P rt \<Longrightarrow> P (finish_backup_session bk session rt)"
begin

subsection \<open>The store\<close>

lemma after_prepare_targets: "P rt \<Longrightarrow> after P (prepare_targets bk ts session rt)"
proof (induction ts arbitrary: rt)
  case (Cons t ts)
  show ?case unfolding prepare_targets.simps by (intro after_rules after_prepare Cons; assumption)
qed (simp add: after_def)

lemma after_reserve_session: "P rt \<Longrightarrow> after P (reserve_backup_session bk targets rt)"
  unfolding reserve_backup_session_def by (intro after_rules after_reserve after_prepare_targets)

lemma after_start_session: "P rt \<Longrightarrow> after P (start_backup_session bk dry_run changing rt)"
  unfolding start_backup_session_def by (intro after_rules after_cleanup after_reserve_session)

lemma keeps_end_session: "P rt \<Longrightarrow> P (end_backup_session bk session rt)"
  by (simp add: end_backup_session_def keeps_finish split: option.split)

lemma after_read_records: "P rt \<Longrightarrow> after P (read_records bk target session ps rt)"
proof (induction ps arbitrary: rt)
  case (Cons p ps)
  show ?case unfolding read_records.simps by (intro after_rules after_read_record Cons; assumption)
qed (simp add: after_def)

subsection \<open>Comparing for a command\<close>

lemma after_connect_side: "P rt \<Longrightarrow> after P (connect_side mc side rt)"
  unfolding connect_side_def connect_if_needed_def
  by (cases side) (auto intro!: after_rules after_connect simp: act_return_def)

lemma after_connect_each: "P rt \<Longrightarrow> after P (connect_each mc xs rt)"
proof (induction xs arbitrary: rt)
  case (Cons x xs)
  obtain r side where x: "x = (r, side)" by fastforce
  show ?case unfolding x connect_each.simps by (intro after_rules after_connect_side Cons; assumption)
qed (simp add: after_def)

lemma after_connect_sides: "P rt \<Longrightarrow> after P (connect_sides mc sides rt)"
  unfolding connect_sides_def by (rule after_connect_each)

lemma after_compare_named: "P rt \<Longrightarrow> after P (compare_named_files mc sides q named u c rt)"
  unfolding compare_named_files_def Let_def by (intro after_rules after_compare)

lemma after_compare_for_merge: "P rt \<Longrightarrow> after P (compare_for_merge mc sides targets q u rt)"
  unfolding compare_for_merge_def
  by (intro after_rules after_root_gone_first after_compare after_compare_named after_stop_if_gone
      after_stop_if_incomplete; assumption)

lemma after_plan_merge: "P rt \<Longrightarrow> after P (plan_merge mc args sides ps max_entries rt)"
  unfolding plan_merge_def Let_def
  by (intro after_rules after_connect_sides after_compare_for_merge; assumption)

subsection \<open>sync\<close>

lemma after_source_unreadable: "P rt \<Longrightarrow> after P (source_unreadable mc source q rt)"
  unfolding source_unreadable_def
  by (rule after_prod[OF after_collect_states], assumption) (intro after_result after_pair; assumption)

lemma after_judge_target: "P rt \<Longrightarrow> after P (judge_target mc source q compared rt)"
  unfolding judge_target_def by (intro after_rules after_source_unreadable; assumption)

lemma after_compare_destination: "P rt \<Longrightarrow> after P (compare_destination mc source destination q named u facts rt)"
  unfolding compare_destination_def Let_def
  by (intro after_rules after_compare_reusing after_compare_named after_rest; assumption)

lemma after_compare_target: "P rt \<Longrightarrow> after P (compare_target mc source destination q named u facts rt)"
  unfolding compare_target_def
  by (intro after_rules after_connect_side after_compare_destination after_judge_target after_rest; assumption)

lemma after_plan_each: "P rt \<Longrightarrow> after P (plan_each mc source q targets delete u ds facts rt)"
proof (induction ds arbitrary: facts rt)
  case (Cons d ds)
  show ?case unfolding plan_each.simps Let_def
    by (rule after_prod[OF after_compare_target[OF Cons.prems]])
       (intro after_result after_rules Cons.IH; assumption)
qed (simp add: after_def)

lemma after_plan_targets: "P rt \<Longrightarrow> after P (plan_targets mc args source destinations ps max_entries rt)"
  unfolding plan_targets_def Let_def
  by (intro after_rules after_connect_side after_plan_each; assumption)

subsection \<open>The commands that read\<close>

lemma after_compare_and_list: "P rt \<Longrightarrow> after P (compare_and_list mc args sides max_entries rt)"
  unfolding compare_and_list_def
  by (intro after_rules after_connect_sides after_compare after_stop_if_gone after_stop_if_incomplete; assumption)

lemma after_execute_status: "P rt \<Longrightarrow> after P (execute_status mc args rt)"
  unfolding execute_status_def by (intro after_rules after_compare_and_list after_rest)

lemma after_named_loop: "P rt \<Longrightarrow> after P (compare_named_loop mc sides q u named unlistable rt)"
proof (induction "length named" arbitrary: named unlistable rt rule: less_induct)
  case less
  note again = less.hyps[OF length_filter_less[OF unlistable_start_named]]
  have p: "after P (compare mc sides (q\<lparr>cq_scope := CsBelow named\<rparr>) u rt)" using less.prems by (rule after_compare)
  show ?case
    unfolding compare_named_loop.simps[of mc sides q u named]
    by (rule after_if, rule after_pair, rule less.prems, rule after_prod[OF p])
       (auto intro!: again simp: after_pair split: sum.split read_stop.split option.split)
qed

lemma after_diff_scope: "P rt \<Longrightarrow> after P (compare_diff_scope mc sides q u scope rt)"
  unfolding compare_diff_scope_def diff_named_def Let_def
  by (cases scope) (auto intro!: after_rules after_compare after_named_loop)

lemma after_compare_and_show:
  "P rt \<Longrightarrow> after P (compare_and_show hex d glob line_diff mc args sides scope max_entries rt)"
  unfolding compare_and_show_def show_compared_def Let_def
  by (intro after_rules after_connect_sides after_diff_scope after_stop_if_gone; assumption)

lemma after_execute_diff: "P rt \<Longrightarrow> after P (execute_diff hex d glob line_diff mc args rt)"
  unfolding execute_diff_def by (intro after_rules after_compare_and_show after_rest)

subsection \<open>rollback without writing\<close>

lemma after_target_states: "P rt \<Longrightarrow> after P (target_states mc side names rt)"
  unfolding target_states_def Let_def
  by (intro after_rules after_collect_side after_rest)

lemma after_rollback_facts: "P rt \<Longrightarrow> after P (rollback_facts mc target ps rt)"
  unfolding rollback_facts_def Let_def
  by (intro after_rules after_rest after_inspect_under_root after_target_states)

end

end
