(* ===== verification/CommandProps.thy ===== *)
theory CommandProps
  imports CommandRules MergeProps
begin

text \<open>
  What the commands do to the machines, from their arguments to their last call: merge and sync alter only
  what their plans hold, on their destinations, behind the backups; status, diff and every --dry-run alter
  nothing.
\<close>

subsection \<open>The store beside a recording\<close>

definition recorded_store :: "'w store \<Rightarrow> 'w recording store" where
  "recorded_store bk =
     \<lparr>bk_reserve = on_first (bk_reserve bk),
      bk_prepare = (\<lambda>side session. on_first (bk_prepare bk side session)),
      bk_finish = (\<lambda>session (w, l). (bk_finish bk session w, l)),
      bk_read = (\<lambda>side session path. on_first (bk_read bk side session path)),
      bk_cleanup = on_first (bk_cleanup bk),
      bk_sessions = (\<lambda>side. on_first (bk_sessions bk side))\<rparr>"

lemma quiet_on_first: "quiet_since rt0 rt \<Longrightarrow> after (quiet_since rt0) (on_world (on_first f) rt)"
  by (cases "f (fst (rn_world rt))") (simp add: after_def on_world_def on_first_def quiet_since_def log_def)

lemma quiet_finish:
  "quiet_since rt0 rt \<Longrightarrow> quiet_since rt0 (finish_backup_session (recorded_store bk) session rt)"
  by (simp add: finish_backup_session_def recorded_store_def quiet_since_def log_def split_beta)

interpretation quiet_store: kept_by_store "recorded mc" "quiet_since rt0" "recorded_store bk"
  for mc :: "'w machine" and rt0 and bk :: "'w store"
  by unfold_locales (auto simp: quiet_finish quiet_on_first, auto simp: recorded_store_def quiet_on_first)

text \<open>C6: status and diff change nothing. Whatever their arguments and whatever the machines answer, neither
  makes a call that writes, removes, links or changes permissions on any side, and neither saves a backup.\<close>

theorem reading_commands_change_nothing:
  "log (fst (execute_status (recorded mc) status_args rt)) = log rt
   \<and> log (fst (execute_diff hex d glob line_diff (recorded mc) diff_args rt)) = log rt"
  using quiet_store.after_execute_status[of rt rt mc status_args]
    quiet_store.after_execute_diff[of rt rt hex d glob line_diff mc diff_args]
  by (simp add: after_def quiet_since_def)

subsection \<open>Applying a plan\<close>

text \<open>What one destination sees: the changes of a plan, each with calls as they are planned for it.\<close>

definition altered_by ::
  "side \<Rightarrow> apply_options \<Rightarrow> 'w recording runtime \<Rightarrow> 'w recording runtime \<Rightarrow> planned_change list \<Rightarrow> bool" where
  "altered_by target opts rt rt' changes \<longleftrightarrow> later rt rt'
     \<and> (\<exists>pieces. log rt' = log rt @ concat pieces
          \<and> list_all2 (as_planned (place_of target rt) (configured_modes target rt) target opts) changes pieces)"

lemma altered_nothing: "quiet_since rt rt' \<Longrightarrow> altered_by target opts rt rt' changes"
  unfolding altered_by_def quiet_since_def by (intro conjI log_nothing) simp_all

lemma altered_none: "altered_by target opts rt rt' [] \<longleftrightarrow> quiet_since rt rt'"
  by (auto simp: altered_by_def quiet_since_def)

lemma altered_around:
  assumes "quiet_since rt a" "altered_by target opts a b changes" "quiet_since b rt'"
  shows "altered_by target opts rt rt' changes"
proof -
  have l: "later rt a" "later a b" "later b rt'" "log a = log rt" "log rt' = log b"
    using assms by (simp_all add: altered_by_def quiet_since_def)
  have "later rt rt'" using later_trans[OF later_trans[OF l(1,2)] l(3)] .
  then show ?thesis
    using assms(2) by (simp add: altered_by_def l(4,5) later_place[OF l(1)] later_modes[OF l(1)])
qed

lemma apply_plan_altered:
  "\<exists>changes. altered_by target opts rt (fst (apply_plan hex (recorded mc) target paths plan opts with_ref rt)) changes
     \<and> (planned_changes paths plan = Some changes \<or> changes = [])"
proof (cases "planned_changes paths plan")
  case None
  then show ?thesis by (auto simp: apply_plan_def altered_none)
next
  case (Some changes)
  have "fst (apply_plan hex (recorded mc) target paths plan opts with_ref rt)
      = fst (apply_changes hex (recorded mc) target changes opts rt)"
    by (cases "apply_changes hex (recorded mc) target changes opts rt"; cases "snd (apply_changes hex (recorded mc) target changes opts rt)")
       (simp_all add: apply_plan_def Some)
  then show ?thesis using apply_changes_planned[of rt hex mc target changes opts] Some
    by (intro exI[of _ changes]) (simp add: altered_by_def)
qed

lemma dry_run_pieces: "list_all2 (as_planned pl modes target opts) changes pieces \<Longrightarrow> ao_dry_run opts \<Longrightarrow> concat pieces = []"
  by (induction rule: list_all2_induct) (auto simp: as_planned_def)

lemma altered_dry_run:
  assumes "altered_by target opts rt rt' changes" "ao_dry_run opts"
  shows "quiet_since rt rt'"
proof -
  obtain pieces where "later rt rt'" "log rt' = log rt @ concat pieces"
      "list_all2 (as_planned (place_of target rt) (configured_modes target rt) target opts) changes pieces"
    using assms(1) unfolding altered_by_def by blast
  then show ?thesis using dry_run_pieces[OF _ assms(2)] unfolding quiet_since_def by (metis append_Nil2)
qed

subsection \<open>merge\<close>

text \<open>What a merge may do to a path. Whole files: only a path the merge treats, found to differ or to be on one
  side, with the right kind of entry, as the reference has it where that is checked. Hunks: only the file
  that is named, with the content that merging the hunks gives.\<close>

fun entry_of_kind :: "change_kind \<Rightarrow> merge_entry" where
  "entry_of_kind CkWriteFile = WriteFile"
| "entry_of_kind CkWriteLink = WriteLink"
| "entry_of_kind CkDelete = DeleteEntry"

definition file_change_allowed :: "rel_path list \<Rightarrow> bool \<Rightarrow> bool \<Rightarrow> planned_change \<Rightarrow> bool" where
  "file_change_allowed ps delete ref_check c \<longleftrightarrow>
     selects (merge_targets_of ps delete) (pc_path c)
     \<and> may_change (pc_comparison c) delete (entry_of_kind (pc_kind c))
     \<and> destination_hash_read (pc_comparison c)
     \<and> (ref_check \<longrightarrow> pc_kind c \<noteq> CkDelete \<longrightarrow> unchanged_since_reference (pc_comparison c))
     \<and> pc_content c = None"

lemma change_kind_entry: "change_kind_of e = Some k \<longleftrightarrow> entry_of_kind k = e"
  by (cases e; cases k) auto

lemma planned_changes_allowed:
  assumes "bt_ok paths"
    and "planned_changes paths (merge_plan_of paths (merge_targets_of ps delete) delete ref_check) = Some changes"
  shows "list_all (file_change_allowed ps delete ref_check) changes"
  unfolding list_all_iff
proof
  fix c assume "c \<in> set changes"
  from planned_changes_member[OF assms(2) this] obtain e where e:
      "(pc_path c, e) \<in> set (merge_plan_of paths (merge_targets_of ps delete) delete ref_check)"
      "entry_of_kind (pc_kind c) = e" "map_of paths (pc_path c) = Some (pc_comparison c)" "pc_content c = None"
    by (auto simp: change_kind_entry)
  then have "changes_destination e" by (cases "pc_kind c") auto
  from plan_change[OF assms(1) e(1) this] e(2-4) show "file_change_allowed ps delete ref_check c"
    by (cases "pc_kind c") (auto simp: file_change_allowed_def)
qed

text \<open>The paths of a comparison are in order, also when named files are compared again.\<close>

lemma bt_ok_absorb: "bt_ok a \<Longrightarrow> bt_ok (absorb_paths a b)"
proof -
  have "bt_ok t \<Longrightarrow> bt_ok (fold (\<lambda>(path, found) t. if map_of t path = None then bt_insert path found t else t) b t)" for t
    by (induction b arbitrary: t) (auto simp: bt_ok_insert)
  then show "bt_ok a \<Longrightarrow> ?thesis" by (simp add: absorb_paths_def)
qed

lemma finished_paths_ok:
  assumes "finish_comparison mc sides collected q u ru rt = (rt', ru', Inr c)" "bt_ok (cls_table collected)"
  shows "bt_ok (cn_paths c)"
proof -
  obtain paths asked w where jr: "judge_and_read (run_routes mc) q u sides (cls_table collected) rt ru = (w, ru', Inr (paths, asked))"
    and c: "cn_paths c = paths"
    using assms(1) by (auto simp: finish_comparison_def res_simps split: prod.splits)
  from judge_and_read_result[OF jr] stages_bt_ok[OF _ _ assms(2)] c show ?thesis by blast
qed

lemma state_table_ok: "bt_ok (state_table listings outside)"
proof -
  have "\<forall>r \<in> set all_roles. view [] path r = (None, False)" for path by (simp add: view_def)
  from record_sides[OF bt_ok_Nil distinct_all_roles this, of listings outside]
  show ?thesis by (simp add: state_table_def bt_ok_map_values)
qed

lemma collected_table_ok: "collect_states mc sides q kept rt = (rt', kept', Inr collected) \<Longrightarrow> bt_ok (cls_table collected)"
  by (auto simp: collect_states_def res_simps state_table_ok split: prod.splits)

lemma compared_paths_ok: "compare mc sides q u rt = (rt', Inr c) \<Longrightarrow> bt_ok (cn_paths c)"
  by (auto simp: compare_def split: prod.splits sum.splits dest: collected_table_ok finished_paths_ok)

lemma compared_reusing_ok: "compare_reusing mc sides q u kept ru rt = (rt', kept', ru', Inr c) \<Longrightarrow> bt_ok (cn_paths c)"
  by (auto simp: compare_reusing_def split: prod.splits sum.splits dest: collected_table_ok finished_paths_ok)

lemma named_files_ok:
  "compare_named_files mc sides q named u c rt = (rt', Inr c') \<Longrightarrow> bt_ok (cn_paths c) \<Longrightarrow> bt_ok (cn_paths c')"
  by (auto simp: compare_named_files_def Let_def absorb_comparison_def bt_ok_absorb res_simps split: if_splits prod.splits)

lemma run_bind_Inr: "run_bind f g rt = (rt', Inr y) \<longleftrightarrow> (\<exists>rt1 x. f rt = (rt1, Inr x) \<and> g x rt1 = (rt', Inr y))"
  by (auto simp: run_bind_def split: prod.splits sum.splits)

lemma root_gone_first_Inr: "root_gone_first p = (rt', Inr y) \<longleftrightarrow> p = (rt', Inr y)"
  by (auto simp: root_gone_first_def split: prod.splits sum.splits read_stop.splits)

lemma compared_for_merge_ok:
  assumes "compare_for_merge mc sides targets q u rt = (rt', Inr c)"
  shows "bt_ok (cn_paths c)"
  using assms
  by (auto simp: compare_for_merge_def run_bind_Inr root_gone_first_Inr run_return_def
      dest: compared_paths_ok named_files_ok)

declare res_map_err_Inr [simp]

lemma plan_merge_result:
  assumes "plan_merge mc args sides ps max_entries rt = (rt', Inr planned)"
  shows "bt_ok (pm_paths planned)
    \<and> pm_plan planned = merge_plan_of (pm_paths planned) (merge_targets_of ps (ma_delete args)) (ma_delete args)
        (checks_reference sides args)"
  using assms
  by (auto simp: plan_merge_def Let_def run_bind_Inr run_act_def res_simps split: prod.splits
      dest: compared_for_merge_ok)

text \<open>The session of the backups: there is one whenever backups are kept and something is changed.\<close>

definition backups_kept :: "bool \<Rightarrow> 'w runtime \<Rightarrow> string option \<Rightarrow> planned_change list \<Rightarrow> bool" where
  "backups_kept dry_run rt session changes \<longleftrightarrow>
     (bc_enabled (cf_backup (rn_config rt)) \<and> \<not> dry_run \<and> changes \<noteq> [] \<longrightarrow> session \<noteq> None)"

lemma config_later: "later rt rt' \<Longrightarrow> rn_config rt' = rn_config rt"
  by (simp add: later_def)

lemma config_on_world: "rn_config (fst (on_world f rt)) = rn_config rt"
  by (simp add: on_world_def split_beta)

lemma start_session_result:
  assumes "start_backup_session (recorded_store bk) dry_run changing rt = (rt', Inr session)"
  shows "quiet_since rt rt'
    \<and> (session = None \<longleftrightarrow> \<not> bc_enabled (cf_backup (rn_config rt)) \<or> dry_run \<or> changing = [])"
proof -
  have q: "quiet_since rt rt'"
    using quiet_store.after_start_session[of rt rt bk dry_run changing] assms by (simp add: after_def)
  obtain rt1 where rt1: "rn_config rt1 = rn_config rt"
    and second: "(if bc_enabled (cf_backup (rn_config rt1)) \<and> \<not> dry_run \<and> changing \<noteq> []
          then (case reserve_backup_session (recorded_store bk) changing rt1 of
                  (rt'', r) \<Rightarrow> (rt'', res_bind r (\<lambda>session. Inr (Some session))))
          else (rt1, Inr None)) = (rt', Inr session)"
    using assms config_on_world[of "bk_cleanup (recorded_store bk)" rt]
    by (auto simp: start_backup_session_def split: prod.splits sum.splits if_splits)
  then show ?thesis using q by (auto split: if_splits prod.splits simp: res_simps)
qed

text \<open>What a merge does to its destination, from its start to its end.\<close>

definition merges_only ::
  "merge_args \<Rightarrow> compare_sides \<Rightarrow> (planned_change \<Rightarrow> bool) \<Rightarrow> 'w recording runtime \<Rightarrow> 'w recording runtime \<Rightarrow> bool" where
  "merges_only args sides allowed rt rt' \<longleftrightarrow>
     (\<exists>session changes. altered_by (cs_right sides) (merge_options args session) rt rt' changes
        \<and> list_all allowed changes \<and> backups_kept (ma_dry_run args) rt session changes)"

lemma merges_nothing: "quiet_since rt rt' \<Longrightarrow> merges_only args sides allowed rt rt'"
  unfolding merges_only_def by (intro exI[of _ None] exI[of _ "[]"]) (simp add: altered_none backups_kept_def)

lemma merges_after_quiet:
  assumes "quiet_since rt rt1" "merges_only args sides allowed rt1 rt'"
  shows "merges_only args sides allowed rt rt'"
proof -
  obtain session changes where c: "altered_by (cs_right sides) (merge_options args session) rt1 rt' changes"
      "list_all allowed changes" "backups_kept (ma_dry_run args) rt1 session changes"
    using assms(2) unfolding merges_only_def by blast
  have "rn_config rt1 = rn_config rt" using assms(1) by (simp add: quiet_since_def config_later)
  then have "backups_kept (ma_dry_run args) rt session changes" using c(3) by (simp add: backups_kept_def)
  then show ?thesis
    using altered_around[OF assms(1) c(1) quiet_since_refl] c(2) unfolding merges_only_def by blast
qed

lemma merges_bind:
  assumes "after (quiet_since rt) (f rt)"
    and "\<And>x rt1. quiet_since rt rt1 \<Longrightarrow> f rt = (rt1, Inr x) \<Longrightarrow> merges_only args sides allowed rt1 (fst (g x rt1))"
  shows "merges_only args sides allowed rt (fst (run_bind f g rt))"
proof -
  obtain rt1 r where f: "f rt = (rt1, r)" by (cases "f rt")
  then have q: "quiet_since rt rt1" using assms(1) by (simp add: after_def)
  show ?thesis
  proof (cases r)
    case (Inl e)
    then show ?thesis using q by (simp add: run_bind_def f merges_nothing)
  next
    case (Inr x)
    then show ?thesis using merges_after_quiet[OF q assms(2)[OF q]] by (simp add: run_bind_def f)
  qed
qed

lemma planned_changes_counted: "planned_changes paths plan = Some changes \<Longrightarrow> changes \<noteq> [] \<Longrightarrow> changing_sides target plan \<noteq> []"
proof (induction paths plan arbitrary: changes rule: planned_changes.induct)
  case (2 paths path entry plan)
  then show ?case
    by (cases entry) (auto simp: changing_sides_def change_counts_def split: option.splits if_splits)
qed simp

lemma changes_session:
  assumes "session = None \<longleftrightarrow> \<not> bc_enabled (cf_backup (rn_config rt)) \<or> dry_run \<or> changing = []"
    and "changes \<noteq> [] \<Longrightarrow> changing \<noteq> []"
  shows "backups_kept dry_run rt session changes"
  using assms by (auto simp: backups_kept_def)

lemma apply_merge_only:
  assumes "bt_ok (pm_paths planned)"
    and "pm_plan planned = merge_plan_of (pm_paths planned) (merge_targets_of ps (ma_delete args)) (ma_delete args)
        (checks_reference sides args)"
  shows "merges_only args sides (file_change_allowed ps (ma_delete args) (checks_reference sides args)) rt
     (fst (apply_merge hex (recorded mc) (recorded_store bk) args sides planned rt))"
proof -
  let ?opts = "merge_options args" and ?t = "cs_right sides"
  obtain rt1 r where start: "start_backup_session (recorded_store bk) (ma_dry_run args)
      (changing_sides ?t (pm_plan planned)) rt = (rt1, r)" by (cases "start_backup_session (recorded_store bk)
        (ma_dry_run args) (changing_sides ?t (pm_plan planned)) rt")
  have q: "quiet_since rt rt1"
    using quiet_store.after_start_session[of rt rt bk] start by (metis after_def fst_conv quiet_since_refl)
  show ?thesis
  proof (cases r)
    case (Inl e)
    then show ?thesis using q by (simp add: apply_merge_def run_bind_def run_act_def start merges_nothing)
  next
    case (Inr session)
    note started = start_session_result[OF start[unfolded Inr]]
    obtain rt2 outs where applied: "apply_plan hex (recorded mc) ?t (pm_paths planned) (pm_plan planned)
        (?opts session) (cs_reference sides \<noteq> None) rt1 = (rt2, outs)"
      by (cases "apply_plan hex (recorded mc) ?t (pm_paths planned) (pm_plan planned)
        (?opts session) (cs_reference sides \<noteq> None) rt1")
    obtain changes where c: "altered_by ?t (?opts session) rt1 rt2 changes"
        "planned_changes (pm_paths planned) (pm_plan planned) = Some changes \<or> changes = []"
      using apply_plan_altered[of ?t "?opts session" rt1 hex mc "pm_paths planned" "pm_plan planned" "cs_reference sides \<noteq> None"]
      unfolding applied fst_conv by blast
    have allowed: "list_all (file_change_allowed ps (ma_delete args) (checks_reference sides args)) changes"
      using c(2) planned_changes_allowed[OF assms(1)] assms(2) by auto
    have backups: "backups_kept (ma_dry_run args) rt session changes"
      using started c(2) planned_changes_counted by (intro changes_session[where changing = "changing_sides ?t (pm_plan planned)"]) auto
    let ?after = "fst (apply_merge hex (recorded mc) (recorded_store bk) args sides planned rt)"
    have "quiet_since rt2 ?after"
      by (cases outs) (simp_all add: apply_merge_def run_bind_def run_act_def start Inr applied Let_def
            quiet_store.keeps_end_session del: not_None_eq)
    from altered_around[OF q c(1) this] show ?thesis using allowed backups unfolding merges_only_def by blast
  qed
qed

lemma merge_files_only:
  "merges_only args sides (file_change_allowed ps (ma_delete args) (checks_reference sides args)) rt
     (fst (merge_files hex (recorded mc) (recorded_store bk) args sides ps max_entries rt))"
  unfolding merge_files_def
proof (rule merges_bind)
  show "after (quiet_since rt) (plan_merge (recorded mc) args sides ps max_entries rt)"
    by (rule quiet_store.after_plan_merge) simp
qed (drule plan_merge_result, simp add: apply_merge_only)

definition hunk_change_allowed ::
  "decoders \<Rightarrow> glob \<Rightarrow> line_diff \<Rightarrow> merge_args \<Rightarrow> compare_sides \<Rightarrow> rel_path list \<Rightarrow> nat list \<Rightarrow> app_config
    \<Rightarrow> planned_change \<Rightarrow> bool" where
  "hunk_change_allowed d glob line_diff args sides ps hunks config c \<longleftrightarrow>
     (\<exists>others. tg_named (merge_targets_of ps False) = pc_path c # others)
     \<and> pc_kind c = CkWriteFile
     \<and> (\<exists>merged n. pc_content c = Some merged
          \<and> checked_hunk_content d glob line_diff
              \<lparr>cx_config = cf_content config, cx_sides = by_role sides, cx_overrides = ma_encodings args\<rparr>
              (pc_path c) (pc_comparison c) hunks (checks_reference sides args) = Some (Inr (Inr (merged, n))))"

lemma write_hunks_only:
  assumes "allowed \<lparr>pc_path = path, pc_comparison = c, pc_kind = CkWriteFile, pc_content = Some merged\<rparr>"
  shows "merges_only args sides allowed rt
     (fst (write_hunks hex (recorded mc) (recorded_store bk) args (cs_right sides) path c hunks merged n rt))"
proof -
  let ?opts = "merge_options args" and ?t = "cs_right sides"
  let ?changes = "[\<lparr>pc_path = path, pc_comparison = c, pc_kind = CkWriteFile, pc_content = Some merged\<rparr>]"
  obtain rt1 r where start: "start_backup_session (recorded_store bk) (ma_dry_run args) [?t] rt = (rt1, r)"
    by (cases "start_backup_session (recorded_store bk) (ma_dry_run args) [?t] rt")
  have q: "quiet_since rt rt1"
    using quiet_store.after_start_session[of rt rt bk] start by (metis after_def fst_conv quiet_since_refl)
  show ?thesis
  proof (cases r)
    case (Inl e)
    then show ?thesis using q by (simp add: write_hunks_def run_bind_def run_act_def start merges_nothing)
  next
    case (Inr session)
    note started = start_session_result[OF start[unfolded Inr]]
    obtain rt2 outs where applied: "apply_changes hex (recorded mc) ?t ?changes (?opts session) rt1 = (rt2, outs)"
      by (cases "apply_changes hex (recorded mc) ?t ?changes (?opts session) rt1")
    have a: "altered_by ?t (?opts session) rt1 rt2 ?changes"
      using apply_changes_planned[of rt1 hex mc ?t ?changes "?opts session"] by (simp add: altered_by_def applied)
    have backups: "backups_kept (ma_dry_run args) rt session ?changes"
      using started by (intro changes_session[where changing = "[?t]"]) auto
    let ?after = "fst (write_hunks hex (recorded mc) (recorded_store bk) args ?t path c hunks merged n rt)"
    have "quiet_since rt2 ?after"
      by (cases outs) (simp_all add: write_hunks_def run_bind_def run_act_def start Inr applied Let_def
            quiet_store.keeps_end_session)
    from altered_around[OF q a this] show ?thesis
      using assms backups unfolding merges_only_def by (intro exI[of _ session] exI[of _ ?changes]) simp
  qed
qed

lemma compared_hunks_only:
  assumes "tg_named (merge_targets_of ps False) = path # others" "rn_config rt = config"
  shows "merges_only args sides (hunk_change_allowed d glob line_diff args sides ps hunks config) rt
     (fst (merge_compared_hunks hex d glob line_diff (recorded mc) (recorded_store bk) args sides path hunks compared rt))"
  using assms
  by (auto simp: merge_compared_hunks_def hunk_change_allowed_def merges_nothing
      intro!: write_hunks_only split: option.split sum.split)

lemma merge_hunks_only:
  "merges_only args sides (hunk_change_allowed d glob line_diff args sides ps hunks (rn_config rt)) rt
     (fst (merge_hunks hex d glob line_diff (recorded mc) (recorded_store bk) args sides ps hunks max_entries rt))"
  unfolding merge_hunks_def Let_def
proof (rule merges_bind, goal_cases)
  case 1
  show ?case by (intro after_run_act quiet_store.after_connect_sides) simp
next
  case (2 x rt1)
  show ?case
  proof (cases "tg_named (merge_targets_of ps False)")
    case Nil
    then show ?thesis by (simp add: run_fail_def merges_nothing)
  next
    case (Cons path others)
    have config: "rn_config rt1 = rn_config rt" using 2(1) by (simp add: quiet_since_def config_later)
    show ?thesis unfolding Cons list.case
    proof (rule merges_bind, goal_cases)
      case 1
      show ?case by (rule quiet_store.after_compare_for_merge) simp
    next
      case (2 c rt2)
      then have "rn_config rt2 = rn_config rt1" unfolding quiet_since_def by (blast intro: config_later)
      then have "rn_config rt2 = rn_config rt" using config by simp
      then show ?case by (rule compared_hunks_only[OF Cons])
    qed
  qed
qed


subsection \<open>sync\<close>

text \<open>What one destination of a sync sees.\<close>

definition block_for ::
  "apply_options \<Rightarrow> rel_path list \<Rightarrow> bool \<Rightarrow> 'w recording runtime \<Rightarrow> side \<Rightarrow> alteration list \<Rightarrow> bool" where
  "block_for opts ps delete rt destination block \<longleftrightarrow>
     (\<exists>changes pieces. block = concat pieces
        \<and> list_all2 (as_planned (place_of destination rt) (configured_modes destination rt) destination opts)
            changes pieces
        \<and> list_all (file_change_allowed ps delete False) changes
        \<and> backups_kept (ao_dry_run opts) rt (ao_session opts) changes)"

lemma block_nothing: "block_for opts ps delete rt destination []"
  unfolding block_for_def by (intro exI[of _ "[]"]) (simp add: backups_kept_def)

lemma blocks_nothing: "list_all2 (block_for opts ps delete rt) ds (replicate (length ds) [])"
  by (simp add: list_all2_conv_all_nth block_nothing)

lemma block_later: "later rt rt' \<Longrightarrow> block_for opts ps delete rt' = block_for opts ps delete rt"
  by (intro ext) (simp add: block_for_def later_place later_modes backups_kept_def config_later)

definition plan_of_targets :: "rel_path list \<Rightarrow> bool \<Rightarrow> target_plan \<Rightarrow> bool" where
  "plan_of_targets ps delete p \<longleftrightarrow>
     (case tp_state p of
        TargetPlanned paths plan \<Rightarrow> bt_ok paths \<and> plan = merge_plan_of paths (merge_targets_of ps delete) delete False
      | TargetFailed _ \<Rightarrow> True)"

lemma changes_counted:
  "planned_changes paths plan = Some changes \<Longrightarrow> changes \<noteq> [] \<Longrightarrow> tp_state p = TargetPlanned paths plan \<Longrightarrow> changes_anything p"
  using planned_changes_counted[of paths plan changes LocalSide]
  by (auto simp: changes_anything_def plan_counts_def changing_sides_def split: prod.splits if_splits)

lemma sync_target_block:
  assumes "plan_of_targets ps delete p"
    and "changes_anything p \<Longrightarrow> bc_enabled (cf_backup (rn_config rt)) \<Longrightarrow> \<not> ao_dry_run opts \<Longrightarrow> ao_session opts \<noteq> None"
  shows "later rt (fst (sync_target hex (recorded mc) opts p rt))
    \<and> (\<exists>block. log (fst (sync_target hex (recorded mc) opts p rt)) = log rt @ block
         \<and> block_for opts ps delete rt (tp_side p) block)"
proof (cases "tp_state p")
  case (TargetFailed e)
  then show ?thesis by (simp add: sync_target_def block_nothing)
next
  case (TargetPlanned paths plan)
  obtain changes where c: "altered_by (tp_side p) opts rt
        (fst (apply_plan hex (recorded mc) (tp_side p) paths plan opts False rt)) changes"
      "planned_changes paths plan = Some changes \<or> changes = []"
    using apply_plan_altered by blast
  have "fst (sync_target hex (recorded mc) opts p rt) = fst (apply_plan hex (recorded mc) (tp_side p) paths plan opts False rt)"
    by (simp add: sync_target_def TargetPlanned Let_def split: prod.split option.split)
  moreover have "list_all (file_change_allowed ps delete False) changes"
    using c(2) planned_changes_allowed[of paths ps delete False changes] assms(1)
    by (auto simp: plan_of_targets_def TargetPlanned)
  moreover have "backups_kept (ao_dry_run opts) rt (ao_session opts) changes"
    using c(2) changes_counted[OF _ _ TargetPlanned] assms(2) unfolding backups_kept_def by blast
  ultimately show ?thesis using c(1) unfolding altered_by_def block_for_def by auto
qed

lemma sync_each_blocks:
  assumes "list_all (plan_of_targets ps delete) plans"
    and "(\<exists>p \<in> set plans. changes_anything p) \<Longrightarrow> bc_enabled (cf_backup (rn_config rt)) \<Longrightarrow> \<not> ao_dry_run opts
      \<Longrightarrow> ao_session opts \<noteq> None"
  shows "later rt (fst (sync_each hex (recorded mc) opts plans rt))
    \<and> (\<exists>blocks. log (fst (sync_each hex (recorded mc) opts plans rt)) = log rt @ concat blocks
         \<and> list_all2 (block_for opts ps delete rt) (map tp_side plans) blocks)"
  using assms
proof (induction plans arbitrary: rt)
  case (Cons p plans)
  obtain rt1 r where one: "sync_target hex (recorded mc) opts p rt = (rt1, r)"
    by (cases "sync_target hex (recorded mc) opts p rt")
  have "plan_of_targets ps delete p" using Cons.prems(1) by simp
  from sync_target_block[OF this, of rt opts hex mc] Cons.prems(2) obtain block where b:
      "later rt rt1" "log rt1 = log rt @ block" "block_for opts ps delete rt (tp_side p) block"
    unfolding one by auto
  show ?case
  proof (cases r)
    case None
    have "list_all2 (block_for opts ps delete rt) (map tp_side (p # plans)) (block # replicate (length plans) [])"
      using b(3) blocks_nothing[of opts ps delete rt "map tp_side plans"] by simp
    moreover have "concat (block # replicate (length plans) []) = block" by simp
    ultimately show ?thesis using b(1,2) None by (simp only: sync_each.simps one prod.case option.case fst_conv) metis
  next
    case (Some result)
    have "later rt1 (fst (sync_each hex (recorded mc) opts plans rt1))
        \<and> (\<exists>blocks. log (fst (sync_each hex (recorded mc) opts plans rt1)) = log rt1 @ concat blocks
         \<and> list_all2 (block_for opts ps delete rt1) (map tp_side plans) blocks)"
      using Cons.prems by (intro Cons.IH) (auto simp: config_later[OF b(1)])
    then obtain blocks where bs: "later rt1 (fst (sync_each hex (recorded mc) opts plans rt1))"
        "log (fst (sync_each hex (recorded mc) opts plans rt1)) = log rt1 @ concat blocks"
        "list_all2 (block_for opts ps delete rt) (map tp_side plans) blocks"
      by (auto simp: block_later[OF b(1)])
    have "fst (sync_each hex (recorded mc) opts (p # plans) rt) = fst (sync_each hex (recorded mc) opts plans rt1)"
      by (simp add: one Some split_beta)
    then show ?thesis
      using b bs later_trans[OF b(1) bs(1)] by (auto intro!: exI[of _ "block # blocks"])
  qed
qed simp

lemma reused_or_named_ok:
  assumes "compare_destination mc source d q named u facts rt = (rt', facts', Inr c)"
  shows "bt_ok (cn_paths c)"
  using assms
  by (auto simp: compare_destination_def Let_def split: prod.splits sum.splits
      dest: compared_reusing_ok named_files_ok)

lemma judged_paths:
  "judge_target mc source q compared rt = (rt', Inr (Inr paths)) \<Longrightarrow> \<exists>c. compared = Inr c \<and> paths = cn_paths c"
  by (auto simp: judge_target_def stop_error_def split: sum.splits option.splits list.splits read_stop.splits if_splits prod.splits bool.splits)

lemma compared_target_ok:
  "compare_target mc source d q named u facts rt = (rt', facts', Inr (Inr paths)) \<Longrightarrow> bt_ok paths"
  by (auto simp: compare_target_def split: prod.splits sum.splits dest!: judged_paths dest: reused_or_named_ok)

lemma plan_each_planned:
  "plan_each mc source q (merge_targets_of ps delete) delete u ds facts rt = (rt', Inr plans)
     \<Longrightarrow> list_all (plan_of_targets ps delete) plans \<and> map tp_side plans = ds"
proof (induction ds arbitrary: facts rt plans)
  case (Cons d ds)
  obtain rt1 facts1 compared where one: "compare_target mc source d q (tg_named (merge_targets_of ps delete)) u facts rt
      = (rt1, facts1, Inr compared)"
    using Cons.prems by (auto split: prod.splits sum.splits)
  obtain rest where rest: "plan_each mc source q (merge_targets_of ps delete) delete u ds facts1 rt1 = (rt', Inr rest)"
      "plans = target_plan_of d (merge_targets_of ps delete) delete rt1 compared # rest"
    using Cons.prems by (auto simp: one Let_def res_simps split: prod.splits)
  have "plan_of_targets ps delete (target_plan_of d (merge_targets_of ps delete) delete rt1 compared)"
    using one by (cases compared) (auto simp: plan_of_targets_def target_plan_of_def dest: compared_target_ok)
  then show ?case using Cons.IH[OF rest(1)] rest(2) by (simp add: target_plan_of_def)
qed simp

lemma plan_targets_planned:
  assumes "plan_targets mc args source ds ps max_entries rt = (rt', Inr plans)"
  shows "list_all (plan_of_targets ps (sa_delete args)) plans \<and> map tp_side plans = ds"
  using assms
  by (auto simp: plan_targets_def Let_def run_bind_Inr run_act_def res_simps split: prod.splits
      dest: plan_each_planned)

definition syncs_only ::
  "sync_args \<Rightarrow> rel_path list \<Rightarrow> side list \<Rightarrow> 'w recording runtime \<Rightarrow> 'w recording runtime \<Rightarrow> bool" where
  "syncs_only args ps ds rt rt' \<longleftrightarrow>
     (\<exists>session blocks. log rt' = log rt @ concat blocks
        \<and> list_all2 (block_for (sync_options args session) ps (sa_delete args) rt) ds blocks)"

lemma syncs_nothing:
  assumes "quiet_since rt rt'"
  shows "syncs_only args ps ds rt rt'"
  unfolding syncs_only_def
proof (intro exI conjI)
  show "log rt' = log rt @ concat (replicate (length ds) [])" using assms by (simp add: quiet_since_def)
  show "list_all2 (block_for (sync_options args None) ps (sa_delete args) rt) ds (replicate (length ds) [])"
    by (rule blocks_nothing)
qed

lemma sync_targets_only:
  assumes "quiet_since rt rt0" "list_all (plan_of_targets ps (sa_delete args)) plans" "map tp_side plans = ds"
  shows "syncs_only args ps ds rt (fst (sync_targets hex (recorded mc) (recorded_store bk) args plans rt0))"
proof -
  let ?changing = "map tp_side (filter changes_anything plans)"
  obtain rt1 r where start: "start_backup_session (recorded_store bk) (sa_dry_run args) ?changing rt0 = (rt1, r)"
    by (cases "start_backup_session (recorded_store bk) (sa_dry_run args) ?changing rt0")
  have q: "quiet_since rt rt1"
    using quiet_store.after_start_session[of rt rt0 bk] start assms(1) by (metis after_def fst_conv)
  show ?thesis
  proof (cases r)
    case (Inl e)
    then show ?thesis using q by (simp add: sync_targets_def run_bind_def run_act_def start syncs_nothing)
  next
    case (Inr session)
    let ?opts = "sync_options args session"
    note started = start_session_result[OF start[unfolded Inr]]
    have config: "rn_config rt1 = rn_config rt0" using started by (simp add: quiet_since_def config_later)
    have l: "later rt rt1" "log rt1 = log rt" using q by (simp_all add: quiet_since_def)
    obtain rt2 results where each: "sync_each hex (recorded mc) ?opts plans rt1 = (rt2, results)"
      by (cases "sync_each hex (recorded mc) ?opts plans rt1")
    have "later rt1 (fst (sync_each hex (recorded mc) ?opts plans rt1))
      \<and> (\<exists>blocks. log (fst (sync_each hex (recorded mc) ?opts plans rt1)) = log rt1 @ concat blocks
         \<and> list_all2 (block_for ?opts ps (sa_delete args) rt1) (map tp_side plans) blocks)"
      using started by (intro sync_each_blocks[OF assms(2)]) (auto simp: sync_options_def config filter_empty_conv)
    then obtain blocks where b: "log rt2 = log rt @ concat blocks"
        "list_all2 (block_for ?opts ps (sa_delete args) rt) ds blocks"
      by (auto simp: each l(2) block_later[OF l(1)] assms(3))
    let ?after = "fst (sync_targets hex (recorded mc) (recorded_store bk) args plans rt0)"
    have "quiet_since rt2 ?after"
      by (cases results) (simp_all add: sync_targets_def run_bind_def run_act_def start Inr each
            quiet_store.keeps_end_session)
    then show ?thesis using b unfolding syncs_only_def quiet_since_def by auto
  qed
qed

lemma sync_planned_only:
  assumes "quiet_since rt rt0" "list_all (plan_of_targets ps (sa_delete args)) plans" "map tp_side plans = ds"
  shows "syncs_only args ps ds rt
     (fst (sync_planned hex (recorded mc) (recorded_store bk) args source answer plans rt0))"
proof -
  have "fst (run_bind (sync_targets hex (recorded mc) (recorded_store bk) args plans) (\<lambda>results rt. (rt, Inr (f results rt))) rt0)
      = fst (sync_targets hex (recorded mc) (recorded_store bk) args plans rt0)" for f :: "_ \<Rightarrow> _ \<Rightarrow> sync_command_result"
    by (simp add: run_bind_def split_beta split: sum.split)
  then show ?thesis
    using sync_targets_only[OF assms, of hex mc bk] syncs_nothing[OF assms(1)]
    by (cases answer)
       (auto simp: sync_planned_def run_bind_def[of "if asks_before_sync args plans then _ else _"]
          run_act_def run_return_def)
qed

lemma sync_run:
  assumes "sync_start args (rn_config rt) = Inr (source, ds, ps, n)"
  shows "syncs_only args ps ds rt (fst (execute_sync hex (recorded mc) (recorded_store bk) args answer rt))"
proof -
  obtain rt1 r where p: "plan_targets (recorded mc) args source ds ps n rt = (rt1, r)"
    by (cases "plan_targets (recorded mc) args source ds ps n rt")
  have q: "quiet_since rt rt1"
    using quiet_store.after_plan_targets[of rt rt mc args source ds ps n] p by (simp add: after_def)
  have run: "execute_sync hex (recorded mc) (recorded_store bk) args answer rt =
      run_bind (plan_targets (recorded mc) args source ds ps n)
        (sync_planned hex (recorded mc) (recorded_store bk) args source answer) rt"
    by (simp add: execute_sync_def assms)
  show ?thesis
  proof (cases r)
    case (Inl e)
    then show ?thesis using q by (simp add: run run_bind_def p syncs_nothing)
  next
    case (Inr plans)
    from plan_targets_planned[OF p[unfolded Inr]] sync_planned_only[OF q, of ps args plans ds hex mc bk source answer]
    show ?thesis by (simp add: run run_bind_def p Inr)
  qed
qed

lemma sync_start_sides:
  assumes "sync_start args config = Inr (source, ds, ps, n)"
  shows "distinct ds \<and> source \<notin> set ds"
proof -
  have "sync_sides (sa_left args) (sa_right args) (map fst (cf_servers config)) = Inr (source, ds)"
    using assms by (auto simp: sync_start_def res_simps split: prod.splits)
  then show ?thesis by (auto simp: sync_sides_def res_simps split: option.splits if_splits dest: sync_loop_ok)
qed


subsection \<open>Dry runs\<close>

lemma merges_dry: "merges_only args sides allowed rt rt' \<Longrightarrow> ma_dry_run args \<Longrightarrow> log rt' = log rt"
  unfolding merges_only_def
  by (auto simp: merge_options_def quiet_since_def dest: altered_dry_run)

lemma block_dry:
  assumes "block_for opts ps delete rt d block" "ao_dry_run opts"
  shows "block = []"
  using assms dry_run_pieces[of "place_of d rt" "configured_modes d rt" d opts] unfolding block_for_def by metis

lemma blocks_dry: "list_all2 (block_for opts ps delete rt) ds blocks \<Longrightarrow> ao_dry_run opts \<Longrightarrow> concat blocks = []"
proof (induction rule: list_all2_induct)
  case (Cons d ds block blocks)
  then show ?case using block_dry[OF Cons.hyps(1)] by simp
qed simp

lemma syncs_dry: "syncs_only args ps ds rt rt' \<Longrightarrow> sa_dry_run args \<Longrightarrow> log rt' = log rt"
  unfolding syncs_only_def
  by (elim exE conjE, drule blocks_dry) (simp_all add: sync_options_def)

lemma merge_dry:
  assumes "ma_dry_run args"
  shows "log (fst (execute_merge hex d glob line_diff (recorded mc) (recorded_store bk) args rt)) = log rt"
  using merges_dry[OF merge_files_only assms] merges_dry[OF merge_hunks_only assms]
  by (auto simp: execute_merge_def split: sum.split option.split)

lemma sync_dry:
  assumes "sa_dry_run args"
  shows "log (fst (execute_sync hex (recorded mc) (recorded_store bk) args answer rt)) = log rt"
proof (cases "sync_start args (rn_config rt)")
  case (Inr start)
  then show ?thesis using syncs_dry[OF sync_run assms] by (cases start) blast
qed (simp add: execute_sync_def)

end
