(* ===== verification/ResultProps.thy ===== *)
theory ResultProps
  imports CommandProps RuntimeProps "HOL-Library.Multiset"
begin

text \<open>
  What the commands answer: no panic as long as the agent answers something for a path it is asked to read, one
  result for each destination, and in it one line for each path of the plan.
\<close>

subsection \<open>No panic\<close>

abbreviation no_panic :: "'s \<times> (run_cause read_stop + 'a) \<Rightarrow> bool" where
  "no_panic p \<equiv> snd p \<noteq> Inl RsPanic"

lemma bind_no_panic:
  assumes "no_panic (f rt)" "\<And>x rt'. f rt = (rt', Inr x) \<Longrightarrow> no_panic (g x rt')"
  shows "no_panic (run_bind f g rt)"
  using assms by (auto simp: run_bind_def split: prod.split sum.split)

lemma act_no_panic [simp]: "no_panic (run_act f rt)"
  by (cases "f rt"; cases "snd (f rt)") (simp_all add: run_act_def)

lemma return_no_panic [simp]: "no_panic (run_return x rt)" "no_panic (run_fail e rt)" "stop_error e \<noteq> Inl RsPanic"
  by (simp_all add: run_return_def run_fail_def stop_error_def)

lemma root_gone_first_no_panic: "no_panic p \<Longrightarrow> no_panic (root_gone_first p)"
  by (cases p; cases "snd p") (auto simp: root_gone_first_def split: read_stop.split)

lemma stops_no_panic [simp]: "no_panic (stop_if_gone rt)" "no_panic (stop_if_incomplete xs rt)"
  by (auto simp: stop_if_gone_def stop_if_incomplete_def stop_error_def split: option.split list.split)

lemma res_bind_Inr_Inl [simp]: "res_bind r (\<lambda>x. Inr (f x)) = Inl e \<longleftrightarrow> r = Inl e"
  by (cases r) simp_all

lemma named_files_no_panic: "no_panic (compare_named_files mc sides q named u c rt)"
proof -
  let ?unseen = "filter (\<lambda>name. map_of (cn_paths c) name = None) named"
  have "no_panic (compare mc sides (q\<lparr>cq_scope := CsEntries ?unseen, cq_counted_before := cn_counted c\<rparr>) u rt)"
    by (rule compare_no_panic)
  then show ?thesis by (auto simp: compare_named_files_def Let_def split: prod.split)
qed

lemma compare_for_merge_no_panic: "no_panic (compare_for_merge mc sides targets q u rt)"
  unfolding compare_for_merge_def
  by (intro bind_no_panic root_gone_first_no_panic compare_no_panic named_files_no_panic stops_no_panic return_no_panic)

lemma plan_merge_no_panic: "no_panic (plan_merge mc args sides ps n rt)"
  unfolding plan_merge_def Let_def
  by (intro bind_no_panic act_no_panic compare_for_merge_no_panic)

lemma entry_outcome_found: "badge \<noteq> None \<or> a = None \<Longrightarrow> entry_outcome badge entry a \<noteq> None"
  by (cases "(badge, entry, a)" rule: entry_outcome.cases) auto

lemma plan_outcomes_total:
  "\<forall>path. results path \<noteq> None \<longrightarrow> map_of paths path \<noteq> None \<Longrightarrow> plan_outcomes paths with_ref results plan \<noteq> None"
proof (induction paths with_ref results plan rule: plan_outcomes.induct)
  case (2 paths with_ref results path entry plan)
  have "badge_of paths with_ref path \<noteq> None \<or> results path = None"
    using 2(2) badge_of_found by blast
  from entry_outcome_found[OF this] obtain out where
    out: "entry_outcome (badge_of paths with_ref path) entry (results path) = Some out" by blast
  have "plan_outcomes paths with_ref (results(path := None)) plan \<noteq> None"
    using 2(2) by (intro 2(1)[OF out]) simp
  then show ?case using out by auto
qed simp

lemma merge_plan_found:
  assumes "bt_ok paths" "plan = merge_plan_of paths targets delete ref_check"
  shows "\<forall>(path, entry) \<in> set plan. change_kind_of entry \<noteq> None \<longrightarrow> map_of paths path \<noteq> None"
proof -
  have "map_of paths path \<noteq> None" if x: "(path, entry) \<in> set plan" "change_kind_of entry \<noteq> None" for path entry
  proof -
    have "changes_destination entry" using x(2) by (cases entry) auto
    from plan_change[OF assms(1) x(1)[unfolded assms(2)] this] show ?thesis by auto
  qed
  then show ?thesis by blast
qed

lemma apply_plan_answers:
  assumes "reads_answered mc" "bt_ok paths" "plan = merge_plan_of paths targets delete ref_check"
  shows "snd (apply_plan hex mc target paths plan opts with_ref rt) \<noteq> None"
proof -
  obtain changes where c: "planned_changes paths plan = Some changes"
    using planned_changes_total[OF merge_plan_found[OF assms(2,3)]] by blast
  obtain rt' answers where a: "apply_changes hex mc target changes opts rt = (rt', Some answers)"
    using changes_answered[OF assms(1), of hex target changes opts rt]
    by (cases "apply_changes hex mc target changes opts rt") auto
  have "map_of paths path \<noteq> None" if "map_of (rev (zip (map pc_path changes) answers)) path \<noteq> None" for path
  proof -
    have "path \<in> fst ` set (zip (map pc_path changes) answers)" using that by (metis map_of_eq_None_iff set_rev)
    then have "path \<in> set (map pc_path changes)" by (auto dest: set_zip_leftD)
    then obtain change where "change \<in> set changes" "pc_path change = path" by auto
    with planned_changes_member[OF c] show ?thesis by blast
  qed
  then have "plan_outcomes paths with_ref (map_of (rev (zip (map pc_path changes) answers))) plan \<noteq> None"
    by (intro plan_outcomes_total) blast
  then show ?thesis by (simp add: apply_plan_def c a)
qed

lemma apply_merge_no_panic:
  assumes "reads_answered mc" "bt_ok (pm_paths planned)"
    and "pm_plan planned = merge_plan_of (pm_paths planned) targets delete ref_check"
  shows "no_panic (apply_merge hex mc bk args sides planned rt)"
  unfolding apply_merge_def
proof (rule bind_no_panic[OF act_no_panic])
  fix session rt1
  show "no_panic (case apply_plan hex mc (cs_right sides) (pm_paths planned) (pm_plan planned) (merge_options args session)
        (cs_reference sides \<noteq> None) rt1 of
          (rt', None) \<Rightarrow> (rt', Inl RsPanic)
        | (rt', Some outs) \<Rightarrow>
            (let rt'' = end_backup_session bk session rt'
             in (rt'', Inr (merge_result_of sides (pm_plan planned) outs rt''))))"
    using apply_plan_answers[OF assms, of hex "cs_right sides" "merge_options args session" "cs_reference sides \<noteq> None" rt1]
    by (auto simp: Let_def split: prod.split option.split simp del: not_None_eq)
qed

lemma merge_files_no_panic:
  assumes "reads_answered mc"
  shows "no_panic (merge_files hex mc bk args sides ps n rt)"
  unfolding merge_files_def
proof (rule bind_no_panic[OF plan_merge_no_panic])
  fix planned rt1 assume "plan_merge mc args sides ps n rt = (rt1, Inr planned)"
  from plan_merge_result[OF this] show "no_panic (apply_merge hex mc bk args sides planned rt1)"
    using apply_merge_no_panic[OF assms] by blast
qed

subsection \<open>sync\<close>

lemma judge_target_no_panic: "compared \<noteq> Inl RsPanic \<Longrightarrow> no_panic (judge_target mc source q compared rt)"
  by (auto simp: judge_target_def stop_error_def split: sum.split option.split read_stop.split prod.split bool.split)

lemma compare_destination_no_panic: "snd (snd (compare_destination mc source d q named u facts rt)) \<noteq> Inl RsPanic"
proof -
  let ?sides = "\<lparr>cs_left = source, cs_right = d, cs_reference = None\<rparr>"
  obtain rt1 kept ru r where c: "compare_reusing mc ?sides q u (fst facts) (snd facts) rt = (rt1, kept, ru, r)"
    by (cases "compare_reusing mc ?sides q u (fst facts) (snd facts) rt") auto
  have "r \<noteq> Inl RsPanic" using compare_reusing_no_panic[of mc ?sides q u "fst facts" "snd facts" rt] by (simp add: c)
  moreover have "no_panic (compare_named_files mc ?sides q named u x rt1)" for x by (rule named_files_no_panic)
  then have "snd (snd (case compare_named_files mc ?sides q named u x rt1 of (rt'', r) \<Rightarrow> (rt'', (kept, ru), r))) \<noteq> Inl RsPanic"
    for x by (simp add: split_beta)
  ultimately show ?thesis by (cases r) (simp_all add: compare_destination_def c)
qed

lemma compare_target_no_panic: "snd (snd (compare_target mc source d q named u facts rt)) \<noteq> Inl RsPanic"
proof -
  obtain rt1 r where c: "connect_side mc d rt = (rt1, r)" by (cases "connect_side mc d rt")
  obtain rt2 facts' compared where d: "compare_destination mc source d q named u facts rt1 = (rt2, facts', compared)"
    by (cases "compare_destination mc source d q named u facts rt1") auto
  have "compared \<noteq> Inl RsPanic" using compare_destination_no_panic[of mc source d q named u facts rt1] by (simp add: d)
  then have "no_panic (judge_target mc source q compared rt2)" by (rule judge_target_no_panic)
  then show ?thesis by (cases r) (auto simp: compare_target_def c d split: prod.split)
qed

lemma plan_each_no_panic: "no_panic (plan_each mc source q targets delete u ds facts rt)"
proof (induction ds arbitrary: facts rt)
  case (Cons d ds)
  obtain rt1 facts1 r where c: "compare_target mc source d q (tg_named targets) u facts rt = (rt1, facts1, r)"
    by (cases "compare_target mc source d q (tg_named targets) u facts rt") auto
  have r: "r \<noteq> Inl RsPanic" using compare_target_no_panic[of mc source d q "tg_named targets" u facts rt] by (simp add: c)
  have "no_panic (plan_each mc source q targets delete u ds facts1 rt1)" by (rule Cons.IH)
  then show ?case using r by (cases r) (auto simp: c Let_def split: prod.split)
qed simp

lemma plan_targets_no_panic: "no_panic (plan_targets mc args source ds ps n rt)"
  unfolding plan_targets_def Let_def by (intro bind_no_panic act_no_panic plan_each_no_panic)

lemma sync_each_answers:
  assumes "reads_answered mc"
  shows "list_all (plan_of_targets ps delete) plans \<Longrightarrow> snd (sync_each hex mc opts plans rt) \<noteq> None"
proof (induction plans arbitrary: rt)
  case (Cons p plans)
  have "snd (sync_target hex mc opts p rt) \<noteq> None"
  proof (cases "tp_state p")
    case (TargetPlanned paths plan)
    then have "snd (apply_plan hex mc (tp_side p) paths plan opts False rt) \<noteq> None"
      using Cons.prems apply_plan_answers[OF assms, of paths plan "merge_targets_of ps delete" delete False]
      by (simp add: plan_of_targets_def)
    then show ?thesis by (auto simp: sync_target_def TargetPlanned Let_def split: prod.split option.split)
  qed (simp add: sync_target_def)
  then obtain rt1 result where one: "sync_target hex mc opts p rt = (rt1, Some result)"
    by (cases "sync_target hex mc opts p rt") auto
  have "snd (sync_each hex mc opts plans rt1) \<noteq> None" using Cons by simp
  then show ?case by (auto simp: one split_beta)
qed simp

lemma sync_targets_no_panic:
  assumes "reads_answered mc" "list_all (plan_of_targets ps delete) plans"
  shows "no_panic (sync_targets hex mc bk args plans rt)"
  unfolding sync_targets_def
proof (rule bind_no_panic[OF act_no_panic])
  fix session rt1
  show "no_panic (case sync_each hex mc (sync_options args session) plans rt1 of
             (rt', None) \<Rightarrow> (rt', Inl RsPanic)
           | (rt', Some results) \<Rightarrow> (end_backup_session bk session rt', Inr results))"
    using sync_each_answers[OF assms, of hex "sync_options args session" rt1]
    by (auto split: prod.split option.split)
qed

lemma sync_planned_no_panic:
  assumes "reads_answered mc" "list_all (plan_of_targets ps delete) plans"
  shows "no_panic (sync_planned hex mc bk args source answer plans rt)"
  unfolding sync_planned_def
proof (rule bind_no_panic)
  fix go_on rt1
  have "no_panic (run_bind (sync_targets hex mc bk args plans) (\<lambda>results rt.
              (rt, Inr (sync_result_of source (\<forall>p \<in> set plans. plan_is_empty p) results rt))) rt1)"
    by (rule bind_no_panic[OF sync_targets_no_panic[OF assms]]) simp
  then show "no_panic ((if \<not> go_on then run_return sync_cancelled
          else run_bind (sync_targets hex mc bk args plans) (\<lambda>results rt.
              (rt, Inr (sync_result_of source (\<forall>p \<in> set plans. plan_is_empty p) results rt)))) rt1)"
    by simp
qed simp

lemma sync_no_panic:
  assumes "reads_answered mc"
  shows "no_panic (execute_sync hex mc bk args answer rt)"
proof (cases "sync_start args (rn_config rt)")
  case (Inr start)
  obtain source ds ps n where s: "start = (source, ds, ps, n)" by (cases start)
  have "no_panic (run_bind (plan_targets mc args source ds ps n) (sync_planned hex mc bk args source answer) rt)"
  proof (rule bind_no_panic[OF plan_targets_no_panic])
    fix plans rt1 assume "plan_targets mc args source ds ps n rt = (rt1, Inr plans)"
    from plan_targets_planned[OF this] show "no_panic (sync_planned hex mc bk args source answer plans rt1)"
      using sync_planned_no_panic[OF assms] by blast
  qed
  then show ?thesis by (simp add: execute_sync_def Inr s)
qed (simp add: execute_sync_def)

lemma status_no_panic: "no_panic (execute_status mc args rt)"
proof -
  have "no_panic (compare_and_list mc args sides n rt)" for sides n
    unfolding compare_and_list_def
    by (intro bind_no_panic act_no_panic compare_no_panic stops_no_panic) simp
  then show ?thesis by (simp add: execute_status_def split: sum.split prod.split)
qed

text \<open>C4: the commands always answer. As long as an agent answers something for a path it is asked to read, a merge
  of whole files, a sync and status never panic: they come to a result or to an error, whatever else the
  machines, the store and the user answer and wherever a connection is lost. Every index into the compared
  paths, into the answers and into the results of the changes finds its entry.\<close>

theorem commands_never_panic:
  assumes "reads_answered mc" "ma_hunks merge = None"
  shows "snd (execute_merge hex d glob line_diff mc bk merge rt) \<noteq> Inl RsPanic
    \<and> snd (execute_sync hex mc bk sync answer rt) \<noteq> Inl RsPanic
    \<and> snd (execute_status mc status rt) \<noteq> Inl RsPanic"
proof (intro conjI sync_no_panic[OF assms(1)] status_no_panic)
  have "no_panic (merge_files hex mc bk merge sides ps n rt)" for sides ps n
    by (rule merge_files_no_panic[OF assms(1)])
  then show "no_panic (execute_merge hex d glob line_diff mc bk merge rt)"
    by (simp add: execute_merge_def assms(2) split: sum.split prod.split)
qed

text \<open>A run between this machine and one server, with a store that has nothing.\<close>

definition web_run :: "nat runtime" where
  "web_run = flaky_run\<lparr>rn_config := (rn_config flaky_run)\<lparr>cf_servers := [(''web'',
     \<lparr>sv_host = ''h'', sv_port = 22, sv_user = ''u'', sv_auth = AuthPassword, sv_password = None, sv_key = None,
      sv_root_dir = ''/r'', sv_ssh_options = None, sv_sudo = False, sv_file_permissions = None,
      sv_dir_permissions = None\<rparr>)]\<rparr>\<rparr>"

definition empty_store :: "nat store" where
  "empty_store =
     \<lparr>bk_reserve = no_answer, bk_prepare = (\<lambda>_ _. no_answer), bk_finish = (\<lambda>_ w. w), bk_read = (\<lambda>_ _ _. no_answer),
      bk_cleanup = no_answer, bk_sessions = (\<lambda>_ w. (w, Inr []))\<rparr>"

definition try_merge :: merge_args where
  "try_merge =
     \<lparr>ma_encodings = \<lparr>ov_left_as = None, ov_right_as = None, ov_reference_as = None\<rparr>, ma_paths = [''a''], ma_left = Some ''local'',
      ma_right = Some ''web'', ma_ref_server = None, ma_dry_run = True, ma_force = False, ma_delete = False,
      ma_with_permissions = False, ma_checksum = False, ma_format = ''text'', ma_max_entries = None, ma_hunks = None\<rparr>"

definition try_sync :: sync_args where
  "try_sync =
     \<lparr>sa_paths = [''a''], sa_left = Some ''local'', sa_right = [''web''], sa_dry_run = True, sa_force = False,
      sa_delete = False, sa_with_permissions = False, sa_checksum = False, sa_format = ''text'', sa_max_entries = None\<rparr>"

definition ask_status :: status_args where
  "ask_status =
     \<lparr>ta_left = Some ''local'', ta_right = Some ''web'', ta_ref_server = None, ta_format = ''text'', ta_summary = False,
      ta_all = False, ta_checksum = False, ta_verbose = 0, ta_max_entries = None\<rparr>"

theorem commands_never_panic_witness:
  "snd (execute_merge (\<lambda>bs. bs) \<lparr>euc_jp = (\<lambda>_. None), shift_jis = (\<lambda>_. None)\<rparr> (\<lambda>_ _. False) (\<lambda>_ _. []) flaky_machine
       empty_store try_merge web_run) \<noteq> Inl RsPanic
   \<and> snd (execute_sync (\<lambda>bs. bs) flaky_machine empty_store try_sync (Inr ''y'') web_run) \<noteq> Inl RsPanic
   \<and> snd (execute_status flaky_machine ask_status web_run) \<noteq> Inl RsPanic"
  by (rule commands_never_panic[OF flaky_reads_answered]) (simp add: try_merge_def)

subsection \<open>Every path is accounted for\<close>

definition listed_paths :: "target_lists \<Rightarrow> string list" where
  "listed_paths l = map mf_path (tl_merged l) @ map fst (tl_skipped l) @ map df_path (tl_deleted l) @ map fst (tl_failed l)"

definition result_paths :: "sync_target_result \<Rightarrow> string list" where
  "result_paths r =
     map mf_path (str_merged r) @ map fst (str_skipped r) @ map df_path (str_deleted r) @ map fst (str_failed r)"

lemma add_outcome_paths: "mset (listed_paths (add_outcome x l)) = add_mset (fst x) (mset (listed_paths l))"
  by (cases x; cases "snd x") (auto simp: add_outcome_def listed_paths_def)

lemma fold_outcome_paths: "mset (listed_paths (fold add_outcome xs l)) = mset (map fst xs) + mset (listed_paths l)"
  by (induction xs arbitrary: l) (auto simp: add_outcome_paths)

lemma lists_of_paths: "mset (listed_paths (target_lists_of outs)) = mset (map fst outs)"
proof -
  have "mset (map fst (sort_key fst outs)) = mset (map fst outs)" by (simp only: mset_map mset_sort)
  moreover have "listed_paths lists_empty = []" by (simp add: listed_paths_def lists_empty_def)
  ultimately show ?thesis by (simp add: target_lists_of_def fold_outcome_paths)
qed

lemma apply_plan_paths:
  "apply_plan hex mc target paths plan opts with_ref rt = (rt', Some outs) \<Longrightarrow> map fst outs = map fst plan"
  by (auto simp: apply_plan_def split: option.splits prod.splits dest: plan_outcomes_paths)

text \<open>What the result of a destination says of its plan.\<close>

definition accounts_for :: "target_plan \<Rightarrow> sync_target_result \<Rightarrow> bool" where
  "accounts_for p r \<longleftrightarrow> str_target r = tp_target p
     \<and> (case tp_state p of
          TargetPlanned paths plan \<Rightarrow> mset (result_paths r) = mset (map fst plan)
        | TargetFailed e \<Rightarrow> str_failed r = [([], e)] \<and> str_status r = SyncFailed)"

lemma sync_target_accounts: "sync_target hex mc opts p rt = (rt', Some r) \<Longrightarrow> accounts_for p r"
proof (cases "tp_state p")
  case (TargetPlanned paths plan)
  assume "sync_target hex mc opts p rt = (rt', Some r)"
  then obtain outs status where r: "apply_plan hex mc (tp_side p) paths plan opts False rt = (rt', Some outs)"
      "r = target_applied (tp_target p) (target_lists_of outs) status"
    by (auto simp: sync_target_def TargetPlanned Let_def split: prod.splits option.splits)
  have "mset (result_paths r) = mset (map fst plan)"
    using lists_of_paths[of outs] unfolding apply_plan_paths[OF r(1)]
    by (simp add: r(2) result_paths_def target_applied_def listed_paths_def)
  then show ?thesis by (simp add: accounts_for_def TargetPlanned r(2) target_applied_def)
qed (auto simp: sync_target_def accounts_for_def target_failed_def)

lemma sync_each_accounts: "sync_each hex mc opts plans rt = (rt', Some results) \<Longrightarrow> list_all2 accounts_for plans results"
  by (induction plans arbitrary: rt results)
     (auto split: prod.splits option.splits dest: sync_target_accounts)

lemma sync_targets_accounts:
  assumes "sync_targets hex mc bk args plans rt = (rt', Inr results)"
  shows "list_all2 accounts_for plans results"
  using assms unfolding sync_targets_def run_bind_Inr
proof (elim exE conjE, goal_cases)
  case (1 rt1 session)
  then show ?case
    by (cases "sync_each hex mc (sync_options args session) plans rt1")
       (auto split: option.splits dest: sync_each_accounts)
qed

definition sync_answered :: "sync_args \<Rightarrow> rel_path list \<Rightarrow> side list \<Rightarrow> sync_command_result \<Rightarrow> bool" where
  "sync_answered args ps ds r \<longleftrightarrow>
     (case sr_output r of
        SyncCancelled \<Rightarrow> sr_exit_code r = 0 \<and> \<not> sa_force args \<and> \<not> sa_dry_run args
      | SyncResult out \<Rightarrow>
          (\<exists>plans. map tp_side plans = ds \<and> list_all (plan_of_targets ps (sa_delete args)) plans
             \<and> list_all2 accounts_for plans (syo_targets out))
          \<and> sr_exit_code r = (if list_all (\<lambda>t. str_status t = SyncSuccess) (syo_targets out) then 0 else 2))"

lemma sync_planned_answered:
  assumes "sync_planned hex mc bk args source answer plans rt = (rt', Inr r)"
    and "map tp_side plans = ds" "list_all (plan_of_targets ps (sa_delete args)) plans"
  shows "sync_answered args ps ds r"
proof -
  from assms(1) obtain go_on rt1 where asked: "(if asks_before_sync args plans
        then run_act (\<lambda>rt. (rt, res_bind answer (\<lambda>a. Inr (confirmed_sync a)))) else run_return True) rt = (rt1, Inr go_on)"
    and rest: "(if \<not> go_on then run_return sync_cancelled
          else run_bind (sync_targets hex mc bk args plans) (\<lambda>results rt.
              (rt, Inr (sync_result_of source (\<forall>p \<in> set plans. plan_is_empty p) results rt)))) rt1 = (rt', Inr r)"
    by (auto simp: sync_planned_def run_bind_Inr)
  show ?thesis
  proof (cases go_on)
    case False
    then show ?thesis using asked rest
      by (auto simp: run_return_def sync_answered_def sync_cancelled_def exit_success_def asks_before_sync_def split: if_splits)
  next
    case True
    then obtain results rt2 where r: "sync_targets hex mc bk args plans rt1 = (rt2, Inr results)"
        "r = sync_result_of source (\<forall>p \<in> set plans. plan_is_empty p) results rt2"
      using rest by (auto simp: run_bind_Inr)
    from sync_targets_accounts[OF r(1)] have "list_all2 accounts_for plans results" .
    then show ?thesis using assms(2,3)
      by (auto simp: r(2) sync_answered_def sync_result_of_def sync_exit_code_def exit_success_def exit_error_def list_all_iff)
  qed
qed


subsection \<open>diff answers for every name\<close>

lemma named_loop_accounts:
  "compare_named_loop mc sides q u named unlistable rt = (rt', Inr c) \<Longrightarrow>
     \<exists>errors. dc_unlistable c = unlistable @ errors \<and> set (map de_path errors) \<subseteq> set named \<and> distinct (map de_path errors)
       \<and> dc_named c = filter (\<lambda>n. n \<notin> set (map de_path errors)) named"
proof (induction "length named" arbitrary: named unlistable rt rule: less_induct)
  case less
  note unfold = compare_named_loop.simps[of mc sides q u named unlistable rt]
  show ?case
  proof (cases "named = []")
    case True
    then show ?thesis using less.prems unfolding unfold by (auto simp: diff_compared_default_def)
  next
    case False
    obtain rt1 r where one: "compare mc sides (q\<lparr>cq_scope := CsBelow named\<rparr>) u rt = (rt1, r)"
      by (cases "compare mc sides (q\<lparr>cq_scope := CsBelow named\<rparr>) u rt")
    show ?thesis
    proof (cases r)
      case (Inr found)
      then show ?thesis using less.prems False unfolding unfold by (auto simp: one)
    next
      case (Inl stop)
      then obtain e name failure where e: "stop = RsError e" "unlistable_start named e = Some (name, failure)"
          "compare_named_loop mc sides q u (filter (\<lambda>x. x \<noteq> name) named)
             (unlistable @ [diff_error_at name (show_scan_failure failure)]) rt1 = (rt', Inr c)"
        using less.prems False unfolding unfold
        by (auto simp: one stop_error_def split: read_stop.splits option.splits)
      have name: "name \<in> set named" using unlistable_start_named[OF e(2)] .
      from less.hyps[OF length_filter_less[OF name] e(3)] obtain errors where errors:
          "dc_unlistable c = unlistable @ diff_error_at name (show_scan_failure failure) # errors"
          "set (map de_path errors) \<subseteq> set named - {name}" "distinct (map de_path errors)"
          "dc_named c = filter (\<lambda>n. n \<notin> set (map de_path errors)) (filter (\<lambda>x. x \<noteq> name) named)"
        by auto
      let ?errors = "diff_error_at name (show_scan_failure failure) # errors"
      have "dc_unlistable c = unlistable @ ?errors" "set (map de_path ?errors) \<subseteq> set named"
          "distinct (map de_path ?errors)" "dc_named c = filter (\<lambda>n. n \<notin> set (map de_path ?errors)) named"
        using errors name by (auto simp: diff_error_at_def filter_filter intro!: filter_cong)
      then show ?thesis by blast
    qed
  qed
qed

text \<open>C12: diff answers for every name. Comparing named paths ends; when it does not stop with an error, each name
  is either among the compared names, in their order, or reported exactly once as one that cannot be
  listed, never both; and nothing but the names is reported.\<close>

theorem diff_names_accounted:
  "case snd (diff_named mc sides q u named rt) of
     Inr c \<Rightarrow>
       dc_named c = filter (\<lambda>name. name \<notin> set (map de_path (dc_unlistable c))) named
       \<and> set (map de_path (dc_unlistable c)) \<subseteq> set named \<and> distinct (map de_path (dc_unlistable c))
   | Inl e \<Rightarrow> True"
proof -
  obtain rt' r where run: "diff_named mc sides q u named rt = (rt', r)" by (cases "diff_named mc sides q u named rt")
  show ?thesis
  proof (cases r)
    case (Inr c)
    from named_loop_accounts[OF run[unfolded diff_named_def Inr]] show ?thesis by (auto simp: run Inr)
  qed (simp add: run)
qed

end
