(* ===== verification/RollbackProps.thy ===== *)
theory RollbackProps
  imports ResultProps
begin

text \<open>
  What rollback does: the plan restores all of a session's paths or none past one that cannot be
  judged, and the run alters only what the plan restores, each path behind the backup of what is there.
\<close>

subsection \<open>The calls of one path\<close>

definition restore_calls :: "place \<Rightarrow> restoring \<Rightarrow> alteration list" where
  "restore_calls pl r =
     (case rg_record r of
        BackupFile _ content \<Rightarrow> [Altered pl (rg_entry r) (RwWrite content True)]
      | BackupSymlink link _ _ \<Rightarrow>
          (if is_symlink (Some (rg_state r)) then [Altered pl (rg_entry r) RwRemove] else [])
            @ [Altered pl (rg_entry r) (RwSymlink link)])"

definition saved_before :: "side \<Rightarrow> string option \<Rightarrow> string \<times> restoring \<Rightarrow> alteration list" where
  "saved_before target session x =
     (case session of
        None \<Rightarrow> []
      | Some s \<Rightarrow> if rg_state (snd x) = SsAbsent then [] else [BackedUp target s (fst x) True])"

definition restored_as ::
  "place \<Rightarrow> side \<Rightarrow> string option \<Rightarrow> string \<times> restoring \<Rightarrow> alteration list \<Rightarrow> bool" where
  "restored_as pl target session x calls \<longleftrightarrow>
     calls = []
     \<or> (\<exists>s. session = Some s \<and> calls = [BackedUp target s (fst x) False])
     \<or> (\<exists>changes. calls = saved_before target session x @ changes \<and> subseq changes (restore_calls pl (snd x)))"

definition restores ::
  "side \<Rightarrow> string option \<Rightarrow> string \<times> restoring \<Rightarrow> 'w recording runtime \<Rightarrow> 'w recording runtime \<times> 'r \<Rightarrow> bool" where
  "restores target session x rt p \<longleftrightarrow> later rt (fst p)
     \<and> (\<exists>calls. log (fst p) = log rt @ calls \<and> restored_as (place_of target rt) target session x calls)"

lemma restores_quiet: "quiet_since rt (fst p) \<Longrightarrow> restores target session x rt p"
  by (auto simp: restores_def quiet_since_def restored_as_def)

lemma restore_one_adds:
  "adds (restore_calls (place_of target rt) r) rt (restore_one hex (recorded mc) target r before rt)"
  unfolding restore_one_def
proof (rule adds_then_quiet)
  show "adds (restore_calls (place_of target rt) r) rt
     (case rg_record r of
        BackupFile real_path content \<Rightarrow>
          settled hex (recorded mc) target (rg_entry r) (ChWrite before content)
            (io_write (for_side (recorded mc) target rt) (rg_entry r) content) rt
      | BackupSymlink link_target expected parent \<Rightarrow>
          if is_utf8 link_target then
            create_or_replace_symlink hex (recorded mc) target (rg_entry r) link_target
              (is_symlink (Some (rg_state r))) rt
          else (rt, Some (Inl (run_error_text ''the recorded link target is not UTF-8''))))"
    using adds_create_or_replace[where replaces = True] adds_create_or_replace[where replaces = False]
    by (cases "rg_record r"; cases "is_symlink (Some (rg_state r))") (auto simp: restore_calls_def adds_sent(1))
qed (auto simp: after_def split: option.splits sum.splits)

lemma restores_behind:
  assumes "later rt rt1" "log rt1 = log rt @ saved_before target session x"
    and "adds (restore_calls (place_of target rt1) (snd x)) rt1 p"
  shows "restores target session x rt p"
proof -
  obtain calls where c: "later rt1 (fst p)" "log (fst p) = log rt1 @ calls"
      "subseq calls (restore_calls (place_of target rt) (snd x))"
    using assms(3) by (auto simp: adds_def later_place[OF assms(1)])
  then show ?thesis
    using later_trans[OF assms(1) c(1)] assms(2) by (auto simp: restores_def restored_as_def)
qed

lemma restores_unsaved:
  assumes "session = None \<or> rg_state r = SsAbsent"
  shows "restores target session (path, r) rt (restore_one hex (recorded mc) target r before rt)"
  using assms restore_one_adds[of target rt r hex mc before]
  by (intro restores_behind[OF later_refl]) (auto simp: saved_before_def split: option.split)

text \<open>What saving the current content comes to.\<close>

definition saved_now ::
  "side \<Rightarrow> string \<Rightarrow> string \<Rightarrow> restoring \<Rightarrow> 'w recording runtime
     \<Rightarrow> 'w recording runtime \<times> (run_error + string option) \<Rightarrow> bool" where
  "saved_now target s path r rt p \<longleftrightarrow> later rt (fst p)
     \<and> (case snd p of
          Inr None \<Rightarrow> log (fst p) = log rt \<and> rg_state r = SsAbsent
        | Inr (Some saved) \<Rightarrow> saved = s \<and> log (fst p) = log rt @ saved_before target (Some s) (path, r)
        | Inl _ \<Rightarrow> log (fst p) = log rt \<or> log (fst p) = log rt @ [BackedUp target s path False])"

lemma saved_call:
  assumes "rg_state r \<noteq> SsAbsent"
  shows "saved_now target s path r rt
     (case on_world (noting (\<lambda>r. BackedUp target s path (succeeded r)) f) rt of
        (rt', saved) \<Rightarrow> (rt', res_bind saved (\<lambda>_. Inr (Some s))))"
  using assms
  by (cases "f (fst (rn_world rt))"; cases "snd (f (fst (rn_world rt)))")
     (auto simp: saved_now_def saved_before_def on_world_def noting_def log_def)

lemma not_saved: "saved_now target s path r rt (rt, Inl e)"
  by (simp add: saved_now_def)

lemma save_current_saves: "saved_now target s path r rt (save_current (recorded mc) target path r s content rt)"
proof (cases "rg_state r")
  case SsAbsent
  then show ?thesis by (simp add: save_current_def saved_now_def)
next
  case (SsFile a b)
  then show ?thesis
    by (auto simp: save_current_def recorded_def not_saved saved_call
        split: backup_record.split option.split sum.split)
next
  case (SsSymlink a b)
  then show ?thesis
    by (auto simp: save_current_def recorded_def not_saved saved_call
        split: backup_record.split option.split sum.split)
qed (simp_all add: save_current_def not_saved)

lemma save_and_restore_restores:
  "restores target (Some s) (path, r) rt
     (save_and_restore hex (recorded mc) (recorded_store bk) target path r s content rt)"
proof -
  obtain rt1 saved where save: "save_current (recorded mc) target path r s content rt = (rt1, saved)"
    by (cases "save_current (recorded mc) target path r s content rt")
  have now: "saved_now target s path r rt (rt1, saved)" using save_current_saves[of target s path r rt mc content] save by simp
  consider (failed) e where "saved = Inl e" | (absent) "saved = Inr None" | (saved) t where "saved = Inr (Some t)"
    by (cases saved) (auto simp: not_None_eq[symmetric])
  then show ?thesis
  proof cases
    case failed
    then show ?thesis using now
      by (auto simp: save_and_restore_def save saved_now_def restores_def restored_as_def)
  next
    case absent
    have q: "quiet_since rt rt1" and state: "rg_state r = SsAbsent"
      using now absent by (simp_all add: saved_now_def quiet_since_def)
    have "adds (restore_calls (place_of target rt1) (snd (path, r))) rt1
        (restore_one hex (recorded mc) target r BfAbsent rt1)"
      using restore_one_adds by simp
    from restores_behind[OF _ _ this, of rt "Some s"] show ?thesis
      using q state absent by (simp add: save_and_restore_def save quiet_since_def saved_before_def)
  next
    case (saved t)
    have l: "later rt rt1" "log rt1 = log rt @ saved_before target (Some s) (path, r)"
      using now saved by (simp_all add: saved_now_def)
    obtain rt2 found where read: "on_world (bk_read (recorded_store bk) target t path) rt1 = (rt2, found)"
      by (cases "on_world (bk_read (recorded_store bk) target t path) rt1")
    have q: "quiet_since rt1 rt2"
      using quiet_store.after_read_record[of rt1 rt1 bk target t path] read by (simp add: after_def)
    have l2: "later rt rt2" "log rt2 = log rt @ saved_before target (Some s) (path, r)"
      using l q later_trans[of rt rt1 rt2] by (simp_all add: quiet_since_def)
    have one: "adds (restore_calls (place_of target rt2) (snd (path, r))) rt2
        (restore_one hex (recorded mc) target r before rt2)" for before
      using restore_one_adds by simp
    have stop: "restores target (Some s) (path, r) rt (rt2, out)" for out :: "restore_outcome option"
      using l2 by (auto simp: restores_def restored_as_def)
    show ?thesis
    proof (cases "before_from_saved found")
      case (Inl e)
      then show ?thesis using stop by (simp add: save_and_restore_def save saved read)
    next
      case (Inr before)
      let ?b = "case before of Some b \<Rightarrow> b | None \<Rightarrow> BfUnknown"
      have "restores target (Some s) (path, r) rt (restore_one hex (recorded mc) target r ?b rt2)"
        by (rule restores_behind[OF l2 one])
      then show ?thesis
        by (simp add: save_and_restore_def save saved read Inr restores_def split_beta)
    qed
  qed
qed

lemma restore_in_turn_restores:
  "restores target session x rt (restore_in_turn hex (recorded mc) (recorded_store bk) target session contents befores x rt)"
proof (cases x)
  case (Pair path r)
  have refused: "restores target session (path, r) rt (rt, out)" for out :: "restore_outcome option"
    by (rule restores_quiet) simp
  show ?thesis
  proof (cases session)
    case None
    then show ?thesis unfolding Pair
      by (auto simp: restore_in_turn_def refused[unfolded None] restores_unsaved split: side_state.split sum.split)
  next
    case (Some s)
    then show ?thesis unfolding Pair
      by (cases contents; cases "is_file (Some (rg_state r))") (auto simp: restore_in_turn_def refused[unfolded Some] save_and_restore_restores)
  qed
qed

subsection \<open>A session\<close>

text \<open>What restoring does to the target: one piece of calls for each path that is restored.\<close>

definition restored_all ::
  "side \<Rightarrow> string option \<Rightarrow> restorings \<Rightarrow> 'w recording runtime \<Rightarrow> 'w recording runtime \<Rightarrow> bool" where
  "restored_all target session rs rt rt' \<longleftrightarrow> later rt rt'
     \<and> (\<exists>pieces. log rt' = log rt @ concat pieces
          \<and> list_all2 (restored_as (place_of target rt) target session) rs pieces)"

lemma restored_nothing:
  assumes "quiet_since rt rt'"
  shows "restored_all target session rs rt rt'"
  unfolding restored_all_def
proof (intro conjI exI)
  show "later rt rt'" "log rt' = log rt @ concat (replicate (length rs) [])"
    using assms by (simp_all add: quiet_since_def)
  show "list_all2 (restored_as (place_of target rt) target session) rs (replicate (length rs) [])"
    by (simp add: list_all2_conv_all_nth restored_as_def)
qed

lemma restored_around:
  assumes "quiet_since rt a" "restored_all target session rs a b" "quiet_since b rt'"
  shows "restored_all target session rs rt rt'"
proof -
  have l: "later rt a" "later a b" "later b rt'" "log a = log rt" "log rt' = log b"
    using assms by (simp_all add: restored_all_def quiet_since_def)
  have "later rt rt'" using later_trans[OF later_trans[OF l(1,2)] l(3)] .
  then show ?thesis using assms(2) by (simp add: restored_all_def l(4,5) later_place[OF l(1)])
qed

lemma restored_Cons:
  assumes "restores target session x rt p" "restored_all target session rs (fst p) rt'"
  shows "restored_all target session (x # rs) rt rt'"
proof -
  obtain calls where c: "later rt (fst p)" "log (fst p) = log rt @ calls"
      "restored_as (place_of target rt) target session x calls"
    using assms(1) by (auto simp: restores_def)
  obtain pieces where b: "later (fst p) rt'" "log rt' = log (fst p) @ concat pieces"
      "list_all2 (restored_as (place_of target rt) target session) rs pieces"
    using assms(2) by (auto simp: restored_all_def later_place[OF c(1)])
  show ?thesis unfolding restored_all_def
    using c b later_trans[OF c(1) b(1)] by (intro conjI exI[of _ "calls # pieces"]) simp_all
qed

lemma restore_loop_restores:
  "restored_all target session rs rt
     (fst (restore_loop hex (recorded mc) (recorded_store bk) target session contents befores rs rt))"
proof (induction rs arbitrary: rt)
  case (Cons x rs)
  obtain rt1 out where one: "restore_in_turn hex (recorded mc) (recorded_store bk) target session contents befores x rt = (rt1, out)"
    by (cases "restore_in_turn hex (recorded mc) (recorded_store bk) target session contents befores x rt")
  have r: "restores target session x rt (rt1, out)"
    using restore_in_turn_restores[of target session x rt hex mc bk contents befores] by (simp add: one)
  have "restored_all target session rs rt1
      (fst (restore_loop hex (recorded mc) (recorded_store bk) target session contents befores (x # rs) rt))"
    using Cons.IH[of rt1] by (cases out) (auto simp: one split_beta restored_nothing)
  then show ?case using restored_Cons[OF r] by simp
qed (simp add: restored_nothing)

lemma quiet_ask_before: "after (quiet_since rt) (ask_before_restore (recorded mc) target rs force session rt)"
  unfolding ask_before_restore_def hashes_before_restore_def contents_to_save_def Let_def
  by (cases session) (auto intro!: after_rules target_readsD[OF quiet.for_side_reads])

lemma quiet_session_for: "after (quiet_since rt) (session_for (recorded_store bk) target rs rt)"
  unfolding session_for_def by (intro after_rules quiet_store.after_reserve_session quiet_since_refl)

definition session_kept :: "'w runtime \<Rightarrow> string option \<Rightarrow> restorings \<Rightarrow> bool" where
  "session_kept rt session rs \<longleftrightarrow>
     (bc_enabled (cf_backup (rn_config rt)) \<and> list_ex (\<lambda>(_, r). rg_state r \<noteq> SsAbsent) rs \<longrightarrow> session \<noteq> None)"

lemma session_for_kept: "session_for (recorded_store bk) target rs rt = (rt', Inr session) \<Longrightarrow> session_kept rt session rs"
  by (auto simp: session_for_def session_kept_def list_ex_iff res_simps split: if_splits prod.splits)

lemma restore_paths_restores:
  "\<exists>session. restored_all target session rs rt
       (fst (restore_paths hex (recorded mc) (recorded_store bk) target rs force rt))
     \<and> (session_kept rt session rs
        \<or> quiet_since rt (fst (restore_paths hex (recorded mc) (recorded_store bk) target rs force rt)))"
proof -
  let ?run = "restore_paths hex (recorded mc) (recorded_store bk) target rs force rt"
  obtain rt1 r where start: "session_for (recorded_store bk) target rs rt = (rt1, r)"
    by (cases "session_for (recorded_store bk) target rs rt")
  have q1: "quiet_since rt rt1" using quiet_session_for[of rt bk target rs] by (simp add: start after_def)
  show ?thesis
  proof (cases r)
    case (Inl e)
    then show ?thesis using q1 by (auto simp: restore_paths_def start restored_nothing)
  next
    case (Inr session)
    obtain rt2 befores contents where ask: "ask_before_restore (recorded mc) target rs force session rt1 = (rt2, befores, contents)"
      by (cases "ask_before_restore (recorded mc) target rs force session rt1")
    have "quiet_since rt1 rt2" using quiet_ask_before[of rt1 mc target rs force session] by (simp add: ask after_def)
    then have q2: "quiet_since rt rt2" using q1 later_trans[of rt rt1 rt2] by (simp add: quiet_since_def)
    let ?loop = "restore_loop hex (recorded mc) (recorded_store bk) target session contents befores rs rt2"
    define middle where "middle = (if root_gone_before_restore target rs contents befores rt2 = None then ?loop else (rt2, Some []))"
    have m: "restored_all target session rs rt2 (fst middle)"
      using restore_loop_restores[of target session rs rt2] by (simp add: middle_def restored_nothing)
    have run: "?run = (case middle of
                  (rt3, None) \<Rightarrow> (rt3, None)
                | (rt3, Some done) \<Rightarrow>
                    (case session of Some s \<Rightarrow> finish_backup_session (recorded_store bk) s rt3 | None \<Rightarrow> rt3,
                     Some (Inr (case root_gone_before_restore target rs contents befores rt2 of Some outcomes \<Rightarrow> outcomes | None \<Rightarrow> done))))"
      by (simp only: restore_paths_def start Inr prod.case sum.case ask Let_def middle_def)
    have "quiet_since (fst middle) (fst ?run)"
      unfolding run by (cases middle; cases "snd middle") (auto simp: quiet_finish split: option.split)
    from restored_around[OF q2 m this] session_for_kept[OF start[unfolded Inr]] show ?thesis by blast
  qed
qed

text \<open>A path is only restored when the target is judged as the record has it: the same real path, or the
  parent and link that were replaced.\<close>

definition restorable :: "restoring \<Rightarrow> bool" where
  "restorable r \<longleftrightarrow>
     (\<exists>kind entry parent. recorded_of (rg_record r) = Inr kind
        \<and> judge_restore kind (FactsResolved (rg_state r) entry parent) = JudgedEntry Restore)"

lemma final_restore: "final_entry unresolvable blocking j = Restore \<longleftrightarrow>
    j = JudgedEntry Restore \<and> unresolvable = None \<and> blocking = None"
  by (auto simp: final_entry_def split: judged.splits option.splits restore_entry.splits)

lemma res_collect_nth:
  "res_collect f xs = Inr ys \<Longrightarrow> length ys = length xs \<and> (\<forall>i < length xs. f (xs ! i) = Inr (ys ! i))"
  by (auto simp: res_collect_Inr list_all2_conv_all_nth)

lemma planned_restorable:
  assumes "plan_restores paths entries records facts = Inr planned" "(path, Some r, out) \<in> set planned"
  shows "restorable r"
proof -
  obtain kinds where kinds: "res_collect recorded_of (map fst (zip records (zip paths facts))) = Inr kinds"
    using assms(1) by (auto simp: plan_restores_def res_simps)
  let ?plan = "rollback_plan (zip paths (zip kinds facts))"
  have planned: "planned = map (\<lambda>(x, y). (fst x, planned_outcome (x, y)))
      (zip (zip paths (zip entries records)) (zip facts (map snd ?plan)))"
    using assms(1) kinds by (simp add: plan_restores_def Let_def)
  then obtain i where i: "i < length paths" "i < length entries" "i < length records" "i < length facts" "i < length ?plan"
      "planned_outcome ((paths ! i, entries ! i, records ! i), facts ! i, snd (?plan ! i)) = (Some r, out)"
    using assms(2) unfolding planned by (auto simp: in_set_conv_nth)
  have k: "i < length kinds" "recorded_of (records ! i) = Inr (kinds ! i)"
    using res_collect_nth[OF kinds] i by auto
  have plan: "snd (?plan ! i) = Restore"
      and r: "\<exists>entry parent. facts ! i = FactsResolved (rg_state r) entry parent \<and> rg_record r = records ! i"
    using i(6) by (auto simp: planned_outcome_def split: restore_entry.splits target_facts.splits)
  have "judge_restore (kinds ! i) (facts ! i) = JudgedEntry Restore"
    using plan i k(1) by (simp add: rollback_plan_def Let_def final_restore split_beta)
  then show ?thesis using r k(2) unfolding restorable_def by metis
qed

lemma set_bt_of_subset: "set (bt_of kvs) \<subseteq> set kvs"
proof
  fix x assume "x \<in> set (bt_of kvs)"
  then have "map_of (bt_of kvs) (fst x) = Some (snd x)"
    using bt_ok_map_of[OF bt_ok_of, of "fst x" "snd x" kvs] by simp
  then show "x \<in> set kvs" by (auto simp: map_of_bt_of dest: map_of_SomeD)
qed

lemma restorings_restorable:
  assumes "plan_restores paths entries records facts = Inr planned"
  shows "list_all (\<lambda>(_, r). restorable r) (restorings_of planned)"
  unfolding list_all_iff
proof
  fix x assume "x \<in> set (restorings_of planned)"
  then have "x \<in> set (List.map_filter (\<lambda>(path, r, _). map_option (Pair path) r) planned)"
    using set_bt_of_subset by (auto simp: restorings_of_def)
  then obtain out where "(fst x, Some (snd x), out) \<in> set planned"
    by (auto simp: List.map_filter_def split: option.splits)
  from planned_restorable[OF assms this] show "case x of (_, r) \<Rightarrow> restorable r" by (cases x) simp
qed

text \<open>What a rollback does to its target.\<close>

definition rolls_back_only :: "side \<Rightarrow> bool \<Rightarrow> 'w recording runtime \<Rightarrow> 'w recording runtime \<Rightarrow> bool" where
  "rolls_back_only target dry_run rt rt' \<longleftrightarrow>
     (\<exists>session rs. restored_all target session rs rt rt' \<and> list_all (\<lambda>(_, r). restorable r) rs
        \<and> session_kept rt session rs \<and> (dry_run \<longrightarrow> rs = []))"

lemma rolls_back_nothing: "quiet_since rt rt' \<Longrightarrow> rolls_back_only target dry_run rt rt'"
  unfolding rolls_back_only_def
  by (intro exI[of _ None] exI[of _ "[]"]) (simp add: restored_nothing session_kept_def)

lemma rolls_back_after:
  assumes "quiet_since rt a" "rolls_back_only target dry_run a rt'"
  shows "rolls_back_only target dry_run rt rt'"
proof -
  obtain session rs where c: "restored_all target session rs a rt'" "list_all (\<lambda>(_, r). restorable r) rs"
      "session_kept a session rs" "dry_run \<longrightarrow> rs = []"
    using assms(2) unfolding rolls_back_only_def by blast
  have "rn_config a = rn_config rt" using assms(1) by (simp add: quiet_since_def config_later)
  then have "session_kept rt session rs" using c(3) by (simp add: session_kept_def)
  then show ?thesis
    using restored_around[OF assms(1) c(1) quiet_since_refl] c(2,4) unfolding rolls_back_only_def by blast
qed

lemma rolls_back_bind:
  assumes "after (quiet_since rt) (f rt)"
    and "\<And>x rt1. quiet_since rt rt1 \<Longrightarrow> f rt = (rt1, Inr x) \<Longrightarrow> rolls_back_only target dry_run rt1 (fst (g x rt1))"
  shows "rolls_back_only target dry_run rt (fst (run_bind f g rt))"
proof -
  obtain rt1 r where f: "f rt = (rt1, r)" by (cases "f rt")
  then have q: "quiet_since rt rt1" using assms(1) by (simp add: after_def)
  show ?thesis
    using rolls_back_after[OF q assms(2)[OF q]] rolls_back_nothing[OF q] by (cases r) (simp_all add: run_bind_def f)
qed

lemma restore_planned_only:
  assumes "list_all (\<lambda>(_, r). restorable r) (restorings_of planned)"
  shows "rolls_back_only target dry_run rt
     (fst (restore_planned hex (recorded mc) (recorded_store bk) target planned dry_run force rt))"
proof (cases "dry_run \<or> restorings_of planned = []")
  case True
  then show ?thesis by (auto simp: restore_planned_def rolls_back_nothing)
next
  case False
  then have "fst (restore_planned hex (recorded mc) (recorded_store bk) target planned dry_run force rt)
      = fst (restore_paths hex (recorded mc) (recorded_store bk) target (restorings_of planned) force rt)"
    by (simp add: restore_planned_def Let_def split_beta)
  then show ?thesis
    using restore_paths_restores[of target "restorings_of planned" rt hex mc bk force] assms False rolls_back_nothing
    unfolding rolls_back_only_def by metis
qed

lemma restore_session_only:
  "rolls_back_only target dry_run rt
     (fst (restore_session hex (recorded mc) (recorded_store bk) target session paths dry_run force rt))"
proof (cases "res_collect entry_parse paths")
  case (Inr entries)
  obtain rt1 r where read: "read_records (recorded_store bk) target session paths rt = (rt1, r)"
    by (cases "read_records (recorded_store bk) target session paths rt")
  have q1: "quiet_since rt rt1"
    using quiet_store.after_read_records[of rt rt bk target session paths] by (simp add: read after_def)
  show ?thesis
  proof (cases r)
    case (Inl e)
    then show ?thesis using q1 by (simp add: restore_session_def Inr read rolls_back_nothing)
  next
    case records: (Inr records)
    obtain rt2 f where facts: "rollback_facts (recorded mc) target entries rt1 = (rt2, f)"
      by (cases "rollback_facts (recorded mc) target entries rt1")
    have "quiet_since rt1 rt2"
      using quiet_store.after_rollback_facts[of rt1 rt1 mc target entries] by (simp add: facts after_def)
    then have q2: "quiet_since rt rt2" using q1 later_trans[of rt rt1 rt2] by (simp add: quiet_since_def)
    show ?thesis
      using q2 rolls_back_after[OF q2 restore_planned_only[OF restorings_restorable]]
      by (auto simp: restore_session_def Inr read records facts rolls_back_nothing split: sum.split)
  qed
qed (simp add: restore_session_def rolls_back_nothing)

lemma rollback_chosen_only:
  "rolls_back_only side (ra_dry_run args) rt
     (fst (rollback_session_chosen hex (recorded mc) (recorded_store bk) args answer side target session rt))"
  unfolding rollback_session_chosen_def
proof (rule rolls_back_bind, goal_cases)
  case 1
  show ?case by (intro after_run_act quiet_store.after_connect_side quiet_since_refl)
next
  case (2 x rt1)
  show ?case
  proof (rule rolls_back_bind, goal_cases)
    case 1
    show ?case by (simp add: after_run_act after_run_return after_pair)
  next
    case (2 go_on rt2)
    have "fst (restore_chosen hex (recorded mc) (recorded_store bk) args side target session rt2)
        = fst (restore_session hex (recorded mc) (recorded_store bk) side (bs_session_id session)
            (map be_path (bs_files session)) (ra_dry_run args) (ra_force args) rt2)"
      by (simp add: restore_chosen_def split: prod.split option.split sum.split)
    then show ?case by (simp add: run_return_def rolls_back_nothing restore_session_only)
  qed
qed

lemma rollback_run:
  assumes "res_bind (parse_text_or_json (ra_format args)) (\<lambda>_. resolve_target (ra_target args) (ra_list args)) = Inr side"
  shows "rolls_back_only side (ra_dry_run args) rt
         (fst (execute_rollback hex (recorded mc) (recorded_store bk) tf now args answer rt))"
  unfolding assms sum.case execute_rollback_def
proof (rule rolls_back_bind, goal_cases)
  case 1
  show ?case by (intro after_run_act quiet_store.after_sessions quiet_since_refl)
next
  case (2 sessions rt1)
  show ?case by (simp add: Let_def rolls_back_nothing rollback_chosen_only split: sum.split)
qed


subsection \<open>Dry runs\<close>

lemma rolls_back_dry: "rolls_back_only target True rt rt' \<Longrightarrow> log rt' = log rt"
  by (auto simp: rolls_back_only_def restored_all_def)

lemma rollback_dry:
  assumes "ra_dry_run args"
  shows "log (fst (execute_rollback hex (recorded mc) (recorded_store bk) tf now args answer rt)) = log rt"
proof (cases "res_bind (parse_text_or_json (ra_format args)) (\<lambda>_. resolve_target (ra_target args) (ra_list args))")
  case (Inr side)
  from rollback_run[OF this, of rt hex mc bk tf now answer] assms show ?thesis
    by (intro rolls_back_dry) simp
qed (simp add: execute_rollback_def)

text \<open>C5: --dry-run changes nothing. A merge, a sync or a rollback that is only tried out makes no call that
  writes, removes, links or changes permissions on any side and saves no backup, whatever else its
  arguments are, whatever the user answers and whatever the machines and the store answer.\<close>

theorem dry_runs_change_nothing:
  assumes "ma_dry_run merge" "sa_dry_run sync" "ra_dry_run rollback"
  shows "log (fst (execute_merge hex d glob line_diff (recorded mc) (recorded_store bk) merge rt)) = log rt
    \<and> log (fst (execute_sync hex (recorded mc) (recorded_store bk) sync answer rt)) = log rt
    \<and> log (fst (execute_rollback hex (recorded mc) (recorded_store bk) tf now rollback answer rt)) = log rt"
  by (intro conjI merge_dry sync_dry rollback_dry assms)

definition recorded_run :: "nat recording runtime" where
  "recorded_run =
     \<lparr>rn_world = (0, []), rn_ssh = {}, rn_agents = {}, rn_chosen = {}, rn_config = rn_config web_run,
      rn_overrides = Map.empty, rn_stopped = [], rn_checked_include = []\<rparr>"

definition try_rollback :: rollback_args where
  "try_rollback =
     \<lparr>ra_target = Some ''web'', ra_list = False, ra_session = None, ra_dry_run = True, ra_force = False, ra_format = ''text''\<rparr>"

theorem dry_runs_change_nothing_witness:
  "log (fst (execute_merge (\<lambda>bs. bs) \<lparr>euc_jp = (\<lambda>_. None), shift_jis = (\<lambda>_. None)\<rparr> (\<lambda>_ _. False) (\<lambda>_ _. [])
       (recorded flaky_machine) (recorded_store empty_store) try_merge recorded_run)) = []
   \<and> log (fst (execute_sync (\<lambda>bs. bs) (recorded flaky_machine) (recorded_store empty_store) try_sync (Inr ''y'') recorded_run)) = []
   \<and> log (fst (execute_rollback (\<lambda>bs. bs) (recorded flaky_machine) (recorded_store empty_store)
       \<lparr>tf_show = (\<lambda>_. []), tf_parse = (\<lambda>_. None)\<rparr> 0 try_rollback (Inr ''y'') recorded_run)) = []"
proof -
  have dry: "ma_dry_run try_merge" "sa_dry_run try_sync" "ra_dry_run try_rollback"
    by (simp_all add: try_merge_def try_sync_def try_rollback_def)
  have "log recorded_run = []" by (simp add: log_def recorded_run_def)
  then show ?thesis using dry_runs_change_nothing[OF dry, of "\<lambda>bs. bs" _ _ _ flaky_machine empty_store recorded_run] by metis
qed

subsection \<open>All or nothing\<close>

text \<open>What makes a path of a session restorable, written out.\<close>

definition as_recorded :: "restore_record \<Rightarrow> target_facts \<Rightarrow> bool" where
  "as_recorded r facts \<longleftrightarrow>
     (case (r, facts) of
        (RecordedFile real, FactsResolved (SsFile _ _) (ResolvedExists p EkFile) _) \<Rightarrow> path_eq p real
      | (RecordedFile real, FactsResolved SsAbsent (ResolvedMissing parent True) _) \<Rightarrow>
          parent_parts real = Some (path_parts parent)
      | (RecordedLink link real, FactsResolved (SsSymlink target _) _ (ResolvedExists p _)) \<Rightarrow>
          target = link \<and> path_eq p real
      | (RecordedLink link real, FactsResolved (SsSymlink target _) _ (ResolvedSymlink _ p _)) \<Rightarrow>
          target = link \<and> path_eq p real
      | _ \<Rightarrow> False)"

lemma judged_restore: "judge_restore r facts = JudgedEntry Restore \<longleftrightarrow> as_recorded r facts"
  by (cases r; cases facts)
     (auto simp: judge_restore_def as_recorded_def judge_file_def judge_link_def
        split: side_state.split resolved_path.split existing_kind.split bool.split)

text \<open>C11: rollback restores a session whole or not at all. A path is planned to be restored exactly when it is as it
  was recorded (its file at the same real path, or missing below the same parent, or its link with the
  target the merge wrote in the same directory) and no path of the session, this or another, was found
  at another location, changed or unresolvable.\<close>

theorem rollback_plan_all_or_nothing:
  "(path, Restore) \<in> set (rollback_plan xs) \<longleftrightarrow>
     (\<exists>r facts. (path, r, facts) \<in> set xs \<and> as_recorded r facts)
     \<and> list_all (\<lambda>(_, r, facts). blocking_reason (judge_restore r facts) = None
          \<and> unresolvable_cause (judge_restore r facts) = None) xs"
proof -
  let ?js = "map (\<lambda>(path, r, facts). (path, judge_restore r facts)) xs"
  let ?u = "find_map (\<lambda>(_, j). unresolvable_cause j) ?js" and ?b = "find_map (\<lambda>(_, j). blocking_reason j) ?js"
  have "set (rollback_plan xs) = (\<lambda>(path, r, facts). (path, final_entry ?u ?b (judge_restore r facts))) ` set xs"
    by (simp add: rollback_plan_def Let_def image_image split_beta)
  then have "(path, Restore) \<in> set (rollback_plan xs) \<longleftrightarrow>
      (\<exists>r facts. (path, r, facts) \<in> set xs \<and> final_entry ?u ?b (judge_restore r facts) = Restore)"
    by (force simp: image_iff)
  also have "\<dots> \<longleftrightarrow> (\<exists>r facts. (path, r, facts) \<in> set xs \<and> as_recorded r facts) \<and> ?u = None \<and> ?b = None"
    by (auto simp: final_restore judged_restore)
  also have "?u = None \<and> ?b = None \<longleftrightarrow> list_all (\<lambda>(_, r, facts). blocking_reason (judge_restore r facts) = None
          \<and> unresolvable_cause (judge_restore r facts) = None) xs"
    by (auto simp: find_map_None list_all_iff)
  finally show ?thesis .
qed

end
