(* ===== verification/BackupStore.thy ===== *)
theory BackupStore
  imports Rollback Connection
begin

text \<open>
  The store of backups (\<open>backup_store.rs\<close> and \<open>backup_store_cleanup.rs\<close> of remote-merge-engine):
  reserving a session, preparing the area of a target, saving a file or a link, tidying up, listing the
  sessions, reading a record and removing what has expired. The calls of \<open>std::fs\<close> are the record
  \<open>store_calls\<close>, functions of a state that any of them may change; a file that was opened is named by
  its path. The entries of a directory are read when it is opened. JSON is serde's and chrono writes and
  reads instants; SHA-256 as hex is \<open>hex\<close>. Warnings of the log are left out.
\<close>

subsection \<open>The calls\<close>

record 'w store_calls =
  fs_create_dir_all :: "string \<Rightarrow> nat \<Rightarrow> 'w \<Rightarrow> 'w \<times> (io_error + unit)"
  fs_create_dir :: "string \<Rightarrow> 'w \<Rightarrow> 'w \<times> (io_error + unit)"
  fs_set_mode :: "string \<Rightarrow> nat \<Rightarrow> 'w \<Rightarrow> 'w \<times> (io_error + unit)"
  fs_open :: "string \<Rightarrow> nat \<Rightarrow> 'w \<Rightarrow> 'w \<times> (io_error + unit)"
  fs_write_all :: "string \<Rightarrow> bytes \<Rightarrow> 'w \<Rightarrow> 'w \<times> (io_error + unit)"
  fs_rename :: "string \<Rightarrow> string \<Rightarrow> 'w \<Rightarrow> 'w \<times> (io_error + unit)"
  fs_remove_dir :: "string \<Rightarrow> 'w \<Rightarrow> 'w \<times> (io_error + unit)"
  fs_remove_dir_all :: "string \<Rightarrow> 'w \<Rightarrow> 'w \<times> (io_error + unit)"
  fs_read :: "string \<Rightarrow> 'w \<Rightarrow> 'w \<times> (io_error + bytes)"
  fs_read_dir :: "string \<Rightarrow> 'w \<Rightarrow> 'w \<times> (io_error + (io_error + string) list)"
  fs_len :: "string \<Rightarrow> 'w \<Rightarrow> 'w \<times> (io_error + u64)"
  fs_exists :: "string \<Rightarrow> 'w \<Rightarrow> 'w \<times> bool"
  st_sequence :: "'w \<Rightarrow> 'w \<times> u64"
  st_process :: nat
  st_clock :: "'w \<Rightarrow> 'w \<times> int"

datatype stored_record =
    StoredFile string string
  | StoredSymlink string string "string option" "string option"

type_synonym stored_backup = stored_record

text \<open>What serde makes of a record: its bytes, or a failure; and a record read back, or the words of its error.\<close>

record record_json =
  rj_write :: "stored_backup \<Rightarrow> run_error + bytes"
  rj_read :: "bytes \<Rightarrow> string + stored_record"

datatype reservation_time = SystemTime | FixedTime int

record backup_store =
  bst_root :: "string option"
  bst_startup_directory :: string
  bst_now :: int
  bst_reservation_time :: reservation_time

definition reservation_now :: "'w store_calls \<Rightarrow> reservation_time \<Rightarrow> 'w \<Rightarrow> 'w \<times> int" where
  "reservation_now fc t w = (case t of SystemTime \<Rightarrow> st_clock fc w | FixedTime time \<Rightarrow> (w, time))"

subsection \<open>Steps that may fail\<close>

definition st_bind :: "('w \<Rightarrow> 'w \<times> ('e + 'a)) \<Rightarrow> ('a \<Rightarrow> 'w \<Rightarrow> 'w \<times> ('e + 'b)) \<Rightarrow> 'w \<Rightarrow> 'w \<times> ('e + 'b)" where
  "st_bind f g w = (case f w of (w', Inl e) \<Rightarrow> (w', Inl e) | (w', Inr x) \<Rightarrow> g x w')"

definition st_map_err :: "('e \<Rightarrow> 'f) \<Rightarrow> ('w \<Rightarrow> 'w \<times> ('e + 'a)) \<Rightarrow> 'w \<Rightarrow> 'w \<times> ('f + 'a)" where
  "st_map_err g f w = (case f w of (w', r) \<Rightarrow> (w', res_map_err g r))"

definition st_result :: "'e + 'a \<Rightarrow> 'w \<Rightarrow> 'w \<times> ('e + 'a)" where
  "st_result r w = (w, r)"

definition io_run_error :: "io_error \<Rightarrow> run_error" where
  "io_run_error e = [CauseOther (RcIo False (io_shown e))]"

definition store_failure :: "string \<Rightarrow> io_error \<Rightarrow> run_error" where
  "store_failure path e =
     run_error_text (''backup store could not be prepared: '' @ utf8_lossy path @ '': '' @ io_shown e)"

definition unreadable_store :: "string \<Rightarrow> io_error \<Rightarrow> run_error" where
  "unreadable_store path e =
     run_error_text (''backup store could not be read: '' @ utf8_lossy path @ '': '' @ io_shown e)"

definition unless_not_found :: "io_error + 'a \<Rightarrow> string \<Rightarrow> run_error + 'a option" where
  "unless_not_found r path =
     (case r of
        Inr x \<Rightarrow> Inr (Some x)
      | Inl e \<Rightarrow> if io_kind e = KNotFound then Inr None else Inl (unreadable_store path e))"

definition or_missing :: "('w \<Rightarrow> 'w \<times> (io_error + 'a)) \<Rightarrow> string \<Rightarrow> 'w \<Rightarrow> 'w \<times> (run_error + 'a option)" where
  "or_missing f path w = (case f w of (w', r) \<Rightarrow> (w', unless_not_found r path))"

definition store_root :: "backup_store \<Rightarrow> run_error + string" where
  "store_root bs = ok_or (run_error_text ''backup store location could not be determined'') (bst_root bs)"

subsection \<open>Directories and files of the owner\<close>

definition dir_mode :: nat where
  "dir_mode = 0x1C0"

definition file_mode :: nat where
  "file_mode = 0x180"

definition set_dir_permissions :: "'w store_calls \<Rightarrow> string \<Rightarrow> 'w \<Rightarrow> 'w \<times> (io_error + unit)" where
  "set_dir_permissions fc path = fs_set_mode fc path dir_mode"

definition create_dir_owner_only :: "'w store_calls \<Rightarrow> string \<Rightarrow> 'w \<Rightarrow> 'w \<times> (io_error + unit)" where
  "create_dir_owner_only fc path =
     st_bind (fs_create_dir_all fc path dir_mode) (\<lambda>_. set_dir_permissions fc path)"

definition write_file_owner_only :: "'w store_calls \<Rightarrow> string \<Rightarrow> bytes \<Rightarrow> 'w \<Rightarrow> 'w \<times> (io_error + unit)" where
  "write_file_owner_only fc path content =
     st_bind (fs_open fc path file_mode) (\<lambda>_.
     st_bind (fs_write_all fc path content) (\<lambda>_. fs_set_mode fc path file_mode))"

text \<open>Removing an empty directory; whatever it comes to, the command goes on.\<close>

definition tidy :: "'w store_calls \<Rightarrow> string \<Rightarrow> 'w \<Rightarrow> 'w" where
  "tidy fc path w = fst (fs_remove_dir fc path w)"

subsection \<open>The key of a target\<close>

definition target_description :: "app_config \<Rightarrow> side \<Rightarrow> string \<Rightarrow> run_error + string" where
  "target_description config target startup_directory =
     (case target of
        LocalSide \<Rightarrow> Inr (utf8_lossy (local_target_identity (cf_local_root config) startup_directory))
      | RemoteSide name \<Rightarrow>
          res_bind (ok_or (run_error_text (''Server '' @ single_quoted name @ '' not found in config''))
              (map_of (cf_servers config) name)) (\<lambda>server.
            (let identity = remote_target_identity server
             in Inr (rti_host identity @ '':'' @ show_nat (unat (rti_port identity)) @ '':''
                  @ utf8_lossy (rti_root_dir identity)))))"

definition target_key :: "(bytes \<Rightarrow> string) \<Rightarrow> app_config \<Rightarrow> side \<Rightarrow> string \<Rightarrow> run_error + string" where
  "target_key hex config target startup_directory =
     res_bind (target_description config target startup_directory) (\<lambda>description. Inr (hex description))"

definition configured_target_keys :: "(bytes \<Rightarrow> string) \<Rightarrow> app_config \<Rightarrow> string \<Rightarrow> run_error + string list" where
  "configured_target_keys hex config startup_directory =
     res_collect (\<lambda>target. target_key hex config target startup_directory)
       (LocalSide # map RemoteSide (map fst (cf_servers config)))"

subsection \<open>Reserving a session\<close>

text \<open>The loop ends when a name was free, or cannot be taken for another reason; None is a loop that goes on forever.\<close>

definition exhausted_text :: string where
  "exhausted_text =
     ''backup session id could not be allocated: the sequence for this time is at its maximum''"

partial_function (option) reserve_loop ::
  "'w store_calls \<Rightarrow> time_format \<Rightarrow> string \<Rightarrow> int \<Rightarrow> string list \<Rightarrow> 'w \<Rightarrow> ('w \<times> (run_error + string)) option" where
  "reserve_loop fc tf reservations reserved_at existing w =
     (case next_session_id tf reserved_at existing of
        Inl _ \<Rightarrow> Some (w, Inl (run_error_text exhausted_text))
      | Inr new_id \<Rightarrow>
          (let reservation = path_join reservations new_id;
               made = fs_create_dir fc reservation w
           in case snd made of
                Inr _ \<Rightarrow>
                  Some (st_bind (st_map_err io_run_error (set_dir_permissions fc reservation))
                    (\<lambda>_. st_result (Inr new_id)) (fst made))
              | Inl e \<Rightarrow>
                  if io_kind e = KAlreadyExists
                  then reserve_loop fc tf reservations reserved_at (existing @ [new_id]) (fst made)
                  else Some (fst made, Inl (store_failure reservation e))))"

definition utf8_names :: "(io_error + string) list \<Rightarrow> string list" where
  "utf8_names entries = filter is_utf8 (List.map_filter (\<lambda>r. case r of Inr name \<Rightarrow> Some name | Inl _ \<Rightarrow> None) entries)"

definition prepare_reservations :: "'w store_calls \<Rightarrow> string \<Rightarrow> 'w \<Rightarrow> 'w \<times> (run_error + string list)" where
  "prepare_reservations fc root =
     (let reservations = path_join root ''reservations'' in
      st_bind (st_map_err (store_failure root) (create_dir_owner_only fc root)) (\<lambda>_.
      st_bind (st_map_err (store_failure reservations) (create_dir_owner_only fc reservations)) (\<lambda>_.
      st_bind (st_map_err (store_failure reservations) (fs_read_dir fc reservations)) (\<lambda>entries.
        st_result (Inr (utf8_names entries))))))"

definition reserve_session ::
  "'w store_calls \<Rightarrow> time_format \<Rightarrow> backup_store \<Rightarrow> 'w \<Rightarrow> ('w \<times> (run_error + string)) option" where
  "reserve_session fc tf bs w =
     (case store_root bs of
        Inl e \<Rightarrow> Some (w, Inl e)
      | Inr root \<Rightarrow>
          (case prepare_reservations fc root w of
             (w', Inl e) \<Rightarrow> Some (w', Inl e)
           | (w', Inr existing) \<Rightarrow>
               (case reservation_now fc (bst_reservation_time bs) w' of
                  (w'', reserved_at) \<Rightarrow>
                    reserve_loop fc tf (path_join root ''reservations'') reserved_at existing w'')))"

subsection \<open>The area of a target\<close>

definition target_area :: "string \<Rightarrow> string \<Rightarrow> string \<Rightarrow> string" where
  "target_area root session key = path_join (path_join (path_join root ''sessions'') session) key"

definition target_directory :: "string \<Rightarrow> string \<Rightarrow> string" where
  "target_directory root key = path_join (path_join root ''targets'') key"

definition prepare_target ::
  "(bytes \<Rightarrow> string) \<Rightarrow> 'w store_calls \<Rightarrow> backup_store \<Rightarrow> app_config \<Rightarrow> side \<Rightarrow> string
    \<Rightarrow> 'w \<Rightarrow> 'w \<times> (run_error + unit)" where
  "prepare_target hex fc bs config target session =
     st_bind (st_result (store_root bs)) (\<lambda>root.
     st_bind (st_result (target_description config target (bst_startup_directory bs))) (\<lambda>description.
       (let key = hex description;
            target_dir = target_directory root key;
            description_file = path_join target_dir ''target.txt'';
            records = path_join (target_area root session key) ''records''
        in st_bind (st_map_err (store_failure target_dir) (create_dir_owner_only fc target_dir)) (\<lambda>_.
           st_bind (st_map_err (store_failure description_file)
               (write_file_owner_only fc description_file description)) (\<lambda>_.
             st_map_err (store_failure records) (create_dir_owner_only fc records))))))"

subsection \<open>Saving\<close>

definition pending_name :: "nat \<Rightarrow> u64 \<Rightarrow> string" where
  "pending_name process sequence = ''.pending-'' @ show_nat process @ ''-'' @ show_nat (unat sequence)"

partial_function (option) create_temporary_entry ::
  "'w store_calls \<Rightarrow> string \<Rightarrow> 'w \<Rightarrow> ('w \<times> (io_error + string)) option" where
  "create_temporary_entry fc parent w =
     (let numbered = st_sequence fc w;
          path = path_join parent (pending_name (st_process fc) (snd numbered));
          made = fs_create_dir fc path (fst numbered)
      in case snd made of
           Inr _ \<Rightarrow>
             (let moded = set_dir_permissions fc path (fst made)
              in case snd moded of
                   Inl e \<Rightarrow> Some (fst (fs_remove_dir fc path (fst moded)), Inl e)
                 | Inr _ \<Rightarrow> Some (fst moded, Inr path))
         | Inl e \<Rightarrow>
             if io_kind e = KAlreadyExists then create_temporary_entry fc parent (fst made)
             else Some (fst made, Inl e))"

definition write_entry ::
  "'w store_calls \<Rightarrow> record_json \<Rightarrow> string \<Rightarrow> string \<Rightarrow> stored_backup \<Rightarrow> bytes option
    \<Rightarrow> 'w \<Rightarrow> 'w \<times> (run_error + unit)" where
  "write_entry fc json temporary destination stored content =
     st_bind (case content of
         Some bs \<Rightarrow> st_map_err io_run_error (write_file_owner_only fc (path_join temporary ''content'') bs)
       | None \<Rightarrow> st_result (Inr ())) (\<lambda>_.
     st_bind (st_result (rj_write json stored)) (\<lambda>bs.
     st_bind (st_map_err io_run_error (write_file_owner_only fc (path_join temporary ''record.json'') bs)) (\<lambda>_.
       st_map_err io_run_error (fs_rename fc temporary destination))))"

text \<open>The directories that are made before an entry is written.\<close>

definition prepare_entry ::
  "'w store_calls \<Rightarrow> string \<Rightarrow> string \<Rightarrow> string \<Rightarrow> string \<Rightarrow> 'w \<Rightarrow> 'w \<times> (run_error + unit)" where
  "prepare_entry fc root session key description =
     (let target_dir = target_directory root key;
          area = target_area root session key
      in st_map_err io_run_error
           (st_bind (create_dir_owner_only fc target_dir) (\<lambda>_.
            st_bind (write_file_owner_only fc (path_join target_dir ''target.txt'') description) (\<lambda>_.
            st_bind (create_dir_owner_only fc (path_join area ''records'')) (\<lambda>_.
              create_dir_owner_only fc (path_join area ''pending''))))))"

definition finish_entry ::
  "'w store_calls \<Rightarrow> string \<Rightarrow> string \<Rightarrow> run_error + unit \<Rightarrow> 'w \<Rightarrow> 'w" where
  "finish_entry fc pending_dir temporary wrote w =
     fst (fs_remove_dir fc pending_dir
       (case wrote of Inl _ \<Rightarrow> fst (fs_remove_dir_all fc temporary w) | Inr _ \<Rightarrow> w))"

definition save_entry ::
  "(bytes \<Rightarrow> string) \<Rightarrow> 'w store_calls \<Rightarrow> record_json \<Rightarrow> string \<Rightarrow> string \<Rightarrow> string \<Rightarrow> stored_backup \<Rightarrow> bytes option
    \<Rightarrow> 'w \<Rightarrow> ('w \<times> (run_error + string)) option" where
  "save_entry hex fc json area session rel_path stored content w =
     (case create_temporary_entry fc (path_join area ''pending'') w of
        None \<Rightarrow> None
      | Some (w', Inl e) \<Rightarrow> Some (w', Inl (io_run_error e))
      | Some (w', Inr temporary) \<Rightarrow>
          (case write_entry fc json temporary (path_join (path_join area ''records'') (hex rel_path)) stored content w' of
             (w'', wrote) \<Rightarrow>
               Some (finish_entry fc (path_join area ''pending'') temporary wrote w'',
                 res_bind wrote (\<lambda>_. Inr (session @ ''/'' @ rel_path)))))"

definition save ::
  "(bytes \<Rightarrow> string) \<Rightarrow> 'w store_calls \<Rightarrow> record_json \<Rightarrow> backup_store \<Rightarrow> app_config \<Rightarrow> side \<Rightarrow> string \<Rightarrow> string
    \<Rightarrow> stored_backup \<Rightarrow> bytes option \<Rightarrow> 'w \<Rightarrow> ('w \<times> (run_error + string)) option" where
  "save hex fc json bs config target session rel_path stored content w =
     (case res_bind (store_root bs) (\<lambda>root.
           res_bind (target_description config target (bst_startup_directory bs)) (\<lambda>description.
             Inr (root, description))) of
        Inl e \<Rightarrow> Some (w, Inl e)
      | Inr (root, description) \<Rightarrow>
          (case prepare_entry fc root session (hex description) description w of
             (w', Inl e) \<Rightarrow> Some (w', Inl e)
           | (w', Inr _) \<Rightarrow>
               save_entry hex fc json (target_area root session (hex description)) session rel_path stored content w'))"

definition save_file ::
  "(bytes \<Rightarrow> string) \<Rightarrow> 'w store_calls \<Rightarrow> record_json \<Rightarrow> backup_store \<Rightarrow> app_config \<Rightarrow> side \<Rightarrow> string \<Rightarrow> string
    \<Rightarrow> string \<Rightarrow> bytes \<Rightarrow> 'w \<Rightarrow> ('w \<times> (run_error + string)) option" where
  "save_file hex fc json bs config target session rel_path real_path content =
     save hex fc json bs config target session rel_path (StoredFile rel_path real_path) (Some content)"

text \<open>A link and what it is to be replaced by: the new target and the parent's real path.\<close>

record symlink_backup =
  sk_link_target :: string
  sk_expected :: "(string \<times> string) option"

definition save_symlink ::
  "(bytes \<Rightarrow> string) \<Rightarrow> 'w store_calls \<Rightarrow> record_json \<Rightarrow> backup_store \<Rightarrow> app_config \<Rightarrow> side \<Rightarrow> string \<Rightarrow> string
    \<Rightarrow> symlink_backup \<Rightarrow> 'w \<Rightarrow> ('w \<times> (run_error + string)) option" where
  "save_symlink hex fc json bs config target session rel_path link =
     save hex fc json bs config target session rel_path
       (StoredSymlink rel_path (sk_link_target link) (map_option fst (sk_expected link))
         (map_option snd (sk_expected link))) None"

subsection \<open>Finishing a session\<close>

fun tidy_areas :: "'w store_calls \<Rightarrow> string \<Rightarrow> (io_error + string) list \<Rightarrow> 'w \<Rightarrow> 'w" where
  "tidy_areas fc session_dir [] w = w"
| "tidy_areas fc session_dir (Inl _ # areas) w = tidy_areas fc session_dir areas w"
| "tidy_areas fc session_dir (Inr name # areas) w =
     (let area = path_join session_dir name
      in tidy_areas fc session_dir areas (tidy fc area (tidy fc (path_join area ''records'') w)))"

definition finish_session :: "'w store_calls \<Rightarrow> backup_store \<Rightarrow> string \<Rightarrow> 'w \<Rightarrow> 'w" where
  "finish_session fc bs session w =
     (case bst_root bs of
        None \<Rightarrow> w
      | Some root \<Rightarrow>
          (let session_dir = path_join (path_join root ''sessions'') session;
               opened = fs_read_dir fc session_dir w;
               tidied = tidy fc session_dir
                 (case snd opened of Inr areas \<Rightarrow> tidy_areas fc session_dir areas (fst opened) | Inl _ \<Rightarrow> fst opened);
               there = fs_exists fc session_dir tidied
           in if snd there then fst there
              else tidy fc (path_join (path_join root ''reservations'') session) (fst there)))"

subsection \<open>Reading a record\<close>

definition unparsed_record :: "string \<Rightarrow> string \<Rightarrow> run_error" where
  "unparsed_record path words =
     run_error_text (''backup record could not be parsed: '' @ utf8_lossy path @ '': '' @ words)"

fun stored_path :: "stored_record \<Rightarrow> string" where
  "stored_path (StoredFile path _) = path"
| "stored_path (StoredSymlink path _ _ _) = path"

definition parse_stored_record :: "record_json \<Rightarrow> bytes \<Rightarrow> string \<Rightarrow> run_error + stored_record" where
  "parse_stored_record json bs path =
     res_bind (res_map_err (unparsed_record path) (rj_read json bs)) (\<lambda>r.
     res_bind (res_map_err (\<lambda>e. unparsed_record path (show_rel_path_error e)) (entry_parse (stored_path r))) (\<lambda>_.
       Inr r))"

definition read_stored_record ::
  "'w store_calls \<Rightarrow> record_json \<Rightarrow> string \<Rightarrow> 'w \<Rightarrow> 'w \<times> (run_error + stored_record option)" where
  "read_stored_record fc json record_dir =
     (let path = path_join record_dir ''record.json'' in
      st_bind (or_missing (fs_read fc path) path) (\<lambda>found.
        st_result (case found of
            None \<Rightarrow> Inr None
          | Some bs \<Rightarrow> res_bind (parse_stored_record json bs path) (\<lambda>r. Inr (Some r)))))"

definition content_of_record ::
  "'w store_calls \<Rightarrow> string \<Rightarrow> string \<Rightarrow> stored_record \<Rightarrow> 'w \<Rightarrow> 'w \<times> (run_error + backup_record)" where
  "content_of_record fc record_dir rel_path stored =
     (if stored_path stored \<noteq> rel_path then st_result (Inl (run_error_text ''backup record path does not match''))
      else
        (case stored of
           StoredFile _ real_path \<Rightarrow>
             (let content = path_join record_dir ''content'' in
              st_bind (st_map_err
                  (\<lambda>e. with_context (''cannot read the backed-up content '' @ utf8_lossy content) (io_run_error e))
                  (fs_read fc content))
                (\<lambda>bs. st_result (Inr (BackupFile real_path bs))))
         | StoredSymlink _ link expected parent \<Rightarrow> st_result (Inr (BackupSymlink link expected parent))))"

definition read_record ::
  "(bytes \<Rightarrow> string) \<Rightarrow> 'w store_calls \<Rightarrow> record_json \<Rightarrow> backup_store \<Rightarrow> app_config \<Rightarrow> side \<Rightarrow> string \<Rightarrow> string
    \<Rightarrow> 'w \<Rightarrow> 'w \<times> (run_error + backup_record)" where
  "read_record hex fc json bs config target session rel_path =
     st_bind (st_result (store_root bs)) (\<lambda>root.
     st_bind (st_result (target_key hex config target (bst_startup_directory bs))) (\<lambda>key.
       (let record_dir = path_join (path_join (target_area root session key) ''records'') (hex rel_path);
            record_file = path_join record_dir ''record.json''
        in st_bind (st_map_err
               (\<lambda>e. with_context (''cannot read the backup record '' @ utf8_lossy record_file) (io_run_error e))
               (fs_read fc record_file)) (\<lambda>stored.
           st_bind (st_result (parse_stored_record json stored record_file))
             (content_of_record fc record_dir rel_path)))))"

subsection \<open>Listing the sessions\<close>

text \<open>A stable sort by a comparison; of session ids, the greatest first.\<close>

fun insert_by :: "('a \<Rightarrow> 'a \<Rightarrow> ordering) \<Rightarrow> 'a \<Rightarrow> 'a list \<Rightarrow> 'a list" where
  "insert_by cmp x [] = [x]"
| "insert_by cmp x (y # ys) = (if cmp x y = Greater then y # insert_by cmp x ys else x # y # ys)"

definition sort_by :: "('a \<Rightarrow> 'a \<Rightarrow> ordering) \<Rightarrow> 'a list \<Rightarrow> 'a list" where
  "sort_by cmp xs = foldr (insert_by cmp) xs []"

definition newest_first :: "time_format \<Rightarrow> backup_session \<Rightarrow> backup_session \<Rightarrow> ordering" where
  "newest_first tf l r =
     (case compare_session_ids tf (bs_session_id r) (bs_session_id l) of Some ord \<Rightarrow> ord | None \<Rightarrow> Equal)"

text \<open>One record as an entry of the listing; None when the record is not complete.\<close>

definition listed_record ::
  "'w store_calls \<Rightarrow> record_json \<Rightarrow> string \<Rightarrow> 'w \<Rightarrow> 'w \<times> (run_error + backup_entry option)" where
  "listed_record fc json record_dir =
     st_bind (read_stored_record fc json record_dir) (\<lambda>found.
       (case found of
          None \<Rightarrow> st_result (Inr None)
        | Some (StoredFile path _) \<Rightarrow>
            (let content = path_join record_dir ''content'' in
             st_bind (or_missing (fs_len fc content) content) (\<lambda>len.
               st_result (Inr (map_option (\<lambda>n. \<lparr>be_path = path, be_size = Some n, be_link_target = None\<rparr>) len))))
        | Some (StoredSymlink path link _ _) \<Rightarrow>
            st_result (Inr (Some \<lparr>be_path = path, be_size = None, be_link_target = Some (utf8_lossy link)\<rparr>))))"

fun list_records ::
  "'w store_calls \<Rightarrow> record_json \<Rightarrow> string \<Rightarrow> (io_error + string) list \<Rightarrow> 'w
    \<Rightarrow> 'w \<times> (run_error + backup_entry list option)" where
  "list_records fc json records_dir [] w = (w, Inr (Some []))"
| "list_records fc json records_dir (Inl e # records) w = (w, Inl (unreadable_store records_dir e))"
| "list_records fc json records_dir (Inr name # records) w =
     st_bind (listed_record fc json (path_join records_dir name)) (\<lambda>listed.
       (case listed of
          None \<Rightarrow> st_result (Inr None)
        | Some entry \<Rightarrow>
            st_bind (list_records fc json records_dir records) (\<lambda>entries.
              st_result (Inr (map_option ((#) entry) entries))))) w"

text \<open>One session of a target, if it has one that is complete and holds something.\<close>

definition listed_session ::
  "'w store_calls \<Rightarrow> record_json \<Rightarrow> time_format \<Rightarrow> string \<Rightarrow> string \<Rightarrow> string
    \<Rightarrow> 'w \<Rightarrow> 'w \<times> (run_error + backup_session option)" where
  "listed_session fc json tf sessions_dir key session =
     (if \<not> is_utf8 session \<or> parse_session_id tf session = None then st_result (Inr None)
      else
        (let records_dir = path_join (path_join (path_join sessions_dir session) key) ''records'' in
         st_bind (or_missing (fs_read_dir fc records_dir) records_dir) (\<lambda>found.
           (case found of
              None \<Rightarrow> st_result (Inr None)
            | Some records \<Rightarrow>
                st_bind (list_records fc json records_dir records) (\<lambda>files.
                  st_result (Inr
                    (case files of
                       Some (f # fs) \<Rightarrow> Some (backup_session_new session (sort_key be_path (f # fs)) False)
                     | _ \<Rightarrow> None)))))))"

fun list_each ::
  "'w store_calls \<Rightarrow> record_json \<Rightarrow> time_format \<Rightarrow> string \<Rightarrow> string \<Rightarrow> (io_error + string) list
    \<Rightarrow> 'w \<Rightarrow> 'w \<times> (run_error + backup_session list)" where
  "list_each fc json tf sessions_dir key [] w = (w, Inr [])"
| "list_each fc json tf sessions_dir key (Inl e # entries) w = (w, Inl (unreadable_store sessions_dir e))"
| "list_each fc json tf sessions_dir key (Inr session # entries) w =
     st_bind (listed_session fc json tf sessions_dir key session) (\<lambda>listed.
     st_bind (list_each fc json tf sessions_dir key entries) (\<lambda>sessions.
       st_result (Inr (case listed of Some s \<Rightarrow> s # sessions | None \<Rightarrow> sessions)))) w"

definition list_sessions ::
  "(bytes \<Rightarrow> string) \<Rightarrow> 'w store_calls \<Rightarrow> record_json \<Rightarrow> time_format \<Rightarrow> backup_store \<Rightarrow> app_config \<Rightarrow> side
    \<Rightarrow> 'w \<Rightarrow> 'w \<times> (run_error + backup_session list)" where
  "list_sessions hex fc json tf bs config target =
     st_bind (st_result (store_root bs)) (\<lambda>root.
     st_bind (st_result (target_key hex config target (bst_startup_directory bs))) (\<lambda>key.
       (let sessions_dir = path_join root ''sessions'' in
        st_bind (or_missing (fs_read_dir fc sessions_dir) sessions_dir) (\<lambda>found.
          (case found of
             None \<Rightarrow> st_result (Inr [])
           | Some entries \<Rightarrow>
               st_bind (list_each fc json tf sessions_dir key entries) (\<lambda>sessions.
                 st_result (Inr (sort_by (newest_first tf) sessions))))))))"

subsection \<open>Removing what has expired\<close>

definition not_removed :: "string \<Rightarrow> io_error \<Rightarrow> run_error" where
  "not_removed path e =
     run_error_text (''expired backups could not be removed: '' @ utf8_lossy path @ '': '' @ io_shown e)"

fun remove_areas :: "'w store_calls \<Rightarrow> string \<Rightarrow> string list \<Rightarrow> nat \<Rightarrow> 'w \<Rightarrow> 'w \<times> (run_error + nat)" where
  "remove_areas fc session [] removed w = (w, Inr removed)"
| "remove_areas fc session (key # keys) removed w =
     (let area = path_join session key in
      case fs_remove_dir_all fc area w of
        (w', Inr _) \<Rightarrow> remove_areas fc session keys (removed + 1) w'
      | (w', Inl e) \<Rightarrow>
          if io_kind e = KNotFound then remove_areas fc session keys removed w'
          else (w', Inl (not_removed area e)))"

definition release :: "'w store_calls \<Rightarrow> string option \<Rightarrow> 'w \<Rightarrow> 'w \<times> (run_error + unit)" where
  "release fc reservation w =
     (case reservation of
        None \<Rightarrow> (w, Inr ())
      | Some path \<Rightarrow>
          (case fs_remove_dir fc path w of
             (w', Inr _) \<Rightarrow> (w', Inr ())
           | (w', Inl e) \<Rightarrow> (w', if io_kind e = KNotFound then Inr () else Inl (not_removed path e))))"

text \<open>Another run may have removed the session before, or saved something in it.\<close>

definition remove_session_dir ::
  "'w store_calls \<Rightarrow> string \<Rightarrow> string option \<Rightarrow> 'w \<Rightarrow> 'w \<times> (run_error + unit)" where
  "remove_session_dir fc session reservation w =
     (case fs_remove_dir fc session w of
        (w', Inr _) \<Rightarrow> release fc reservation w'
      | (w', Inl e) \<Rightarrow>
          (case io_kind e of
             KNotFound \<Rightarrow> release fc reservation w'
           | KDirectoryNotEmpty \<Rightarrow> (w', Inr ())
           | _ \<Rightarrow> (w', Inl (not_removed session e))))"

definition remove_expired_session ::
  "'w store_calls \<Rightarrow> string \<Rightarrow> string option \<Rightarrow> string list \<Rightarrow> 'w \<Rightarrow> 'w \<times> (run_error + nat)" where
  "remove_expired_session fc session reservation target_keys =
     st_bind (remove_areas fc session target_keys 0) (\<lambda>removed.
     st_bind (or_missing (fs_read_dir fc session) session) (\<lambda>left.
     st_bind (case left of Some [] \<Rightarrow> remove_session_dir fc session reservation | _ \<Rightarrow> st_result (Inr ())) (\<lambda>_.
       st_result (Inr removed))))"

text \<open>The reservation of an id that is not a day old stays, so that the id is not given again.\<close>

definition expired_reservation ::
  "time_format \<Rightarrow> string \<Rightarrow> u32 \<Rightarrow> int \<Rightarrow> string \<Rightarrow> string option" where
  "expired_reservation tf root retention_days now session =
     (if is_session_expired tf session (max retention_days 1) now = Some True
      then Some (path_join (path_join root ''reservations'') session) else None)"

fun cleanup_each ::
  "'w store_calls \<Rightarrow> time_format \<Rightarrow> string \<Rightarrow> u32 \<Rightarrow> int \<Rightarrow> string list \<Rightarrow> (io_error + string) list \<Rightarrow> nat
    \<Rightarrow> 'w \<Rightarrow> 'w \<times> (run_error + nat)" where
  "cleanup_each fc tf root retention_days now keys [] removed w = (w, Inr removed)"
| "cleanup_each fc tf root retention_days now keys (Inl e # sessions) removed w =
     (w, Inl (unreadable_store (path_join root ''sessions'') e))"
| "cleanup_each fc tf root retention_days now keys (Inr session # sessions) removed w =
     (if is_utf8 session \<and> is_session_expired tf session retention_days now = Some True
      then
        st_bind (remove_expired_session fc (path_join (path_join root ''sessions'') session)
            (expired_reservation tf root retention_days now session) keys) (\<lambda>n.
          cleanup_each fc tf root retention_days now keys sessions (removed + n)) w
      else cleanup_each fc tf root retention_days now keys sessions removed w)"

definition cleanup_expired ::
  "(bytes \<Rightarrow> string) \<Rightarrow> 'w store_calls \<Rightarrow> time_format \<Rightarrow> backup_store \<Rightarrow> app_config \<Rightarrow> 'w \<Rightarrow> 'w \<times> (run_error + nat)" where
  "cleanup_expired hex fc tf bs config =
     (case bst_root bs of
        None \<Rightarrow> st_result (Inr 0)
      | Some root \<Rightarrow>
          (let sessions_dir = path_join root ''sessions'' in
           st_bind (or_missing (fs_read_dir fc sessions_dir) sessions_dir) (\<lambda>found.
             (case found of
                None \<Rightarrow> st_result (Inr 0)
              | Some sessions \<Rightarrow>
                  st_bind (st_result (configured_target_keys hex config (bst_startup_directory bs))) (\<lambda>keys.
                    cleanup_each fc tf root (bc_retention_days (cf_backup config)) (bst_now bs) keys sessions 0)))))"

end
