(* ===== verification/StoreFiles.thy ===== *)
theory StoreFiles
  imports BackupStore
begin

text \<open>
  What the store of backups relies on of the file system, as the locale \<open>file_calls\<close> over the contents of
  files by path, and a file system in memory that keeps it. In memory any call may fail with any error, a
  write after a part of its bytes and a removal after a part of its files.
\<close>

subsection \<open>Paths of plain names\<close>

definition plain_name :: "string \<Rightarrow> bool" where
  "plain_name n \<longleftrightarrow> n \<noteq> [] \<and> CHR ''/'' \<notin> set n"

definition within_path :: "string \<Rightarrow> string \<Rightarrow> bool" where
  "within_path p q \<longleftrightarrow> q = p \<or> starts_with (p @ ''/'') q"

definition with_slash :: "string \<Rightarrow> string" where
  "with_slash p = (if p = [] \<or> last p = CHR ''/'' then p else p @ ''/'')"

definition names_path :: "string \<Rightarrow> string list \<Rightarrow> string" where
  "names_path root ns = with_slash root @ join_with ''/'' ns"

lemma plain_not_slash: "plain_name n \<Longrightarrow> \<not> starts_with ''/'' n \<and> last n \<noteq> CHR ''/''"
  by (cases n) (auto simp: plain_name_def starts_with_iff dest: last_in_set)

lemma join_plain_root: "plain_name n \<Longrightarrow> path_join root n = names_path root [n]"
  using plain_not_slash[of n] by (auto simp: path_join_def names_path_def with_slash_def)

lemma names_path_end:
  assumes "ns \<noteq> []" "\<forall>n \<in> set ns. plain_name n"
  shows "names_path root ns \<noteq> []" and "last (names_path root ns) \<noteq> CHR ''/''"
proof -
  from assms obtain ms n where ns: "ns = ms @ [n]" "plain_name n" by (cases ns rule: rev_cases) auto
  then have "names_path root ns = (names_path root [] @ (if ms = [] then [] else join_with ''/'' ms @ ''/'')) @ n"
    by (cases "ms = []") (simp_all add: names_path_def join_with_append)
  then show "names_path root ns \<noteq> []" "last (names_path root ns) \<noteq> CHR ''/''"
    using ns(2) plain_not_slash[of n] by (auto simp: plain_name_def)
qed

lemma join_plain:
  assumes "ns \<noteq> []" "\<forall>n \<in> set ns. plain_name n" "plain_name n"
  shows "path_join (names_path root ns) n = names_path root (ns @ [n])"
  using names_path_end[OF assms(1,2)] plain_not_slash[OF assms(3)] assms(1)
  by (simp add: path_join_def) (simp add: names_path_def join_with_append)

lemma plain_split:
  assumes "ns \<noteq> []" "\<forall>n \<in> set ns. plain_name n"
  shows "split_on CHR ''/'' (join_with ''/'' ns) = ns"
  using assms by (intro split_join) (auto simp: plain_name_def)

lemma within_names:
  assumes "ns \<noteq> []" "\<forall>n \<in> set ns. plain_name n" "ms \<noteq> []" "\<forall>m \<in> set ms. plain_name m"
  shows "within_path (names_path root ns) (names_path root ms) \<longleftrightarrow> take (length ns) ms = ns"
proof
  assume "within_path (names_path root ns) (names_path root ms)"
  then consider "join_with ''/'' ms = join_with ''/'' ns" | s where "join_with ''/'' ms = join_with ''/'' ns @ CHR ''/'' # s"
    by (auto simp: within_path_def names_path_def starts_with_iff)
  then show "take (length ns) ms = ns"
  proof cases
    case 1
    then show ?thesis using plain_split[OF assms(1,2)] plain_split[OF assms(3,4)] by simp
  next
    case 2
    then have "ms = split_on CHR ''/'' (join_with ''/'' ns @ CHR ''/'' # s)" using plain_split[OF assms(3,4)] by simp
    also have "\<dots> = ns @ split_on CHR ''/'' s" using plain_split[OF assms(1,2)] by (simp add: split_on_append)
    finally show ?thesis by simp
  qed
next
  assume "take (length ns) ms = ns"
  then obtain zs where ms: "ms = ns @ zs" by (metis append_take_drop_id)
  show "within_path (names_path root ns) (names_path root ms)"
  proof (cases "zs = []")
    case False
    then show ?thesis using assms(1) ms
      by (auto simp: within_path_def names_path_def join_with_append starts_with_iff)
  qed (simp add: ms within_path_def)
qed

lemma names_path_eq:
  assumes "ns \<noteq> []" "\<forall>n \<in> set ns. plain_name n" "ms \<noteq> []" "\<forall>m \<in> set ms. plain_name m"
  shows "names_path root ns = names_path root ms \<longleftrightarrow> ns = ms"
  by (simp add: names_path_def) (metis assms plain_split)

lemma within_self [simp]: "within_path p p"
  by (simp add: within_path_def)

text \<open>The places in the store, and the two files of a record.\<close>

lemma plain_literals [simp]:
  "plain_name ''sessions''" "plain_name ''targets''" "plain_name ''records''" "plain_name ''pending''"
  "plain_name ''record.json''" "plain_name ''content''" "plain_name ''target.txt''" "plain_name ''reservations''"
  by (simp_all add: plain_name_def)

lemma plain_pending: "plain_name (pending_name process n)"
proof -
  have "CHR ''/'' \<notin> set (show_nat k)" for k
    using show_nat_digits[of k] by (auto simp: list_all_iff is_digit_def byte_in_def)
  then show ?thesis by (simp add: plain_name_def pending_name_def)
qed

lemma root_places:
  "path_join root ''sessions'' = names_path root [''sessions'']"
  "path_join root ''targets'' = names_path root [''targets'']"
  "path_join root ''reservations'' = names_path root [''reservations'']"
  by (simp_all add: join_plain_root)

lemma store_places:
  assumes "plain_name session" "plain_name key"
  shows "target_area root session key = names_path root [''sessions'', session, key]"
    and "target_directory root key = names_path root [''targets'', key]"
  using assms by (simp_all add: target_area_def target_directory_def root_places join_plain)

definition record_path :: "string \<Rightarrow> string \<Rightarrow> string \<Rightarrow> string \<Rightarrow> string \<Rightarrow> string" where
  "record_path root session key entry name = names_path root [''sessions'', session, key, ''records'', entry, name]"

lemma record_path_below:
  "record_path root session key entry name =
     names_path root [''sessions'', session, key, ''records'', entry] @ CHR ''/'' # name"
  by (simp add: record_path_def names_path_def)

subsection \<open>The contract\<close>

locale file_calls =
  fixes fc :: "'w store_calls" and file_at :: "'w \<Rightarrow> string \<Rightarrow> bytes option"
  assumes create_dir_all_keeps [simp]: "file_at (fst (fs_create_dir_all fc p m w)) = file_at w"
    and create_dir_keeps [simp]: "file_at (fst (fs_create_dir fc p w)) = file_at w"
    and set_mode_keeps [simp]: "file_at (fst (fs_set_mode fc p m w)) = file_at w"
    and remove_dir_keeps [simp]: "file_at (fst (fs_remove_dir fc p w)) = file_at w"
    and read_keeps [simp]: "file_at (fst (fs_read fc p w)) = file_at w"
    and read_dir_keeps [simp]: "file_at (fst (fs_read_dir fc p w)) = file_at w"
    and len_keeps [simp]: "file_at (fst (fs_len fc p w)) = file_at w"
    and exists_keeps [simp]: "file_at (fst (fs_exists fc p w)) = file_at w"
    and sequence_keeps [simp]: "file_at (fst (st_sequence fc w)) = file_at w"
    and clock_keeps [simp]: "file_at (fst (st_clock fc w)) = file_at w"
    and open_keeps: "q \<noteq> p \<Longrightarrow> file_at (fst (fs_open fc p m w)) q = file_at w q"
    and open_empties: "snd (fs_open fc p m w) = Inr u \<Longrightarrow> file_at (fst (fs_open fc p m w)) p = Some []"
    and write_keeps: "q \<noteq> p \<Longrightarrow> file_at (fst (fs_write_all fc p c w)) q = file_at w q"
    and write_appends: "snd (fs_write_all fc p c w) = Inr u \<Longrightarrow> file_at w p = Some b
        \<Longrightarrow> file_at (fst (fs_write_all fc p c w)) p = Some (b @ c)"
    and remove_all_keeps: "\<not> within_path p q \<Longrightarrow> file_at (fst (fs_remove_dir_all fc p w)) q = file_at w q"
    and rename_keeps: "\<not> within_path a q \<Longrightarrow> \<not> within_path b q \<Longrightarrow> file_at (fst (fs_rename fc a b w)) q = file_at w q"
    and rename_failed: "snd (fs_rename fc a b w) = Inl e \<Longrightarrow> file_at (fst (fs_rename fc a b w)) = file_at w"
    and rename_to_empty: "a \<noteq> b \<Longrightarrow> snd (fs_rename fc a b w) = Inr u \<Longrightarrow> file_at w (b @ CHR ''/'' # s) = None"
    and rename_moves: "snd (fs_rename fc a b w) = Inr u
        \<Longrightarrow> file_at (fst (fs_rename fc a b w)) (b @ CHR ''/'' # s) = file_at w (a @ CHR ''/'' # s)"
    and read_exact: "snd (fs_read fc p w) = Inr c \<Longrightarrow> file_at w p = Some c"
    and read_dir_names: "snd (fs_read_dir fc p w) = Inr entries \<Longrightarrow> Inr name \<in> set entries \<Longrightarrow> plain_name name"

end
