(* ===== verification/MemoryFiles.thy ===== *)
theory MemoryFiles
  imports StoreFiles "HOL-Library.AList"
begin

text \<open>
  A file system in memory that keeps the contract \<open>file_calls\<close>: directories are a list of paths, files an
  association list. Any call may fail: the next fault of a list says so, with an error and how far the call
  came, which matters for a write and for a removal. Only directories are renamed.
\<close>

record memory_files =
  mf_dirs :: "string list"
  mf_files :: "(string \<times> bytes) list"
  mf_faults :: "(io_error \<times> nat) option list"
  mf_sequence :: u64
  mf_clock :: int

definition memory_file :: "memory_files \<Rightarrow> string \<Rightarrow> bytes option" where
  "memory_file w p = map_of (mf_files w) p"

definition memory_error :: "io_kind \<Rightarrow> io_error" where
  "memory_error k = \<lparr>io_kind = k, raw_os = None, io_shown = ''failed''\<rparr>"

definition memory_call ::
  "(nat \<Rightarrow> memory_files \<Rightarrow> memory_files) \<Rightarrow> (memory_files \<Rightarrow> memory_files \<times> (io_error + 'a)) \<Rightarrow> memory_files
    \<Rightarrow> memory_files \<times> (io_error + 'a)" where
  "memory_call broken f w =
     (case mf_faults w of
        [] \<Rightarrow> f w
      | None # fs \<Rightarrow> f (w\<lparr>mf_faults := fs\<rparr>)
      | Some (e, n) # fs \<Rightarrow> (broken n (w\<lparr>mf_faults := fs\<rparr>), Inl e))"

definition memory_fail :: "io_kind \<Rightarrow> memory_files \<Rightarrow> memory_files \<times> (io_error + 'a)" where
  "memory_fail k w = (w, Inl (memory_error k))"

subsection \<open>Places\<close>

definition strictly_below :: "string \<Rightarrow> string \<Rightarrow> bool" where
  "strictly_below p q = starts_with (p @ ''/'') q"

definition memory_parent :: "string \<Rightarrow> string" where
  "memory_parent p = join_with ''/'' (butlast (split_on CHR ''/'' p))"

definition memory_prefixes :: "string \<Rightarrow> string list" where
  "memory_prefixes p =
     (let ns = split_on CHR ''/'' p in map (\<lambda>k. join_with ''/'' (take (Suc k) ns)) [0..<length ns])"

definition memory_dir :: "memory_files \<Rightarrow> string \<Rightarrow> bool" where
  "memory_dir w p = (p \<in> set (mf_dirs w))"

definition memory_entries :: "memory_files \<Rightarrow> string \<Rightarrow> string list" where
  "memory_entries w p = filter (strictly_below p) (mf_dirs w @ map fst (mf_files w))"

definition memory_names :: "memory_files \<Rightarrow> string \<Rightarrow> string list" where
  "memory_names w p =
     remdups (filter (\<lambda>n. n \<noteq> []) (map (\<lambda>q. hd (split_on CHR ''/'' (drop (Suc (length p)) q))) (memory_entries w p)))"

fun drop_within :: "string \<Rightarrow> nat \<Rightarrow> (string \<times> bytes) list \<Rightarrow> (string \<times> bytes) list" where
  "drop_within p n [] = []"
| "drop_within p n ((q, c) # fs) =
     (if within_path p q \<and> n > 0 then drop_within p (n - 1) fs else (q, c) # drop_within p n fs)"

definition moved :: "string \<Rightarrow> string \<Rightarrow> string \<Rightarrow> string" where
  "moved a b q = (if within_path a q then b @ drop (length a) q else q)"

subsection \<open>The calls\<close>

definition memory_rename :: "string \<Rightarrow> string \<Rightarrow> memory_files \<Rightarrow> memory_files \<times> (io_error + unit)" where
  "memory_rename a b w =
     (if \<not> memory_dir w a then memory_fail KNotFound w
      else if a = b then (w, Inr ())
      else if within_path a b then memory_fail KOther w
      else if memory_file w b \<noteq> None then memory_fail KNotADirectory w
      else if memory_entries w b \<noteq> [] then memory_fail KDirectoryNotEmpty w
      else if \<not> memory_dir w (memory_parent b) then memory_fail KNotFound w
      else (w\<lparr>mf_dirs := remdups (map (moved a b) (mf_dirs w)),
              mf_files := map (\<lambda>(q, c). (moved a b q, c)) (mf_files w)\<rparr>, Inr ()))"

definition memory_calls :: "memory_files store_calls" where
  "memory_calls =
     \<lparr>fs_create_dir_all = (\<lambda>p _. memory_call (\<lambda>_ w. w) (\<lambda>w.
        if \<exists>d \<in> set (memory_prefixes p). memory_file w d \<noteq> None then memory_fail KNotADirectory w
        else (w\<lparr>mf_dirs := remdups (mf_dirs w @ memory_prefixes p)\<rparr>, Inr ()))),
      fs_create_dir = (\<lambda>p. memory_call (\<lambda>_ w. w) (\<lambda>w.
        if memory_dir w p \<or> memory_file w p \<noteq> None then memory_fail KAlreadyExists w
        else if \<not> memory_dir w (memory_parent p) then memory_fail KNotFound w
        else (w\<lparr>mf_dirs := p # mf_dirs w\<rparr>, Inr ()))),
      fs_set_mode = (\<lambda>p _. memory_call (\<lambda>_ w. w) (\<lambda>w.
        if memory_dir w p \<or> memory_file w p \<noteq> None then (w, Inr ()) else memory_fail KNotFound w)),
      fs_open = (\<lambda>p _. memory_call (\<lambda>_ w. w) (\<lambda>w.
        if memory_dir w p then memory_fail KOther w
        else if \<not> memory_dir w (memory_parent p) then memory_fail KNotFound w
        else (w\<lparr>mf_files := AList.update p [] (mf_files w)\<rparr>, Inr ()))),
      fs_write_all = (\<lambda>p c. memory_call
        (\<lambda>n w. case memory_file w p of
            None \<Rightarrow> w | Some b \<Rightarrow> w\<lparr>mf_files := AList.update p (b @ take n c) (mf_files w)\<rparr>)
        (\<lambda>w. case memory_file w p of
            None \<Rightarrow> memory_fail KOther w
          | Some b \<Rightarrow> (w\<lparr>mf_files := AList.update p (b @ c) (mf_files w)\<rparr>, Inr ()))),
      fs_rename = (\<lambda>a b. memory_call (\<lambda>_ w. w) (memory_rename a b)),
      fs_remove_dir = (\<lambda>p. memory_call (\<lambda>_ w. w) (\<lambda>w.
        if \<not> memory_dir w p then memory_fail (if memory_file w p \<noteq> None then KNotADirectory else KNotFound) w
        else if memory_entries w p \<noteq> [] then memory_fail KDirectoryNotEmpty w
        else (w\<lparr>mf_dirs := filter (\<lambda>d. d \<noteq> p) (mf_dirs w)\<rparr>, Inr ()))),
      fs_remove_dir_all = (\<lambda>p. memory_call (\<lambda>n w. w\<lparr>mf_files := drop_within p n (mf_files w)\<rparr>) (\<lambda>w.
        if \<not> memory_dir w p then memory_fail KNotFound w
        else (w\<lparr>mf_dirs := filter (\<lambda>d. \<not> within_path p d) (mf_dirs w),
                mf_files := drop_within p (length (mf_files w)) (mf_files w)\<rparr>, Inr ()))),
      fs_read = (\<lambda>p. memory_call (\<lambda>_ w. w) (\<lambda>w.
        case memory_file w p of Some c \<Rightarrow> (w, Inr c) | None \<Rightarrow> memory_fail KNotFound w)),
      fs_read_dir = (\<lambda>p. memory_call (\<lambda>_ w. w) (\<lambda>w.
        if memory_dir w p then (w, Inr (map Inr (memory_names w p))) else memory_fail KNotFound w)),
      fs_len = (\<lambda>p. memory_call (\<lambda>_ w. w) (\<lambda>w.
        case memory_file w p of Some c \<Rightarrow> (w, Inr (word_of_nat (length c))) | None \<Rightarrow> memory_fail KNotFound w)),
      fs_exists = (\<lambda>p w. (w, memory_dir w p \<or> memory_file w p \<noteq> None)),
      st_sequence = (\<lambda>w. (w\<lparr>mf_sequence := mf_sequence w + 1\<rparr>, mf_sequence w)),
      st_process = 7,
      st_clock = (\<lambda>w. (w, mf_clock w))\<rparr>"

subsection \<open>The contract is kept\<close>

text \<open>A call that keeps a file whether it fails or not.\<close>

lemma memory_call_file:
  assumes "\<And>n w. memory_file (broken n w) q = memory_file w q" "\<And>w. memory_file (fst (f w)) q = memory_file w q"
  shows "memory_file (fst (memory_call broken f w)) q = memory_file w q"
proof -
  have "memory_file (w\<lparr>mf_faults := fs\<rparr>) q = memory_file w q" for fs by (simp add: memory_file_def)
  then show ?thesis using assms by (auto simp: memory_call_def split: list.split option.split)
qed

text \<open>A call that succeeds was not broken off.\<close>

lemma memory_call_ok:
  assumes "snd (memory_call broken f w) = Inr x"
  obtains fs where "memory_call broken f w = f (w\<lparr>mf_faults := fs\<rparr>)" "snd (f (w\<lparr>mf_faults := fs\<rparr>)) = Inr x"
  using assms that[of "tl (mf_faults w)"] that[of "mf_faults w"]
  by (auto simp: memory_call_def split: list.splits option.splits)

lemma map_of_drop_within: "\<not> within_path p q \<Longrightarrow> map_of (drop_within p n fs) q = map_of fs q"
  by (induction p n fs rule: drop_within.induct) auto

lemma within_path_cases: "within_path a q \<longleftrightarrow> q = a \<or> (\<exists>s. q = a @ CHR ''/'' # s)"
  by (auto simp: within_path_def starts_with_iff)

lemma map_of_moved_below:
  assumes "\<forall>q \<in> set (map fst fs). q \<noteq> b \<and> \<not> strictly_below b q"
  shows "map_of (map (\<lambda>(q, c). (moved a b q, c)) fs) (b @ CHR ''/'' # s) = map_of fs (a @ CHR ''/'' # s)"
  using assms
proof (induction fs)
  case (Cons x fs)
  have "moved a b (fst x) = b @ CHR ''/'' # s \<longleftrightarrow> fst x = a @ CHR ''/'' # s"
    using Cons.prems by (auto simp: moved_def within_path_cases strictly_below_def starts_with_iff)
  then show ?case using Cons by (cases x) auto
qed simp

lemma map_of_moved_other:
  assumes "\<not> within_path a k" "\<not> within_path b k"
  shows "map_of (map (\<lambda>(q, c). (moved a b q, c)) fs) k = map_of fs k"
proof (induction fs)
  case (Cons x fs)
  have "moved a b (fst x) = k \<longleftrightarrow> fst x = k"
    using assms by (auto simp: moved_def within_path_cases)
  then show ?case using Cons by (cases x) auto
qed simp

lemma no_entries_below: "memory_entries w b = [] \<Longrightarrow> memory_file w (b @ CHR ''/'' # s) = None"
  by (force simp: memory_entries_def memory_file_def strictly_below_def starts_with_iff filter_empty_conv map_of_eq_None_iff)

lemma memory_names_plain: "n \<in> set (memory_names w p) \<Longrightarrow> plain_name n"
proof -
  have "CHR ''/'' \<notin> set (hd (split_on CHR ''/'' s))" for s :: string
    by (rule split_on_elem[OF hd_in_set[OF split_on_ne]])
  then show "n \<in> set (memory_names w p) \<Longrightarrow> plain_name n" by (auto simp: memory_names_def plain_name_def)
qed

lemma memory_file_simps [simp]:
  "memory_file (w\<lparr>mf_dirs := ds\<rparr>) = memory_file w" "memory_file (w\<lparr>mf_faults := fs\<rparr>) = memory_file w"
  "memory_file (w\<lparr>mf_sequence := n\<rparr>) = memory_file w" "memory_file (w\<lparr>mf_files := xs\<rparr>) = map_of xs"
  by (auto simp: memory_file_def)

lemma memory_fail_simps [simp]: "fst (memory_fail k w) = w" "snd (memory_fail k w) = Inl (memory_error k)"
  by (simp_all add: memory_fail_def)

lemma map_of_files: "map_of (mf_files w) = memory_file w"
  by (auto simp: memory_file_def)

lemma memory_rename_fails: "snd (memory_rename a b w) = Inl e \<Longrightarrow> fst (memory_rename a b w) = w"
  by (auto simp: memory_rename_def split: if_splits)

lemma memory_rename_ok:
  assumes "snd (memory_rename a b w) = Inr u" "a \<noteq> b"
  shows "memory_entries w b = []" "memory_file w b = None"
    "memory_file (fst (memory_rename a b w)) = map_of (map (\<lambda>(q, c). (moved a b q, c)) (mf_files w))"
  using assms by (auto simp: memory_rename_def split: if_splits)

lemma memory_rename_same: "fst (memory_rename a a w) = w"
  by (auto simp: memory_rename_def)

lemma memory_rename_keeps:
  assumes "\<not> within_path a q" "\<not> within_path b q"
  shows "memory_file (fst (memory_rename a b w)) q = memory_file w q"
  using map_of_moved_other[OF assms, of "mf_files w"]
  by (auto simp: memory_rename_def map_of_files)

lemma memory_rename_moves:
  assumes "snd (memory_rename a b w) = Inr u"
  shows "memory_file (fst (memory_rename a b w)) (b @ CHR ''/'' # s) = memory_file w (a @ CHR ''/'' # s)"
proof (cases "a = b")
  case False
  have "\<forall>q \<in> set (map fst (mf_files w)). q \<noteq> b \<and> \<not> strictly_below b q"
    using memory_rename_ok(1,2)[OF assms False]
    by (auto simp: memory_entries_def filter_empty_conv memory_file_def map_of_eq_None_iff)
  then show ?thesis
    using map_of_moved_below[of "mf_files w" b a s] memory_rename_ok(3)[OF assms False] by (simp add: map_of_files)
qed (simp add: memory_rename_same)

lemma memory_call_quiet:
  assumes "\<And>w. memory_file (fst (f w)) = memory_file w"
  shows "memory_file (fst (memory_call (\<lambda>_ w. w) f w)) = memory_file w"
  by (rule ext, rule memory_call_file) (simp_all add: assms)

lemma drop_within_all:
  "length fs \<le> n \<Longrightarrow> map_of (drop_within p n fs) q = (if within_path p q then None else map_of fs q)"
  by (induction p n fs rule: drop_within.induct) auto

interpretation mem: file_calls memory_calls memory_file
proof (unfold_locales, goal_cases)
  case (1 p m w)
  show ?case by (auto simp: memory_calls_def intro!: memory_call_quiet)
next
  case (2 p w)
  show ?case by (auto simp: memory_calls_def intro!: memory_call_quiet)
next
  case (3 p m w)
  show ?case by (auto simp: memory_calls_def intro!: memory_call_quiet)
next
  case (4 p w)
  show ?case by (auto simp: memory_calls_def intro!: memory_call_quiet)
next
  case (5 p w)
  show ?case by (auto simp: memory_calls_def intro!: memory_call_quiet split: option.split)
next
  case (6 p w)
  show ?case by (auto simp: memory_calls_def intro!: memory_call_quiet)
next
  case (7 p w)
  show ?case by (auto simp: memory_calls_def intro!: memory_call_quiet split: option.split)
next
  case (11 q p m w)
  then show ?case by (auto simp: memory_calls_def update_conv' map_of_files intro!: memory_call_file)
next
  case (12 p m w u)
  then show ?case
    by (auto simp: memory_calls_def update_conv' split: if_splits elim!: memory_call_ok)
next
  case (13 q p c w)
  then show ?case by (auto simp: memory_calls_def update_conv' map_of_files intro!: memory_call_file split: option.split)
next
  case (14 p c w u b)
  then show ?case
    by (auto simp: memory_calls_def update_conv' split: option.splits elim!: memory_call_ok)
next
  case (15 p q w)
  then show ?case by (auto simp: memory_calls_def map_of_drop_within map_of_files intro!: memory_call_file)
next
  case (16 a q b w)
  then show ?case by (auto simp: memory_calls_def memory_rename_keeps intro!: memory_call_file)
next
  case (17 a b w e)
  then show ?case
    by (auto simp: memory_calls_def memory_call_def memory_rename_fails split: list.splits option.splits)
next
  case (18 a b w u s)
  then show ?case
    using memory_rename_ok(1)[of a b] no_entries_below[of _ b s]
    by (auto simp: memory_calls_def elim!: memory_call_ok) fastforce
next
  case (19 a b w u s)
  then show ?case
    using memory_rename_moves[of a b] by (auto simp: memory_calls_def elim!: memory_call_ok)
next
  case (20 p w c)
  then show ?case
    by (auto simp: memory_calls_def split: option.splits elim!: memory_call_ok)
next
  case (21 p w entries n)
  then show ?case
    by (auto simp: memory_calls_def memory_names_plain split: if_splits elim!: memory_call_ok)
qed (auto simp: memory_calls_def)

end
