(* ===== verification/StoreProps.thy ===== *)
theory StoreProps
  imports MemoryFiles
begin

text \<open>
  What the store of backups keeps. In \<open>file_calls\<close>, each operation is shown to keep the files of every
  record that is there, and a save to leave exactly the record and its content; the properties follow for
  any order of operations. Reserving a session ends on any file system.
\<close>

subsection \<open>Keys, records and later runs\<close>

definition plain_keys :: "(bytes \<Rightarrow> string) \<Rightarrow> bool" where
  "plain_keys hex \<longleftrightarrow> (\<forall>b. plain_name (hex b))"

lemma plain_keysD: "plain_keys hex \<Longrightarrow> plain_name (hex b)"
  by (simp add: plain_keys_def)

definition json_reads_back :: "record_json \<Rightarrow> bool" where
  "json_reads_back json \<longleftrightarrow> (\<forall>r bs. rj_write json r = Inr bs \<longrightarrow> rj_read json bs = Inr r)"

fun record_of :: "stored_record \<Rightarrow> bytes option \<Rightarrow> backup_record option" where
  "record_of (StoredFile _ real_path) content = map_option (BackupFile real_path) content"
| "record_of (StoredSymlink _ link expected parent) _ = Some (BackupSymlink link expected parent)"

definition read_failed :: "run_error + backup_record \<Rightarrow> bool" where
  "read_failed r \<longleftrightarrow> (\<exists>context e. r = Inl (with_context context (io_run_error e)))"

text \<open>Anything a later run may do with the store. A session that is kept has not expired when a run cleans up.\<close>

inductive store_step ::
  "(bytes \<Rightarrow> string) \<Rightarrow> 'w store_calls \<Rightarrow> record_json \<Rightarrow> time_format \<Rightarrow> string \<Rightarrow> string \<Rightarrow> 'w \<Rightarrow> 'w \<Rightarrow> bool"
  for hex fc json tf root kept where
  StepReserve: "bst_root bs = Some root \<Longrightarrow> reserve_session fc tf bs w = Some out
    \<Longrightarrow> store_step hex fc json tf root kept w (fst out)"
| StepPrepare: "bst_root bs = Some root \<Longrightarrow> plain_name session
    \<Longrightarrow> store_step hex fc json tf root kept w (fst (prepare_target hex fc bs config target session w))"
| StepSaveFile: "bst_root bs = Some root \<Longrightarrow> plain_name session
    \<Longrightarrow> save_file hex fc json bs config target session rel_path real_path content w = Some out
    \<Longrightarrow> store_step hex fc json tf root kept w (fst out)"
| StepSaveLink: "bst_root bs = Some root \<Longrightarrow> plain_name session
    \<Longrightarrow> save_symlink hex fc json bs config target session rel_path link w = Some out
    \<Longrightarrow> store_step hex fc json tf root kept w (fst out)"
| StepFinish: "store_step hex fc json tf root kept w (finish_session fc bs session w)"
| StepList: "store_step hex fc json tf root kept w (fst (list_sessions hex fc json tf bs config target w))"
| StepRead: "store_step hex fc json tf root kept w (fst (read_record hex fc json bs config target session rel_path w))"
| StepCleanup: "bst_root bs = Some root
    \<Longrightarrow> is_session_expired tf kept (bc_retention_days (cf_backup config)) (bst_now bs) \<noteq> Some True
    \<Longrightarrow> store_step hex fc json tf root kept w (fst (cleanup_expired hex fc tf bs config w))"

subsection \<open>What an operation keeps\<close>

context file_calls
begin

definition keeps :: "string \<Rightarrow> ('w \<Rightarrow> 'w \<times> 'r) \<Rightarrow> bool" where
  "keeps q f \<longleftrightarrow> (\<forall>w. file_at w q \<noteq> None \<longrightarrow> file_at (fst (f w)) q = file_at w q)"

lemma keepsD: "keeps q f \<Longrightarrow> file_at w q \<noteq> None \<Longrightarrow> file_at (fst (f w)) q = file_at w q"
  by (simp add: keeps_def)

lemma keepsI: "(\<And>w. file_at (fst (f w)) q = file_at w q) \<Longrightarrow> keeps q f"
  by (simp add: keeps_def)

lemma keeps_bind: "keeps q f \<Longrightarrow> (\<And>x. keeps q (g x)) \<Longrightarrow> keeps q (st_bind f g)"
  by (auto simp: keeps_def st_bind_def split: prod.splits sum.splits)

lemma keeps_map_err: "keeps q f \<Longrightarrow> keeps q (st_map_err h f)"
  by (auto simp: keeps_def st_map_err_def split: prod.splits)

lemma keeps_result: "keeps q (st_result r)"
  by (simp add: keeps_def st_result_def)

lemma keeps_from_result: "(\<And>x. r = Inr x \<Longrightarrow> keeps q (g x)) \<Longrightarrow> keeps q (st_bind (st_result r) g)"
  by (cases r) (auto simp: keeps_def st_bind_def st_result_def)

lemma keeps_or_missing: "keeps q f \<Longrightarrow> keeps q (or_missing f p)"
  by (auto simp: keeps_def or_missing_def split: prod.splits)

lemma keeps_calls:
  "keeps q (fs_create_dir_all fc p m)" "keeps q (fs_create_dir fc p)" "keeps q (fs_set_mode fc p m)"
  "keeps q (fs_remove_dir fc p)" "keeps q (fs_read fc p)" "keeps q (fs_read_dir fc p)" "keeps q (fs_len fc p)"
  by (simp_all add: keepsI)

lemmas keeps_rules = keeps_bind keeps_map_err keeps_result keeps_or_missing keeps_calls

lemma keeps_create_dir: "keeps q (create_dir_owner_only fc p)"
  unfolding create_dir_owner_only_def set_dir_permissions_def by (intro keeps_rules)

lemma keeps_write_file: "q \<noteq> p \<Longrightarrow> keeps q (write_file_owner_only fc p c)"
  unfolding write_file_owner_only_def by (intro keeps_rules keepsI) (simp_all add: open_keeps write_keeps)

lemma keeps_remove_all: "\<not> within_path p q \<Longrightarrow> keeps q (fs_remove_dir_all fc p)"
  by (simp add: keepsI remove_all_keeps)

text \<open>A rename moves nothing over a file that is there.\<close>

lemma keeps_rename:
  assumes "\<not> within_path a q" "q \<noteq> b"
  shows "keeps q (fs_rename fc a b)"
  unfolding keeps_def
proof (intro allI impI)
  fix w assume there: "file_at w q \<noteq> None"
  show "file_at (fst (fs_rename fc a b w)) q = file_at w q"
  proof (cases "snd (fs_rename fc a b w)")
    case (Inl e)
    then show ?thesis by (simp add: rename_failed)
  next
    case (Inr u)
    have "\<not> within_path b q"
    proof
      assume "within_path b q"
      then obtain s where s: "q = b @ CHR ''/'' # s" using assms(2)
        by (auto simp: within_path_def starts_with_iff)
      have "a \<noteq> b" using assms(1) s by (auto simp: within_path_def starts_with_iff)
      then show False using rename_to_empty[OF _ Inr, of s] there s by auto
    qed
    then show ?thesis by (simp add: rename_keeps assms(1))
  qed
qed

lemma tidy_keeps [simp]: "file_at (tidy fc p w) = file_at w"
  by (simp add: tidy_def)

definition made_below :: "string \<Rightarrow> 'w \<Rightarrow> 'w \<times> (io_error + string) \<Rightarrow> bool" where
  "made_below parent w out \<longleftrightarrow>
     file_at (fst out) = file_at w
     \<and> (\<forall>path. snd out = Inr path \<longrightarrow> (\<exists>n. path = path_join parent (pending_name (st_process fc) n)))"

lemma temporary_entry:
  assumes "create_temporary_entry fc parent w = Some out"
  shows "made_below parent w out"
proof -
  have "fc = fc \<longrightarrow> made_below parent w out"
  proof (rule create_temporary_entry.raw_induct
      [where P = "\<lambda>fc' parent w out. fc' = fc \<longrightarrow> made_below parent w out", OF _ assms], rule impI)
    fix self fc' parent w out
    assume self: "\<And>fc' parent w out. self fc' parent w = Some out \<Longrightarrow> fc' = fc \<longrightarrow> made_below parent w out"
      and body: "(let numbered = st_sequence fc' w; path = path_join parent (pending_name (st_process fc') (snd numbered));
            made = fs_create_dir fc' path (fst numbered)
          in case snd made of
             Inl e \<Rightarrow> if io_kind e = KAlreadyExists then self fc' parent (fst made) else Some (fst made, Inl e)
           | Inr _ \<Rightarrow>
               let moded = set_dir_permissions fc' path (fst made)
               in case snd moded of
                    Inl e \<Rightarrow> Some (fst (fs_remove_dir fc' path (fst moded)), Inl e)
                  | Inr _ \<Rightarrow> Some (fst moded, Inr path)) = Some out"
      and [simp]: "fc' = fc"
    show "made_below parent w out"
      using body self[of fc parent _ out]
      by (fastforce simp: made_below_def Let_def set_dir_permissions_def split: sum.splits if_splits)
  qed
  then show ?thesis by simp
qed

subsection \<open>Saving\<close>

lemma write_file_exact:
  "snd (write_file_owner_only fc p c w) = Inr u \<Longrightarrow> file_at (fst (write_file_owner_only fc p c w)) p = Some c"
  using open_empties[of p file_mode w] write_appends[of p c _ _ "[]"]
  by (auto simp: write_file_owner_only_def st_bind_def split: prod.splits sum.splits) (metis append_Nil fst_conv snd_conv)

text \<open>Every file a save writes, moves or removes is outside of all records.\<close>

lemma record_path_other:
  assumes "plain_name session" "plain_name key" "plain_name entry" "plain_name name"
    and "ns \<noteq> []" "\<forall>n \<in> set ns. plain_name n" "take (length ns) [''sessions'', session, key, ''records'', entry, name] \<noteq> ns"
  shows "\<not> within_path (names_path root ns) (record_path root session key entry name)"
  using assms within_names[of ns "[''sessions'', session, key, ''records'', entry, name]" root]
  by (simp add: record_path_def)

lemma keeps_prepare_entry:
  assumes "plain_name session" "plain_name key" "plain_name entry" "plain_name name" "plain_name session'" "plain_name key'"
  shows "keeps (record_path root session key entry name) (prepare_entry fc root session' key' description)"
proof -
  have "record_path root session key entry name \<noteq> names_path root [''targets'', key', ''target.txt'']"
    using assms by (simp add: record_path_def names_path_eq)
  then show ?thesis using assms(5,6)
    unfolding prepare_entry_def Let_def
    by (intro keeps_rules keeps_create_dir keeps_write_file) (simp add: store_places join_plain)
qed

lemma keeps_write_entry:
  fixes root :: string
  assumes "plain_name session" "plain_name key" "plain_name entry" "plain_name name" "plain_name session'" "plain_name key'"
    and "plain_name entry'" "plain_name t"
  defines "temporary \<equiv> names_path root [''sessions'', session', key', ''pending'', t]"
  shows "keeps (record_path root session key entry name)
    (write_entry fc json temporary (names_path root [''sessions'', session', key', ''records'', entry']) stored content)"
proof -
  let ?q = "record_path root session key entry name"
  have "?q \<noteq> path_join temporary ''content''" "?q \<noteq> path_join temporary ''record.json''"
    "?q \<noteq> names_path root [''sessions'', session', key', ''records'', entry']" "\<not> within_path temporary ?q"
    using assms by (simp_all add: record_path_def names_path_eq join_plain within_names)
  then show ?thesis unfolding write_entry_def
    by (cases content) (simp, intro keeps_rules keeps_write_file keeps_rename; assumption)+
qed

lemma finish_entry_keeps:
  assumes "\<not> within_path temporary q"
  shows "file_at (finish_entry fc pending_dir temporary outcome w) q = file_at w q"
  using assms by (auto simp: finish_entry_def remove_all_keeps split: sum.splits)

text \<open>A save, taken apart.\<close>

lemma save_entry_cases:
  assumes save: "save_entry hex fc json (target_area root session key) shown rel_path stored content w = Some (w', r)"
    and plain: "plain_name session" "plain_name key"
  obtains (refused) e where "r = Inl e" "file_at w' = file_at w"
  | (tried) t w1 w2 outcome where "plain_name t" "file_at w1 = file_at w"
      "write_entry fc json (names_path root [''sessions'', session, key, ''pending'', t])
         (path_join (names_path root [''sessions'', session, key, ''records'']) (hex rel_path)) stored content w1 = (w2, outcome)"
      "w' = finish_entry fc (names_path root [''sessions'', session, key, ''pending''])
         (names_path root [''sessions'', session, key, ''pending'', t]) outcome w2"
      "r = res_bind outcome (\<lambda>_. Inr (shown @ ''/'' @ rel_path))"
proof -
  let ?parent = "names_path root [''sessions'', session, key, ''pending'']"
  have places: "path_join (target_area root session key) ''pending'' = ?parent"
    "path_join (target_area root session key) ''records'' = names_path root [''sessions'', session, key, ''records'']"
    "path_join ?parent (pending_name (st_process fc) n) =
       names_path root [''sessions'', session, key, ''pending'', pending_name (st_process fc) n]" for n
    using plain by (simp_all add: store_places join_plain plain_pending)
  from save obtain w1 made where made: "create_temporary_entry fc ?parent w = Some (w1, made)"
    by (auto simp: save_entry_def places split: option.splits prod.splits)
  then have below: "made_below ?parent w (w1, made)" by (rule temporary_entry)
  show thesis
  proof (cases made)
    case (Inl e)
    then show thesis using save made below refused by (auto simp: save_entry_def places made_below_def)
  next
    case (Inr temporary)
    then obtain n where n: "temporary = path_join ?parent (pending_name (st_process fc) n)" "file_at w1 = file_at w"
      using below by (auto simp: made_below_def)
    obtain w2 outcome where wrote: "write_entry fc json temporary
        (path_join (names_path root [''sessions'', session, key, ''records'']) (hex rel_path)) stored content w1 = (w2, outcome)"
      by (cases "write_entry fc json temporary
        (path_join (names_path root [''sessions'', session, key, ''records'']) (hex rel_path)) stored content w1")
    show thesis
      using tried[of "pending_name (st_process fc) n" w1 w2 outcome] save made Inr n wrote
      by (simp add: save_entry_def places plain_pending)
  qed
qed

lemma save_keeps:
  assumes "save hex fc json bs config target session' rel_path stored content w = Some (w', r)"
    and "bst_root bs = Some root" "plain_keys hex" "plain_name session'"
    and "plain_name session" "plain_name key" "plain_name entry" "plain_name name"
    and there: "file_at w (record_path root session key entry name) \<noteq> None"
  shows "file_at w' (record_path root session key entry name) = file_at w (record_path root session key entry name)"
proof -
  let ?q = "record_path root session key entry name"
  show ?thesis
  proof (cases "target_description config target (bst_startup_directory bs)")
    case (Inl e)
    then show ?thesis using assms(1,2) by (auto simp: save_def store_root_def res_simps)
  next
    case (Inr description)
    let ?key = "hex description"
    obtain w1 ready where prepared: "prepare_entry fc root session' ?key description w = (w1, ready)"
      by (cases "prepare_entry fc root session' ?key description w")
    have w1: "file_at w1 ?q = file_at w ?q"
      using keepsD[OF keeps_prepare_entry[OF assms(5-8,4) plain_keysD[OF assms(3)]] there] prepared by (metis fst_conv)
    show ?thesis
    proof (cases ready)
      case (Inl e)
      then show ?thesis using assms(1,2) Inr prepared w1 by (auto simp: save_def store_root_def res_simps)
    next
      case R: (Inr u)
      have save: "save_entry hex fc json (target_area root session' ?key) session' rel_path stored content w1 = Some (w', r)"
        using assms(1,2) Inr prepared R by (simp add: save_def store_root_def res_simps)
      show ?thesis
      proof (cases rule: save_entry_cases[OF save assms(4) plain_keysD[OF assms(3)]])
        case (1 e)
        then show ?thesis using w1 by simp
      next
        case (2 t w2 w3 outcome)
        have "\<not> within_path (names_path root [''sessions'', session', ?key, ''pending'', t]) ?q"
          using 2(1) assms plain_keysD[OF assms(3)] by (intro record_path_other) auto
        moreover have "file_at w3 ?q = file_at w2 ?q"
          using keepsD[OF keeps_write_entry[where root = root and json = json and stored = stored and content = content,
                OF assms(5-8,4) plain_keysD[OF assms(3), of description] plain_keysD[OF assms(3), of rel_path] 2(1)],
              of w2] 2(2) arg_cong[OF 2(3), of fst] w1 there assms(4) plain_keysD[OF assms(3)]
          by (simp add: join_plain)
        ultimately show ?thesis using 2 w1 by (simp add: finish_entry_keeps)
      qed
    qed
  qed
qed

text \<open>A save that succeeds leaves the record and its content.\<close>

definition saved_as :: "string \<Rightarrow> stored_backup \<Rightarrow> bytes option \<Rightarrow> record_json \<Rightarrow> 'w \<Rightarrow> bool" where
  "saved_as dir stored content json w \<longleftrightarrow>
     (\<exists>bs. rj_write json stored = Inr bs \<and> file_at w (dir @ ''/record.json'') = Some bs)
     \<and> (\<forall>c. content = Some c \<longrightarrow> file_at w (dir @ ''/content'') = Some c)"

lemma written_kept:
  assumes "snd (write_file_owner_only fc p c w) = Inr u" "q \<noteq> p"
  shows "file_at (fst (write_file_owner_only fc p c w)) q = file_at w q"
  using assms open_keeps[of q p file_mode] write_keeps[of q p c]
  by (auto simp: write_file_owner_only_def st_bind_def split: prod.splits sum.splits) (metis fst_conv)+

lemma write_entry_exact:
  assumes wrote: "write_entry fc json temporary destination stored content w = (w', Inr u)"
    and t: "path_join temporary ''content'' = temporary @ ''/content''"
      "path_join temporary ''record.json'' = temporary @ ''/record.json''"
  shows "saved_as destination stored content json w'"
proof -
  let ?c = "case content of Some bs \<Rightarrow> st_map_err io_run_error (write_file_owner_only fc (temporary @ ''/content'') bs)
       | None \<Rightarrow> st_result (Inr ())"
  from wrote obtain w1 bs w2 where steps: "?c w = (w1, Inr ())" "rj_write json stored = Inr bs"
    "write_file_owner_only fc (temporary @ ''/record.json'') bs w1 = (w2, Inr ())"
    "fs_rename fc temporary destination w2 = (w', Inr ())"
    by (auto simp: write_entry_def st_bind_def st_result_def st_map_err_def t res_map_err_Inr
        split: prod.splits sum.splits cong: option.case_cong)
  have stored: "file_at w2 (temporary @ ''/record.json'') = Some bs"
    using write_file_exact[of "temporary @ ''/record.json''" bs w1] steps(3) by simp
  have body: "file_at w2 (temporary @ ''/content'') = Some c" if c: "content = Some c" for c
  proof -
    have "write_file_owner_only fc (temporary @ ''/content'') c w = (w1, Inr ())"
      using steps(1) c by (auto simp: st_map_err_def split: prod.splits sum.splits) (metis res_map_err_Inr)
    then have "file_at w1 (temporary @ ''/content'') = Some c"
      using write_file_exact[of "temporary @ ''/content''" c w] by simp
    then show ?thesis
      using written_kept[of "temporary @ ''/record.json''" bs w1 "()" "temporary @ ''/content''"] steps(3) by simp
  qed
  show ?thesis
    using stored body steps(2) rename_moves[of temporary destination w2 "()" "''record.json''"]
      rename_moves[of temporary destination w2 "()" "''content''"] steps(4)
    by (auto simp: saved_as_def)
qed

lemma saved_as_record:
  "saved_as (names_path root [''sessions'', session, key, ''records'', entry]) stored content json w \<longleftrightarrow>
     (\<exists>bs. rj_write json stored = Inr bs \<and> file_at w (record_path root session key entry ''record.json'') = Some bs)
     \<and> (\<forall>c. content = Some c \<longrightarrow> file_at w (record_path root session key entry ''content'') = Some c)"
  by (simp add: saved_as_def record_path_below)

lemma save_exact:
  assumes "save hex fc json bs config target session rel_path stored content w = Some (w', Inr shown)"
    and "bst_root bs = Some root" "plain_keys hex" "plain_name session"
    and key: "target_key hex config target (bst_startup_directory bs) = Inr key"
  shows "saved_as (names_path root [''sessions'', session, key, ''records'', hex rel_path]) stored content json w'"
proof -
  from key obtain description where d: "target_description config target (bst_startup_directory bs) = Inr description"
      "key = hex description"
    by (auto simp: target_key_def res_simps split: sum.splits)
  have plain: "plain_name key" "plain_name (hex rel_path)" using assms(3) d(2) by (auto dest: plain_keysD)
  obtain w1 where save: "save_entry hex fc json (target_area root session key) session rel_path stored content w1
      = Some (w', Inr shown)"
    using assms(1,2) d by (auto simp: save_def store_root_def res_simps split: prod.splits sum.splits)
  show ?thesis
  proof (cases rule: save_entry_cases[OF save assms(4) plain(1)])
    case (2 t w2 w3 outcome)
    then have ok: "outcome = Inr ()" by (cases outcome) (auto simp: res_simps)
    let ?temporary = "names_path root [''sessions'', session, key, ''pending'', t]"
    have joined: "path_join ?temporary ''content'' = ?temporary @ ''/content''"
        "path_join ?temporary ''record.json'' = ?temporary @ ''/record.json''"
      using 2(1) assms(4) plain by (simp_all add: join_plain) (simp_all add: names_path_def)
    have outside: "\<not> within_path ?temporary (record_path root session key (hex rel_path) name)" if "plain_name name" for name
      using 2(1) assms(4) plain that by (intro record_path_other) auto
    have "saved_as (names_path root [''sessions'', session, key, ''records'', hex rel_path]) stored content json w3"
      using write_entry_exact[OF 2(3)[unfolded ok] joined] assms(4) plain by (simp add: join_plain)
    then show ?thesis using 2(4) outside by (simp add: saved_as_record finish_entry_keeps)
  qed simp
qed

subsection \<open>Reading\<close>

lemma read_exact_record:
  assumes "saved_as (names_path root [''sessions'', session, key, ''records'', hex rel_path]) stored content json w"
    and "bst_root bs = Some root" "plain_keys hex" "plain_name session" "json_reads_back json"
    and "target_key hex config target (bst_startup_directory bs) = Inr key"
    and "stored_path stored = rel_path" "entry_parse rel_path = Inr entry" "record_of stored content = Some found"
  shows "snd (read_record hex fc json bs config target session rel_path w) = Inr found
    \<or> read_failed (snd (read_record hex fc json bs config target session rel_path w))"
proof -
  have "plain_name key" using assms(3,6)
    by (auto simp: target_key_def res_simps plain_keys_def split: sum.splits)
  let ?dir = "names_path root [''sessions'', session, key, ''records'', hex rel_path]"
  from \<open>plain_name key\<close> have dir: "path_join (path_join (target_area root session key) ''records'') (hex rel_path) = ?dir"
    and files: "path_join ?dir ''record.json'' = ?dir @ ''/record.json''" "path_join ?dir ''content'' = ?dir @ ''/content''"
    using assms(3,4) by (simp_all add: store_places join_plain plain_keysD) (simp_all add: names_path_def)
  obtain js where js: "rj_write json stored = Inr js" "file_at w (?dir @ ''/record.json'') = Some js"
    and body: "\<And>c. content = Some c \<Longrightarrow> file_at w (?dir @ ''/content'') = Some c"
    using assms(1) by (auto simp: saved_as_def)
  have parsed: "parse_stored_record json js path = Inr stored" for path
    using assms(5,7,8) js(1) by (simp add: parse_stored_record_def json_reads_back_def res_simps)
  obtain w1 r where read: "fs_read fc (?dir @ ''/record.json'') w = (w1, r)"
    by (cases "fs_read fc (?dir @ ''/record.json'') w")
  show ?thesis
  proof (cases r)
    case (Inl e)
    then show ?thesis using assms(2,6) read
      by (auto simp: read_record_def Let_def st_bind_def st_result_def st_map_err_def store_root_def dir files read_failed_def)
  next
    case (Inr bs')
    then have "bs' = js" using read_exact[of "?dir @ ''/record.json''" w bs'] read js(2) by simp
    moreover have "file_at w1 = file_at w" using read_keeps[of "?dir @ ''/record.json''" w] read by simp
    ultimately show ?thesis using assms(2,6,7,9) read Inr body parsed read_exact[of "?dir @ ''/content''" w1]
      by (cases stored; cases "fs_read fc (?dir @ ''/content'') w1"; cases "snd (fs_read fc (?dir @ ''/content'') w1)")
         (auto simp: read_record_def Let_def st_bind_def st_result_def st_map_err_def store_root_def dir files read_failed_def
           content_of_record_def)
  qed
qed

lemma keeps_if_result: "keeps q (if b then f else g)" if "keeps q f" "keeps q g"
  using that by simp

lemma keeps_read_stored: "keeps q (read_stored_record fc json p)"
  unfolding read_stored_record_def Let_def by (intro keeps_rules)

lemma keeps_listed_record: "keeps q (listed_record fc json p)"
  unfolding listed_record_def Let_def
  by (rule keeps_bind[OF keeps_read_stored])
     (auto intro!: keeps_rules split: option.splits stored_record.splits)

lemma keeps_list_records: "keeps q (list_records fc json dir records)"
proof (induction records)
  case (Cons r records)
  then show ?case
  proof (cases r)
    case (Inr name)
    have "keeps q (\<lambda>w. list_records fc json dir (Inr name # records) w)"
      unfolding list_records.simps
      by (rule keeps_bind[OF keeps_listed_record]) (auto intro!: keeps_rules Cons split: option.splits)
    then show ?thesis using Inr by simp
  qed (simp add: keeps_def)
qed (simp add: keeps_def)

lemma keeps_listed_session: "keeps q (listed_session fc json tf dir key session)"
  unfolding listed_session_def Let_def
  by (auto intro!: keeps_rules keeps_list_records split: option.splits)

lemma keeps_list_each: "keeps q (list_each fc json tf dir key entries)"
proof (induction entries)
  case (Cons r entries)
  then show ?case
  proof (cases r)
    case (Inr name)
    have "keeps q (\<lambda>w. list_each fc json tf dir key (Inr name # entries) w)"
      unfolding list_each.simps by (intro keeps_rules keeps_listed_session Cons)
    then show ?thesis using Inr by simp
  qed (simp add: keeps_def)
qed (simp add: keeps_def)

lemma keeps_list_sessions: "keeps q (list_sessions hex fc json tf bs config target)"
  unfolding list_sessions_def Let_def
  by (auto intro!: keeps_rules keeps_list_each split: option.splits)

lemma keeps_read_record: "keeps q (read_record hex fc json bs config target session rel_path)"
  unfolding read_record_def content_of_record_def Let_def
  by (auto intro!: keeps_rules split: stored_record.splits)

lemma keeps_prepare_target:
  assumes "bst_root bs = Some root" "plain_keys hex" "plain_name session'"
    and "plain_name session" "plain_name key" "plain_name entry" "plain_name name"
  shows "keeps (record_path root session key entry name) (prepare_target hex fc bs config target session')"
proof -
  have "record_path root session key entry name \<noteq> names_path root [''targets'', hex d, ''target.txt'']" for d
    using assms by (simp add: record_path_def names_path_eq plain_keysD)
  then have "keeps (record_path root session key entry name)
      (write_file_owner_only fc (path_join (target_directory root (hex d)) ''target.txt'') d)" for d
    using assms(2,3) by (intro keeps_write_file) (simp add: store_places join_plain plain_keysD)
  then show ?thesis unfolding prepare_target_def Let_def
    using assms(1) by (intro keeps_from_result keeps_rules keeps_create_dir) (auto simp: store_root_def)
qed

lemma tidy_areas_keeps [simp]: "file_at (tidy_areas fc dir areas w) = file_at w"
proof (induction areas arbitrary: w)
  case (Cons r areas)
  then show ?case by (cases r) (simp_all add: Let_def)
qed simp

lemma finish_session_keeps [simp]: "file_at (finish_session fc bs session w) = file_at w"
  by (auto simp: finish_session_def Let_def split: option.splits sum.splits)

lemma prepare_reservations_keeps: "keeps q (prepare_reservations fc root)"
  unfolding prepare_reservations_def Let_def by (intro keeps_rules keeps_create_dir)

lemma reserve_loop_keeps:
  assumes "reserve_loop fc tf dir now existing w = Some out"
  shows "file_at (fst out) = file_at w"
proof -
  have "fc = fc \<longrightarrow> file_at (fst out) = file_at w"
  proof (rule reserve_loop.raw_induct
      [where P = "\<lambda>fc' tf dir now existing w out. fc' = fc \<longrightarrow> file_at (fst out) = file_at w", OF _ assms], rule impI)
    fix self fc' tf dir now existing w out
    assume self: "\<And>fc' tf dir now existing w out. self fc' tf dir now existing w = Some out
          \<Longrightarrow> fc' = fc \<longrightarrow> file_at (fst out) = file_at w"
      and body: "(case next_session_id tf now existing of
         Inl _ \<Rightarrow> Some (w, Inl (run_error_text exhausted_text))
       | Inr new_id \<Rightarrow>
          (let reservation = path_join dir new_id; made = fs_create_dir fc' reservation w
           in case snd made of
                Inl e \<Rightarrow>
                  if io_kind e = KAlreadyExists then self fc' tf dir now (existing @ [new_id]) (fst made)
                  else Some (fst made, Inl (store_failure reservation e))
              | Inr _ \<Rightarrow>
                  Some (st_bind (st_map_err io_run_error (set_dir_permissions fc' reservation))
                    (\<lambda>_. st_result (Inr new_id)) (fst made)))) = Some out"
      and [simp]: "fc' = fc"
    have moded: "file_at (fst (st_bind (st_map_err io_run_error (set_dir_permissions fc p)) (\<lambda>_. st_result r) w)) = file_at w"
      for p and r :: "run_error + string" and w
      by (auto simp: st_bind_def st_map_err_def st_result_def set_dir_permissions_def split: prod.splits sum.splits)
         (metis fst_conv set_mode_keeps)+
    show "file_at (fst out) = file_at w"
      using body self[of fc tf dir now _ _ out]
      by (fastforce simp: Let_def moded split: sum.splits if_splits)
  qed
  then show ?thesis by simp
qed

lemma reserve_session_keeps:
  assumes "reserve_session fc tf bs w = Some out" "file_at w q \<noteq> None"
  shows "file_at (fst out) q = file_at w q"
proof (cases "store_root bs")
  case (Inl e)
  then show ?thesis using assms by (auto simp: reserve_session_def)
next
  case (Inr root)
  obtain w1 ready where prepared: "prepare_reservations fc root w = (w1, ready)" by (cases "prepare_reservations fc root w")
  then have w1: "file_at w1 q = file_at w q"
    using keepsD[OF prepare_reservations_keeps assms(2), of root] by simp
  show ?thesis
  proof (cases ready)
    case (Inl e)
    then show ?thesis using assms(1) \<open>store_root bs = Inr root\<close> prepared w1 by (auto simp: reserve_session_def)
  next
    case (Inr existing)
    obtain w2 now where now: "reservation_now fc (bst_reservation_time bs) w1 = (w2, now)"
      by (cases "reservation_now fc (bst_reservation_time bs) w1")
    then have "file_at w2 = file_at w1"
      by (auto simp: reservation_now_def split: reservation_time.splits) (metis clock_keeps fst_conv)
    then show ?thesis
      using assms(1) \<open>store_root bs = Inr root\<close> prepared Inr now w1
      by (auto simp: reserve_session_def reserve_loop_keeps)
  qed
qed

subsection \<open>Removing what has expired\<close>

lemma keeps_remove_areas:
  "\<forall>key \<in> set keys. \<not> within_path (path_join dir key) q \<Longrightarrow> keeps q (remove_areas fc dir keys n)"
proof (induction keys arbitrary: n)
  case (Cons key keys)
  show ?case unfolding keeps_def
  proof (intro allI impI)
    fix w assume there: "file_at w q \<noteq> None"
    obtain w1 r where removed: "fs_remove_dir_all fc (path_join dir key) w = (w1, r)"
      by (cases "fs_remove_dir_all fc (path_join dir key) w")
    then have w1: "file_at w1 q = file_at w q"
      using Cons.prems remove_all_keeps[of "path_join dir key" q w] by simp
    have rest: "file_at (fst (remove_areas fc dir keys m w1)) q = file_at w q" for m
      using keepsD[OF Cons.IH, of w1 m] Cons.prems w1 there by simp
    show "file_at (fst (remove_areas fc dir (key # keys) n w)) q = file_at w q"
      using removed w1 rest by (auto simp: Let_def split: sum.split)
  qed
qed (simp add: keeps_def)

lemma release_keeps: "file_at (fst (release fc reservation w)) = file_at w"
proof (cases reservation)
  case (Some path)
  obtain w1 r where "fs_remove_dir fc path w = (w1, r)" by (cases "fs_remove_dir fc path w")
  then show ?thesis using Some remove_dir_keeps[of path w] by (auto simp: release_def split: sum.split)
qed (simp add: release_def)

lemma remove_session_dir_keeps: "file_at (fst (remove_session_dir fc dir reservation w)) = file_at w"
proof -
  obtain w1 r where "fs_remove_dir fc dir w = (w1, r)" by (cases "fs_remove_dir fc dir w")
  then show ?thesis using remove_dir_keeps[of dir w]
    by (auto simp: remove_session_dir_def release_keeps split: sum.split io_kind.split)
qed

lemma keeps_remove_expired:
  assumes "\<forall>key \<in> set keys. \<not> within_path (path_join dir key) q"
  shows "keeps q (remove_expired_session fc dir reservation keys)"
  unfolding remove_expired_session_def
  by (intro keeps_rules keeps_remove_areas assms)
     (auto intro!: keeps_result keepsI simp: remove_session_dir_keeps split: option.splits list.splits)

lemma keeps_cleanup_each:
  assumes "\<And>name. Inr name \<in> set entries \<Longrightarrow> is_session_expired tf name days now = Some True
      \<Longrightarrow> \<forall>key \<in> set keys. \<not> within_path (target_area root name key) q"
  shows "keeps q (cleanup_each fc tf root days now keys entries n)"
  using assms
proof (induction entries arbitrary: n)
  case (Cons r entries)
  show ?case
  proof (cases r)
    case (Inr name)
    have rest: "keeps q (cleanup_each fc tf root days now keys entries m)" for m
      using Cons by simp
    show ?thesis
    proof (cases "is_utf8 name \<and> is_session_expired tf name days now = Some True")
      case True
      then have "keeps q (\<lambda>w. cleanup_each fc tf root days now keys (Inr name # entries) n w)"
        using Cons.prems[of name] Inr
        by (auto simp: target_area_def intro!: keeps_bind keeps_remove_expired rest)
      then show ?thesis using Inr by simp
    next
      case False
      then show ?thesis using Inr rest[of n] by (auto simp: keeps_def)
    qed
  qed (simp add: keeps_def)
qed (simp add: keeps_def)

lemma keeps_bind_result:
  "keeps q f \<Longrightarrow> (\<And>w x. snd (f w) = Inr x \<Longrightarrow> keeps q (g x)) \<Longrightarrow> keeps q (st_bind f g)"
  by (auto simp: keeps_def st_bind_def split: prod.splits sum.splits) (metis fst_conv snd_conv)+

lemma keeps_cleanup:
  assumes "bst_root bs = Some root"
    and spared: "\<And>name keys key. plain_name name
      \<Longrightarrow> is_session_expired tf name (bc_retention_days (cf_backup config)) (bst_now bs) = Some True
      \<Longrightarrow> configured_target_keys hex config (bst_startup_directory bs) = Inr keys
      \<Longrightarrow> key \<in> set keys \<Longrightarrow> \<not> within_path (target_area root name key) q"
  shows "keeps q (cleanup_expired hex fc tf bs config)"
proof -
  have "keeps q (case found of None \<Rightarrow> st_result (Inr 0)
      | Some sessions \<Rightarrow> st_bind (st_result (configured_target_keys hex config (bst_startup_directory bs)))
          (\<lambda>keys. cleanup_each fc tf root (bc_retention_days (cf_backup config)) (bst_now bs) keys sessions 0))"
    if "snd (or_missing (fs_read_dir fc dir) dir w) = Inr found" for found dir w
  proof (cases found)
    case (Some sessions)
    then have "snd (fs_read_dir fc dir w) = Inr sessions"
      using that by (auto simp: or_missing_def unless_not_found_def split: prod.splits sum.splits if_splits)
    then show ?thesis using Some spared read_dir_names
      by (auto intro!: keeps_from_result keeps_cleanup_each)
  qed (simp add: keeps_result)
  then show ?thesis using assms(1)
    by (auto simp: cleanup_expired_def Let_def intro!: keeps_bind_result keeps_or_missing keeps_calls)
qed

subsection \<open>Later runs\<close>

lemma list_all2_right: "list_all2 P xs ys \<Longrightarrow> y \<in> set ys \<Longrightarrow> \<exists>x. P x y"
  by (induction rule: list_all2_induct) auto

lemma keys_plain:
  assumes "configured_target_keys hex config dir = Inr keys" "key \<in> set keys" "plain_keys hex"
  shows "plain_name key"
proof -
  obtain target where "target_key hex config target dir = Inr key"
    using list_all2_right[OF assms(1)[unfolded configured_target_keys_def res_collect_Inr] assms(2)] by blast
  then show ?thesis using assms(3) by (auto simp: target_key_def res_simps plain_keys_def split: sum.splits)
qed

lemma step_keeps_record:
  assumes "store_step hex fc json tf root session w w'" "plain_keys hex"
    and plain: "plain_name session" "plain_name key" "plain_name entry" "plain_name name"
    and there: "file_at w (record_path root session key entry name) \<noteq> None"
  shows "file_at w' (record_path root session key entry name) = file_at w (record_path root session key entry name)"
  using assms(1)
proof cases
  case (StepReserve bs out)
  then show ?thesis using reserve_session_keeps[OF _ there] by simp
next
  case (StepPrepare bs session' config target)
  then show ?thesis using keepsD[OF keeps_prepare_target[OF _ assms(2) _ plain] there] by simp
next
  case (StepSaveFile bs session' config target rel_path real_path content out)
  then have "save hex fc json bs config target session' rel_path (StoredFile rel_path real_path) (Some content) w = Some (fst out, snd out)"
    by (simp add: save_file_def)
  from save_keeps[OF this StepSaveFile(2) assms(2) StepSaveFile(3) plain there] show ?thesis by (simp add: StepSaveFile(1))
next
  case (StepSaveLink bs session' config target rel_path link out)
  then have "save hex fc json bs config target session' rel_path (StoredSymlink rel_path (sk_link_target link)
      (map_option fst (sk_expected link)) (map_option snd (sk_expected link))) None w = Some (fst out, snd out)"
    by (simp add: save_symlink_def)
  from save_keeps[OF this StepSaveLink(2) assms(2) StepSaveLink(3) plain there] show ?thesis by (simp add: StepSaveLink(1))
next
  case (StepCleanup bs config)
  have "keeps (record_path root session key entry name) (cleanup_expired hex fc tf bs config)"
  proof (rule keeps_cleanup[OF StepCleanup(2)])
    fix expired keys area
    assume a: "plain_name expired" "configured_target_keys hex config (bst_startup_directory bs) = Inr keys" "area \<in> set keys"
      and "is_session_expired tf expired (bc_retention_days (cf_backup config)) (bst_now bs) = Some True"
    then have "expired \<noteq> session" using StepCleanup(3) by auto
    then show "\<not> within_path (target_area root expired area) (record_path root session key entry name)"
      using a keys_plain[OF a(2,3) assms(2)] plain
      by (simp add: store_places record_path_def within_names)
  qed
  then show ?thesis using keepsD[OF _ there] StepCleanup(1) by simp
qed (simp_all add: keepsD[OF keeps_list_sessions there] keepsD[OF keeps_read_record there])

lemma steps_keep_record:
  assumes "rtranclp (store_step hex fc json tf root session) w w'" "plain_keys hex"
    and "plain_name session" "plain_name key" "plain_name entry" "plain_name name"
    and "file_at w (record_path root session key entry name) \<noteq> None"
  shows "file_at w' (record_path root session key entry name) = file_at w (record_path root session key entry name)"
  using assms(1)
proof (induction rule: rtranclp_induct)
  case (step w1 w2)
  then show ?case using step_keeps_record[OF step(2) assms(2-6)] assms(7) by simp
qed simp

lemma steps_keep_saved:
  assumes "rtranclp (store_step hex fc json tf root session) w w'" "plain_keys hex"
    and "plain_name session" "plain_name key" "plain_name entry"
    and "saved_as (names_path root [''sessions'', session, key, ''records'', entry]) stored content json w"
  shows "saved_as (names_path root [''sessions'', session, key, ''records'', entry]) stored content json w'"
  using assms(6) steps_keep_record[OF assms(1-5)] by (auto simp: saved_as_record)

lemma saved_stays_readable:
  assumes "json_reads_back json" "plain_keys hex" "plain_name session" "bst_root bs = Some root"
    and "save hex fc json bs config target session rel_path stored content w = Some (w', Inr shown)"
    and "stored_path stored = rel_path" "entry_parse rel_path = Inr entry" "record_of stored content = Some found"
    and "rtranclp (store_step hex fc json tf root session) w' w''"
  shows "snd (read_record hex fc json bs config target session rel_path w'') = Inr found
    \<or> read_failed (snd (read_record hex fc json bs config target session rel_path w''))"
proof (cases "target_key hex config target (bst_startup_directory bs)")
  case (Inl e)
  then show ?thesis using assms(4,5)
    by (auto simp: save_def target_key_def store_root_def res_simps split: sum.splits)
next
  case (Inr key)
  then have "plain_name key" using assms(2) by (auto simp: target_key_def res_simps plain_keys_def split: sum.splits)
  then have "saved_as (names_path root [''sessions'', session, key, ''records'', hex rel_path]) stored content json w''"
    by (rule steps_keep_saved[OF assms(9,2,3) _ plain_keysD[OF assms(2)] save_exact[OF assms(5,4,2,3) Inr]])
  then show ?thesis by (rule read_exact_record[OF _ assms(4,2,3,1) Inr assms(6-8)])
qed

end


text \<open>C8: removing expired backups touches nothing else. Whatever the calls answer and wherever one fails, a
  file of the store that was there before is there with the same content after, unless it lies in the area
  of a configured target in a session whose id is older than the retention.\<close>

theorem cleanup_spares_unexpired:
  assumes "file_calls fc file_at" "file_at w q = Some c"
  shows "file_at (fst (cleanup_expired hex fc tf bs config w)) q = Some c
    \<or> (\<exists>root session keys key. bst_root bs = Some root
         \<and> is_session_expired tf session (bc_retention_days (cf_backup config)) (bst_now bs) = Some True
         \<and> configured_target_keys hex config (bst_startup_directory bs) = Inr keys \<and> key \<in> set keys
         \<and> within_path (target_area root session key) q)"
proof (cases "bst_root bs")
  case None
  then show ?thesis using assms(2) by (simp add: cleanup_expired_def st_result_def)
next
  case (Some root)
  then show ?thesis
    using file_calls.keepsD[OF assms(1) file_calls.keeps_cleanup[OF assms(1) Some]] assms(2)
    by (metis option.distinct(1))
qed

subsection \<open>Reserving ends\<close>

text \<open>How far the sequences of an instant are from the last one.\<close>

definition sequences_left :: "time_format \<Rightarrow> int \<Rightarrow> string list \<Rightarrow> nat" where
  "sequences_left tf now existing =
     (case max_opt (sequences_at tf (tf_show tf now) existing) of
        None \<Rightarrow> 2 ^ 64 | Some n \<Rightarrow> 2 ^ 64 - 1 - unat n)"

lemma max_opt_snoc: "\<forall>x \<in> set xs. x < n \<Longrightarrow> max_opt (xs @ [n]) = Some n"
proof (cases xs)
  case (Cons y ys)
  assume a: "\<forall>x \<in> set xs. x < n"
  have "fold max ys y \<le> n" using a Cons max_opt_upper[of xs "fold max ys y"] by force
  then show ?thesis using Cons by (simp add: max_def)
qed simp

lemma sequences_left_next:
  assumes "writes_second tf now second" "next_session_id tf now existing = Inr i"
  shows "sequences_left tf now (existing @ [i]) < sequences_left tf now existing"
    and "i \<notin> set existing" and "parse_session_id tf i \<noteq> None"
proof -
  let ?ns = "sequences_at tf (tf_show tf now) existing"
  obtain n where n: "parse_session_id tf i = Some \<lparr>sid_timestamp = second, sid_sequence = n\<rparr>" "\<forall>k \<in> set ?ns. k < n"
    using next_session_id_parsed[OF assms] by blast
  have same: "tf_show tf second = tf_show tf now" using assms(1) by (simp add: writes_second_def)
  have "sequences_at tf (tf_show tf now) (existing @ [i]) = ?ns @ [n]"
    using n(1) same by (simp add: sequences_at_def map_filter_def)
  then have later: "sequences_left tf now (existing @ [i]) = 2 ^ 64 - 1 - unat n"
    using max_opt_snoc[OF n(2)] by (simp add: sequences_left_def)
  have bound: "unat n < 2 ^ 64" using unsigned_less[of n] by simp
  show "sequences_left tf now (existing @ [i]) < sequences_left tf now existing"
  proof (cases "max_opt ?ns")
    case (Some k)
    then have "unat k < unat n" using max_opt_upper[OF Some] n(2) by (auto simp: word_less_nat_alt)
    then show ?thesis using later Some bound by (simp add: sequences_left_def)
  qed (use later in \<open>simp add: sequences_left_def\<close>)
  show "i \<notin> set existing" using n sequence_at[OF _ n(1)] same by fastforce
  show "parse_session_id tf i \<noteq> None" using n(1) by simp
qed

lemma reserve_loop_ends:
  assumes "writes_second tf now second"
  shows "\<exists>w' r. reserve_loop fc tf dir now existing w = Some (w', r)
    \<and> (\<forall>i. r = Inr i \<longrightarrow> i \<notin> set existing \<and> parse_session_id tf i \<noteq> None)"
proof (induction "sequences_left tf now existing" arbitrary: existing w rule: less_induct)
  case less
  show ?case
  proof (cases "next_session_id tf now existing")
    case (Inl e)
    then show ?thesis by (simp add: reserve_loop.simps)
  next
    case (Inr i)
    note later = sequences_left_next[OF assms Inr]
    obtain w1 made where made: "fs_create_dir fc (path_join dir i) w = (w1, made)"
      by (cases "fs_create_dir fc (path_join dir i) w")
    obtain w2 moded where moded: "set_dir_permissions fc (path_join dir i) w1 = (w2, moded)"
      by (cases "set_dir_permissions fc (path_join dir i) w1")
    show ?thesis
    proof (cases made)
      case (Inl e)
      then show ?thesis using less[OF later(1), of w1] made Inr \<open>made = Inl e\<close>
        by (cases "io_kind e = KAlreadyExists")
           (auto simp: reserve_loop.simps[of fc tf dir now existing w])
    next
      case R: (Inr u)
      then show ?thesis using made moded Inr later(2,3)
        by (cases moded)
           (auto simp: reserve_loop.simps[of fc tf dir now existing w] st_bind_def st_map_err_def st_result_def)
    qed
  qed
qed

text \<open>C9: reserving a session ends with a new id. Whatever the file system answers, the search for a free name
  ends: each name that is taken moves on to a greater sequence, up to the last one. The id that is given can be
  read as an id and is none of the reservations that were there. Of chrono only
  that the instant is written as fifteen characters which are read as its second.\<close>

theorem reserve_session_ends:
  assumes "\<And>w. \<exists>second. writes_second tf (snd (reservation_now fc (bst_reservation_time bs) w)) second"
  shows "case reserve_session fc tf bs w of
      None \<Rightarrow> False
    | Some (w', Inl e) \<Rightarrow> True
    | Some (w', Inr i) \<Rightarrow>
        parse_session_id tf i \<noteq> None
        \<and> list_all (\<lambda>root. case snd (prepare_reservations fc root w) of
             Inr existing \<Rightarrow> i \<notin> set existing | Inl _ \<Rightarrow> False) (opt_list (bst_root bs))"
proof (cases "bst_root bs")
  case None
  then show ?thesis by (simp add: reserve_session_def store_root_def)
next
  case (Some root)
  obtain w1 ready where prepared: "prepare_reservations fc root w = (w1, ready)" by (cases "prepare_reservations fc root w")
  show ?thesis
  proof (cases ready)
    case (Inl e)
    then show ?thesis using Some prepared by (simp add: reserve_session_def store_root_def)
  next
    case (Inr existing)
    obtain w2 now where now: "reservation_now fc (bst_reservation_time bs) w1 = (w2, now)"
      by (cases "reservation_now fc (bst_reservation_time bs) w1")
    obtain second where "writes_second tf now second" using assms[of w1] now by auto
    from reserve_loop_ends[OF this, of fc "path_join root ''reservations''" existing w2]
    show ?thesis using Some prepared Inr now
      by (auto simp: reserve_session_def store_root_def opt_list_def split: sum.split option.split)
  qed
qed

subsection \<open>Witnesses\<close>

definition sample_hex :: "bytes \<Rightarrow> string" where
  "sample_hex b = CHR ''h'' # filter (\<lambda>c. c \<noteq> CHR ''/'') b"

definition sample_stored :: stored_record where
  "sample_stored = StoredFile ''a.txt'' ''/srv/a.txt''"

definition sample_json :: record_json where
  "sample_json =
     \<lparr>rj_write = (\<lambda>r. if r = sample_stored then Inr ''json'' else Inl []),
      rj_read = (\<lambda>bs. if bs = ''json'' then Inr sample_stored else Inl ''unknown'')\<rparr>"

definition sample_backups :: backup_store where
  "sample_backups =
     \<lparr>bst_root = Some ''/b'', bst_startup_directory = ''/'', bst_now = 0, bst_reservation_time = FixedTime 0\<rparr>"

definition sample_memory :: memory_files where
  "sample_memory = \<lparr>mf_dirs = [[]], mf_files = [], mf_faults = [], mf_sequence = 0, mf_clock = 0\<rparr>"

definition sample_settings :: app_config where
  "sample_settings =
     \<lparr>cf_content = \<lparr>cc_defaults = [], cc_rules = []\<rparr>, cf_servers = [], cf_local_root = ''/srv'',
      cf_filter = \<lparr>fc_exclude = [], fc_include = []\<rparr>, cf_ssh = default_ssh, cf_backup = default_backup,
      cf_agent = default_agent, cf_defaults = default_defaults, cf_max_scan_entries = 10\<rparr>"

definition sample_time :: time_format where
  "sample_time =
     \<lparr>tf_show = (\<lambda>_. ''19700101-000000''), tf_parse = (\<lambda>s. if s = ''19700101-000000'' then Some 0 else None)\<rparr>"

declare create_temporary_entry.simps [code]

definition sample_saved :: memory_files where
  "sample_saved =
     \<lparr>mf_dirs =
        [''/b/sessions/s1/hsrv/records/ha.txt'', ''/b/targets'', ''/b/targets/hsrv'', ''/b/sessions/s1/hsrv/records'',
         [], ''/b'', ''/b/sessions'', ''/b/sessions/s1'', ''/b/sessions/s1/hsrv''],
      mf_files =
        [(''/b/targets/hsrv/target.txt'', ''/srv''), (''/b/sessions/s1/hsrv/records/ha.txt/content'', ''hello''),
         (''/b/sessions/s1/hsrv/records/ha.txt/record.json'', ''json'')],
      mf_faults = [], mf_sequence = 1, mf_clock = 0\<rparr>"

lemma sample_save:
  "save_file sample_hex memory_calls sample_json sample_backups sample_settings LocalSide ''s1'' ''a.txt''
     ''/srv/a.txt'' ''hello'' sample_memory = Some (sample_saved, Inr ''s1/a.txt'')"
  by code_simp

lemma sample_contracts:
  "json_reads_back sample_json" "plain_keys sample_hex" "plain_name ''s1''" "bst_root sample_backups = Some ''/b''"
  by (auto simp: json_reads_back_def sample_json_def plain_keys_def sample_hex_def plain_name_def sample_backups_def)

lemma sample_name_parses: "entry_parse ''a.txt'' = Inr \<lparr>ep_rel = \<lparr>typed = ''a.txt''\<rparr>\<rparr>"
  by code_simp


theorem cleanup_spares_unexpired_witness:
  "memory_file sample_saved ''/b/targets/hsrv/target.txt'' = Some ''/srv''
   \<and> (memory_file (fst (cleanup_expired sample_hex memory_calls sample_time sample_backups sample_settings sample_saved))
         ''/b/targets/hsrv/target.txt'' = Some ''/srv''
      \<or> (\<exists>root session keys key. bst_root sample_backups = Some root
         \<and> is_session_expired sample_time session (bc_retention_days (cf_backup sample_settings)) (bst_now sample_backups) = Some True
         \<and> configured_target_keys sample_hex sample_settings (bst_startup_directory sample_backups) = Inr keys \<and> key \<in> set keys
         \<and> within_path (target_area root session key) ''/b/targets/hsrv/target.txt''))"
proof -
  have there: "memory_file sample_saved ''/b/targets/hsrv/target.txt'' = Some ''/srv''"
    by (simp add: memory_file_def sample_saved_def)
  show ?thesis
    using there cleanup_spares_unexpired[of memory_calls memory_file sample_saved "''/b/targets/hsrv/target.txt''" "''/srv''"
        sample_hex sample_time sample_backups sample_settings, OF mem.file_calls_axioms there]
    by (rule conjI)
qed

theorem reserve_session_ends_witness:
  "case reserve_session memory_calls sample_time sample_backups sample_memory of
      None \<Rightarrow> False
    | Some (w', Inl e) \<Rightarrow> True
    | Some (w', Inr i) \<Rightarrow>
        parse_session_id sample_time i \<noteq> None
        \<and> list_all (\<lambda>root. case snd (prepare_reservations memory_calls root sample_memory) of
             Inr existing \<Rightarrow> i \<notin> set existing | Inl _ \<Rightarrow> False) (opt_list (bst_root sample_backups))"
  by (rule reserve_session_ends) (auto simp: writes_second_def sample_time_def)

end
