(* ===== verification/AgentServer.thy ===== *)
theory AgentServer
  imports Wire ScanDrive Framing Targets
begin

text \<open>
  The agent's side of the protocol (\<open>messages.rs\<close> of remote-merge-protocol; \<open>receipt.rs\<close>,
  \<open>tree_listing.rs\<close>, \<open>file_io.rs\<close>, \<open>dispatch\<close> and \<open>server.rs\<close> of remote-merge-agent): the requests, the
  answers and how a request is answered by the operations on the agent's machine, which are a
  parameter. How messages become bytes (MessagePack through serde) is a parameter too.
\<close>

subsection \<open>Messages\<close>

datatype agent_request =
    RqListTree scan_request "string list"
  | RqReadFiles "string list" nat "u64 option"
  | RqHashFiles "string list"
  | RqHashContents "string list"
  | RqWriteFile string bytes bool bool
  | RqInspectPath string
  | RqInspectPaths "string list"
  | RqSymlink string string
  | RqRemove string
  | RqChmod string u32
  | RqReadEntryLink string
  | RqShutdown
  | RqPing

datatype agent_path_check = AcInspected agent_inspection | AcRefused rel_path_error

datatype agent_entry_link = AeSymlink string | AeNotSymlink | AeFailed wire_failure

datatype agent_response =
    AnTreeChunk "listed_entry list" bool "string list" bool "string option" "string list" nat
  | AnTreeFailed scan_failure
  | AnFileContents "file_read_result list" bool "rel_path_error list"
  | AnFileHashes "file_hash_result list" bool "rel_path_error list"
  | AnChanged "wire_failure option"
  | AnPathInspection agent_inspection
  | AnPathInspections "agent_path_check list"
  | AnEntryLink agent_entry_link
  | AnPathRefused rel_path_error
  | AnPong
  | AnError string

fun response_kind :: "agent_response \<Rightarrow> string" where
  "response_kind (AnTreeChunk _ _ _ _ _ _ _) = ''TreeChunk''"
| "response_kind (AnTreeFailed _) = ''TreeFailed''"
| "response_kind (AnFileContents _ _ _) = ''FileContents''"
| "response_kind (AnFileHashes _ _ _) = ''FileHashes''"
| "response_kind (AnChanged _) = ''Changed''"
| "response_kind (AnPathInspection _) = ''PathInspection''"
| "response_kind (AnPathInspections _) = ''PathInspections''"
| "response_kind (AnEntryLink _) = ''EntryLink''"
| "response_kind (AnPathRefused _) = ''PathRefused''"
| "response_kind AnPong = ''Pong''"
| "response_kind (AnError _) = ''Error''"

record codec =
  cd_request :: "agent_request \<Rightarrow> string + bytes"
  cd_read_request :: "bytes \<Rightarrow> string + agent_request"
  cd_response :: "agent_response \<Rightarrow> string + bytes"
  cd_read_response :: "bytes \<Rightarrow> string + agent_response"

subsection \<open>The machine of the agent\<close>

text \<open>An I/O error is the failure it stands for (\<open>from_io_error\<close>) and its words (\<open>os_reason\<close>).\<close>

record os_error =
  ie_failure :: op_failure
  ie_reason :: string

record opened_file =
  of_handle :: nat
  of_created :: bool
  of_new_dirs :: "string list"

record 's agent_machine =
  am_collector :: "'s collector"
  am_read :: "entry_path \<Rightarrow> size_limit \<Rightarrow> 's \<Rightarrow> 's \<times> (op_failure + bytes)"
  am_entry_link :: "entry_path \<Rightarrow> 's \<Rightarrow> 's \<times> (op_failure + string option)"
  am_hash :: "entry_path \<Rightarrow> 's \<Rightarrow> 's \<times> (op_failure + string)"
  am_resolve :: "string \<Rightarrow> 's \<Rightarrow> 's \<times> (resolve_error + resolved_path)"
  am_open :: "entry_path \<Rightarrow> 's \<Rightarrow> 's \<times> (op_failure + opened_file)"
  am_append :: "nat \<Rightarrow> bytes \<Rightarrow> 's \<Rightarrow> 's \<times> (op_failure + unit)"
  am_symlink :: "entry_path \<Rightarrow> string \<Rightarrow> 's \<Rightarrow> 's \<times> (op_failure + string list)"
  am_remove :: "entry_path \<Rightarrow> 's \<Rightarrow> 's \<times> (op_failure + unit)"
  am_chmod :: "entry_path \<Rightarrow> u32 \<Rightarrow> 's \<Rightarrow> 's \<times> (op_failure + unit)"
  am_is_root :: bool
  am_chown_dir :: "string \<Rightarrow> 's \<Rightarrow> 's \<times> (os_error + unit)"
  am_chown_entry :: "entry_path \<Rightarrow> nat option \<Rightarrow> 's \<Rightarrow> 's \<times> (os_error + unit)"
  am_remove_entry :: "entry_path \<Rightarrow> nat option \<Rightarrow> 's \<Rightarrow> 's \<times> (os_error + unit)"
  am_remove_dir :: "string \<Rightarrow> 's \<Rightarrow> 's \<times> (os_error + unit)"

record metadata_config =
  mc_default_uid :: "u32 option"
  mc_default_gid :: "u32 option"

record dispatcher =
  ds_metadata :: metadata_config
  ds_writing :: "string \<Rightarrow> nat option"

definition dispatcher_new :: "metadata_config \<Rightarrow> dispatcher" where
  "dispatcher_new config = \<lparr>ds_metadata = config, ds_writing = Map.empty\<rparr>"

fun split_entries :: "string list \<Rightarrow> entry_path list \<times> rel_path_error list" where
  "split_entries [] = ([], [])"
| "split_entries (path # paths) =
     (case split_entries paths of
        (entries, refused) \<Rightarrow>
          (case entry_parse path of
             Inr entry \<Rightarrow> (entry # entries, refused)
           | Inl refusal \<Rightarrow> (entries, refusal # refused)))"

subsection \<open>Walking the tree\<close>

definition entries_per_chunk :: nat where
  "entries_per_chunk = 1000"

text \<open>The loop of \<open>chunks\<close> over the entries that are left.\<close>

function tree_chunks :: "listing \<Rightarrow> listed_entry list \<Rightarrow> agent_response list" where
  "tree_chunks l rest =
     (if length rest \<le> entries_per_chunk then
        [AnTreeChunk rest True (ls_unreadable_names l) (ls_truncated l) (ls_cycle l)
           (ls_unresolvable_names l) (ls_counted l)]
      else
        AnTreeChunk (take entries_per_chunk rest) False [] False None [] 0
          # tree_chunks l (drop entries_per_chunk rest))"
  by pat_completeness auto
termination by (relation "measure (\<lambda>(l, rest). length rest)") (auto simp: entries_per_chunk_def)

declare tree_chunks.simps [simp del]

definition scan_with :: "glob \<Rightarrow> 's collector \<Rightarrow> scan_request \<Rightarrow> string list \<Rightarrow> 's \<Rightarrow> 's \<times> agent_response list option" where
  "scan_with glob coll request excluded s =
     (case scan glob coll (exclude_new excluded) request s of
        (Inr l, s') \<Rightarrow> (s', Some (tree_chunks l (ls_entries l)))
      | (Inl (StopError (SeFailure f)), s') \<Rightarrow> (s', Some [AnTreeFailed f])
      | (Inl (StopError (SeCollect e)), s') \<Rightarrow> (s', Some [AnTreeFailed (CollectFailed e)])
      | (Inl StopPanic, s') \<Rightarrow> (s', None))"

definition request_paths :: "scan_scope \<Rightarrow> string list" where
  "request_paths scope =
     (case scope of
        ScopeWhole \<Rightarrow> []
      | ScopeStarts starts \<Rightarrow> map st_path starts
      | ScopeChildren path \<Rightarrow> [path])"

definition list_tree ::
  "glob \<Rightarrow> 's collector \<Rightarrow> scan_request \<Rightarrow> string list \<Rightarrow> 's \<Rightarrow> 's \<times> agent_response list option" where
  "list_tree glob coll request excluded s =
     (case res_collect rel_parse (request_paths (sr_scope request)) of
        Inl refusal \<Rightarrow> (s, Some [AnPathRefused refusal])
      | Inr _ \<Rightarrow> scan_with glob coll request excluded s)"

subsection \<open>Reading\<close>

definition response_budget :: nat where
  "response_budget = 8 * 1024 * 1024"

text \<open>\<open>slice::chunks\<close> for a size that is not zero.\<close>

function byte_chunks :: "nat \<Rightarrow> bytes \<Rightarrow> bytes list" where
  "byte_chunks n bs = (if bs = [] \<or> n = 0 then [] else take n bs # byte_chunks n (drop n bs))"
  by pat_completeness auto
termination by (relation "measure (\<lambda>(n, bs). length bs)") auto

declare byte_chunks.simps [simp del]

fun pieces_of :: "string \<Rightarrow> bytes list \<Rightarrow> file_read_result list" where
  "pieces_of path [] = []"
| "pieces_of path (piece # rest) = FrOk path piece (rest \<noteq> []) # pieces_of path rest"

definition read_one ::
  "'s agent_machine \<Rightarrow> entry_path \<Rightarrow> nat \<Rightarrow> size_limit \<Rightarrow> 's \<Rightarrow> 's \<times> file_read_result list" where
  "read_one am entry chunk_size_limit limit s =
     (case am_read am entry limit s of
        (s', Inl failure) \<Rightarrow> (s', [FrFailed (entry_as_typed entry) (wire_of_failure failure)])
      | (s', Inr content) \<Rightarrow>
          (s', if chunk_size_limit = 0 \<or> length content \<le> chunk_size_limit
               then [FrOk (entry_as_typed entry) content False]
               else pieces_of (entry_as_typed entry) (byte_chunks chunk_size_limit content)))"

fun result_size :: "file_read_result \<Rightarrow> nat" where
  "result_size (FrOk path content _) = length path + length content + 64"
| "result_size (FrFailed path _) = length path + 64"

text \<open>The closure given to \<open>read_one\<close>: the answers sent so far, the results pending and their size.\<close>

type_synonym pending_results = "agent_response list \<times> file_read_result list \<times> nat"

definition add_result :: "file_read_result \<Rightarrow> pending_results \<Rightarrow> pending_results" where
  "add_result r p =
     (case p of (sent, pending, pending_size) \<Rightarrow>
       if pending \<noteq> [] \<and> pending_size + result_size r > response_budget
       then (sent @ [AnFileContents pending False []], [r], result_size r)
       else (sent, pending @ [r], pending_size + result_size r))"

fun read_entries ::
  "'s agent_machine \<Rightarrow> entry_path list \<Rightarrow> nat \<Rightarrow> size_limit \<Rightarrow> pending_results \<Rightarrow> 's \<Rightarrow> 's \<times> pending_results" where
  "read_entries am [] chunk_size_limit limit p s = (s, p)"
| "read_entries am (entry # entries) chunk_size_limit limit p s =
     (case read_one am entry chunk_size_limit limit s of
        (s', results) \<Rightarrow> read_entries am entries chunk_size_limit limit (fold add_result results p) s')"

definition size_limit_of :: "u64 option \<Rightarrow> size_limit" where
  "size_limit_of limit = (case limit of None \<Rightarrow> Unlimited | Some n \<Rightarrow> LimitBytes n)"

definition read_files_into ::
  "'s agent_machine \<Rightarrow> string list \<Rightarrow> nat \<Rightarrow> u64 option \<Rightarrow> 's \<Rightarrow> 's \<times> agent_response list" where
  "read_files_into am paths chunk_size_limit limit s =
     (case split_entries paths of
        (entries, refused) \<Rightarrow>
          (case read_entries am entries chunk_size_limit (size_limit_of limit) ([], [], 0) s of
             (s', sent, pending, _) \<Rightarrow> (s', sent @ [AnFileContents pending True refused])))"

definition hash_one :: "'s agent_machine \<Rightarrow> entry_path \<Rightarrow> 's \<Rightarrow> 's \<times> file_hash_result" where
  "hash_one am entry s =
     (case am_hash am entry s of
        (s', Inr hash) \<Rightarrow> (s', FhOk (entry_as_typed entry) hash)
      | (s', Inl failure) \<Rightarrow> (s', FhFailed (entry_as_typed entry) (wire_of_failure failure)))"

definition compare_value :: "'s agent_machine \<Rightarrow> entry_path \<Rightarrow> 's \<Rightarrow> 's \<times> file_hash_result" where
  "compare_value am entry s =
     (case am_entry_link am entry s of
        (s', Inl failure) \<Rightarrow> (s', FhFailed (entry_as_typed entry) (wire_of_failure failure))
      | (s', Inr (Some target)) \<Rightarrow> (s', FhSymlink (entry_as_typed entry) target)
      | (s', Inr None) \<Rightarrow> hash_one am entry s')"

fun each_entry :: "(entry_path \<Rightarrow> 's \<Rightarrow> 's \<times> 'a) \<Rightarrow> entry_path list \<Rightarrow> 's \<Rightarrow> 's \<times> 'a list" where
  "each_entry f [] s = (s, [])"
| "each_entry f (e # es) s =
     (case f e s of (s', x) \<Rightarrow> (case each_entry f es s' of (s'', xs) \<Rightarrow> (s'', x # xs)))"

definition hash_answer ::
  "(entry_path \<Rightarrow> 's \<Rightarrow> 's \<times> file_hash_result) \<Rightarrow> string list \<Rightarrow> 's \<Rightarrow> 's \<times> agent_response" where
  "hash_answer f paths s =
     (case split_entries paths of
        (entries, refused) \<Rightarrow>
          (case each_entry f entries s of (s', results) \<Rightarrow> (s', AnFileHashes results True refused)))"

definition read_entry_link :: "'s agent_machine \<Rightarrow> entry_path \<Rightarrow> 's \<Rightarrow> 's \<times> agent_response" where
  "read_entry_link am entry s =
     (case am_entry_link am entry s of
        (s', Inr (Some target)) \<Rightarrow> (s', AnEntryLink (AeSymlink target))
      | (s', Inr None) \<Rightarrow> (s', AnEntryLink AeNotSymlink)
      | (s', Inl failure) \<Rightarrow> (s', AnEntryLink (AeFailed (wire_of_failure failure))))"

subsection \<open>Inspecting\<close>

fun inspection_of :: "resolve_error + resolved_path \<Rightarrow> agent_inspection" where
  "inspection_of (Inr (ResolvedMissing parent parent_exists)) = AiMissing parent parent_exists"
| "inspection_of (Inr (ResolvedExists real k)) = AiExists real k"
| "inspection_of (Inr (ResolvedSymlink link real k)) = AiSymlink link real k"
| "inspection_of (Inr (ResolvedAncestorNotDirectory real regular)) = AiAncestorNotDirectory real regular"
| "inspection_of (Inl e) = AiUnresolved (resolve_cause e)"

definition inspect_path :: "'s agent_machine \<Rightarrow> rel_path \<Rightarrow> 's \<Rightarrow> 's \<times> agent_inspection" where
  "inspect_path am path s =
     (case am_resolve am (path_to_resolve path) s of (s', r) \<Rightarrow> (s', inspection_of r))"

fun inspect_each :: "'s agent_machine \<Rightarrow> string list \<Rightarrow> 's \<Rightarrow> 's \<times> agent_path_check list" where
  "inspect_each am [] s = (s, [])"
| "inspect_each am (path # paths) s =
     (case (case rel_parse path of
              Inr p \<Rightarrow> (case inspect_path am p s of (s', i) \<Rightarrow> (s', AcInspected i))
            | Inl refusal \<Rightarrow> (s, AcRefused refusal)) of
        (s', check) \<Rightarrow>
          (case inspect_each am paths s' of (s'', checks) \<Rightarrow> (s'', check # checks)))"

subsection \<open>Changing\<close>

definition owner_to_set :: "'s agent_machine \<Rightarrow> metadata_config \<Rightarrow> bool" where
  "owner_to_set am config = (am_is_root am \<and> (mc_default_uid config \<noteq> None \<or> mc_default_gid config \<noteq> None))"

text \<open>\<open>try_for_each\<close>: the first error stops.\<close>

fun chown_dirs :: "'s agent_machine \<Rightarrow> string list \<Rightarrow> 's \<Rightarrow> 's \<times> (os_error + unit)" where
  "chown_dirs am [] s = (s, Inr ())"
| "chown_dirs am (dir # dirs) s =
     (case am_chown_dir am dir s of
        (s', Inl e) \<Rightarrow> (s', Inl e)
      | (s', Inr _) \<Rightarrow> chown_dirs am dirs s')"

fun remove_dirs :: "'s agent_machine \<Rightarrow> string list \<Rightarrow> 's \<Rightarrow> 's \<times> string list" where
  "remove_dirs am [] s = (s, [])"
| "remove_dirs am (dir # dirs) s =
     (case am_remove_dir am dir s of
        (s', r) \<Rightarrow>
          (case remove_dirs am dirs s' of
             (s'', left) \<Rightarrow>
               (s'', (case r of Inl e \<Rightarrow> [dir @ '' ('' @ ie_reason e @ '')''] | Inr _ \<Rightarrow> []) @ left)))"

definition remove_created ::
  "'s agent_machine \<Rightarrow> string list \<Rightarrow> entry_path \<Rightarrow> nat option \<Rightarrow> 's \<Rightarrow> 's \<times> string list" where
  "remove_created am dirs entry handle s =
     (case am_remove_entry am entry handle s of
        (s', r) \<Rightarrow>
          (case remove_dirs am (rev dirs) s' of
             (s'', left) \<Rightarrow>
               (s'', (case r of
                        Inl e \<Rightarrow> [entry_as_typed entry @ '' ('' @ ie_reason e @ '')'']
                      | Inr _ \<Rightarrow> []) @ left)))"

definition left_text :: "op_failure \<Rightarrow> string list \<Rightarrow> string" where
  "left_text reason left =
     ''cannot set the owner ('' @ show_op_failure reason
     @ ''); these created entries were left because they could not be removed: '' @ join_with '', '' left"

definition own_created ::
  "'s agent_machine \<Rightarrow> string list \<Rightarrow> entry_path \<Rightarrow> nat option \<Rightarrow> 's \<Rightarrow> 's \<times> (op_failure + unit)" where
  "own_created am dirs entry handle s =
     (case (case chown_dirs am dirs s of
              (s', Inl e) \<Rightarrow> (s', Inl e)
            | (s', Inr _) \<Rightarrow> am_chown_entry am entry handle s') of
        (s1, Inr _) \<Rightarrow> (s1, Inr ())
      | (s1, Inl e) \<Rightarrow>
          (case remove_created am dirs entry handle s1 of
             (s2, left) \<Rightarrow>
               (s2, Inl (if left = [] then ie_failure e else Io (left_text (ie_failure e) left)))))"

definition write_first ::
  "'s agent_machine \<Rightarrow> metadata_config \<Rightarrow> entry_path \<Rightarrow> bytes \<Rightarrow> 's \<Rightarrow> 's \<times> (op_failure + nat)" where
  "write_first am config entry content s =
     (case am_open am entry s of
        (s1, Inl f) \<Rightarrow> (s1, Inl f)
      | (s1, Inr opened) \<Rightarrow>
          (case (if of_created opened \<and> owner_to_set am config
                 then own_created am (of_new_dirs opened) entry (Some (of_handle opened)) s1
                 else (s1, Inr ())) of
             (s2, Inl f) \<Rightarrow> (s2, Inl f)
           | (s2, Inr _) \<Rightarrow>
               (case am_append am (of_handle opened) content s2 of
                  (s3, r) \<Rightarrow> (s3, res_bind r (\<lambda>_. Inr (of_handle opened))))))"

definition create_symlink ::
  "'s agent_machine \<Rightarrow> metadata_config \<Rightarrow> entry_path \<Rightarrow> string \<Rightarrow> 's \<Rightarrow> 's \<times> (op_failure + unit)" where
  "create_symlink am config entry target s =
     (case am_symlink am entry target s of
        (s', Inl f) \<Rightarrow> (s', Inl f)
      | (s', Inr new_dirs) \<Rightarrow>
          if owner_to_set am config then own_created am new_dirs entry None s' else (s', Inr ()))"

definition changed_answer :: "op_failure + unit \<Rightarrow> agent_response" where
  "changed_answer r =
     AnChanged (case r of Inl f \<Rightarrow> Some (wire_of_failure f) | Inr _ \<Rightarrow> None)"

definition agent_chmod :: "'s agent_machine \<Rightarrow> entry_path \<Rightarrow> u32 \<Rightarrow> 's \<Rightarrow> 's \<times> (op_failure + unit)" where
  "agent_chmod am entry mode s =
     (case permission_mode mode of
        Inr m \<Rightarrow> am_chmod am entry m s
      | Inl wide \<Rightarrow> (s, Inl (Io (mode_too_wide_text wide))))"

text \<open>One part of a file: the file opened for the first part is kept until the last one.\<close>

definition dispatcher_write ::
  "'s agent_machine \<Rightarrow> dispatcher \<Rightarrow> entry_path \<Rightarrow> bytes \<Rightarrow> bool \<Rightarrow> 's \<Rightarrow> 's \<times> dispatcher \<times> agent_response" where
  "dispatcher_write am d path content more_to_follow s =
     (let key = entry_as_typed path;
          writing = (ds_writing d)(key := None)
      in case (case ds_writing d key of
                 Some handle \<Rightarrow>
                   (case am_append am handle content s of (s1, r) \<Rightarrow> (s1, res_bind r (\<lambda>_. Inr handle)))
               | None \<Rightarrow> write_first am (ds_metadata d) path content s) of
           (s', Inl f) \<Rightarrow> (s', d\<lparr>ds_writing := writing\<rparr>, changed_answer (Inl f))
         | (s', Inr handle) \<Rightarrow>
             (s', d\<lparr>ds_writing := (if more_to_follow then writing(key \<mapsto> handle) else writing)\<rparr>,
              changed_answer (Inr ())))"

subsection \<open>Dispatching\<close>

definition on_rel :: "string \<Rightarrow> (rel_path \<Rightarrow> 's \<Rightarrow> 's \<times> agent_response) \<Rightarrow> 's \<Rightarrow> 's \<times> agent_response" where
  "on_rel path f s = (case rel_parse path of Inr p \<Rightarrow> f p s | Inl refusal \<Rightarrow> (s, AnPathRefused refusal))"

definition on_entry :: "string \<Rightarrow> (entry_path \<Rightarrow> 's \<Rightarrow> 's \<times> agent_response) \<Rightarrow> 's \<Rightarrow> 's \<times> agent_response" where
  "on_entry path f s = (case entry_parse path of Inr p \<Rightarrow> f p s | Inl refusal \<Rightarrow> (s, AnPathRefused refusal))"

text \<open>A change whose result is answered as it is.\<close>

definition answering_change :: "'s \<times> (op_failure + unit) \<Rightarrow> 's \<times> agent_response" where
  "answering_change x = (case x of (s, r) \<Rightarrow> (s, changed_answer r))"

datatype dispatched = DpAnswers "agent_response list" | DpShutdown | DpPanic

definition one_answer :: "dispatcher \<Rightarrow> 's \<times> agent_response \<Rightarrow> 's \<times> dispatcher \<times> dispatched" where
  "one_answer d x = (case x of (s, answer) \<Rightarrow> (s, d, DpAnswers [answer]))"

fun dispatch ::
  "glob \<Rightarrow> 's agent_machine \<Rightarrow> dispatcher \<Rightarrow> agent_request \<Rightarrow> 's \<Rightarrow> 's \<times> dispatcher \<times> dispatched" where
  "dispatch glob am d (RqListTree request excluded) s =
     (case list_tree glob (am_collector am) request excluded s of
        (s', Some answers) \<Rightarrow> (s', d, DpAnswers answers)
      | (s', None) \<Rightarrow> (s', d, DpPanic))"
| "dispatch glob am d (RqReadFiles paths chunk_size_limit limit) s =
     (case read_files_into am paths chunk_size_limit limit s of (s', answers) \<Rightarrow> (s', d, DpAnswers answers))"
| "dispatch glob am d (RqHashFiles paths) s = one_answer d (hash_answer (compare_value am) paths s)"
| "dispatch glob am d (RqHashContents paths) s = one_answer d (hash_answer (hash_one am) paths s)"
| "dispatch glob am d (RqInspectPath path) s =
     one_answer d (on_rel path (\<lambda>p s. case inspect_path am p s of (s', i) \<Rightarrow> (s', AnPathInspection i)) s)"
| "dispatch glob am d (RqInspectPaths paths) s =
     one_answer d (case inspect_each am paths s of (s', checks) \<Rightarrow> (s', AnPathInspections checks))"
| "dispatch glob am d (RqReadEntryLink path) s = one_answer d (on_entry path (read_entry_link am) s)"
| "dispatch glob am d (RqWriteFile path content is_bin more_to_follow) s =
     (case entry_parse path of
        Inr p \<Rightarrow>
          (case dispatcher_write am d p content more_to_follow s of
             (s', d', answer) \<Rightarrow> (s', d', DpAnswers [answer]))
      | Inl refusal \<Rightarrow> (s, d, DpAnswers [AnPathRefused refusal]))"
| "dispatch glob am d (RqSymlink path target) s =
     one_answer d (on_entry path (\<lambda>p s. answering_change (create_symlink am (ds_metadata d) p target s)) s)"
| "dispatch glob am d (RqRemove path) s =
     one_answer d (on_entry path (\<lambda>p s. answering_change (am_remove am p s)) s)"
| "dispatch glob am d (RqChmod path mode) s =
     one_answer d (on_entry path (\<lambda>p s. answering_change (agent_chmod am p mode s)) s)"
| "dispatch glob am d RqPing s = (s, d, DpAnswers [AnPong])"
| "dispatch glob am d RqShutdown s = (s, d, DpShutdown)"

subsection \<open>The loop of the server\<close>

text \<open>The standard input is the bytes that will come until it is closed. The answers to a request are written
  in order and the first that cannot be written ends the process; the reading of the files behind it, which
  the code then skips, is done here. A panic ends the process too.\<close>

datatype serve_end = ServeClosed | ServeShutdown | ServeFrame frame_error | ServeSerialize string | ServePanic

definition send_response :: "codec \<Rightarrow> writer \<Rightarrow> agent_response \<Rightarrow> writer \<times> (serve_end + unit)" where
  "send_response cd w answer =
     (case cd_response cd answer of
        Inl e \<Rightarrow> (w, Inl (ServeSerialize e))
      | Inr payload \<Rightarrow> (case write_frame w payload of (w', r) \<Rightarrow> (w', res_map_err ServeFrame r)))"

fun send_responses :: "codec \<Rightarrow> writer \<Rightarrow> agent_response list \<Rightarrow> writer \<times> (serve_end + unit)" where
  "send_responses cd w [] = (w, Inr ())"
| "send_responses cd w (answer # answers) =
     (case send_response cd w answer of
        (w', Inl e) \<Rightarrow> (w', Inl e)
      | (w', Inr _) \<Rightarrow> send_responses cd w' answers)"

text \<open>What one frame of the client leads to: the next state, or how the loop ends.\<close>

definition serve_frame ::
  "glob \<Rightarrow> 's agent_machine \<Rightarrow> codec \<Rightarrow> bytes \<Rightarrow> 's \<Rightarrow> dispatcher \<Rightarrow> writer
    \<Rightarrow> 's \<times> dispatcher \<times> writer \<times> (serve_end + unit)" where
  "serve_frame glob am cd frame s d w =
     (case cd_read_request cd frame of
        Inl e \<Rightarrow>
          (case send_response cd w (AnError (''deserialization error: '' @ e)) of (w', r) \<Rightarrow> (s, d, w', r))
      | Inr request \<Rightarrow>
          (case dispatch glob am d request s of
             (s', d', DpShutdown) \<Rightarrow> (s', d', w, Inl ServeShutdown)
           | (s', d', DpPanic) \<Rightarrow> (s', d', w, Inl ServePanic)
           | (s', d', DpAnswers answers) \<Rightarrow>
               (case send_responses cd w answers of (w', r) \<Rightarrow> (s', d', w', r))))"

lemma read_frame_shorter: "read_frame stream = (rest, Inr payload) \<Longrightarrow> length rest < length stream"
  using read_frame_bound[of stream rest payload] by auto

function serve_loop ::
  "glob \<Rightarrow> 's agent_machine \<Rightarrow> codec \<Rightarrow> bytes \<Rightarrow> 's \<Rightarrow> dispatcher \<Rightarrow> writer \<Rightarrow> 's \<times> writer \<times> serve_end" where
  "serve_loop glob am cd stream s d w =
     (case read_frame stream of
        (rest, Inl FeUnexpectedEof) \<Rightarrow> (s, w, ServeClosed)
      | (rest, Inl e) \<Rightarrow> (s, w, ServeFrame e)
      | (rest, Inr frame) \<Rightarrow>
          (case serve_frame glob am cd frame s d w of
             (s', d', w', Inl stop) \<Rightarrow> (s', w', stop)
           | (s', d', w', Inr _) \<Rightarrow> serve_loop glob am cd rest s' d' w'))"
  by pat_completeness auto
termination
  by (relation "measure (\<lambda>(glob, am, cd, stream, s, d, w). length stream)")
     (auto dest: sym[THEN read_frame_shorter])

declare serve_loop.simps [simp del]

definition run_agent_loop ::
  "glob \<Rightarrow> 's agent_machine \<Rightarrow> codec \<Rightarrow> metadata_config \<Rightarrow> bytes \<Rightarrow> writer \<Rightarrow> 's \<Rightarrow> 's \<times> writer \<times> serve_end" where
  "run_agent_loop glob am cd config stream w s =
     (case write_all w (format_handshake @ [CHR 0x0A]) of
        (w', Inl e) \<Rightarrow> (s, w', ServeFrame e)
      | (w', Inr _) \<Rightarrow> serve_loop glob am cd stream s (dispatcher_new config) w')"

end
