(* ===== verification/AgentClient.thy ===== *)
theory AgentClient
  imports AgentServer RootWatch Lossy
begin

text \<open>
  The program's side of the connection to an agent (\<open>client/mod.rs\<close>, \<open>ops.rs\<close> and \<open>reads.rs\<close> of
  remote-merge-agent): the handshake, sending a request, reading the answers to it, and checking that
  every path asked was answered.
\<close>

subsection \<open>The connection\<close>

text \<open>The reader is the bytes that will come and how a read past them ends. \<open>ac_write_error\<close> has the words of
  the error of a writer that takes no more; a flush is part of its write.\<close>

datatype stream_end = EndsClosed | EndsTimeout string | EndsError string

record agent_client =
  ac_stream :: bytes
  ac_end :: stream_end
  ac_writer :: writer
  ac_write_error :: string

type_synonym 'a client_act = "agent_client \<Rightarrow> agent_client \<times> (run_error + 'a)"

definition timeout_text :: string where
  "timeout_text = ''the agent did not answer within the timeout''"

definition connection_lost :: "string \<Rightarrow> disconnection \<Rightarrow> run_error" where
  "connection_lost what d = op_run_error OpRead what (Disconnected d)"

text \<open>\<open>io::Error::to_string\<close>.\<close>

definition frame_error_text :: "agent_client \<Rightarrow> frame_error \<Rightarrow> string" where
  "frame_error_text c e =
     (case e of
        FeInvalidInput words \<Rightarrow> words
      | FeInvalidData words \<Rightarrow> words
      | FeUnexpectedEof \<Rightarrow>
          (case ac_end c of
             EndsClosed \<Rightarrow> ''failed to fill whole buffer''
           | EndsTimeout words \<Rightarrow> words
           | EndsError words \<Rightarrow> words)
      | FeWrite \<Rightarrow> ac_write_error c)"

definition is_timeout :: "agent_client \<Rightarrow> frame_error \<Rightarrow> bool" where
  "is_timeout c e = (e = FeUnexpectedEof \<and> (case ac_end c of EndsTimeout _ \<Rightarrow> True | _ \<Rightarrow> False))"

definition answer_lost :: "agent_client \<Rightarrow> frame_error \<Rightarrow> string" where
  "answer_lost c e = (if is_timeout c e then timeout_text else frame_error_text c e)"

definition mismatch :: "string \<Rightarrow> run_error" where
  "mismatch request =
     connection_lost request
       (NoAnswer (''the answer to '' @ request @ '' does not match the paths asked''))"

definition unexpected :: "string \<Rightarrow> agent_response \<Rightarrow> run_error" where
  "unexpected request answer =
     connection_lost request (NoAnswer (''unexpected answer to '' @ request @ '': '' @ response_kind answer))"

definition agent_refused :: "string \<Rightarrow> run_error" where
  "agent_refused message = [CauseOther (RcAgentRefused message)]"

subsection \<open>The handshake\<close>

definition max_handshake_line :: nat where
  "max_handshake_line = 1024"

datatype handshake_error = HsEof | HsTooLong

fun read_handshake_line :: "bytes \<Rightarrow> bytes \<Rightarrow> bytes \<times> (handshake_error + bytes)" where
  "read_handshake_line line [] = ([], Inl HsEof)"
| "read_handshake_line line (b # bs) =
     (if b = CHR 0x0A then (bs, Inr line)
      else if length line + 1 > max_handshake_line then (bs, Inl HsTooLong)
      else read_handshake_line (line @ [b]) bs)"

definition handshake_lost :: "agent_client \<Rightarrow> handshake_error \<Rightarrow> run_error" where
  "handshake_lost c e =
     (case e of
        HsEof \<Rightarrow>
          if is_timeout c FeUnexpectedEof then run_error_text (timeout_text @ '' (the handshake)'')
          else [CauseOther (RcIo False (frame_error_text c FeUnexpectedEof))]
      | HsTooLong \<Rightarrow>
          run_error_text (''handshake line too long (>'' @ show_nat max_handshake_line @ '' bytes)''))"

text \<open>The argument is the connection before anything was read.\<close>

definition client_connect :: "agent_client \<Rightarrow> run_error + agent_client" where
  "client_connect c =
     (case read_handshake_line [] (ac_stream c) of
        (rest, Inl e) \<Rightarrow> Inl (handshake_lost c e)
      | (rest, Inr line) \<Rightarrow>
          res_bind (parse_handshake (utf8_lossy line)) (\<lambda>version.
          res_bind (check_protocol_version version) (\<lambda>_.
            Inr (c\<lparr>ac_stream := rest\<rparr>))))"

subsection \<open>Requests and answers\<close>

definition client_send :: "codec \<Rightarrow> agent_request \<Rightarrow> unit client_act" where
  "client_send cd request c =
     (case cd_request cd request of
        Inl e \<Rightarrow> (c, Inl (run_error_text e))
      | Inr payload \<Rightarrow>
          (case write_frame (ac_writer c) payload of
             (w, Inr _) \<Rightarrow> (c\<lparr>ac_writer := w\<rparr>, Inr ())
           | (w, Inl (FeInvalidInput words)) \<Rightarrow> (c\<lparr>ac_writer := w\<rparr>, Inl [CauseOther (RcIo True words)])
           | (w, Inl e) \<Rightarrow>
               (c\<lparr>ac_writer := w\<rparr>, Inl (connection_lost ''send'' (NotSent (frame_error_text c e))))))"

definition client_receive :: "codec \<Rightarrow> agent_response client_act" where
  "client_receive cd c =
     (case read_frame (ac_stream c) of
        (rest, Inl e) \<Rightarrow>
          (c\<lparr>ac_stream := rest\<rparr>, Inl (connection_lost ''receive'' (NoAnswer (answer_lost c e))))
      | (rest, Inr frame) \<Rightarrow>
          (c\<lparr>ac_stream := rest\<rparr>,
           res_map_err (\<lambda>e. connection_lost ''receive'' (NoAnswer (''cannot read the answer: '' @ e)))
             (cd_read_response cd frame)))"

definition client_request :: "codec \<Rightarrow> agent_request \<Rightarrow> agent_response client_act" where
  "client_request cd request c =
     (case client_send cd request c of
        (c1, Inl e) \<Rightarrow> (c1, Inl e)
      | (c1, Inr _) \<Rightarrow>
          (case client_receive cd c1 of
             (c2, Inl e) \<Rightarrow> (c2, Inl e)
           | (c2, Inr (AnPathRefused refusal)) \<Rightarrow> (c2, Inl (rel_path_run_error refusal))
           | (c2, Inr (AnError message)) \<Rightarrow> (c2, Inl (agent_refused message))
           | (c2, Inr answer) \<Rightarrow> (c2, Inr answer)))"

text \<open>What an operation makes of the one answer to its request.\<close>

definition client_asking :: "codec \<Rightarrow> agent_request \<Rightarrow> (agent_response \<Rightarrow> run_error + 'a) \<Rightarrow> 'a client_act" where
  "client_asking cd request f c = (case client_request cd request c of (c', r) \<Rightarrow> (c', res_bind r f))"

definition client_ping :: "codec \<Rightarrow> unit client_act" where
  "client_ping cd =
     client_asking cd RqPing (\<lambda>answer. case answer of AnPong \<Rightarrow> Inr () | _ \<Rightarrow> Inl (unexpected ''Ping'' answer))"

definition client_shutdown :: "codec \<Rightarrow> unit client_act" where
  "client_shutdown cd = client_send cd RqShutdown"

subsection \<open>Changes\<close>

text \<open>\<open>{operation:?}\<close>.\<close>

fun operation_debug :: "operation \<Rightarrow> string" where
  "operation_debug OpRead = ''Read''"
| "operation_debug OpWrite = ''Write''"
| "operation_debug OpRemove = ''Remove''"
| "operation_debug OpChmod = ''Chmod''"
| "operation_debug OpCreateSymlink = ''CreateSymlink''"
| "operation_debug OpHash = ''Hash''"
| "operation_debug OpReadEntryLink = ''ReadEntryLink''"

definition changed :: "operation \<Rightarrow> entry_path \<Rightarrow> agent_response \<Rightarrow> run_error + unit" where
  "changed operation path answer =
     (case answer of
        AnChanged None \<Rightarrow> Inr ()
      | AnChanged (Some failure) \<Rightarrow>
          Inl (op_run_error operation (entry_as_typed path) (failure_of_wire failure))
      | _ \<Rightarrow> Inl (unexpected (operation_debug operation) answer))"

definition write_chunk_size :: nat where
  "write_chunk_size = 4 * 1024 * 1024"

definition write_pieces :: "bytes \<Rightarrow> bytes list" where
  "write_pieces content = (if content = [] then [[]] else byte_chunks write_chunk_size content)"

fun send_pieces :: "codec \<Rightarrow> entry_path \<Rightarrow> bool \<Rightarrow> bytes list \<Rightarrow> unit client_act" where
  "send_pieces cd path is_bin [] c = (c, Inr ())"
| "send_pieces cd path is_bin (piece # rest) c =
     (case client_asking cd (RqWriteFile (entry_as_typed path) piece is_bin (rest \<noteq> [])) (changed OpWrite path) c of
        (c', Inl e) \<Rightarrow> (c', Inl e)
      | (c', Inr _) \<Rightarrow> send_pieces cd path is_bin rest c')"

definition client_write_file :: "codec \<Rightarrow> entry_path \<Rightarrow> bytes \<Rightarrow> bool \<Rightarrow> unit client_act" where
  "client_write_file cd path content is_bin = send_pieces cd path is_bin (write_pieces content)"

definition client_symlink :: "codec \<Rightarrow> entry_path \<Rightarrow> string \<Rightarrow> unit client_act" where
  "client_symlink cd path target =
     client_asking cd (RqSymlink (entry_as_typed path) target) (changed OpCreateSymlink path)"

definition client_remove :: "codec \<Rightarrow> entry_path \<Rightarrow> unit client_act" where
  "client_remove cd path = client_asking cd (RqRemove (entry_as_typed path)) (changed OpRemove path)"

definition client_chmod :: "codec \<Rightarrow> entry_path \<Rightarrow> u32 \<Rightarrow> unit client_act" where
  "client_chmod cd path mode = client_asking cd (RqChmod (entry_as_typed path) mode) (changed OpChmod path)"

subsection \<open>Inspecting\<close>

definition client_inspect_path :: "codec \<Rightarrow> rel_path \<Rightarrow> agent_inspection client_act" where
  "client_inspect_path cd path =
     client_asking cd (RqInspectPath (typed path))
       (\<lambda>answer. case answer of AnPathInspection i \<Rightarrow> Inr i | _ \<Rightarrow> Inl (unexpected ''InspectPath'' answer))"

fun inspection_answer :: "agent_path_check \<Rightarrow> run_error + agent_inspection" where
  "inspection_answer (AcInspected i) = Inr i"
| "inspection_answer (AcRefused refusal) = Inl (rel_path_run_error refusal)"

definition client_inspect_paths ::
  "codec \<Rightarrow> rel_path list \<Rightarrow> (run_error + agent_inspection) list client_act" where
  "client_inspect_paths cd paths =
     client_asking cd (RqInspectPaths (map typed paths))
       (\<lambda>answer. case answer of
          AnPathInspections results \<Rightarrow>
            if length results = length paths then Inr (map inspection_answer results)
            else Inl (mismatch ''InspectPaths'')
        | _ \<Rightarrow> Inl (unexpected ''InspectPaths'' answer))"

definition client_read_entry_link :: "codec \<Rightarrow> entry_path \<Rightarrow> string option client_act" where
  "client_read_entry_link cd path =
     client_asking cd (RqReadEntryLink (entry_as_typed path))
       (\<lambda>answer. case answer of
          AnEntryLink (AeSymlink target) \<Rightarrow> Inr (Some target)
        | AnEntryLink AeNotSymlink \<Rightarrow> Inr None
        | AnEntryLink (AeFailed failure) \<Rightarrow>
            Inl (op_run_error OpReadEntryLink (entry_as_typed path) (failure_of_wire failure))
        | _ \<Rightarrow> Inl (unexpected ''ReadEntryLink'' answer))"

subsection \<open>Every path asked is answered\<close>

definition check_refused :: "rel_path_error list \<Rightarrow> run_error + unit" where
  "check_refused refused =
     (case refused of refusal # _ \<Rightarrow> Inl (rel_path_run_error refusal) | [] \<Rightarrow> Inr ())"

text \<open>For each path asked: how many more answers are taken, and whether one was.\<close>

fun count_asked :: "string list \<Rightarrow> (string \<Rightarrow> (nat \<times> bool) option) \<Rightarrow> string \<Rightarrow> (nat \<times> bool) option" where
  "count_asked [] expected = expected"
| "count_asked (path # paths) expected =
     count_asked paths
       (expected(path \<mapsto> (case expected path of Some (count, seen) \<Rightarrow> (count + 1, seen) | None \<Rightarrow> (1, False))))"

fun take_each_answer ::
  "string list \<Rightarrow> (string \<Rightarrow> (nat \<times> bool) option) \<Rightarrow> (string \<Rightarrow> (nat \<times> bool) option) option" where
  "take_each_answer [] expected = Some expected"
| "take_each_answer (path # paths) expected =
     (case expected path of
        None \<Rightarrow> None
      | Some (remaining, _) \<Rightarrow>
          if remaining = 0 then None
          else take_each_answer paths (expected(path \<mapsto> (remaining - 1, True))))"

definition check_answered :: "string \<Rightarrow> entry_path list \<Rightarrow> string list \<Rightarrow> run_error + unit" where
  "check_answered request asked answered =
     (case take_each_answer answered (count_asked (entries_as_typed asked) Map.empty) of
        None \<Rightarrow> Inl (mismatch request)
      | Some expected \<Rightarrow>
          if \<forall>path \<in> set (entries_as_typed asked). map_option snd (expected path) = Some True
          then Inr () else Inl (mismatch request))"

end
