(* ===== verification/AgentReads.thy ===== *)
theory AgentReads
  imports AgentClient
begin

text \<open>
  The requests that take several answers (\<open>client/reads.rs\<close> of remote-merge-agent): listing a tree,
  reading files and hashing them.
\<close>

subsection \<open>Receiving until the last answer\<close>

lemma client_receive_shorter:
  "client_receive cd c = (c', Inr answer) \<Longrightarrow> length (ac_stream c') < length (ac_stream c)"
  by (auto simp: client_receive_def dest: read_frame_shorter split: prod.splits sum.splits)

text \<open>The loops of the reads: \<open>f\<close> says of an answer that it is an error, that more follow or that it was the
  last. Every turn uses up a frame of the stream.\<close>

function receive_all ::
  "codec \<Rightarrow> ('acc \<Rightarrow> agent_response \<Rightarrow> run_error + ('acc + 'a)) \<Rightarrow> 'acc \<Rightarrow> 'a client_act" where
  "receive_all cd f acc c =
     (case client_receive cd c of
        (c', Inl e) \<Rightarrow> (c', Inl e)
      | (c', Inr answer) \<Rightarrow>
          (case f acc answer of
             Inl e \<Rightarrow> (c', Inl e)
           | Inr (Inl acc') \<Rightarrow> receive_all cd f acc' c'
           | Inr (Inr x) \<Rightarrow> (c', Inr x)))"
  by pat_completeness auto
termination
  by (relation "measure (\<lambda>(cd, f, acc, c). length (ac_stream c))")
     (auto dest: sym[THEN client_receive_shorter])

declare receive_all.simps [simp del]

definition asking_all ::
  "codec \<Rightarrow> agent_request \<Rightarrow> ('acc \<Rightarrow> agent_response \<Rightarrow> run_error + ('acc + 'a)) \<Rightarrow> 'acc \<Rightarrow> 'a client_act" where
  "asking_all cd request f acc c =
     (case client_send cd request c of
        (c', Inl e) \<Rightarrow> (c', Inl e)
      | (c', Inr _) \<Rightarrow> receive_all cd f acc c')"

subsection \<open>A tree\<close>

definition empty_listing :: listing where
  "empty_listing =
     \<lparr>ls_entries = [], ls_unreadable_names = [], ls_truncated = False, ls_cycle = None,
      ls_unresolvable_names = [], ls_counted = 0\<rparr>"

fun tree_answer ::
  "listing \<Rightarrow> agent_response \<Rightarrow> run_error + (listing + (scan_failure + listing))" where
  "tree_answer l (AnTreeChunk entries is_last unreadable truncated cycle unresolvable counted) =
     (let l' = l\<lparr>ls_entries := ls_entries l @ entries\<rparr> in
      if is_last then
        Inr (Inr (Inr (l'\<lparr>ls_unreadable_names := unreadable, ls_truncated := truncated, ls_cycle := cycle,
                         ls_unresolvable_names := unresolvable, ls_counted := counted\<rparr>)))
      else Inr (Inl l'))"
| "tree_answer l (AnTreeFailed failure) = Inr (Inr (Inl failure))"
| "tree_answer l (AnPathRefused refusal) = Inl (rel_path_run_error refusal)"
| "tree_answer l (AnError message) = Inl (agent_refused message)"
| "tree_answer l answer = Inl (unexpected ''ListTree'' answer)"

definition client_list_tree ::
  "codec \<Rightarrow> scan_request \<Rightarrow> string list \<Rightarrow> (scan_failure + listing) client_act" where
  "client_list_tree cd request excluded =
     asking_all cd (RqListTree request excluded) tree_answer empty_listing"

subsection \<open>Contents\<close>

text \<open>The paths in the order they were first answered, the answers, and the paths whose content goes on.\<close>

record reading =
  rd_order :: "string list"
  rd_answers :: "string \<Rightarrow> (op_failure + bytes) option"
  rd_open :: "string set"

definition reading_start :: reading where
  "reading_start = \<lparr>rd_order = [], rd_answers = Map.empty, rd_open = {}\<rparr>"

definition take_result :: "file_read_result \<Rightarrow> reading \<Rightarrow> run_error + reading" where
  "take_result result rd =
     (case (case result of
              FrOk path content more_to_follow \<Rightarrow> (path, Inr content, more_to_follow)
            | FrFailed path failure \<Rightarrow> (path, Inl (failure_of_wire failure), False)) of
        (path, answer, more_to_follow) \<Rightarrow>
          (let continues = path \<in> rd_open rd;
               rd1 = rd\<lparr>rd_open := rd_open rd - {path}\<rparr>
           in res_bind
                (case rd_answers rd path of
                   None \<Rightarrow>
                     Inr (rd1\<lparr>rd_order := rd_order rd @ [path], rd_answers := (rd_answers rd)(path \<mapsto> answer)\<rparr>)
                 | Some earlier \<Rightarrow>
                     (case (earlier, answer) of
                        (Inr so_far, Inr content) \<Rightarrow>
                          if continues
                          then Inr (rd1\<lparr>rd_answers := (rd_answers rd)(path \<mapsto> Inr (so_far @ content))\<rparr>)
                          else Inl (mismatch ''ReadFiles'')
                      | _ \<Rightarrow> Inl (mismatch ''ReadFiles'')))
                (\<lambda>rd2. Inr (if more_to_follow then rd2\<lparr>rd_open := insert path (rd_open rd2)\<rparr> else rd2))))"

fun take_results :: "file_read_result list \<Rightarrow> reading \<Rightarrow> run_error + reading" where
  "take_results [] rd = Inr rd"
| "take_results (result # results) rd = res_bind (take_result result rd) (take_results results)"

fun contents_answer :: "reading \<Rightarrow> agent_response \<Rightarrow> run_error + (reading + reading)" where
  "contents_answer rd (AnFileContents results is_last refused) =
     res_bind (take_results results rd) (\<lambda>rd'.
       if \<not> is_last then Inr (Inl rd')
       else if rd_open rd' \<noteq> {} then Inl (mismatch ''ReadFiles'')
       else res_bind (check_refused refused) (\<lambda>_. Inr (Inr rd')))"
| "contents_answer rd (AnError message) = Inl (agent_refused message)"
| "contents_answer rd answer = Inl (unexpected ''ReadFiles'' answer)"

text \<open>Every path of the order has an answer (the code expects it); the order holds a path once.\<close>

definition contents_in_order :: "reading \<Rightarrow> (string \<times> (op_failure + bytes)) list" where
  "contents_in_order rd =
     List.map_filter (\<lambda>path. map_option (Pair path) (rd_answers rd path)) (rd_order rd)"

definition client_read_files ::
  "codec \<Rightarrow> entry_path list \<Rightarrow> nat \<Rightarrow> u64 option \<Rightarrow> (string \<times> (op_failure + bytes)) list client_act" where
  "client_read_files cd paths chunk_size_limit limit c =
     (case asking_all cd (RqReadFiles (entries_as_typed paths) chunk_size_limit limit)
             contents_answer reading_start c of
        (c', Inl e) \<Rightarrow> (c', Inl e)
      | (c', Inr rd) \<Rightarrow>
          (c', res_bind (check_answered ''ReadFiles'' paths (rd_order rd)) (\<lambda>_. Inr (contents_in_order rd))))"

subsection \<open>Hashes\<close>

fun hashes_answer ::
  "string \<Rightarrow> file_hash_result list \<Rightarrow> agent_response \<Rightarrow> run_error + (file_hash_result list + file_hash_result list)" where
  "hashes_answer name all (AnFileHashes results is_last refused) =
     (if is_last then res_bind (check_refused refused) (\<lambda>_. Inr (Inr (all @ results)))
      else Inr (Inl (all @ results)))"
| "hashes_answer name all (AnError message) = Inl (agent_refused message)"
| "hashes_answer name all answer = Inl (unexpected name answer)"

fun hash_result_path :: "file_hash_result \<Rightarrow> string" where
  "hash_result_path (FhOk path _) = path"
| "hash_result_path (FhSymlink path _) = path"
| "hash_result_path (FhFailed path _) = path"

definition client_hashes ::
  "codec \<Rightarrow> agent_request \<Rightarrow> string \<Rightarrow> entry_path list \<Rightarrow> file_hash_result list client_act" where
  "client_hashes cd request name paths c =
     (case asking_all cd request (hashes_answer name) [] c of
        (c', Inl e) \<Rightarrow> (c', Inl e)
      | (c', Inr all) \<Rightarrow>
          (c', res_bind (check_answered name paths (map hash_result_path all)) (\<lambda>_. Inr all)))"

definition client_hash_files :: "codec \<Rightarrow> entry_path list \<Rightarrow> file_hash_result list client_act" where
  "client_hash_files cd paths = client_hashes cd (RqHashFiles (entries_as_typed paths)) ''HashFiles'' paths"

definition client_hash_contents :: "codec \<Rightarrow> entry_path list \<Rightarrow> file_hash_result list client_act" where
  "client_hash_contents cd paths =
     client_hashes cd (RqHashContents (entries_as_typed paths)) ''HashContents'' paths"

end
