(* ===== verification/AgentProps.thy ===== *)
theory AgentProps
  imports AgentReads ScanProps
begin

text \<open>
  What is asked over the connection comes back whole: the request the client writes, the loop of the
  server, the answers it cuts up and what the client joins again.
\<close>

subsection \<open>Answers on the stream\<close>

text \<open>What is relied on of the serialization: what one side wrote, the other reads back.\<close>

definition reads_back :: "codec \<Rightarrow> bool" where
  "reads_back cd \<longleftrightarrow>
     (\<forall>request payload. cd_request cd request = Inr payload \<longrightarrow> cd_read_request cd payload = Inr request)
     \<and> (\<forall>answer payload. cd_response cd answer = Inr payload \<longrightarrow> cd_read_response cd payload = Inr answer)"

inductive on_stream :: "codec \<Rightarrow> agent_response list \<Rightarrow> bytes \<Rightarrow> bool" for cd where
  on_stream_Nil [simp, intro]: "on_stream cd [] []"
| on_stream_Cons: "cd_response cd answer = Inr payload \<Longrightarrow> length payload \<le> unat max_frame_size \<Longrightarrow>
     on_stream cd answers bs \<Longrightarrow>
     on_stream cd (answer # answers) (to_be_bytes (word_of_nat (length payload)) @ payload @ bs)"

inductive_cases on_stream_ConsE: "on_stream cd (answer # answers) bs"

lemma send_responses_on_stream:
  "send_responses cd w answers = (w', Inr u) \<Longrightarrow>
   \<exists>bs. on_stream cd answers bs \<and> wr_written w' = wr_written w @ bs"
proof (induction answers arbitrary: w)
  case (Cons answer answers)
  obtain w1 where first: "send_response cd w answer = (w1, Inr ())"
    and rest: "send_responses cd w1 answers = (w', Inr u)"
    using Cons.prems by (auto split: prod.splits sum.splits)
  obtain payload where p: "cd_response cd answer = Inr payload" "write_frame w payload = (w1, Inr ())"
    using first by (auto simp: send_response_def res_map_err_Inr split: sum.splits prod.splits)
  obtain bs where "on_stream cd answers bs" "wr_written w' = wr_written w1 @ bs"
    using Cons.IH[OF rest] by blast
  then show ?case using write_frame_bytes[OF p(2)] p(1)
    by (intro exI[of _ "to_be_bytes (word_of_nat (length payload)) @ payload @ bs"])
       (simp add: on_stream_Cons)
qed auto

lemma receive_on_stream:
  assumes "reads_back cd" "on_stream cd (answer # answers) bs" "ac_stream c = bs @ rest"
  shows "\<exists>bs'. on_stream cd answers bs'
    \<and> client_receive cd c = (c\<lparr>ac_stream := bs' @ rest\<rparr>, Inr answer)"
  using assms by (auto simp: client_receive_def reads_back_def read_frame_bytes elim!: on_stream_ConsE)

text \<open>What the answers come to, if the last of them is the one that ends the request.\<close>

fun answers_fold :: "('acc \<Rightarrow> agent_response \<Rightarrow> run_error + ('acc + 'a)) \<Rightarrow> 'acc \<Rightarrow> agent_response list \<Rightarrow> 'a option" where
  "answers_fold f acc [] = None"
| "answers_fold f acc (answer # answers) =
     (case f acc answer of
        Inl e \<Rightarrow> None
      | Inr (Inl acc') \<Rightarrow> answers_fold f acc' answers
      | Inr (Inr x) \<Rightarrow> if answers = [] then Some x else None)"

lemma receive_all_on_stream:
  assumes "reads_back cd"
  shows "answers_fold f acc answers = Some x \<Longrightarrow> on_stream cd answers bs \<Longrightarrow> ac_stream c = bs @ rest \<Longrightarrow>
    receive_all cd f acc c = (c\<lparr>ac_stream := rest\<rparr>, Inr x)"
proof (induction answers arbitrary: acc c bs)
  case (Cons answer answers)
  obtain bs' where bs': "on_stream cd answers bs'"
    and got: "client_receive cd c = (c\<lparr>ac_stream := bs' @ rest\<rparr>, Inr answer)"
    using receive_on_stream[OF assms Cons.prems(2,3)] by blast
  from Cons.prems(1) consider
      (more) acc' where "f acc answer = Inr (Inl acc')" "answers_fold f acc' answers = Some x"
    | (finish) "f acc answer = Inr (Inr x)" "answers = []"
    by (auto split: sum.splits if_splits)
  then show ?case
  proof cases
    case more
    then show ?thesis using Cons.IH[OF more(2) bs'] got by (simp add: receive_all.simps[of _ _ acc])
  next
    case finish
    then have "bs' = []" using bs' by (auto elim: on_stream.cases)
    then show ?thesis using finish got by (simp add: receive_all.simps[of _ _ acc])
  qed
qed simp

text \<open>The stream the server reads is the one request; it answers it and finds the stream closed.\<close>

lemma serve_closed: "serve_loop glob am cd [] s d w = (s, w, ServeClosed)"
  by (subst serve_loop.simps) (simp add: read_frame_def read_exact_def)

lemma serve_loop_frame:
  assumes "read_frame stream = (rest, Inr frame)" and "serve_frame glob am cd frame s d w = (s1, d1, w1, r)"
  shows "serve_loop glob am cd stream s d w =
    (case r of Inl e \<Rightarrow> (s1, w1, e) | Inr u \<Rightarrow> serve_loop glob am cd rest s1 d1 w1)"
  using assms by (subst serve_loop.simps) (simp split: sum.splits)

lemma send_response_not_closed: "send_response cd w answer = (w', Inl e) \<Longrightarrow> e \<noteq> ServeClosed"
  by (cases "snd (write_frame w (projr (cd_response cd answer)))")
     (auto simp: send_response_def split: sum.splits prod.splits)

lemma send_responses_not_closed: "send_responses cd w answers = (w', Inl e) \<Longrightarrow> e \<noteq> ServeClosed"
proof (induction answers arbitrary: w)
  case (Cons answer answers)
  then show ?case using send_response_not_closed[of cd w answer] by (auto split: prod.splits sum.splits)
qed simp

lemma serve_one_request:
  assumes "reads_back cd" "cd_request cd request = Inr payload" "length payload \<le> unat max_frame_size"
    and "dispatch glob am d request s = (s1, d1, DpAnswers answers)"
    and "serve_loop glob am cd (to_be_bytes (word_of_nat (length payload)) @ payload) s d w = (s', w', ServeClosed)"
  shows "s' = s1 \<and> (\<exists>bs. on_stream cd answers bs \<and> wr_written w' = wr_written w @ bs)"
proof -
  let ?stream = "to_be_bytes (word_of_nat (length payload)) @ payload"
  have frame: "read_frame ?stream = ([], Inr payload)"
    using read_frame_bytes[OF assms(3), of "[]"] by simp
  obtain w1 r where sent: "send_responses cd w answers = (w1, r)" by fastforce
  have "cd_read_request cd payload = Inr request" using assms(1,2) by (simp add: reads_back_def)
  then have "serve_frame glob am cd payload s d w = (s1, d1, w1, r)"
    using assms(4) sent by (simp add: serve_frame_def)
  from serve_loop_frame[OF frame this] have served:
    "(case r of Inl e \<Rightarrow> (s1, w1, e) | Inr u \<Rightarrow> (s1, w1, ServeClosed)) = (s', w', ServeClosed)"
    using assms(5) by (cases r) (simp_all add: serve_closed)
  then have "r = Inr () \<and> s' = s1 \<and> w' = w1"
    using sent send_responses_not_closed[of cd w answers w1] by (cases r) auto
  then show ?thesis using send_responses_on_stream[of cd w answers w1 "()"] sent by simp
qed

lemma asking_over_agent:
  assumes "reads_back cd" "wr_written (ac_writer c) = []"
    and "client_send cd request c = (c', Inr u)"
    and "dispatch glob am d request s = (s1, d1, DpAnswers answers)"
    and "serve_loop glob am cd (wr_written (ac_writer c')) s d (writer_new limit) = (s', w, ServeClosed)"
    and "ac_stream c = wr_written w @ rest"
    and "answers_fold f acc answers = Some x"
  shows "s' = s1 \<and> asking_all cd request f acc c = (c'\<lparr>ac_stream := rest\<rparr>, Inr x)"
proof -
  obtain payload w1 where p: "cd_request cd request = Inr payload"
    and written: "write_frame (ac_writer c) payload = (w1, Inr ())" and c': "c' = c\<lparr>ac_writer := w1\<rparr>"
    using assms(3) by (auto simp: client_send_def split: sum.splits prod.splits frame_error.splits)
  have small: "length payload \<le> unat max_frame_size"
    and stream: "wr_written (ac_writer c') = to_be_bytes (word_of_nat (length payload)) @ payload"
    using write_frame_bytes[OF written] c' assms(2) by simp_all
  obtain bs where bs: "on_stream cd answers bs" "wr_written w = bs" and s': "s' = s1"
    using serve_one_request[OF assms(1) p small assms(4) assms(5)[unfolded stream]]
    by (auto simp: writer_new_def)
  have "ac_stream c' = bs @ rest" using assms(6) bs(2) c' by simp
  then show ?thesis using receive_all_on_stream[OF assms(1,7) bs(1)] s' assms(3)
    by (simp add: asking_all_def)
qed

subsection \<open>A tree\<close>

lemma tree_chunks_fold:
  "answers_fold tree_answer acc (tree_chunks l entries) =
   Some (Inr (l\<lparr>ls_entries := ls_entries acc @ entries\<rparr>))"
proof (induction l entries arbitrary: acc rule: tree_chunks.induct)
  case (1 l rest)
  show ?case
  proof (cases "length rest \<le> entries_per_chunk")
    case True
    then show ?thesis by (simp add: tree_chunks.simps[of l rest])
  next
    case False
    then show ?thesis using 1[OF False]
      by (simp add: tree_chunks.simps[of l rest])
  qed
qed

lemma scan_not_panicking: "fst (scan glob coll e request s) \<noteq> Inl StopPanic"
  using scan_fine[of glob e request coll s] by (auto simp: fine_listing_def)

subsection \<open>Contents\<close>

text \<open>The results of the answers to a read, and the answers that hold some of them.\<close>

definition more_contents :: "file_read_result list list \<Rightarrow> agent_response list" where
  "more_contents rss = map (\<lambda>rs. AnFileContents rs False []) rss"

lemma add_result_collects:
  assumes "p = (more_contents rss, pending, n)"
  shows "\<exists>rss' pending' n'. add_result r p = (more_contents rss', pending', n')
     \<and> concat rss' @ pending' = (concat rss @ pending) @ [r]"
proof (cases "pending \<noteq> [] \<and> n + result_size r > response_budget")
  case True
  then show ?thesis using assms
    by (intro exI[of _ "rss @ [pending]"] exI[of _ "[r]"]) (simp add: add_result_def more_contents_def)
next
  case False
  then show ?thesis using assms
    by (intro exI[of _ rss] exI[of _ "pending @ [r]"]) (auto simp: add_result_def)
qed

lemma add_results_collect:
  "p = (more_contents rss, pending, n) \<Longrightarrow>
   \<exists>rss' pending' n'. fold add_result rs p = (more_contents rss', pending', n')
     \<and> concat rss' @ pending' = (concat rss @ pending) @ rs"
proof (induction rs arbitrary: p rss pending n)
  case (Cons r rs)
  obtain rss1 pending1 n1 where p1: "add_result r p = (more_contents rss1, pending1, n1)"
    "concat rss1 @ pending1 = (concat rss @ pending) @ [r]"
    using add_result_collects[OF Cons.prems] by blast
  then show ?case using Cons.IH[OF p1(1)] by simp
qed auto

lemma read_entries_collects:
  "p = (more_contents rss, pending, n) \<Longrightarrow>
   \<exists>rss' pending' n'. read_entries am entries k limit p s
       = (fst (each_entry (\<lambda>e. read_one am e k limit) entries s), more_contents rss', pending', n')
     \<and> concat rss' @ pending' = (concat rss @ pending) @ concat (snd (each_entry (\<lambda>e. read_one am e k limit) entries s))"
proof (induction entries arbitrary: p rss pending n s)
  case (Cons e entries)
  obtain s1 rs where one: "read_one am e k limit s = (s1, rs)" by fastforce
  obtain rss1 pending1 n1 where p1: "fold add_result rs p = (more_contents rss1, pending1, n1)"
    "concat rss1 @ pending1 = (concat rss @ pending) @ rs"
    using add_results_collect[OF Cons.prems] by blast
  show ?case using Cons.IH[OF p1(1), of s1] p1(2) one by (auto split: prod.splits)
qed auto

lemma take_results_append:
  "take_results (rs @ rs') rd = res_bind (take_results rs rd) (take_results rs')"
proof (induction rs arbitrary: rd)
  case (Cons r rs)
  then show ?case by (cases "take_result r rd") simp_all
qed simp

lemma contents_fold:
  assumes "take_results (concat rss @ rs) rd = Inr rd'" "rd_open rd' = {}"
  shows "answers_fold contents_answer rd (more_contents rss @ [AnFileContents rs True []]) = Some rd'"
  using assms(1)
proof (induction rss arbitrary: rd)
  case Nil
  then show ?case using assms(2) by (simp add: more_contents_def check_refused_def)
next
  case (Cons r rss)
  then obtain rd1 where "take_results r rd = Inr rd1" "take_results (concat rss @ rs) rd1 = Inr rd'"
    by (cases "take_results r rd") (auto simp: take_results_append)
  then show ?case using Cons.IH[of rd1] by (simp add: more_contents_def)
qed

subsection \<open>One file\<close>

lemma concat_byte_chunks: "n \<noteq> 0 \<Longrightarrow> concat (byte_chunks n bs) = bs"
proof (induction n bs rule: byte_chunks.induct)
  case (1 n bs)
  then show ?case by (subst byte_chunks.simps) simp
qed

lemma byte_chunks_ne: "n \<noteq> 0 \<Longrightarrow> bs \<noteq> [] \<Longrightarrow> byte_chunks n bs \<noteq> []"
  by (subst byte_chunks.simps) simp

lemma take_more_pieces:
  "ps \<noteq> [] \<Longrightarrow> path \<in> rd_open rd \<Longrightarrow> rd_answers rd path = Some (Inr front) \<Longrightarrow>
   take_results (pieces_of path ps) rd =
     Inr (rd\<lparr>rd_answers := (rd_answers rd)(path \<mapsto> Inr (front @ concat ps)), rd_open := rd_open rd - {path}\<rparr>)"
proof (induction ps arbitrary: rd front)
  case (Cons p ps)
  show ?case
  proof (cases "ps = []")
    case True
    then show ?thesis using Cons.prems by (cases rd) (simp add: take_result_def Let_def fun_upd_def)
  next
    case False
    let ?rd = "rd\<lparr>rd_answers := (rd_answers rd)(path \<mapsto> Inr (front @ p)), rd_open := insert path (rd_open rd - {path})\<rparr>"
    have "take_results (pieces_of path ps) ?rd = Inr (?rd\<lparr>rd_answers :=
        (rd_answers ?rd)(path \<mapsto> Inr ((front @ p) @ concat ps)), rd_open := rd_open ?rd - {path}\<rparr>)"
      using False by (intro Cons.IH) simp_all
    then show ?thesis using Cons.prems False by (cases rd) (auto simp: take_result_def Let_def fun_eq_iff)
  qed
qed simp

definition answered :: "string \<Rightarrow> op_failure + bytes \<Rightarrow> reading \<Rightarrow> reading" where
  "answered path a rd =
     rd\<lparr>rd_order := rd_order rd @ [path], rd_answers := (rd_answers rd)(path \<mapsto> a)\<rparr>"

lemma take_pieces:
  assumes "ps \<noteq> []" "rd_answers rd path = None" "path \<notin> rd_open rd"
  shows "take_results (pieces_of path ps) rd = Inr (answered path (Inr (concat ps)) rd)"
proof (cases ps)
  case (Cons p qs)
  show ?thesis
  proof (cases "qs = []")
    case True
    then show ?thesis using assms Cons by (simp add: take_result_def answered_def Let_def)
  next
    case False
    let ?rd = "(answered path (Inr p) rd)\<lparr>rd_open := insert path (rd_open rd)\<rparr>"
    have "take_result (FrOk path p True) rd = Inr ?rd"
      using assms(2,3) by (simp add: take_result_def answered_def Let_def)
    moreover have "take_results (pieces_of path qs) ?rd = Inr (?rd\<lparr>rd_answers :=
        (rd_answers ?rd)(path \<mapsto> Inr (p @ concat qs)), rd_open := rd_open ?rd - {path}\<rparr>)"
      using False by (intro take_more_pieces) (simp_all add: answered_def)
    ultimately show ?thesis using assms(3) False Cons by (simp add: answered_def)
  qed
qed (use assms in simp)

text \<open>What the client is told of the result of a read: a failure as it travels.\<close>

definition as_sent :: "op_failure + bytes \<Rightarrow> op_failure + bytes" where
  "as_sent r = res_map_err (\<lambda>f. failure_of_wire (wire_of_failure f)) r"

lemma take_read_one:
  assumes "am_read am e limit s = (s1, r)" "read_one am e k limit s = (s2, rs)"
    and "rd_answers rd (entry_as_typed e) = None" "entry_as_typed e \<notin> rd_open rd"
  shows "s2 = s1 \<and> take_results rs rd = Inr (answered (entry_as_typed e) (as_sent r) rd)"
proof (cases r)
  case (Inl f)
  then show ?thesis using assms
    by (auto simp: read_one_def take_result_def answered_def as_sent_def Let_def)
next
  case (Inr content)
  show ?thesis
  proof (cases "k = 0 \<or> length content \<le> k")
    case True
    then show ?thesis using assms Inr
      by (auto simp: read_one_def take_result_def answered_def as_sent_def Let_def)
  next
    case False
    then have "content \<noteq> []" "k \<noteq> 0" by auto
    then show ?thesis using assms Inr False take_pieces[of "byte_chunks k content" rd "entry_as_typed e"]
      by (auto simp: read_one_def as_sent_def byte_chunks_ne concat_byte_chunks)
  qed
qed

subsection \<open>All of them\<close>

definition reads_of ::
  "'s agent_machine \<Rightarrow> entry_path list \<Rightarrow> size_limit \<Rightarrow> 's \<Rightarrow> 's \<times> (op_failure + bytes) list" where
  "reads_of am es limit s = each_entry (\<lambda>e. am_read am e limit) es s"

lemma each_entry_length: "length (snd (each_entry f es s)) = length es"
  by (induction es arbitrary: s) (auto split: prod.splits, metis snd_conv)

lemma map_add_if: "m ++ (\<lambda>a. if a = p then Some x else m' a) = (m ++ m')(p \<mapsto> x)"
  by (auto simp: map_add_def fun_eq_iff)

lemma take_entries:
  assumes "distinct (map entry_as_typed es)" "\<forall>e \<in> set es. rd_answers rd (entry_as_typed e) = None"
    and "rd_open rd = {}" "reads_of am es limit s = (s1, results)"
    and "each_entry (\<lambda>e. read_one am e k limit) es s = (s2, pieces)"
  shows "s2 = s1 \<and> take_results (concat pieces) rd = Inr (rd\<lparr>rd_order := rd_order rd @ map entry_as_typed es,
     rd_answers := rd_answers rd ++ map_of (zip (map entry_as_typed es) (map as_sent results))\<rparr>)"
  using assms
proof (induction es arbitrary: rd s results pieces)
  case (Cons e es)
  obtain sa r where one: "am_read am e limit s = (sa, r)" by fastforce
  obtain sb rs where parts: "read_one am e k limit s = (sb, rs)" by fastforce
  obtain results' where results: "results = r # results'" "reads_of am es limit sa = (s1, results')"
    using Cons.prems(4) one by (auto simp: reads_of_def split: prod.splits)
  obtain pieces' where pieces: "pieces = rs # pieces'" "each_entry (\<lambda>e. read_one am e k limit) es sb = (s2, pieces')"
    using Cons.prems(5) parts by (auto split: prod.splits)
  let ?rd = "answered (entry_as_typed e) (as_sent r) rd"
  have first: "sb = sa" "take_results rs rd = Inr ?rd"
    using take_read_one[OF one parts] Cons.prems(2,3) by auto
  have others: "\<forall>ea \<in> set es. entry_as_typed ea \<noteq> entry_as_typed e" using Cons.prems(1) by (auto simp: image_iff)
  have "s2 = s1 \<and> take_results (concat pieces') ?rd = Inr (?rd\<lparr>rd_order := rd_order ?rd @ map entry_as_typed es,
     rd_answers := rd_answers ?rd ++ map_of (zip (map entry_as_typed es) (map as_sent results'))\<rparr>)"
    using Cons.prems(1-3) others results(2) pieces(2)[unfolded first(1)]
    by (intro Cons.IH) (auto simp: answered_def)
  moreover have "map_of (zip (map entry_as_typed es) (map as_sent results')) (entry_as_typed e) = None"
    using Cons.prems(1) by (auto simp: map_of_eq_None_iff dest!: set_zip_leftD)
  ultimately show ?case using first(2) results(1) pieces(1)
    by (simp add: take_results_append answered_def map_add_upd_left dom_def map_add_if) (simp add: fun_upd_def)
qed (auto simp: reads_of_def)

lemma map_filter_agree: "(\<And>x. x \<in> set xs \<Longrightarrow> f x = g x) \<Longrightarrow> List.map_filter f xs = List.map_filter g xs"
  by (induction xs) (simp_all add: map_filter_simps split: option.split)

lemma contents_of_distinct:
  "distinct ps \<Longrightarrow> length ps = length rs \<Longrightarrow>
   List.map_filter (\<lambda>p. map_option (Pair p) (map_of (zip ps rs) p)) ps = zip ps rs"
proof (induction ps rs rule: list_induct2')
  case (4 p ps r rs)
  have "List.map_filter (\<lambda>q. map_option (Pair q) (map_of (zip (p # ps) (r # rs)) q)) ps
      = List.map_filter (\<lambda>q. map_option (Pair q) (map_of (zip ps rs) q)) ps"
    using 4(2) by (intro map_filter_agree) auto
  then show ?case using 4 by (simp add: map_filter_simps)
qed (simp_all add: map_filter_simps)

lemma count_asked_distinct:
  "distinct ps \<Longrightarrow> \<forall>p \<in> set ps. m p = None \<Longrightarrow>
   count_asked ps m = (\<lambda>q. if q \<in> set ps then Some (1, False) else m q)"
proof (induction ps arbitrary: m)
  case (Cons p ps)
  have "count_asked ps (m(p \<mapsto> (1, False)))
      = (\<lambda>q. if q \<in> set ps then Some (1, False) else (m(p \<mapsto> (1, False))) q)"
    using Cons.prems by (intro Cons.IH) auto
  then show ?case using Cons.prems by (simp add: fun_eq_iff)
qed simp

lemma take_each_answer_distinct:
  "distinct ps \<Longrightarrow> \<forall>p \<in> set ps. m p = Some (1, False) \<Longrightarrow>
   take_each_answer ps m = Some (\<lambda>q. if q \<in> set ps then Some (0, True) else m q)"
proof (induction ps arbitrary: m)
  case (Cons p ps)
  have "take_each_answer ps (m(p \<mapsto> (0, True)))
      = Some (\<lambda>q. if q \<in> set ps then Some (0, True) else (m(p \<mapsto> (0, True))) q)"
    using Cons.prems by (intro Cons.IH) auto
  then show ?case using Cons.prems by (simp add: fun_eq_iff)
qed simp

lemma check_answered_all:
  assumes "distinct (entries_as_typed es)"
  shows "check_answered request es (entries_as_typed es) = Inr ()"
  using assms by (simp add: check_answered_def count_asked_distinct take_each_answer_distinct)

lemma split_entries_typed:
  "\<forall>e \<in> set es. entry_parse (entry_as_typed e) = Inr e \<Longrightarrow> split_entries (entries_as_typed es) = (es, [])"
  by (induction es) (simp_all add: entries_as_typed_def entry_as_typed_def)

lemma read_files_into_fold:
  assumes "distinct (entries_as_typed es)" "\<forall>e \<in> set es. entry_parse (entry_as_typed e) = Inr e"
    and "reads_of am es (size_limit_of limit) s = (s1, results)"
  shows "\<exists>answers rd. read_files_into am (entries_as_typed es) k limit s = (s1, answers)
    \<and> answers_fold contents_answer reading_start answers = Some rd
    \<and> rd_order rd = entries_as_typed es
    \<and> contents_in_order rd = zip (entries_as_typed es) (map as_sent results)"
proof -
  let ?names = "map entry_as_typed es" and ?one = "\<lambda>e. read_one am e k (size_limit_of limit)"
  have names: "entries_as_typed es = ?names" by (simp add: entries_as_typed_def entry_as_typed_def)
  obtain s2 pieces where pieces: "each_entry ?one es s = (s2, pieces)" by fastforce
  let ?rd = "reading_start\<lparr>rd_order := rd_order reading_start @ ?names,
     rd_answers := rd_answers reading_start ++ map_of (zip ?names (map as_sent results))\<rparr>"
  have taken: "s2 = s1" "take_results (concat pieces) reading_start = Inr ?rd"
    using take_entries[of es reading_start am "size_limit_of limit" s s1 results k s2 pieces] assms(1,3) pieces names
    by (simp_all add: reading_start_def)
  obtain rss pending n where read:
    "read_entries am es k (size_limit_of limit) ([], [], 0) s = (s2, more_contents rss, pending, n)"
    and flat: "concat rss @ pending = concat pieces"
    using read_entries_collects[of "([], [], 0)" "[]" "[]" 0 am es k "size_limit_of limit" s] pieces
    by (auto simp: more_contents_def)
  have "length results = length es"
    using each_entry_length[of "\<lambda>e. am_read am e (size_limit_of limit)" es s] assms(3) by (simp add: reads_of_def)
  then have "contents_in_order ?rd = zip ?names (map as_sent results)"
    using contents_of_distinct[of ?names "map as_sent results"] assms(1) names
    by (simp add: contents_in_order_def reading_start_def)
  moreover have "answers_fold contents_answer reading_start (more_contents rss @ [AnFileContents pending True []])
      = Some ?rd"
    using taken(2) flat by (intro contents_fold) (simp_all add: reading_start_def)
  moreover have "read_files_into am (entries_as_typed es) k limit s
      = (s1, more_contents rss @ [AnFileContents pending True []])"
    using split_entries_typed[OF assms(2)] read taken(1) by (simp add: read_files_into_def)
  ultimately show ?thesis using names by (intro exI[of _ ?rd] exI) (simp add: reading_start_def)
qed

subsection \<open>Over the connection\<close>

text \<open>C23: files are read through the agent as they are. The client writes one request for the entries, each
  asked once; the server's loop reads it, cuts the contents into pieces of the size asked and the pieces
  into answers of about the response budget; the client joins them again, finds every path answered, and
  returns for each entry in the order asked what reading it on the agent's machine gave: the whole content,
  or its failure as it travels. It takes nothing else from the connection.\<close>

theorem files_read_through_agent:
  assumes "reads_back cd"
    and "distinct (entries_as_typed es)" "\<forall>e \<in> set es. entry_parse (entry_as_typed e) = Inr e"
    and "wr_written (ac_writer c) = []"
    and "client_send cd (RqReadFiles (entries_as_typed es) k limit) c = (c', Inr u)"
    and "serve_loop glob am cd (wr_written (ac_writer c')) s d (writer_new n) = (s', w, ServeClosed)"
    and "ac_stream c = wr_written w @ rest"
  shows "\<exists>results. reads_of am es (size_limit_of limit) s = (s', results)
    \<and> client_read_files cd es k limit c
        = (c'\<lparr>ac_stream := rest\<rparr>, Inr (zip (entries_as_typed es) (map as_sent results)))"
proof -
  obtain s1 results where results: "reads_of am es (size_limit_of limit) s = (s1, results)" by fastforce
  obtain answers rd where answers: "read_files_into am (entries_as_typed es) k limit s = (s1, answers)"
    and rd: "answers_fold contents_answer reading_start answers = Some rd" "rd_order rd = entries_as_typed es"
      "contents_in_order rd = zip (entries_as_typed es) (map as_sent results)"
    using read_files_into_fold[OF assms(2,3) results, of k] by blast
  have "dispatch glob am d (RqReadFiles (entries_as_typed es) k limit) s = (s1, d, DpAnswers answers)"
    using answers by simp
  from asking_over_agent[OF assms(1,4,5) this assms(6,7) rd(1)] show ?thesis
    using results rd(2,3) check_answered_all[OF assms(2)] by (simp add: client_read_files_def)
qed

text \<open>C24: a tree is listed through the agent as it is. Whatever the scan on the agent's machine comes to, a
  listing of any length or the failure that stopped it, is what the client returns, cut into answers of a
  thousand entries on the way and joined again.\<close>

theorem tree_listed_through_agent:
  assumes "reads_back cd"
    and "res_collect rel_parse (request_paths (sr_scope request)) = Inr paths"
    and "wr_written (ac_writer c) = []"
    and "client_send cd (RqListTree request excluded) c = (c', Inr u)"
    and "serve_loop glob am cd (wr_written (ac_writer c')) s d (writer_new n) = (s', w, ServeClosed)"
    and "ac_stream c = wr_written w @ rest"
    and "scan glob (am_collector am) (exclude_new excluded) request s = (r, s1)"
  shows "s' = s1 \<and> client_list_tree cd request excluded c = (c'\<lparr>ac_stream := rest\<rparr>, Inr
    (case r of
       Inr l \<Rightarrow> Inr l
     | Inl (StopError (SeFailure f)) \<Rightarrow> Inl f
     | Inl (StopError (SeCollect e)) \<Rightarrow> Inl (CollectFailed e)))"
proof -
  let ?x = "case r of Inr l \<Rightarrow> Inr l | Inl (StopError (SeFailure f)) \<Rightarrow> Inl f
     | Inl (StopError (SeCollect e)) \<Rightarrow> Inl (CollectFailed e)"
  have "\<exists>answers. list_tree glob (am_collector am) request excluded s = (s1, Some answers)
     \<and> answers_fold tree_answer empty_listing answers = Some ?x" if "r \<noteq> Inl StopPanic"
  proof (cases r)
    case (Inl stop)
    then show ?thesis using assms(2,7) that
      by (cases stop) (auto simp: list_tree_def scan_with_def split: scan_error.splits)
  next
    case (Inr l)
    then show ?thesis using assms(2,7) tree_chunks_fold[of empty_listing l "ls_entries l"]
      by (simp add: list_tree_def scan_with_def empty_listing_def)
  qed
  moreover have "r \<noteq> Inl StopPanic" using scan_not_panicking[of glob "am_collector am"] assms(7) by (metis fst_conv)
  ultimately obtain answers where answers: "list_tree glob (am_collector am) request excluded s = (s1, Some answers)"
    and x: "answers_fold tree_answer empty_listing answers = Some ?x" by blast
  have "dispatch glob am d (RqListTree request excluded) s = (s1, d, DpAnswers answers)" using answers by simp
  from asking_over_agent[OF assms(1,3,4) this assms(5,6) x] show ?thesis
    by (simp add: client_list_tree_def)
qed

subsection \<open>Witnesses\<close>

text \<open>An agent's machine with the file a, and a serialization of two messages.\<close>

definition sample_agent :: "unit agent_machine" where
  "sample_agent =
     \<lparr>am_collector = ex_collector, am_read = \<lambda>e limit s. (s, Inr ''xy''),
      am_entry_link = \<lambda>e s. (s, Inr None), am_hash = \<lambda>e s. (s, Inr ''00''),
      am_resolve = \<lambda>p s. (s, Inl CannotRead), am_open = \<lambda>e s. (s, Inl PermissionDenied),
      am_append = \<lambda>h bs s. (s, Inl PermissionDenied), am_symlink = \<lambda>e t s. (s, Inl PermissionDenied),
      am_remove = \<lambda>e s. (s, Inl PermissionDenied), am_chmod = \<lambda>e m s. (s, Inl PermissionDenied),
      am_is_root = False, am_chown_dir = \<lambda>d s. (s, Inr ()), am_chown_entry = \<lambda>e h s. (s, Inr ()),
      am_remove_entry = \<lambda>e h s. (s, Inr ()), am_remove_dir = \<lambda>d s. (s, Inr ())\<rparr>"

definition sample_codec :: "agent_request \<Rightarrow> agent_response \<Rightarrow> codec" where
  "sample_codec request answer =
     \<lparr>cd_request = \<lambda>r. if r = request then Inr ''r'' else Inl ''not sampled'',
      cd_read_request = \<lambda>bs. if bs = ''r'' then Inr request else Inl ''not sampled'',
      cd_response = \<lambda>a. if a = answer then Inr ''a'' else Inl ''not sampled'',
      cd_read_response = \<lambda>bs. if bs = ''a'' then Inr answer else Inl ''not sampled''\<rparr>"

lemma sample_codec_reads_back: "reads_back (sample_codec request answer)"
  by (simp add: reads_back_def sample_codec_def)

definition sample_client :: "bytes \<Rightarrow> agent_client" where
  "sample_client stream =
     \<lparr>ac_stream = stream, ac_end = EndsClosed, ac_writer = writer_new None, ac_write_error = []\<rparr>"

definition sample_frame :: "char \<Rightarrow> bytes" where
  "sample_frame b = to_be_bytes 1 @ [b]"

lemma sample_send:
  "client_send (sample_codec request answer) request (sample_client stream) =
     ((sample_client stream)\<lparr>ac_writer := \<lparr>wr_written = sample_frame CHR ''r'', wr_accept = None\<rparr>\<rparr>, Inr ())"
  by (simp add: client_send_def sample_codec_def sample_client_def sample_frame_def write_frame_def write_all_def
      writer_new_def unat_max_frame_size)

lemma sample_serve:
  assumes "dispatch glob am d request s = (s1, d1, DpAnswers [answer])"
  shows "serve_loop glob am (sample_codec request answer) (sample_frame CHR ''r'') s d (writer_new None)
     = (s1, \<lparr>wr_written = sample_frame CHR ''a'', wr_accept = None\<rparr>, ServeClosed)"
proof -
  have "read_frame (sample_frame CHR ''r'') = ([], Inr ''r'')"
    using read_frame_bytes[of "''r''" "[]"] by (simp add: sample_frame_def unat_max_frame_size)
  moreover have "serve_frame glob am (sample_codec request answer) ''r'' s d (writer_new None)
     = (s1, d1, \<lparr>wr_written = sample_frame CHR ''a'', wr_accept = None\<rparr>, Inr ())"
    using assms by (simp add: serve_frame_def send_response_def sample_codec_def sample_frame_def write_frame_def
        write_all_def writer_new_def unat_max_frame_size)
  ultimately show ?thesis by (simp add: serve_loop_frame serve_closed)
qed

definition sample_entry :: entry_path where
  "sample_entry = \<lparr>ep_rel = \<lparr>typed = ''a''\<rparr>\<rparr>"

lemma sample_entry_parses: "entry_parse ''a'' = Inr sample_entry" "entry_as_typed sample_entry = ''a''"
  by code_simp+

lemma sample_names: "entries_as_typed [sample_entry] = [''a'']"
  by code_simp

definition sample_answer :: agent_response where
  "sample_answer = AnFileContents [FrOk ''a'' ''x'' True, FrOk ''a'' ''y'' False] True []"

lemma sample_pieces: "byte_chunks 1 ''xy'' = [''x'', ''y'']"
  by (simp add: byte_chunks.simps)

lemma sample_dispatch:
  "dispatch (=) sample_agent d (RqReadFiles (entries_as_typed [sample_entry]) 1 None) ()
   = ((), d, DpAnswers [sample_answer])"
  using sample_pieces by (simp add: read_files_into_def sample_names sample_entry_parses read_one_def add_result_def
      sample_agent_def sample_answer_def response_budget_def)

theorem files_read_through_agent_witness:
  "snd (client_read_files (sample_codec (RqReadFiles (entries_as_typed [sample_entry]) 1 None) sample_answer)
      [sample_entry] 1 None (sample_client (sample_frame CHR ''a'' @ ''rest''))) = Inr [(''a'', Inr ''xy'')]"
proof -
  let ?cd = "sample_codec (RqReadFiles (entries_as_typed [sample_entry]) 1 None) sample_answer"
  let ?c = "sample_client (sample_frame CHR ''a'' @ ''rest'')"
  let ?c' = "?c\<lparr>ac_writer := \<lparr>wr_written = sample_frame CHR ''r'', wr_accept = None\<rparr>\<rparr>"
  have served: "serve_loop (=) sample_agent ?cd (wr_written (ac_writer ?c')) ()
      (dispatcher_new \<lparr>mc_default_uid = None, mc_default_gid = None\<rparr>) (writer_new None)
      = ((), \<lparr>wr_written = sample_frame CHR ''a'', wr_accept = None\<rparr>, ServeClosed)"
    using sample_serve[OF sample_dispatch] by simp
  have "\<exists>results. reads_of sample_agent [sample_entry] (size_limit_of None) () = ((), results)
    \<and> client_read_files ?cd [sample_entry] 1 None ?c
        = (?c'\<lparr>ac_stream := ''rest''\<rparr>, Inr (zip (entries_as_typed [sample_entry]) (map as_sent results)))"
    by (rule files_read_through_agent[OF sample_codec_reads_back _ _ _ sample_send served])
       (simp_all add: sample_names sample_entry_parses sample_client_def writer_new_def)
  moreover have "reads_of sample_agent [sample_entry] (size_limit_of None) () = ((), [Inr ''xy''])"
    by (simp add: reads_of_def sample_agent_def)
  ultimately show ?thesis by (auto simp: as_sent_def sample_names)
qed

lemma sample_scan: "scan (=) ex_collector (exclude_new [''b'']) (ex_request 7) () = (Inr (ex_listing 7), ())"
  using ex_scan(1) by (cases "scan (=) ex_collector (exclude_new [''b'']) (ex_request 7) ()") simp

definition sample_chunk :: agent_response where
  "sample_chunk = AnTreeChunk (ls_entries (ex_listing 7)) True (ls_unreadable_names (ex_listing 7))
     (ls_truncated (ex_listing 7)) (ls_cycle (ex_listing 7)) (ls_unresolvable_names (ex_listing 7))
     (ls_counted (ex_listing 7))"

lemma sample_tree_dispatch:
  "dispatch (=) sample_agent d (RqListTree (ex_request 7) [''b'']) () = ((), d, DpAnswers [sample_chunk])"
proof -
  have "length (map le_path (ls_entries (ex_listing 7))) = 1" unfolding ex_scan(2) by simp
  then show ?thesis using sample_scan
    by (simp add: list_tree_def scan_with_def sample_agent_def tree_chunks.simps entries_per_chunk_def
        sample_chunk_def ex_request_def request_paths_def)
qed

theorem tree_listed_through_agent_witness:
  "snd (client_list_tree (sample_codec (RqListTree (ex_request 7) [''b'']) sample_chunk) (ex_request 7) [''b'']
      (sample_client (sample_frame CHR ''a''))) = Inr (Inr (ex_listing 7))"
proof -
  let ?cd = "sample_codec (RqListTree (ex_request 7) [''b'']) sample_chunk"
  let ?c = "sample_client (sample_frame CHR ''a'')"
  let ?c' = "?c\<lparr>ac_writer := \<lparr>wr_written = sample_frame CHR ''r'', wr_accept = None\<rparr>\<rparr>"
  have served: "serve_loop (=) sample_agent ?cd (wr_written (ac_writer ?c')) ()
      (dispatcher_new \<lparr>mc_default_uid = None, mc_default_gid = None\<rparr>) (writer_new None)
      = ((), \<lparr>wr_written = sample_frame CHR ''a'', wr_accept = None\<rparr>, ServeClosed)"
    using sample_serve[OF sample_tree_dispatch] by simp
  have coll: "am_collector sample_agent = ex_collector" by (simp add: sample_agent_def)
  have "client_list_tree ?cd (ex_request 7) [''b''] ?c = (?c'\<lparr>ac_stream := []\<rparr>, Inr (Inr (ex_listing 7)))"
    using tree_listed_through_agent[OF sample_codec_reads_back _ _ sample_send served _ sample_scan[folded coll],
        of "[]" "[]"]
    by (simp add: sample_client_def writer_new_def ex_request_def request_paths_def)
  then show ?thesis by simp
qed

end
