(* ===== verification/KnownHosts.thy ===== *)
theory KnownHosts
  imports Text AppError
begin

text \<open>
  Which host key of a server is trusted (\<open>known_hosts.rs\<close>, \<open>known_hosts_io.rs\<close> and
  \<open>host_key_verifier.rs\<close> of remote-merge-ssh): reading the file known_hosts, judging a presented key,
  and adding an approved one. Base64 and HMAC-SHA1 are a parameter.
\<close>

record digests =
  dg_base64 :: "string \<Rightarrow> bytes option"
  dg_hmac_sha1 :: "bytes \<Rightarrow> bytes \<Rightarrow> bytes option"

subsection \<open>The lines of the file\<close>

record known_host =
  kh_pattern :: string
  kh_key_type :: string
  kh_key_base64 :: string
  kh_line_number :: nat

text \<open>\<open>str::lines\<close>: pieces between line feeds without a carriage return at the end; nothing behind the
  last line feed.\<close>

definition strip_cr :: "string \<Rightarrow> string" where
  "strip_cr l = (if l \<noteq> [] \<and> last l = CHR 0x0D then butlast l else l)"

definition text_lines :: "string \<Rightarrow> string list" where
  "text_lines s =
     (let pieces = split_on CHR 0x0A s;
          terminated = butlast pieces
      in map strip_cr terminated @ (if last pieces = [] then [] else [last pieces]))"

definition entry_lines :: "string \<Rightarrow> (nat \<times> string) list" where
  "entry_lines content =
     filter (\<lambda>(_, l). l \<noteq> [] \<and> \<not> starts_with ''#'' l)
       (map (\<lambda>(i, l). (i + 1, str_trim l)) (enum_from 0 (text_lines content)))"

definition parse_entry :: "nat \<times> string \<Rightarrow> known_host option" where
  "parse_entry x =
     (case split_whitespace (snd x) of
        pattern # key_type # key_base64 # _ \<Rightarrow>
          Some \<lparr>kh_pattern = pattern, kh_key_type = key_type, kh_key_base64 = key_base64,
                kh_line_number = fst x\<rparr>
      | _ \<Rightarrow> None)"

definition known_host_entries :: "string \<Rightarrow> known_host list" where
  "known_host_entries content =
     List.map_filter parse_entry (filter (\<lambda>(_, l). \<not> starts_with ''@'' l) (entry_lines content))"

text \<open>\<open>trim_start\<close>.\<close>

definition str_trim_start :: "string \<Rightarrow> string" where
  "str_trim_start s = trim_by ws_head s"

definition parse_revoked_line :: "nat \<times> string \<Rightarrow> known_host option" where
  "parse_revoked_line x =
     (case strip_prefix ''@revoked'' (snd x) of
        Some rest \<Rightarrow>
          if starts_with '' '' rest \<or> starts_with [CHR 0x09] rest
          then parse_entry (fst x, str_trim_start rest) else None
      | None \<Rightarrow> None)"

definition parse_revoked_keys :: "string \<Rightarrow> known_host list" where
  "parse_revoked_keys content = List.map_filter parse_revoked_line (entry_lines content)"

subsection \<open>Hosts\<close>

definition format_host_entry :: "string \<Rightarrow> u16 \<Rightarrow> string" where
  "format_host_entry host port =
     (if port = 22 then host else ''['' @ host @ '']:'' @ show_nat (unat port))"

definition hashed_host_matches :: "digests \<Rightarrow> string \<Rightarrow> string \<Rightarrow> u16 \<Rightarrow> bool" where
  "hashed_host_matches dg pattern host port =
     (case split_on CHR ''|'' pattern of
        _ # version # salt_text # hash_text # _ \<Rightarrow>
          version = ''1'' \<and>
          (case (dg_base64 dg salt_text, dg_base64 dg hash_text) of
             (Some salt, Some expected) \<Rightarrow>
               dg_hmac_sha1 dg salt (format_host_entry host port) = Some expected
           | _ \<Rightarrow> False)
      | _ \<Rightarrow> False)"

definition host_matches :: "digests \<Rightarrow> string \<Rightarrow> string \<Rightarrow> string \<Rightarrow> u16 \<Rightarrow> bool" where
  "host_matches dg pattern host_entry host port =
     (if starts_with ''|1|'' pattern then hashed_host_matches dg pattern host port
      else
        (\<exists>p \<in> set (split_on CHR '','' pattern).
           str_trim p = host_entry \<or> (port = 22 \<and> str_trim p = host)))"

subsection \<open>Judging a key\<close>

datatype host_key_judgement = HkTrusted | HkChanged nat | HkUnknown | HkRevoked nat

fun judge_entries :: "known_host list \<Rightarrow> string \<Rightarrow> host_key_judgement" where
  "judge_entries [] key_base64 = HkUnknown"
| "judge_entries (kh # _) key_base64 =
     (if kh_key_base64 kh = key_base64 then HkTrusted else HkChanged (kh_line_number kh))"

definition judge_host_key ::
  "digests \<Rightarrow> string \<Rightarrow> string \<Rightarrow> u16 \<Rightarrow> string \<Rightarrow> string \<Rightarrow> host_key_judgement" where
  "judge_host_key dg content host port key_type key_base64 =
     (let matches = (\<lambda>kh. host_matches dg (kh_pattern kh) (format_host_entry host port) host port
            \<and> kh_key_type kh = key_type)
      in case find (\<lambda>kh. matches kh \<and> kh_key_base64 kh = key_base64) (parse_revoked_keys content) of
           Some kh \<Rightarrow> HkRevoked (kh_line_number kh)
         | None \<Rightarrow> judge_entries (filter matches (known_host_entries content)) key_base64)"

subsection \<open>Adding a key\<close>

definition known_hosts_line :: "string \<Rightarrow> u16 \<Rightarrow> string \<Rightarrow> string \<Rightarrow> string" where
  "known_hosts_line host port key_type key_base64 =
     format_host_entry host port @ '' '' @ key_type @ '' '' @ key_base64 @ [CHR 0x0A]"

text \<open>What the file holds once the entry is appended.\<close>

definition appended_known_hosts :: "string \<Rightarrow> string \<Rightarrow> u16 \<Rightarrow> string \<Rightarrow> string \<Rightarrow> string" where
  "appended_known_hosts content host port key_type key_base64 =
     content @ (if content \<noteq> [] \<and> last content \<noteq> CHR 0x0A then [CHR 0x0A] else [])
       @ known_hosts_line host port key_type key_base64"

end
