(* ===== verification/SshConnect.thy ===== *)
theory SshConnect
  imports KnownHosts ConfigValue Connection
begin

text \<open>
  Connecting over SSH (\<open>client.rs\<close>, \<open>known_hosts.rs\<close>, \<open>host_key_verifier.rs\<close>, \<open>password.rs\<close>,
  \<open>passphrase_provider.rs\<close>, \<open>server_env.rs\<close>, \<open>preferred.rs\<close> and \<open>hint.rs\<close> of
  remote-merge-ssh): which algorithms are offered, judging the key the server presents, asking about an
  unknown key, and authenticating. The SSH library, the files and the terminal are a parameter. What
  is asked, read and sent is kept as a list of events.
\<close>

subsection \<open>Algorithms\<close>

text \<open>What the SSH library knows: how it reads a name of each kind, and its defaults. \<open>None\<close> for a name
  that is not usable (for host keys also ssh-dss).\<close>

datatype algorithm_kind = AkKex | AkKey | AkCipher | AkMac | AkCompression

record algorithms =
  al_read :: "algorithm_kind \<Rightarrow> string \<Rightarrow> string option"
  al_default :: "algorithm_kind \<Rightarrow> string list"
  al_sha1_macs :: "string list"
  al_none :: "algorithm_kind \<Rightarrow> string list"

record preferred =
  pf_kex :: "string list"
  pf_key :: "string list"
  pf_cipher :: "string list"
  pf_mac :: "string list"

fun add_missing :: "'a list \<Rightarrow> 'a list \<Rightarrow> 'a list" where
  "add_missing result [] = result"
| "add_missing result (x # xs) = add_missing (if x \<in> set result then result else result @ [x]) xs"

definition prepend_to :: "'a list \<Rightarrow> 'a list \<Rightarrow> 'a list option" where
  "prepend_to user_names defaults = (if user_names = [] then None else Some (add_missing user_names defaults))"

definition resolve_names :: "algorithms \<Rightarrow> algorithm_kind \<Rightarrow> string list \<Rightarrow> string list \<Rightarrow> string list option" where
  "resolve_names al k user_list defaults = prepend_to (List.map_filter (al_read al k) user_list) defaults"

definition default_macs :: "algorithms \<Rightarrow> string list" where
  "default_macs al = add_missing (al_default al AkMac) (al_sha1_macs al)"

definition preferred_for ::
  "algorithms \<Rightarrow> algorithm_kind \<Rightarrow> string list option \<Rightarrow> string list \<Rightarrow> string list" where
  "preferred_for al k configured defaults =
     (case configured of
        None \<Rightarrow> defaults
      | Some user_list \<Rightarrow> (case resolve_names al k user_list defaults of Some names \<Rightarrow> names | None \<Rightarrow> defaults))"

definition build_preferred :: "algorithms \<Rightarrow> ssh_options \<Rightarrow> preferred" where
  "build_preferred al opts =
     \<lparr>pf_kex = preferred_for al AkKex (so_kex_algorithms opts) (al_default al AkKex),
      pf_key = preferred_for al AkKey (so_host_key_algorithms opts) (al_default al AkKey),
      pf_cipher = preferred_for al AkCipher (so_ciphers opts) (al_default al AkCipher),
      pf_mac = preferred_for al AkMac (so_mac_algorithms opts) (default_macs al)\<rparr>"

record connection_failure =
  cn_text :: string
  cn_no_common :: "(algorithm_kind \<times> string list) option"

definition usable :: "algorithms \<Rightarrow> algorithm_kind \<Rightarrow> string \<Rightarrow> bool" where
  "usable al k name = (case al_read al k name of Some n \<Rightarrow> n \<notin> set (al_none al k) | None \<Rightarrow> False)"

fun setting_of :: "algorithm_kind \<Rightarrow> string option" where
  "setting_of AkKex = Some ''kex_algorithms''"
| "setting_of AkKey = Some ''host_key_algorithms''"
| "setting_of AkCipher = Some ''ciphers''"
| "setting_of AkMac = Some ''mac_algorithms''"
| "setting_of AkCompression = None"

text \<open>A usable name is shown by \<open>{:?}\<close> as it is between quotes.\<close>

definition ssh_algorithm_hint :: "algorithms \<Rightarrow> connection_failure \<Rightarrow> string option" where
  "ssh_algorithm_hint al e =
     Option.bind (cn_no_common e) (\<lambda>(k, theirs).
     Option.bind (setting_of k) (\<lambda>setting.
       (let names = map (\<lambda>n. [CHR 0x22] @ n @ [CHR 0x22]) (filter (usable al k) theirs) in
        if names = [] then None
        else
          Some (''Hint: The remote server may require legacy SSH algorithms.'' @ newline
            @ ''Add the following to your config.toml under [servers.<name>]:'' @ newline @ newline
            @ ''[servers.<name>.ssh_options]'' @ newline @ ''  '' @ setting @ '' = ['' @ join_with '', '' names
            @ '']'' @ newline))))"

definition connection_error :: "algorithms \<Rightarrow> string \<Rightarrow> connection_failure \<Rightarrow> app_error" where
  "connection_error al host e =
     SshConnection host
       (case ssh_algorithm_hint al e of
          Some hint \<Rightarrow> cn_text e @ newline @ newline @ hint
        | None \<Rightarrow> cn_text e)"

text \<open>\<open>silence_timeout\<close> in seconds.\<close>

definition silence_timeout :: "u64 \<Rightarrow> u64" where
  "silence_timeout timeout_sec = max timeout_sec 120"

definition offered :: "algorithms \<Rightarrow> server_config \<Rightarrow> preferred" where
  "offered al c =
     build_preferred al
       (case sv_ssh_options c of
          Some opts \<Rightarrow> opts
        | None \<Rightarrow> \<lparr>so_kex_algorithms = None, so_host_key_algorithms = None, so_ciphers = None,
                   so_mac_algorithms = None\<rparr>)"

subsection \<open>The world of a connection\<close>

text \<open>What a server presents: a key as OpenSSH writes it (type and base64), or a certificate. A session is
  over the key that was presented and accepted.\<close>

datatype presented = PrKey "string + string" | PrCertificate

datatype session = Session string

datatype attempt =
    AtTimedOut
  | AtFailed connection_failure
  | AtKey presented "connection_failure option"

datatype 'k credential = CrKey 'k | CrPassword string

record unknown_host =
  uk_host :: string
  uk_port :: u16
  uk_key_type :: string
  uk_fingerprint :: string
  uk_key_base64 :: string

datatype key_load_error = KeyIsEncrypted | KeyUnreadable

datatype 'k ssh_event =
    EvRead "string option"
  | EvAsked unknown_host bool
  | EvAppended string u16 string string
  | EvSent session string "'k credential"

record ('w, 'k) ssh_system =
  sy_algorithms :: algorithms
  sy_digests :: digests
  sy_fingerprint :: "bytes \<Rightarrow> string"
  sy_refused_text :: string
  sy_attempt :: "preferred \<Rightarrow> u64 \<Rightarrow> string \<Rightarrow> u16 \<Rightarrow> 'w \<Rightarrow> 'w \<times> attempt"
  sy_read_known_hosts :: "string option \<Rightarrow> 'w \<Rightarrow> 'w \<times> (string + string option)"
  sy_append :: "string option \<Rightarrow> string \<Rightarrow> u16 \<Rightarrow> string \<Rightarrow> string \<Rightarrow> 'w \<Rightarrow> 'w"
  sy_authenticate :: "session \<Rightarrow> string \<Rightarrow> 'k credential \<Rightarrow> 'w \<Rightarrow> 'w \<times> (string + bool)"
  sy_load_key :: "string \<Rightarrow> string option \<Rightarrow> 'w \<Rightarrow> 'w \<times> (key_load_error + 'k)"
  sy_env :: "string \<Rightarrow> string option"
  sy_upper :: "string \<Rightarrow> string"
  sy_home :: "string option"

record ('w, 'k) ssh_run =
  sh_world :: 'w
  sh_events :: "'k ssh_event list"

type_synonym ('w, 'k, 'a) ssh_act = "('w, 'k) ssh_run \<Rightarrow> ('w, 'k) ssh_run \<times> (run_error + 'a)"

definition noted :: "'k ssh_event \<Rightarrow> ('w, 'k) ssh_run \<Rightarrow> ('w, 'k) ssh_run" where
  "noted e rn = rn\<lparr>sh_events := sh_events rn @ [e]\<rparr>"

definition in_world :: "('w \<Rightarrow> 'w \<times> 'a) \<Rightarrow> ('w, 'k) ssh_run \<Rightarrow> ('w, 'k) ssh_run \<times> 'a" where
  "in_world f rn = (case f (sh_world rn) of (w, x) \<Rightarrow> (rn\<lparr>sh_world := w\<rparr>, x))"

definition app_run_error :: "app_error \<Rightarrow> run_error" where
  "app_run_error e = [CauseOther (RcApp e)]"

subsection \<open>The key the server presents\<close>

datatype key_acceptance = KnownHostsFile "string option" | ApprovedKey string string

definition openssh_key :: "presented \<Rightarrow> string + string option" where
  "openssh_key p =
     (case p of
        PrKey (Inr key) \<Rightarrow> Inr (Some key)
      | PrKey (Inl e) \<Rightarrow> Inl (''Failed to serialize public key: '' @ e)
      | PrCertificate \<Rightarrow> Inr None)"

definition split_openssh_key :: "string \<Rightarrow> string + string \<times> string" where
  "split_openssh_key openssh =
     (if CHR '' '' \<in> set openssh
      then Inr (takeWhile (\<lambda>c. c \<noteq> CHR '' '') openssh, tl (dropWhile (\<lambda>c. c \<noteq> CHR '' '') openssh))
      else Inl (''Invalid public key format: '' @ openssh))"

definition format_fingerprint :: "('w, 'k) ssh_system \<Rightarrow> string \<Rightarrow> string" where
  "format_fingerprint sy key_base64 =
     (case dg_base64 (sy_digests sy) key_base64 of
        None \<Rightarrow> ''SHA256:<unknown>''
      | Some bs \<Rightarrow> ''SHA256:'' @ trim_end_matches CHR ''='' (sy_fingerprint sy bs))"

text \<open>The words of the refusals.\<close>

definition warning_rule :: string where
  "warning_rule = replicate 59 CHR ''@'' @ newline"

definition changed_text :: "string \<Rightarrow> string \<Rightarrow> nat \<Rightarrow> string \<Rightarrow> string" where
  "changed_text key_type host line host_entry =
     newline @ warning_rule @ ''@    WARNING: REMOTE HOST IDENTIFICATION HAS CHANGED!     @'' @ newline @ warning_rule
     @ ''IT IS POSSIBLE THAT SOMEONE IS DOING SOMETHING NASTY!'' @ newline
     @ ''Someone could be eavesdropping on you right now (man-in-the-middle attack)!'' @ newline
     @ ''It is also possible that a host key has just been changed.'' @ newline
     @ ''The '' @ key_type @ '' host key for '' @ host @ '' has changed (line '' @ show_nat line
     @ '' in ~/.ssh/known_hosts).'' @ newline
     @ ''To fix this, run:'' @ newline @ newline @ ''  ssh-keygen -R '' @ host_entry @ newline"

definition revoked_text :: "string \<Rightarrow> string \<Rightarrow> nat \<Rightarrow> string" where
  "revoked_text key_type host line =
     ''The '' @ key_type @ '' host key for '' @ host @ '' is marked as revoked (line '' @ show_nat line
     @ '' in ~/.ssh/known_hosts). Refusing to connect.''"

definition unreadable_text :: "string \<Rightarrow> string \<Rightarrow> string" where
  "unreadable_text e host =
     ''Failed to read ~/.ssh/known_hosts: '' @ e @ ''. Refusing to verify the host key for '' @ host @ ''.''"

text \<open>The verdict on a key, and the unknown host the connecting side is told of.\<close>

type_synonym key_verdict = "(string + bool) \<times> unknown_host option"

definition unknown_key :: "('w, 'k) ssh_system \<Rightarrow> string \<Rightarrow> u16 \<Rightarrow> string \<Rightarrow> string \<Rightarrow> key_verdict" where
  "unknown_key sy host port key_type key_base64 =
     (Inr False,
      Some \<lparr>uk_host = host, uk_port = port, uk_key_type = key_type,
            uk_fingerprint = format_fingerprint sy key_base64, uk_key_base64 = key_base64\<rparr>)"

definition judged_key ::
  "('w, 'k) ssh_system \<Rightarrow> string \<Rightarrow> string \<Rightarrow> u16 \<Rightarrow> string \<Rightarrow> string \<Rightarrow> key_verdict" where
  "judged_key sy content host port key_type key_base64 =
     (case judge_host_key (sy_digests sy) content host port key_type key_base64 of
        HkTrusted \<Rightarrow> (Inr True, None)
      | HkChanged line \<Rightarrow> (Inl (changed_text key_type host line (format_host_entry host port)), None)
      | HkRevoked line \<Rightarrow> (Inl (revoked_text key_type host line), None)
      | HkUnknown \<Rightarrow> unknown_key sy host port key_type key_base64)"

definition check_known_hosts ::
  "('w, 'k) ssh_system \<Rightarrow> string \<Rightarrow> u16 \<Rightarrow> string option \<Rightarrow> string \<Rightarrow> string \<Rightarrow> ('w, 'k) ssh_run
    \<Rightarrow> ('w, 'k) ssh_run \<times> key_verdict" where
  "check_known_hosts sy host port known_hosts key_type key_base64 rn =
     (case in_world (sy_read_known_hosts sy known_hosts) rn of
        (rn', Inl e) \<Rightarrow> (rn', Inl (unreadable_text e host), None)
      | (rn', Inr None) \<Rightarrow> (noted (EvRead None) rn', unknown_key sy host port key_type key_base64)
      | (rn', Inr (Some content)) \<Rightarrow>
          (noted (EvRead (Some content)) rn', judged_key sy content host port key_type key_base64))"

definition check_server_key ::
  "('w, 'k) ssh_system \<Rightarrow> string \<Rightarrow> u16 \<Rightarrow> key_acceptance \<Rightarrow> presented \<Rightarrow> ('w, 'k) ssh_run
    \<Rightarrow> ('w, 'k) ssh_run \<times> key_verdict" where
  "check_server_key sy host port acceptance p rn =
     (case openssh_key p of
        Inl e \<Rightarrow> (rn, Inl e, None)
      | Inr None \<Rightarrow> (rn, Inr False, None)
      | Inr (Some key) \<Rightarrow>
          (case split_openssh_key key of
             Inl e \<Rightarrow> (rn, Inl e, None)
           | Inr (key_type, key_base64) \<Rightarrow>
               (case acceptance of
                  KnownHostsFile known_hosts \<Rightarrow> check_known_hosts sy host port known_hosts key_type key_base64 rn
                | ApprovedKey approved_type approved_base64 \<Rightarrow>
                    (rn, Inr ((key_type, key_base64) = (approved_type, approved_base64)), None))))"

subsection \<open>One attempt\<close>

definition failed_with :: "string \<Rightarrow> connection_failure" where
  "failed_with words = \<lparr>cn_text = words, cn_no_common = None\<rparr>"

text \<open>The library asks about the key once and gives a session only when it was accepted.\<close>

definition presented_text :: "presented \<Rightarrow> string" where
  "presented_text p = (case p of PrKey (Inr key) \<Rightarrow> key | _ \<Rightarrow> [])"

definition try_connect ::
  "('w, 'k) ssh_system \<Rightarrow> server_config \<Rightarrow> ssh_config \<Rightarrow> key_acceptance \<Rightarrow> ('w, 'k) ssh_run
    \<Rightarrow> ('w, 'k) ssh_run \<times> (run_error + (connection_failure + session)) \<times> unknown_host option" where
  "try_connect sy server ssh acceptance rn =
     (case in_world (sy_attempt sy (offered (sy_algorithms sy) server) (sc_timeout_sec ssh)
              (sv_host server) (sv_port server)) rn of
        (rn', AtTimedOut) \<Rightarrow>
          (rn', Inl (app_run_error (SshTimeout (sv_host server) (sc_timeout_sec ssh))), None)
      | (rn', AtFailed e) \<Rightarrow> (rn', Inr (Inl e), None)
      | (rn', AtKey p after) \<Rightarrow>
          (case check_server_key sy (sv_host server) (sv_port server) acceptance p rn' of
             (rn'', Inl words, u) \<Rightarrow> (rn'', Inr (Inl (failed_with words)), u)
           | (rn'', Inr False, u) \<Rightarrow> (rn'', Inr (Inl (failed_with (sy_refused_text sy))), u)
           | (rn'', Inr True, u) \<Rightarrow>
               (rn'', Inr (case after of Some e \<Rightarrow> Inl e | None \<Rightarrow> Inr (Session (presented_text p))), u)))"

end
