(* ===== verification/SshSession.thy ===== *)
theory SshSession
  imports SshConnect
begin

text \<open>
  Authenticating and connecting (the rest of \<open>client.rs\<close> of remote-merge-ssh): loading a private key with
  its passphrase, choosing a password, asking the verifier about an unknown key and connecting again to
  the approved one; and that credentials are sent only over a key that was trusted or approved.
\<close>

subsection \<open>Secrets\<close>

definition server_env_name :: "(string \<Rightarrow> string) \<Rightarrow> string \<Rightarrow> string \<Rightarrow> string" where
  "server_env_name upper front server_id =
     front @ upper (map (\<lambda>c. if c = CHR ''-'' \<or> c = CHR ''.'' then CHR ''_'' else c) server_id)"

datatype password_source = FromEnv | FromConfig

definition resolve_password ::
  "('w, 'k) ssh_system \<Rightarrow> string \<Rightarrow> string option \<Rightarrow> (string \<times> password_source) option" where
  "resolve_password sy server_id config_password =
     (case sy_env sy (server_env_name (sy_upper sy) ''REMOTE_MERGE_PASSWORD_'' server_id) of
        Some (c # val) \<Rightarrow> Some (c # val, FromEnv)
      | _ \<Rightarrow> map_option (\<lambda>p. (p, FromConfig)) config_password)"

definition max_passphrase_retries :: nat where
  "max_passphrase_retries = 3"

text \<open>A provider of passphrases answers None when the user gives up.\<close>

type_synonym 'w passphrases = "string \<Rightarrow> 'w \<Rightarrow> 'w \<times> string option"

fun passphrase_loop ::
  "nat \<Rightarrow> ('w, 'k) ssh_system \<Rightarrow> 'w passphrases \<Rightarrow> string \<Rightarrow> string \<Rightarrow> ('w, 'k) ssh_run
    \<Rightarrow> ('w, 'k) ssh_run \<times> 'k option" where
  "passphrase_loop 0 sy provider expanded original rn = (rn, None)"
| "passphrase_loop (Suc attempts) sy provider expanded original rn =
     (case in_world (provider original) rn of
        (rn1, None) \<Rightarrow> (rn1, None)
      | (rn1, Some passphrase) \<Rightarrow>
          (case in_world (sy_load_key sy expanded (Some passphrase)) rn1 of
             (rn2, Inr key) \<Rightarrow> (rn2, Some key)
           | (rn2, Inl _) \<Rightarrow> passphrase_loop attempts sy provider expanded original rn2))"

definition load_with_env ::
  "('w, 'k) ssh_system \<Rightarrow> string \<Rightarrow> string \<Rightarrow> ('w, 'k) ssh_run \<Rightarrow> ('w, 'k) ssh_run \<times> 'k option" where
  "load_with_env sy server_id expanded rn =
     (case sy_env sy (server_env_name (sy_upper sy) ''REMOTE_MERGE_KEY_PASSPHRASE_'' server_id) of
        Some (c # passphrase) \<Rightarrow>
          (case in_world (sy_load_key sy expanded (Some (c # passphrase))) rn of
             (rn', Inr key) \<Rightarrow> (rn', Some key)
           | (rn', Inl _) \<Rightarrow> (rn', None))
      | _ \<Rightarrow> (rn, None))"

definition load_secret_key_with ::
  "('w, 'k) ssh_system \<Rightarrow> string \<Rightarrow> string \<Rightarrow> string \<Rightarrow> 'w passphrases option \<Rightarrow> ('w, 'k, 'k) ssh_act" where
  "load_secret_key_with sy expanded original server_id provider rn =
     (let failed = app_run_error (SshKeyLoad original) in
      case in_world (sy_load_key sy expanded None) rn of
        (rn1, Inr key) \<Rightarrow> (rn1, Inr key)
      | (rn1, Inl KeyUnreadable) \<Rightarrow> (rn1, Inl failed)
      | (rn1, Inl KeyIsEncrypted) \<Rightarrow>
          (case load_with_env sy server_id expanded rn1 of
             (rn2, Some key) \<Rightarrow> (rn2, Inr key)
           | (rn2, None) \<Rightarrow>
               (case provider of
                  None \<Rightarrow> (rn2, Inl failed)
                | Some ask \<Rightarrow>
                    (case passphrase_loop max_passphrase_retries sy ask expanded original rn2 of
                       (rn3, k) \<Rightarrow> (rn3, ok_or failed k)))))"

subsection \<open>Authenticating\<close>

definition send_credential ::
  "('w, 'k) ssh_system \<Rightarrow> session \<Rightarrow> server_config \<Rightarrow> string \<Rightarrow> 'k credential \<Rightarrow> ('w, 'k, unit) ssh_act" where
  "send_credential sy session server front credential rn =
     (case in_world (sy_authenticate sy session (sv_user server) credential)
             (noted (EvSent session (sv_user server) credential) rn) of
        (rn', Inl e) \<Rightarrow> (rn', Inl (app_run_error (SshConnection (sv_host server) (front @ e))))
      | (rn', Inr success) \<Rightarrow>
          (rn', if success then Inr () else Inl (app_run_error (SshAuth (sv_host server) (sv_user server)))))"

definition authenticate ::
  "('w, 'k) ssh_system \<Rightarrow> session \<Rightarrow> string \<Rightarrow> server_config \<Rightarrow> 'w passphrases option \<Rightarrow> ('w, 'k, unit) ssh_act" where
  "authenticate sy session server_id server provider rn =
     (case sv_auth server of
        AuthKey \<Rightarrow>
          (let key_path = (case sv_key server of Some k \<Rightarrow> k | None \<Rightarrow> ''~/.ssh/id_rsa'') in
           case load_secret_key_with sy (expand_tilde (sy_home sy) key_path) key_path server_id provider rn of
             (rn', Inl e) \<Rightarrow> (rn', Inl e)
           | (rn', Inr key) \<Rightarrow>
               send_credential sy session server ''Key authentication error: '' (CrKey key) rn')
      | AuthPassword \<Rightarrow>
          (case resolve_password sy server_id (sv_password server) of
             None \<Rightarrow> (rn, Inl (app_run_error (SshAuth (sv_host server) (sv_user server))))
           | Some (password, _) \<Rightarrow>
               send_credential sy session server ''Password authentication error: '' (CrPassword password) rn))"

text \<open>The session of a failed authentication is closed, a connected one is kept for the commands.\<close>

record ssh_client =
  sc_session :: session
  sc_server_name :: string
  sc_channel_timeout_sec :: u64

definition authenticated ::
  "('w, 'k) ssh_system \<Rightarrow> session \<Rightarrow> string \<Rightarrow> server_config \<Rightarrow> ssh_config \<Rightarrow> 'w passphrases option
    \<Rightarrow> ('w, 'k, ssh_client) ssh_act" where
  "authenticated sy session server_id server ssh provider rn =
     (case authenticate sy session server_id server provider rn of
        (rn', r) \<Rightarrow>
          (rn', res_bind r (\<lambda>_. Inr \<lparr>sc_session = session, sc_server_name = server_id,
                                 sc_channel_timeout_sec = sc_timeout_sec ssh\<rparr>)))"

subsection \<open>Connecting\<close>

type_synonym 'w verifier = "string \<Rightarrow> u16 \<Rightarrow> string \<Rightarrow> string \<Rightarrow> 'w \<Rightarrow> 'w \<times> bool"

definition refused_by_user :: "server_config \<Rightarrow> unknown_host \<Rightarrow> app_error" where
  "refused_by_user server u =
     SshConnection (sv_host server)
       (''Host key verification failed for '' @ uk_host u @ '' (port '' @ show_nat (unat (uk_port u))
        @ ''). Connection refused by user.'')"

definition connect_approved ::
  "('w, 'k) ssh_system \<Rightarrow> unknown_host \<Rightarrow> string \<Rightarrow> server_config \<Rightarrow> ssh_config \<Rightarrow> 'w passphrases option
    \<Rightarrow> ('w, 'k, ssh_client) ssh_act" where
  "connect_approved sy u server_id server ssh provider rn =
     (case try_connect sy server ssh (ApprovedKey (uk_key_type u) (uk_key_base64 u)) rn of
        (rn', Inl e, _) \<Rightarrow> (rn', Inl e)
      | (rn', Inr (Inl e), _) \<Rightarrow>
          (rn', Inl (app_run_error (connection_error (sy_algorithms sy) (sv_host server) e)))
      | (rn', Inr (Inr session), _) \<Rightarrow> authenticated sy session server_id server ssh provider rn')"

definition append_approved ::
  "('w, 'k) ssh_system \<Rightarrow> string option \<Rightarrow> unknown_host \<Rightarrow> ('w, 'k) ssh_run \<Rightarrow> ('w, 'k) ssh_run" where
  "append_approved sy known_hosts u rn =
     (let w = sy_append sy known_hosts (uk_host u) (uk_port u) (uk_key_type u) (uk_key_base64 u) (sh_world rn)
      in noted (EvAppended (uk_host u) (uk_port u) (uk_key_type u) (uk_key_base64 u)) (rn\<lparr>sh_world := w\<rparr>))"

definition handle_unknown_host_verification ::
  "('w, 'k) ssh_system \<Rightarrow> unknown_host \<Rightarrow> 'w verifier \<Rightarrow> string \<Rightarrow> server_config \<Rightarrow> ssh_config
    \<Rightarrow> 'w passphrases option \<Rightarrow> ('w, 'k, ssh_client) ssh_act" where
  "handle_unknown_host_verification sy u verifier server_id server ssh provider rn =
     (case in_world (verifier (uk_host u) (uk_port u) (uk_key_type u) (uk_fingerprint u)) rn of
        (rn1, approved) \<Rightarrow>
          (let rn2 = noted (EvAsked u approved) rn1 in
           if \<not> approved then (rn2, Inl (app_run_error (refused_by_user server u)))
           else
             connect_approved sy u server_id server ssh provider
               (append_approved sy (sc_known_hosts ssh) u rn2)))"

definition connect_with_verifier ::
  "('w, 'k) ssh_system \<Rightarrow> string \<Rightarrow> server_config \<Rightarrow> ssh_config \<Rightarrow> 'w verifier \<Rightarrow> 'w passphrases option
    \<Rightarrow> ('w, 'k, ssh_client) ssh_act" where
  "connect_with_verifier sy server_id server ssh verifier provider rn =
     (case try_connect sy server ssh (KnownHostsFile (sc_known_hosts ssh)) rn of
        (rn', Inl e, _) \<Rightarrow> (rn', Inl e)
      | (rn', Inr (Inr session), _) \<Rightarrow> authenticated sy session server_id server ssh provider rn'
      | (rn', Inr (Inl e), Some u) \<Rightarrow>
          handle_unknown_host_verification sy u verifier server_id server ssh provider rn'
      | (rn', Inr (Inl e), None) \<Rightarrow>
          (rn', Inl (app_run_error (connection_error (sy_algorithms sy) (sv_host server) e))))"

subsection \<open>Verifiers\<close>

definition auto_accept_verifier :: "'w verifier" where
  "auto_accept_verifier host port key_type fingerprint w = (w, True)"

definition reject_verifier :: "'w verifier" where
  "reject_verifier host port key_type fingerprint w = (w, False)"

text \<open>The words shown and the line read (None when the input cannot be read).\<close>

definition cli_question :: "string \<Rightarrow> u16 \<Rightarrow> string \<Rightarrow> string \<Rightarrow> string" where
  "cli_question host port key_type fingerprint =
     ''The authenticity of host '' @ single_quoted host @ '' (port '' @ show_nat (unat port)
     @ '') can'' @ [CHR 0x27] @ ''t be established.'' @ newline
     @ key_type @ '' key fingerprint is '' @ fingerprint @ ''.'' @ newline"

definition verify_host_key_with_input ::
  "bool \<Rightarrow> string \<Rightarrow> u16 \<Rightarrow> string \<Rightarrow> string \<Rightarrow> string option \<Rightarrow> string \<times> bool" where
  "verify_host_key_with_input auto_yes host port key_type fingerprint input =
     (if auto_yes
      then (cli_question host port key_type fingerprint @ ''Automatically accepted (--yes).'' @ newline, True)
      else
        (cli_question host port key_type fingerprint
           @ ''Are you sure you want to continue connecting (yes/no)? '',
         (case input of
            None \<Rightarrow> False
          | Some line \<Rightarrow> lowercase_view (str_trim line) \<in> {''yes'', ''y''})))"

definition choose_verifier :: "strict_checking \<Rightarrow> 'w verifier \<Rightarrow> 'w verifier" where
  "choose_verifier policy ask =
     (case policy of
        StrictNo \<Rightarrow> auto_accept_verifier
      | StrictYes \<Rightarrow> reject_verifier
      | StrictAsk \<Rightarrow> ask)"

end
