(* ===== verification/SshProps.thy ===== *)
theory SshProps
  imports SshSession
begin

text \<open>
  Credentials go only to a server whose key was trusted by known_hosts as it was read, or approved by the
  user as exactly that key.
\<close>

subsection \<open>A cleared key\<close>

definition trusted_in :: "('w, 'k) ssh_system \<Rightarrow> server_config \<Rightarrow> 'k ssh_event list \<Rightarrow> string \<Rightarrow> string \<Rightarrow> bool" where
  "trusted_in sy server events key_type key_base64 \<longleftrightarrow>
     (\<exists>content. EvRead (Some content) \<in> set events \<and>
        judge_host_key (sy_digests sy) content (sv_host server) (sv_port server) key_type key_base64 = HkTrusted)"

definition approved_in :: "('w, 'k) ssh_system \<Rightarrow> server_config \<Rightarrow> 'k ssh_event list \<Rightarrow> string \<Rightarrow> string \<Rightarrow> bool" where
  "approved_in sy server events key_type key_base64 \<longleftrightarrow>
     EvAsked (the (snd (unknown_key sy (sv_host server) (sv_port server) key_type key_base64))) True \<in> set events"

fun cleared :: "('w, 'k) ssh_system \<Rightarrow> server_config \<Rightarrow> 'k ssh_event list \<Rightarrow> session \<Rightarrow> bool" where
  "cleared sy server events (Session key) \<longleftrightarrow>
     (\<exists>key_type key_base64. split_openssh_key key = Inr (key_type, key_base64)
        \<and> (trusted_in sy server events key_type key_base64 \<or> approved_in sy server events key_type key_base64))"

lemma cleared_append: "cleared sy server events s \<Longrightarrow> cleared sy server (events @ later) s"
  by (cases s) (auto simp: trusted_in_def approved_in_def)

text \<open>The key was not decided by the file: there was none, or it knew no key of the kind.\<close>

definition undecided_in :: "('w, 'k) ssh_system \<Rightarrow> 'k ssh_event list \<Rightarrow> unknown_host \<Rightarrow> bool" where
  "undecided_in sy events u \<longleftrightarrow>
     EvRead None \<in> set events \<or>
     (\<exists>content. EvRead (Some content) \<in> set events \<and>
        judge_host_key (sy_digests sy) content (uk_host u) (uk_port u) (uk_key_type u) (uk_key_base64 u) = HkUnknown)"

subsection \<open>Each step\<close>

lemma in_world_events [simp]: "in_world f rn = (rn', x) \<Longrightarrow> sh_events rn' = sh_events rn"
  by (auto simp: in_world_def split: prod.splits)

lemma noted_events [simp]: "sh_events (noted e rn) = sh_events rn @ [e]"
  by (simp add: noted_def)

lemma check_known_hosts_events:
  assumes "check_known_hosts sy (sv_host server) (sv_port server) kh kt kb rn = (rn', v, u)"
  shows "\<exists>evs. sh_events rn' = sh_events rn @ evs \<and> (\<forall>e \<in> set evs. \<exists>c. e = EvRead c)
    \<and> (v = Inr True \<longrightarrow> trusted_in sy server evs kt kb)
    \<and> (\<forall>x. u = Some x \<longrightarrow> undecided_in sy evs x
         \<and> u = snd (unknown_key sy (sv_host server) (sv_port server) kt kb))"
proof -
  obtain rn1 r where read: "in_world (sy_read_known_hosts sy kh) rn = (rn1, r)" by fastforce
  show ?thesis
  proof (cases r)
    case (Inl e)
    then show ?thesis using assms read by (intro exI[of _ "[]"]) (auto simp: check_known_hosts_def)
  next
    case (Inr c)
    have "(v, u) = (case c of None \<Rightarrow> unknown_key sy (sv_host server) (sv_port server) kt kb
        | Some content \<Rightarrow> judged_key sy content (sv_host server) (sv_port server) kt kb)"
      "sh_events rn' = sh_events rn @ [EvRead c]"
      using assms read Inr by (auto simp: check_known_hosts_def split: option.splits)
    then show ?thesis
      by (intro exI[of _ "[EvRead c]"])
         (auto simp: trusted_in_def undecided_in_def judged_key_def unknown_key_def
            split: option.splits host_key_judgement.splits)
  qed
qed

lemma try_connect_known:
  assumes "try_connect sy server ssh (KnownHostsFile kh) rn = (rn', r, u)"
  shows "\<exists>evs. sh_events rn' = sh_events rn @ evs \<and> (\<forall>e \<in> set evs. \<exists>c. e = EvRead c)
    \<and> (\<forall>s. r = Inr (Inr s) \<longrightarrow> cleared sy server evs s)
    \<and> (\<forall>x. u = Some x \<longrightarrow> undecided_in sy evs x
         \<and> (\<exists>kt kb. u = snd (unknown_key sy (sv_host server) (sv_port server) kt kb)))"
proof -
  obtain rn1 a where attempt: "in_world (sy_attempt sy (offered (sy_algorithms sy) server) (sc_timeout_sec ssh)
     (sv_host server) (sv_port server)) rn = (rn1, a)" by fastforce
  show ?thesis
  proof (cases "\<exists>key after kt kb. a = AtKey (PrKey (Inr key)) after \<and> split_openssh_key key = Inr (kt, kb)")
    case True
    then obtain key after kt kb where a: "a = AtKey (PrKey (Inr key)) after" "split_openssh_key key = Inr (kt, kb)"
      by blast
    obtain v u1 where check: "check_known_hosts sy (sv_host server) (sv_port server) kh kt kb rn1 = (rn', v, u1)"
      and r: "u = u1" "\<forall>s. r = Inr (Inr s) \<longrightarrow> v = Inr True \<and> s = Session key"
      using assms attempt a
      by (auto simp: try_connect_def check_server_key_def openssh_key_def presented_text_def
          split: prod.splits sum.splits bool.splits option.splits)
    then show ?thesis using check_known_hosts_events[OF check] in_world_events[OF attempt] a(2) by fastforce
  next
    case False
    then show ?thesis using assms attempt in_world_events[OF attempt]
      by (intro exI[of _ "[]"])
         (auto simp: try_connect_def check_server_key_def openssh_key_def split: attempt.splits presented.splits sum.splits)
  qed
qed

lemma try_connect_approved:
  assumes "try_connect sy server ssh (ApprovedKey kt kb) rn = (rn', r, u)"
  shows "sh_events rn' = sh_events rn
    \<and> (\<forall>key. r = Inr (Inr (Session key)) \<longrightarrow> split_openssh_key key = Inr (kt, kb))"
  using assms
  by (auto simp: try_connect_def check_server_key_def openssh_key_def presented_text_def
      split: prod.splits attempt.splits presented.splits sum.splits bool.splits option.splits)

lemma passphrase_loop_events: "sh_events (fst (passphrase_loop n sy ask expanded original rn)) = sh_events rn"
proof (induction n arbitrary: rn)
  case (Suc n)
  show ?case using Suc.IH by (auto split: prod.splits option.splits sum.splits)
qed simp

lemma load_with_env_events: "sh_events (fst (load_with_env sy name expanded rn)) = sh_events rn"
  by (auto simp: load_with_env_def split: option.splits list.splits prod.splits sum.splits)

lemma load_secret_key_events:
  assumes "load_secret_key_with sy expanded original name provider rn = (rn', r)"
  shows "sh_events rn' = sh_events rn"
proof -
  have env: "sh_events rn2 = sh_events rn1" if "load_with_env sy name expanded rn1 = (rn2, k)" for rn1 rn2 k
    using load_with_env_events[of sy name expanded rn1] that by simp
  have loop: "sh_events rn2 = sh_events rn1" if "passphrase_loop n sy ask expanded original rn1 = (rn2, k)" for n ask rn1 rn2 k
    using passphrase_loop_events[of n sy ask expanded original rn1] that by simp
  obtain rn1 k where plain: "in_world (sy_load_key sy expanded None) rn = (rn1, k)" by fastforce
  obtain rn2 k2 where second: "load_with_env sy name expanded rn1 = (rn2, k2)" by fastforce
  have same: "sh_events rn1 = sh_events rn" "sh_events rn2 = sh_events rn"
    using in_world_events[OF plain] env[OF second] by simp_all
  show ?thesis
  proof (cases "k = Inl KeyIsEncrypted \<and> k2 = None \<and> provider \<noteq> None")
    case True
    then obtain ask where "provider = Some ask" by blast
    then show ?thesis using assms True plain second same loop[of max_passphrase_retries ask rn2]
      by (auto simp: load_secret_key_with_def Let_def split: prod.splits)
  next
    case False
    then show ?thesis using assms plain second same
      by (auto simp: load_secret_key_with_def Let_def split: sum.splits option.splits key_load_error.splits)
  qed
qed

lemma send_credential_events:
  assumes "send_credential sy session server front credential rn = (rn', r)"
  shows "sh_events rn' = sh_events rn @ [EvSent session (sv_user server) credential]"
  using assms by (auto simp: send_credential_def split: prod.splits sum.splits)

text \<open>Authenticating sends at most one credential, for the user of the server, over the session it is given.\<close>

lemma authenticate_events:
  assumes "authenticate sy session name server provider rn = (rn', r)"
  shows "sh_events rn' = sh_events rn \<and> r \<noteq> Inr ()
    \<or> (\<exists>credential. sh_events rn' = sh_events rn @ [EvSent session (sv_user server) credential])"
proof (cases "sv_auth server")
  case AuthKey
  let ?path = "case sv_key server of Some k \<Rightarrow> k | None \<Rightarrow> ''~/.ssh/id_rsa''"
  obtain rn1 k where load: "load_secret_key_with sy (expand_tilde (sy_home sy) ?path) ?path name provider rn = (rn1, k)"
    by fastforce
  note same = load_secret_key_events[OF load]
  show ?thesis
  proof (cases k)
    case (Inl e)
    then show ?thesis using assms AuthKey load same by (simp add: authenticate_def Let_def) auto
  next
    case (Inr key)
    then have "send_credential sy session server ''Key authentication error: '' (CrKey key) rn1 = (rn', r)"
      using assms AuthKey load by (simp add: authenticate_def Let_def)
    from send_credential_events[OF this] show ?thesis using same by auto
  qed
next
  case AuthPassword
  show ?thesis
  proof (cases "resolve_password sy name (sv_password server)")
    case None
    then show ?thesis using assms AuthPassword by (simp add: authenticate_def) auto
  next
    case (Some p)
    then have "send_credential sy session server ''Password authentication error: '' (CrPassword (fst p)) rn = (rn', r)"
      using assms AuthPassword by (simp add: authenticate_def split: prod.splits)
    from send_credential_events[OF this] show ?thesis by auto
  qed
qed

lemma authenticated_events:
  assumes "authenticated sy session name server ssh provider rn = (rn', r)"
  shows "\<exists>evs. sh_events rn' = sh_events rn @ evs
    \<and> (evs = [] \<and> (\<forall>client. r \<noteq> Inr client)
       \<or> (\<exists>credential. evs = [EvSent session (sv_user server) credential]))
    \<and> (\<forall>client. r = Inr client \<longrightarrow> sc_session client = session)"
proof -
  obtain r1 where auth: "authenticate sy session name server provider rn = (rn', r1)"
    and r: "r = res_bind r1 (\<lambda>_. Inr \<lparr>sc_session = session, sc_server_name = name,
        sc_channel_timeout_sec = sc_timeout_sec ssh\<rparr>)"
    using assms by (auto simp: authenticated_def split: prod.splits)
  show ?thesis using authenticate_events[OF auth] r by (cases r1) auto
qed

subsection \<open>Connecting\<close>

text \<open>Of a list of events: credentials are sent only over a session cleared by the events before, for the
  user of the server; and a question is asked only about a key the file did not decide.\<close>

definition events_safe :: "('w, 'k) ssh_system \<Rightarrow> server_config \<Rightarrow> 'k ssh_event list \<Rightarrow> bool" where
  "events_safe sy server events \<longleftrightarrow>
     (\<forall>front session user credential rest. events = front @ EvSent session user credential # rest \<longrightarrow>
        user = sv_user server \<and> cleared sy server front session)
     \<and> (\<forall>front u approved rest. events = front @ EvAsked u approved # rest \<longrightarrow> undecided_in sy front u)"

lemma snoc_split: "xs @ [x] = front @ y # rest \<longleftrightarrow>
    rest = [] \<and> y = x \<and> front = xs \<or> (\<exists>rest'. rest = rest' @ [x] \<and> xs = front @ y # rest')"
  by (cases rest rule: rev_cases) auto

lemma events_safe_snoc:
  assumes "events_safe sy server xs"
    and "\<And>session user credential. x = EvSent session user credential \<Longrightarrow>
           user = sv_user server \<and> cleared sy server xs session"
    and "\<And>u approved. x = EvAsked u approved \<Longrightarrow> undecided_in sy xs u"
  shows "events_safe sy server (xs @ [x])"
  using assms unfolding events_safe_def snoc_split by metis

lemma events_safe_reads: "\<forall>e \<in> set evs. \<exists>c. e = EvRead c \<Longrightarrow> events_safe sy server evs"
  by (auto simp: events_safe_def)

definition connected_ok ::
  "('w, 'k) ssh_system \<Rightarrow> server_config \<Rightarrow> 'k ssh_event list \<Rightarrow> run_error + ssh_client \<Rightarrow> bool" where
  "connected_ok sy server events r \<longleftrightarrow>
     events_safe sy server events \<and>
     (\<forall>client. r = Inr client \<longrightarrow>
        (\<exists>front credential. events = front @ [EvSent (sc_session client) (sv_user server) credential]))"

lemma authenticated_ok:
  assumes "events_safe sy server (sh_events rn)" "cleared sy server (sh_events rn) session"
    and "authenticated sy session name server ssh provider rn = (rn', r)"
  shows "connected_ok sy server (sh_events rn') r"
proof -
  obtain evs where evs: "sh_events rn' = sh_events rn @ evs"
    "evs = [] \<and> (\<forall>client. r \<noteq> Inr client) \<or> (\<exists>credential. evs = [EvSent session (sv_user server) credential])"
    and client: "\<forall>client. r = Inr client \<longrightarrow> sc_session client = session"
    using authenticated_events[OF assms(3)] by blast
  from evs(2) show ?thesis
  proof
    assume "evs = [] \<and> (\<forall>client. r \<noteq> Inr client)"
    then show ?thesis using evs(1) assms(1) by (simp add: connected_ok_def)
  next
    assume "\<exists>credential. evs = [EvSent session (sv_user server) credential]"
    then obtain credential where e: "sh_events rn' = sh_events rn @ [EvSent session (sv_user server) credential]"
      using evs(1) by auto
    have "events_safe sy server (sh_events rn')" unfolding e using assms(1,2) by (intro events_safe_snoc) auto
    then show ?thesis using e client by (auto simp: connected_ok_def)
  qed
qed

lemma handle_unknown_ok:
  assumes "events_safe sy server (sh_events rn)" "undecided_in sy (sh_events rn) u"
    and "Some u = snd (unknown_key sy (sv_host server) (sv_port server) kt kb)"
    and "handle_unknown_host_verification sy u verifier name server ssh provider rn = (rn', r)"
  shows "connected_ok sy server (sh_events rn') r"
proof -
  obtain rn1 approved where asked: "in_world (verifier (uk_host u) (uk_port u) (uk_key_type u) (uk_fingerprint u)) rn
      = (rn1, approved)" by fastforce
  let ?rn2 = "noted (EvAsked u approved) rn1"
  have e2: "sh_events ?rn2 = sh_events rn @ [EvAsked u approved]" using asked by simp
  then have safe2: "events_safe sy server (sh_events ?rn2)" using assms(1,2) by (auto intro: events_safe_snoc)
  show ?thesis
  proof (cases approved)
    case False
    then show ?thesis using assms(4) asked safe2
      by (auto simp: handle_unknown_host_verification_def Let_def connected_ok_def)
  next
    case True
    let ?rn3 = "append_approved sy (sc_known_hosts ssh) u ?rn2"
    let ?appended = "EvAppended (uk_host u) (uk_port u) (uk_key_type u) (uk_key_base64 u)"
    have e3: "sh_events ?rn3 = sh_events ?rn2 @ [?appended]" by (simp add: append_approved_def Let_def)
    have safe3: "events_safe sy server (sh_events ?rn3)" using safe2 unfolding e3 by (intro events_safe_snoc) simp_all
    have u: "uk_key_type u = kt" "uk_key_base64 u = kb" using assms(3) by (auto simp: unknown_key_def)
    have approved: "approved_in sy server (sh_events ?rn3) kt kb"
      using True by (simp add: approved_in_def append_approved_def Let_def flip: assms(3))
    have finish: "connect_approved sy u name server ssh provider ?rn3 = (rn', r)"
      using assms(4) asked True by (simp add: handle_unknown_host_verification_def Let_def)
    obtain rn4 c u' where retry: "try_connect sy server ssh (ApprovedKey kt kb) ?rn3 = (rn4, c, u')"
      by (metis prod.exhaust)
    note same = try_connect_approved[OF retry]
    show ?thesis
    proof (cases "\<exists>session. c = Inr (Inr session)")
      case True
      then obtain key where c: "c = Inr (Inr (Session key))" by (metis session.exhaust)
      have "cleared sy server (sh_events rn4) (Session key)" using same c approved by simp
      then show ?thesis using authenticated_ok[of sy server rn4 "Session key"] same safe3 finish retry u c
        by (simp add: connect_approved_def)
    next
      case False
      then show ?thesis using finish retry u same safe3
        by (auto simp: connect_approved_def connected_ok_def split: sum.splits)
    qed
  qed
qed

text \<open>C25: credentials go only to a server whose key was cleared. In everything connecting does, a private key's
  signature or a password is sent only over a session whose presented key, exactly, had before been found
  trusted in known_hosts as it was read then, or approved by the user when asked about it; only for the
  user of the server; and the user is asked only about a key that known_hosts did not decide, never about
  one it holds as changed or revoked. A connection that succeeds sent its credential last, over the session
  it returns.\<close>

theorem credentials_only_to_cleared_keys:
  assumes "connect_with_verifier sy name server ssh verifier provider rn = (rn', r)" and "sh_events rn = []"
  shows "connected_ok sy server (sh_events rn') r"
proof -
  obtain rn1 c u where first: "try_connect sy server ssh (KnownHostsFile (sc_known_hosts ssh)) rn = (rn1, c, u)"
    by (metis prod.exhaust)
  obtain evs where evs: "sh_events rn1 = evs" "\<forall>e \<in> set evs. \<exists>c. e = EvRead c"
    and session: "\<forall>s. c = Inr (Inr s) \<longrightarrow> cleared sy server evs s"
    and unknown: "\<forall>x. u = Some x \<longrightarrow> undecided_in sy evs x
         \<and> (\<exists>kt kb. u = snd (unknown_key sy (sv_host server) (sv_port server) kt kb))"
    using try_connect_known[OF first] assms(2) by auto
  have safe: "events_safe sy server (sh_events rn1)" using evs events_safe_reads by blast
  consider (session) s where "c = Inr (Inr s)" | (unknown) e x where "c = Inr (Inl e)" "u = Some x"
    | (failed) "\<forall>s. c \<noteq> Inr (Inr s)" "(\<exists>e. c = Inl e) \<or> u = None" by (cases c; cases u; cases "projr c") auto
  then show ?thesis
  proof cases
    case session
    then show ?thesis using assms(1) first authenticated_ok[OF safe] \<open>\<forall>s. c = Inr (Inr s) \<longrightarrow> _\<close> evs(1)
      by (simp add: connect_with_verifier_def)
  next
    case (unknown e x)
    then show ?thesis using assms(1) first handle_unknown_ok[OF safe] \<open>\<forall>x. u = Some x \<longrightarrow> _\<close> evs(1)
      by (simp add: connect_with_verifier_def) metis
  next
    case failed
    then have "rn' = rn1 \<and> (\<forall>client. r \<noteq> Inr client)" using assms(1) first
      by (auto simp: connect_with_verifier_def split: sum.splits)
    then show ?thesis using safe by (simp add: connected_ok_def)
  qed
qed

text \<open>A server with an unknown key that the user approves.\<close>

definition sample_ssh_system :: "(nat, nat) ssh_system" where
  "sample_ssh_system =
     \<lparr>sy_algorithms = \<lparr>al_read = \<lambda>k n. Some n, al_default = \<lambda>k. [''d''], al_sha1_macs = [], al_none = \<lambda>k. []\<rparr>,
      sy_digests = \<lparr>dg_base64 = \<lambda>s. None, dg_hmac_sha1 = \<lambda>k m. None\<rparr>, sy_fingerprint = \<lambda>bs. bs,
      sy_refused_text = ''Unknown server key'',
      sy_attempt = \<lambda>p t h port w. (w + 1, AtKey (PrKey (Inr ''ssh-ed25519 BB'')) None),
      sy_read_known_hosts = \<lambda>k w. (w, Inr None), sy_append = \<lambda>k h port t b w. w,
      sy_authenticate = \<lambda>s u c w. (w, Inr True), sy_load_key = \<lambda>p s w. (w, Inr 7),
      sy_env = \<lambda>n. None, sy_upper = \<lambda>s. s, sy_home = None\<rparr>"

definition sample_server :: server_config where
  "sample_server =
     \<lparr>sv_host = ''h'', sv_port = 22, sv_user = ''u'', sv_auth = AuthPassword, sv_password = Some ''secret'', sv_key = None,
      sv_root_dir = ''/r'', sv_ssh_options = None, sv_sudo = False, sv_file_permissions = None, sv_dir_permissions = None\<rparr>"

definition sample_connected :: "(nat, nat) ssh_run \<times> (run_error + ssh_client)" where
  "sample_connected =
     connect_with_verifier sample_ssh_system ''s'' sample_server default_ssh auto_accept_verifier None
       \<lparr>sh_world = 0, sh_events = []\<rparr>"

definition sample_unknown_host :: unknown_host where
  "sample_unknown_host = \<lparr>uk_host = ''h'', uk_port = 22, uk_key_type = ''ssh-ed25519'',
     uk_fingerprint = ''SHA256:<unknown>'', uk_key_base64 = ''BB''\<rparr>"

lemma sample_connected_events:
  "sh_events (fst sample_connected) =
     [EvRead None, EvAsked sample_unknown_host True, EvAppended ''h'' 22 ''ssh-ed25519'' ''BB'',
      EvSent (Session ''ssh-ed25519 BB'') ''u'' (CrPassword ''secret'')]"
  by code_simp

theorem credentials_only_to_cleared_keys_witness:
  "connected_ok sample_ssh_system sample_server
     [EvRead None, EvAsked sample_unknown_host True, EvAppended ''h'' 22 ''ssh-ed25519'' ''BB'',
      EvSent (Session ''ssh-ed25519 BB'') ''u'' (CrPassword ''secret'')] (snd sample_connected)"
proof -
  have "connect_with_verifier sample_ssh_system ''s'' sample_server default_ssh auto_accept_verifier None
      \<lparr>sh_world = 0, sh_events = []\<rparr> = (fst sample_connected, snd sample_connected)"
    by (simp add: sample_connected_def)
  from credentials_only_to_cleared_keys[OF this] show ?thesis unfolding sample_connected_events by simp
qed

end
