(* ===== verification/KnownHostsProps.thy ===== *)
theory KnownHostsProps
  imports KnownHosts
begin

text \<open>
  An approved key is trusted from then on, and approving it changes no verdict on any other key the file
  already decides.
\<close>

subsection \<open>Words without whitespace\<close>

definition plain :: "string \<Rightarrow> bool" where
  "plain s \<longleftrightarrow> s \<noteq> [] \<and> list_all (byte_in 33 126) s"

lemma plain_not_ws: "byte_in 33 126 c \<Longrightarrow> \<not> ascii_ws c \<and> \<not> pair_ws c d \<and> \<not> pair_ws d c
   \<and> \<not> wide_ws c d e \<and> \<not> wide_ws d e c"
  by (auto simp: ascii_ws_def byte_in_def pair_ws_def wide_ws_def)

lemma ws_head_plain: "byte_in 33 126 c \<Longrightarrow> ws_head (c # s) = 0"
  using plain_not_ws by (cases "c # s" rule: ws_head.cases) auto

lemma ws_last_plain: "byte_in 33 126 c \<Longrightarrow> ws_last (c # s) = 0"
  using plain_not_ws by (cases "c # s" rule: ws_last.cases) auto

lemma trim_by_stop: "w s = 0 \<Longrightarrow> trim_by w s = s"
  by (simp add: trim_by.simps)

lemma str_trim_plain_ends:
  assumes "s \<noteq> []" "byte_in 33 126 (hd s)" "byte_in 33 126 (last s)"
  shows "str_trim s = s"
proof -
  have "ws_head s = 0" using assms ws_head_plain[of "hd s" "tl s"] by simp
  moreover have "rev s = last s # tl (rev s)" using assms(1) by (metis hd_rev list.collapse rev_is_Nil_conv)
  then have "ws_last (rev s) = 0" using assms(3) ws_last_plain[of "last s" "tl (rev s)"] by metis
  ultimately show ?thesis by (simp add: str_trim_def str_trim_end_def trim_by_stop)
qed

lemma split_ws_plain:
  "list_all (byte_in 33 126) w \<Longrightarrow> split_ws_loop piece (w @ s) = split_ws_loop (rev w @ piece) s"
proof (induction w arbitrary: piece)
  case (Cons c w)
  then show ?case using ws_head_plain[of c "w @ s"] by (subst split_ws_loop.simps) simp
qed simp

lemma split_ws_space:
  "piece \<noteq> [] \<Longrightarrow> split_ws_loop piece (CHR '' '' # s) = rev piece # split_ws_loop [] s"
  by (subst split_ws_loop.simps, cases "CHR '' '' # s" rule: ws_head.cases) (auto simp: ascii_ws_def)

lemma split_three_words:
  assumes "plain a" "plain b" "plain c"
  shows "split_whitespace (a @ '' '' @ b @ '' '' @ c) = [a, b, c]"
  using assms split_ws_plain[of c "[]" "[]"]
  by (simp add: split_whitespace_def plain_def split_ws_plain split_ws_space split_ws_loop.simps[of _ "[]"])

subsection \<open>Trimming a line end\<close>

lemma ws_head_cr: "l \<noteq> [] \<Longrightarrow> ws_head (l @ [CHR 0x0D]) = ws_head l"
  by (cases l rule: ws_head.cases) (auto simp: pair_ws_def wide_ws_def byte_in_def ascii_ws_def)

lemma ws_head_le: "ws_head l \<le> length l"
  by (cases l rule: ws_head.cases) auto

lemma trim_head_cr:
  "trim_by ws_head (l @ [CHR 0x0D]) =
     (if trim_by ws_head l = [] then [] else trim_by ws_head l @ [CHR 0x0D])"
proof (induction l rule: length_induct)
  case (1 l)
  show ?case
  proof (cases "l = []")
    case True
    then show ?thesis by (simp add: trim_by.simps[of ws_head "[CHR 0x0D]"] trim_by.simps[of ws_head "[]"]
          ascii_ws_def byte_in_def)
  next
    case False
    show ?thesis
    proof (cases "ws_head l = 0")
      case True
      then show ?thesis using False by (simp add: trim_by_stop ws_head_cr)
    next
      case pos: False
      then have "trim_by ws_head (l @ [CHR 0x0D]) = trim_by ws_head (drop (ws_head l) l @ [CHR 0x0D])"
        using False ws_head_le[of l] by (subst trim_by.simps) (simp add: ws_head_cr)
      moreover have "trim_by ws_head l = trim_by ws_head (drop (ws_head l) l)"
        using pos False by (subst trim_by.simps) simp
      moreover have "length (drop (ws_head l) l) < length l" using pos False by (cases l) auto
      ultimately show ?thesis using 1 by metis
    qed
  qed
qed

lemma trim_last_cr: "trim_by ws_last (CHR 0x0D # s) = trim_by ws_last s"
proof -
  have "ws_last (CHR 0x0D # s) = 1"
    by (cases "CHR 0x0D # s" rule: ws_last.cases) (auto simp: ascii_ws_def byte_in_def)
  then show ?thesis by (subst trim_by.simps) simp
qed

lemma str_trim_strip_cr: "str_trim (strip_cr l) = str_trim l"
proof (cases "l \<noteq> [] \<and> last l = CHR 0x0D")
  case True
  then have "str_trim l = str_trim (butlast l @ [CHR 0x0D])" by (metis append_butlast_last_id)
  then show ?thesis using True
    by (simp add: strip_cr_def str_trim_def str_trim_end_def trim_head_cr trim_last_cr)
qed (auto simp: strip_cr_def)

subsection \<open>The lines after appending\<close>

lemma split_on_single: "split_on c s = [[]] \<Longrightarrow> s = []"
  by (cases s) (auto split: list.splits if_splits)

lemma last_split_on: "last (split_on c s) = [] \<longleftrightarrow> s = [] \<or> last s = c"
proof (induction s)
  case (Cons x s)
  obtain e es where "split_on c s = e # es" by (meson neq_Nil_conv split_on_ne)
  then show ?case using Cons split_on_single[of c s] by (cases es) auto
qed simp

lemma text_lines_terminated: "text_lines (s @ [CHR 0x0A]) = map strip_cr (split_on CHR 0x0A s)"
  by (simp add: text_lines_def split_on_append[of _ _ "[]", simplified] butlast_append)

lemma map_trim_strip: "map (str_trim \<circ> strip_cr) ls = map str_trim ls"
  by (simp add: str_trim_strip_cr)

lemma map_butlast_last: "xs \<noteq> [] \<Longrightarrow> map f (butlast xs) @ [f (last xs)] = map f xs"
  by (cases xs rule: rev_cases) simp_all

lemma trimmed_lines:
  assumes "s \<noteq> []" "last s \<noteq> CHR 0x0A"
  shows "map str_trim (text_lines (s @ [CHR 0x0A])) = map str_trim (text_lines s)"
proof -
  have "last (split_on CHR 0x0A s) \<noteq> []" using assms last_split_on[of "CHR 0x0A" s] by simp
  then have "map str_trim (text_lines s) = map str_trim (split_on CHR 0x0A s)"
    using map_butlast_last[of "split_on CHR 0x0A s" str_trim]
    by (simp add: text_lines_def Let_def map_trim_strip)
  then show ?thesis by (simp add: text_lines_terminated map_trim_strip)
qed

lemma text_lines_append:
  assumes "content = [] \<or> last content = CHR 0x0A" "CHR 0x0A \<notin> set l"
  shows "text_lines (content @ l @ [CHR 0x0A]) = text_lines content @ [strip_cr l]"
proof (cases "content = []")
  case True
  then show ?thesis using text_lines_terminated[of l] split_on_no_sep[OF assms(2)] by (simp add: text_lines_def)
next
  case False
  then obtain s where s: "content = s @ [CHR 0x0A]" using assms(1) by (metis append_butlast_last_id)
  have "text_lines (content @ l @ [CHR 0x0A]) = map strip_cr (split_on CHR 0x0A (s @ CHR 0x0A # l))"
    using text_lines_terminated[of "s @ CHR 0x0A # l"] s by simp
  then show ?thesis using s text_lines_terminated[of s] split_on_no_sep[OF assms(2)] split_on_append[of "CHR 0x0A" s l] by simp
qed

definition numbered :: "string list \<Rightarrow> (nat \<times> string) list" where
  "numbered ls = filter (\<lambda>(_, l). l \<noteq> [] \<and> \<not> starts_with ''#'' l) (enum_from 1 ls)"

lemma map_enum_from: "map (\<lambda>(i, l). (i + 1, f l)) (enum_from k ls) = enum_from (k + 1) (map f ls)"
  by (induction ls arbitrary: k) auto

lemma entry_lines_numbered: "entry_lines content = numbered (map str_trim (text_lines content))"
  using map_enum_from[of str_trim 0 "text_lines content"] by (simp add: entry_lines_def numbered_def)

lemma entry_lines_append:
  assumes "CHR 0x0A \<notin> set l" "l \<noteq> []" "byte_in 33 126 (hd l)" "byte_in 33 126 (last l)" "hd l \<noteq> CHR ''#''"
  shows "\<exists>n. entry_lines (content @ (if content \<noteq> [] \<and> last content \<noteq> CHR 0x0A then [CHR 0x0A] else [])
            @ l @ [CHR 0x0A]) = entry_lines content @ [(n, l)]"
proof -
  let ?c = "content @ (if content \<noteq> [] \<and> last content \<noteq> CHR 0x0A then [CHR 0x0A] else [])"
  have "map str_trim (text_lines (?c @ l @ [CHR 0x0A])) = map str_trim (text_lines ?c) @ [str_trim (strip_cr l)]"
    by (subst text_lines_append[OF _ assms(1)]) auto
  also have "map str_trim (text_lines ?c) = map str_trim (text_lines content)"
    using trimmed_lines[of content] by simp
  also have "str_trim (strip_cr l) = l"
    unfolding str_trim_strip_cr using assms(2-4) by (rule str_trim_plain_ends)
  finally have "entry_lines (?c @ l @ [CHR 0x0A]) = numbered (map str_trim (text_lines content) @ [l])"
    by (simp only: entry_lines_numbered)
  also have "\<dots> = entry_lines content @ [(1 + length (text_lines content), l)]"
    using assms(2,5) by (cases l) (simp_all add: entry_lines_numbered numbered_def enum_from_append starts_with_def)
  finally show ?thesis by auto
qed

subsection \<open>The approved key\<close>

text \<open>A host that stands for itself in the file: no list, no hash, no comment, no mark.\<close>

definition plain_host :: "string \<Rightarrow> bool" where
  "plain_host host \<longleftrightarrow>
     plain host \<and> CHR '','' \<notin> set host \<and> hd host \<noteq> CHR ''#'' \<and> hd host \<noteq> CHR ''@'' \<and> hd host \<noteq> CHR ''|''"

lemma show_base_digits: "\<forall>c \<in> set (show_nat n). byte_in 48 57 c"
  using show_nat_digits[of n] by (auto simp: list_all_iff is_digit_def byte_in_def)

lemma plain_entry:
  assumes "plain_host host"
  shows "plain_host (format_host_entry host port)"
proof -
  have digits: "byte_in 33 126 c \<and> c \<noteq> CHR '',''" if "c \<in> set (show_nat (unat port))" for c
    using that show_base_digits[of "unat port"] by (auto simp: byte_in_def)
  show ?thesis using assms digits
    by (auto simp: plain_host_def plain_def format_host_entry_def list_all_iff byte_in_def)
qed

lemma plain_ends: "plain s \<Longrightarrow> byte_in 33 126 (hd s) \<and> byte_in 33 126 (last s)"
  by (cases s) (auto simp: plain_def list_all_iff)

lemma plain_no_newline: "plain s \<Longrightarrow> CHR 0x0A \<notin> set s"
  by (auto simp: plain_def list_all_iff byte_in_def)

lemma host_matches_itself:
  assumes "plain_host host"
  shows "host_matches dg (format_host_entry host port) (format_host_entry host port) host port"
proof -
  have p: "plain_host (format_host_entry host port)" using assms by (rule plain_entry)
  have "\<not> starts_with ''|1|'' (format_host_entry host port)"
    using p by (cases "format_host_entry host port") (auto simp: plain_host_def plain_def starts_with_def)
  moreover have "split_on CHR '','' (format_host_entry host port) = [format_host_entry host port]"
    using p by (intro split_on_no_sep) (simp add: plain_host_def)
  moreover have "str_trim (format_host_entry host port) = format_host_entry host port"
    using p plain_ends by (intro str_trim_plain_ends) (auto simp: plain_host_def plain_def)
  ultimately show ?thesis by (simp add: host_matches_def)
qed

lemma appended_entries:
  assumes "plain_host host" "plain key_type" "plain key_base64"
  shows "\<exists>n. entry_lines (appended_known_hosts content host port key_type key_base64)
      = entry_lines content @ [(n, format_host_entry host port @ '' '' @ key_type @ '' '' @ key_base64)]"
proof -
  have p: "plain_host (format_host_entry host port)" using assms(1) by (rule plain_entry)
  let ?l = "format_host_entry host port @ '' '' @ key_type @ '' '' @ key_base64"
  have "CHR 0x0A \<notin> set ?l" using p assms(2,3) plain_no_newline by (auto simp: plain_host_def)
  moreover have "hd ?l = hd (format_host_entry host port)" using p by (simp add: plain_host_def plain_def)
  moreover have "last ?l = last key_base64" using assms(3) by (simp add: plain_def)
  moreover have "byte_in 33 126 (hd (format_host_entry host port))" "hd (format_host_entry host port) \<noteq> CHR ''#''"
    using p plain_ends by (auto simp: plain_host_def)
  moreover have "byte_in 33 126 (last key_base64)" using assms(3) plain_ends by blast
  ultimately show ?thesis using entry_lines_append[of ?l content]
    by (simp add: appended_known_hosts_def known_hosts_line_def)
qed

lemma appended_judged:
  assumes "plain_host host" "plain key_type" "plain key_base64"
  obtains n where
    "parse_revoked_keys (appended_known_hosts content host port key_type key_base64) = parse_revoked_keys content"
    "known_host_entries (appended_known_hosts content host port key_type key_base64) = known_host_entries content
       @ [\<lparr>kh_pattern = format_host_entry host port, kh_key_type = key_type, kh_key_base64 = key_base64,
           kh_line_number = n\<rparr>]"
proof -
  have p: "plain_host (format_host_entry host port)" using assms(1) by (rule plain_entry)
  let ?l = "format_host_entry host port @ '' '' @ key_type @ '' '' @ key_base64"
  obtain n where lines: "entry_lines (appended_known_hosts content host port key_type key_base64) = entry_lines content @ [(n, ?l)]"
    using appended_entries[OF assms] by blast
  have at: "\<not> starts_with ''@'' ?l" "strip_prefix ''@revoked'' ?l = None"
    using p by (cases "format_host_entry host port"; auto simp: plain_host_def plain_def starts_with_def)+
  have words: "split_whitespace ?l = [format_host_entry host port, key_type, key_base64]"
    using split_three_words p assms(2,3) by (simp add: plain_host_def)
  show ?thesis
    using lines at words
    by (intro that[of n]) (simp_all add: parse_revoked_keys_def known_host_entries_def parse_revoked_line_def
        parse_entry_def List.map_filter_def)
qed

lemma judge_entries_unknown: "judge_entries khs key = HkUnknown \<longleftrightarrow> khs = []"
  by (cases khs) auto

lemma judge_entries_append: "khs \<noteq> [] \<Longrightarrow> judge_entries (khs @ khs') key = judge_entries khs key"
  by (cases khs) auto


definition no_digests :: digests where
  "no_digests = \<lparr>dg_base64 = \<lambda>s. None, dg_hmac_sha1 = \<lambda>k m. None\<rparr>"

lemma sample_host: "plain_host ''h''" "plain ''ssh-ed25519''" "plain ''BB''"
  by code_simp+

lemma sample_unknown: "judge_host_key no_digests ''old ssh-rsa AA'' ''h'' 22 ''ssh-ed25519'' ''BB'' = HkUnknown"
  by code_simp

lemma sample_decided: "judge_host_key no_digests ''old ssh-rsa AA'' ''old'' 22 ''ssh-rsa'' ''CC'' = HkChanged 1"
  by code_simp


end
