(* ===== verification/LoginShell.thy ===== *)
theory LoginShell
  imports Prelude
begin

text \<open>
  Commands for the shell of another machine (\<open>login_shell.rs\<close> of remote-merge-ssh and \<open>deploy/quote.rs\<close> of
  remote-merge-agent): quoting, and how a shell reads what was quoted. A command goes through the login
  shell of the user, which is a Bourne shell or fish, before \<open>sh\<close> gets the script.
\<close>

definition single_quote :: char where
  "single_quote = CHR 0x27"

definition backslash :: char where
  "backslash = CHR 0x5C"

fun wrapped_char :: "char \<Rightarrow> string" where
  "wrapped_char ch =
     (if ch = single_quote \<or> ch = backslash then [single_quote, backslash, ch, single_quote] else [ch])"

definition wrap_for_login_shell :: "string \<Rightarrow> string" where
  "wrap_for_login_shell script =
     ''sh -c '' @ [single_quote] @ concat (map wrapped_char script) @ [single_quote]"

text \<open>\<open>s.replace('\'', "'\\''")\<close> between single quotes.\<close>

definition shell_escape :: "string \<Rightarrow> string" where
  "shell_escape s =
     [single_quote]
     @ concat (map (\<lambda>c. if c = single_quote then [single_quote, backslash, single_quote, single_quote] else [c]) s)
     @ [single_quote]"

subsection \<open>How a shell reads words\<close>

text \<open>
  The words of a simple command: outside quotes letters, digits, \<open>-\<close>, \<open>/\<close> and escaped characters,
  separated by spaces; anything else there has a meaning of its own and is not a simple command. Inside
  single quotes a Bourne shell takes every character as it is, fish lets a backslash escape a single quote
  or a backslash.
\<close>

datatype login_shell = Bourne | Fish

datatype quoting = Unquoted | Escaped | Quoted | QuotedEscape

definition plain_char :: "char \<Rightarrow> bool" where
  "plain_char c \<longleftrightarrow>
     byte_in 48 57 c \<or> byte_in 65 90 c \<or> byte_in 97 122 c \<or> c = CHR ''-'' \<or> c = CHR ''/''"

definition end_word :: "string option \<Rightarrow> string list \<Rightarrow> string list" where
  "end_word w ws = (case w of None \<Rightarrow> ws | Some x \<Rightarrow> ws @ [x])"

definition add_to_word :: "string option \<Rightarrow> char \<Rightarrow> string option" where
  "add_to_word w c = Some ((case w of None \<Rightarrow> [] | Some x \<Rightarrow> x) @ [c])"

fun read_words :: "login_shell \<Rightarrow> quoting \<Rightarrow> string list \<Rightarrow> string option \<Rightarrow> string \<Rightarrow> string list option" where
  "read_words sh q ws w [] = (if q = Unquoted then Some (end_word w ws) else None)"
| "read_words sh Unquoted ws w (c # cs) =
     (if c = CHR '' '' then read_words sh Unquoted (end_word w ws) None cs
      else if c = single_quote then
        read_words sh Quoted ws (Some (case w of None \<Rightarrow> [] | Some x \<Rightarrow> x)) cs
      else if c = backslash then read_words sh Escaped ws w cs
      else if plain_char c then read_words sh Unquoted ws (add_to_word w c) cs
      else None)"
| "read_words sh Escaped ws w (c # cs) = read_words sh Unquoted ws (add_to_word w c) cs"
| "read_words sh Quoted ws w (c # cs) =
     (if c = single_quote then read_words sh Unquoted ws w cs
      else if c = backslash \<and> sh = Fish then read_words sh QuotedEscape ws w cs
      else read_words sh Quoted ws (add_to_word w c) cs)"
| "read_words sh QuotedEscape ws w (c # cs) =
     read_words sh Quoted ws
       (if c = single_quote \<or> c = backslash then add_to_word w c
        else add_to_word (add_to_word w backslash) c) cs"

lemma quote_chars [simp]:
  "single_quote \<noteq> backslash" "backslash \<noteq> single_quote" "single_quote \<noteq> CHR '' ''" "backslash \<noteq> CHR '' ''"
  by (simp_all add: single_quote_def backslash_def)

lemma wrapped_read:
  "read_words sh Quoted ws (Some w) (concat (map wrapped_char s) @ single_quote # rest)
   = read_words sh Unquoted ws (Some (w @ s)) rest"
  by (induction s arbitrary: w) (auto simp: add_to_word_def)

lemma escaped_read:
  assumes "sh = Bourne \<or> backslash \<notin> set s"
  shows "read_words sh Quoted ws (Some w)
      (concat (map (\<lambda>c. if c = single_quote then [single_quote, backslash, single_quote, single_quote] else [c]) s)
       @ single_quote # rest)
    = read_words sh Unquoted ws (Some (w @ s)) rest"
  using assms by (induction s arbitrary: w) (auto simp: add_to_word_def)


text \<open>An argument quoted by \<open>shell_escape\<close> is one word for the \<open>sh\<close> that reads the script.\<close>

lemma shell_escape_read:
  "read_words Bourne Unquoted ws None (shell_escape s @ rest) = read_words Bourne Unquoted ws (Some s) rest"
  using escaped_read[of Bourne s ws "[]" rest] by (simp add: shell_escape_def)

end
