(* ===== verification/Spec2Isabelle.thy ===== *)
theory Spec2Isabelle
  imports OpFailure RelPath ConflictProps PathProps ScanProps CompareProps ReadsProps MergeProps ChangeCheck
    ConfigProps Framing RuntimeProps CompareRules RollbackProps StoreProps AgentProps SshProps KnownHostsProps RollbackApply DiffTreat Status
    Prepare LoginShell
begin

text \<open>
  A model of remote-merge: a program that compares the trees of files below two or three root
  directories (this machine, remote machines over SSH, an optional reference) and merges chosen
  files or hunks from one side into the other.

  The program's parts. A command asks the sides for facts through one set of operations
  (\<open>remote-merge-core/src/machine_ops\<close>): resolving a path, listing what lies below it, hashing and
  reading content, and changing one entry. The core crate holds what those operations mean and
  every decision that needs no I/O; the engine crate puts them in order for each command; the other
  crates carry the operations to a machine. The theories follow the core crate.

  Which theory models which part (paths below \<open>src/crates/remote-merge-core/src\<close>):
    Prelude: byte strings, the string functions of Rust's std, results, sorted association lists for
      BTreeMap (the locale \<open>ordered_map\<close>), UTF-8;
    OpFailure: \<open>op_failure\<close>, the failures of an operation and their words;
    RelPath: \<open>relative_path\<close>, paths below root_dir and entries named by the user, with the round trips
      and the safety of parsing;
    Content: \<open>content\<close>, binary or text, BOM and lines;
    DiffEngine, DiffProps: \<open>diff/engine.rs\<close>, the script of a pair, its hunks, and applying them;
    Conflict, ConflictProps: \<open>diff/conflict.rs\<close>, conflicts against a reference;
    PathResolution, PathProps: \<open>path_resolution\<close>, the walk that resolves symlinks below root_dir;
    Exclude: \<open>filter.rs\<close>, \<open>unreadable_name.rs\<close>, \<open>scan/exclude.rs\<close>;
    ScanTypes, ScanWalk, ScanDrive, ScanProps: \<open>scan\<close>, listing what lies below the starts;
    Compare, CompareFlow, CompareProps: \<open>compare\<close>, from the states of the sides to verdicts;
    ChangeCheck: \<open>change_check.rs\<close>, what became of a change whose answer was lost;
    AppError, RouteChoice, Text: \<open>error.rs\<close>, \<open>route_choice\<close>, and the string functions they share.
  The engine crate (\<open>remote-merge-engine/src\<close>): Sides (\<open>side.rs\<close>, \<open>treat/sides.rs\<close>), Merge and MergeProps
  (\<open>treat/merge*.rs\<close>, the plan of a merge), Uses (\<open>treat/uses.rs\<close>, \<open>treat/merge_uses.rs\<close>), ScanResults
  (\<open>scan_result.rs\<close>, \<open>child_listing.rs\<close>, \<open>treat/incomplete.rs\<close>), Status (\<open>treat/status*.rs\<close>,
  \<open>treat/sync.rs\<close>), Lossy (UTF-8 read with replacements), Prepare (\<open>treat/content.rs\<close>, \<open>treat/hunk_merge.rs\<close>),
  DiffTreat (\<open>treat/diff*.rs\<close>, what diff shows), Sessions (\<open>backup/mod.rs\<close>, \<open>treat/rollback_session.rs\<close>),
  Rollback (\<open>treat/rollback.rs\<close>, the plan of a rollback) and BackupStore (\<open>backup_store.rs\<close>,
  \<open>backup_store_cleanup.rs\<close>). StoreFiles states what BackupStore relies on of the file system, as the locale
  \<open>file_calls\<close>, MemoryFiles keeps that contract in memory with any call failing, and StoreProps holds the properties.
  The settings (\<open>remote-merge-config/src\<close>, \<open>remote-merge-settings/src\<close>): ConfigValue, ConfigInclude,
  ConfigMerge and ConfigProps, from the raw layers to the settings of a run.
  The protocol (\<open>remote-merge-protocol/src\<close>): Framing, and Wire for the values an agent answers.
  The agent (\<open>remote-merge-agent/src/agent\<close>): AgentServer (the requests and the loop of the server), AgentClient
  and AgentReads (the client over a byte stream), AgentProps (client and server together).
  SSH (\<open>remote-merge-ssh/src\<close>): KnownHosts and KnownHostsProps (\<open>known_hosts.rs\<close>), SshConnect and SshSession
  (checking a key, authenticating and connecting: \<open>client.rs\<close>, \<open>host_key_verifier.rs\<close> and the files of the
  credentials), SshProps, and LoginShell (\<open>login_shell.rs\<close> and the quoting of the agent's start).
  The runtime (\<open>remote-merge/src/runtime\<close>): CompareReads and ReadsProps (what a comparison reads),
  Connection (kinds of failure), Runtime (connections and stopped sides), Targets (the operations on one
  side), RootWatch (a root_dir that is gone), CompareStarts (collecting the listings and the whole comparison),
  Confirm (a change that lost its connection, the check before a change), MergeApply (changing the destination
  of a merge), RollbackApply (restoring a session). RuntimeRules, ChangeRules and CompareRules show what all of
  these keep, as locales with one rule per operation; AppliedPlan and RuntimeProps use them for the
  properties of a run.
  The commands (\<open>remote-merge/src/cli\<close>): PlanApply (\<open>plan_apply.rs\<close>, \<open>compare_steps.rs\<close>), MergeCommand
  (\<open>merge*.rs\<close>), SyncCommand (\<open>sync*.rs\<close>), ReadCommands (\<open>status.rs\<close>, \<open>diff*.rs\<close>) and RollbackCommand
  (\<open>rollback.rs\<close>), each from its arguments to its result and exit code. CommandRules extends the locales of
  the runtime to whole commands; CommandProps, ResultProps and RollbackProps hold their properties.

  How code becomes HOL. Strings and byte vectors are lists of char, read as bytes; a \<open>String\<close> of the
  code is such a list that is UTF-8 where that matters. u64, u32 and u8 are words of that width, usize
  a natural number, i64 an int. Result is a sum with the error on the left, Option is option. A call
  that could panic (an index, a slice, an unwrap) answers option, or the stop \<open>StopPanic\<close>, so that a
  panic is a branch of the model; \<open>apply_replaces_selected_hunks\<close>, \<open>text_conflicts_correct\<close>,
  \<open>build_hunks_correct\<close> and \<open>scan_never_panics\<close> prove those branches dead. Mutable state (\<open>Walk\<close>, the state of the path walk)
  is a record that each operation takes and returns. A BTreeMap is an association list
  sorted by its keys, maps keyed by a role are HOL maps over the four roles.

  What is a parameter. The line diff of the crate similar (its contract is \<open>diff_ok\<close>: the script it
  answers spells both sides), the glob matcher, the decoders of encoding_rs, SHA-256, HMAC-SHA1, Base64 and
  MessagePack (reading back what was written is the hypothesis where it is used), the calls of the operating
  system: in the path walk \<open>path_ops\<close>, in a scan the collector that answers subtrees and links, the
  operations of the agent's machine and the SSH library; the clock, the format of an instant, and the line the
  user answers to a question. In the runtime the machines (SSH sessions, the client of an agent, this machine) are
  the parameter \<open>machine\<close> and the store of backups the parameter \<open>store\<close>: functions of a state of the
  world that any call may change. No property of a scan, of the walk or of what a command changes assumes
  anything of these.

  Termination. No function has fuel. The two loops over names that may be taken, of BackupStore, are partial
  functions: the search for a free session id is proved to end, the one for a temporary name counts on. The walk ends because a turn either inserts one of at most
  \<open>symlink_limit\<close> links or shortens the queue; the loops of a scan over a collector's answers are
  recursions over lists and over what is left to ask. Every other recursive function of the development is
  proved total.

  What the properties show. Paths: whatever is resolved is canonical and agrees with the
  basic operations; parsing accepts only entries below root_dir. Diff: hunks partition the changes,
  applying selected hunks changes those lines and no others. Conflicts: the regions are the
  overlapping, different changes. Scan: nothing excluded is listed, the limit is kept, no answer of
  the collector makes it panic. Compare: the table gives each side of each path one fate, settling
  answers each pair, and a change is let through only when the side is as it was compared; a comparison
  changes nothing and never panics. Runtime: a merge
  alters nothing but what was planned, each call at most once and behind its backup; a lost read is repeated
  once; a stopped side stays stopped and is left alone; every change is answered. Agent and SSH: files and
  trees come through client, frames and server as they are on the machine; an approved host key is trusted from
  then on and credentials go only over sessions whose key was cleared; a wrapped script reaches sh unchanged.
  Backups: what was saved is read back exactly after any later use of the store, removing expired sessions
  touches nothing else, and reserving a session ends with a new id.
  Commands: merge and sync alter only their destinations and only as planned, behind the backups that are kept;
  rollback restores only what is as recorded, all of a session or nothing; status, diff and every --dry-run
  change nothing; sync reports every path of every destination and diff accounts for every name; a merge of
  files, sync and status never panic.

  What is not modelled: reading directories and files of this machine, the SSH transport and running commands
  over a session, finding, copying and starting the agent on a server, reading files of the configuration and
  parsing TOML, parsing of the command line (clap), the wording of questions and
  warnings, rendering results as text or JSON, logging and the listing of logs, and closing the connections
  when a command ends. The hooks that only tests use are left out.
\<close>

end
